(* ===== verification/OS_Prelude.thy ===== *)
theory OS_Prelude
  imports Main "HOL-Library.Char_ord" "HOL-Library.List_Lexorder" "HOL-Library.Product_Lexorder"
begin

text \<open>
  Shared vocabulary of the OverSync development.

  \<^item> Strings of the TypeScript code are \<open>string\<close> (lists of 8-bit characters). The code only
    lower-cases, compares and measures hexadecimal and base-32 text, for which this is exact.
  \<^item> An asynchronous method that reads and writes a store and may throw is a computation
    \<open>('s, 'e, 'a) comp\<close>: it maps the store to an outcome (\<open>Inl\<close> the exception, \<open>Inr\<close> the result)
    and the store it leaves behind. What was written before an exception stays written, as in
    the code.
  \<^item> \<open>keeps P m\<close> says that \<open>m\<close> preserves the store predicate \<open>P\<close> on every outcome; the locale
    \<open>effect_order\<close> does the same for a reflexive and transitive relation between the store before
    and the store after. Both come with one rule per combinator, collected in \<open>keeps_rules\<close> and in
    the locale's \<open>within\<close> rules, so that a component proves its invariant by applying them.
\<close>

named_theorems keeps_rules \<open>invariant preservation, one rule per combinator or operation\<close>
named_theorems comp_defs \<open>definitions of the combinators, for evaluation\<close>

section \<open>Strings\<close>

definition lower_char :: "char \<Rightarrow> char" where
  "lower_char c =
     (if 65 \<le> (of_char c :: nat) \<and> (of_char c :: nat) \<le> 90 then char_of ((of_char c :: nat) + 32)
      else c)"

text \<open>\<open>String.prototype.toLowerCase\<close> on ASCII text.\<close>

definition toLowerCase :: "string \<Rightarrow> string" where
  "toLowerCase s = map lower_char s"

lemma lower_char_idem [simp]: "lower_char (lower_char c) = lower_char c"
  by (auto simp: lower_char_def)

lemma toLowerCase_idem [simp]: "toLowerCase (toLowerCase s) = toLowerCase s"
  by (simp add: toLowerCase_def)

lemma length_toLowerCase [simp]: "length (toLowerCase s) = length s"
  by (simp add: toLowerCase_def)

lemma toLowerCase_Nil [simp]: "toLowerCase [] = []"
  by (simp add: toLowerCase_def)

lemma toLowerCase_append [simp]: "toLowerCase (s @ t) = toLowerCase s @ toLowerCase t"
  by (simp add: toLowerCase_def)

definition is_digit :: "char \<Rightarrow> bool" where
  "is_digit c \<longleftrightarrow> 48 \<le> (of_char c :: nat) \<and> (of_char c :: nat) \<le> 57"

definition is_lower_hex :: "char \<Rightarrow> bool" where
  "is_lower_hex c \<longleftrightarrow> is_digit c \<or> 97 \<le> (of_char c :: nat) \<and> (of_char c :: nat) \<le> 102"

definition is_hex :: "char \<Rightarrow> bool" where
  "is_hex c \<longleftrightarrow> is_lower_hex c \<or> 65 \<le> (of_char c :: nat) \<and> (of_char c :: nat) \<le> 70"

definition is_space :: "char \<Rightarrow> bool" where
  "is_space c \<longleftrightarrow> (of_char c :: nat) \<in> {9, 10, 11, 12, 13, 32, 160}"

text \<open>The regular expression \<open>/^0x[0-9a-fA-F]{n}$/\<close>.\<close>

definition is_0x_hex :: "nat \<Rightarrow> string \<Rightarrow> bool" where
  "is_0x_hex n s \<longleftrightarrow> take 2 s = ''0x'' \<and> length s = n + 2 \<and> list_all is_hex (drop 2 s)"

lemma is_hex_lower_char [simp]: "is_hex c \<Longrightarrow> is_hex (lower_char c)"
  by (auto simp: is_hex_def is_lower_hex_def is_digit_def lower_char_def)

lemma is_0x_hex_lower [simp]: "is_0x_hex n s \<Longrightarrow> is_0x_hex n (toLowerCase s)"
proof -
  assume s: "is_0x_hex n s"
  then have "take 2 (toLowerCase s) = toLowerCase ''0x''"
    unfolding is_0x_hex_def toLowerCase_def by (simp add: take_map)
  also have "\<dots> = ''0x''" by (simp add: toLowerCase_def lower_char_def)
  finally show ?thesis
    using s by (simp add: is_0x_hex_def) (auto simp: toLowerCase_def drop_map list_all_iff)
qed

text \<open>The regular expression \<open>/^\d+$/\<close>.\<close>

definition is_decimal :: "string \<Rightarrow> bool" where
  "is_decimal s \<longleftrightarrow> s \<noteq> [] \<and> list_all is_digit s"

definition digit_val :: "char \<Rightarrow> nat" where
  "digit_val c = of_char c - 48"

text \<open>\<open>BigInt(s)\<close> for a string of decimal digits.\<close>

definition parse_digits :: "string \<Rightarrow> nat" where
  "parse_digits s = foldl (\<lambda>n c. 10 * n + digit_val c) 0 s"

text \<open>Decimal rendering of a natural number (\<open>BigInt.prototype.toString\<close>).\<close>

fun show_nat :: "nat \<Rightarrow> string" where
  "show_nat n =
     (if n < 10 then [char_of (48 + n)] else show_nat (n div 10) @ [char_of (48 + n mod 10)])"

declare show_nat.simps [simp del]

definition show_int :: "int \<Rightarrow> string" where
  "show_int i = (if i < 0 then ''-'' @ show_nat (nat (- i)) else show_nat (nat i))"

lemma digit_val_char_of [simp]: "n < 10 \<Longrightarrow> digit_val (char_of (48 + n :: nat)) = n"
  by (simp add: digit_val_def)

lemma is_digit_char_of [simp]: "n < 10 \<Longrightarrow> is_digit (char_of (48 + n :: nat))"
  by (simp add: is_digit_def)

lemma parse_digits_snoc [simp]: "parse_digits (s @ [c]) = 10 * parse_digits s + digit_val c"
  by (simp add: parse_digits_def)

lemma parse_digits_Nil [simp]: "parse_digits [] = 0"
  by (simp add: parse_digits_def)

lemma parse_show_nat [simp]: "parse_digits (show_nat n) = n"
proof (induction n rule: show_nat.induct)
  case (1 n)
  show ?case
  proof (cases "n < 10")
    case True
    then show ?thesis
      by (subst show_nat.simps) (simp add: parse_digits_def)
  next
    case False
    with 1 show ?thesis by (subst show_nat.simps) simp
  qed
qed

lemma is_decimal_show_nat [simp]: "is_decimal (show_nat n)"
proof (induction n rule: show_nat.induct)
  case (1 n)
  then show ?case
    by (subst show_nat.simps) (auto simp: is_decimal_def)
qed

lemma show_nat_inj: "show_nat m = show_nat n \<Longrightarrow> m = n"
  by (metis parse_show_nat)

lemma show_nat_digits: "list_all is_digit (show_nat n)" "show_nat n \<noteq> []"
  using is_decimal_show_nat [of n] by (simp_all add: is_decimal_def)

lemma hd_show_nat: "0 < n \<Longrightarrow> hd (show_nat n) \<noteq> CHR ''0''"
proof (induction n rule: show_nat.induct)
  case (1 n)
  have zero: "char_of (48 + n) = CHR ''0'' \<Longrightarrow> n < 10 \<Longrightarrow> n = 0"
    using digit_val_char_of [of n] by (simp add: digit_val_def)
  show ?case
  proof (cases "n < 10")
    case True
    with 1 zero show ?thesis by (subst show_nat.simps) auto
  next
    case False
    then have "0 < n div 10" by simp
    with 1 False show_nat_digits(2) show ?thesis by (subst show_nat.simps) simp
  qed
qed

lemma takeWhile_digits:
  "list_all is_digit ds \<Longrightarrow> (r = [] \<or> \<not> is_digit (hd r)) \<Longrightarrow>
   takeWhile is_digit (ds @ r) = ds \<and> dropWhile is_digit (ds @ r) = r"
  by (induction ds) (auto, (cases r; simp)+)

section \<open>Tables as lists of rows\<close>

text \<open>
  \<open>UPDATE t SET .. WHERE P\<close> rewrites the matching rows in place, \<open>SELECT .. WHERE P\<close> read with
  \<open>get\<close> answers the first matching row (\<open>List.find\<close>).
\<close>

definition update_where :: "('r \<Rightarrow> bool) \<Rightarrow> ('r \<Rightarrow> 'r) \<Rightarrow> 'r list \<Rightarrow> 'r list" where
  "update_where P f rs = map (\<lambda>r. if P r then f r else r) rs"

lemma update_where_Nil [simp]: "update_where P f [] = []"
  by (simp add: update_where_def)

lemma update_where_Cons [simp]:
  "update_where P f (r # rs) = (if P r then f r else r) # update_where P f rs"
  by (simp add: update_where_def)

lemma length_update_where [simp]: "length (update_where P f rs) = length rs"
  by (simp add: update_where_def)

lemma map_update_where [simp]:
  "(\<And>r. P r \<Longrightarrow> k (f r) = k r) \<Longrightarrow> map k (update_where P f rs) = map k rs"
  by (simp add: update_where_def)

lemma set_update_where:
  "set (update_where P f rs) = f ` {r \<in> set rs. P r} \<union> {r \<in> set rs. \<not> P r}"
  by (auto simp: update_where_def)

lemma find_update_where:
  "(\<And>r. k (f r) = k r) \<Longrightarrow>
   find (\<lambda>r. k r = x) (update_where P f rs) =
     map_option (\<lambda>r. if P r then f r else r) (find (\<lambda>r. k r = x) rs)"
  by (induction rs) auto

lemma find_SomeD: "find P xs = Some x \<Longrightarrow> x \<in> set xs \<and> P x"
  by (auto simp: find_Some_iff)

lemma find_distinct_key:
  "distinct (map k rs) \<Longrightarrow> r \<in> set rs \<Longrightarrow> find (\<lambda>r'. k r' = k r) rs = Some r"
  by (induction rs) (auto simp: image_iff)

lemma find_append: "find P (xs @ ys) = (case find P xs of None \<Rightarrow> find P ys | Some x \<Rightarrow> Some x)"
  by (induction xs) auto

section \<open>Computations with a store and exceptions\<close>

type_synonym ('s, 'e, 'a) comp = "'s \<Rightarrow> ('e + 'a) \<times> 's"

definition ret :: "'a \<Rightarrow> ('s, 'e, 'a) comp" where
  "ret x = (\<lambda>s. (Inr x, s))"

definition throw :: "'e \<Rightarrow> ('s, 'e, 'a) comp" where
  "throw e = (\<lambda>s. (Inl e, s))"

definition gets :: "('s \<Rightarrow> 'a) \<Rightarrow> ('s, 'e, 'a) comp" where
  "gets f = (\<lambda>s. (Inr (f s), s))"

definition modify :: "('s \<Rightarrow> 's) \<Rightarrow> ('s, 'e, unit) comp" where
  "modify f = (\<lambda>s. (Inr (), f s))"

definition bindE :: "('s, 'e, 'a) comp \<Rightarrow> ('a \<Rightarrow> ('s, 'e, 'b) comp) \<Rightarrow> ('s, 'e, 'b) comp" where
  "bindE m f = (\<lambda>s. case m s of (Inl e, s') \<Rightarrow> (Inl e, s') | (Inr x, s') \<Rightarrow> f x s')"

definition thenE :: "('s, 'e, 'a) comp \<Rightarrow> ('s, 'e, 'b) comp \<Rightarrow> ('s, 'e, 'b) comp" where
  "thenE m n = bindE m (\<lambda>_. n)"

text \<open>\<open>try { m } catch (e) { h e }\<close>\<close>

definition catchE :: "('s, 'e, 'a) comp \<Rightarrow> ('e \<Rightarrow> ('s, 'e, 'a) comp) \<Rightarrow> ('s, 'e, 'a) comp" where
  "catchE m h = (\<lambda>s. case m s of (Inl e, s') \<Rightarrow> h e s' | (Inr x, s') \<Rightarrow> (Inr x, s'))"

text \<open>A pure step that may throw, inside a computation.\<close>

definition liftE :: "'e + 'a \<Rightarrow> ('s, 'e, 'a) comp" where
  "liftE r = (\<lambda>s. (r, s))"

lemma ret_apply [simp, comp_defs]: "ret x s = (Inr x, s)"
  by (simp add: ret_def)

lemma throw_apply [simp, comp_defs]: "throw e s = (Inl e, s)"
  by (simp add: throw_def)

lemma gets_apply [simp, comp_defs]: "gets f s = (Inr (f s), s)"
  by (simp add: gets_def)

lemma modify_apply [simp, comp_defs]: "modify f s = (Inr (), f s)"
  by (simp add: modify_def)

lemma liftE_apply [simp, comp_defs]: "liftE r s = (r, s)"
  by (simp add: liftE_def)

lemma bindE_apply [comp_defs]:
  "bindE m f s = (case m s of (Inl e, s') \<Rightarrow> (Inl e, s') | (Inr x, s') \<Rightarrow> f x s')"
  by (simp add: bindE_def)

lemma thenE_apply [comp_defs]:
  "thenE m n s = (case m s of (Inl e, s') \<Rightarrow> (Inl e, s') | (Inr x, s') \<Rightarrow> n s')"
  by (simp add: thenE_def bindE_def)

lemma catchE_apply [comp_defs]:
  "catchE m h s = (case m s of (Inl e, s') \<Rightarrow> h e s' | (Inr x, s') \<Rightarrow> (Inr x, s'))"
  by (simp add: catchE_def)

lemma bindE_ret [simp]: "bindE (ret x) f = f x"
  by (simp add: bindE_def ret_def)

lemma bindE_throw [simp]: "bindE (throw e) f = throw e"
  by (simp add: bindE_def throw_def)

lemma bindE_gets: "bindE (gets g) f s = f (g s) s"
  by (simp add: bindE_def)

subsection \<open>Preservation of a store predicate\<close>

definition keeps :: "('s \<Rightarrow> bool) \<Rightarrow> ('s, 'e, 'a) comp \<Rightarrow> bool" where
  "keeps P m \<longleftrightarrow> (\<forall>s. P s \<longrightarrow> P (snd (m s)))"

lemma keepsI: "(\<And>s. P s \<Longrightarrow> P (snd (m s))) \<Longrightarrow> keeps P m"
  by (simp add: keeps_def)

lemma keepsD: "keeps P m \<Longrightarrow> P s \<Longrightarrow> P (snd (m s))"
  by (simp add: keeps_def)

lemma keepsD': "keeps P m \<Longrightarrow> P s \<Longrightarrow> m s = (r, s') \<Longrightarrow> P s'"
  by (metis keeps_def snd_conv)

lemma keeps_ret [keeps_rules]: "keeps P (ret x)"
  by (simp add: keeps_def)

lemma keeps_throw [keeps_rules]: "keeps P (throw e)"
  by (simp add: keeps_def)

lemma keeps_gets [keeps_rules]: "keeps P (gets f)"
  by (simp add: keeps_def)

lemma keeps_liftE [keeps_rules]: "keeps P (liftE r)"
  by (simp add: keeps_def)

lemma keeps_bindE [keeps_rules]: "keeps P m \<Longrightarrow> (\<And>x. keeps P (f x)) \<Longrightarrow> keeps P (bindE m f)"
  unfolding keeps_def bindE_apply
  by (auto split: prod.splits sum.splits)

lemma keeps_thenE [keeps_rules]: "keeps P m \<Longrightarrow> keeps P n \<Longrightarrow> keeps P (thenE m n)"
  by (simp add: thenE_def keeps_bindE)

lemma keeps_catchE [keeps_rules]:
  "keeps P m \<Longrightarrow> (\<And>e. keeps P (h e)) \<Longrightarrow> keeps P (catchE m h)"
  unfolding keeps_def catchE_apply
  by (auto split: prod.splits sum.splits)

lemma keeps_if [keeps_rules]: "keeps P m \<Longrightarrow> keeps P n \<Longrightarrow> keeps P (if b then m else n)"
  by simp

lemma keeps_option [keeps_rules]:
  "keeps P m \<Longrightarrow> (\<And>x. keeps P (f x)) \<Longrightarrow>
   keeps P (case v of None \<Rightarrow> m | Some x \<Rightarrow> f x)"
  by (cases v) auto

lemma keeps_Let [keeps_rules]: "(\<And>x. keeps P (f x)) \<Longrightarrow> keeps P (let x = v in f x)"
  by simp

subsection \<open>A relation between the store before and the store after\<close>

locale effect_order =
  fixes le :: "'s \<Rightarrow> 's \<Rightarrow> bool"
  assumes le_refl: "le s s"
    and le_trans: "le s t \<Longrightarrow> le t u \<Longrightarrow> le s u"
begin

definition within :: "('s, 'e, 'a) comp \<Rightarrow> bool" where
  "within m \<longleftrightarrow> (\<forall>s. le s (snd (m s)))"

lemma within_ret: "within (ret x)"
  by (simp add: within_def le_refl)

lemma within_throw: "within (throw e)"
  by (simp add: within_def le_refl)

lemma within_gets: "within (gets f)"
  by (simp add: within_def le_refl)

lemma within_liftE: "within (liftE r)"
  by (simp add: within_def le_refl)

lemma within_bindE: "within m \<Longrightarrow> (\<And>x. within (f x)) \<Longrightarrow> within (bindE m f)"
  by (auto simp: within_def bindE_apply split: prod.splits sum.splits)
    (metis le_trans snd_conv)+

lemma within_thenE: "within m \<Longrightarrow> within n \<Longrightarrow> within (thenE m n)"
  by (simp add: thenE_def within_bindE)

lemma within_catchE: "within m \<Longrightarrow> (\<And>e. within (h e)) \<Longrightarrow> within (catchE m h)"
  by (auto simp: within_def catchE_apply split: prod.splits sum.splits)
    (metis le_trans snd_conv)+

lemma within_if: "within m \<Longrightarrow> within n \<Longrightarrow> within (if b then m else n)"
  by simp

lemma within_option:
  "within m \<Longrightarrow> (\<And>x. within (f x)) \<Longrightarrow> within (case v of None \<Rightarrow> m | Some x \<Rightarrow> f x)"
  by (cases v) auto

lemma within_D: "within m \<Longrightarrow> m s = (r, s') \<Longrightarrow> le s s'"
  by (metis within_def snd_conv)

lemmas within_rules =
  within_ret within_throw within_gets within_liftE within_bindE within_thenE within_catchE
  within_if within_option

end

end
