(* ===== verification/Order_Machine.thy ===== *)
theory Order_Machine
  imports OS_Prelude
begin

text \<open>
  The order lifecycle of the coordinator (\<open>coordinator/src/state-machine/order-machine.ts\<close>): the
  edge table \<open>ORDER_EDGES\<close>, the four indexes the module derives from it by loops
  (\<open>ACTION_TARGET_STATUS\<close>, \<open>LEGAL_SOURCES\<close>, \<open>ACTION_BY_TARGET\<close>, \<open>TRANSITIONS\<close>), the decision
  functions \<open>canTransition\<close>, \<open>evaluateTransition\<close>, \<open>requireTransition\<close> and the classification of a
  refused transition.

  An index declared \<open>Record<K, V>\<close> and filled by a loop is a partial map here; the lemmas
  \<open>ACTION_TARGET_STATUS_Some\<close> and \<open>TRANSITIONS_eq\<close> show that every key is filled. The abstract
  lifecycle is the step relation \<open>lifecycle_step\<close> read off the table.
\<close>

section \<open>Statuses, actions and the edge table\<close>

datatype order_status =
  Announced | Src_locked | Dst_locked | Secret_revealed | Completed | Refunded | Failed | Expired

datatype order_action = Escrow | Secret_relay | Secret | Claim | Refund | Fail | Expire

fun status_str :: "order_status \<Rightarrow> string" where
  "status_str Announced = ''announced''"
| "status_str Src_locked = ''src_locked''"
| "status_str Dst_locked = ''dst_locked''"
| "status_str Secret_revealed = ''secret_revealed''"
| "status_str Completed = ''completed''"
| "status_str Refunded = ''refunded''"
| "status_str Failed = ''failed''"
| "status_str Expired = ''expired''"

record order_edge =
  edge_action :: order_action
  edge_to :: order_status
  edge_from :: "order_status list"

definition ORDER_EDGES :: "order_edge list" where
  "ORDER_EDGES =
    [\<lparr>edge_action = Escrow, edge_to = Src_locked, edge_from = [Announced]\<rparr>,
     \<lparr>edge_action = Secret_relay, edge_to = Dst_locked, edge_from = [Src_locked]\<rparr>,
     \<lparr>edge_action = Secret, edge_to = Secret_revealed, edge_from = [Src_locked, Dst_locked]\<rparr>,
     \<lparr>edge_action = Claim, edge_to = Completed, edge_from = [Secret_revealed]\<rparr>,
     \<lparr>edge_action = Refund, edge_to = Refunded,
       edge_from = [Src_locked, Dst_locked, Secret_revealed, Expired]\<rparr>,
     \<lparr>edge_action = Fail, edge_to = Failed,
       edge_from = [Announced, Src_locked, Dst_locked, Secret_revealed, Expired]\<rparr>,
     \<lparr>edge_action = Expire, edge_to = Expired, edge_from = [Announced, Src_locked, Dst_locked]\<rparr>]"

definition ORDER_STATUSES :: "order_status list" where
  "ORDER_STATUSES =
    [Announced, Src_locked, Dst_locked, Secret_revealed, Completed, Refunded, Failed, Expired]"

lemma UNIV_order_status: "UNIV = set ORDER_STATUSES"
proof -
  have "s \<in> set ORDER_STATUSES" for s
    by (cases s) (simp_all add: ORDER_STATUSES_def)
  then show ?thesis by blast
qed

text \<open>The statuses are enumerable, so a statement over all of them is decided by evaluation.\<close>

instantiation order_status :: enum
begin

definition enum_order_status :: "order_status list" where
  "enum_order_status = ORDER_STATUSES"

definition enum_all_order_status :: "(order_status \<Rightarrow> bool) \<Rightarrow> bool" where
  "enum_all_order_status P \<longleftrightarrow> list_all P ORDER_STATUSES"

definition enum_ex_order_status :: "(order_status \<Rightarrow> bool) \<Rightarrow> bool" where
  "enum_ex_order_status P \<longleftrightarrow> list_ex P ORDER_STATUSES"

instance
proof
  show "(UNIV :: order_status set) = set enum_class.enum"
    by (simp add: UNIV_order_status enum_order_status_def)
  show "distinct (enum_class.enum :: order_status list)"
    by (simp add: enum_order_status_def ORDER_STATUSES_def)
  show "enum_class.enum_all P = Ball UNIV P" for P :: "order_status \<Rightarrow> bool"
    using UNIV_order_status by (auto simp: enum_all_order_status_def list_all_iff)
  show "enum_class.enum_ex P = Bex UNIV P" for P :: "order_status \<Rightarrow> bool"
    using UNIV_order_status by (auto simp: enum_ex_order_status_def list_ex_iff)
qed

end

section \<open>The derived indexes\<close>

definition buildActionTargets :: "order_action \<rightharpoonup> order_status" where
  "buildActionTargets = foldl (\<lambda>t e. t(edge_action e \<mapsto> edge_to e)) Map.empty ORDER_EDGES"

definition ACTION_TARGET_STATUS :: "order_action \<rightharpoonup> order_status" where
  "ACTION_TARGET_STATUS = buildActionTargets"

definition buildActionIndex :: "order_action \<rightharpoonup> order_status list" where
  "buildActionIndex = foldl (\<lambda>t e. t(edge_action e \<mapsto> edge_from e)) Map.empty ORDER_EDGES"

definition LEGAL_SOURCES :: "order_action \<rightharpoonup> order_status list" where
  "LEGAL_SOURCES = buildActionIndex"

text \<open>The value \<open>null\<close> of an index entry is the inner \<open>None\<close>.\<close>

definition buildStatusIndex :: "order_status \<rightharpoonup> order_action option" where
  "buildStatusIndex =
    foldl (\<lambda>t e. t(edge_to e \<mapsto> Some (edge_action e)))
      (foldl (\<lambda>t s. t(s \<mapsto> None)) Map.empty ORDER_STATUSES) ORDER_EDGES"

definition ACTION_BY_TARGET :: "order_status \<rightharpoonup> order_action option" where
  "ACTION_BY_TARGET = buildStatusIndex"

definition push_target :: "order_edge \<Rightarrow> (order_status \<rightharpoonup> order_status list) \<Rightarrow> order_status
    \<Rightarrow> (order_status \<rightharpoonup> order_status list)" where
  "push_target e t s = t(s \<mapsto> (case t s of None \<Rightarrow> [] | Some xs \<Rightarrow> xs) @ [edge_to e])"

definition buildTransitions :: "order_status \<rightharpoonup> order_status list" where
  "buildTransitions =
    foldl (\<lambda>t e. foldl (push_target e) t (edge_from e))
      (foldl (\<lambda>t s. t(s \<mapsto> [])) Map.empty ORDER_STATUSES) ORDER_EDGES"

definition TRANSITIONS :: "order_status \<rightharpoonup> order_status list" where
  "TRANSITIONS = buildTransitions"

fun STATUS_RANK :: "order_status \<Rightarrow> int" where
  "STATUS_RANK Announced = 0"
| "STATUS_RANK Src_locked = 1"
| "STATUS_RANK Dst_locked = 2"
| "STATUS_RANK Secret_revealed = 3"
| "STATUS_RANK Completed = 4"
| "STATUS_RANK Refunded = 4"
| "STATUS_RANK Failed = 4"
| "STATUS_RANK Expired = 4"

lemma ACTION_TARGET_STATUS_simps [simp]:
  "ACTION_TARGET_STATUS Escrow = Some Src_locked"
  "ACTION_TARGET_STATUS Secret_relay = Some Dst_locked"
  "ACTION_TARGET_STATUS Secret = Some Secret_revealed"
  "ACTION_TARGET_STATUS Claim = Some Completed"
  "ACTION_TARGET_STATUS Refund = Some Refunded"
  "ACTION_TARGET_STATUS Fail = Some Failed"
  "ACTION_TARGET_STATUS Expire = Some Expired"
  by (simp_all add: ACTION_TARGET_STATUS_def buildActionTargets_def ORDER_EDGES_def)

lemma LEGAL_SOURCES_simps [simp]:
  "LEGAL_SOURCES Escrow = Some [Announced]"
  "LEGAL_SOURCES Secret_relay = Some [Src_locked]"
  "LEGAL_SOURCES Secret = Some [Src_locked, Dst_locked]"
  "LEGAL_SOURCES Claim = Some [Secret_revealed]"
  "LEGAL_SOURCES Refund = Some [Src_locked, Dst_locked, Secret_revealed, Expired]"
  "LEGAL_SOURCES Fail = Some [Announced, Src_locked, Dst_locked, Secret_revealed, Expired]"
  "LEGAL_SOURCES Expire = Some [Announced, Src_locked, Dst_locked]"
  by (simp_all add: LEGAL_SOURCES_def buildActionIndex_def ORDER_EDGES_def)

lemma ACTION_BY_TARGET_simps [simp]:
  "ACTION_BY_TARGET Announced = Some None"
  "ACTION_BY_TARGET Src_locked = Some (Some Escrow)"
  "ACTION_BY_TARGET Dst_locked = Some (Some Secret_relay)"
  "ACTION_BY_TARGET Secret_revealed = Some (Some Secret)"
  "ACTION_BY_TARGET Completed = Some (Some Claim)"
  "ACTION_BY_TARGET Refunded = Some (Some Refund)"
  "ACTION_BY_TARGET Failed = Some (Some Fail)"
  "ACTION_BY_TARGET Expired = Some (Some Expire)"
  by (simp_all add: ACTION_BY_TARGET_def buildStatusIndex_def ORDER_EDGES_def ORDER_STATUSES_def)

lemma TRANSITIONS_eq [simp]:
  "TRANSITIONS Announced = Some [Src_locked, Failed, Expired]"
  "TRANSITIONS Src_locked = Some [Dst_locked, Secret_revealed, Refunded, Failed, Expired]"
  "TRANSITIONS Dst_locked = Some [Secret_revealed, Refunded, Failed, Expired]"
  "TRANSITIONS Secret_revealed = Some [Completed, Refunded, Failed]"
  "TRANSITIONS Completed = Some []"
  "TRANSITIONS Refunded = Some []"
  "TRANSITIONS Failed = Some []"
  "TRANSITIONS Expired = Some [Refunded, Failed]"
  by (simp_all add: TRANSITIONS_def buildTransitions_def push_target_def ORDER_EDGES_def
      ORDER_STATUSES_def)

section \<open>Decision functions\<close>

text \<open>\<open>ACTION_TARGET_STATUS[a]\<close> and the other reads by key: every key is filled.\<close>

definition targetOf :: "order_action \<Rightarrow> order_status" where
  "targetOf a = (case ACTION_TARGET_STATUS a of Some s \<Rightarrow> s | None \<Rightarrow> Announced)"

definition actionForStatus :: "order_status \<Rightarrow> order_action option" where
  "actionForStatus s = (case ACTION_BY_TARGET s of Some a \<Rightarrow> a | None \<Rightarrow> None)"

definition legalSourcesFor :: "order_action \<Rightarrow> order_status list" where
  "legalSourcesFor a = (case LEGAL_SOURCES a of Some ss \<Rightarrow> ss | None \<Rightarrow> [])"

definition transitionsFrom :: "order_status \<Rightarrow> order_status list" where
  "transitionsFrom s = (case TRANSITIONS s of Some ts \<Rightarrow> ts | None \<Rightarrow> [])"

definition canTransition :: "order_status \<Rightarrow> order_status \<Rightarrow> bool" where
  "canTransition from to \<longleftrightarrow> to \<in> set (transitionsFrom from)"

definition isStaleTransition :: "order_status \<Rightarrow> order_status \<Rightarrow> bool" where
  "isStaleTransition from to \<longleftrightarrow> STATUS_RANK to < STATUS_RANK from"

definition compareStatus :: "order_status \<Rightarrow> order_status \<Rightarrow> int" where
  "compareStatus a b =
    (if STATUS_RANK a < STATUS_RANK b then -1 else if STATUS_RANK a > STATUS_RANK b then 1 else 0)"

definition isTerminal :: "order_status \<Rightarrow> bool" where
  "isTerminal s \<longleftrightarrow> length (transitionsFrom s) = 0"

datatype order_failure_code =
    SECRET_BEFORE_ESCROW
  | SECRET_RELAY_BEFORE_ESCROW
  | CLAIM_BEFORE_SECRET
  | REFUND_AFTER_CLAIM
  | LATE_STEP
  | REPEATED_STEP
  | CONFLICTING_STEP
  | ALREADY_SETTLED
  | NOT_ALLOWED

fun failure_code_str :: "order_failure_code \<Rightarrow> string" where
  "failure_code_str SECRET_BEFORE_ESCROW = ''illegal_transition_secret_before_escrow''"
| "failure_code_str SECRET_RELAY_BEFORE_ESCROW = ''illegal_transition_secret_relay_before_escrow''"
| "failure_code_str CLAIM_BEFORE_SECRET = ''illegal_transition_claim_before_secret''"
| "failure_code_str REFUND_AFTER_CLAIM = ''illegal_transition_refund_after_claim''"
| "failure_code_str LATE_STEP = ''illegal_transition_late_step''"
| "failure_code_str REPEATED_STEP = ''illegal_transition_repeated_step''"
| "failure_code_str CONFLICTING_STEP = ''illegal_transition_conflicting_step''"
| "failure_code_str ALREADY_SETTLED = ''illegal_transition_already_settled''"
| "failure_code_str NOT_ALLOWED = ''illegal_transition_not_allowed''"

text \<open>
  The default of the parameter \<open>action\<close>, \<open>actionForStatus(to)\<close>, is supplied by the caller;
  \<open>None\<close> is \<open>null\<close>.
\<close>

definition classifyIllegalTransition ::
  "order_status \<Rightarrow> order_status \<Rightarrow> order_action option \<Rightarrow> order_failure_code" where
  "classifyIllegalTransition from to action =
    (if action = Some Refund \<and> from = Completed then REFUND_AFTER_CLAIM
     else if action = Some Claim \<and> from \<noteq> Secret_revealed then CLAIM_BEFORE_SECRET
     else if action = Some Secret \<and> from = Announced then SECRET_BEFORE_ESCROW
     else if action = Some Secret_relay \<and> from = Announced then SECRET_RELAY_BEFORE_ESCROW
     else if isStaleTransition from to then LATE_STEP
     else if isTerminal from then ALREADY_SETTLED
     else if from = to \<and> action \<noteq> None then REPEATED_STEP
     else NOT_ALLOWED)"

definition arrow :: "order_status \<Rightarrow> order_status \<Rightarrow> string" where
  "arrow from to = '' ('' @ status_str from @ '' -> '' @ status_str to @ '')''"

fun describeTransitionFailure ::
  "order_failure_code \<Rightarrow> order_status \<Rightarrow> order_status \<Rightarrow> string" where
  "describeTransitionFailure SECRET_BEFORE_ESCROW from to =
     ''Refused to reveal a preimage for an order that is not escrowed yet'' @ arrow from to"
| "describeTransitionFailure SECRET_RELAY_BEFORE_ESCROW from to =
     ''Refused a destination lock for an order that is not escrowed yet'' @ arrow from to"
| "describeTransitionFailure CLAIM_BEFORE_SECRET from to =
     ''Refused a claim for an order whose preimage has not been recorded'' @ arrow from to"
| "describeTransitionFailure REFUND_AFTER_CLAIM from to =
     ''Refused a refund for an order that has already been claimed'' @ arrow from to"
| "describeTransitionFailure LATE_STEP from to =
     ''Refused a chain event that is older than the stored order status'' @ arrow from to"
| "describeTransitionFailure REPEATED_STEP from to =
     ''Step already applied to this order, keeping the stored status ('' @ status_str from @ '')''"
| "describeTransitionFailure CONFLICTING_STEP from to =
     ''Step already applied to this order with a different payload ('' @ status_str from @ '')''"
| "describeTransitionFailure ALREADY_SETTLED from to =
     ''Order is already settled as '' @ status_str from @ '' and cannot be advanced to ''
       @ status_str to"
| "describeTransitionFailure NOT_ALLOWED from to =
     ''Illegal order transition: '' @ status_str from @ '' -> '' @ status_str to"

record invalid_transition_error =
  ite_from :: order_status
  ite_to :: order_status
  ite_code :: order_failure_code
  ite_message :: string

definition InvalidTransitionError ::
  "order_status \<Rightarrow> order_status \<Rightarrow> order_action option \<Rightarrow> invalid_transition_error" where
  "InvalidTransitionError from to action =
    (let code = classifyIllegalTransition from to action
     in \<lparr>ite_from = from, ite_to = to, ite_code = code,
         ite_message = describeTransitionFailure code from to\<rparr>)"

record transition_assessment =
  allowed :: bool
  ta_from :: order_status
  ta_to :: order_status
  ta_action :: "order_action option"
  ta_code :: "order_failure_code option"
  ta_reason :: "string option"

definition evaluateTransition ::
  "order_status \<Rightarrow> order_status \<Rightarrow> order_action option \<Rightarrow> transition_assessment" where
  "evaluateTransition from to action =
    (if canTransition from to
     then \<lparr>allowed = True, ta_from = from, ta_to = to, ta_action = action,
           ta_code = None, ta_reason = None\<rparr>
     else let code = classifyIllegalTransition from to action
       in \<lparr>allowed = False, ta_from = from, ta_to = to, ta_action = action, ta_code = Some code,
           ta_reason = Some (describeTransitionFailure code from to)\<rparr>)"

definition requireTransition ::
  "order_status \<Rightarrow> order_status \<Rightarrow> order_action option \<Rightarrow> invalid_transition_error + unit" where
  "requireTransition from to action =
    (if \<not> canTransition from to then Inl (InvalidTransitionError from to action) else Inr ())"

definition transitionCategory :: "order_status option \<Rightarrow> order_status \<Rightarrow> string" where
  "transitionCategory from to =
    (if from = None \<and> to = Announced then ''created'' else status_str to)"

lemma targetOf_simps [simp]:
  "targetOf Escrow = Src_locked" "targetOf Secret_relay = Dst_locked"
  "targetOf Secret = Secret_revealed" "targetOf Claim = Completed" "targetOf Refund = Refunded"
  "targetOf Fail = Failed" "targetOf Expire = Expired"
  by (simp_all add: targetOf_def)

lemma ACTION_TARGET_STATUS_Some: "ACTION_TARGET_STATUS a = Some (targetOf a)"
  by (cases a) simp_all

lemma actionForStatus_targetOf [simp]: "actionForStatus (targetOf a) = Some a"
  by (cases a) (simp_all add: actionForStatus_def)

lemma actionForStatus_None [simp]: "actionForStatus s = None \<longleftrightarrow> s = Announced"
  by (cases s) (simp_all add: actionForStatus_def)

lemma actionForStatus_Some: "actionForStatus s = Some a \<longleftrightarrow> targetOf a = s"
  by (cases s; cases a) (simp_all add: actionForStatus_def)

lemma targetOf_neq_Announced [simp]: "targetOf a \<noteq> Announced"
  by (cases a) simp_all

lemma targetOf_inj [simp]: "targetOf a = targetOf b \<longleftrightarrow> a = b"
  by (cases a; cases b) simp_all

lemmas canTransition_simps = canTransition_def transitionsFrom_def

lemma isTerminal_iff: "isTerminal s \<longleftrightarrow> s \<in> {Completed, Refunded, Failed}"
  by (cases s) (simp_all add: isTerminal_def transitionsFrom_def)

lemma canTransition_legalSources:
  "canTransition from (targetOf a) \<longleftrightarrow> from \<in> set (legalSourcesFor a)"
  by (cases a; cases "from") (simp_all add: canTransition_simps legalSourcesFor_def)

lemma canTransition_not_Announced [simp]: "\<not> canTransition s Announced"
  by (cases s) (simp_all add: canTransition_simps)

lemma canTransition_irrefl [simp]: "\<not> canTransition s s"
  by (cases s) (simp_all add: canTransition_simps)

section \<open>The abstract lifecycle\<close>

inductive lifecycle_step :: "order_status \<Rightarrow> order_action \<Rightarrow> order_status \<Rightarrow> bool" where
  edge: "e \<in> set ORDER_EDGES \<Longrightarrow> s \<in> set (edge_from e) \<Longrightarrow>
    lifecycle_step s (edge_action e) (edge_to e)"

inductive_cases lifecycle_stepE: "lifecycle_step s a t"

lemma edge_of_action:
  "\<lparr>edge_action = a, edge_to = targetOf a, edge_from = legalSourcesFor a\<rparr> \<in> set ORDER_EDGES"
  by (cases a) (simp_all add: ORDER_EDGES_def legalSourcesFor_def)

lemma lifecycle_step_iff: "lifecycle_step s a t \<longleftrightarrow> t = targetOf a \<and> s \<in> set (legalSourcesFor a)"
proof
  show "lifecycle_step s a t \<Longrightarrow> t = targetOf a \<and> s \<in> set (legalSourcesFor a)"
    by (erule lifecycle_stepE) (auto simp: ORDER_EDGES_def legalSourcesFor_def)
next
  assume h: "t = targetOf a \<and> s \<in> set (legalSourcesFor a)"
  define e where "e = \<lparr>edge_action = a, edge_to = targetOf a, edge_from = legalSourcesFor a\<rparr>"
  have "e \<in> set ORDER_EDGES" unfolding e_def by (rule edge_of_action)
  moreover have "s \<in> set (edge_from e)" using h by (simp add: e_def)
  ultimately show "lifecycle_step s a t"
    using h lifecycle_step.edge [of e s] by (simp add: e_def)
qed

lemma canTransition_iff_step: "canTransition s t \<longleftrightarrow> (\<exists>a. lifecycle_step s a t)"
proof -
  have "canTransition s t \<longleftrightarrow> (\<exists>a. t = targetOf a \<and> canTransition s t)"
    by (cases t) (auto intro: exI [of _ "the (actionForStatus t)"] simp: actionForStatus_def)
  then show ?thesis
    by (auto simp: lifecycle_step_iff canTransition_legalSources)
qed

text \<open>A run of the machine: every action in turn, refused as soon as one edge is illegal.\<close>

fun run_actions :: "order_status \<Rightarrow> order_action list \<Rightarrow> order_status option" where
  "run_actions s [] = Some s"
| "run_actions s (a # as) =
     (if canTransition s (targetOf a) then run_actions (targetOf a) as else None)"

text \<open>The number of edges that can still follow a status.\<close>

fun height :: "order_status \<Rightarrow> nat" where
  "height Announced = 4"
| "height Src_locked = 3"
| "height Dst_locked = 2"
| "height Secret_revealed = 1"
| "height Expired = 1"
| "height Completed = 0"
| "height Refunded = 0"
| "height Failed = 0"

lemma canTransition_height: "canTransition s t \<Longrightarrow> height t < height s"
  by (cases s; cases t) (simp_all add: canTransition_simps)

lemma run_actions_length: "run_actions s as = Some t \<Longrightarrow> length as + height t \<le> height s"
proof (induction "as" arbitrary: s)
  case (Cons a "as")
  from Cons.prems have step: "canTransition s (targetOf a)"
    and rest: "run_actions (targetOf a) as = Some t"
    by (simp_all split: if_splits)
  have "length as + height t \<le> height (targetOf a)" by (rule Cons.IH [OF rest])
  also have "\<dots> < height s" by (rule canTransition_height [OF step])
  finally show ?case by simp
qed simp

lemma run_actions_append:
  "run_actions s (xs @ ys) = Option.bind (run_actions s xs) (\<lambda>t. run_actions t ys)"
  by (induction xs arbitrary: s) auto

lemma run_from_terminal [simp]:
  "run_actions Completed as = Some t \<longleftrightarrow> as = [] \<and> t = Completed"
  "run_actions Refunded as = Some t \<longleftrightarrow> as = [] \<and> t = Refunded"
  "run_actions Failed as = Some t \<longleftrightarrow> as = [] \<and> t = Failed"
  by (cases "as"; auto simp: canTransition_simps)+

lemma run_from_expired [simp]: "run_actions Expired as \<noteq> Some Completed"
proof (cases "as")
  case (Cons a as')
  then show ?thesis by (cases a) (auto simp: canTransition_simps)
qed simp

lemma run_from_secret [simp]:
  "run_actions Secret_revealed as = Some Completed \<longleftrightarrow> as = [Claim]"
proof (cases "as")
  case (Cons a as')
  then show ?thesis by (cases a) (auto simp: canTransition_simps)
qed simp

lemma run_from_dst [simp]: "run_actions Dst_locked as = Some Completed \<longleftrightarrow> as = [Secret, Claim]"
proof (cases "as")
  case (Cons a as')
  then show ?thesis by (cases a) (auto simp: canTransition_simps)
qed simp

lemma run_from_src [simp]:
  "run_actions Src_locked as = Some Completed \<longleftrightarrow>
   as = [Secret, Claim] \<or> as = [Secret_relay, Secret, Claim]"
proof (cases "as")
  case (Cons a as')
  then show ?thesis by (cases a) (auto simp: canTransition_simps)
qed simp

section \<open>Properties\<close>

text \<open>the four indexes the module derives by loops agree with the edge table. A transition is
  allowed exactly when some edge of \<open>ORDER_EDGES\<close> leads from the one status to the other; the
  target and the sources of every action, and the action of every status, are those of its edge,
  so that the lookups of the record types are total.\<close>

theorem derived_indexes_agree:
  "(canTransition s t \<longleftrightarrow> (\<exists>e. e \<in> set ORDER_EDGES \<and> edge_to e = t \<and> s \<in> set (edge_from e))) \<and>
   (\<exists>e. e \<in> set ORDER_EDGES \<and> edge_action e = a \<and> targetOf a = edge_to e \<and>
     legalSourcesFor a = edge_from e) \<and>
   ACTION_TARGET_STATUS a = Some (targetOf a) \<and>
   actionForStatus (targetOf a) = Some a \<and>
   (actionForStatus t = None \<longleftrightarrow> t = Announced) \<and> TRANSITIONS t = Some (transitionsFrom t)"
proof (intro conjI)
  have "canTransition s t \<longleftrightarrow> (\<exists>a. lifecycle_step s a t)" by (rule canTransition_iff_step)
  also have "\<dots> \<longleftrightarrow> (\<exists>e. e \<in> set ORDER_EDGES \<and> edge_to e = t \<and> s \<in> set (edge_from e))"
    by (auto elim!: lifecycle_stepE intro: lifecycle_step.edge)
  finally show "canTransition s t \<longleftrightarrow>
    (\<exists>e. e \<in> set ORDER_EDGES \<and> edge_to e = t \<and> s \<in> set (edge_from e))" .
  show "\<exists>e. e \<in> set ORDER_EDGES \<and> edge_action e = a \<and> targetOf a = edge_to e \<and>
      legalSourcesFor a = edge_from e"
    by (intro exI conjI, rule edge_of_action) simp_all
  show "ACTION_TARGET_STATUS a = Some (targetOf a)" by (rule ACTION_TARGET_STATUS_Some)
  show "TRANSITIONS t = Some (transitionsFrom t)" by (cases t) (simp_all add: transitionsFrom_def)
qed simp_all

text \<open>a lifecycle is short and has two successful shapes. From \<open>announced\<close> no run of the machine
  has more than four edges, and the runs that end in \<open>completed\<close> are escrow, secret, claim, with or
  without the resolver's destination lock in between.\<close>

theorem lifecycle_runs:
  assumes "run_actions Announced as = Some t"
  shows "length as \<le> 4 \<and>
    (t = Completed \<longleftrightarrow> as = [Escrow, Secret, Claim] \<or> as = [Escrow, Secret_relay, Secret, Claim])"
proof
  show "length as \<le> 4" using run_actions_length [OF assms] by simp
  show "t = Completed \<longleftrightarrow> as = [Escrow, Secret, Claim] \<or> as = [Escrow, Secret_relay, Secret, Claim]"
  proof (cases "as")
    case Nil
    with assms show ?thesis by simp
  next
    case (Cons a as')
    show ?thesis
    proof (cases "a = Escrow")
      case True
      have rest: "run_actions Src_locked as' = Some t"
        using assms True Cons by (simp split: if_splits)
      show ?thesis using rest run_from_src [of as'] Cons True by auto
    next
      case False
      then have "targetOf a \<in> {Failed, Expired}"
        using assms Cons by (cases a) (auto simp: canTransition_simps split: if_splits)
      then have "t \<noteq> Completed" using assms Cons run_from_expired [of as'] by (auto split: if_splits)
      with False Cons show ?thesis by simp
    qed
  qed
qed

theorem lifecycle_runs_witness:
  "run_actions Announced [Escrow, Secret_relay, Secret, Claim] = Some Completed \<and>
   length [Escrow, Secret_relay, Secret, Claim] \<le> 4"
proof -
  have run: "run_actions Announced [Escrow, Secret_relay, Secret, Claim] = Some Completed"
    by (simp add: canTransition_simps)
  from lifecycle_runs [OF run] run show ?thesis by blast
qed

text \<open>the complete table of refusal codes. For every action and every status from which its edge
  is illegal, other than the target itself, this is the code that \<open>evaluateTransition\<close> reports with
  the refusal; in particular a refused step is never reported as a repetition.\<close>

theorem refusal_codes:
  assumes "\<not> canTransition s (targetOf a)" "s \<noteq> targetOf a"
  shows "ta_code (evaluateTransition s (targetOf a) (Some a)) = Some (case a of
      Escrow \<Rightarrow> LATE_STEP
    | Secret_relay \<Rightarrow> if s = Announced then SECRET_RELAY_BEFORE_ESCROW else LATE_STEP
    | Secret \<Rightarrow> if s = Announced then SECRET_BEFORE_ESCROW else LATE_STEP
    | Claim \<Rightarrow> CLAIM_BEFORE_SECRET
    | Refund \<Rightarrow> if s = Completed then REFUND_AFTER_CLAIM
        else if s = Failed then ALREADY_SETTLED else NOT_ALLOWED
    | Fail \<Rightarrow> ALREADY_SETTLED
    | Expire \<Rightarrow> if isTerminal s then ALREADY_SETTLED else NOT_ALLOWED)"
  using assms
  by (cases a; cases s)
    (simp_all add: evaluateTransition_def classifyIllegalTransition_def canTransition_simps
      isStaleTransition_def isTerminal_iff)

theorem refusal_codes_witness:
  "ta_code (evaluateTransition Completed Refunded (Some Refund)) = Some REFUND_AFTER_CLAIM"
  using refusal_codes [of Completed Refund] by (simp add: canTransition_simps)

end
