(* ===== verification/Timelocks.thy ===== *)
theory Timelocks
  imports OS_Prelude
begin

text \<open>
  Timelock rules of the coordinator (\<open>coordinator/src/utils/timelock-validator.ts\<close>): the ordering
  of the two legs' timelocks at creation, the window in which a preimage may be stored, and the
  refund eligibility computed from both timelocks. All times are integral Unix seconds; a value
  \<open>null\<close> or \<open>undefined\<close> is \<open>None\<close>.
\<close>

datatype timelock_validation_error = TIMELOCKS_REVERSED | GAP_TOO_SMALL
datatype secret_window_error = SRC_TIMELOCK_EXPIRED | DST_TIMELOCK_EXPIRED
datatype refund_chain = Ethereum_side | Stellar_side

record locked_side =
  ls_chain :: refund_chain
  earliestRefundAt :: "int option"

record refund_eligibility =
  eligible :: bool
  lockedSides :: "locked_side list"

text \<open>\<open>Object.entries\<close> of the argument is the list of its entries, in their order.\<close>

definition evaluateRefundEligibility ::
  "(refund_chain \<times> int option) list \<Rightarrow> int \<Rightarrow> refund_eligibility" where
  "evaluateRefundEligibility timelocks nowUnixSeconds =
    (let locked =
      map (\<lambda>(chain, timelock). \<lparr>ls_chain = chain,
             earliestRefundAt = (case timelock of None \<Rightarrow> None | Some t \<Rightarrow> Some (t + 1))\<rparr>)
        (filter (\<lambda>(chain, timelock). case timelock of None \<Rightarrow> True | Some t \<Rightarrow> nowUnixSeconds \<le> t)
          timelocks)
     in \<lparr>eligible = (length locked = 0), lockedSides = locked\<rparr>)"

record timelock_verdict =
  isValid :: bool
  tv_error :: "timelock_validation_error option"

definition validateTimelockOrdering :: "int \<Rightarrow> int \<Rightarrow> int \<Rightarrow> timelock_verdict" where
  "validateTimelockOrdering srcT dstT minGapSeconds =
    (if dstT \<ge> srcT then \<lparr>isValid = False, tv_error = Some TIMELOCKS_REVERSED\<rparr>
     else if srcT - dstT < minGapSeconds then \<lparr>isValid = False, tv_error = Some GAP_TOO_SMALL\<rparr>
     else \<lparr>isValid = True, tv_error = None\<rparr>)"

definition validateTimelocksAtCreation :: "int \<Rightarrow> int \<Rightarrow> int \<Rightarrow> timelock_verdict" where
  "validateTimelocksAtCreation srcT dstT minGapSeconds =
    validateTimelockOrdering srcT dstT minGapSeconds"

record secret_window =
  sw_open :: bool
  sw_error :: "secret_window_error option"

definition past_timelock :: "int option \<Rightarrow> int \<Rightarrow> bool" where
  "past_timelock t nowSec \<longleftrightarrow> (case t of None \<Rightarrow> False | Some t \<Rightarrow> t > 0 \<and> nowSec > t)"

definition evaluateSecretWindow :: "int option \<Rightarrow> int option \<Rightarrow> int \<Rightarrow> secret_window" where
  "evaluateSecretWindow srcT dstT nowSec =
    (if past_timelock srcT nowSec then \<lparr>sw_open = False, sw_error = Some SRC_TIMELOCK_EXPIRED\<rparr>
     else if past_timelock dstT nowSec then \<lparr>sw_open = False, sw_error = Some DST_TIMELOCK_EXPIRED\<rparr>
     else \<lparr>sw_open = True, sw_error = None\<rparr>)"

lemma past_timelock_simps [simp]:
  "\<not> past_timelock None nowSec"
  "past_timelock (Some t) nowSec \<longleftrightarrow> t > 0 \<and> nowSec > t"
  by (simp_all add: past_timelock_def)

lemma past_timelock_mono: "past_timelock t now1 \<Longrightarrow> now1 \<le> now2 \<Longrightarrow> past_timelock t now2"
  by (auto simp: past_timelock_def split: option.splits)

lemma sw_open_iff:
  "sw_open (evaluateSecretWindow s d n) \<longleftrightarrow> \<not> past_timelock s n \<and> \<not> past_timelock d n"
  by (simp add: evaluateSecretWindow_def)

lemma isValid_iff:
  "isValid (validateTimelockOrdering s d gap) \<longleftrightarrow> d < s \<and> d + gap \<le> s"
  by (auto simp: validateTimelockOrdering_def)

lemma tv_error_None: "tv_error (validateTimelockOrdering s d gap) = None \<longleftrightarrow>
    isValid (validateTimelockOrdering s d gap)"
  by (simp add: validateTimelockOrdering_def)

lemma eligible_iff:
  "eligible (evaluateRefundEligibility ts n) \<longleftrightarrow> (\<forall>(c, t) \<in> set ts. \<exists>x. t = Some x \<and> x < n)"
  by (auto simp: evaluateRefundEligibility_def filter_empty_conv split: option.splits)

section \<open>Properties\<close>

text \<open>claiming and refunding never overlap. With both timelocks set, the secret window is open
  exactly up to and including the earlier timelock, a refund is eligible exactly after the later
  one, and each side that still blocks the refund reports the first second at which it no longer
  does; so at no time may a secret be stored while a refund is already due.\<close>

theorem claim_refund_windows:
  assumes "0 < a" "0 < b"
  shows "(sw_open (evaluateSecretWindow (Some a) (Some b) n) \<longleftrightarrow> n \<le> min a b) \<and>
    (eligible (evaluateRefundEligibility [(Ethereum_side, Some a), (Stellar_side, Some b)] n) \<longleftrightarrow>
      max a b < n) \<and>
    lockedSides (evaluateRefundEligibility [(Ethereum_side, Some a), (Stellar_side, Some b)] n) =
      (if n \<le> a then [\<lparr>ls_chain = Ethereum_side, earliestRefundAt = Some (a + 1)\<rparr>] else []) @
      (if n \<le> b then [\<lparr>ls_chain = Stellar_side, earliestRefundAt = Some (b + 1)\<rparr>] else [])"
  using assms by (auto simp: sw_open_iff eligible_iff evaluateRefundEligibility_def)

theorem claim_refund_windows_witness:
  "sw_open (evaluateSecretWindow (Some 100) (Some 50) 50) \<and>
   \<not> sw_open (evaluateSecretWindow (Some 100) (Some 50) 51) \<and>
   eligible (evaluateRefundEligibility [(Ethereum_side, Some 100), (Stellar_side, Some 50)] 101)"
  using claim_refund_windows [of 100 50 50] claim_refund_windows [of 100 50 51]
    claim_refund_windows [of 100 50 101] by simp

end
