(* ===== verification/Coord_Types.thy ===== *)
theory Coord_Types
  imports Order_Machine Timelocks
begin

text \<open>
  Data of the coordinator: the rows of its five tables (\<open>coordinator/src/persistence/schema.sql\<close>,
  \<open>orders-repo.ts\<close>) and the exceptions its services throw. Integer columns and JavaScript numbers
  that hold integers are \<open>int\<close>; a nullable column is an \<open>option\<close>.
\<close>

datatype chain = Ethereum | Stellar
datatype chain_name = Ethereum_net | Soroban_net
datatype direction = Eth_to_xlm | Xlm_to_eth

fun chain_str :: "chain \<Rightarrow> string" where
  "chain_str Ethereum = ''ethereum''"
| "chain_str Stellar = ''stellar''"

fun chain_name_str :: "chain_name \<Rightarrow> string" where
  "chain_name_str Ethereum_net = ''ethereum''"
| "chain_name_str Soroban_net = ''soroban''"

fun direction_str :: "direction \<Rightarrow> string" where
  "direction_str Eth_to_xlm = ''eth_to_xlm''"
| "direction_str Xlm_to_eth = ''xlm_to_eth''"

section \<open>Order rows\<close>

text \<open>
  \<open>OrderDbRow\<close> and \<open>OrderRow\<close> have the same columns; the database stores the flag \<open>fixture\<close> as 0
  or 1 and \<open>rowToOrder\<close> turns it into a boolean, so the type of that column is a parameter.
\<close>

record 'f order_columns =
  rowId :: int
  publicId :: string
  direction :: direction
  status :: order_status
  hashlock :: string
  srcChain :: chain
  srcAddress :: string
  srcAsset :: string
  srcAmount :: string
  srcSafetyDeposit :: string
  srcOrderId :: "string option"
  srcLockTx :: "string option"
  srcLockBlock :: "int option"
  srcTimelock :: "int option"
  dstChain :: chain
  dstAddress :: string
  dstAsset :: string
  dstAmount :: string
  dstOrderId :: "string option"
  dstLockTx :: "string option"
  dstLockBlock :: "int option"
  dstTimelock :: "int option"
  preimage :: "string option"
  secretRevealedTx :: "string option"
  resolverAddress :: "string option"
  fixture :: 'f
  createdAt :: int
  updatedAt :: int

type_synonym order_db_row = "int order_columns"
type_synonym order_row = "bool order_columns"

record announce_order_input =
  in_direction :: direction
  in_hashlock :: string
  in_srcChain :: chain
  in_srcAddress :: string
  in_srcAsset :: string
  in_srcAmount :: string
  in_srcSafetyDeposit :: string
  in_dstChain :: chain
  in_dstAddress :: string
  in_dstAsset :: string
  in_dstAmount :: string

section \<open>The other tables\<close>

text \<open>
  The JSON payload of an event is kept structured: \<open>JSON.parse (JSON.stringify p)\<close> is \<open>p\<close> for the
  two shapes the repository writes.
\<close>

datatype event_payload =
    Summary_payload "order_status option" order_status "string option" string
      \<comment> \<open>from, to, txHash, category\<close>
  | Rejected_payload order_status order_status "order_action option" order_failure_code string
      "string option" string
      \<comment> \<open>from, to, action, code, reason, txHash, writer\<close>

record order_event_row =
  ev_id :: int
  ev_order_id :: int
  ev_type :: string
  ev_payload :: event_payload
  ev_created_at :: int

record chain_cursor_row =
  cur_chain :: chain_name
  cur_network_id :: string
  cur_position :: int
  cur_cursor :: "string option"

record processed_event_row =
  pe_key :: string
  pe_chain :: chain_name
  pe_kind :: string
  pe_position :: int

section \<open>Results handed out by the repository\<close>

record order_transition_summary =
  ts_from :: "order_status option"
  ts_to :: order_status
  ts_timestamp :: int
  ts_txHash :: "string option"
  ts_category :: string

record order_rejected_transition =
  rt_from :: order_status
  rt_to :: order_status
  rt_action :: "order_action option"
  rt_code :: order_failure_code
  rt_reason :: string
  rt_txHash :: "string option"
  rt_writer :: string
  rt_timestamp :: int

record transition_rejection_info =
  rj_from :: order_status
  rj_to :: order_status
  rj_action :: "order_action option"
  rj_code :: order_failure_code
  rj_reason :: string
  rj_writer :: string
  rj_publicId :: string
  rj_txHash :: "string option"

record order_snapshot =
  sn_orderId :: string
  sn_currentState :: order_status
  sn_transitions :: "string list"
  sn_publicTxHashes :: "string list"
  sn_createdAt :: int
  sn_updatedAt :: int
  sn_direction :: direction
  sn_outcomeSummary :: string

record order_metrics =
  totalOrders :: int
  byStatus :: "string \<rightharpoonup> int"
  completedOrders :: int
  refundedOrders :: int
  staleExpiredOrders :: int
  lastUpdatedTimestamp :: "int option"

section \<open>Exceptions\<close>

datatype order_error_code =
    Timelock_code timelock_validation_error
  | Failure_code order_failure_code
  | QUOTE_EXPIRED
  | QUOTE_NOT_FOUND
  | QUOTE_MISMATCH

text \<open>
  \<open>PlainError\<close> is \<open>new Error(message)\<close>, \<open>SqlError\<close> what the database driver throws on a violated
  constraint. \<open>OrderTransitionRejectedError\<close> extends \<open>StaleOrderEventError\<close>, which extends
  \<open>OrderValidationError\<close>; \<open>SecretConflictError\<close> and \<open>SecretExpiredError\<close> extend \<open>SecretGateError\<close>;
  \<open>AmountError\<close> is the quote service's \<open>AmountParseError\<close> passing through \<open>announce\<close>.
\<close>

datatype coord_error =
    PlainError string
  | SqlError string
  | OrderValidationError string "order_error_code option"
  | OrderTransitionRejectedError transition_rejection_info
  | SecretConflictError string
  | SecretExpiredError string
  | CursorMismatchError chain_name string string
  | AmountError string

fun error_message :: "coord_error \<Rightarrow> string" where
  "error_message (PlainError m) = m"
| "error_message (SqlError m) = m"
| "error_message (OrderValidationError m c) = m"
| "error_message (OrderTransitionRejectedError i) = rj_reason i"
| "error_message (SecretConflictError m) = m"
| "error_message (SecretExpiredError m) = m"
| "error_message (AmountError m) = m"
| "error_message (CursorMismatchError c stored configured) =
     chain_name_str c @ '' cursor was saved for network \"'' @ stored
       @ ''\" but the coordinator is configured for \"'' @ configured
       @ ''\"; refusing to start. Point DATABASE_URL at the matching database or reset the cursor deliberately.''"

text \<open>\<open>err instanceof OrderValidationError\<close>, subclasses included.\<close>

fun is_order_validation :: "coord_error \<Rightarrow> bool" where
  "is_order_validation (OrderValidationError m c) = True"
| "is_order_validation (OrderTransitionRejectedError i) = True"
| "is_order_validation _ = False"

definition isTransitionRejection :: "coord_error \<Rightarrow> bool" where
  "isTransitionRejection e \<longleftrightarrow> (case e of OrderTransitionRejectedError _ \<Rightarrow> True | _ \<Rightarrow> False)"

end
