(* ===== verification/Orders_Repo.thy ===== *)
theory Orders_Repo
  imports Coord_Types
begin

text \<open>
  The coordinator's repository (\<open>coordinator/src/persistence/orders-repo.ts\<close>). The store
  \<open>coord_db\<close> holds the tables as lists of rows in insertion order, together with the last
  \<open>AUTOINCREMENT\<close> ids and the clock reading \<open>now_s\<close> that \<open>strftime('%s','now')\<close> answers during an
  operation. Each prepared statement is a list operation; each method is a computation over the
  store with its \<open>Unknown order\<close> and constraint failures. The random public id of a new order is an
  argument of \<open>announce\<close>.

  \<open>db_ok\<close> is the schema: unique public ids, row ids below the sequence, events that reference an
  order, one cursor per chain, one row per processed event. Every method keeps it. The locale
  \<open>row_writer\<close> states what the order service relies on when it lets the repository write one order,
  and is interpreted for each of the repository's writers.
\<close>

section \<open>The store\<close>

record coord_db =
  orders_tbl :: "order_db_row list"
  orders_seq :: int
  events_tbl :: "order_event_row list"
  events_seq :: int
  cursors_tbl :: "chain_cursor_row list"
  processed_tbl :: "processed_event_row list"
  now_s :: int

definition empty_db :: "int \<Rightarrow> coord_db" where
  "empty_db now = \<lparr>orders_tbl = [], orders_seq = 0, events_tbl = [], events_seq = 0,
     cursors_tbl = [], processed_tbl = [], now_s = now\<rparr>"

type_synonym 'a db_comp = "(coord_db, coord_error, 'a) comp"

definition TRANSITION_REJECTED_EVENT :: string where
  "TRANSITION_REJECTED_EVENT = ''transition_rejected''"

definition TRANSITION_SUMMARY_EVENT :: string where
  "TRANSITION_SUMMARY_EVENT = ''transition_summary''"

definition rowToOrder :: "order_db_row \<Rightarrow> order_row" where
  "rowToOrder r =
    \<lparr>rowId = rowId r, publicId = publicId r, direction = direction r, status = status r,
     hashlock = hashlock r, srcChain = srcChain r, srcAddress = srcAddress r,
     srcAsset = srcAsset r, srcAmount = srcAmount r, srcSafetyDeposit = srcSafetyDeposit r,
     srcOrderId = srcOrderId r, srcLockTx = srcLockTx r, srcLockBlock = srcLockBlock r,
     srcTimelock = srcTimelock r, dstChain = dstChain r, dstAddress = dstAddress r,
     dstAsset = dstAsset r, dstAmount = dstAmount r, dstOrderId = dstOrderId r,
     dstLockTx = dstLockTx r, dstLockBlock = dstLockBlock r, dstTimelock = dstTimelock r,
     preimage = preimage r, secretRevealedTx = secretRevealedTx r,
     resolverAddress = resolverAddress r, fixture = (fixture r \<noteq> 0),
     createdAt = createdAt r, updatedAt = updatedAt r\<rparr>"

lemma rowToOrder_simps [simp]:
  "rowId (rowToOrder r) = rowId r" "publicId (rowToOrder r) = publicId r"
  "direction (rowToOrder r) = direction r" "status (rowToOrder r) = status r"
  "hashlock (rowToOrder r) = hashlock r" "srcChain (rowToOrder r) = srcChain r"
  "srcAddress (rowToOrder r) = srcAddress r" "dstAddress (rowToOrder r) = dstAddress r"
  "srcOrderId (rowToOrder r) = srcOrderId r" "srcTimelock (rowToOrder r) = srcTimelock r"
  "dstOrderId (rowToOrder r) = dstOrderId r" "dstTimelock (rowToOrder r) = dstTimelock r"
  "dstChain (rowToOrder r) = dstChain r" "preimage (rowToOrder r) = preimage r"
  "createdAt (rowToOrder r) = createdAt r" "updatedAt (rowToOrder r) = updatedAt r"
  "fixture (rowToOrder r) = (fixture r \<noteq> 0)"
  by (simp_all add: rowToOrder_def)

section \<open>Reading orders\<close>

definition select_order :: "(order_db_row \<Rightarrow> bool) \<Rightarrow> order_row option db_comp" where
  "select_order P = gets (\<lambda>s. map_option rowToOrder (find P (orders_tbl s)))"

definition findByPublicId :: "string \<Rightarrow> order_row option db_comp" where
  "findByPublicId pid = select_order (\<lambda>r. publicId r = pid)"

definition findByHashlock :: "string \<Rightarrow> order_row option db_comp" where
  "findByHashlock h = select_order (\<lambda>r. hashlock r = h)"

text \<open>A comparison with a \<open>NULL\<close> column is not true.\<close>

definition findByPreimage :: "string \<Rightarrow> order_row option db_comp" where
  "findByPreimage p = select_order (\<lambda>r. preimage r = Some p)"

definition findBySrcOrderId :: "chain \<Rightarrow> string \<Rightarrow> order_row option db_comp" where
  "findBySrcOrderId c oid = select_order (\<lambda>r. srcChain r = c \<and> srcOrderId r = Some oid)"

definition findByDstOrderId :: "chain \<Rightarrow> string \<Rightarrow> order_row option db_comp" where
  "findByDstOrderId c oid = select_order (\<lambda>r. dstChain r = c \<and> dstOrderId r = Some oid)"

text \<open>
  The keyset page: \<open>ORDER BY created_at DESC, public_id DESC LIMIT n\<close> over the rows strictly
  before the cursor. \<open>(created_at, public_id)\<close> is compared lexicographically, as the statement's
  condition spells out.
\<close>

definition before_cursor :: "(int \<times> string) option \<Rightarrow> order_db_row \<Rightarrow> bool" where
  "before_cursor before r \<longleftrightarrow>
    (case before of None \<Rightarrow> True
     | Some (c, p) \<Rightarrow> createdAt r < c \<or> createdAt r = c \<and> publicId r < p)"

definition page_rows :: "order_db_row list \<Rightarrow> string \<Rightarrow> nat \<Rightarrow> (int \<times> string) option
    \<Rightarrow> order_db_row list" where
  "page_rows rows addr limit before =
    take limit (rev (sort_key (\<lambda>r. (createdAt r, publicId r))
      (filter (\<lambda>r. (srcAddress r = addr \<or> dstAddress r = addr) \<and> before_cursor before r) rows)))"

definition findByAddressPage :: "string \<Rightarrow> nat \<Rightarrow> (int \<times> string) option \<Rightarrow> order_row list db_comp"
  where
  "findByAddressPage addr limit before =
    gets (\<lambda>s. map rowToOrder (page_rows (orders_tbl s) addr limit before))"

section \<open>Writing\<close>

definition insertEvent :: "int \<Rightarrow> string \<Rightarrow> event_payload \<Rightarrow> unit db_comp" where
  "insertEvent orderId eventType payload = (\<lambda>s.
    if \<not> list_ex (\<lambda>r. rowId r = orderId) (orders_tbl s)
    then (Inl (SqlError ''FOREIGN KEY constraint failed''), s)
    else (Inr (), s\<lparr>events_seq := events_seq s + 1,
           events_tbl := events_tbl s @
             [\<lparr>ev_id = events_seq s + 1, ev_order_id = orderId, ev_type = eventType,
               ev_payload = payload, ev_created_at = now_s s\<rparr>]\<rparr>))"

definition recordTransition :: "int \<Rightarrow> order_status option \<Rightarrow> order_status \<Rightarrow> string option \<Rightarrow> string
    \<Rightarrow> unit db_comp" where
  "recordTransition orderId from to txHash category =
    insertEvent orderId TRANSITION_SUMMARY_EVENT (Summary_payload from to txHash category)"

text \<open>The row of \<open>insertStmt\<close>: status \<open>announced\<close>, every lock column \<open>NULL\<close>, \<open>fixture\<close> 0.\<close>

definition new_order_row :: "int \<Rightarrow> string \<Rightarrow> announce_order_input \<Rightarrow> int \<Rightarrow> order_db_row" where
  "new_order_row oid pid i now =
    \<lparr>rowId = oid, publicId = pid, direction = in_direction i, status = Announced,
     hashlock = in_hashlock i, srcChain = in_srcChain i, srcAddress = in_srcAddress i,
     srcAsset = in_srcAsset i, srcAmount = in_srcAmount i,
     srcSafetyDeposit = in_srcSafetyDeposit i, srcOrderId = None, srcLockTx = None,
     srcLockBlock = None, srcTimelock = None, dstChain = in_dstChain i,
     dstAddress = in_dstAddress i, dstAsset = in_dstAsset i, dstAmount = in_dstAmount i,
     dstOrderId = None, dstLockTx = None, dstLockBlock = None, dstTimelock = None,
     preimage = None, secretRevealedTx = None, resolverAddress = None, fixture = 0,
     createdAt = now, updatedAt = now\<rparr>"

definition insert_row :: "(int \<Rightarrow> int \<Rightarrow> order_db_row) \<Rightarrow> unit db_comp" where
  "insert_row mk = (\<lambda>s.
    let r = mk (orders_seq s + 1) (now_s s)
    in if list_ex (\<lambda>r'. publicId r' = publicId r) (orders_tbl s)
       then (Inl (SqlError ''UNIQUE constraint failed: orders.public_id''), s)
       else (Inr (), s\<lparr>orders_seq := orders_seq s + 1, orders_tbl := orders_tbl s @ [r]\<rparr>))"

definition announce :: "string \<Rightarrow> announce_order_input \<Rightarrow> order_row db_comp" where
  "announce pid i =
    thenE (insert_row (\<lambda>oid now. new_order_row oid pid i now))
      (bindE (findByPublicId pid) (\<lambda>row. case row of
         None \<Rightarrow> throw (PlainError ''Failed to insert order'')
       | Some order \<Rightarrow>
           thenE (recordTransition (rowId order) None Announced None ''created'') (ret order)))"

definition update_order :: "(int \<Rightarrow> order_db_row \<Rightarrow> order_db_row) \<Rightarrow> string \<Rightarrow> unit db_comp" where
  "update_order f pid = modify (\<lambda>s.
     s\<lparr>orders_tbl := update_where (\<lambda>r. publicId r = pid) (f (now_s s)) (orders_tbl s)\<rparr>)"

definition sql_updateStatus :: "order_status \<Rightarrow> int \<Rightarrow> 'f order_columns \<Rightarrow> 'f order_columns" where
  "sql_updateStatus st now r = r\<lparr>status := st, updatedAt := now\<rparr>"

definition sql_updateSrcLock :: "string \<Rightarrow> string \<Rightarrow> int \<Rightarrow> int \<Rightarrow> int
    \<Rightarrow> 'f order_columns \<Rightarrow> 'f order_columns" where
  "sql_updateSrcLock orderId txHash blockNumber timelock now r =
    r\<lparr>srcOrderId := Some orderId, srcLockTx := Some txHash, srcLockBlock := Some blockNumber,
      srcTimelock := Some timelock,
      status := (if status r = Announced then Src_locked else status r), updatedAt := now\<rparr>"

definition sql_updateDstLock :: "string \<Rightarrow> string \<Rightarrow> int \<Rightarrow> int \<Rightarrow> string option \<Rightarrow> int
    \<Rightarrow> 'f order_columns \<Rightarrow> 'f order_columns" where
  "sql_updateDstLock orderId txHash blockNumber timelock resolver now r =
    r\<lparr>dstOrderId := Some orderId, dstLockTx := Some txHash, dstLockBlock := Some blockNumber,
      dstTimelock := Some timelock, resolverAddress := resolver,
      status := (if status r \<in> {Announced, Src_locked} then Dst_locked else status r),
      updatedAt := now\<rparr>"

definition sql_updateSecret :: "string \<Rightarrow> string \<Rightarrow> int \<Rightarrow> 'f order_columns \<Rightarrow> 'f order_columns" where
  "sql_updateSecret pre txHash now r =
    r\<lparr>preimage := Some pre, secretRevealedTx := Some txHash, status := Secret_revealed,
      updatedAt := now\<rparr>"

definition with_order :: "string \<Rightarrow> (order_row \<Rightarrow> 'a db_comp) \<Rightarrow> 'a db_comp" where
  "with_order pid k =
    bindE (findByPublicId pid) (\<lambda>row. case row of
      None \<Rightarrow> throw (PlainError ''Unknown order'') | Some order \<Rightarrow> k order)"

definition setStatus :: "order_status \<Rightarrow> string option \<Rightarrow> string \<Rightarrow> unit db_comp" where
  "setStatus st txHash pid = with_order pid (\<lambda>order.
    thenE (update_order (sql_updateStatus st) pid)
      (recordTransition (rowId order) (Some (status order)) st txHash (status_str st)))"

definition recordSrcLock :: "string \<Rightarrow> string \<Rightarrow> int \<Rightarrow> int \<Rightarrow> string \<Rightarrow> unit db_comp" where
  "recordSrcLock orderId txHash blockNumber timelock pid = with_order pid (\<lambda>order.
    thenE (update_order (sql_updateSrcLock orderId txHash blockNumber timelock) pid)
      (recordTransition (rowId order) (Some (status order)) Src_locked (Some txHash)
        ''src_locked''))"

definition recordDstLock :: "string \<Rightarrow> string \<Rightarrow> int \<Rightarrow> int \<Rightarrow> string option \<Rightarrow> string
    \<Rightarrow> unit db_comp" where
  "recordDstLock orderId txHash blockNumber timelock resolver pid = with_order pid (\<lambda>order.
    thenE (update_order (sql_updateDstLock orderId txHash blockNumber timelock resolver) pid)
      (recordTransition (rowId order) (Some (status order)) Dst_locked (Some txHash)
        ''dst_locked''))"

definition recordSecretRevealed :: "string \<Rightarrow> string \<Rightarrow> string \<Rightarrow> unit db_comp" where
  "recordSecretRevealed pre txHash pid = with_order pid (\<lambda>order.
    thenE (update_order (sql_updateSecret pre txHash) pid)
      (recordTransition (rowId order) (Some (status order)) Secret_revealed (Some txHash)
        ''secret_revealed''))"

definition recordRejectedTransition :: "transition_rejection_info \<Rightarrow> unit db_comp" where
  "recordRejectedTransition i = with_order (rj_publicId i) (\<lambda>order.
    insertEvent (rowId order) TRANSITION_REJECTED_EVENT
      (Rejected_payload (rj_from i) (rj_to i) (rj_action i) (rj_code i) (rj_reason i)
        (rj_txHash i) (rj_writer i)))"

definition recordOrderTransition :: "string \<Rightarrow> order_status option \<Rightarrow> order_status \<Rightarrow> string option
    \<Rightarrow> string \<Rightarrow> unit db_comp" where
  "recordOrderTransition pid from to txHash category = with_order pid (\<lambda>order.
    recordTransition (rowId order) from to txHash category)"

text \<open>
  \<open>insertFullStmt\<close>: the columns of the input with a fresh id, the flag as 0 or 1 and both clocks
  defaulted; \<open>rowId\<close>, \<open>createdAt\<close> and \<open>updatedAt\<close> of the argument are not part of the input.
\<close>

definition full_order_row :: "order_row \<Rightarrow> int \<Rightarrow> int \<Rightarrow> order_db_row" where
  "full_order_row i oid now =
    \<lparr>rowId = oid, publicId = publicId i, direction = direction i, status = status i,
     hashlock = hashlock i, srcChain = srcChain i, srcAddress = srcAddress i,
     srcAsset = srcAsset i, srcAmount = srcAmount i, srcSafetyDeposit = srcSafetyDeposit i,
     srcOrderId = srcOrderId i, srcLockTx = srcLockTx i, srcLockBlock = srcLockBlock i,
     srcTimelock = srcTimelock i, dstChain = dstChain i, dstAddress = dstAddress i,
     dstAsset = dstAsset i, dstAmount = dstAmount i, dstOrderId = dstOrderId i,
     dstLockTx = dstLockTx i, dstLockBlock = dstLockBlock i, dstTimelock = dstTimelock i,
     preimage = preimage i, secretRevealedTx = secretRevealedTx i,
     resolverAddress = resolverAddress i, fixture = (if fixture i then 1 else 0),
     createdAt = now, updatedAt = now\<rparr>"

definition insertOrder :: "order_row \<Rightarrow> order_row db_comp" where
  "insertOrder i =
    thenE (insert_row (full_order_row i))
      (bindE (findByPublicId (publicId i)) (\<lambda>row. case row of
         None \<Rightarrow> throw (PlainError ''Failed to insert order'')
       | Some order \<Rightarrow> ret order))"

definition countFixtures :: "int db_comp" where
  "countFixtures = gets (\<lambda>s. int (length (filter (\<lambda>r. fixture r = 1) (orders_tbl s))))"

text \<open>\<open>ON DELETE CASCADE\<close> removes the events of the deleted orders.\<close>

definition removeFixtures :: "int db_comp" where
  "removeFixtures = (\<lambda>s.
    let gone = filter (\<lambda>r. fixture r = 1) (orders_tbl s)
    in (Inr (int (length gone)),
        s\<lparr>orders_tbl := filter (\<lambda>r. fixture r \<noteq> 1) (orders_tbl s),
          events_tbl := filter (\<lambda>e. \<not> list_ex (\<lambda>r. rowId r = ev_order_id e) gone) (events_tbl s)\<rparr>))"

section \<open>Events of an order\<close>

definition select_events :: "int \<Rightarrow> string \<Rightarrow> order_event_row list db_comp" where
  "select_events orderId eventType = gets (\<lambda>s.
    sort_key (\<lambda>e. (ev_created_at e, ev_id e))
      (filter (\<lambda>e. ev_order_id e = orderId \<and> ev_type e = eventType) (events_tbl s)))"

fun summary_of :: "int \<Rightarrow> event_payload \<Rightarrow> order_transition_summary" where
  "summary_of created (Summary_payload from to txHash category) =
     \<lparr>ts_from = from, ts_to = to, ts_timestamp = created, ts_txHash = txHash,
      ts_category = category\<rparr>"
| "summary_of created (Rejected_payload from to action code reason txHash writer) =
     \<lparr>ts_from = Some from, ts_to = to, ts_timestamp = created, ts_txHash = txHash,
      ts_category = ''transition''\<rparr>"

definition getTransitions :: "string \<Rightarrow> order_transition_summary list db_comp" where
  "getTransitions pid = bindE (findByPublicId pid) (\<lambda>row. case row of
     None \<Rightarrow> ret []
   | Some order \<Rightarrow> bindE (select_events (rowId order) TRANSITION_SUMMARY_EVENT) (\<lambda>rows.
       ret (map (\<lambda>e. summary_of (ev_created_at e) (ev_payload e)) rows)))"

fun rejected_of :: "int \<Rightarrow> event_payload \<Rightarrow> order_rejected_transition option" where
  "rejected_of created (Rejected_payload from to action code reason txHash writer) =
     Some \<lparr>rt_from = from, rt_to = to, rt_action = action, rt_code = code, rt_reason = reason,
      rt_txHash = txHash, rt_writer = writer, rt_timestamp = created\<rparr>"
| "rejected_of created (Summary_payload _ _ _ _) = None"

text \<open>
  Rows of type \<open>transition_rejected\<close> are written by \<open>recordRejectedTransition\<close> only, so the cast of
  the parsed payload succeeds on each (\<open>rejected_rows_typed\<close>); \<open>List.map_filter\<close> drops no row.
\<close>

definition getRejectedTransitions :: "string \<Rightarrow> order_rejected_transition list db_comp" where
  "getRejectedTransitions pid = bindE (findByPublicId pid) (\<lambda>row. case row of
     None \<Rightarrow> ret []
   | Some order \<Rightarrow> bindE (select_events (rowId order) TRANSITION_REJECTED_EVENT) (\<lambda>rows.
       ret (List.map_filter (\<lambda>e. rejected_of (ev_created_at e) (ev_payload e)) rows)))"

definition countRejectedTransitions :: "string \<Rightarrow> nat db_comp" where
  "countRejectedTransitions pid =
    bindE (getRejectedTransitions pid) (\<lambda>xs. ret (length xs))"

section \<open>Chain cursors and processed events\<close>

definition getChainCursor :: "chain_name \<Rightarrow> chain_cursor_row option db_comp" where
  "getChainCursor c = gets (\<lambda>s. find (\<lambda>r. cur_chain r = c) (cursors_tbl s))"

text \<open>\<open>INSERT .. ON CONFLICT (chain) DO UPDATE .. WHERE same network AND position not older\<close>.\<close>

definition upsert_cursor :: "chain_cursor_row \<Rightarrow> chain_cursor_row list \<Rightarrow> chain_cursor_row list" where
  "upsert_cursor new rows =
    (if list_ex (\<lambda>r. cur_chain r = cur_chain new) rows
     then update_where
       (\<lambda>r. cur_chain r = cur_chain new \<and> cur_network_id r = cur_network_id new
            \<and> cur_position new \<ge> cur_position r)
       (\<lambda>r. r\<lparr>cur_position := cur_position new, cur_cursor := cur_cursor new\<rparr>) rows
     else rows @ [new])"

definition saveChainCursor :: "chain_cursor_row \<Rightarrow> unit db_comp" where
  "saveChainCursor new = modify (\<lambda>s. s\<lparr>cursors_tbl := upsert_cursor new (cursors_tbl s)\<rparr>)"

definition hasProcessedEvent :: "string \<Rightarrow> bool db_comp" where
  "hasProcessedEvent key = gets (\<lambda>s. find (\<lambda>r. pe_key r = key) (processed_tbl s) \<noteq> None)"

text \<open>\<open>ON CONFLICT DO NOTHING\<close>; the result is whether a row was inserted.\<close>

definition markEventProcessed :: "processed_event_row \<Rightarrow> bool db_comp" where
  "markEventProcessed e = (\<lambda>s.
    if list_ex (\<lambda>r. pe_key r = pe_key e) (processed_tbl s) then (Inr False, s)
    else (Inr True, s\<lparr>processed_tbl := processed_tbl s @ [e]\<rparr>))"

section \<open>Metrics and snapshots\<close>

definition status_count :: "order_db_row list \<Rightarrow> order_status \<Rightarrow> int" where
  "status_count rows st = int (length (filter (\<lambda>r. status r = st) rows))"

text \<open>\<open>GROUP BY status\<close> has one group per status that occurs.\<close>

definition metricsByStatus :: "order_db_row list \<Rightarrow> (string \<times> int) list" where
  "metricsByStatus rows =
    map (\<lambda>st. (status_str st, status_count rows st))
      (filter (\<lambda>st. status_count rows st > 0) ORDER_STATUSES)"

definition count_or_0 :: "(string \<rightharpoonup> int) \<Rightarrow> string \<Rightarrow> int" where
  "count_or_0 m k = (case m k of None \<Rightarrow> 0 | Some n \<Rightarrow> n)"

definition max_updated :: "order_db_row list \<Rightarrow> int option" where
  "max_updated rows =
    (case map updatedAt rows of [] \<Rightarrow> None | t # ts \<Rightarrow> Some (foldl max t ts))"

definition getMetrics :: "order_metrics db_comp" where
  "getMetrics = gets (\<lambda>s.
    let m = foldl (\<lambda>m (k, n). m(k \<mapsto> n)) Map.empty (metricsByStatus (orders_tbl s))
    in \<lparr>totalOrders = int (length (orders_tbl s)), byStatus = m,
        completedOrders = count_or_0 m ''completed'',
        refundedOrders = count_or_0 m ''refunded'',
        staleExpiredOrders = count_or_0 m ''expired'' + count_or_0 m ''failed'',
        lastUpdatedTimestamp = max_updated (orders_tbl s)\<rparr>)"

fun deriveTransitions :: "order_status \<Rightarrow> string list" where
  "deriveTransitions Completed =
     [''announced'', ''src_locked'', ''dst_locked'', ''secret_revealed'', ''completed'']"
| "deriveTransitions Refunded =
     [''announced'', ''src_locked'', ''dst_locked'', ''secret_revealed'', ''refunded'']"
| "deriveTransitions Failed = [''announced'', ''failed'']"
| "deriveTransitions Expired = [''announced'', ''expired'']"
| "deriveTransitions st = [status_str st]"

definition buildSnapshot :: "order_row \<Rightarrow> order_snapshot" where
  "buildSnapshot order =
    \<lparr>sn_orderId = publicId order, sn_currentState = status order,
     sn_transitions = deriveTransitions (status order),
     sn_publicTxHashes =
       List.map_filter (\<lambda>tx. tx) [srcLockTx order, dstLockTx order, secretRevealedTx order],
     sn_createdAt = createdAt order, sn_updatedAt = updatedAt order,
     sn_direction = direction order,
     sn_outcomeSummary =
       (if status order = Completed then ''Order completed successfully''
        else if status order = Refunded then ''Order refunded''
        else if status order = Failed then ''Order failed''
        else ''Order expired'')\<rparr>"

definition getCompletedOrderSnapshots :: "order_snapshot list db_comp" where
  "getCompletedOrderSnapshots = gets (\<lambda>s.
    map (buildSnapshot \<circ> rowToOrder)
      (sort_key (\<lambda>r. - updatedAt r)
        (filter (\<lambda>r. status r \<in> {Completed, Refunded, Failed, Expired}) (orders_tbl s))))"

section \<open>Laws of the store\<close>

text \<open>The orders as a finite map from public id to row: what every caller observes.\<close>

definition orders_view :: "coord_db \<Rightarrow> string \<Rightarrow> order_row option" where
  "orders_view s pid = map_option rowToOrder (find (\<lambda>r. publicId r = pid) (orders_tbl s))"

lemma findByPublicId_apply [simp]: "findByPublicId pid s = (Inr (orders_view s pid), s)"
  by (simp add: findByPublicId_def select_order_def orders_view_def)

lemma with_order_apply:
  "with_order pid k s = (case orders_view s pid of
     None \<Rightarrow> (Inl (PlainError ''Unknown order''), s) | Some order \<Rightarrow> k order s)"
  by (simp add: with_order_def bindE_apply split: option.splits)

lemma orders_view_publicId: "orders_view s pid = Some r \<Longrightarrow> publicId r = pid"
  by (auto simp: orders_view_def dest: find_SomeD)

lemma orders_view_row:
  "orders_view s pid = Some r \<Longrightarrow> \<exists>d \<in> set (orders_tbl s). rowToOrder d = r \<and> publicId d = pid"
  by (auto simp: orders_view_def dest: find_SomeD)

lemma orders_view_rowId:
  "orders_view s pid = Some r \<Longrightarrow> list_ex (\<lambda>d. rowId d = rowId r) (orders_tbl s)"
  by (auto dest!: orders_view_row simp: list_ex_iff)

subsection \<open>The schema as an invariant\<close>

fun is_summary :: "event_payload \<Rightarrow> bool" where
  "is_summary (Summary_payload _ _ _ _) = True"
| "is_summary (Rejected_payload _ _ _ _ _ _ _) = False"

definition typed_event :: "order_event_row \<Rightarrow> bool" where
  "typed_event e \<longleftrightarrow>
    ev_type e = TRANSITION_SUMMARY_EVENT \<and> is_summary (ev_payload e) \<or>
    ev_type e = TRANSITION_REJECTED_EVENT \<and> \<not> is_summary (ev_payload e)"

definition orders_ok :: "coord_db \<Rightarrow> bool" where
  "orders_ok s \<longleftrightarrow> distinct (map publicId (orders_tbl s)) \<and> distinct (map rowId (orders_tbl s)) \<and>
    (\<forall>r \<in> set (orders_tbl s). rowId r \<le> orders_seq s \<and> fixture r \<in> {0, 1})"

definition events_ok :: "coord_db \<Rightarrow> bool" where
  "events_ok s \<longleftrightarrow> sorted_wrt (<) (map ev_id (events_tbl s)) \<and>
    (\<forall>e \<in> set (events_tbl s). ev_id e \<le> events_seq s \<and> typed_event e \<and>
       ev_order_id e \<in> rowId ` set (orders_tbl s))"

definition cursors_ok :: "coord_db \<Rightarrow> bool" where
  "cursors_ok s \<longleftrightarrow> distinct (map cur_chain (cursors_tbl s)) \<and>
    distinct (map pe_key (processed_tbl s))"

definition db_ok :: "coord_db \<Rightarrow> bool" where
  "db_ok s \<longleftrightarrow> orders_ok s \<and> events_ok s \<and> cursors_ok s"

lemmas db_ok_defs = db_ok_def orders_ok_def events_ok_def cursors_ok_def

lemma db_ok_empty [simp]: "db_ok (empty_db now)"
  by (simp add: db_ok_defs empty_db_def)

lemma keeps_select_order [keeps_rules]: "keeps P (select_order Q)"
  by (simp add: select_order_def keeps_gets)

lemma keeps_finds [keeps_rules]:
  "keeps P (findByPublicId pid)" "keeps P (findByHashlock h)" "keeps P (findByPreimage p)"
  "keeps P (findBySrcOrderId c oid)" "keeps P (findByDstOrderId c oid)"
  "keeps P (findByAddressPage addr limit before)" "keeps P (select_events n t)"
  "keeps P (getChainCursor net)" "keeps P (hasProcessedEvent key)"
  by (simp_all add: findByPublicId_def findByHashlock_def findByPreimage_def findBySrcOrderId_def
      findByDstOrderId_def findByAddressPage_def select_events_def getChainCursor_def
      hasProcessedEvent_def keeps_rules)

lemma keeps_with_order [keeps_rules]: "(\<And>r. keeps P (k r)) \<Longrightarrow> keeps P (with_order pid k)"
  unfolding with_order_def by (intro keeps_rules)

lemma keeps_insertEvent:
  assumes "t = TRANSITION_SUMMARY_EVENT \<and> is_summary p \<or>
    t = TRANSITION_REJECTED_EVENT \<and> \<not> is_summary p"
  shows "keeps db_ok (insertEvent oid t p)"
proof (rule keepsI)
  fix s assume ok: "db_ok s"
  show "db_ok (snd (insertEvent oid t p s))"
  proof (cases "list_ex (\<lambda>r. rowId r = oid) (orders_tbl s)")
    case False
    with ok show ?thesis by (simp add: insertEvent_def)
  next
    case True
    then have "oid \<in> rowId ` set (orders_tbl s)" by (auto simp: list_ex_iff)
    moreover have "ev_id e < events_seq s + 1" if "e \<in> set (events_tbl s)" for e
      using ok that by (force simp: db_ok_defs)
    ultimately show ?thesis
      using ok assms True
      by (force simp: insertEvent_def db_ok_defs sorted_wrt_append typed_event_def)
  qed
qed

lemma keeps_recordTransition [keeps_rules]: "keeps db_ok (recordTransition oid f t tx c)"
  by (simp add: recordTransition_def keeps_insertEvent)

lemma keeps_update_order:
  assumes "\<And>n r. publicId (f n r) = publicId r" "\<And>n r. rowId (f n r) = rowId r"
    and "\<And>n r. fixture (f n r) = fixture r"
  shows "keeps db_ok (update_order f pid)"
  unfolding keeps_def update_order_def modify_apply snd_conv
proof (intro allI impI)
  fix s assume ok: "db_ok s"
  let ?u = "update_where (\<lambda>r. publicId r = pid) (f (now_s s)) (orders_tbl s)"
  have "rowId ` set ?u = rowId ` set (orders_tbl s)"
    using assms(2) by (metis (no_types, lifting) list.set_map map_update_where)
  then show "db_ok (s\<lparr>orders_tbl := ?u\<rparr>)"
    using ok assms by (auto simp: db_ok_defs set_update_where)
qed

lemma sql_update_frame [simp]:
  "publicId (sql_updateStatus st n r) = publicId r" "rowId (sql_updateStatus st n r) = rowId r"
  "fixture (sql_updateStatus st n r) = fixture r"
  "publicId (sql_updateSrcLock i t b l n r) = publicId r"
  "rowId (sql_updateSrcLock i t b l n r) = rowId r"
  "fixture (sql_updateSrcLock i t b l n r) = fixture r"
  "publicId (sql_updateDstLock i t b l v n r) = publicId r"
  "rowId (sql_updateDstLock i t b l v n r) = rowId r"
  "fixture (sql_updateDstLock i t b l v n r) = fixture r"
  "publicId (sql_updateSecret p t n r) = publicId r" "rowId (sql_updateSecret p t n r) = rowId r"
  "fixture (sql_updateSecret p t n r) = fixture r"
  by (simp_all add: sql_updateStatus_def sql_updateSrcLock_def sql_updateDstLock_def
      sql_updateSecret_def)

lemma rowToOrder_sql_update [simp]:
  "rowToOrder (sql_updateStatus st n r) = sql_updateStatus st n (rowToOrder r)"
  "rowToOrder (sql_updateSrcLock i t b l n r) = sql_updateSrcLock i t b l n (rowToOrder r)"
  "rowToOrder (sql_updateDstLock i t b l v n r) = sql_updateDstLock i t b l v n (rowToOrder r)"
  "rowToOrder (sql_updateSecret p t n r) = sql_updateSecret p t n (rowToOrder r)"
  by (simp_all add: sql_updateStatus_def sql_updateSrcLock_def sql_updateDstLock_def
      sql_updateSecret_def rowToOrder_def)

lemma keeps_writers [keeps_rules]:
  "keeps db_ok (setStatus st tx pid)"
  "keeps db_ok (recordSrcLock oid htx b l pid)"
  "keeps db_ok (recordDstLock oid htx b l v pid)"
  "keeps db_ok (recordSecretRevealed pre htx pid)"
  "keeps db_ok (recordRejectedTransition i)"
  "keeps db_ok (recordOrderTransition pid f t tx c)"
  unfolding setStatus_def recordSrcLock_def recordDstLock_def recordSecretRevealed_def
    recordRejectedTransition_def recordOrderTransition_def
  by (intro keeps_rules keeps_update_order keeps_insertEvent; simp)+

lemma keeps_insert_row:
  assumes "\<And>oid now. rowId (mk oid now) = oid" "\<And>oid now. fixture (mk oid now) \<in> {0, 1}"
  shows "keeps db_ok (insert_row mk)"
proof (rule keepsI)
  fix s assume ok: "db_ok s"
  have fresh: "orders_seq s + 1 \<notin> rowId ` set (orders_tbl s)"
    using ok by (force simp: db_ok_defs)
  show "db_ok (snd (insert_row mk s))"
    using ok fresh assms by (fastforce simp: insert_row_def db_ok_defs list_ex_iff Let_def)
qed

lemma keeps_announce [keeps_rules]: "keeps db_ok (announce pid i)"
  unfolding announce_def
  by (intro keeps_rules keeps_insert_row) (simp_all add: new_order_row_def)

lemma keeps_insertOrder [keeps_rules]: "keeps db_ok (insertOrder i)"
  unfolding insertOrder_def
  by (intro keeps_rules keeps_insert_row) (simp_all add: full_order_row_def)

lemma keeps_removeFixtures [keeps_rules]: "keeps db_ok removeFixtures"
proof (rule keepsI)
  fix s assume ok: "db_ok s"
  let ?s' = "snd (removeFixtures s)"
  have o: "orders_ok ?s'"
    using ok by (auto simp: removeFixtures_def db_ok_def orders_ok_def Let_def distinct_map_filter)
  have "ev_order_id e \<in> rowId ` set (orders_tbl ?s')" if e: "e \<in> set (events_tbl ?s')" for e
  proof -
    from e ok obtain r where r: "r \<in> set (orders_tbl s)" "rowId r = ev_order_id e"
      by (auto simp: removeFixtures_def db_ok_defs Let_def)
    with e have "fixture r \<noteq> 1"
      by (auto simp: removeFixtures_def Let_def list_ex_iff)
    with r show ?thesis by (auto simp: removeFixtures_def Let_def intro!: rev_image_eqI)
  qed
  moreover have "set (events_tbl ?s') \<subseteq> set (events_tbl s)" "events_seq ?s' = events_seq s"
    by (auto simp: removeFixtures_def Let_def)
  moreover have "sorted_wrt (<) (map ev_id (events_tbl ?s'))"
    using ok by (simp add: removeFixtures_def db_ok_defs Let_def sorted_wrt_map sorted_wrt_filter)
  ultimately have "events_ok ?s'"
    using ok by (auto simp: db_ok_def events_ok_def)
  with o ok show "db_ok ?s'"
    by (simp add: db_ok_def cursors_ok_def removeFixtures_def Let_def)
qed

lemma upsert_cursor_chains:
  "map cur_chain (upsert_cursor new rows) =
    (if cur_chain new \<in> cur_chain ` set rows then map cur_chain rows
     else map cur_chain rows @ [cur_chain new])"
  by (auto simp: upsert_cursor_def list_ex_iff intro: rev_image_eqI)

lemma keeps_saveChainCursor [keeps_rules]: "keeps db_ok (saveChainCursor new)"
  by (rule keepsI) (auto simp: saveChainCursor_def db_ok_defs upsert_cursor_chains)

lemma keeps_markEventProcessed [keeps_rules]: "keeps db_ok (markEventProcessed e)"
  by (rule keepsI) (auto simp: markEventProcessed_def db_ok_defs list_ex_iff)

subsection \<open>Writing one order\<close>

definition new_event :: "coord_db \<Rightarrow> int \<Rightarrow> string \<Rightarrow> event_payload \<Rightarrow> order_event_row" where
  "new_event s oid t p =
    \<lparr>ev_id = events_seq s + 1, ev_order_id = oid, ev_type = t, ev_payload = p,
     ev_created_at = now_s s\<rparr>"

text \<open>
  What the order service relies on: an operation on one order fails on an unknown id, otherwise
  succeeds, replaces exactly that order by \<open>change\<close> of it, appends one event to the audit trail and
  touches neither the cursors nor the processed events.
\<close>

locale row_writer =
  fixes change :: "int \<Rightarrow> order_row \<Rightarrow> order_row"
    and etype :: string
    and payload :: "order_row \<Rightarrow> event_payload"
    and op :: "string \<Rightarrow> unit db_comp"
  assumes op_unknown:
      "orders_view s pid = None \<Longrightarrow> op pid s = (Inl (PlainError ''Unknown order''), s)"
    and op_result: "orders_view s pid = Some r \<Longrightarrow> fst (op pid s) = Inr ()"
    and op_view: "orders_view s pid = Some r \<Longrightarrow>
      orders_view (snd (op pid s)) = (orders_view s)(pid \<mapsto> change (now_s s) r)"
    and op_events: "orders_view s pid = Some r \<Longrightarrow>
      events_tbl (snd (op pid s)) = events_tbl s @ [new_event s (rowId r) etype (payload r)]"
    and op_cursors: "cursors_tbl (snd (op pid s)) = cursors_tbl s"
    and op_processed: "processed_tbl (snd (op pid s)) = processed_tbl s"
    and op_clock: "now_s (snd (op pid s)) = now_s s"
begin

lemma op_success: "orders_view s pid = Some r \<Longrightarrow> op pid s = (Inr (), snd (op pid s))"
  by (metis op_result prod.collapse)

lemma op_other: "pid' \<noteq> pid \<Longrightarrow> orders_view (snd (op pid s)) pid' = orders_view s pid'"
  by (cases "orders_view s pid") (simp_all add: op_unknown op_view)

lemma op_dom: "dom (orders_view (snd (op pid s))) = dom (orders_view s)"
  by (cases "orders_view s pid") (auto simp: op_unknown op_view)

lemma op_audit: "\<exists>es. events_tbl (snd (op pid s)) = events_tbl s @ es"
  by (cases "orders_view s pid") (auto simp: op_unknown op_events)

end

lemma view_update_where:
  assumes "\<And>r. publicId (f r) = publicId r" and "\<And>r. rowToOrder (f r) = g (rowToOrder r)"
  shows "orders_view (s\<lparr>orders_tbl := update_where (\<lambda>r. publicId r = pid) f (orders_tbl s)\<rparr>) =
    (orders_view s)(pid := map_option g (orders_view s pid))"
proof
  fix pid'
  let ?s' = "s\<lparr>orders_tbl := update_where (\<lambda>r. publicId r = pid) f (orders_tbl s)\<rparr>"
  have eq: "orders_view ?s' pid' =
      map_option (\<lambda>r. rowToOrder (if publicId r = pid then f r else r))
        (find (\<lambda>r. publicId r = pid') (orders_tbl s))"
    by (simp add: orders_view_def find_update_where [where k = publicId, OF assms(1)]
        option.map_comp comp_def)
  show "orders_view ?s' pid' = ((orders_view s)(pid := map_option g (orders_view s pid))) pid'"
  proof (cases "find (\<lambda>r. publicId r = pid') (orders_tbl s)")
    case None
    with eq show ?thesis by (auto simp: orders_view_def)
  next
    case (Some d)
    then have "publicId d = pid'" by (auto dest: find_SomeD)
    then have "orders_view ?s' pid' = Some (rowToOrder (if pid' = pid then f d else d))"
      using eq Some by simp
    then show ?thesis using Some assms(2) by (auto simp: orders_view_def [of s])
  qed
qed

lemma list_ex_key: "list_ex (\<lambda>r. k r = x) rs \<longleftrightarrow> x \<in> set (map k rs)"
  by (auto simp: list_ex_iff)

lemma orders_view_events [simp]:
  "orders_view (s\<lparr>events_seq := a, events_tbl := b\<rparr>) = orders_view s"
  by (simp add: orders_view_def fun_eq_iff)

text \<open>The repository's writers share one shape: find, update the row, record the transition.\<close>

definition write_order :: "(int \<Rightarrow> order_db_row \<Rightarrow> order_db_row) \<Rightarrow> order_status \<Rightarrow> string option
    \<Rightarrow> string \<Rightarrow> string \<Rightarrow> unit db_comp" where
  "write_order f st tx c pid = with_order pid (\<lambda>order. thenE (update_order f pid)
     (recordTransition (rowId order) (Some (status order)) st tx c))"

lemma write_order_apply:
  assumes "\<And>n r. rowId (f n r) = rowId r" and r: "orders_view s pid = Some r"
  shows "write_order f st tx c pid s =
    (Inr (), s\<lparr>orders_tbl := update_where (\<lambda>r. publicId r = pid) (f (now_s s)) (orders_tbl s),
       events_seq := events_seq s + 1,
       events_tbl := events_tbl s @ [new_event s (rowId r) TRANSITION_SUMMARY_EVENT
         (Summary_payload (Some (status r)) st tx c)]\<rparr>)"
proof -
  have "rowId r \<in> set (map rowId (orders_tbl s))"
    using orders_view_rowId [OF r] by (simp only: list_ex_key)
  then have "list_ex (\<lambda>d. rowId d = rowId r)
      (update_where (\<lambda>r. publicId r = pid) (f (now_s s)) (orders_tbl s))"
    by (simp only: list_ex_key map_update_where assms(1))
  then show ?thesis
    using r by (simp add: write_order_def with_order_apply thenE_apply update_order_def
        recordTransition_def insertEvent_def new_event_def)
qed

lemma row_writerI:
  assumes "\<And>n r. publicId (f n r) = publicId r" "\<And>n r. rowId (f n r) = rowId r"
    and "\<And>n r. rowToOrder (f n r) = g n (rowToOrder r)"
  shows "row_writer g TRANSITION_SUMMARY_EVENT (\<lambda>r. Summary_payload (Some (status r)) st tx c)
    (write_order f st tx c)"
proof
  fix s pid assume "orders_view s pid = None"
  then show "write_order f st tx c pid s = (Inl (PlainError ''Unknown order''), s)"
    by (simp add: write_order_def with_order_apply)
next
  fix s pid r assume r: "orders_view s pid = Some r"
  have v: "orders_view (s\<lparr>orders_tbl :=
        update_where (\<lambda>r. publicId r = pid) (f (now_s s)) (orders_tbl s)\<rparr>) =
      (orders_view s)(pid := map_option (g (now_s s)) (orders_view s pid))"
    by (rule view_update_where) (simp_all add: assms)
  show "fst (write_order f st tx c pid s) = Inr ()"
    by (simp add: write_order_apply [OF assms(2) r])
  show "orders_view (snd (write_order f st tx c pid s)) =
      (orders_view s)(pid \<mapsto> g (now_s s) r)"
    using r v by (simp add: write_order_apply [OF assms(2) r])
  show "events_tbl (snd (write_order f st tx c pid s)) = events_tbl s @
      [new_event s (rowId r) TRANSITION_SUMMARY_EVENT (Summary_payload (Some (status r)) st tx c)]"
    by (simp add: write_order_apply [OF assms(2) r])
next
  fix s pid
  have "cursors_tbl (snd (write_order f st tx c pid s)) = cursors_tbl s \<and>
    processed_tbl (snd (write_order f st tx c pid s)) = processed_tbl s \<and>
    now_s (snd (write_order f st tx c pid s)) = now_s s"
  proof (cases "orders_view s pid")
    case None
    then show ?thesis by (simp add: write_order_def with_order_apply)
  next
    case (Some r)
    show ?thesis by (simp add: write_order_apply [OF assms(2) Some])
  qed
  then show "cursors_tbl (snd (write_order f st tx c pid s)) = cursors_tbl s"
    "processed_tbl (snd (write_order f st tx c pid s)) = processed_tbl s"
    "now_s (snd (write_order f st tx c pid s)) = now_s s"
    by blast+
qed

lemma writers_eq:
  "setStatus st tx = write_order (sql_updateStatus st) st tx (status_str st)"
  "recordSrcLock oid htx b l =
    write_order (sql_updateSrcLock oid htx b l) Src_locked (Some htx) ''src_locked''"
  "recordDstLock oid htx b l v =
    write_order (sql_updateDstLock oid htx b l v) Dst_locked (Some htx) ''dst_locked''"
  "recordSecretRevealed pre htx =
    write_order (sql_updateSecret pre htx) Secret_revealed (Some htx) ''secret_revealed''"
  by (simp_all add: fun_eq_iff setStatus_def recordSrcLock_def recordDstLock_def
      recordSecretRevealed_def write_order_def)

interpretation status_writer: row_writer "sql_updateStatus st" TRANSITION_SUMMARY_EVENT
    "\<lambda>r. Summary_payload (Some (status r)) st tx (status_str st)" "setStatus st tx" for st tx
  unfolding writers_eq by (rule row_writerI) simp_all

interpretation src_writer: row_writer "sql_updateSrcLock oid htx b l" TRANSITION_SUMMARY_EVENT
    "\<lambda>r. Summary_payload (Some (status r)) Src_locked (Some htx) ''src_locked''"
    "recordSrcLock oid htx b l" for oid htx b l
  unfolding writers_eq by (rule row_writerI) simp_all

interpretation dst_writer: row_writer "sql_updateDstLock oid htx b l v" TRANSITION_SUMMARY_EVENT
    "\<lambda>r. Summary_payload (Some (status r)) Dst_locked (Some htx) ''dst_locked''"
    "recordDstLock oid htx b l v" for oid htx b l v
  unfolding writers_eq by (rule row_writerI) simp_all

interpretation secret_writer: row_writer "sql_updateSecret pre htx" TRANSITION_SUMMARY_EVENT
    "\<lambda>r. Summary_payload (Some (status r)) Secret_revealed (Some htx) ''secret_revealed''"
    "recordSecretRevealed pre htx" for pre htx
  unfolding writers_eq by (rule row_writerI) simp_all

definition rejected_payload :: "transition_rejection_info \<Rightarrow> event_payload" where
  "rejected_payload i = Rejected_payload (rj_from i) (rj_to i) (rj_action i) (rj_code i)
     (rj_reason i) (rj_txHash i) (rj_writer i)"

interpretation rejection_writer: row_writer "\<lambda>n r. r" TRANSITION_REJECTED_EVENT
    "\<lambda>_. rejected_payload i" "\<lambda>pid. recordRejectedTransition (i\<lparr>rj_publicId := pid\<rparr>)" for i
proof
  fix s pid assume "orders_view s pid = None"
  then show "recordRejectedTransition (i\<lparr>rj_publicId := pid\<rparr>) s =
      (Inl (PlainError ''Unknown order''), s)"
    by (simp add: recordRejectedTransition_def with_order_apply)
next
  fix s pid r assume r: "orders_view s pid = Some r"
  have eq: "recordRejectedTransition (i\<lparr>rj_publicId := pid\<rparr>) s =
    (Inr (), s\<lparr>events_seq := events_seq s + 1, events_tbl := events_tbl s @
       [new_event s (rowId r) TRANSITION_REJECTED_EVENT (rejected_payload i)]\<rparr>)"
    using r orders_view_rowId [OF r]
    by (simp add: recordRejectedTransition_def with_order_apply insertEvent_def new_event_def
        rejected_payload_def)
  show "fst (recordRejectedTransition (i\<lparr>rj_publicId := pid\<rparr>) s) = Inr ()"
    by (simp add: eq)
  show "orders_view (snd (recordRejectedTransition (i\<lparr>rj_publicId := pid\<rparr>) s)) =
      (orders_view s)(pid \<mapsto> r)"
    using r by (simp add: eq fun_upd_idem)
  show "events_tbl (snd (recordRejectedTransition (i\<lparr>rj_publicId := pid\<rparr>) s)) =
      events_tbl s @ [new_event s (rowId r) TRANSITION_REJECTED_EVENT (rejected_payload i)]"
    by (simp add: eq)
next
  fix s pid
  let ?m = "recordRejectedTransition (i\<lparr>rj_publicId := pid\<rparr>) s"
  show "cursors_tbl (snd ?m) = cursors_tbl s" "processed_tbl (snd ?m) = processed_tbl s"
    "now_s (snd ?m) = now_s s"
    by (simp_all add: recordRejectedTransition_def with_order_apply insertEvent_def
        split: option.splits)
qed

end
