(* ===== verification/Sdk_Amounts.thy ===== *)
theory Sdk_Amounts
  imports OS_Prelude
begin

text \<open>
  Exact amount conversion: \<open>packages/sdk/src/amounts/index.ts\<close> (decimal text, wei and stroops)
  and the coordinator's parser of form input, \<open>parseAmountToBaseUnits\<close> and
  \<open>parseBaseUnitInteger\<close> of \<open>coordinator/src/services/quote-service.ts\<close>. A \<open>bigint\<close> is \<open>int\<close>, a
  count of decimals \<open>nat\<close> (\<open>int\<close> where the code checks its sign). The regular expressions are
  written out as matchers that return their groups.
\<close>

definition ETHEREUM_DECIMALS :: nat where
  "ETHEREUM_DECIMALS = 18"

definition STELLAR_DECIMALS :: nat where
  "STELLAR_DECIMALS = 7"

definition MAX_STELLAR_STROOPS :: int where
  "MAX_STELLAR_STROOPS = 2 ^ 63 - 1"

definition MIN_WEI_PER_STROOP :: int where
  "MIN_WEI_PER_STROOP = 10 ^ (ETHEREUM_DECIMALS - STELLAR_DECIMALS)"

datatype amount_error_code = Not_a_decimal | Negative | Precision_loss | Overflow

type_synonym amount_result = "amount_error_code + int"

definition trim_str :: "string \<Rightarrow> string" where
  "trim_str s = rev (dropWhile is_space (rev (dropWhile is_space s)))"

section \<open>Matching decimal text\<close>

text \<open>\<open>/^([+-])?(\d+)(?:\.(\d+))?$/u\<close>: sign, whole part, fraction (empty when the group is absent).\<close>

definition match_sign :: "string \<Rightarrow> char option \<times> string" where
  "match_sign s = (case s of
     [] \<Rightarrow> (None, [])
   | c # cs \<Rightarrow> if c = CHR ''+'' \<or> c = CHR ''-'' then (Some c, cs) else (None, s))"

definition match_decimal :: "string \<Rightarrow> (char option \<times> string \<times> string) option" where
  "match_decimal s =
    (let (sign, body) = match_sign s;
         whole = takeWhile is_digit body;
         rest = dropWhile is_digit body
     in if whole = [] then None
        else case rest of
            [] \<Rightarrow> Some (sign, whole, [])
          | c # frac \<Rightarrow> if c = CHR ''.'' \<and> is_decimal frac then Some (sign, whole, frac) else None)"

text \<open>\<open>/^(\d+)(?:\.(\d*))?$|^\.(\d+)$/\<close>: whole part (\<open>"0"\<close> in the second form) and fraction.\<close>

definition match_amount :: "string \<Rightarrow> (string \<times> string) option" where
  "match_amount s =
    (let whole = takeWhile is_digit s; rest = dropWhile is_digit s
     in case rest of
          [] \<Rightarrow> if whole = [] then None else Some (whole, [])
        | c # frac \<Rightarrow>
            if c \<noteq> CHR ''.'' \<or> \<not> list_all is_digit frac then None
            else if whole \<noteq> [] then Some (whole, frac)
            else if frac \<noteq> [] then Some (''0'', frac) else None)"

definition padEnd :: "string \<Rightarrow> nat \<Rightarrow> char \<Rightarrow> string" where
  "padEnd s n c = s @ replicate (n - length s) c"

definition padStart :: "string \<Rightarrow> nat \<Rightarrow> char \<Rightarrow> string" where
  "padStart s n c = replicate (n - length s) c @ s"

section \<open>The conversions\<close>

definition parseDecimalToAtomic :: "string \<Rightarrow> nat \<Rightarrow> amount_result" where
  "parseDecimalToAtomic value decimals =
    (case match_decimal (trim_str value) of
       None \<Rightarrow> Inl Not_a_decimal
     | Some (sign, whole, fraction) \<Rightarrow>
         if sign = Some CHR ''-'' then Inl Negative
         else let mantissa = int (parse_digits (whole @ fraction))
           in if length fraction \<le> decimals
              then Inr (mantissa * 10 ^ (decimals - length fraction))
              else let divisor = 10 ^ (length fraction - decimals)
                in if mantissa mod divisor \<noteq> 0 then Inl Precision_loss
                   else Inr (mantissa div divisor))"

definition formatAtomicToDecimal :: "int \<Rightarrow> nat \<Rightarrow> string" where
  "formatAtomicToDecimal atomic decimals =
    (let negative = atomic < 0;
         magnitude = (if negative then - atomic else atomic);
         scale = 10 ^ decimals;
         whole = magnitude div scale;
         fraction = padStart (show_int (magnitude mod scale)) decimals CHR ''0''
     in (if negative then ''-'' else []) @ show_int whole @ ''.'' @ fraction)"

definition convertAtomic :: "int \<Rightarrow> nat \<Rightarrow> nat \<Rightarrow> amount_result" where
  "convertAtomic amount fromDecimals toDecimals =
    (if amount < 0 then Inl Negative
     else if toDecimals \<ge> fromDecimals then Inr (amount * 10 ^ (toDecimals - fromDecimals))
     else let divisor = 10 ^ (fromDecimals - toDecimals)
       in if amount mod divisor \<noteq> 0 then Inl Precision_loss else Inr (amount div divisor))"

definition weiToStroops :: "int \<Rightarrow> amount_result" where
  "weiToStroops wei =
    (case convertAtomic wei ETHEREUM_DECIMALS STELLAR_DECIMALS of
       Inl e \<Rightarrow> Inl e
     | Inr v \<Rightarrow> if v > MAX_STELLAR_STROOPS then Inl Overflow else Inr v)"

definition stroopsToWei :: "int \<Rightarrow> amount_result" where
  "stroopsToWei stroops =
    (if stroops > MAX_STELLAR_STROOPS then Inl Overflow
     else convertAtomic stroops STELLAR_DECIMALS ETHEREUM_DECIMALS)"

definition isBridgeableWei :: "int \<Rightarrow> bool" where
  "isBridgeableWei wei =
    (case weiToStroops wei of
       Inl _ \<Rightarrow> False
     | Inr s \<Rightarrow> (case stroopsToWei s of Inl _ \<Rightarrow> False | Inr back \<Rightarrow> back = wei))"

text \<open>
  \<open>parseAmountToBaseUnits\<close> throws \<open>AmountParseError\<close> with a message; the messages quote the input.
\<close>

definition parseAmountToBaseUnits :: "string \<Rightarrow> int \<Rightarrow> string + int" where
  "parseAmountToBaseUnits input decimals =
    (if decimals < 0 then Inl (''invalid decimals: '' @ show_int decimals)
     else case match_amount (trim_str input) of
       None \<Rightarrow> Inl (''amount must be a non-negative decimal: \"'' @ input @ ''\"'')
     | Some (whole, frac) \<Rightarrow>
         if int (length frac) > decimals
         then Inl (''amount has '' @ show_nat (length frac) @ '' fractional digits, asset allows ''
                @ show_int decimals)
         else let padded = padEnd frac (nat decimals) CHR ''0''
           in Inr (int (parse_digits whole) * 10 ^ nat decimals
                + int (parse_digits (if padded = [] then ''0'' else padded))))"

text \<open>\<open>/^(0|[1-9]\d*)$/\<close>\<close>

definition is_base_unit_integer :: "string \<Rightarrow> bool" where
  "is_base_unit_integer s \<longleftrightarrow> s = ''0'' \<or> is_decimal s \<and> hd s \<noteq> CHR ''0''"

definition parseBaseUnitInteger :: "string \<Rightarrow> string + string" where
  "parseBaseUnitInteger value =
    (if \<not> is_base_unit_integer value
     then Inl (''amount must be a base-unit integer string: \"'' @ value @ ''\"'')
     else Inr (show_nat (parse_digits value)))"

section \<open>Lemmas\<close>

lemma parse_digits_append:
  "parse_digits (s @ t) = parse_digits s * 10 ^ length t + parse_digits t"
proof (induction t rule: rev_induct)
  case (snoc c t)
  have "parse_digits (s @ t @ [c]) = 10 * parse_digits (s @ t) + digit_val c"
    using parse_digits_snoc [of "s @ t" c] by simp
  with snoc show ?case by (simp add: algebra_simps)
qed simp

lemma parse_digits_zeros [simp]: "parse_digits (replicate n CHR ''0'') = 0"
proof (induction n)
  case (Suc n)
  have "replicate (Suc n) CHR ''0'' = replicate n CHR ''0'' @ [CHR ''0'']"
    by (simp add: replicate_append_same)
  with Suc show ?case by (simp add: digit_val_def)
qed simp

lemma parse_digits_padEnd:
  "parse_digits (padEnd s n CHR ''0'') = parse_digits s * 10 ^ (n - length s)"
  by (simp add: padEnd_def parse_digits_append)

lemma parse_digits_padStart [simp]: "parse_digits (padStart s n CHR ''0'') = parse_digits s"
  by (simp add: padStart_def parse_digits_append)

lemma length_padStart [simp]: "length (padStart s n c) = max n (length s)"
  by (simp add: padStart_def)

lemma show_int_nonneg [simp]: "0 \<le> i \<Longrightarrow> show_int i = show_nat (nat i)"
  by (simp add: show_int_def)

lemma show_nat_length: "n < 10 ^ k \<Longrightarrow> 0 < k \<Longrightarrow> length (show_nat n) \<le> k"
proof (induction n arbitrary: k rule: show_nat.induct)
  case (1 n)
  show ?case
  proof (cases "n < 10")
    case True
    with 1 show ?thesis by (subst show_nat.simps) simp
  next
    case False
    then obtain j where j: "k = Suc j" "0 < j"
      using 1 by (cases k; cases "k - 1") auto
    with 1 False have "length (show_nat (n div 10)) \<le> j" by (intro 1) auto
    with False j show ?thesis by (subst show_nat.simps) simp
  qed
qed

lemma is_digit_val: "is_digit c \<Longrightarrow> char_of (48 + digit_val c) = c \<and> digit_val c < 10"
  by (auto simp: is_digit_def digit_val_def)

text \<open>Canonical text is a fixed point: parsing and rendering it again changes nothing.\<close>

lemma char_of_48: "char_of (48 :: nat) = CHR ''0''"
proof -
  have "of_char CHR ''0'' = (48 :: nat)" by simp
  then show ?thesis by (metis char_of_char)
qed

lemma parse_digits_pos:
  "is_decimal s \<Longrightarrow> hd s \<noteq> CHR ''0'' \<Longrightarrow> 0 < parse_digits s"
proof (induction s rule: rev_induct)
  case (snoc c s)
  show ?case
  proof (cases "s = []")
    case True
    have "digit_val c \<noteq> 0"
    proof
      assume z: "digit_val c = 0"
      from snoc.prems(1) have "is_digit c" by (simp add: is_decimal_def)
      from is_digit_val [OF this] z have "c = char_of (48 :: nat)" by simp
      with snoc.prems(2) True show False by (simp add: char_of_48)
    qed
    with True show ?thesis using parse_digits_snoc [of "[]" c] by simp
  next
    case False
    with snoc show ?thesis by (auto simp: is_decimal_def)
  qed
qed (simp add: is_decimal_def)

lemma show_parse_digits:
  "is_decimal s \<Longrightarrow> hd s \<noteq> CHR ''0'' \<Longrightarrow> show_nat (parse_digits s) = s"
proof (induction s rule: rev_induct)
  case (snoc c s)
  from snoc.prems have c: "is_digit c" by (simp add: is_decimal_def)
  note dv = is_digit_val [OF c]
  show ?case
  proof (cases "s = []")
    case True
    have "parse_digits (s @ [c]) = digit_val c" by (simp add: True parse_digits_def)
    then show ?thesis using dv True by (subst show_nat.simps) simp
  next
    case False
    with snoc have pos: "0 < parse_digits s" and ih: "show_nat (parse_digits s) = s"
      by (auto simp: is_decimal_def intro!: parse_digits_pos)
    have "\<not> 10 * parse_digits s + digit_val c < 10" using pos by simp
    moreover have "(10 * parse_digits s + digit_val c) div 10 = parse_digits s"
      "(10 * parse_digits s + digit_val c) mod 10 = digit_val c"
      using dv by simp_all
    ultimately show ?thesis using dv ih by (subst show_nat.simps) simp
  qed
qed (simp add: is_decimal_def)

lemma takeWhile_digits_all: "list_all is_digit s \<Longrightarrow>
    takeWhile is_digit s = s \<and> dropWhile is_digit s = []"
  by (induction s) auto

lemma not_digit_dot [simp]: "\<not> is_digit CHR ''.''"
  by (simp add: is_digit_def)

lemma digit_not_sign: "is_digit c \<Longrightarrow> c \<noteq> CHR ''+'' \<and> c \<noteq> CHR ''-''"
  by (auto simp: is_digit_def)

lemma digit_not_space: "is_digit c \<Longrightarrow> \<not> is_space c"
  by (auto simp: is_digit_def is_space_def)

lemma trim_str_fixed: "s \<noteq> [] \<Longrightarrow> \<not> is_space (hd s) \<Longrightarrow> \<not> is_space (last s) \<Longrightarrow> trim_str s = s"
proof -
  assume s: "s \<noteq> []" "\<not> is_space (hd s)" "\<not> is_space (last s)"
  then have "dropWhile is_space s = s" by (simp add: dropWhile_eq_self_iff)
  moreover from s have "dropWhile is_space (rev s) = rev s"
    by (simp add: dropWhile_eq_self_iff hd_rev)
  ultimately show "trim_str s = s" by (simp add: trim_str_def)
qed

lemma match_decimal_plain:
  assumes "is_decimal w" "is_decimal f"
  shows "match_decimal (w @ ''.'' @ f) = Some (None, w, f)"
proof -
  from assms(1) obtain c w' where w: "w = c # w'" by (cases w) (auto simp: is_decimal_def)
  with assms(1) have "match_sign (w @ ''.'' @ f) = (None, w @ ''.'' @ f)"
    by (auto simp: match_sign_def is_decimal_def dest: digit_not_sign)
  moreover have "takeWhile is_digit (w @ CHR ''.'' # f) = w"
    "dropWhile is_digit (w @ CHR ''.'' # f) = CHR ''.'' # f"
    using assms(1) takeWhile_digits [of w "CHR ''.'' # f"] by (auto simp: is_decimal_def)
  ultimately show ?thesis
    using assms w by (simp add: match_decimal_def)
qed

lemma convertAtomic_up:
  "0 \<le> a \<Longrightarrow> f \<le> t \<Longrightarrow> convertAtomic a f t = Inr (a * 10 ^ (t - f))"
  by (simp add: convertAtomic_def)

lemma convertAtomic_Inr_down:
  "t < f \<Longrightarrow> convertAtomic a f t = Inr v \<longleftrightarrow> 0 \<le> a \<and> a = v * 10 ^ (f - t)"
  by (auto simp: convertAtomic_def Let_def)

lemma weiToStroops_Inr:
  "weiToStroops w = Inr v \<longleftrightarrow> 0 \<le> w \<and> w = v * 10 ^ 11 \<and> v \<le> MAX_STELLAR_STROOPS"
proof -
  have down: "convertAtomic w 18 7 = Inr v' \<longleftrightarrow> 0 \<le> w \<and> w = v' * 10 ^ 11" for v'
    by (simp add: convertAtomic_Inr_down)
  show ?thesis
  proof (cases "convertAtomic w 18 7")
    case (Inl e)
    with down [of v] show ?thesis
      by (auto simp: weiToStroops_def ETHEREUM_DECIMALS_def STELLAR_DECIMALS_def)
  next
    case (Inr x)
    with down [of x] show ?thesis
      by (auto simp: weiToStroops_def ETHEREUM_DECIMALS_def STELLAR_DECIMALS_def)
  qed
qed

lemma stroopsToWei_Inr:
  "stroopsToWei s = Inr v \<longleftrightarrow> 0 \<le> s \<and> s \<le> MAX_STELLAR_STROOPS \<and> v = s * 10 ^ 11"
  by (auto simp: stroopsToWei_def convertAtomic_def ETHEREUM_DECIMALS_def STELLAR_DECIMALS_def)

section \<open>Properties\<close>

text \<open>the bridge conversion is exact or refused. A wei amount converts to stroops exactly when it is
  a non-negative whole number of stroops within the ledger's signed 64-bit range; the two
  conversions are then inverse to each other, and \<open>isBridgeableWei\<close> accepts exactly these amounts.
  Nothing is ever rounded.\<close>

theorem bridge_conversion_exact:
  "(weiToStroops w = Inr v \<longleftrightarrow> 0 \<le> w \<and> w = v * 10 ^ 11 \<and> v \<le> MAX_STELLAR_STROOPS) \<and>
   (weiToStroops w = Inr v \<longleftrightarrow> stroopsToWei v = Inr w) \<and>
   (isBridgeableWei w \<longleftrightarrow> 0 \<le> w \<and> w mod 10 ^ 11 = 0 \<and> w div 10 ^ 11 \<le> MAX_STELLAR_STROOPS)"
proof (intro conjI)
  show "weiToStroops w = Inr v \<longleftrightarrow> 0 \<le> w \<and> w = v * 10 ^ 11 \<and> v \<le> MAX_STELLAR_STROOPS"
    by (rule weiToStroops_Inr)
  show "weiToStroops w = Inr v \<longleftrightarrow> stroopsToWei v = Inr w"
    by (auto simp: weiToStroops_Inr stroopsToWei_Inr)
  have inverse: "stroopsToWei x = Inr w" if "weiToStroops w = Inr x" for x
    using that by (simp add: weiToStroops_Inr stroopsToWei_Inr)
  have "isBridgeableWei w \<longleftrightarrow> (\<exists>x. weiToStroops w = Inr x)"
    using inverse by (cases "weiToStroops w") (simp_all add: isBridgeableWei_def)
  also have "\<dots> \<longleftrightarrow> 0 \<le> w \<and> w mod 10 ^ 11 = 0 \<and> w div 10 ^ 11 \<le> MAX_STELLAR_STROOPS"
    unfolding weiToStroops_Inr by (auto elim: dvdE simp: mod_eq_0_iff_dvd)
  finally show "isBridgeableWei w \<longleftrightarrow>
    0 \<le> w \<and> w mod 10 ^ 11 = 0 \<and> w div 10 ^ 11 \<le> MAX_STELLAR_STROOPS" .
qed

text \<open>printing and parsing an atomic amount. A non-negative amount rendered with \<open>decimals\<close> places
  parses back to itself at the same precision, and at any finer precision to the rescaled amount.\<close>

theorem parse_format_atomic:
  assumes "0 \<le> a" "0 < d" "d \<le> d'"
  shows "parseDecimalToAtomic (formatAtomicToDecimal a d) d' = Inr (a * 10 ^ (d' - d))"
proof -
  let ?w = "show_nat (nat (a div 10 ^ d))" and ?f = "padStart (show_nat (nat (a mod 10 ^ d))) d CHR ''0''"
  have eq: "formatAtomicToDecimal a d = ?w @ ''.'' @ ?f"
    using assms by (simp add: formatAtomicToDecimal_def pos_imp_zdiv_nonneg_iff Let_def)
  have "a mod 10 ^ d < 10 ^ d" by simp
  then have "nat (a mod 10 ^ d) < 10 ^ d" by (simp add: nat_less_iff)
  then have len: "length ?f = d" using show_nat_length assms(2) by simp
  have w: "is_decimal ?w" by simp
  have f: "is_decimal ?f"
    using show_nat_digits [of "nat (a mod 10 ^ d)"]
    by (auto simp: is_decimal_def padStart_def list_all_iff is_digit_def)
  have trim: "trim_str (?w @ ''.'' @ ?f) = ?w @ ''.'' @ ?f"
  proof (rule trim_str_fixed)
    show "\<not> is_space (hd (?w @ ''.'' @ ?f))"
      using w by (cases ?w) (auto simp: is_decimal_def digit_not_space)
    have "?f \<noteq> []" "is_digit (last ?f)" using f by (auto simp: is_decimal_def list_all_iff)
    then show "\<not> is_space (last (?w @ ''.'' @ ?f))" by (simp add: digit_not_space)
  qed simp
  have "int (parse_digits (?w @ ?f)) = (a div 10 ^ d) * 10 ^ d + a mod 10 ^ d"
    using assms(1) len by (simp add: parse_digits_append pos_imp_zdiv_nonneg_iff)
  also have "\<dots> = a" by (rule div_mult_mod_eq)
  finally have "int (parse_digits (?w @ ?f)) = a" .
  with eq trim match_decimal_plain [OF w f] len assms(3) show ?thesis
    by (simp add: parseDecimalToAtomic_def)
qed

theorem parse_format_atomic_witness:
  "parseDecimalToAtomic (formatAtomicToDecimal 1500000000 7) 18 = Inr 150000000000000000000"
  using parse_format_atomic [of 1500000000 7 18] by simp

text \<open>base-unit integers are canonical. \<open>parseBaseUnitInteger\<close> accepts exactly the canonical decimal
  text of a natural number and returns it unchanged, so comparing two accepted texts compares the
  two integers.\<close>

theorem parseBaseUnitInteger_canonical:
  "parseBaseUnitInteger v = Inr w \<longleftrightarrow> (\<exists>n. v = show_nat n) \<and> w = v"
proof -
  have zero: "show_nat 0 = ''0''" by (subst show_nat.simps) (simp add: char_of_48)
  have "is_base_unit_integer v \<longleftrightarrow> (\<exists>n. v = show_nat n)"
  proof
    assume v: "is_base_unit_integer v"
    then show "\<exists>n. v = show_nat n"
      using zero show_parse_digits [of v] unfolding is_base_unit_integer_def by metis
  next
    assume "\<exists>n. v = show_nat n"
    then obtain n where "v = show_nat n" by blast
    then show "is_base_unit_integer v"
      using zero hd_show_nat [of n] unfolding is_base_unit_integer_def by (cases "n = 0") simp_all
  qed
  then show ?thesis by (auto simp: parseBaseUnitInteger_def)
qed

end
