(* ===== verification/Quotes.thy ===== *)
theory Quotes
  imports Coord_Types Sdk_Amounts "HOL-Library.AList"
begin

text \<open>
  The quote service (\<open>coordinator/src/services/quote-service.ts\<close>): issued quotes and the price
  cache. A JavaScript \<open>Map\<close> is an association list in insertion order: \<open>AList.update\<close> is \<open>set\<close>
  (in place or at the end), \<open>AList.delete\<close> is \<open>delete\<close>, \<open>map_of\<close> is \<open>get\<close>. The injected clock
  (milliseconds) is the field \<open>q_now\<close>; \<open>q_wall\<close> is the \<open>Date.now()\<close> that only the text of
  \<open>QuoteExpiredError\<close> reads. The outcome of the HTTP price request and the random id of a new
  quote are arguments.
\<close>

record quote_terms =
  qt_srcChain :: chain
  qt_srcAsset :: string
  qt_srcAmount :: string
  qt_dstChain :: chain
  qt_dstAsset :: string
  qt_dstAmount :: string

record bound_terms =
  fromAsset :: string
  toAsset :: string
  bt_amount :: string
  fromNetwork :: chain
  toNetwork :: chain

datatype price_source = Coingecko | Oneinch | Cache | Unknown_source

text \<open>
  The six optional fields \<open>srcChain .. dstAmount\<close> are spread from one object or absent together, so
  they are one optional record \<open>issued_terms\<close>.
\<close>

record price_quote =
  quoteId :: string
  pair :: string
  issued_terms :: "quote_terms option"
  srcUsd :: "string option"
  dstUsd :: "string option"
  q_source :: price_source
  issuedAt :: int
  expiresAt :: int
  amountBaseUnits :: "string option"
  accepted_terms :: "bound_terms option"

record cached_price =
  cp_srcUsd :: "string option"
  cp_dstUsd :: "string option"
  cp_expiresAt :: int

record quote_state =
  quotes :: "(string \<times> price_quote) list"
  priceCache :: "(string \<times> cached_price) list"
  q_now :: int
  q_wall :: int

datatype quote_error =
    QuoteExpiredError string int
  | QuoteNotFoundError string
  | QuoteTermsMismatchError string
  | QuoteAmountMismatchError string string string
  | AmountParseError string

fun quote_error_message :: "int \<Rightarrow> quote_error \<Rightarrow> string" where
  "quote_error_message wall (QuoteExpiredError qid expiredMs) =
     ''Quote '' @ qid @ '' expired '' @ show_int (wall - expiredMs) @ '' ms ago''"
| "quote_error_message wall (QuoteNotFoundError qid) =
     ''Quote '' @ qid @ '' not found or already evicted''"
| "quote_error_message wall (QuoteTermsMismatchError qid) =
     ''Order terms do not match quote '' @ qid"
| "quote_error_message wall (QuoteAmountMismatchError qid quoted order) =
     ''Quote '' @ qid @ '' was issued for '' @ quoted @ '' base units, order announced '' @ order"
| "quote_error_message wall (AmountParseError m) = m"

definition cacheTtlMs :: int where
  "cacheTtlMs = 30000"

definition issueQuote :: "string \<Rightarrow> quote_terms option \<Rightarrow> string option \<Rightarrow> string option
    \<Rightarrow> price_source \<Rightarrow> int \<Rightarrow> int \<Rightarrow> string option \<Rightarrow> quote_state \<Rightarrow> price_quote \<times> quote_state" where
  "issueQuote newId terms src dst source expires issued amount s =
    (let quote = \<lparr>quoteId = newId, pair = ''ETH-XLM'', issued_terms = terms, srcUsd = src,
           dstUsd = dst, q_source = source, issuedAt = issued, expiresAt = expires,
           amountBaseUnits = amount, accepted_terms = None\<rparr>
     in (quote, s\<lparr>quotes := AList.update newId quote (quotes s)\<rparr>))"

text \<open>The part of \<open>quoteEthXlm\<close> after a cache miss; \<open>fetched\<close> is \<open>None\<close> when the request failed.\<close>

definition fetch_quote :: "string \<Rightarrow> (string option \<times> string option) option \<Rightarrow> quote_terms option
    \<Rightarrow> string option \<Rightarrow> quote_state \<Rightarrow> price_quote \<times> quote_state" where
  "fetch_quote newId fetched terms amount s =
    (let (eth, xlm, source) = (case fetched of None \<Rightarrow> (None, None, Unknown_source)
          | Some (e, x) \<Rightarrow> (e, x, Coingecko));
        issued = q_now s;
        expires = issued + cacheTtlMs;
        s1 = s\<lparr>priceCache := AList.update ''ETH-XLM''
               \<lparr>cp_srcUsd = eth, cp_dstUsd = xlm, cp_expiresAt = expires\<rparr> (priceCache s)\<rparr>
     in issueQuote newId terms eth xlm source expires issued amount s1)"

text \<open>\<open>terms\<close> is \<open>Some\<close> when all six terms were given (\<open>hasTerms\<close>).\<close>

definition quoteEthXlm :: "string \<Rightarrow> (string option \<times> string option) option \<Rightarrow> string option
    \<Rightarrow> quote_terms option \<Rightarrow> quote_state \<Rightarrow> (quote_error + price_quote) \<times> quote_state" where
  "quoteEthXlm newId fetched optAmount terms s =
    (case (case optAmount of None \<Rightarrow> Inr None
           | Some a \<Rightarrow> map_sum AmountParseError Some (parseBaseUnitInteger a)) of
       Inl e \<Rightarrow> (Inl e, s)
     | Inr amount \<Rightarrow> map_prod Inr id
         (case map_of (priceCache s) ''ETH-XLM'' of
            Some c \<Rightarrow>
              if q_now s < cp_expiresAt c
              then issueQuote newId terms (cp_srcUsd c) (cp_dstUsd c) Cache (cp_expiresAt c)
                     (q_now s) amount s
              else fetch_quote newId fetched terms amount s
          | None \<Rightarrow> fetch_quote newId fetched terms amount s))"

definition getById :: "string \<Rightarrow> quote_state \<Rightarrow> price_quote option" where
  "getById qid s = map_of (quotes s) qid"

definition assertFresh :: "string \<Rightarrow> string option \<Rightarrow> quote_state \<Rightarrow> quote_error + price_quote" where
  "assertFresh qid orderAmount s =
    (case map_of (quotes s) qid of
       None \<Rightarrow> Inl (QuoteNotFoundError qid)
     | Some quote \<Rightarrow>
         if q_now s > expiresAt quote then Inl (QuoteExpiredError qid (expiresAt quote))
         else (case (amountBaseUnits quote, orderAmount) of
             (Some quoted, Some a) \<Rightarrow>
               (case parseBaseUnitInteger a of
                  Inl m \<Rightarrow> Inl (AmountParseError m)
                | Inr oa \<Rightarrow> if oa \<noteq> quoted then Inl (QuoteAmountMismatchError qid quoted oa)
                            else Inr quote)
           | _ \<Rightarrow> Inr quote))"

definition terms_drift :: "quote_terms \<Rightarrow> bound_terms \<Rightarrow> bool" where
  "terms_drift q t \<longleftrightarrow> qt_srcChain q \<noteq> fromNetwork t \<or> qt_srcAsset q \<noteq> fromAsset t \<or>
     qt_srcAmount q \<noteq> bt_amount t \<or> qt_dstChain q \<noteq> toNetwork t \<or> qt_dstAsset q \<noteq> toAsset t"

definition bindOrderTerms :: "string \<Rightarrow> bound_terms \<Rightarrow> quote_state
    \<Rightarrow> (quote_error + price_quote) \<times> quote_state" where
  "bindOrderTerms qid t s =
    (case assertFresh qid None s of
       Inl e \<Rightarrow> (Inl e, s)
     | Inr quote \<Rightarrow>
         if (case issued_terms quote of None \<Rightarrow> False | Some q \<Rightarrow> terms_drift q t)
         then (Inl (QuoteTermsMismatchError qid), s)
         else let quote' = quote\<lparr>accepted_terms := Some t\<rparr>
           in (Inr quote', s\<lparr>quotes := AList.update qid quote' (quotes s)\<rparr>))"

definition assertMatches :: "string \<Rightarrow> quote_terms \<Rightarrow> quote_state \<Rightarrow> quote_error + price_quote" where
  "assertMatches qid t s =
    (case assertFresh qid None s of
       Inl e \<Rightarrow> Inl e
     | Inr quote \<Rightarrow> if issued_terms quote \<noteq> Some t then Inl (QuoteTermsMismatchError qid) else Inr quote)"

definition evictExpired :: "quote_state \<Rightarrow> nat \<times> quote_state" where
  "evictExpired s =
    (let gone = filter (\<lambda>(i, q). q_now s > expiresAt q) (quotes s)
     in (length gone, s\<lparr>quotes := filter (\<lambda>(i, q). \<not> q_now s > expiresAt q) (quotes s)\<rparr>))"

section \<open>Lemmas\<close>

definition quotes_ok :: "quote_state \<Rightarrow> bool" where
  "quotes_ok s \<longleftrightarrow> distinct (map fst (quotes s)) \<and>
    (\<forall>(i, q) \<in> set (quotes s). quoteId q = i \<and> expiresAt q \<le> issuedAt q + cacheTtlMs \<and>
       issuedAt q \<le> q_now s) \<and>
    (\<forall>(k, c) \<in> set (priceCache s). cp_expiresAt c \<le> q_now s + cacheTtlMs)"

lemma assertFresh_Inr:
  "assertFresh qid a s = Inr q \<Longrightarrow> map_of (quotes s) qid = Some q \<and> q_now s \<le> expiresAt q"
  by (auto simp: assertFresh_def split: option.splits if_splits sum.splits)

lemma assertFresh_amount:
  "assertFresh qid (Some a) s = Inr q \<Longrightarrow> amountBaseUnits q = Some quoted \<Longrightarrow>
   parseBaseUnitInteger a = Inr quoted"
  by (auto simp: assertFresh_def split: option.splits if_splits sum.splits)

lemma bindOrderTerms_get:
  "bindOrderTerms qid t s = (Inr q, s') \<Longrightarrow>
   map_of (quotes s') = (map_of (quotes s))(qid \<mapsto> q) \<and> accepted_terms q = Some t \<and>
   q_now s' = q_now s"
  by (auto simp: bindOrderTerms_def Let_def update_conv' split: sum.splits if_splits option.splits)

lemma set_update_subset: "set (AList.update k v al) \<subseteq> insert (k, v) (set al)"
  by (induction al) auto

lemma quotes_ok_update:
  assumes "quotes_ok s" "quoteId q = qid" "expiresAt q \<le> issuedAt q + cacheTtlMs"
    "issuedAt q \<le> q_now s"
  shows "quotes_ok (s\<lparr>quotes := AList.update qid q (quotes s)\<rparr>)"
  using assms set_update_subset [of qid q "quotes s"]
  by (auto simp: quotes_ok_def distinct_update)

lemma issueQuote_ok:
  assumes "quotes_ok s" "expires \<le> issued + cacheTtlMs" "issued \<le> q_now s"
  shows "quotes_ok (snd (issueQuote newId terms a b src expires issued amount s))"
  using assms by (auto simp: issueQuote_def Let_def intro!: quotes_ok_update)

section \<open>Properties\<close>

lemma fetch_quote_ok:
  assumes "quotes_ok s"
  shows "quotes_ok (snd (fetch_quote newId fetched terms amount s))"
proof -
  have cache: "quotes_ok (s\<lparr>priceCache := AList.update ''ETH-XLM'' c (priceCache s)\<rparr>)" if "cp_expiresAt c \<le> q_now s + cacheTtlMs" for c
    using assms that set_update_subset [of "''ETH-XLM''" c "priceCache s"]
    by (auto simp: quotes_ok_def)
  show ?thesis
    unfolding fetch_quote_def Let_def
    by (auto split: prod.split intro!: issueQuote_ok cache)
qed

lemma cached_price_ok:
  "quotes_ok s \<Longrightarrow> map_of (priceCache s) k = Some c \<Longrightarrow> cp_expiresAt c \<le> q_now s + cacheTtlMs"
  by (auto simp: quotes_ok_def dest: map_of_SomeD)

text \<open>no quote outlives its price by more than the cache lifetime. The quote store stays well-formed
  under every operation and while time advances: ids are unique and every quote expires within 30
  seconds of being issued, also when its price came from the cache; so a quote that \<open>assertFresh\<close>
  accepts was issued at most 30 seconds ago.\<close>

theorem quotes_stay_fresh:
  assumes ok: "quotes_ok s"
  shows "quotes_ok (snd (quoteEthXlm newId fetched amount terms s)) \<and>
    quotes_ok (snd (bindOrderTerms qid t s)) \<and> quotes_ok (snd (evictExpired s)) \<and>
    (q_now s \<le> n \<longrightarrow> quotes_ok (s\<lparr>q_now := n, q_wall := w\<rparr>)) \<and>
    (assertFresh qid a s = Inr q \<longrightarrow> q_now s \<le> issuedAt q + 30000)"
proof (intro conjI impI)
  have hit: "quotes_ok (snd (issueQuote newId terms x y Cache (cp_expiresAt c) (q_now s) am s))"
    if "map_of (priceCache s) ''ETH-XLM'' = Some c" for x y am c
    using issueQuote_ok [OF ok cached_price_ok [OF ok that]] by simp
  show "quotes_ok (snd (quoteEthXlm newId fetched amount terms s))"
    using ok hit fetch_quote_ok [OF ok]
    by (auto simp: quoteEthXlm_def split: sum.split option.split)
  show "quotes_ok (snd (bindOrderTerms qid t s))"
  proof (cases "assertFresh qid None s")
    case (Inl e)
    with ok show ?thesis by (simp add: bindOrderTerms_def)
  next
    case (Inr q0)
    then have "(qid, q0) \<in> set (quotes s)" by (auto dest!: assertFresh_Inr map_of_SomeD)
    then have "quoteId q0 = qid" "expiresAt q0 \<le> issuedAt q0 + cacheTtlMs" "issuedAt q0 \<le> q_now s"
      using ok by (auto simp: quotes_ok_def)
    with Inr ok show ?thesis by (simp add: bindOrderTerms_def Let_def quotes_ok_update)
  qed
  show "quotes_ok (snd (evictExpired s))"
    using ok by (auto simp: evictExpired_def quotes_ok_def distinct_map_filter)
  show "quotes_ok (s\<lparr>q_now := n, q_wall := w\<rparr>)" if "q_now s \<le> n"
    using ok that by (fastforce simp: quotes_ok_def)
  show "q_now s \<le> issuedAt q + 30000" if fresh: "assertFresh qid a s = Inr q"
  proof -
    from fresh have "(qid, q) \<in> set (quotes s)" "q_now s \<le> expiresAt q"
      by (auto dest!: assertFresh_Inr map_of_SomeD)
    with ok show ?thesis by (auto simp: quotes_ok_def cacheTtlMs_def)
  qed
qed

theorem quotes_stay_fresh_witness:
  "quotes_ok (snd (quoteEthXlm ''q1'' None (Some ''1000'') None
     \<lparr>quotes = [], priceCache = [], q_now = 1000, q_wall = 1000\<rparr>))"
proof -
  have "quotes_ok \<lparr>quotes = [], priceCache = [], q_now = 1000, q_wall = 1000\<rparr>"
    by (simp add: quotes_ok_def)
  from quotes_stay_fresh [OF this] show ?thesis by blast
qed

end
