(* ===== verification/Order_Service.thy ===== *)
theory Order_Service
  imports Orders_Repo Quotes
begin

text \<open>
  The order service (\<open>coordinator/src/services/order-service.ts\<close>), the coordinator's single order
  writer. \<open>advance\<close> is translated whole: load the order, decide redelivery or conflict when it is
  already in the target status, ask the state machine, persist a refusal before throwing it, and
  only then run the writer's \<open>apply\<close>. Every public method is a request to \<open>advance\<close> with the
  code's own \<open>isSameStep\<close> test and \<open>apply\<close> closure. Log lines and Prometheus counters are left out;
  the minimum timelock gap of the configuration and the optional resolver registry are arguments.

  The locale \<open>edge_writer\<close> is the contract between \<open>advance\<close> and a repository writer: it extends
  \<open>row_writer\<close> by the edge the writer implements and the guard its closure runs first. The
  correctness of \<open>advance\<close> is proved once inside it and interpreted for every method.
\<close>

section \<open>Announcing an order\<close>

definition ZERO_HASHLOCK :: string where
  "ZERO_HASHLOCK = ''0x'' @ replicate 64 CHR ''0''"

definition ORDER_SERVICE_WRITER :: string where
  "ORDER_SERVICE_WRITER = ''order-service''"

definition DEFAULT_HISTORY_LIMIT :: nat where
  "DEFAULT_HISTORY_LIMIT = 50"

text \<open>\<open>/^0x[0-9a-fA-F]{40}$/\<close> and \<open>/^G[A-Z2-7]{55}$/\<close>.\<close>

definition is_eth_address :: "string \<Rightarrow> bool" where
  "is_eth_address s \<longleftrightarrow> is_0x_hex 40 s"

definition is_base32 :: "char \<Rightarrow> bool" where
  "is_base32 c \<longleftrightarrow> 65 \<le> (of_char c :: nat) \<and> (of_char c :: nat) \<le> 90 \<or>
     50 \<le> (of_char c :: nat) \<and> (of_char c :: nat) \<le> 55"

definition is_stellar_address :: "string \<Rightarrow> bool" where
  "is_stellar_address s \<longleftrightarrow> length s = 56 \<and> hd s = CHR ''G'' \<and> list_all is_base32 (tl s)"

record announce_input = announce_order_input +
  in_quoteId :: "string option"

text \<open>The checks of \<open>announceSchema\<close> that the types do not already make.\<close>

definition announceSchema :: "announce_input \<Rightarrow> bool" where
  "announceSchema i \<longleftrightarrow>
     is_0x_hex 64 (in_hashlock i) \<and> toLowerCase (in_hashlock i) \<noteq> toLowerCase ZERO_HASHLOCK \<and>
     length (in_srcAsset i) \<ge> 1 \<and> is_decimal (in_srcAmount i) \<and>
     is_decimal (in_srcSafetyDeposit i) \<and> length (in_dstAsset i) \<ge> 1 \<and> is_decimal (in_dstAmount i)"

definition validateChainAddress :: "chain \<Rightarrow> string \<Rightarrow> coord_error + unit" where
  "validateChainAddress c addr =
    (if c = Ethereum \<and> \<not> is_eth_address addr
     then Inl (OrderValidationError (addr @ '' is not a valid Ethereum address'') None)
     else if c = Stellar \<and> \<not> is_stellar_address addr
     then Inl (OrderValidationError (addr @ '' is not a valid Stellar account'') None)
     else Inr ())"

fun expected_chains :: "direction \<Rightarrow> chain \<times> chain" where
  "expected_chains Eth_to_xlm = (Ethereum, Stellar)"
| "expected_chains Xlm_to_eth = (Stellar, Ethereum)"

definition validateDirectionAgainstChains :: "'z announce_order_input_scheme \<Rightarrow> coord_error + unit"
  where
  "validateDirectionAgainstChains i =
    (let (src, dst) = expected_chains (in_direction i)
     in if src \<noteq> in_srcChain i \<or> dst \<noteq> in_dstChain i
        then Inl (OrderValidationError (''Direction '' @ direction_str (in_direction i)
               @ '' requires src='' @ chain_str src @ '' and dst='' @ chain_str dst) None)
        else Inr ())"

text \<open>The catch block of the quote gate: which error of the quote service becomes which code.\<close>

fun quote_failure :: "int \<Rightarrow> quote_error \<Rightarrow> coord_error" where
  "quote_failure wall (AmountParseError m) = AmountError m"
| "quote_failure wall (QuoteExpiredError qid ms) =
     OrderValidationError (quote_error_message wall (QuoteExpiredError qid ms)) (Some QUOTE_EXPIRED)"
| "quote_failure wall (QuoteNotFoundError qid) =
     OrderValidationError (quote_error_message wall (QuoteNotFoundError qid)) (Some QUOTE_NOT_FOUND)"
| "quote_failure wall e =
     OrderValidationError (quote_error_message wall e) (Some QUOTE_MISMATCH)"

definition order_terms :: "'z announce_order_input_scheme \<Rightarrow> bound_terms" where
  "order_terms i = \<lparr>fromAsset = in_srcAsset i, toAsset = in_dstAsset i, bt_amount = in_srcAmount i,
     fromNetwork = in_srcChain i, toNetwork = in_dstChain i\<rparr>"

definition quote_gate :: "announce_input \<Rightarrow> quote_state option
    \<Rightarrow> (coord_error + unit) \<times> quote_state option" where
  "quote_gate i qs =
    (case in_quoteId i of
       None \<Rightarrow> (Inr (), qs)
     | Some qid \<Rightarrow>
         if qid = [] then (Inr (), qs)
         else case qs of
             None \<Rightarrow> (Inr (), None)
           | Some q \<Rightarrow> (case bindOrderTerms qid (order_terms i) q of
               (Inl e, q') \<Rightarrow> (Inl (quote_failure (q_wall q') e), Some q')
             | (Inr _, q') \<Rightarrow> (case assertFresh qid (Some (in_srcAmount i)) q' of
                 Inl e \<Rightarrow> (Inl (quote_failure (q_wall q') e), Some q')
               | Inr _ \<Rightarrow> (Inr (), Some q'))))"

text \<open>After the gate: the hashlock must be new, then the repository stores the order.\<close>

definition announce_found :: "string \<Rightarrow> announce_input \<Rightarrow> order_row option \<Rightarrow> order_row db_comp" where
  "announce_found pid i existing =
    (let h = toLowerCase (in_hashlock i)
     in case existing of
          Some e \<Rightarrow> throw (OrderValidationError (''An order with hashlock '' @ h
              @ '' already exists (publicId='' @ publicId e @ '')'') None)
        | None \<Rightarrow> announce pid (announce_order_input.truncate (i\<lparr>in_hashlock := h\<rparr>)))"

definition announce_unique :: "string \<Rightarrow> announce_input \<Rightarrow> order_row db_comp" where
  "announce_unique pid i =
    (let h = toLowerCase (in_hashlock i)
     in bindE (findByHashlock h) (announce_found pid i))"

type_synonym 'a svc_comp = "(quote_state option \<times> coord_db, coord_error, 'a) comp"

definition on_db :: "'a db_comp \<Rightarrow> 'a svc_comp" where
  "on_db m = (\<lambda>(q, d). case m d of (r, d') \<Rightarrow> (r, (q, d')))"

definition on_quotes :: "(quote_state option \<Rightarrow> (coord_error + 'a) \<times> quote_state option)
    \<Rightarrow> 'a svc_comp" where
  "on_quotes m = (\<lambda>(q, d). case m q of (r, q') \<Rightarrow> (r, (q', d)))"

definition announce_svc :: "string \<Rightarrow> announce_input \<Rightarrow> order_row svc_comp" where
  "announce_svc pid i =
    thenE (liftE (validateDirectionAgainstChains i))
     (thenE (liftE (validateChainAddress (in_srcChain i) (in_srcAddress i)))
      (thenE (liftE (validateChainAddress (in_dstChain i) (in_dstAddress i)))
       (thenE (on_quotes (quote_gate i)) (on_db (announce_unique pid i)))))"

section \<open>Advancing an order\<close>

record advance_request =
  rq_publicId :: string
  rq_action :: order_action
  rq_txHash :: "string option"
  rq_writer :: "string option"
  rq_isSameStep :: "(order_row \<Rightarrow> bool) option"
  rq_apply :: "order_row \<Rightarrow> order_status \<Rightarrow> unit db_comp"

definition persistRejection :: "transition_rejection_info \<Rightarrow> unit db_comp" where
  "persistRejection info = recordRejectedTransition info"

definition rejectTransition :: "transition_rejection_info \<Rightarrow> 'a db_comp" where
  "rejectTransition info =
    thenE (persistRejection info) (throw (OrderTransitionRejectedError info))"

definition rejection_info :: "advance_request \<Rightarrow> order_row \<Rightarrow> order_failure_code \<Rightarrow> string
    \<Rightarrow> transition_rejection_info" where
  "rejection_info rq order code reason =
    \<lparr>rj_from = status order, rj_to = targetOf (rq_action rq), rj_action = Some (rq_action rq),
     rj_code = code, rj_reason = reason,
     rj_writer = (case rq_writer rq of None \<Rightarrow> ORDER_SERVICE_WRITER | Some w \<Rightarrow> w),
     rj_publicId = rq_publicId rq, rj_txHash = rq_txHash rq\<rparr>"

definition unknown_order :: "string \<Rightarrow> coord_error" where
  "unknown_order pid = OrderValidationError (''unknown order '' @ pid) None"

text \<open>
  \<open>advance\<close> reads the order, decides, and writes. \<open>advance_found\<close> is what follows the read, on the order that was
  read; the composition is one step, as it is on the SQLite backend, whose calls are synchronous. \<open>Order_Races\<close> takes
  the two halves apart, as the PostgreSQL backend does.
\<close>

definition advance_found :: "advance_request \<Rightarrow> order_row option \<Rightarrow> unit db_comp" where
  "advance_found rq found = (case found of
     None \<Rightarrow> throw (unknown_order (rq_publicId rq))
   | Some order \<Rightarrow>
       let to = targetOf (rq_action rq) in
       if status order = to then
         let redelivery = (case rq_isSameStep rq of Some f \<Rightarrow> f order | None \<Rightarrow> True);
             code = (if redelivery then REPEATED_STEP else CONFLICTING_STEP);
             info = rejection_info rq order code (describeTransitionFailure code (status order) to)
         in if redelivery then persistRejection info else rejectTransition info
       else
         let assessment = evaluateTransition (status order) to (Some (rq_action rq)) in
         if \<not> allowed assessment then
           rejectTransition (rejection_info rq order
             (case ta_code assessment of Some c \<Rightarrow> c | None \<Rightarrow> NOT_ALLOWED)
             (case ta_reason assessment of Some m \<Rightarrow> m
              | None \<Rightarrow> describeTransitionFailure NOT_ALLOWED (status order) to))
         else rq_apply rq order to)"

definition advance :: "advance_request \<Rightarrow> unit db_comp" where
  "advance rq = bindE (findByPublicId (rq_publicId rq)) (advance_found rq)"

definition assertTimelocksAtCreation :: "int \<Rightarrow> int \<Rightarrow> int \<Rightarrow> coord_error + unit" where
  "assertTimelocksAtCreation srcT dstT gap =
    (let v = validateTimelocksAtCreation srcT dstT gap
     in case (isValid v, tv_error v) of
          (False, Some e) \<Rightarrow> Inl (OrderValidationError
            (if e = TIMELOCKS_REVERSED
             then ''Destination timelock must be strictly before source timelock''
             else ''Timelock gap between source and destination is below the minimum safety gap'')
            (Some (Timelock_code e)))
        | _ \<Rightarrow> Inr ())"

definition src_lock_guard :: "int \<Rightarrow> int \<Rightarrow> order_row \<Rightarrow> coord_error + unit" where
  "src_lock_guard gap timelock order =
    (case dstTimelock order of None \<Rightarrow> Inr () | Some d \<Rightarrow> assertTimelocksAtCreation timelock d gap)"

definition dst_lock_guard :: "int \<Rightarrow> int \<Rightarrow> order_row \<Rightarrow> coord_error + unit" where
  "dst_lock_guard gap timelock order =
    (case srcTimelock order of None \<Rightarrow> Inr () | Some s \<Rightarrow> assertTimelocksAtCreation s timelock gap)"

record src_lock_input =
  sl_publicId :: string
  sl_orderId :: string
  sl_txHash :: string
  sl_blockNumber :: int
  sl_timelock :: int
  sl_writer :: "string option"

record dst_lock_input = src_lock_input +
  dl_resolver :: "string option"

definition recordSrcLock_svc :: "int \<Rightarrow> src_lock_input \<Rightarrow> unit db_comp" where
  "recordSrcLock_svc gap i = advance
    \<lparr>rq_publicId = sl_publicId i, rq_action = Escrow, rq_txHash = Some (sl_txHash i),
     rq_writer = sl_writer i,
     rq_isSameStep = Some (\<lambda>order. srcOrderId order = Some (sl_orderId i) \<and>
       srcLockTx order = Some (sl_txHash i) \<and> srcLockBlock order = Some (sl_blockNumber i) \<and>
       srcTimelock order = Some (sl_timelock i)),
     rq_apply = (\<lambda>order to. thenE (liftE (src_lock_guard gap (sl_timelock i) order))
       (recordSrcLock (sl_orderId i) (sl_txHash i) (sl_blockNumber i) (sl_timelock i)
         (sl_publicId i)))\<rparr>"

definition recordDstLock_svc :: "int \<Rightarrow> dst_lock_input \<Rightarrow> unit db_comp" where
  "recordDstLock_svc gap i = advance
    \<lparr>rq_publicId = sl_publicId i, rq_action = Secret_relay, rq_txHash = Some (sl_txHash i),
     rq_writer = sl_writer i,
     rq_isSameStep = Some (\<lambda>order. dstOrderId order = Some (sl_orderId i) \<and>
       dstLockTx order = Some (sl_txHash i) \<and> dstLockBlock order = Some (sl_blockNumber i) \<and>
       dstTimelock order = Some (sl_timelock i) \<and> resolverAddress order = dl_resolver i),
     rq_apply = (\<lambda>order to. thenE (liftE (dst_lock_guard gap (sl_timelock i) order))
       (recordDstLock (sl_orderId i) (sl_txHash i) (sl_blockNumber i) (sl_timelock i)
         (dl_resolver i) (sl_publicId i)))\<rparr>"

definition recordSecret :: "string \<Rightarrow> string \<Rightarrow> string \<Rightarrow> string option \<Rightarrow> unit db_comp" where
  "recordSecret pid pre txHash writer =
    (let canonical = toLowerCase pre
     in advance
       \<lparr>rq_publicId = pid, rq_action = Secret, rq_txHash = Some txHash, rq_writer = writer,
        rq_isSameStep = Some (\<lambda>order. preimage order = Some canonical),
        rq_apply = (\<lambda>order to. recordSecretRevealed canonical txHash pid)\<rparr>)"

definition recordClaim :: "string \<Rightarrow> string \<Rightarrow> string option \<Rightarrow> unit db_comp" where
  "recordClaim pid txHash writer = advance
    \<lparr>rq_publicId = pid, rq_action = Claim, rq_txHash = Some txHash, rq_writer = writer,
     rq_isSameStep = Some (\<lambda>_. True),
     rq_apply = (\<lambda>order to. setStatus Completed (Some txHash) pid)\<rparr>"

definition recordRefund :: "string \<Rightarrow> string \<Rightarrow> string option \<Rightarrow> unit db_comp" where
  "recordRefund pid txHash writer = advance
    \<lparr>rq_publicId = pid, rq_action = Refund, rq_txHash = Some txHash, rq_writer = writer,
     rq_isSameStep = Some (\<lambda>_. True),
     rq_apply = (\<lambda>order to. setStatus Refunded (Some txHash) pid)\<rparr>"

definition markStatus :: "string \<Rightarrow> order_status \<Rightarrow> string option \<Rightarrow> unit db_comp" where
  "markStatus pid st writer =
    (case actionForStatus st of
       None \<Rightarrow> throw (OrderValidationError
                 (status_str st @ '' is not the target of a lifecycle edge'') None)
     | Some action \<Rightarrow> advance
         \<lparr>rq_publicId = pid, rq_action = action, rq_txHash = None, rq_writer = writer,
          rq_isSameStep = None, rq_apply = (\<lambda>order to. setStatus st None pid)\<rparr>)"

definition buildClaim :: "(string \<Rightarrow> bool) option \<Rightarrow> string \<Rightarrow> string \<Rightarrow> order_row db_comp" where
  "buildClaim registry orderId resolver =
    bindE (findByPublicId orderId) (\<lambda>found. case found of
      None \<Rightarrow> throw (unknown_order orderId)
    | Some order \<Rightarrow>
        if status order \<noteq> Dst_locked
        then throw (OrderValidationError (''order '' @ orderId
               @ '' is not in dst_locked state (current: '' @ status_str (status order) @ '')'') None)
        else (case registry of
            None \<Rightarrow> ret order
          | Some isActive \<Rightarrow>
              if \<not> isActive resolver
              then throw (OrderValidationError (''resolver '' @ resolver
                   @ '' is not registered or has been removed from the registry'') None)
              else ret order))"

section \<open>The lock target\<close>

text \<open>\<open>(input.v2Escrow ?? "").trim()\<close>; a legacy target is refused once the v2 escrow is configured.\<close>

definition resolveLockTarget :: "string option \<Rightarrow> string \<Rightarrow> string \<Rightarrow> string + string" where
  "resolveLockTarget v2Escrow requested legacy =
    (let v2 = trim_str (case v2Escrow of None \<Rightarrow> [] | Some e \<Rightarrow> e)
     in if v2 = [] then Inr requested
        else if toLowerCase requested = toLowerCase legacy then Inl ''legacy lock refused''
        else Inr v2)"

section \<open>Correctness of advance\<close>

lemma persistRejection_apply:
  "orders_view s (rj_publicId i) = Some r \<Longrightarrow>
   persistRejection i s = (Inr (), s\<lparr>events_seq := events_seq s + 1, events_tbl := events_tbl s @
     [new_event s (rowId r) TRANSITION_REJECTED_EVENT (rejected_payload i)]\<rparr>)"
  using orders_view_rowId [of s "rj_publicId i" r]
  by (simp add: persistRejection_def recordRejectedTransition_def with_order_apply
      insertEvent_def new_event_def rejected_payload_def)

lemma rj_publicId_rejection [simp]: "rj_publicId (rejection_info rq r c m) = rq_publicId rq"
  by (simp add: rejection_info_def)

text \<open>The store after recording a refusal: the order rows are untouched, one event is appended.\<close>

definition refused_db :: "transition_rejection_info \<Rightarrow> order_row \<Rightarrow> coord_db \<Rightarrow> coord_db" where
  "refused_db i r s = s\<lparr>events_seq := events_seq s + 1, events_tbl := events_tbl s @
     [new_event s (rowId r) TRANSITION_REJECTED_EVENT (rejected_payload i)]\<rparr>"

lemma refused_db_simps [simp]:
  "orders_view (refused_db i r s) = orders_view s" "orders_tbl (refused_db i r s) = orders_tbl s"
  "cursors_tbl (refused_db i r s) = cursors_tbl s"
  "processed_tbl (refused_db i r s) = processed_tbl s" "now_s (refused_db i r s) = now_s s"
  by (simp_all add: refused_db_def)

lemma advance_unknown:
  "orders_view s (rq_publicId rq) = None \<Longrightarrow>
   advance rq s = (Inl (unknown_order (rq_publicId rq)), s)"
  by (simp add: advance_def advance_found_def bindE_apply)

definition same_step :: "advance_request \<Rightarrow> order_row \<Rightarrow> bool" where
  "same_step rq r = (case rq_isSameStep rq of Some f \<Rightarrow> f r | None \<Rightarrow> True)"

definition repeat_info :: "advance_request \<Rightarrow> order_row \<Rightarrow> transition_rejection_info" where
  "repeat_info rq r =
    (let code = (if same_step rq r then REPEATED_STEP else CONFLICTING_STEP)
     in rejection_info rq r code
          (describeTransitionFailure code (status r) (targetOf (rq_action rq))))"

definition illegal_info :: "advance_request \<Rightarrow> order_row \<Rightarrow> transition_rejection_info" where
  "illegal_info rq r =
    (let code = classifyIllegalTransition (status r) (targetOf (rq_action rq)) (Some (rq_action rq))
     in rejection_info rq r code
          (describeTransitionFailure code (status r) (targetOf (rq_action rq))))"

lemma rj_publicId_infos [simp]:
  "rj_publicId (repeat_info rq r) = rq_publicId rq"
  "rj_publicId (illegal_info rq r) = rq_publicId rq"
  by (simp_all add: repeat_info_def illegal_info_def Let_def)

text \<open>\<open>advance\<close> on a known order, branch by branch.\<close>

lemma advance_known:
  assumes r: "orders_view s (rq_publicId rq) = Some r"
  shows "advance rq s =
    (if status r = targetOf (rq_action rq) then
       (if same_step rq r then (Inr (), refused_db (repeat_info rq r) r s)
        else (Inl (OrderTransitionRejectedError (repeat_info rq r)),
              refused_db (repeat_info rq r) r s))
     else if \<not> canTransition (status r) (targetOf (rq_action rq)) then
       (Inl (OrderTransitionRejectedError (illegal_info rq r)),
        refused_db (illegal_info rq r) r s)
     else rq_apply rq r (targetOf (rq_action rq)) s)"
  using r
  by (simp add: advance_def advance_found_def bindE_apply Let_def rejectTransition_def thenE_apply
      persistRejection_apply [where r = r] same_step_def repeat_info_def illegal_info_def
      evaluateTransition_def refused_db_def)

subsection \<open>What may change in an order\<close>

text \<open>The columns fixed when the order is announced.\<close>

definition same_terms :: "order_row \<Rightarrow> order_row \<Rightarrow> bool" where
  "same_terms r r' \<longleftrightarrow>
    rowId r' = rowId r \<and> publicId r' = publicId r \<and> direction r' = direction r \<and>
    hashlock r' = hashlock r \<and> srcChain r' = srcChain r \<and> srcAddress r' = srcAddress r \<and>
    srcAsset r' = srcAsset r \<and> srcAmount r' = srcAmount r \<and>
    srcSafetyDeposit r' = srcSafetyDeposit r \<and> dstChain r' = dstChain r \<and>
    dstAddress r' = dstAddress r \<and> dstAsset r' = dstAsset r \<and> dstAmount r' = dstAmount r \<and>
    fixture r' = fixture r \<and> createdAt r' = createdAt r"

lemma same_terms_refl [simp]: "same_terms r r"
  by (simp add: same_terms_def)

lemma same_terms_trans: "same_terms r r' \<Longrightarrow> same_terms r' r'' \<Longrightarrow> same_terms r r''"
  by (simp add: same_terms_def)

lemma same_terms_updates [simp]:
  "same_terms r (sql_updateStatus st n r)" "same_terms r (sql_updateSrcLock i t b l n r)"
  "same_terms r (sql_updateDstLock i t b l v n r)" "same_terms r (sql_updateSecret p t n r)"
  by (simp_all add: same_terms_def sql_updateStatus_def sql_updateSrcLock_def
      sql_updateDstLock_def sql_updateSecret_def)

text \<open>Every order survives, along legal edges only, with its terms; the audit trail only grows.\<close>

definition lifecycle_le :: "coord_db \<Rightarrow> coord_db \<Rightarrow> bool" where
  "lifecycle_le s t \<longleftrightarrow>
    (\<forall>pid r. orders_view s pid = Some r \<longrightarrow>
      (\<exists>r'. orders_view t pid = Some r' \<and> canTransition\<^sup>*\<^sup>* (status r) (status r') \<and>
        same_terms r r')) \<and>
    (\<exists>es. events_tbl t = events_tbl s @ es)"

lemma lifecycle_le_order:
  assumes "lifecycle_le s t" "orders_view s pid = Some r"
  obtains r' where "orders_view t pid = Some r'" "canTransition\<^sup>*\<^sup>* (status r) (status r')"
    "same_terms r r'"
  using assms by (auto simp: lifecycle_le_def)

lemma lifecycle_le_events:
  assumes "lifecycle_le s t"
  obtains es where "events_tbl t = events_tbl s @ es"
  using assms by (auto simp: lifecycle_le_def)

interpretation lifecycle: effect_order lifecycle_le
proof
  show "lifecycle_le s s" for s
    by (auto simp: lifecycle_le_def)
  show "lifecycle_le s u" if st: "lifecycle_le s t" and tu: "lifecycle_le t u" for s t u
    unfolding lifecycle_le_def
  proof (intro conjI allI impI)
    fix pid r assume "orders_view s pid = Some r"
    from lifecycle_le_order [OF st this] obtain r1 where
      1: "orders_view t pid = Some r1" "canTransition\<^sup>*\<^sup>* (status r) (status r1)"
        "same_terms r r1" .
    from lifecycle_le_order [OF tu 1(1)] obtain r2 where
      "orders_view u pid = Some r2" "canTransition\<^sup>*\<^sup>* (status r1) (status r2)"
        "same_terms r1 r2" .
    with 1 show "\<exists>r'. orders_view u pid = Some r' \<and>
        canTransition\<^sup>*\<^sup>* (status r) (status r') \<and> same_terms r r'"
      by (blast intro: rtranclp_trans same_terms_trans)
  next
    show "\<exists>es. events_tbl u = events_tbl s @ es"
      using lifecycle_le_events [OF st] lifecycle_le_events [OF tu] by (metis append.assoc)
  qed
qed

lemma lifecycle_le_refused: "lifecycle_le s (refused_db i r s)"
  by (auto simp: lifecycle_le_def refused_db_def)

definition all_orders :: "(order_row \<Rightarrow> bool) \<Rightarrow> coord_db \<Rightarrow> bool" where
  "all_orders W s \<longleftrightarrow> (\<forall>pid r. orders_view s pid = Some r \<longrightarrow> W r)"

lemma all_orders_refused [simp]: "all_orders W (refused_db i r s) = all_orders W s"
  by (simp add: all_orders_def)

subsection \<open>The contract between advance and a writer\<close>

locale edge_writer = row_writer change etype payload op
  for change :: "int \<Rightarrow> order_row \<Rightarrow> order_row" and etype payload op +
  fixes action :: order_action
    and guard :: "order_row \<Rightarrow> coord_error + unit"
  assumes edge_status: "canTransition (status r) (targetOf action) \<Longrightarrow>
      status (change n r) = targetOf action"
    and edge_terms: "same_terms r (change n r)"
begin

definition request :: "string \<Rightarrow> string option \<Rightarrow> string option \<Rightarrow> (order_row \<Rightarrow> bool) option
    \<Rightarrow> advance_request" where
  "request pid tx w same = \<lparr>rq_publicId = pid, rq_action = action, rq_txHash = tx, rq_writer = w,
     rq_isSameStep = same, rq_apply = (\<lambda>order to. thenE (liftE (guard order)) (op pid))\<rparr>"

lemma request_simps [simp]:
  "rq_publicId (request pid tx w same) = pid" "rq_action (request pid tx w same) = action"
  "rq_isSameStep (request pid tx w same) = same" "rq_txHash (request pid tx w same) = tx"
  "rq_writer (request pid tx w same) = w"
  by (simp_all add: request_def)

lemma apply_request:
  "rq_apply (request pid tx w same) r to s =
    (case guard r of Inl e \<Rightarrow> (Inl e, s) | Inr _ \<Rightarrow> op pid s)"
  by (simp add: request_def thenE_apply split: sum.splits)

lemma advance_legal:
  assumes r: "orders_view s pid = Some r" and can: "canTransition (status r) (targetOf action)"
    and g: "guard r = Inr ()"
  shows "\<exists>s'. advance (request pid tx w same) s = (Inr (), s') \<and>
    orders_view s' = (orders_view s)(pid \<mapsto> change (now_s s) r) \<and>
    status (change (now_s s) r) = targetOf action \<and>
    events_tbl s' = events_tbl s @ [new_event s (rowId r) etype (payload r)]"
proof -
  have "status r \<noteq> targetOf action" using can by auto
  then have "advance (request pid tx w same) s = op pid s"
    using r can g by (simp add: advance_known [where r = r] apply_request)
  then show ?thesis
    using op_success [OF r] op_view [OF r] op_events [OF r] edge_status [OF can] by auto
qed

lemma advance_guarded:
  assumes r: "orders_view s pid = Some r" and can: "canTransition (status r) (targetOf action)"
    and g: "guard r = Inl e"
  shows "advance (request pid tx w same) s = (Inl e, s)"
proof -
  have "status r \<noteq> targetOf action" using can by auto
  with r can g show ?thesis by (simp add: advance_known [where r = r] apply_request)
qed

text \<open>The three kinds of store \<open>advance\<close> can leave behind.\<close>

lemma advance_cases:
  assumes r: "orders_view s pid = Some r"
  obtains (refused) i where "snd (advance (request pid tx w same) s) = refused_db i r s"
  | (guarded) e where "guard r = Inl e" "advance (request pid tx w same) s = (Inl e, s)"
  | (applied) "canTransition (status r) (targetOf action)" "guard r = Inr ()"
      "advance (request pid tx w same) s = (Inr (), snd (op pid s))"
proof (cases "canTransition (status r) (targetOf action)")
  case False
  have "\<exists>i. snd (advance (request pid tx w same) s) = refused_db i r s"
    using r False
    by (cases "status r = targetOf action"; cases "same_step (request pid tx w same) r")
      (auto simp: advance_known [where r = r])
  then show ?thesis using refused by blast
next
  case can: True
  then have ne: "status r \<noteq> targetOf action" by auto
  show ?thesis
  proof (cases "guard r")
    case (Inl e)
    then show ?thesis using guarded advance_guarded [OF r can] by blast
  next
    case (Inr u)
    then show ?thesis
      using applied r can ne op_success [OF r]
      by (auto simp: advance_known [where r = r] apply_request)
  qed
qed

lemma advance_lifecycle: "lifecycle_le s (snd (advance (request pid tx w same) s))"
proof (cases "orders_view s pid")
  case None
  then show ?thesis by (simp add: advance_unknown lifecycle.le_refl)
next
  case r: (Some r)
  show ?thesis
    using r
  proof (cases rule: advance_cases [where tx = tx and w = w and same = same])
    case (refused i)
    then show ?thesis by (simp add: lifecycle_le_refused)
  next
    case (guarded e)
    then show ?thesis by (simp add: lifecycle.le_refl)
  next
    case applied
    with r edge_status [OF applied(1)] edge_terms show ?thesis
      by (auto simp: lifecycle_le_def op_view op_events)
  qed
qed

lemma advance_within: "lifecycle.within (advance (request pid tx w same))"
  by (simp add: lifecycle.within_def advance_lifecycle)

lemma advance_all_orders:
  assumes "\<And>n r. W r \<Longrightarrow> canTransition (status r) (targetOf action) \<Longrightarrow> guard r = Inr () \<Longrightarrow>
    W (change n r)"
  shows "keeps (all_orders W) (advance (request pid tx w same))"
proof (rule keepsI)
  fix s assume W: "all_orders W s"
  show "all_orders W (snd (advance (request pid tx w same) s))"
  proof (cases "orders_view s pid")
    case None
    with W show ?thesis by (simp add: advance_unknown)
  next
    case r: (Some r)
    then have "W r" using W by (simp add: all_orders_def)
    from r show ?thesis
    proof (cases rule: advance_cases [where tx = tx and w = w and same = same])
      case applied
      with r W \<open>W r\<close> assms show ?thesis by (auto simp: all_orders_def op_view)
    qed (use W in simp_all)
  qed
qed

text \<open>Nothing but the addressed order changes, and its refusal changes not even that.\<close>

lemma advance_other:
  "pid' \<noteq> pid \<Longrightarrow>
   orders_view (snd (advance (request pid tx w same) s)) pid' = orders_view s pid'"
proof (cases "orders_view s pid")
  case None
  then show ?thesis by (simp add: advance_unknown)
next
  case r: (Some r)
  assume ne: "pid' \<noteq> pid"
  from r show ?thesis
    by (cases rule: advance_cases [where tx = tx and w = w and same = same])
      (simp_all add: op_other [OF ne])
qed

lemma advance_view_eq:
  assumes "fst (advance (request pid tx w same) s) = Inl e"
  shows "orders_view (snd (advance (request pid tx w same) s)) = orders_view s"
proof (cases "orders_view s pid")
  case None
  then show ?thesis by (simp add: advance_unknown)
next
  case r: (Some r)
  then show ?thesis
    by (cases rule: advance_cases [where tx = tx and w = w and same = same])
      (use assms in simp_all)
qed

end

subsection \<open>The writers of the service\<close>

lemma src_lock_guard_Inr:
  "src_lock_guard gap t r = Inr () \<longleftrightarrow> (\<forall>d. dstTimelock r = Some d \<longrightarrow> d < t \<and> d + gap \<le> t)"
  by (auto simp: src_lock_guard_def assertTimelocksAtCreation_def validateTimelocksAtCreation_def
      validateTimelockOrdering_def split: option.splits)

lemma dst_lock_guard_Inr:
  "dst_lock_guard gap t r = Inr () \<longleftrightarrow> (\<forall>s. srcTimelock r = Some s \<longrightarrow> t < s \<and> t + gap \<le> s)"
  by (auto simp: dst_lock_guard_def assertTimelocksAtCreation_def validateTimelocksAtCreation_def
      validateTimelockOrdering_def split: option.splits)

lemma edges_into:
  "canTransition s Src_locked \<longleftrightarrow> s = Announced"
  "canTransition s Dst_locked \<longleftrightarrow> s = Src_locked"
  "canTransition s Secret_revealed \<longleftrightarrow> s = Src_locked \<or> s = Dst_locked"
  "canTransition s Completed \<longleftrightarrow> s = Secret_revealed"
  "canTransition s Refunded \<longleftrightarrow> s \<in> {Src_locked, Dst_locked, Secret_revealed, Expired}"
  by (cases s; simp add: canTransition_simps)+

lemma status_sql_update [simp]:
  "status (sql_updateStatus st n r) = st"
  "status (sql_updateSrcLock i t b l n r) =
    (if status r = Announced then Src_locked else status r)"
  "status (sql_updateDstLock i t b l v n r) =
    (if status r \<in> {Announced, Src_locked} then Dst_locked else status r)"
  "status (sql_updateSecret p t n r) = Secret_revealed"
  by (simp_all add: sql_updateStatus_def sql_updateSrcLock_def sql_updateDstLock_def
      sql_updateSecret_def)

interpretation src_edge: edge_writer "sql_updateSrcLock oid htx b l" TRANSITION_SUMMARY_EVENT
    "\<lambda>r. Summary_payload (Some (status r)) Src_locked (Some htx) ''src_locked''"
    "recordSrcLock oid htx b l" Escrow "src_lock_guard gap l" for oid htx b l gap
  by unfold_locales (auto simp: edges_into)

interpretation dst_edge: edge_writer "sql_updateDstLock oid htx b l v" TRANSITION_SUMMARY_EVENT
    "\<lambda>r. Summary_payload (Some (status r)) Dst_locked (Some htx) ''dst_locked''"
    "recordDstLock oid htx b l v" Secret_relay "dst_lock_guard gap l" for oid htx b l v gap
  by unfold_locales (auto simp: edges_into)

interpretation secret_edge: edge_writer "sql_updateSecret pre htx" TRANSITION_SUMMARY_EVENT
    "\<lambda>r. Summary_payload (Some (status r)) Secret_revealed (Some htx) ''secret_revealed''"
    "recordSecretRevealed pre htx" Secret "\<lambda>_. Inr ()" for pre htx
  by unfold_locales simp_all

interpretation status_edge: edge_writer "sql_updateStatus (targetOf a)" TRANSITION_SUMMARY_EVENT
    "\<lambda>r. Summary_payload (Some (status r)) (targetOf a) tx (status_str (targetOf a))"
    "setStatus (targetOf a) tx" a "\<lambda>_. Inr ()" for a tx
  by unfold_locales simp_all

text \<open>Each public method is a request of its edge.\<close>

lemma thenE_liftE_Inr [simp]: "thenE (liftE (Inr u)) m = m"
  by (simp add: thenE_def bindE_def liftE_def)

lemma recordSrcLock_svc_request:
  "recordSrcLock_svc gap i = advance (src_edge.request (sl_orderId i) (sl_txHash i)
     (sl_blockNumber i) (sl_timelock i) gap (sl_publicId i) (Some (sl_txHash i)) (sl_writer i)
     (Some (\<lambda>order. srcOrderId order = Some (sl_orderId i) \<and>
       srcLockTx order = Some (sl_txHash i) \<and> srcLockBlock order = Some (sl_blockNumber i) \<and>
       srcTimelock order = Some (sl_timelock i))))"
  by (simp add: recordSrcLock_svc_def src_edge.request_def)

lemma recordDstLock_svc_request:
  "recordDstLock_svc gap i = advance (dst_edge.request (sl_orderId i) (sl_txHash i)
     (sl_blockNumber i) (sl_timelock i) (dl_resolver i) gap (sl_publicId i) (Some (sl_txHash i))
     (sl_writer i)
     (Some (\<lambda>order. dstOrderId order = Some (sl_orderId i) \<and>
       dstLockTx order = Some (sl_txHash i) \<and> dstLockBlock order = Some (sl_blockNumber i) \<and>
       dstTimelock order = Some (sl_timelock i) \<and> resolverAddress order = dl_resolver i)))"
  by (simp add: recordDstLock_svc_def dst_edge.request_def)

lemma recordSecret_request:
  "recordSecret pid pre tx w = advance (secret_edge.request (toLowerCase pre) tx pid (Some tx) w
     (Some (\<lambda>order. preimage order = Some (toLowerCase pre))))"
  by (simp add: recordSecret_def secret_edge.request_def Let_def)

lemma recordClaim_request:
  "recordClaim pid tx w =
    advance (status_edge.request Claim (Some tx) pid (Some tx) w (Some (\<lambda>_. True)))"
  unfolding recordClaim_def status_edge.request_def by simp

lemma recordRefund_request:
  "recordRefund pid tx w =
    advance (status_edge.request Refund (Some tx) pid (Some tx) w (Some (\<lambda>_. True)))"
  unfolding recordRefund_def status_edge.request_def by simp

lemma markStatus_request:
  "markStatus pid st w =
    (if st = Announced
     then throw (OrderValidationError (status_str st @ '' is not the target of a lifecycle edge'')
       None)
     else advance (status_edge.request (the (actionForStatus st)) None pid None w None))"
proof (cases "actionForStatus st")
  case None
  then have "st = Announced" by simp
  with None show ?thesis by (simp only: markStatus_def option.case simp_thms if_True)
next
  case (Some a)
  then have st: "st = targetOf a" by (simp only: actionForStatus_Some)
  show ?thesis by (simp add: markStatus_def status_edge.request_def st)
qed

lemmas service_requests = recordSrcLock_svc_request recordDstLock_svc_request
  recordSecret_request recordClaim_request recordRefund_request

subsection \<open>What every method of the service keeps\<close>

lemma service_lifecycle:
  "lifecycle.within (recordSrcLock_svc gap sl)" "lifecycle.within (recordDstLock_svc gap dl)"
  "lifecycle.within (recordSecret pid pre tx w)" "lifecycle.within (recordClaim pid tx w)"
  "lifecycle.within (recordRefund pid tx w)" "lifecycle.within (markStatus pid st w)"
  unfolding service_requests markStatus_request
  by (intro src_edge.advance_within dst_edge.advance_within secret_edge.advance_within
      status_edge.advance_within lifecycle.within_throw lifecycle.within_if)+

lemma keeps_advance:
  assumes "\<And>order to. keeps db_ok (rq_apply rq order to)"
  shows "keeps db_ok (advance rq)"
  unfolding advance_def advance_found_def findByPublicId_def select_order_def rejectTransition_def
    persistRejection_def Let_def
  by (intro keeps_rules assms)

lemma keeps_service [keeps_rules]:
  "keeps db_ok (recordSrcLock_svc gap sl)" "keeps db_ok (recordDstLock_svc gap dl)"
  "keeps db_ok (recordSecret pid pre tx w)" "keeps db_ok (recordClaim pid tx w)"
  "keeps db_ok (recordRefund pid tx w)" "keeps db_ok (markStatus pid st w)"
  unfolding recordSrcLock_svc_def recordDstLock_svc_def recordSecret_def recordClaim_def
    recordRefund_def markStatus_def Let_def
  by (simp_all add: keeps_advance keeps_rules split: option.split)

end
