(* ===== verification/Order_Invariants.thy ===== *)
theory Order_Invariants
  imports Order_Service "HOL-Library.Sublist"
begin

text \<open>
  Invariants of the order service. \<open>order_wf\<close> ties the status of an order to its columns and states
  the timelock gap; \<open>same_orders\<close> says that a method neither creates nor loses an order nor changes
  its terms. The locale \<open>service_invariant\<close> is the interface between the service and everything
  that calls it: a predicate of the store that the service's methods keep. The components that
  consume chain events and secrets prove inside it that they keep the predicate too, and each
  invariant of this theory is an interpretation.
\<close>

section \<open>The interface\<close>

locale service_invariant =
  fixes Q :: "coord_db \<Rightarrow> bool" and gap :: int
  assumes Q_src: "keeps Q (recordSrcLock_svc gap sl)"
    and Q_dst: "keeps Q (recordDstLock_svc gap dl)"
    and Q_secret: "keeps Q (recordSecret pid pre tx w)"
    and Q_claim: "keeps Q (recordClaim pid tx w)"
    and Q_refund: "keeps Q (recordRefund pid tx w)"
begin

lemmas Q_rules = Q_src Q_dst Q_secret Q_claim Q_refund

end

lemma keeps_within: "lifecycle.within m \<Longrightarrow> keeps (lifecycle_le s0) m"
  by (auto simp: keeps_def lifecycle.within_def intro: lifecycle.le_trans)

interpretation schema_inv: service_invariant db_ok gap for gap
  by unfold_locales (rule keeps_service)+

interpretation lifecycle_inv: service_invariant "lifecycle_le s0" gap for s0 gap
  by unfold_locales (intro keeps_within service_lifecycle)+

section \<open>No order appears, disappears or changes its terms\<close>

definition same_orders :: "coord_db \<Rightarrow> coord_db \<Rightarrow> bool" where
  "same_orders s t \<longleftrightarrow> (\<forall>pid. rel_option same_terms (orders_view s pid) (orders_view t pid))"

lemma same_ordersI:
  "(\<And>pid. rel_option same_terms (orders_view s pid) (orders_view t pid)) \<Longrightarrow> same_orders s t"
  by (simp add: same_orders_def)

lemma rel_same_terms_refl [simp]: "rel_option same_terms x x"
  by (cases x) simp_all

lemma same_orders_trans: "same_orders s t \<Longrightarrow> same_orders t u \<Longrightarrow> same_orders s u"
  unfolding same_orders_def
proof
  fix pid
  assume "\<forall>pid. rel_option same_terms (orders_view s pid) (orders_view t pid)"
    "\<forall>pid. rel_option same_terms (orders_view t pid) (orders_view u pid)"
  then have "rel_option same_terms (orders_view s pid) (orders_view t pid)"
    "rel_option same_terms (orders_view t pid) (orders_view u pid)" by blast+
  then show "rel_option same_terms (orders_view s pid) (orders_view u pid)"
    by (auto simp: rel_option_iff intro: same_terms_trans split: option.splits)
qed

lemma same_orders_dom: "same_orders s t \<Longrightarrow> dom (orders_view t) = dom (orders_view s)"
  unfolding same_orders_def dom_def by (metis option.rel_distinct(1,2) option.exhaust)

interpretation same: effect_order same_orders
  by unfold_locales (simp add: same_orders_def, rule same_orders_trans)

context edge_writer
begin

lemma advance_same_orders: "same_orders s (snd (advance (request pid tx w same) s))"
proof (cases "orders_view s pid")
  case None
  then show ?thesis by (simp add: advance_unknown same.le_refl)
next
  case r: (Some r)
  then show ?thesis
  proof (cases rule: advance_cases [where tx = tx and w = w and same = same])
    case applied
    with r edge_terms show ?thesis by (auto simp: same_orders_def op_view)
  qed (simp_all add: same.le_refl same_orders_def)
qed

lemma advance_row:
  assumes "orders_view s pid = Some r"
  shows "orders_view (snd (advance (request pid tx w same) s)) pid = Some r \<or>
    orders_view (snd (advance (request pid tx w same) s)) pid = Some (change (now_s s) r)"
  using assms
  by (cases rule: advance_cases [OF assms, where tx = tx and w = w and same = same])
    (simp_all add: op_view)

lemma keeps_same_orders: "keeps (same_orders s0) (advance (request pid tx w same))"
  by (auto simp: keeps_def intro: same_orders_trans advance_same_orders)

end

lemmas edges_same_orders = src_edge.keeps_same_orders dst_edge.keeps_same_orders
  secret_edge.keeps_same_orders status_edge.keeps_same_orders

interpretation same_inv: service_invariant "same_orders s0" gap for s0 gap
  unfolding service_invariant_def service_requests by (intro conjI allI edges_same_orders)

section \<open>The other tables\<close>

definition tables_frame :: "chain_cursor_row list \<Rightarrow> processed_event_row list \<Rightarrow> coord_db \<Rightarrow> bool"
  where "tables_frame cs ps s \<longleftrightarrow> cursors_tbl s = cs \<and> processed_tbl s = ps"

context edge_writer
begin

lemma advance_frame: "keeps (tables_frame cs ps) (advance (request pid tx w same))"
proof (rule keepsI)
  fix s assume f: "tables_frame cs ps s"
  show "tables_frame cs ps (snd (advance (request pid tx w same) s))"
  proof (cases "orders_view s pid")
    case None
    with f show ?thesis by (simp add: advance_unknown)
  next
    case r: (Some r)
    then show ?thesis
      by (cases rule: advance_cases [where tx = tx and w = w and same = same])
        (use f in \<open>simp_all add: tables_frame_def op_cursors op_processed\<close>)
  qed
qed

end

interpretation frame_inv: service_invariant "tables_frame cs ps" gap for cs ps gap
  unfolding service_invariant_def service_requests
  by (intro conjI allI src_edge.advance_frame dst_edge.advance_frame secret_edge.advance_frame
      status_edge.advance_frame)

section \<open>The columns of an order match its status\<close>

definition src_known :: "order_row \<Rightarrow> bool" where
  "src_known r \<longleftrightarrow> srcOrderId r \<noteq> None \<and> srcLockTx r \<noteq> None \<and> srcLockBlock r \<noteq> None \<and>
     srcTimelock r \<noteq> None"

definition dst_known :: "order_row \<Rightarrow> bool" where
  "dst_known r \<longleftrightarrow> dstOrderId r \<noteq> None \<and> dstLockTx r \<noteq> None \<and> dstLockBlock r \<noteq> None \<and>
     dstTimelock r \<noteq> None"

definition src_blank :: "order_row \<Rightarrow> bool" where
  "src_blank r \<longleftrightarrow> srcOrderId r = None \<and> srcLockTx r = None \<and> srcLockBlock r = None \<and>
     srcTimelock r = None"

definition dst_blank :: "order_row \<Rightarrow> bool" where
  "dst_blank r \<longleftrightarrow> dstOrderId r = None \<and> dstLockTx r = None \<and> dstLockBlock r = None \<and>
     dstTimelock r = None \<and> resolverAddress r = None"

definition secret_known :: "order_row \<Rightarrow> bool" where
  "secret_known r \<longleftrightarrow> preimage r \<noteq> None \<and> secretRevealedTx r \<noteq> None"

definition secret_blank :: "order_row \<Rightarrow> bool" where
  "secret_blank r \<longleftrightarrow> preimage r = None \<and> secretRevealedTx r = None"

fun status_wf :: "order_status \<Rightarrow> order_row \<Rightarrow> bool" where
  "status_wf Announced r \<longleftrightarrow> src_blank r \<and> dst_blank r \<and> secret_blank r"
| "status_wf Src_locked r \<longleftrightarrow> src_known r \<and> dst_blank r \<and> secret_blank r"
| "status_wf Dst_locked r \<longleftrightarrow> src_known r \<and> dst_known r \<and> secret_blank r"
| "status_wf Secret_revealed r \<longleftrightarrow>
     src_known r \<and> (dst_known r \<or> dst_blank r) \<and> secret_known r"
| "status_wf Completed r \<longleftrightarrow> src_known r \<and> (dst_known r \<or> dst_blank r) \<and> secret_known r"
| "status_wf Refunded r \<longleftrightarrow>
     src_known r \<and> (dst_known r \<or> dst_blank r) \<and> (secret_known r \<or> secret_blank r)"
| "status_wf Failed r \<longleftrightarrow> True"
| "status_wf Expired r \<longleftrightarrow> True"

definition gap_ok :: "int \<Rightarrow> order_row \<Rightarrow> bool" where
  "gap_ok gap r \<longleftrightarrow> (\<forall>s d. srcTimelock r = Some s \<and> dstTimelock r = Some d \<longrightarrow>
     d < s \<and> d + gap \<le> s)"

definition order_wf :: "int \<Rightarrow> order_row \<Rightarrow> bool" where
  "order_wf gap r \<longleftrightarrow> gap_ok gap r \<and> status_wf (status r) r \<and> status r \<notin> {Failed, Expired}"

lemmas columns_defs = src_known_def dst_known_def src_blank_def dst_blank_def secret_known_def
  secret_blank_def

lemma order_wf_src:
  assumes "order_wf gap r" "canTransition (status r) Src_locked" "src_lock_guard gap l r = Inr ()"
  shows "order_wf gap (sql_updateSrcLock oid htx b l n r)"
  using assms
  by (auto simp: edges_into order_wf_def gap_ok_def sql_updateSrcLock_def columns_defs)

lemma order_wf_dst:
  assumes "order_wf gap r" "canTransition (status r) Dst_locked" "dst_lock_guard gap l r = Inr ()"
  shows "order_wf gap (sql_updateDstLock oid htx b l v n r)"
  using assms dst_lock_guard_Inr [of gap l r]
  by (auto simp: edges_into order_wf_def gap_ok_def sql_updateDstLock_def columns_defs)

lemma order_wf_secret:
  assumes "order_wf gap r" "canTransition (status r) Secret_revealed"
  shows "order_wf gap (sql_updateSecret p tx n r)"
  using assms
  by (auto simp: edges_into order_wf_def gap_ok_def sql_updateSecret_def columns_defs)

lemma order_wf_status:
  assumes "order_wf gap r" "canTransition (status r) st" "st \<in> {Completed, Refunded}"
  shows "order_wf gap (sql_updateStatus st n r)"
  using assms
  by (auto simp: edges_into order_wf_def gap_ok_def sql_updateStatus_def columns_defs)

interpretation wf_inv: service_invariant "all_orders (order_wf gap)" gap for gap
  unfolding service_invariant_def service_requests
  by (intro conjI allI src_edge.advance_all_orders dst_edge.advance_all_orders
      secret_edge.advance_all_orders status_edge.advance_all_orders)
    (auto intro: order_wf_src order_wf_dst order_wf_secret order_wf_status)

section \<open>One order per hashlock\<close>

definition hashlocks_unique :: "coord_db \<Rightarrow> bool" where
  "hashlocks_unique s \<longleftrightarrow> (\<forall>p q r r'. orders_view s p = Some r \<and> orders_view s q = Some r' \<and>
     hashlock r = hashlock r' \<longrightarrow> p = q)"

lemma hashlocks_unique_same:
  assumes "same_orders s t" "hashlocks_unique s"
  shows "hashlocks_unique t"
  unfolding hashlocks_unique_def
proof (intro allI impI, elim conjE)
  fix p q r r'
  assume t: "orders_view t p = Some r" "orders_view t q = Some r'" "hashlock r = hashlock r'"
  have "\<exists>a. orders_view s x = Some a \<and> hashlock a = hashlock b" if "orders_view t x = Some b" for x b
    using assms(1) that unfolding same_orders_def
    by (metis option.rel_cases option.distinct(1) option.inject same_terms_def)
  with t obtain a b where "orders_view s p = Some a" "hashlock a = hashlock r"
    "orders_view s q = Some b" "hashlock b = hashlock r'" by metis
  with assms(2) t show "p = q" unfolding hashlocks_unique_def by metis
qed

lemma keeps_hashlocks: "(\<And>s0. keeps (same_orders s0) m) \<Longrightarrow> keeps hashlocks_unique m"
  unfolding keeps_def using hashlocks_unique_same same.le_refl by blast

interpretation hashlock_inv: service_invariant hashlocks_unique gap for gap
  by unfold_locales (intro keeps_hashlocks same_inv.Q_rules)+

section \<open>Announcing\<close>

definition announced_row :: "string \<Rightarrow> announce_input \<Rightarrow> coord_db \<Rightarrow> order_db_row" where
  "announced_row pid i s = new_order_row (orders_seq s + 1) pid
     (announce_order_input.truncate (i\<lparr>in_hashlock := toLowerCase (in_hashlock i)\<rparr>)) (now_s s)"

definition announced_db :: "string \<Rightarrow> announce_input \<Rightarrow> coord_db \<Rightarrow> coord_db" where
  "announced_db pid i s =
    s\<lparr>orders_seq := orders_seq s + 1, orders_tbl := orders_tbl s @ [announced_row pid i s],
      events_seq := events_seq s + 1,
      events_tbl := events_tbl s @ [new_event s (orders_seq s + 1) TRANSITION_SUMMARY_EVENT
        (Summary_payload None Announced None ''created'')]\<rparr>"

lemma view_None_iff: "orders_view s pid = None \<longleftrightarrow> (\<forall>r \<in> set (orders_tbl s). publicId r \<noteq> pid)"
  by (auto simp: orders_view_def find_None_iff)

lemma announced_row_simps [simp]:
  "publicId (announced_row pid i s) = pid" "rowId (announced_row pid i s) = orders_seq s + 1"
  "hashlock (announced_row pid i s) = toLowerCase (in_hashlock i)"
  "status (announced_row pid i s) = Announced"
  by (simp_all add: announced_row_def new_order_row_def announce_order_input.defs)

lemma announced_view:
  assumes "orders_view s pid = None"
  shows "orders_view (announced_db pid i s) =
    (orders_view s)(pid \<mapsto> rowToOrder (announced_row pid i s))"
proof
  fix p
  have none: "find (\<lambda>r. publicId r = pid) (orders_tbl s) = None"
    using assms by (simp add: orders_view_def)
  show "orders_view (announced_db pid i s) p =
      ((orders_view s)(pid \<mapsto> rowToOrder (announced_row pid i s))) p"
    using none by (cases "p = pid")
      (auto simp: orders_view_def announced_db_def find_append split: option.splits)
qed

definition hashlock_taken :: "string \<Rightarrow> coord_db \<Rightarrow> bool" where
  "hashlock_taken h s \<longleftrightarrow> list_ex (\<lambda>r. hashlock r = h) (orders_tbl s)"

lemma announce_new:
  assumes "orders_view s pid = None"
  shows "announce pid (announce_order_input.truncate (i\<lparr>in_hashlock := toLowerCase (in_hashlock i)\<rparr>)) s =
    (Inr (rowToOrder (announced_row pid i s)), announced_db pid i s)"
proof -
  have "\<not> list_ex (\<lambda>r'. publicId r' = pid) (orders_tbl s)"
    using assms by (auto simp: list_ex_iff view_None_iff)
  moreover have "find (\<lambda>r. publicId r = pid) (orders_tbl s) = None"
    using assms by (simp add: orders_view_def)
  ultimately show ?thesis
    by (simp add: announce_def thenE_apply bindE_apply insert_row_def Let_def announced_row_def
        announced_db_def findByPublicId_def select_order_def find_append recordTransition_def
        insertEvent_def new_event_def new_order_row_def)
qed

lemma announce_unique_cases:
  obtains (taken) e where "announce_unique pid i s = (Inl e, s)"
      "hashlock_taken (toLowerCase (in_hashlock i)) s"
  | (clash) e where "announce_unique pid i s = (Inl (SqlError e), s)" "orders_view s pid \<noteq> None"
  | (created) "\<not> hashlock_taken (toLowerCase (in_hashlock i)) s" "orders_view s pid = None"
      "announce_unique pid i s =
        (Inr (rowToOrder (announced_row pid i s)), announced_db pid i s)"
proof (cases "find (\<lambda>r. hashlock r = toLowerCase (in_hashlock i)) (orders_tbl s)")
  case (Some d)
  then have "hashlock_taken (toLowerCase (in_hashlock i)) s"
    by (auto simp: hashlock_taken_def list_ex_iff dest: find_SomeD)
  with Some show ?thesis using taken
    by (auto simp: announce_unique_def announce_found_def bindE_apply findByHashlock_def select_order_def Let_def)
next
  case None
  then have free: "\<not> hashlock_taken (toLowerCase (in_hashlock i)) s"
    by (auto simp: hashlock_taken_def list_ex_iff find_None_iff)
  let ?i = "announce_order_input.truncate (i\<lparr>in_hashlock := toLowerCase (in_hashlock i)\<rparr>)"
  have eq: "announce_unique pid i s = announce pid ?i s"
    using None by (simp add: announce_unique_def announce_found_def bindE_apply findByHashlock_def select_order_def
        Let_def)
  show ?thesis
  proof (cases "orders_view s pid")
    case (Some r)
    then have "list_ex (\<lambda>r'. publicId r' = pid) (orders_tbl s)"
      using view_None_iff [of s pid] by (auto simp: list_ex_iff)
    with Some show ?thesis using clash eq
      by (simp add: announce_def thenE_apply insert_row_def new_order_row_def Let_def)
  next
    case new: None
    from announce_new [OF this] eq free new show ?thesis using created by simp
  qed
qed

lemma order_wf_announced: "order_wf gap (rowToOrder (announced_row pid i s))"
  by (simp add: order_wf_def gap_ok_def columns_defs rowToOrder_def announced_row_def
      new_order_row_def)

lemma keeps_announce_unique [keeps_rules]:
  "keeps db_ok (announce_unique pid i)" "keeps (all_orders (order_wf gap)) (announce_unique pid i)"
  "keeps (lifecycle_le s0) (announce_unique pid i)"
proof -
  show "keeps db_ok (announce_unique pid i)"
    unfolding announce_unique_def announce_found_def findByHashlock_def select_order_def by (intro keeps_rules)
  show "keeps (all_orders (order_wf gap)) (announce_unique pid i)"
  proof (rule keepsI)
    fix s assume W: "all_orders (order_wf gap) s"
    show "all_orders (order_wf gap) (snd (announce_unique pid i s))"
      by (rule announce_unique_cases [of pid i s])
        (use W in \<open>auto simp: all_orders_def announced_view order_wf_announced split: if_splits\<close>)
  qed
  have "lifecycle.within (announce_unique pid i)"
    unfolding lifecycle.within_def
  proof
    fix s
    show "lifecycle_le s (snd (announce_unique pid i s))"
    proof (rule announce_unique_cases [of pid i s])
      assume new: "orders_view s pid = None"
        and run: "announce_unique pid i s =
          (Inr (rowToOrder (announced_row pid i s)), announced_db pid i s)"
      have "lifecycle_le s (announced_db pid i s)"
        unfolding lifecycle_le_def
      proof (intro conjI allI impI)
        fix p r assume r: "orders_view s p = Some r"
        with new have "p \<noteq> pid" by auto
        with r show "\<exists>r'. orders_view (announced_db pid i s) p = Some r' \<and>
            canTransition\<^sup>*\<^sup>* (status r) (status r') \<and> same_terms r r'"
          by (simp add: announced_view [OF new])
      qed (simp add: announced_db_def)
      with run show ?thesis by simp
    qed (simp_all add: lifecycle.le_refl)
  qed
  then show "keeps (lifecycle_le s0) (announce_unique pid i)" by (rule keeps_within)
qed

lemma keeps_announce_hashlocks: "keeps hashlocks_unique (announce_unique pid i)"
proof (rule keepsI)
  fix s assume u: "hashlocks_unique s"
  show "hashlocks_unique (snd (announce_unique pid i s))"
  proof (rule announce_unique_cases [of pid i s])
    assume free: "\<not> hashlock_taken (toLowerCase (in_hashlock i)) s"
      and new: "orders_view s pid = None"
      and run: "announce_unique pid i s =
        (Inr (rowToOrder (announced_row pid i s)), announced_db pid i s)"
    have "\<forall>p r. orders_view s p = Some r \<longrightarrow> hashlock r \<noteq> toLowerCase (in_hashlock i)"
      using free orders_view_row by (fastforce simp: hashlock_taken_def list_ex_iff)
    with u new run show ?thesis
      unfolding hashlocks_unique_def by (auto simp: announced_view split: if_splits) blast+
  qed (use u in simp_all)
qed

section \<open>The terms of an order\<close>

text \<open>Everything \<open>announce\<close> checks of its input before it touches the database.\<close>

definition announce_checks :: "announce_input \<Rightarrow> bool" where
  "announce_checks i \<longleftrightarrow> announceSchema i \<and> validateDirectionAgainstChains i = Inr () \<and>
     validateChainAddress (in_srcChain i) (in_srcAddress i) = Inr () \<and>
     validateChainAddress (in_dstChain i) (in_dstAddress i) = Inr ()"

definition address_ok :: "chain \<Rightarrow> string \<Rightarrow> bool" where
  "address_ok c a \<longleftrightarrow> (case c of Ethereum \<Rightarrow> is_eth_address a | Stellar \<Rightarrow> is_stellar_address a)"

definition terms_ok :: "order_row \<Rightarrow> bool" where
  "terms_ok r \<longleftrightarrow> is_0x_hex 64 (hashlock r) \<and> toLowerCase (hashlock r) = hashlock r \<and>
     hashlock r \<noteq> toLowerCase ZERO_HASHLOCK \<and> (srcChain r, dstChain r) = expected_chains (direction r) \<and>
     address_ok (srcChain r) (srcAddress r) \<and> address_ok (dstChain r) (dstAddress r) \<and>
     srcAsset r \<noteq> [] \<and> dstAsset r \<noteq> [] \<and> is_decimal (srcAmount r) \<and>
     is_decimal (srcSafetyDeposit r) \<and> is_decimal (dstAmount r)"

lemma validateChainAddress_Inr: "validateChainAddress c a = Inr () \<longleftrightarrow> address_ok c a"
  by (cases c) (simp_all add: validateChainAddress_def address_ok_def)

lemma validateDirection_Inr:
  "validateDirectionAgainstChains i = Inr () \<longleftrightarrow>
   (in_srcChain i, in_dstChain i) = expected_chains (in_direction i)"
  by (cases "in_direction i") (auto simp: validateDirectionAgainstChains_def)

lemma terms_ok_announced: "announce_checks i \<Longrightarrow> terms_ok (rowToOrder (announced_row pid i s))"
  by (simp add: announce_checks_def validateChainAddress_Inr validateDirection_Inr announceSchema_def
      terms_ok_def rowToOrder_def announced_row_def new_order_row_def announce_order_input.defs
      Suc_le_eq)

lemma terms_ok_same: "same_terms r r' \<Longrightarrow> terms_ok r' = terms_ok r"
  by (simp add: same_terms_def terms_ok_def)

lemma all_terms_same: "same_orders s t \<Longrightarrow> all_orders terms_ok s \<Longrightarrow> all_orders terms_ok t"
  unfolding all_orders_def same_orders_def
  by (metis option.rel_cases option.distinct(1) option.inject terms_ok_same)

lemma keeps_terms: "(\<And>s0. keeps (same_orders s0) m) \<Longrightarrow> keeps (all_orders terms_ok) m"
  unfolding keeps_def using all_terms_same same.le_refl by blast

interpretation terms_inv: service_invariant "all_orders terms_ok" gap for gap
  by unfold_locales (intro keeps_terms same_inv.Q_rules)+

lemma keeps_announce_terms:
  assumes "announce_checks i"
  shows "keeps (all_orders terms_ok) (announce_unique pid i)"
proof (rule keepsI)
  fix s assume W: "all_orders terms_ok s"
  show "all_orders terms_ok (snd (announce_unique pid i s))"
    by (rule announce_unique_cases [of pid i s])
      (use W terms_ok_announced [OF assms] in
        \<open>auto simp: all_orders_def announced_view split: if_splits\<close>)
qed

section \<open>Refinement of the order machine\<close>

text \<open>A call of one of the service's methods, as data.\<close>

datatype service_call =
    Do_src_lock src_lock_input
  | Do_dst_lock dst_lock_input
  | Do_secret string string string "string option"
  | Do_claim string string "string option"
  | Do_refund string string "string option"

fun run_service :: "int \<Rightarrow> service_call \<Rightarrow> unit db_comp" where
  "run_service gap (Do_src_lock i) = recordSrcLock_svc gap i"
| "run_service gap (Do_dst_lock i) = recordDstLock_svc gap i"
| "run_service gap (Do_secret pid pre tx w) = recordSecret pid pre tx w"
| "run_service gap (Do_claim pid tx w) = recordClaim pid tx w"
| "run_service gap (Do_refund pid tx w) = recordRefund pid tx w"

fun call_order :: "service_call \<Rightarrow> string" where
  "call_order (Do_src_lock i) = sl_publicId i"
| "call_order (Do_dst_lock i) = sl_publicId i"
| "call_order (Do_secret pid pre tx w) = pid"
| "call_order (Do_claim pid tx w) = pid"
| "call_order (Do_refund pid tx w) = pid"

fun call_action :: "service_call \<Rightarrow> order_action" where
  "call_action (Do_src_lock i) = Escrow"
| "call_action (Do_dst_lock i) = Secret_relay"
| "call_action (Do_secret pid pre tx w) = Secret"
| "call_action (Do_claim pid tx w) = Claim"
| "call_action (Do_refund pid tx w) = Refund"

fun call_tx :: "service_call \<Rightarrow> string" where
  "call_tx (Do_src_lock i) = sl_txHash i"
| "call_tx (Do_dst_lock i) = sl_txHash i"
| "call_tx (Do_secret pid pre tx w) = tx"
| "call_tx (Do_claim pid tx w) = tx"
| "call_tx (Do_refund pid tx w) = tx"

text \<open>The order took the edge of \<open>a\<close>: only it changed, and one audit event records the edge.\<close>

definition took_edge :: "string \<Rightarrow> order_action \<Rightarrow> string \<Rightarrow> order_row \<Rightarrow> coord_db \<Rightarrow> coord_db \<Rightarrow> bool"
  where "took_edge pid a tx r s t \<longleftrightarrow> (\<exists>r'. lifecycle_step (status r) a (status r') \<and>
     same_terms r r' \<and> orders_view t = (orders_view s)(pid \<mapsto> r') \<and>
     events_tbl t = events_tbl s @ [new_event s (rowId r) TRANSITION_SUMMARY_EVENT
       (Summary_payload (Some (status r)) (status r') (Some tx) (status_str (status r')))])"

text \<open>No order changed; at most one refusal was added to the audit trail.\<close>

definition stuttered :: "order_row \<Rightarrow> coord_db \<Rightarrow> coord_db \<Rightarrow> bool" where
  "stuttered r s t \<longleftrightarrow> orders_view t = orders_view s \<and>
     (events_tbl t = events_tbl s \<or> (\<exists>i. rj_from i = status r \<and> events_tbl t = events_tbl s @
        [new_event s (rowId r) TRANSITION_REJECTED_EVENT (rejected_payload i)]))"

lemma stuttered_refl: "stuttered r s s"
  by (simp add: stuttered_def)

lemma stuttered_refused: "rj_from i = status r \<Longrightarrow> stuttered r s (refused_db i r s)"
  by (auto simp: stuttered_def refused_db_def)

lemma rj_from_infos [simp]:
  "rj_from (repeat_info rq r) = status r" "rj_from (illegal_info rq r) = status r"
  by (simp_all add: repeat_info_def illegal_info_def rejection_info_def Let_def)

context edge_writer
begin

lemma advance_refines:
  assumes r: "orders_view s pid = Some r"
    and guard_error: "\<And>e. guard r = Inl e \<Longrightarrow> is_order_validation e"
    and shape: "etype = TRANSITION_SUMMARY_EVENT"
      "payload r = Summary_payload (Some (status r)) (targetOf action) (Some tx')
        (status_str (targetOf action))"
  shows "(fst (advance (request pid tx w same) s) = Inr () \<and>
      took_edge pid action tx' r s (snd (advance (request pid tx w same) s))) \<or>
    (stuttered r s (snd (advance (request pid tx w same) s)) \<and>
      (case fst (advance (request pid tx w same) s) of
         Inr _ \<Rightarrow> status r = targetOf action | Inl e \<Rightarrow> is_order_validation e))"
proof (cases "canTransition (status r) (targetOf action)")
  case True
  then have step: "lifecycle_step (status r) action (targetOf action)"
    by (simp add: lifecycle_step_iff canTransition_legalSources)
  show ?thesis
  proof (cases "guard r")
    case (Inl e)
    then show ?thesis
      using advance_guarded [OF r True Inl] guard_error by (simp add: stuttered_refl)
  next
    case (Inr u)
    then have "guard r = Inr ()" by simp
    from advance_legal [OF r True this, of tx w same] obtain s' where
      s': "advance (request pid tx w same) s = (Inr (), s')"
        "orders_view s' = (orders_view s)(pid \<mapsto> change (now_s s) r)"
        "status (change (now_s s) r) = targetOf action"
        "events_tbl s' = events_tbl s @ [new_event s (rowId r) etype (payload r)]" by blast
    then have "took_edge pid action tx' r s s'"
      unfolding took_edge_def using step shape edge_terms
      by (intro exI [of _ "change (now_s s) r"]) simp
    with s' show ?thesis by simp
  qed
next
  case False
  then show ?thesis
    using r by (cases "status r = targetOf action"; cases "same_step (request pid tx w same) r")
      (simp_all add: advance_known [where r = r] stuttered_refused)
qed

end

lemma lock_guard_errors:
  "src_lock_guard gap t r = Inl e \<Longrightarrow> is_order_validation e"
  "dst_lock_guard gap t r = Inl e \<Longrightarrow> is_order_validation e"
  by (auto simp: src_lock_guard_def dst_lock_guard_def assertTimelocksAtCreation_def Let_def
      split: option.splits bool.splits)

lemma run_service_refines:
  assumes "orders_view s (call_order c) = Some r"
  shows "(fst (run_service gap c s) = Inr () \<and>
      took_edge (call_order c) (call_action c) (call_tx c) r s (snd (run_service gap c s))) \<or>
    (stuttered r s (snd (run_service gap c s)) \<and> (case fst (run_service gap c s) of
       Inr _ \<Rightarrow> status r = targetOf (call_action c) | Inl e \<Rightarrow> is_order_validation e))"
  using assms
proof (cases c)
  case (Do_src_lock i)
  with assms show ?thesis
    unfolding Do_src_lock run_service.simps call_order.simps call_action.simps call_tx.simps
      service_requests
    by (intro src_edge.advance_refines lock_guard_errors) simp_all
next
  case (Do_dst_lock i)
  with assms show ?thesis
    unfolding Do_dst_lock run_service.simps call_order.simps call_action.simps call_tx.simps
      service_requests
    by (intro dst_edge.advance_refines lock_guard_errors) simp_all
next
  case (Do_secret pid pre tx w)
  with assms show ?thesis
    unfolding Do_secret run_service.simps call_order.simps call_action.simps call_tx.simps
      service_requests
    by (intro secret_edge.advance_refines) simp_all
next
  case (Do_claim pid tx w)
  with assms show ?thesis
    unfolding Do_claim run_service.simps call_order.simps call_action.simps call_tx.simps
      service_requests
    by (intro status_edge.advance_refines) simp_all
next
  case (Do_refund pid tx w)
  with assms show ?thesis
    unfolding Do_refund run_service.simps call_order.simps call_action.simps call_tx.simps
      service_requests
    by (intro status_edge.advance_refines) simp_all
qed

lemma run_service_other:
  assumes "pid \<noteq> call_order c"
  shows "orders_view (snd (run_service gap c s)) pid = orders_view s pid"
  using assms
  by (cases c) (simp_all add: service_requests src_edge.advance_other dst_edge.advance_other
      secret_edge.advance_other status_edge.advance_other [where a = Claim, simplified]
      status_edge.advance_other [where a = Refund, simplified])

text \<open>The row a call writes when it takes its edge.\<close>

fun call_change :: "service_call \<Rightarrow> int \<Rightarrow> 'f order_columns \<Rightarrow> 'f order_columns" where
  "call_change (Do_src_lock i) n =
     sql_updateSrcLock (sl_orderId i) (sl_txHash i) (sl_blockNumber i) (sl_timelock i) n"
| "call_change (Do_dst_lock i) n =
     sql_updateDstLock (sl_orderId i) (sl_txHash i) (sl_blockNumber i) (sl_timelock i)
       (dl_resolver i) n"
| "call_change (Do_secret pid pre tx w) n = sql_updateSecret (toLowerCase pre) tx n"
| "call_change (Do_claim pid tx w) n = sql_updateStatus (targetOf Claim) n"
| "call_change (Do_refund pid tx w) n = sql_updateStatus (targetOf Refund) n"

lemma run_service_row:
  assumes "orders_view s (call_order c) = Some r"
  shows "orders_view (snd (run_service gap c s)) (call_order c) = Some r \<or>
    orders_view (snd (run_service gap c s)) (call_order c) = Some (call_change c (now_s s) r)"
  using assms
  by (cases c; simp only: run_service.simps call_order.simps call_change.simps service_requests)
    (rule src_edge.advance_row dst_edge.advance_row secret_edge.advance_row status_edge.advance_row;
      assumption)+

context edge_writer
begin

lemma advance_legal_snd:
  assumes "orders_view s pid = Some r" "canTransition (status r) (targetOf action)"
    and "guard r = Inr ()"
  shows "snd (advance (request pid tx w same) s) = snd (op pid s)"
proof -
  from assms(2) have "status r \<noteq> targetOf action" by auto
  with assms show ?thesis by (simp add: advance_known [where r = r] apply_request)
qed

lemma advance_refused_snd:
  assumes "orders_view s pid = Some r" "\<not> canTransition (status r) (targetOf action)"
  shows "orders_tbl (snd (advance (request pid tx w same) s)) = orders_tbl s"
  using assms by (cases "status r = targetOf action"; cases "same_step (request pid tx w same) r")
    (simp_all add: advance_known [where r = r])

end

fun call_guard :: "int \<Rightarrow> service_call \<Rightarrow> order_row \<Rightarrow> coord_error + unit" where
  "call_guard gap (Do_src_lock i) r = src_lock_guard gap (sl_timelock i) r"
| "call_guard gap (Do_dst_lock i) r = dst_lock_guard gap (sl_timelock i) r"
| "call_guard gap (Do_secret pid pre tx w) r = Inr ()"
| "call_guard gap (Do_claim pid tx w) r = Inr ()"
| "call_guard gap (Do_refund pid tx w) r = Inr ()"

lemma run_service_table:
  assumes "orders_view s (call_order c) = Some r"
    and "canTransition (status r) (targetOf (call_action c))" "call_guard gap c r = Inr ()"
  shows "orders_tbl (snd (run_service gap c s)) =
    update_where (\<lambda>r. publicId r = call_order c) (call_change c (now_s s)) (orders_tbl s)"
  using assms
  by (cases c; simp only: run_service.simps call_order.simps call_change.simps call_action.simps
      call_guard.simps service_requests src_edge.advance_legal_snd dst_edge.advance_legal_snd
      secret_edge.advance_legal_snd status_edge.advance_legal_snd; simp add: writers_eq write_order_apply)

lemma run_service_refused_table:
  assumes "orders_view s (call_order c) = Some r"
    and "\<not> canTransition (status r) (targetOf (call_action c))"
  shows "orders_tbl (snd (run_service gap c s)) = orders_tbl s"
  using assms
  by (cases c; simp only: run_service.simps call_order.simps call_action.simps service_requests
      src_edge.advance_refused_snd dst_edge.advance_refused_snd
      secret_edge.advance_refused_snd status_edge.advance_refused_snd)

lemma run_service_legal:
  assumes "orders_view s (call_order c) = Some r"
    and "canTransition (status r) (targetOf (call_action c))" "call_guard gap c r = Inr ()"
  shows "\<exists>t. run_service gap c s = (Inr (), t) \<and>
    orders_view t = (orders_view s)(call_order c \<mapsto> call_change c (now_s s) r)"
  using assms
  by (cases c; simp only: run_service.simps call_order.simps call_change.simps call_action.simps
      call_guard.simps service_requests)
    (drule src_edge.advance_legal dst_edge.advance_legal secret_edge.advance_legal
        status_edge.advance_legal; blast)+

fun run_calls :: "int \<Rightarrow> service_call list \<Rightarrow> coord_db \<Rightarrow> coord_db" where
  "run_calls gap [] s = s"
| "run_calls gap (c # cs) s = run_calls gap cs (snd (run_service gap c s))"

definition actions_on :: "string \<Rightarrow> service_call list \<Rightarrow> order_action list" where
  "actions_on pid cs = map call_action (filter (\<lambda>c. call_order c = pid) cs)"

lemma run_calls_simulates:
  "orders_view s pid = Some r \<Longrightarrow>
   \<exists>as r'. orders_view (run_calls gap cs s) pid = Some r' \<and> same_terms r r' \<and>
     run_actions (status r) as = Some (status r') \<and> subseq as (actions_on pid cs)"
proof (induction cs arbitrary: s r)
  case Nil
  then show ?case by (intro exI [of _ "[]"]) (simp add: actions_on_def)
next
  case (Cons c cs)
  show ?case
  proof (cases "call_order c = pid")
    case False
    then show ?thesis
      using Cons.IH [of "snd (run_service gap c s)" r] Cons.prems
      by (simp add: run_service_other actions_on_def)
  next
    case True
    then have on: "actions_on pid (c # cs) = call_action c # actions_on pid cs"
      by (simp add: actions_on_def)
    let ?t = "snd (run_service gap c s)"
    from run_service_refines [of s c r gap] Cons.prems True consider
        (edge) r1 where "lifecycle_step (status r) (call_action c) (status r1)"
          "same_terms r r1" "orders_view ?t pid = Some r1"
      | (stutter) "orders_view ?t pid = Some r"
      by (auto simp: took_edge_def stuttered_def)
    then show ?thesis
    proof cases
      case edge
      from Cons.IH [OF edge(3)] obtain "as" r' where
        IH: "orders_view (run_calls gap cs ?t) pid = Some r'" "same_terms r1 r'"
          "run_actions (status r1) as = Some (status r')" "subseq as (actions_on pid cs)" by blast
      have "run_actions (status r) (call_action c # as) = Some (status r')"
        using edge(1) IH(3) by (auto simp: lifecycle_step_iff canTransition_legalSources)
      moreover have "subseq (call_action c # as) (actions_on pid (c # cs))"
        using IH(4) on by simp
      ultimately show ?thesis
        using IH(1,2) same_terms_trans [OF edge(2)] by (auto intro!: exI)
    next
      case stutter
      from Cons.IH [OF this] on show ?thesis by (auto intro: list_emb_Cons)
    qed
  qed
qed

section \<open>A concrete store\<close>

definition sample_announce :: announce_input where
  "sample_announce =
    \<lparr>in_direction = Eth_to_xlm, in_hashlock = ''0x'' @ replicate 64 CHR ''1'',
     in_srcChain = Ethereum, in_srcAddress = ''0x'' @ replicate 40 CHR ''a'', in_srcAsset = ''ETH'',
     in_srcAmount = ''1000'', in_srcSafetyDeposit = ''10'', in_dstChain = Stellar,
     in_dstAddress = CHR ''G'' # replicate 55 CHR ''A'', in_dstAsset = ''XLM'',
     in_dstAmount = ''5000'', in_quoteId = None\<rparr>"

definition sample_db :: coord_db where
  "sample_db = announced_db ''p'' sample_announce (empty_db 100)"

definition sample_row :: order_row where
  "sample_row = rowToOrder (announced_row ''p'' sample_announce (empty_db 100))"

lemma sample_view: "orders_view sample_db = [''p'' \<mapsto> sample_row]"
proof -
  have "orders_view (empty_db 100) = Map.empty"
    by (simp add: orders_view_def empty_db_def fun_eq_iff)
  moreover have "orders_view (empty_db 100) ''p'' = None"
    by (simp add: orders_view_def empty_db_def)
  ultimately show ?thesis
    unfolding sample_db_def sample_row_def by (subst announced_view) simp_all
qed

lemma sample_db_ok: "db_ok sample_db"
  unfolding sample_db_def by (simp add: announced_db_def empty_db_def db_ok_defs announced_row_def
      new_order_row_def new_event_def typed_event_def)

definition sample_lock :: src_lock_input where
  "sample_lock = \<lparr>sl_publicId = ''p'', sl_orderId = ''7'', sl_txHash = ''0xaa'',
     sl_blockNumber = 12, sl_timelock = 5000, sl_writer = None\<rparr>"

section \<open>Properties\<close>

text \<open>C2: the order service refines the order machine. Whatever calls of its five methods are made, for
  whatever orders and in whatever order, each run to its end before the next begins, a known order is still known
  afterwards with the terms it was announced with, and its status was reached by a run of the lifecycle machine whose actions
  are among the calls addressed to it, in their order; every other call left it as it was. (Calls that overlap, as the
  PostgreSQL backend allows, are not sequences of calls: see \<open>Order_Races\<close>.)\<close>

theorem service_simulates_machine:
  assumes "orders_view s pid = Some r"
  shows "\<exists>as r'. orders_view (run_calls gap cs s) pid = Some r' \<and> same_terms r r' \<and>
    run_actions (status r) as = Some (status r') \<and> subseq as (actions_on pid cs)"
  using assms by (rule run_calls_simulates)

theorem service_simulates_machine_witness:
  "\<exists>as r'. orders_view (run_calls 600 [Do_claim ''p'' ''0xbb'' None, Do_src_lock sample_lock]
      sample_db) ''p'' = Some r' \<and> same_terms sample_row r' \<and>
    run_actions (status sample_row) as = Some (status r') \<and> subseq as [Claim, Escrow]"
  using service_simulates_machine [of sample_db "''p''" sample_row 600
      "[Do_claim ''p'' ''0xbb'' None, Do_src_lock sample_lock]"]
  by (simp add: sample_view actions_on_def sample_lock_def)

text \<open>C3: one call of the service on a known order either takes exactly its edge or leaves every order
  alone. In the first case the call succeeds, only the addressed order changes, it keeps its terms,
  and one audit event records the edge with its transaction. In the second at most one refusal is
  appended to the audit trail, success means that the order was already at the target (a repeated
  delivery), and a failure is an order validation error.\<close>

theorem service_call_edge_or_stutter:
  assumes "orders_view s (call_order c) = Some r"
  shows "(fst (run_service gap c s) = Inr () \<and>
      took_edge (call_order c) (call_action c) (call_tx c) r s (snd (run_service gap c s))) \<or>
    (stuttered r s (snd (run_service gap c s)) \<and> (case fst (run_service gap c s) of
       Inr _ \<Rightarrow> status r = targetOf (call_action c) | Inl e \<Rightarrow> is_order_validation e))"
  using assms by (rule run_service_refines)

theorem service_call_edge_or_stutter_witness:
  "stuttered sample_row sample_db (snd (run_service 600 (Do_claim ''p'' ''0xbb'' None) sample_db))"
proof -
  have st: "status sample_row = Announced" by (simp add: sample_row_def)
  have "\<not> took_edge ''p'' Claim ''0xbb'' sample_row sample_db t" for t
    by (auto simp: took_edge_def st lifecycle_step_iff legalSourcesFor_def)
  with service_call_edge_or_stutter [of sample_db "Do_claim ''p'' ''0xbb'' None" sample_row 600]
  show ?thesis by (simp add: sample_view)
qed

text \<open>what a successful announcement says of its quote. When \<open>announce\<close> succeeds with a non-empty
  quote id and a quote service, the quote was known and not expired and is now bound to the order's terms; it had the
  announced terms if it was issued with terms, and the announced amount if it was issued with one. A quote issued with neither, as the
  plain quote route issues them, is bound to whatever terms are announced.\<close>

theorem announce_respects_quote:
  assumes run: "announce_svc pid i (Some q, d) = (Inr r, (q', d'))"
    and quote: "in_quoteId i = Some qid" "qid \<noteq> []"
  shows "\<exists>old new. map_of (quotes q) qid = Some old \<and> q_now q \<le> expiresAt old \<and>
    (case issued_terms old of None \<Rightarrow> True | Some t \<Rightarrow>
       qt_srcChain t = in_srcChain i \<and> qt_srcAsset t = in_srcAsset i \<and>
       qt_srcAmount t = in_srcAmount i \<and> qt_dstChain t = in_dstChain i \<and>
       qt_dstAsset t = in_dstAsset i) \<and>
    (case amountBaseUnits old of None \<Rightarrow> True
     | Some a \<Rightarrow> parseBaseUnitInteger (in_srcAmount i) = Inr a) \<and>
    (\<exists>qs. q' = Some qs \<and> map_of (quotes qs) qid = Some new \<and>
      accepted_terms new = Some (order_terms i))"
proof -
  have gate: "quote_gate i (Some q) = (Inr (), q')"
    using run by (auto simp: announce_svc_def thenE_apply on_quotes_def on_db_def
        split: sum.splits prod.splits)
  then obtain new qs where bind: "bindOrderTerms qid (order_terms i) q = (Inr new, qs)" "q' = Some qs"
    and fresh: "\<exists>x. assertFresh qid (Some (in_srcAmount i)) qs = Inr x"
    using quote by (auto simp: quote_gate_def split: prod.splits sum.splits)
  from bind(1) obtain old where old: "assertFresh qid None q = Inr old"
    and drift: "\<not> (case issued_terms old of None \<Rightarrow> False | Some t \<Rightarrow> terms_drift t (order_terms i))"
    and new: "new = old\<lparr>accepted_terms := Some (order_terms i)\<rparr>"
    by (auto simp: bindOrderTerms_def Let_def split: sum.splits if_splits)
  note after = bindOrderTerms_get [OF bind(1)]
  from fresh obtain x where x: "assertFresh qid (Some (in_srcAmount i)) qs = Inr x" by blast
  have "x = new" using assertFresh_Inr [OF x] after by simp
  then have amount: "amountBaseUnits old = Some a \<Longrightarrow> parseBaseUnitInteger (in_srcAmount i) = Inr a" for a
    using assertFresh_amount [OF x, of a] new by simp
  show ?thesis
    using assertFresh_Inr [OF old] drift amount after bind(2)
    by (intro exI [of _ old] exI [of _ new])
      (auto simp: terms_drift_def order_terms_def split: option.splits)
qed

text \<open>The quote is bound before the amount and the hashlock are checked, so a refused announcement leaves it bound.\<close>

lemma refused_amount_binds_quote:
  assumes "in_quoteId i = Some qid" "qid \<noteq> []" "bindOrderTerms qid (order_terms i) q = (Inr new, qs)"
    and "assertFresh qid (Some (in_srcAmount i)) qs = Inl e"
  shows "quote_gate i (Some q) = (Inl (quote_failure (q_wall qs) e), Some qs)
    \<and> map_of (quotes qs) qid = Some new \<and> accepted_terms new = Some (order_terms i)"
  using assms bindOrderTerms_get [OF assms(3)] by (simp add: quote_gate_def)

lemma refused_hashlock_binds_quote:
  assumes "announce_svc pid i (Some q, d) = (Inl e, (q', d'))"
    and "quote_gate i (Some q) = (Inr (), Some qs)" "in_quoteId i = Some qid" "qid \<noteq> []"
    and "validateDirectionAgainstChains i = Inr ()" "validateChainAddress (in_srcChain i) (in_srcAddress i) = Inr ()"
      "validateChainAddress (in_dstChain i) (in_dstAddress i) = Inr ()"
  shows "orders_view d' = orders_view d \<and> (\<exists>new. q' = Some qs \<and> map_of (quotes qs) qid = Some new \<and>
    accepted_terms new = Some (order_terms i))"
proof -
  from assms(2-4) obtain new where "bindOrderTerms qid (order_terms i) q = (Inr new, qs)"
    by (auto simp: quote_gate_def split: prod.splits sum.splits)
  from bindOrderTerms_get [OF this] have "map_of (quotes qs) qid = Some new \<and> accepted_terms new = Some (order_terms i)"
    by simp
  moreover have "q' = Some qs" "announce_unique pid i d = (Inl e, d')"
    using assms(1,2,5-7) by (auto simp: announce_svc_def thenE_apply on_quotes_def on_db_def split: prod.splits)
  ultimately show ?thesis
    by (cases rule: announce_unique_cases [of pid i d]) auto
qed

definition sample_quotes :: quote_state where
  "sample_quotes = snd (quoteEthXlm ''q1'' None (Some ''1000'') None
     \<lparr>quotes = [], priceCache = [], q_now = 1000, q_wall = 1000\<rparr>)"

theorem announce_respects_quote_witness:
  "\<exists>old. map_of (quotes sample_quotes) ''q1'' = Some old \<and> q_now sample_quotes \<le> expiresAt old"
proof -
  let ?run = "announce_svc ''p'' (sample_announce\<lparr>in_quoteId := Some ''q1''\<rparr>)
    (Some sample_quotes, empty_db 100)"
  have "case fst ?run of Inr _ \<Rightarrow> True | Inl _ \<Rightarrow> False" by code_simp
  then obtain r q' d' where "?run = (Inr r, (q', d'))"
    by (cases ?run) (auto split: sum.splits)
  from announce_respects_quote [OF this, of "''q1''"] show ?thesis by auto
qed

end
