(* ===== verification/Sdk_Secrets.thy ===== *)
theory Sdk_Secrets
  imports OS_Prelude "HOL-Library.Word"
begin

text \<open>
  Secrets and hashlocks (\<open>packages/sdk/src/secrets/index.ts\<close>). Bytes are \<open>8 word\<close>. The hash
  functions of the library \<open>viem\<close> are parameters: \<open>sha256\<close> and \<open>keccak256\<close> map bytes to the text
  \<open>0x..\<close> of the digest. An error is its message.
\<close>

type_synonym bytes = "8 word list"

definition MAX_ORDER_ID :: int where
  "MAX_ORDER_ID = 2 ^ 256 - 1"

section \<open>Hexadecimal text\<close>

definition hex_digit :: "nat \<Rightarrow> char" where
  "hex_digit n = (if n < 10 then char_of (48 + n) else char_of (87 + n))"

definition hex_val :: "char \<Rightarrow> nat" where
  "hex_val c =
    (let n = of_char c
     in if n \<le> 57 then n - 48 else if n \<le> 70 then n - 55 else n - 87)"

text \<open>\<open>b.toString(16).padStart(2, "0")\<close>\<close>

definition byte_hex :: "8 word \<Rightarrow> string" where
  "byte_hex b = [hex_digit (unat b div 16), hex_digit (unat b mod 16)]"

definition uint8ToHex :: "bytes \<Rightarrow> string" where
  "uint8ToHex buf = ''0x'' @ concat (map byte_hex buf)"

fun hex_pairs :: "string \<Rightarrow> bytes" where
  "hex_pairs (a # b # cs) = word_of_nat (16 * hex_val a + hex_val b) # hex_pairs cs"
| "hex_pairs _ = []"

text \<open>For text made of hexadecimal digits, which every caller below has checked.\<close>

definition hexToUint8 :: "string \<Rightarrow> string + bytes" where
  "hexToUint8 hex =
    (let clean = (if take 2 hex = ''0x'' then drop 2 hex else hex)
     in if length clean mod 2 \<noteq> 0 then Inl ''hex string has odd length''
        else Inr (hex_pairs clean))"

text \<open>\<open>/^0x(?:[0-9a-fA-F]{2})+$/\<close>\<close>

definition is_hex_bytes :: "string \<Rightarrow> bool" where
  "is_hex_bytes s \<longleftrightarrow> take 2 s = ''0x'' \<and> list_all is_hex (drop 2 s) \<and>
    even (length s) \<and> 2 < length s"

section \<open>Secrets\<close>

record secret =
  sec_preimage :: string
  sec_sha256 :: string
  sec_keccak256 :: string

datatype secret_hash_algorithm = Sha256 | Keccak256

definition hashSecret :: "(bytes \<Rightarrow> string) \<Rightarrow> (bytes \<Rightarrow> string) \<Rightarrow> string \<Rightarrow> string + secret" where
  "hashSecret sha256 keccak256 preimage =
    (case hexToUint8 preimage of
       Inl e \<Rightarrow> Inl e
     | Inr bs \<Rightarrow> Inr \<lparr>sec_preimage = preimage, sec_sha256 = sha256 bs, sec_keccak256 = keccak256 bs\<rparr>)"

text \<open>\<open>generateSecret\<close> for the 32 random bytes \<open>rnd\<close> the environment supplies.\<close>

definition generateSecret :: "(bytes \<Rightarrow> string) \<Rightarrow> (bytes \<Rightarrow> string) \<Rightarrow> bytes \<Rightarrow> string + secret" where
  "generateSecret sha256 keccak256 rnd = hashSecret sha256 keccak256 (uint8ToHex rnd)"

text \<open>
  The loop \<open>for (index = 31; index >= 0; index--)\<close> stores the low byte and shifts the value: the
  first \<open>n\<close> bytes are those of the shifted value.
\<close>

fun be_bytes :: "nat \<Rightarrow> int \<Rightarrow> bytes" where
  "be_bytes 0 value = []"
| "be_bytes (Suc n) value = be_bytes n (value div 256) @ [word_of_int (value mod 256)]"

definition order_message :: "int \<Rightarrow> bytes \<Rightarrow> bytes" where
  "order_message orderId bs = be_bytes 32 orderId @ bs"

definition hashOrderPreimage :: "(bytes \<Rightarrow> string) \<Rightarrow> int \<Rightarrow> string \<Rightarrow> string + string" where
  "hashOrderPreimage sha256 orderId preimage =
    (if orderId < 0 \<or> orderId > MAX_ORDER_ID
     then Inl ''orderId must fit in an unsigned 256-bit integer''
     else if preimage = ''0x'' then Inl ''preimage must not be empty''
     else if \<not> is_hex_bytes preimage
     then Inl ''preimage must be non-empty, even-length hex bytes''
     else case hexToUint8 preimage of
       Inl e \<Rightarrow> Inl e
     | Inr bs \<Rightarrow>
         if length bs = 0 then Inl ''preimage must not be empty''
         else Inr (sha256 (order_message orderId bs)))"

text \<open>\<open>assertValidSecretFormat\<close> for a value that is a string.\<close>

definition assertValidSecretFormat :: "string \<Rightarrow> string \<Rightarrow> string + string" where
  "assertValidSecretFormat value fieldName =
    (if take 2 value \<noteq> ''0x'' then Inl (fieldName @ '' must start with \"0x\"'')
     else let hexPart = drop 2 value
       in if length hexPart \<noteq> 64
          then Inl (fieldName @ '' must be exactly 32 bytes (64 hex characters)'')
          else if \<not> list_all is_hex hexPart
          then Inl (fieldName @ '' contains invalid hex characters'')
          else if list_all (\<lambda>c. c = CHR ''0'') hexPart
          then Inl (fieldName @ '' must not be all zeros'')
          else Inr value)"

definition verifyPreimage :: "(bytes \<Rightarrow> string) \<Rightarrow> (bytes \<Rightarrow> string) \<Rightarrow> string \<Rightarrow> string
    \<Rightarrow> string + secret_hash_algorithm option" where
  "verifyPreimage sha256 keccak256 pre expected =
    (case assertValidSecretFormat pre ''preimage'' of
       Inl e \<Rightarrow> Inl e
     | Inr _ \<Rightarrow> (case assertValidSecretFormat expected ''hashlock'' of
         Inl e \<Rightarrow> Inl e
       | Inr _ \<Rightarrow> (case hashSecret sha256 keccak256 pre of
           Inl e \<Rightarrow> Inl e
         | Inr s \<Rightarrow>
             if sec_sha256 s = expected then Inr (Some Sha256)
             else if sec_keccak256 s = expected then Inr (Some Keccak256)
             else Inr None)))"

definition assertPreimageMatchesHashlock :: "(bytes \<Rightarrow> string) \<Rightarrow> (bytes \<Rightarrow> string) \<Rightarrow> string
    \<Rightarrow> string \<Rightarrow> string + secret_hash_algorithm" where
  "assertPreimageMatchesHashlock sha256 keccak256 pre hl =
    (case assertValidSecretFormat pre ''preimage'' of
       Inl e \<Rightarrow> Inl e
     | Inr p \<Rightarrow> (case assertValidSecretFormat hl ''hashlock'' of
         Inl e \<Rightarrow> Inl e
       | Inr h \<Rightarrow> (case verifyPreimage sha256 keccak256 p h of
           Inl e \<Rightarrow> Inl e
         | Inr None \<Rightarrow> Inl ''preimage does not match hashlock''
         | Inr (Some a) \<Rightarrow> Inr a)))"

section \<open>Lemmas\<close>

lemma hex_val_digit [simp]: "n < 16 \<Longrightarrow> hex_val (hex_digit n) = n"
  by (simp add: hex_val_def hex_digit_def)

lemma is_hex_digit [simp]: "n < 16 \<Longrightarrow> is_hex (hex_digit n)"
  by (auto simp: hex_digit_def is_hex_def is_lower_hex_def is_digit_def)

lemma length_byte_hex [simp]: "length (byte_hex b) = 2"
  by (simp add: byte_hex_def)

lemma unat_byte: "unat (b :: 8 word) < 256"
  using unsigned_less [of b] by simp

lemma hex_pairs_bytes: "hex_pairs (concat (map byte_hex bs)) = bs"
proof (induction bs)
  case (Cons b bs)
  have "unat b div 16 < 16" "unat b mod 16 < 16" using unat_byte [of b] by auto
  then have "16 * hex_val (hex_digit (unat b div 16)) + hex_val (hex_digit (unat b mod 16)) = unat b"
    by simp
  with Cons show ?case by (simp add: byte_hex_def)
qed simp

lemma length_concat_byte_hex [simp]: "length (concat (map byte_hex bs)) = 2 * length bs"
  by (induction bs) auto

lemma hex_concat_byte_hex: "list_all is_hex (concat (map byte_hex bs))"
proof (induction bs)
  case (Cons b bs)
  have "unat b div 16 < 16" "unat b mod 16 < 16" using unat_byte [of b] by auto
  with Cons show ?case by (simp add: byte_hex_def)
qed simp

lemma length_be_bytes [simp]: "length (be_bytes n v) = n"
  by (induction n arbitrary: v) auto

lemma byte_word_inj:
  assumes "(word_of_int (v mod 256) :: 8 word) = word_of_int (w mod 256)"
  shows "v mod 256 = w mod 256"
proof -
  have "uint (word_of_int (x mod 256) :: 8 word) = x mod 256" for x
    by (simp add: uint_word_of_int)
  with assms show ?thesis by metis
qed

lemma be_bytes_inj:
  "0 \<le> v \<Longrightarrow> v < 256 ^ n \<Longrightarrow> 0 \<le> w \<Longrightarrow> w < 256 ^ n \<Longrightarrow> be_bytes n v = be_bytes n w \<Longrightarrow> v = w"
proof (induction n arbitrary: v w)
  case (Suc n)
  from Suc.prems(5) have "be_bytes n (v div 256) = be_bytes n (w div 256)"
    and m: "v mod 256 = w mod 256"
    by (auto dest: byte_word_inj)
  moreover have "v div 256 < 256 ^ n" "w div 256 < 256 ^ n"
    using Suc.prems by simp_all
  ultimately have "v div 256 = w div 256"
    using Suc.prems by (intro Suc.IH) (simp_all add: pos_imp_zdiv_nonneg_iff)
  with m show ?case by (metis mult_div_mod_eq)
qed simp

lemma order_message_eq:
  assumes "0 \<le> i" "i \<le> MAX_ORDER_ID" "0 \<le> j" "j \<le> MAX_ORDER_ID"
    and eq: "order_message i bs = order_message j cs"
  shows "i = j \<and> bs = cs"
proof -
  from eq have "be_bytes 32 i = be_bytes 32 j" and bs: "bs = cs"
    by (simp_all add: order_message_def append_eq_append_conv)
  moreover have "i < 256 ^ 32" "j < 256 ^ 32"
    using assms by (simp_all add: MAX_ORDER_ID_def)
  ultimately show ?thesis using assms be_bytes_inj by blast
qed

lemma assertValid_Inr:
  "assertValidSecretFormat v f = Inr w \<longleftrightarrow>
    w = v \<and> is_0x_hex 64 v \<and> \<not> list_all (\<lambda>c. c = CHR ''0'') (drop 2 v)"
proof (cases "take 2 v = ''0x''")
  case True
  then have "length v = 66 \<longleftrightarrow> length (drop 2 v) = 64"
    by (cases v rule: list.exhaust; cases "tl v") auto
  with True show ?thesis
    by (auto simp: assertValidSecretFormat_def is_0x_hex_def Let_def)
qed (simp add: assertValidSecretFormat_def is_0x_hex_def)

lemma is_0x_hex_bytes: "is_0x_hex 64 v \<Longrightarrow> is_hex_bytes v"
  by (simp add: is_0x_hex_def is_hex_bytes_def)

lemma length_hex_pairs: "length (hex_pairs s) = length s div 2"
  by (induction s rule: hex_pairs.induct) auto

lemma hashOrderPreimage_valid:
  assumes "is_0x_hex 64 p" "0 \<le> i" "i \<le> MAX_ORDER_ID"
  shows "hashOrderPreimage sha i p = Inr (sha (order_message i (hex_pairs (drop 2 p))))"
proof -
  from assms(1) have p: "take 2 p = ''0x''" "length p = 66" "is_hex_bytes p"
    by (simp_all add: is_0x_hex_def is_0x_hex_bytes)
  then have "p \<noteq> ''0x''" "length (hex_pairs (drop 2 p)) = 32"
    by (auto simp: length_hex_pairs)
  with p assms show ?thesis
    by (auto simp: hashOrderPreimage_def hexToUint8_def)
qed

section \<open>Properties\<close>

text \<open>a hashlock binds the order id and the preimage. Two valid preimages that hash to the same
  hashlock have the same order id and the same bytes, or the two 64-byte messages that were hashed
  differ and are a collision of the hash function; so a preimage revealed for one order opens no
  other.\<close>

theorem hashOrderPreimage_binding:
  assumes "is_0x_hex 64 p" "0 \<le> i" "i \<le> MAX_ORDER_ID"
    and "is_0x_hex 64 q" "0 \<le> j" "j \<le> MAX_ORDER_ID"
    and "hashOrderPreimage sha i p = hashOrderPreimage sha j q"
  shows "i = j \<and> hex_pairs (drop 2 p) = hex_pairs (drop 2 q) \<or>
    (let m = order_message i (hex_pairs (drop 2 p)); m' = order_message j (hex_pairs (drop 2 q))
     in m \<noteq> m' \<and> length m = 64 \<and> length m' = 64 \<and> sha m = sha m')"
proof -
  have "sha (order_message i (hex_pairs (drop 2 p))) = sha (order_message j (hex_pairs (drop 2 q)))"
    using assms by (simp add: hashOrderPreimage_valid)
  moreover have "length (order_message k (hex_pairs (drop 2 r))) = 64" if "is_0x_hex 64 r" for k r
    using that by (simp add: order_message_def length_hex_pairs is_0x_hex_def)
  ultimately show ?thesis using assms order_message_eq unfolding Let_def by metis
qed

lemma uint8ToHex_inj: "inj uint8ToHex"
proof (rule injI)
  fix bs cs :: bytes
  assume "uint8ToHex bs = uint8ToHex cs"
  then have "concat (map byte_hex bs) = concat (map byte_hex cs)" by (simp add: uint8ToHex_def)
  then show "bs = cs" using hex_pairs_bytes by metis
qed

theorem hashOrderPreimage_binding_witness:
  "hashOrderPreimage uint8ToHex 1 (''0x'' @ replicate 64 CHR ''1'') \<noteq>
   hashOrderPreimage uint8ToHex 2 (''0x'' @ replicate 64 CHR ''1'')"
proof
  have p: "is_0x_hex 64 (''0x'' @ replicate 64 CHR ''1'')" by code_simp
  have "(1 :: int) \<le> MAX_ORDER_ID" "(2 :: int) \<le> MAX_ORDER_ID"
    by (simp_all add: MAX_ORDER_ID_def)
  moreover assume "hashOrderPreimage uint8ToHex 1 (''0x'' @ replicate 64 CHR ''1'') =
    hashOrderPreimage uint8ToHex 2 (''0x'' @ replicate 64 CHR ''1'')"
  ultimately show False
    using hashOrderPreimage_binding [OF p _ _ p, of 1 2 uint8ToHex] uint8ToHex_inj
    by (simp add: Let_def) (meson injD)
qed

text \<open>hexadecimal text and bytes. Decoding the text of a byte sequence gives the bytes back; a
  generated secret is well-formed text of 32 bytes, so its digests are defined, and its preimage
  decodes to exactly the random bytes it came from.\<close>

theorem generated_secret_roundtrip:
  "hexToUint8 (uint8ToHex bs) = Inr bs \<and>
   generateSecret sha kec bs = Inr \<lparr>sec_preimage = uint8ToHex bs, sec_sha256 = sha bs,
     sec_keccak256 = kec bs\<rparr> \<and>
   (is_0x_hex 64 (uint8ToHex bs) \<longleftrightarrow> length bs = 32)"
proof (intro conjI)
  show dec: "hexToUint8 (uint8ToHex bs) = Inr bs"
    by (simp add: hexToUint8_def uint8ToHex_def hex_pairs_bytes)
  then show "generateSecret sha kec bs = Inr \<lparr>sec_preimage = uint8ToHex bs, sec_sha256 = sha bs,
      sec_keccak256 = kec bs\<rparr>"
    by (simp add: generateSecret_def hashSecret_def)
  show "is_0x_hex 64 (uint8ToHex bs) \<longleftrightarrow> length bs = 32"
    using hex_concat_byte_hex [of bs] by (auto simp: is_0x_hex_def uint8ToHex_def)
qed

end
