(* ===== verification/Secret_Service.thy ===== *)
theory Secret_Service
  imports Order_Invariants Sdk_Secrets
begin

text \<open>
  The write path of a revealed preimage (\<open>coordinator/src/services/secret-service.ts\<close>):
  \<open>SecretService.reveal\<close> checks the format, the hashlock against every on-chain id of the order, the
  duplicate and the reuse rules, and the timelock window, and then asks the order service to record
  the secret. \<open>sha256\<close> is the digest of the library \<open>viem\<close>, a parameter; the clock is the reading
  of \<open>now()\<close> in milliseconds during the call.
\<close>

definition WINDOW_SRC_MESSAGE :: string where
  "WINDOW_SRC_MESSAGE = ''the source timelock window has expired''"

definition WINDOW_DST_MESSAGE :: string where
  "WINDOW_DST_MESSAGE = ''the destination timelock window has expired''"

definition assertInsideTimelockWindow ::
  "int \<Rightarrow> int option \<Rightarrow> int option \<Rightarrow> coord_error + unit" where
  "assertInsideTimelockWindow nowMs srcT dstT =
    (let nowSec = nowMs div 1000; verdict = evaluateSecretWindow srcT dstT nowSec
     in if sw_open verdict then Inr ()
        else Inl (SecretExpiredError (if sw_error verdict = Some DST_TIMELOCK_EXPIRED
               then WINDOW_DST_MESSAGE else WINDOW_SRC_MESSAGE)))"

text \<open>
  \<open>orderIds.some(..)\<close>: the first id that matches ends the search, an id that is not decimal is
  passed over, and \<open>hashOrderPreimage\<close> throws on an id that does not fit 256 bits.
\<close>

fun some_id_matches :: "(bytes \<Rightarrow> string) \<Rightarrow> string \<Rightarrow> string \<Rightarrow> string list \<Rightarrow> coord_error + bool" where
  "some_id_matches sha canonical h [] = Inr False"
| "some_id_matches sha canonical h (oid # oids) =
    (if \<not> is_decimal oid then some_id_matches sha canonical h oids
     else case hashOrderPreimage sha (int (parse_digits oid)) canonical of
       Inl e \<Rightarrow> Inl (PlainError e)
     | Inr d \<Rightarrow> if d = h then Inr True else some_id_matches sha canonical h oids)"

definition known_ids :: "order_row \<Rightarrow> string list" where
  "known_ids order = List.map_filter (\<lambda>x. x) [srcOrderId order, dstOrderId order]"

definition PREIMAGE_MISMATCH :: string where
  "PREIMAGE_MISMATCH = ''preimage does not match order hashlock''"

definition PREIMAGE_REUSED :: string where
  "PREIMAGE_REUSED = ''preimage already used in another order''"

definition SECRET_STORED :: string where
  "SECRET_STORED = ''a secret is already stored for this order''"

definition reveal_known :: "(bytes \<Rightarrow> string) \<Rightarrow> int \<Rightarrow> string \<Rightarrow> string \<Rightarrow> string \<Rightarrow> order_row
    \<Rightarrow> unit db_comp" where
  "reveal_known sha nowMs pid canonical txHash order =
    bindE (liftE (some_id_matches sha canonical (hashlock order) (known_ids order))) (\<lambda>matches.
      if \<not> matches then throw (PlainError PREIMAGE_MISMATCH)
      else case preimage order of
        Some stored \<Rightarrow>
          if stored = canonical then ret () else throw (SecretConflictError SECRET_STORED)
      | None \<Rightarrow> bindE (findByPreimage canonical) (\<lambda>existing.
          if (case existing of Some e \<Rightarrow> publicId e \<noteq> pid | None \<Rightarrow> False)
          then throw (PlainError PREIMAGE_REUSED)
          else thenE (liftE (assertInsideTimelockWindow nowMs (srcTimelock order)
                 (dstTimelock order)))
            (recordSecret pid canonical txHash None)))"

definition reveal :: "(bytes \<Rightarrow> string) \<Rightarrow> int \<Rightarrow> string \<Rightarrow> string \<Rightarrow> string \<Rightarrow> unit db_comp" where
  "reveal sha nowMs pid pre txHash =
    (case assertValidSecretFormat pre ''preimage'' of
       Inl e \<Rightarrow> throw (PlainError e)
     | Inr _ \<Rightarrow>
         bindE (findByPublicId pid) (\<lambda>found. case found of
           None \<Rightarrow> throw (PlainError (''unknown order '' @ pid))
         | Some order \<Rightarrow> reveal_known sha nowMs pid (toLowerCase pre) txHash order))"

definition get_secret :: "string \<Rightarrow> string option db_comp" where
  "get_secret pid = bindE (findByPublicId pid) (\<lambda>found.
     ret (case found of None \<Rightarrow> None | Some order \<Rightarrow> preimage order))"

section \<open>Which preimages open an order\<close>

text \<open>A preimage opens an order when one of its on-chain ids hashes with it to the hashlock.\<close>

definition opens :: "(bytes \<Rightarrow> string) \<Rightarrow> order_row \<Rightarrow> string \<Rightarrow> bool" where
  "opens sha r canonical \<longleftrightarrow> (\<exists>oid \<in> set (known_ids r). is_decimal oid \<and>
     hashOrderPreimage sha (int (parse_digits oid)) canonical = Inr (hashlock r))"

lemma set_known_ids:
  "oid \<in> set (known_ids r) \<longleftrightarrow> srcOrderId r = Some oid \<or> dstOrderId r = Some oid"
  by (auto simp: known_ids_def List.map_filter_simps split: option.splits)

lemma some_id_matches_True:
  "some_id_matches sha c h ids = Inr True \<Longrightarrow> \<exists>oid \<in> set ids. is_decimal oid \<and>
     hashOrderPreimage sha (int (parse_digits oid)) c = Inr h"
  by (induction sha c h ids rule: some_id_matches.induct)
    (auto split: if_splits sum.splits)

lemma some_id_matches_complete:
  assumes "oid \<in> set ids" "is_decimal oid"
    "hashOrderPreimage sha (int (parse_digits oid)) c = Inr h"
    and "\<And>oid. oid \<in> set ids \<Longrightarrow> is_decimal oid \<Longrightarrow> int (parse_digits oid) \<le> MAX_ORDER_ID"
    and "is_0x_hex 64 c"
  shows "some_id_matches sha c h ids = Inr True"
  using assms
proof (induction ids)
  case (Cons x xs)
  show ?case
  proof (cases "is_decimal x")
    case True
    then have "hashOrderPreimage sha (int (parse_digits x)) c =
        Inr (sha (order_message (int (parse_digits x)) (hex_pairs (drop 2 c))))"
      using Cons.prems by (intro hashOrderPreimage_valid) auto
    with True Cons show ?thesis by auto
  next
    case False
    with Cons show ?thesis by auto
  qed
qed simp

lemma opens_iff:
  assumes "is_0x_hex 64 c"
    and "\<And>oid. oid \<in> set (known_ids r) \<Longrightarrow> is_decimal oid \<Longrightarrow>
      int (parse_digits oid) \<le> MAX_ORDER_ID"
  shows "some_id_matches sha c (hashlock r) (known_ids r) = Inr True \<longleftrightarrow> opens sha r c"
  using some_id_matches_True some_id_matches_complete assms unfolding opens_def by blast

lemma findByPreimage_apply:
  "findByPreimage p s =
    (Inr (map_option rowToOrder (find (\<lambda>r. preimage r = Some p) (orders_tbl s))), s)"
  by (simp add: findByPreimage_def select_order_def)

text \<open>No other order of the store holds the preimage.\<close>

definition unused_by_others :: "string \<Rightarrow> string \<Rightarrow> coord_db \<Rightarrow> bool" where
  "unused_by_others pid c s \<longleftrightarrow>
    (case find (\<lambda>r. preimage r = Some c) (orders_tbl s) of
       None \<Rightarrow> True | Some d \<Rightarrow> publicId d = pid)"

lemma assertInside_Inr:
  "assertInsideTimelockWindow ms a b = Inr () \<longleftrightarrow>
    \<not> past_timelock a (ms div 1000) \<and> \<not> past_timelock b (ms div 1000)"
  using sw_open_iff [of a b "ms div 1000"]
  by (auto simp: assertInsideTimelockWindow_def Let_def)

text \<open>The one path on which \<open>reveal\<close> reaches the order service, and all the others.\<close>

lemma reveal_known_cases:
  obtains (stopped) e where "reveal_known sha ms pid c tx r s = (Inl e, s)"
  | (duplicate) "reveal_known sha ms pid c tx r s = (Inr (), s)" "preimage r = Some c"
      "some_id_matches sha c (hashlock r) (known_ids r) = Inr True"
  | (recorded) "some_id_matches sha c (hashlock r) (known_ids r) = Inr True" "preimage r = None" "unused_by_others pid c s"
      "\<not> past_timelock (srcTimelock r) (ms div 1000)"
      "\<not> past_timelock (dstTimelock r) (ms div 1000)"
      "reveal_known sha ms pid c tx r s = recordSecret pid c tx None s"
proof (cases "some_id_matches sha c (hashlock r) (known_ids r)")
  case (Inl e)
  then show ?thesis using stopped by (simp add: reveal_known_def bindE_apply)
next
  case (Inr b)
  show ?thesis
  proof (cases b)
    case False
    with Inr show ?thesis using stopped by (simp add: reveal_known_def bindE_apply)
  next
    case True
    with Inr have m: "some_id_matches sha c (hashlock r) (known_ids r) = Inr True" by simp
    show ?thesis
    proof (cases "preimage r")
      case (Some p)
      with m show ?thesis
        using stopped duplicate by (cases "p = c") (auto simp: reveal_known_def bindE_apply)
    next
      case None
      show ?thesis
      proof (cases "unused_by_others pid c s")
        case False
        then obtain d where "find (\<lambda>r. preimage r = Some c) (orders_tbl s) = Some d"
            "publicId d \<noteq> pid"
          by (auto simp: unused_by_others_def split: option.splits)
        with m None show ?thesis
          using stopped by (simp add: reveal_known_def bindE_apply findByPreimage_apply)
      next
        case True
        then have eq: "reveal_known sha ms pid c tx r s =
            (case assertInsideTimelockWindow ms (srcTimelock r) (dstTimelock r) of
               Inl e \<Rightarrow> (Inl e, s) | Inr _ \<Rightarrow> recordSecret pid c tx None s)"
          using m None by (auto simp: reveal_known_def bindE_apply thenE_apply findByPreimage_apply
              unused_by_others_def split: option.splits sum.splits)
        show ?thesis
        proof (cases "assertInsideTimelockWindow ms (srcTimelock r) (dstTimelock r)")
          case (Inl e)
          with eq show ?thesis using stopped by simp
        next
          case (Inr u)
          then have "assertInsideTimelockWindow ms (srcTimelock r) (dstTimelock r) = Inr ()"
            by simp
          with eq show ?thesis
            using recorded m None True by (simp add: assertInside_Inr)
        qed
      qed
    qed
  qed
qed

lemma reveal_cases:
  obtains (stopped) e where "reveal sha ms pid pre tx s = (Inl e, s)"
  | (duplicate) r where "reveal sha ms pid pre tx s = (Inr (), s)" "orders_view s pid = Some r"
      "preimage r = Some (toLowerCase pre)"
      "some_id_matches sha (toLowerCase pre) (hashlock r) (known_ids r) = Inr True"
  | (recorded) r where "orders_view s pid = Some r" "is_0x_hex 64 pre"
      "assertValidSecretFormat pre ''preimage'' = Inr pre"
      "some_id_matches sha (toLowerCase pre) (hashlock r) (known_ids r) = Inr True"
      "preimage r = None"
      "unused_by_others pid (toLowerCase pre) s"
      "\<not> past_timelock (srcTimelock r) (ms div 1000)"
      "\<not> past_timelock (dstTimelock r) (ms div 1000)"
      "reveal sha ms pid pre tx s = recordSecret pid (toLowerCase pre) tx None s"
proof (cases "assertValidSecretFormat pre ''preimage''")
  case (Inl e)
  then show ?thesis using stopped by (simp add: reveal_def)
next
  case fmt: (Inr w)
  then have hex: "is_0x_hex 64 pre" "assertValidSecretFormat pre ''preimage'' = Inr pre"
    by (simp_all add: assertValid_Inr)
  show ?thesis
  proof (cases "orders_view s pid")
    case None
    with fmt show ?thesis using stopped by (simp add: reveal_def bindE_apply)
  next
    case r: (Some r)
    have eq: "reveal sha ms pid pre tx s =
        reveal_known sha ms pid (toLowerCase pre) tx r s"
      using fmt r by (simp add: reveal_def bindE_apply)
    show ?thesis
      by (rule reveal_known_cases [of sha ms pid "toLowerCase pre" tx r s])
        (use eq r hex stopped duplicate recorded in auto)
  qed
qed

lemma reveal_eq_record:
  assumes "assertValidSecretFormat pre ''preimage'' = Inr pre" "orders_view s pid = Some r"
    and "some_id_matches sha (toLowerCase pre) (hashlock r) (known_ids r) = Inr True"
    and "preimage r = None" "unused_by_others pid (toLowerCase pre) s"
    and "\<not> past_timelock (srcTimelock r) (ms div 1000)"
      "\<not> past_timelock (dstTimelock r) (ms div 1000)"
  shows "reveal sha ms pid pre tx s = recordSecret pid (toLowerCase pre) tx None s"
proof -
  have "assertInsideTimelockWindow ms (srcTimelock r) (dstTimelock r) = Inr ()"
    using assms by (simp add: assertInside_Inr)
  with assms show ?thesis
    by (auto simp: reveal_def reveal_known_def bindE_apply thenE_apply findByPreimage_apply
        unused_by_others_def split: option.splits)
qed

text \<open>Whatever the order service keeps, the reveal path keeps.\<close>

context service_invariant
begin

lemma keeps_reveal: "keeps Q (reveal sha ms pid pre tx)"
proof (rule keepsI)
  fix s assume "Q s"
  then show "Q (snd (reveal sha ms pid pre tx s))"
    by (rule_tac reveal_cases [of sha ms pid pre tx s]) (use keepsD [OF Q_secret] in auto)
qed

end

section \<open>Properties\<close>

text \<open>What \<open>recordSecret\<close> does to an order without a preimage.\<close>

lemma recordSecret_result:
  assumes r: "orders_view s pid = Some r" and none: "preimage r = None"
  shows "(\<exists>t. recordSecret pid c tx w s = (Inr (), t) \<and> canTransition (status r) Secret_revealed \<and>
      orders_view t = (orders_view s)(pid \<mapsto> sql_updateSecret (toLowerCase c) tx (now_s s) r)) \<or>
    (\<exists>e t. recordSecret pid c tx w s = (Inl e, t) \<and> orders_view t = orders_view s \<and>
      \<not> canTransition (status r) Secret_revealed)"
proof (cases "canTransition (status r) Secret_revealed")
  case True
  with r show ?thesis
    using secret_edge.advance_legal [of s pid r "toLowerCase c" tx "Some tx" w]
    by (auto simp: recordSecret_request)
next
  case False
  then show ?thesis
    using r none by (cases "status r = Secret_revealed")
      (simp_all add: recordSecret_request advance_known [where r = r] same_step_def
        secret_edge.request_def)
qed

lemma known_ids_update [simp]: "known_ids (sql_updateSecret p tx n r) = known_ids r"
  by (simp add: known_ids_def sql_updateSecret_def)

lemma opens_update [simp]: "opens sha (sql_updateSecret p tx n r) c = opens sha r c"
  unfolding opens_def known_ids_update by (simp add: sql_updateSecret_def)

lemma preimage_update [simp]: "preimage (sql_updateSecret p tx n r) = Some p"
  by (simp add: sql_updateSecret_def)

text \<open>C5: a preimage that the reveal path stores is authentic. If an order without a preimage has one
  after \<open>reveal\<close>, it is the submitted text in lower case, a well-formed 32-byte value that hashes
  with one of the order's on-chain ids to its hashlock; no other order held it; the order was
  locked and is now \<open>secret_revealed\<close>; and neither timelock had passed.\<close>

theorem reveal_stores_authentic:
  assumes "orders_view s pid = Some r" "preimage r = None"
    and "orders_view (snd (reveal sha ms pid' pre tx s)) pid = Some r'" "preimage r' = Some p"
  shows "pid' = pid \<and> p = toLowerCase pre \<and> is_0x_hex 64 pre \<and> opens sha r p \<and>
    unused_by_others pid p s \<and> status r \<in> {Src_locked, Dst_locked} \<and>
    status r' = Secret_revealed \<and> sw_open (evaluateSecretWindow (srcTimelock r) (dstTimelock r)
      (ms div 1000))"
proof (rule reveal_cases [of sha ms pid' pre tx s])
  fix e assume "reveal sha ms pid' pre tx s = (Inl e, s)"
  with assms show ?thesis by simp
next
  fix q assume "reveal sha ms pid' pre tx s = (Inr (), s)"
  with assms show ?thesis by simp
next
  fix q assume q: "orders_view s pid' = Some q" "is_0x_hex 64 pre"
    "some_id_matches sha (toLowerCase pre) (hashlock q) (known_ids q) = Inr True"
    "preimage q = None" "unused_by_others pid' (toLowerCase pre) s"
    "\<not> past_timelock (srcTimelock q) (ms div 1000)" "\<not> past_timelock (dstTimelock q) (ms div 1000)"
    "reveal sha ms pid' pre tx s = recordSecret pid' (toLowerCase pre) tx None s"
  from recordSecret_result [OF q(1,4), of "toLowerCase pre" tx None] assms q(8)
  have "orders_view (snd (reveal sha ms pid' pre tx s)) =
      (orders_view s)(pid' \<mapsto> sql_updateSecret (toLowerCase pre) tx (now_s s) q)"
    and "canTransition (status q) Secret_revealed" by auto
  moreover from this assms have "pid' = pid" by (auto split: if_splits)
  ultimately show ?thesis
    using assms q some_id_matches_True [OF q(3)]
    by (auto simp: sw_open_iff edges_into opens_def)
qed

definition toy_sha :: "bytes \<Rightarrow> string" where
  "toy_sha bs = ''0x'' @ replicate 64 CHR ''1''"

definition sample_locked :: coord_db where
  "sample_locked = snd (recordSrcLock_svc 600 sample_lock sample_db)"

definition sample_pre :: string where
  "sample_pre = ''0x'' @ replicate 64 CHR ''2''"

definition sample_locked_row :: order_row where
  "sample_locked_row = the (orders_view sample_locked ''p'')"

lemma sample_locked_view: "orders_view sample_locked ''p'' = Some sample_locked_row"
proof -
  have "orders_view sample_locked ''p'' \<noteq> None" by code_simp
  then show ?thesis by (simp add: sample_locked_row_def)
qed

lemma sample_locked_facts:
  "status sample_locked_row = Src_locked" "preimage sample_locked_row = None"
  "srcTimelock sample_locked_row = Some 5000" "dstTimelock sample_locked_row = None"
  "known_ids sample_locked_row = [''7'']" "hashlock sample_locked_row = toy_sha []"
  "toLowerCase sample_pre = sample_pre" "is_0x_hex 64 sample_pre"
  "assertValidSecretFormat sample_pre ''preimage'' = Inr sample_pre"
  by code_simp+

lemma sample_opens: "opens toy_sha sample_locked_row sample_pre"
proof -
  have "hashOrderPreimage toy_sha 7 sample_pre = Inr (toy_sha [])" by code_simp
  moreover have "is_decimal ''7''" "int (parse_digits ''7'') = 7" by code_simp+
  ultimately show ?thesis
    unfolding opens_def by (simp add: sample_locked_facts)
qed

theorem reveal_stores_authentic_witness:
  "opens toy_sha sample_locked_row sample_pre \<and>
   sw_open (evaluateSecretWindow (srcTimelock sample_locked_row) (dstTimelock sample_locked_row) 3)"
proof -
  let ?t = "snd (reveal toy_sha 3000 ''p'' sample_pre ''0xcc'' sample_locked)"
  have "map_option preimage (orders_view ?t ''p'') = Some (Some sample_pre)" by code_simp
  then obtain r' where "orders_view ?t ''p'' = Some r'" "preimage r' = Some sample_pre" by auto
  from reveal_stores_authentic [OF sample_locked_view sample_locked_facts(2) this]
  show ?thesis by simp
qed

text \<open>C6: the reveal path accepts every authentic preimage in time that is new. For a locked order without a
  preimage, a well-formed value other than zero that opens the order under one of its on-chain ids, all of them in the range of order ids,
  is held by no other order and arrives before both timelocks have passed is stored in lower case with its transaction, the order becomes
  \<open>secret_revealed\<close>, no other order changes, and the audit trail grows by the event of this step.\<close>

theorem reveal_accepts_authentic:
  assumes r: "orders_view s pid = Some r" "status r \<in> {Src_locked, Dst_locked}" "preimage r = None"
    and pre: "is_0x_hex 64 pre" "\<not> list_all (\<lambda>c. c = CHR ''0'') (drop 2 pre)"
    and ids: "\<And>oid. oid \<in> set (known_ids r) \<Longrightarrow> is_decimal oid \<Longrightarrow>
      int (parse_digits oid) \<le> MAX_ORDER_ID"
    and opens: "opens sha r (toLowerCase pre)" and fresh: "unused_by_others pid (toLowerCase pre) s"
    and window: "sw_open (evaluateSecretWindow (srcTimelock r) (dstTimelock r) (ms div 1000))"
  shows "fst (reveal sha ms pid pre tx s) = Inr () \<and>
    orders_view (snd (reveal sha ms pid pre tx s)) =
      (orders_view s)(pid \<mapsto> sql_updateSecret (toLowerCase pre) tx (now_s s) r) \<and>
    events_tbl (snd (reveal sha ms pid pre tx s)) = events_tbl s @ [new_event s (rowId r) TRANSITION_SUMMARY_EVENT
      (Summary_payload (Some (status r)) Secret_revealed (Some tx) ''secret_revealed'')]"
proof -
  have lower: "is_0x_hex 64 (toLowerCase pre)" using pre(1) by simp
  have m: "some_id_matches sha (toLowerCase pre) (hashlock r) (known_ids r) = Inr True"
    using opens_iff [OF lower ids] opens by simp
  have "assertValidSecretFormat pre ''preimage'' = Inr pre"
    using pre by (simp add: assertValid_Inr)
  from reveal_eq_record [OF this r(1) m r(3) fresh]
  have "reveal sha ms pid pre tx s = recordSecret pid (toLowerCase pre) tx None s"
    using window by (simp add: sw_open_iff)
  moreover have "canTransition (status r) Secret_revealed" using r(2) by (auto simp: edges_into)
  ultimately show ?thesis
    using secret_edge.advance_legal [OF r(1), of "toLowerCase pre" tx "Some tx" None "Some (\<lambda>order. preimage order = Some (toLowerCase pre))"]
    by (auto simp: recordSecret_request)
qed

theorem reveal_accepts_authentic_witness:
  "fst (reveal toy_sha 3000 ''p'' sample_pre ''0xcc'' sample_locked) = Inr ()"
proof -
  have "unused_by_others ''p'' sample_pre sample_locked" by code_simp
  moreover have "\<not> list_all (\<lambda>c. c = CHR ''0'') (drop 2 sample_pre)" by code_simp
  moreover have "int (parse_digits ''7'') \<le> MAX_ORDER_ID" by code_simp
  moreover have "sw_open (evaluateSecretWindow (Some 5000) None (3000 div 1000))" by code_simp
  ultimately show ?thesis
    using reveal_accepts_authentic [of sample_locked "''p''" sample_locked_row sample_pre toy_sha
        3000 "''0xcc''"] sample_locked_view sample_opens
    by (simp add: sample_locked_facts)
qed

lemma reveal_stored:
  assumes "assertValidSecretFormat pre ''preimage'' = Inr pre" "orders_view s pid = Some r"
    and "preimage r = Some (toLowerCase pre)"
    and "some_id_matches sha (toLowerCase pre) (hashlock r) (known_ids r) = Inr True"
  shows "reveal sha ms pid pre tx s = (Inr (), s)"
  using assms by (simp add: reveal_def reveal_known_def bindE_apply)

lemma row_ids_update [simp]: "hashlock (sql_updateSecret p tx n r) = hashlock r"
  by (simp add: sql_updateSecret_def)

text \<open>re-relaying a stored secret is a no-op. After a successful \<open>reveal\<close>, submitting the same
  preimage again, in any case, with any transaction and at any later or earlier time, succeeds and
  leaves the whole store as it is: the first transaction stays.\<close>

theorem reveal_idempotent:
  assumes "reveal sha ms pid pre tx s = (Inr (), t)" "toLowerCase pre' = toLowerCase pre"
    and "assertValidSecretFormat pre' ''preimage'' = Inr pre'"
  shows "reveal sha ms' pid pre' tx' t = (Inr (), t)"
proof (rule reveal_cases [of sha ms pid pre tx s])
  fix e assume "reveal sha ms pid pre tx s = (Inl e, s)"
  with assms show ?thesis by simp
next
  fix r assume "reveal sha ms pid pre tx s = (Inr (), s)" "orders_view s pid = Some r"
    "preimage r = Some (toLowerCase pre)"
    "some_id_matches sha (toLowerCase pre) (hashlock r) (known_ids r) = Inr True"
  with assms show ?thesis by (simp add: reveal_stored)
next
  fix q assume q: "orders_view s pid = Some q" "preimage q = None"
    "some_id_matches sha (toLowerCase pre) (hashlock q) (known_ids q) = Inr True"
    "reveal sha ms pid pre tx s = recordSecret pid (toLowerCase pre) tx None s"
  from recordSecret_result [OF q(1,2), of "toLowerCase pre" tx None] assms(1) q(4)
  have "orders_view t pid = Some (sql_updateSecret (toLowerCase pre) tx (now_s s) q)" by auto
  with q(3) assms show ?thesis by (simp add: reveal_stored)
qed

theorem reveal_idempotent_witness:
  "reveal toy_sha 9000000 ''p'' sample_pre ''0xdd''
     (snd (reveal toy_sha 3000 ''p'' sample_pre ''0xcc'' sample_locked)) =
   (Inr (), snd (reveal toy_sha 3000 ''p'' sample_pre ''0xcc'' sample_locked))"
proof -
  have "fst (reveal toy_sha 3000 ''p'' sample_pre ''0xcc'' sample_locked) = Inr ()" by code_simp
  then have run: "reveal toy_sha 3000 ''p'' sample_pre ''0xcc'' sample_locked =
      (Inr (), snd (reveal toy_sha 3000 ''p'' sample_pre ''0xcc'' sample_locked))"
    by (simp add: prod_eq_iff)
  show ?thesis by (rule reveal_idempotent [OF run refl sample_locked_facts(9)])
qed

end
