(* ===== verification/Order_Events.thy ===== *)
theory Order_Events
  imports Order_Invariants Sdk_Secrets
begin

text \<open>
  The chain event bridge (\<open>coordinator/src/listeners/order-events.ts\<close>): \<open>OrderEventApplier\<close> maps a
  decoded lock, claim or refund of either chain to an edge of the order machine, and turns every
  exception into an outcome. Also the decoder of Soroban events
  (\<open>coordinator/src/listeners/soroban-events.ts\<close>) over the native values that the library
  \<open>@stellar/stellar-sdk\<close> hands it, and the two conversions of the Ethereum listener
  (\<open>coordinator/src/listeners/ethereum-listener.ts\<close>): \<open>handleCreated\<close>, which the catch-up after a
  restart uses for the escrows it missed.
\<close>

section \<open>Bridge events\<close>

datatype bridge_event_kind = Lock | Claim_event | Refund_event

record bridge_order_event =
  be_kind :: bridge_event_kind
  be_chain :: chain
  be_txHash :: string
  be_blockNumber :: int
  be_orderId :: "string option"
  be_hashlock :: "string option"
  be_timelock :: "int option"
  be_preimage :: "string option"

datatype bridge_event_outcome =
    Applied string
  | Ignored string
  | Rejected string order_failure_code string
  | Error_outcome string

text \<open>A string value is false in a condition when it is \<open>null\<close>, \<open>undefined\<close> or empty.\<close>

definition truthy :: "string option \<Rightarrow> string option" where
  "truthy v = (case v of None \<Rightarrow> None | Some s \<Rightarrow> if s = [] then None else Some s)"

lemma truthy_Some: "truthy v = Some s \<longleftrightarrow> v = Some s \<and> s \<noteq> []"
  by (auto simp: truthy_def split: option.splits)

definition applyLock :: "int \<Rightarrow> string \<Rightarrow> bridge_order_event \<Rightarrow> bridge_event_outcome db_comp" where
  "applyLock gap writer ev =
    (case truthy (map_option toLowerCase (be_hashlock ev)) of
       None \<Rightarrow> ret (Ignored ''lock event without a hashlock'')
     | Some h \<Rightarrow> bindE (findByHashlock h) (\<lambda>found. case found of
         None \<Rightarrow> ret (Ignored ''no local order for this hashlock'')
       | Some order \<Rightarrow> (case be_timelock ev of
           None \<Rightarrow> ret (Ignored ''lock event without a timelock'')
         | Some t \<Rightarrow> (case truthy (be_orderId ev) of
             None \<Rightarrow> ret (Ignored ''lock event without an order id'')
           | Some oid \<Rightarrow>
               thenE
                (if be_chain ev = srcChain order
                 then recordSrcLock_svc gap
                   \<lparr>sl_publicId = publicId order, sl_orderId = oid, sl_txHash = be_txHash ev,
                    sl_blockNumber = be_blockNumber ev, sl_timelock = t, sl_writer = Some writer\<rparr>
                 else recordDstLock_svc gap
                   \<lparr>sl_publicId = publicId order, sl_orderId = oid, sl_txHash = be_txHash ev,
                    sl_blockNumber = be_blockNumber ev, sl_timelock = t, sl_writer = Some writer,
                    dl_resolver = None\<rparr>)
                (ret (Applied (publicId order)))))))"

definition resolveOrder :: "bridge_order_event \<Rightarrow> order_row option db_comp" where
  "resolveOrder ev =
    (let by_hashlock = (case truthy (be_hashlock ev) of
           None \<Rightarrow> ret None
         | Some h \<Rightarrow> findByHashlock (toLowerCase h))
     in case truthy (be_orderId ev) of
       None \<Rightarrow> by_hashlock
     | Some oid \<Rightarrow> bindE (findBySrcOrderId (be_chain ev) oid) (\<lambda>asSource. case asSource of
         Some order \<Rightarrow> ret (Some order)
       | None \<Rightarrow> bindE (findByDstOrderId (be_chain ev) oid) (\<lambda>asDestination.
           case asDestination of Some order \<Rightarrow> ret (Some order) | None \<Rightarrow> by_hashlock)))"

definition NO_LOCAL_ORDER :: string where
  "NO_LOCAL_ORDER = ''no local order for this on-chain id''"

definition applyClaim :: "string \<Rightarrow> bridge_order_event \<Rightarrow> bridge_event_outcome db_comp" where
  "applyClaim writer ev = bindE (resolveOrder ev) (\<lambda>found. case found of
     None \<Rightarrow> ret (Ignored NO_LOCAL_ORDER)
   | Some order \<Rightarrow>
       thenE
        (case truthy (map_option toLowerCase (be_preimage ev)) of
           None \<Rightarrow> ret ()
         | Some p \<Rightarrow>
             if preimage order \<noteq> Some p
             then recordSecret (publicId order) p (be_txHash ev) (Some writer) else ret ())
        (thenE (recordClaim (publicId order) (be_txHash ev) (Some writer))
          (ret (Applied (publicId order)))))"

definition applyRefund :: "string \<Rightarrow> bridge_order_event \<Rightarrow> bridge_event_outcome db_comp" where
  "applyRefund writer ev = bindE (resolveOrder ev) (\<lambda>found. case found of
     None \<Rightarrow> ret (Ignored NO_LOCAL_ORDER)
   | Some order \<Rightarrow>
       thenE (recordRefund (publicId order) (be_txHash ev) (Some writer))
         (ret (Applied (publicId order))))"

fun outcome_of_error :: "coord_error \<Rightarrow> bridge_event_outcome" where
  "outcome_of_error (OrderTransitionRejectedError i) =
     Rejected (rj_publicId i) (rj_code i) (rj_reason i)"
| "outcome_of_error (OrderValidationError m c) = Ignored m"
| "outcome_of_error e = Error_outcome (error_message e)"

definition apply_event :: "int \<Rightarrow> string \<Rightarrow> bridge_order_event \<Rightarrow> bridge_event_outcome db_comp" where
  "apply_event gap writer ev = catchE
     (case be_kind ev of
        Lock \<Rightarrow> applyLock gap writer ev
      | Claim_event \<Rightarrow> applyClaim writer ev
      | Refund_event \<Rightarrow> applyRefund writer ev)
     (\<lambda>err. ret (outcome_of_error err))"

section \<open>Decoding Soroban events\<close>

text \<open>The values \<open>scValToNative\<close> produces for the events of the contract.\<close>

datatype native =
    NStr string
  | NBig int
  | NNum int
  | NBytes "8 word list"
  | NArr "native list"
  | NOther

definition native_is_0x :: "string \<Rightarrow> bool" where
  "native_is_0x s \<longleftrightarrow> take 2 s = ''0x'' \<and> list_all is_hex (drop 2 s)"

fun toHex_native :: "native \<Rightarrow> string option" where
  "toHex_native (NBytes bs) = Some (uint8ToHex bs)"
| "toHex_native (NStr s) = (if native_is_0x s then Some s else None)"
| "toHex_native _ = None"

fun toDecimalId :: "native \<Rightarrow> string option" where
  "toDecimalId (NBig n) = Some (show_int n)"
| "toDecimalId (NNum n) = Some (show_int n)"
| "toDecimalId (NStr s) = (if is_decimal s then Some s else None)"
| "toDecimalId _ = None"

fun toUnixSeconds :: "native \<Rightarrow> int option" where
  "toUnixSeconds (NBig n) = Some n"
| "toUnixSeconds (NNum n) = Some n"
| "toUnixSeconds _ = None"

fun decodeArray :: "native \<Rightarrow> native list" where
  "decodeArray (NArr xs) = xs"
| "decodeArray v = [v]"

text \<open>Reading an array out of range yields \<open>undefined\<close>, which every converter maps to \<open>null\<close>.\<close>

definition nth_native :: "native list \<Rightarrow> nat \<Rightarrow> native" where
  "nth_native xs i = (if i < length xs then xs ! i else NOther)"

record raw_soroban_event =
  se_topic :: "native list"
  se_value :: native
  se_txHash :: string
  se_ledger :: int

text \<open>
  \<open>decode\<close> is what remains after \<open>scValToNative\<close>; its exception, on XDR the library cannot read, is
  the value \<open>None\<close> of the argument.
\<close>

definition decodeSorobanOrderEvent :: "raw_soroban_event option \<Rightarrow> bridge_order_event option" where
  "decodeSorobanOrderEvent decoded = (case decoded of None \<Rightarrow> None | Some raw \<Rightarrow>
    (let topics = se_topic raw; data = decodeArray (se_value raw)
     in case nth_native topics 0 of
       NStr name \<Rightarrow>
         if name = ''created'' then Some
           \<lparr>be_kind = Lock, be_chain = Stellar, be_txHash = se_txHash raw,
            be_blockNumber = se_ledger raw, be_orderId = toDecimalId (nth_native data 0),
            be_hashlock = toHex_native (nth_native topics 3),
            be_timelock = toUnixSeconds (nth_native data 4), be_preimage = None\<rparr>
         else if name = ''claimed'' then Some
           \<lparr>be_kind = Claim_event, be_chain = Stellar, be_txHash = se_txHash raw,
            be_blockNumber = se_ledger raw, be_orderId = toDecimalId (nth_native data 0),
            be_hashlock = toHex_native (nth_native topics 2), be_timelock = None,
            be_preimage = toHex_native (nth_native data 2)\<rparr>
         else if name = ''refunded'' then Some
           \<lparr>be_kind = Refund_event, be_chain = Stellar, be_txHash = se_txHash raw,
            be_blockNumber = se_ledger raw, be_orderId = toDecimalId (nth_native data 0),
            be_hashlock = toHex_native (nth_native topics 2), be_timelock = None,
            be_preimage = None\<rparr>
         else None
     | _ \<Rightarrow> None))"

section \<open>The catch-up of the Ethereum listener\<close>

text \<open>
  \<open>handleCreated\<close>, with its \<open>catch\<close> that only logs. The chain of the order is not consulted: every
  escrow found during the catch-up is recorded as the source lock.
\<close>

definition handleCreated :: "int \<Rightarrow> string \<Rightarrow> int \<Rightarrow> int \<Rightarrow> string \<Rightarrow> int \<Rightarrow> unit db_comp" where
  "handleCreated gap h oid timelock txHash blockNumber = catchE
     (bindE (findByHashlock h) (\<lambda>found. case found of
        None \<Rightarrow> ret ()
      | Some order \<Rightarrow> recordSrcLock_svc gap
          \<lparr>sl_publicId = publicId order, sl_orderId = show_int oid, sl_txHash = txHash,
           sl_blockNumber = blockNumber, sl_timelock = timelock, sl_writer = None\<rparr>))
     (\<lambda>_. ret ())"

section \<open>What the bridge keeps\<close>

lemma findBy_simps [simp]:
  "findByHashlock h s = (Inr (map_option rowToOrder (find (\<lambda>r. hashlock r = h) (orders_tbl s))), s)"
  "findBySrcOrderId c i s = (Inr (map_option rowToOrder
     (find (\<lambda>r. srcChain r = c \<and> srcOrderId r = Some i) (orders_tbl s))), s)"
  "findByDstOrderId c i s = (Inr (map_option rowToOrder
     (find (\<lambda>r. dstChain r = c \<and> dstOrderId r = Some i) (orders_tbl s))), s)"
  by (simp_all add: findByHashlock_def findBySrcOrderId_def findByDstOrderId_def select_order_def)

lemma apply_event_total: "\<exists>out. fst (apply_event gap w ev s) = Inr out"
  by (auto simp: apply_event_def catchE_apply split: prod.splits sum.splits)

lemma keeps_select [keeps_rules]: "keeps P (select_order f)"
  "keeps P (findByHashlock h)" "keeps P (findBySrcOrderId c i)" "keeps P (findByDstOrderId c i)"
  "keeps P (findByPublicId pid)" "keeps P (findByPreimage p)"
  by (simp_all add: select_order_def findByHashlock_def findBySrcOrderId_def findByDstOrderId_def
      findByPublicId_def findByPreimage_def keeps_gets)

text \<open>Whatever the order service keeps, the event bridge and the catch-up keep.\<close>

context service_invariant
begin

lemma keeps_resolveOrder: "keeps Q (resolveOrder ev)"
  unfolding resolveOrder_def Let_def by (intro keeps_rules)

lemma keeps_apply_event: "keeps Q (apply_event gap w ev)"
  unfolding apply_event_def applyLock_def applyClaim_def applyRefund_def
  by (cases "be_kind ev") (auto intro!: keeps_rules keeps_resolveOrder Q_rules)

lemma keeps_handleCreated: "keeps Q (handleCreated gap h oid t tx b)"
  unfolding handleCreated_def by (intro keeps_rules Q_rules)

end

section \<open>Outcomes\<close>

lemma service_error_view:
  "fst (run_service gap c s) = Inl e \<Longrightarrow> orders_view (snd (run_service gap c s)) = orders_view s"
  unfolding run_service.simps
  by (cases c) (simp_all add: service_requests src_edge.advance_view_eq dst_edge.advance_view_eq
      secret_edge.advance_view_eq status_edge.advance_view_eq [where a = Claim, simplified]
      status_edge.advance_view_eq [where a = Refund, simplified])

lemma service_error_known:
  "fst (run_service gap c s) = Inr u \<Longrightarrow> \<exists>r. orders_view s (call_order c) = Some r"
  by (cases "orders_view s (call_order c)"; cases c)
    (auto simp: recordSrcLock_svc_def recordDstLock_svc_def recordSecret_def recordClaim_def
      recordRefund_def Let_def advance_unknown)

lemma resolveOrder_pure: "\<exists>x. resolveOrder ev s = (Inr x, s)"
  by (auto simp: resolveOrder_def Let_def bindE_apply split: option.splits)

text \<open>A successful secret leaves the order ready to be claimed.\<close>

lemma claim_after_secret:
  assumes "recordSecret pid p tx w s = (Inr (), t)"
  shows "fst (recordClaim pid tx' w' t) = Inr ()"
proof -
  from service_error_known [of gap "Do_secret pid p tx w" s] assms obtain r where
    r: "orders_view s pid = Some r" by auto
  from run_service_refines [of s "Do_secret pid p tx w" r] r assms
  have "\<exists>r'. orders_view t pid = Some r' \<and> status r' = Secret_revealed"
    by (auto simp: took_edge_def stuttered_def lifecycle_step_iff)
  then obtain r' where r': "orders_view t pid = Some r'" "status r' = Secret_revealed" by blast
  then have "canTransition (status r') (targetOf Claim)" by (simp add: edges_into)
  from status_edge.advance_legal [OF r'(1) this refl, of "Some tx'" "Some tx'" w' "Some (\<lambda>_. True)"]
  show ?thesis by (auto simp: recordClaim_request)
qed

definition is_applied :: "bridge_event_outcome \<Rightarrow> bool" where
  "is_applied out \<longleftrightarrow> (case out of Applied _ \<Rightarrow> True | _ \<Rightarrow> False)"

text \<open>A handler that either reports success or leaves the orders as they were.\<close>

definition all_or_nothing :: "bridge_event_outcome db_comp \<Rightarrow> coord_db \<Rightarrow> bool" where
  "all_or_nothing m s \<longleftrightarrow>
    (case m s of (Inr out, t) \<Rightarrow> is_applied out \<or> orders_view t = orders_view s
     | (Inl _, t) \<Rightarrow> orders_view t = orders_view s)"

lemma all_or_nothing_ret: "all_or_nothing (ret out) s"
  by (simp add: all_or_nothing_def)

lemma all_or_nothing_call:
  assumes "m = run_service gap c"
  shows "all_or_nothing (thenE m (ret (Applied pid))) s"
proof -
  obtain x t where run: "m s = (x, t)" by fastforce
  then show ?thesis
    using service_error_view [of gap c s] assms
    by (cases x) (simp_all add: all_or_nothing_def thenE_apply is_applied_def)
qed

lemma applyLock_all_or_nothing: "all_or_nothing (applyLock gap w ev) s"
proof -
  have src: "all_or_nothing (thenE (recordSrcLock_svc gap i) (ret (Applied pid))) s" for i pid
    by (rule all_or_nothing_call [of _ gap "Do_src_lock i"]) simp
  have dst: "all_or_nothing (thenE (recordDstLock_svc gap i) (ret (Applied pid))) s" for i pid
    by (rule all_or_nothing_call [of _ gap "Do_dst_lock i"]) simp
  let ?k = "\<lambda>order. case be_timelock ev of
      None \<Rightarrow> ret (Ignored ''lock event without a timelock'')
    | Some t \<Rightarrow> (case truthy (be_orderId ev) of
        None \<Rightarrow> ret (Ignored ''lock event without an order id'')
      | Some oid \<Rightarrow> thenE
          (if be_chain ev = srcChain order
           then recordSrcLock_svc gap
             \<lparr>sl_publicId = publicId order, sl_orderId = oid, sl_txHash = be_txHash ev,
              sl_blockNumber = be_blockNumber ev, sl_timelock = t, sl_writer = Some w\<rparr>
           else recordDstLock_svc gap
             \<lparr>sl_publicId = publicId order, sl_orderId = oid, sl_txHash = be_txHash ev,
              sl_blockNumber = be_blockNumber ev, sl_timelock = t, sl_writer = Some w,
              dl_resolver = None\<rparr>)
          (ret (Applied (publicId order))))"
  have k: "all_or_nothing (?k order) s" for order
    using src dst by (simp add: all_or_nothing_ret split: option.split)
  show ?thesis
  proof (cases "truthy (map_option toLowerCase (be_hashlock ev))")
    case None
    then show ?thesis by (simp add: applyLock_def all_or_nothing_ret)
  next
    case (Some h)
    then have "applyLock gap w ev s =
        (case find (\<lambda>r. hashlock r = h) (orders_tbl s) of
           None \<Rightarrow> ret (Ignored ''no local order for this hashlock'') s
         | Some d \<Rightarrow> ?k (rowToOrder d) s)"
      by (simp add: applyLock_def bindE_apply split: option.split)
    then show ?thesis
      using k all_or_nothing_ret
      by (cases "find (\<lambda>r. hashlock r = h) (orders_tbl s)")
        (simp_all add: all_or_nothing_def)
  qed
qed

lemma applyRefund_all_or_nothing: "all_or_nothing (applyRefund w ev) s"
proof -
  have refund: "all_or_nothing (thenE (recordRefund pid tx (Some w)) (ret (Applied pid))) s" for pid tx
    by (rule all_or_nothing_call [of _ gap "Do_refund pid tx (Some w)"]) simp
  obtain x where x: "resolveOrder ev s = (Inr x, s)" using resolveOrder_pure by blast
  have "applyRefund w ev s = (case x of None \<Rightarrow> ret (Ignored NO_LOCAL_ORDER)
    | Some r \<Rightarrow> thenE (recordRefund (publicId r) (be_txHash ev) (Some w))
        (ret (Applied (publicId r)))) s"
    using x by (simp add: applyRefund_def bindE_apply)
  then show ?thesis
    using refund by (cases x) (simp_all add: all_or_nothing_def)
qed

lemma applyClaim_all_or_nothing: "all_or_nothing (applyClaim w ev) s"
proof -
  have claim: "all_or_nothing (thenE (recordClaim pid tx (Some w)) (ret (Applied pid))) s" for pid tx
    by (rule all_or_nothing_call [of _ gap "Do_claim pid tx (Some w)"]) simp
  have secret: "all_or_nothing (thenE (recordSecret pid p tx (Some w))
      (thenE (recordClaim pid tx (Some w)) (ret (Applied pid)))) s" for pid p tx
  proof -
    obtain x t where run: "recordSecret pid p tx (Some w) s = (x, t)" by fastforce
    show ?thesis
    proof (cases x)
      case (Inl e)
      with run show ?thesis
        using service_error_view [of gap "Do_secret pid p tx (Some w)" s e]
        by (simp add: all_or_nothing_def thenE_apply)
    next
      case (Inr u)
      then have "fst (recordClaim pid tx (Some w) t) = Inr ()"
        using claim_after_secret [of pid p tx "Some w" s t tx "Some w"] run by simp
      then obtain t' where "recordClaim pid tx (Some w) t = (Inr (), t')"
        by (cases "recordClaim pid tx (Some w) t") simp
      with run Inr show ?thesis by (simp add: all_or_nothing_def thenE_apply is_applied_def)
    qed
  qed
  have skip: "thenE (ret ()) m = m" for m :: "bridge_event_outcome db_comp"
    by (simp add: thenE_def)
  obtain x where x: "resolveOrder ev s = (Inr x, s)" using resolveOrder_pure by blast
  have "applyClaim w ev s = (case x of None \<Rightarrow> ret (Ignored NO_LOCAL_ORDER)
    | Some r \<Rightarrow> thenE
        (case truthy (map_option toLowerCase (be_preimage ev)) of None \<Rightarrow> ret ()
         | Some p \<Rightarrow> if preimage r \<noteq> Some p
             then recordSecret (publicId r) p (be_txHash ev) (Some w) else ret ())
        (thenE (recordClaim (publicId r) (be_txHash ev) (Some w)) (ret (Applied (publicId r))))) s"
    using x by (simp add: applyClaim_def bindE_apply split: option.split)
  then show ?thesis
    using claim secret
    by (cases x; cases "truthy (map_option toLowerCase (be_preimage ev))")
      (simp_all add: skip all_or_nothing_def)
qed

section \<open>Properties\<close>

text \<open>the event bridge never throws and never applies an event by halves. Every event of either
  chain yields an outcome; unless the outcome is \<open>applied\<close>, no order has changed, also when a claim
  would first have recorded the preimage it carries.\<close>

theorem bridge_event_atomic:
  "\<exists>out. fst (apply_event gap w ev s) = Inr out \<and>
    (is_applied out \<or> orders_view (snd (apply_event gap w ev s)) = orders_view s)"
proof -
  let ?m = "case be_kind ev of Lock \<Rightarrow> applyLock gap w ev | Claim_event \<Rightarrow> applyClaim w ev
    | Refund_event \<Rightarrow> applyRefund w ev"
  have "all_or_nothing ?m s"
    by (cases "be_kind ev") (simp_all add: applyLock_all_or_nothing applyClaim_all_or_nothing
        applyRefund_all_or_nothing)
  moreover obtain x t where "?m s = (x, t)" by fastforce
  ultimately show ?thesis
    by (cases x) (simp_all add: all_or_nothing_def apply_event_def catchE_apply)
qed

section \<open>Legs\<close>

lemma view_of_found:
  "db_ok s \<Longrightarrow> find P (orders_tbl s) = Some d \<Longrightarrow> orders_view s (publicId d) = Some (rowToOrder d)"
  by (auto simp: orders_view_def db_ok_defs find_distinct_key dest!: find_SomeD)

definition same_src_leg :: "order_row \<Rightarrow> order_row \<Rightarrow> bool" where
  "same_src_leg r r' \<longleftrightarrow> srcOrderId r' = srcOrderId r \<and> srcLockTx r' = srcLockTx r \<and>
     srcLockBlock r' = srcLockBlock r \<and> srcTimelock r' = srcTimelock r"

definition same_dst_leg :: "order_row \<Rightarrow> order_row \<Rightarrow> bool" where
  "same_dst_leg r r' \<longleftrightarrow> dstOrderId r' = dstOrderId r \<and> dstLockTx r' = dstLockTx r \<and>
     dstLockBlock r' = dstLockBlock r \<and> dstTimelock r' = dstTimelock r"

lemma same_leg_refl [simp]: "same_src_leg r r" "same_dst_leg r r"
  by (simp_all add: same_src_leg_def same_dst_leg_def)

lemma src_lock_row:
  assumes "orders_view s pid = Some r" "orders_view (snd (recordSrcLock_svc gap i s)) pid = Some r'"
  shows "same_dst_leg r r'"
proof (cases "pid = sl_publicId i")
  case False
  with assms show ?thesis using run_service_other [of pid "Do_src_lock i" gap s] by simp
next
  case True
  with assms have r: "orders_view s (sl_publicId i) = Some r" by simp
  from run_service_row [of s "Do_src_lock i" r gap] assms True show ?thesis
    by (auto simp: sql_updateSrcLock_def same_dst_leg_def)
qed

lemma dst_lock_row:
  assumes "orders_view s pid = Some r" "orders_view (snd (recordDstLock_svc gap i s)) pid = Some r'"
  shows "same_src_leg r r'"
proof (cases "pid = sl_publicId i")
  case False
  with assms show ?thesis using run_service_other [of pid "Do_dst_lock i" gap s] by simp
next
  case True
  with assms have r: "orders_view s (sl_publicId i) = Some r" by simp
  from run_service_row [of s "Do_dst_lock i" r gap] assms True show ?thesis
    by (auto simp: sql_updateDstLock_def same_src_leg_def)
qed

lemma apply_lock_run:
  assumes "be_kind ev = Lock"
  shows "orders_view (snd (apply_event gap w ev s)) = orders_view s \<or>
    (\<exists>d i. d \<in> set (orders_tbl s) \<and> sl_publicId i = publicId d \<and> be_chain ev = srcChain d \<and>
       orders_view (snd (apply_event gap w ev s)) = orders_view (snd (recordSrcLock_svc gap i s))) \<or>
    (\<exists>d i. d \<in> set (orders_tbl s) \<and> sl_publicId i = publicId d \<and> be_chain ev \<noteq> srcChain d \<and>
       orders_view (snd (apply_event gap w ev s)) = orders_view (snd (recordDstLock_svc gap i s)))"
proof -
  have eq: "snd (apply_event gap w ev s) = snd (applyLock gap w ev s)"
    using assms by (auto simp: apply_event_def catchE_apply split: prod.splits sum.splits)
  have drop: "snd (thenE m (ret x) s) = snd (m s)" for m :: "unit db_comp" and x :: bridge_event_outcome
    by (auto simp: thenE_apply split: prod.splits sum.splits)
  show ?thesis
  proof (cases "truthy (map_option toLowerCase (be_hashlock ev))")
    case None
    then show ?thesis unfolding eq by (simp add: applyLock_def)
  next
    case (Some h)
    show ?thesis
    proof (cases "find (\<lambda>r. hashlock r = h) (orders_tbl s)")
      case None
      with Some show ?thesis unfolding eq by (simp add: applyLock_def bindE_apply)
    next
      case found: (Some d)
      then have d: "d \<in> set (orders_tbl s)" by (auto dest: find_SomeD)
      show ?thesis
      proof (cases "be_timelock ev = None \<or> truthy (be_orderId ev) = None")
        case True
        with Some found show ?thesis unfolding eq
          by (auto simp: applyLock_def bindE_apply split: option.splits)
      next
        case False
        then obtain t oid where "be_timelock ev = Some t" "truthy (be_orderId ev) = Some oid"
          by auto
        note run = this Some found
        show ?thesis
        proof (cases "be_chain ev = srcChain d")
          case True
          let ?i = "\<lparr>sl_publicId = publicId d, sl_orderId = oid, sl_txHash = be_txHash ev,
            sl_blockNumber = be_blockNumber ev, sl_timelock = t, sl_writer = Some w\<rparr>"
          have "snd (applyLock gap w ev s) = snd (recordSrcLock_svc gap ?i s)"
            using True run by (simp add: applyLock_def bindE_apply drop)
          then show ?thesis unfolding eq using d True
            by (intro disjI2 disjI1 exI [of _ d] exI [of _ ?i]) simp
        next
          case False
          let ?i = "\<lparr>sl_publicId = publicId d, sl_orderId = oid, sl_txHash = be_txHash ev,
            sl_blockNumber = be_blockNumber ev, sl_timelock = t, sl_writer = Some w,
            dl_resolver = None\<rparr>"
          have "snd (applyLock gap w ev s) = snd (recordDstLock_svc gap ?i s)"
            using False run by (simp add: applyLock_def bindE_apply drop)
          then show ?thesis unfolding eq using d False
            by (intro disjI2 exI [of _ d] exI [of _ ?i]) simp
        qed
      qed
    qed
  qed
qed

text \<open>a creation event writes the leg of the chain that emitted it and never the other. After a
  lock event the destination columns of every order whose source chain emitted it are as before,
  and so are the source columns of every other order.\<close>

theorem lock_event_keeps_other_leg:
  assumes ok: "db_ok s" and lock: "be_kind ev = Lock" and r: "orders_view s pid = Some r"
    and r': "orders_view (snd (apply_event gap w ev s)) pid = Some r'"
  shows "if be_chain ev = srcChain r then same_dst_leg r r' else same_src_leg r r'"
proof -
  have known: "srcChain d = srcChain r" if "d \<in> set (orders_tbl s)" "pid = publicId d" for d
  proof -
    have "orders_view s (publicId d) = Some (rowToOrder d)"
      using ok that(1) by (simp add: orders_view_def db_ok_defs find_distinct_key)
    with r that show ?thesis by auto
  qed
  from apply_lock_run [OF lock, of gap w s] consider
      (none) "orders_view (snd (apply_event gap w ev s)) = orders_view s"
    | (src) d i where "d \<in> set (orders_tbl s)" "sl_publicId i = publicId d"
        "be_chain ev = srcChain d" "orders_view (snd (apply_event gap w ev s)) =
          orders_view (snd (recordSrcLock_svc gap i s))"
    | (dst) d i where "d \<in> set (orders_tbl s)" "sl_publicId i = publicId d"
        "be_chain ev \<noteq> srcChain d" "orders_view (snd (apply_event gap w ev s)) =
          orders_view (snd (recordDstLock_svc gap i s))"
    by blast
  then show ?thesis
  proof cases
    case none
    with r r' show ?thesis by simp
  next
    case src
    show ?thesis
    proof (cases "pid = publicId d")
      case True
      with src known r r' show ?thesis by (simp add: src_lock_row [OF r])
    next
      case False
      with src r r' show ?thesis using run_service_other [of pid "Do_src_lock i" gap s] by simp
    qed
  next
    case dst
    show ?thesis
    proof (cases "pid = publicId d")
      case True
      with dst known r r' show ?thesis by (simp add: dst_lock_row [OF r])
    next
      case False
      with dst r r' show ?thesis using run_service_other [of pid "Do_dst_lock i" gap s] by simp
    qed
  qed
qed

definition sample_lock_event :: "chain \<Rightarrow> bridge_order_event" where
  "sample_lock_event c = \<lparr>be_kind = Lock, be_chain = c, be_txHash = ''0xaa'', be_blockNumber = 12,
     be_orderId = Some ''7'', be_hashlock = Some (''0x'' @ replicate 64 CHR ''1''),
     be_timelock = Some 5000, be_preimage = None\<rparr>"

theorem lock_event_keeps_other_leg_witness:
  "\<exists>r'. orders_view (snd (apply_event 600 ''l'' (sample_lock_event Ethereum) sample_db)) ''p'' =
     Some r' \<and> status r' = Src_locked \<and> same_dst_leg sample_row r'"
proof -
  let ?t = "snd (apply_event 600 ''l'' (sample_lock_event Ethereum) sample_db)"
  have "map_option status (orders_view ?t ''p'') = Some Src_locked" by code_simp
  then obtain r' where r': "orders_view ?t ''p'' = Some r'" "status r' = Src_locked" by auto
  have "be_kind (sample_lock_event Ethereum) = Lock" "sample_db = sample_db"
    "be_chain (sample_lock_event Ethereum) = srcChain sample_row" by code_simp+
  with lock_event_keeps_other_leg [OF sample_db_ok _ _ r'(1), of sample_row] r' sample_view
  show ?thesis by simp
qed

text \<open>the catch-up after a restart mislabels escrows. For an announced order whose source chain is
  Stellar, the live path refuses the Ethereum creation event and leaves every order alone, while
  \<open>handleCreated\<close> records the same Ethereum escrow as the order's source lock.\<close>

theorem catch_up_crosses_legs:
  assumes found: "find (\<lambda>d. hashlock d = h) (orders_tbl s) = Some d"
    and view: "orders_view s (publicId d) = Some (rowToOrder d)"
    and row: "status d = Announced" "srcChain d = Stellar" "dstTimelock d = None"
    and h: "toLowerCase h = h" "h \<noteq> []"
  shows "orders_view (snd (apply_event gap w \<lparr>be_kind = Lock, be_chain = Ethereum, be_txHash = tx,
        be_blockNumber = b, be_orderId = Some (show_int oid), be_hashlock = Some h,
        be_timelock = Some t, be_preimage = None\<rparr> s)) = orders_view s \<and>
    orders_view (snd (handleCreated gap h oid t tx b s)) = (orders_view s)
      (publicId d \<mapsto> sql_updateSrcLock (show_int oid) tx b t (now_s s) (rowToOrder d))"
proof
  let ?i = "\<lparr>sl_publicId = publicId d, sl_orderId = show_int oid, sl_txHash = tx,
    sl_blockNumber = b, sl_timelock = t, sl_writer = None\<rparr>"
  from run_service_legal [of s "Do_src_lock ?i" "rowToOrder d" gap] view row
  have "orders_view (snd (recordSrcLock_svc gap ?i s)) =
    (orders_view s)(publicId d \<mapsto> sql_updateSrcLock (show_int oid) tx b t (now_s s) (rowToOrder d))"
    by (auto simp: edges_into src_lock_guard_def)
  moreover have "snd (handleCreated gap h oid t tx b s) = snd (recordSrcLock_svc gap ?i s)"
    using found by (auto simp: handleCreated_def catchE_apply bindE_apply
        split: prod.splits sum.splits)
  ultimately show "orders_view (snd (handleCreated gap h oid t tx b s)) = (orders_view s)
      (publicId d \<mapsto> sql_updateSrcLock (show_int oid) tx b t (now_s s) (rowToOrder d))" by simp
next
  let ?ev = "\<lparr>be_kind = Lock, be_chain = Ethereum, be_txHash = tx, be_blockNumber = b,
    be_orderId = Some (show_int oid), be_hashlock = Some h, be_timelock = Some t,
    be_preimage = None\<rparr>"
  have "show_nat n \<noteq> []" for n by (subst show_nat.simps) simp
  then have nonempty: "show_int oid \<noteq> []" by (simp add: show_int_def)
  let ?i = "\<lparr>sl_publicId = publicId d, sl_orderId = show_int oid, sl_txHash = tx,
    sl_blockNumber = b, sl_timelock = t, sl_writer = Some w, dl_resolver = None\<rparr>"
  have "fst (recordDstLock_svc gap ?i s) \<noteq> Inr ()"
    using view row by (simp add: recordDstLock_svc_def advance_known [where r = "rowToOrder d"]
        edges_into)
  then obtain e where e: "fst (recordDstLock_svc gap ?i s) = Inl e"
    by (cases "fst (recordDstLock_svc gap ?i s)") auto
  with service_error_view [of gap "Do_dst_lock ?i" s e]
  have same: "orders_view (snd (recordDstLock_svc gap ?i s)) = orders_view s" by simp
  have "snd (apply_event gap w ?ev s) = snd (recordDstLock_svc gap ?i s)"
    using found row h nonempty
    by (auto simp: apply_event_def applyLock_def catchE_apply bindE_apply thenE_apply truthy_def
        split: prod.splits sum.splits)
  with same show "orders_view (snd (apply_event gap w ?ev s)) = orders_view s" by simp
qed

definition sample_xlm_db :: coord_db where
  "sample_xlm_db = announced_db ''p'' (sample_announce\<lparr>in_direction := Xlm_to_eth,
     in_srcChain := Stellar, in_dstChain := Ethereum\<rparr>) (empty_db 100)"

theorem catch_up_crosses_legs_witness:
  "map_option srcOrderId (orders_view (snd (handleCreated 600 (''0x'' @ replicate 64 CHR ''1'')
     7 5000 ''0xaa'' 12 sample_xlm_db)) ''p'') = Some (Some ''7'')"
proof -
  let ?h = "''0x'' @ replicate 64 CHR ''1''" and ?d = "hd (orders_tbl sample_xlm_db)"
  have 1: "find (\<lambda>d. hashlock d = ?h) (orders_tbl sample_xlm_db) = Some ?d" by code_simp
  have 2: "orders_view sample_xlm_db (publicId ?d) = Some (rowToOrder ?d)" by code_simp
  have 3: "status ?d = Announced" "srcChain ?d = Stellar" "dstTimelock ?d = None"
    "toLowerCase ?h = ?h" "?h \<noteq> []" "publicId ?d = ''p''" by code_simp+
  have "show_int 7 = ''7''" by code_simp
  with catch_up_crosses_legs [OF 1 2 3(1-5), of 600 "''l''" "''0xaa''" 12 7 5000] 3(6)
  show ?thesis by (simp add: sql_updateSrcLock_def)
qed

end
