(* ===== verification/Chain_Events.thy ===== *)
theory Chain_Events
  imports Secret_Service Order_Events
begin

text \<open>
  The settlement processor (\<open>coordinator/src/services/chain-events.ts\<close>). \<open>ChainEventProcessor\<close>
  applies claim and refund events of a batch in chain order, remembers each by its key, and moves
  the chain's cursor only after the whole batch. A crash is a run that stops between two steps, so
  the crash safety of the comment is the statement that processing again is harmless. \<open>clock ev\<close> is the reading of the clock, in milliseconds, while \<open>ev\<close> is processed.
\<close>

section \<open>Events\<close>

datatype settlement_kind = Claimed | Refunded_kind

fun settlement_kind_str :: "settlement_kind \<Rightarrow> string" where
  "settlement_kind_str Claimed = ''claimed''"
| "settlement_kind_str Refunded_kind = ''refunded''"

record settlement_event =
  st_chain :: chain_name
  st_kind :: settlement_kind
  st_onchainOrderId :: string
  st_txHash :: string
  st_logIndex :: int
  st_position :: int
  st_preimage :: "string option"

datatype process_outcome = Out_applied | Out_duplicate | Out_ignored

fun ORDER_CHAIN :: "chain_name \<Rightarrow> chain" where
  "ORDER_CHAIN Ethereum_net = Ethereum"
| "ORDER_CHAIN Soroban_net = Stellar"

section \<open>Cursors\<close>

definition resume :: "chain_name \<Rightarrow> string \<Rightarrow> (int \<times> string option) option db_comp" where
  "resume c networkId = bindE (getChainCursor c) (\<lambda>saved. case saved of
     None \<Rightarrow> ret None
   | Some cur \<Rightarrow>
       if cur_network_id cur \<noteq> networkId
       then throw (CursorMismatchError c (cur_network_id cur) networkId)
       else ret (Some (cur_position cur, cur_cursor cur)))"

definition advance_cursor :: "chain_name \<Rightarrow> string \<Rightarrow> int \<Rightarrow> string option \<Rightarrow> unit db_comp" where
  "advance_cursor c networkId position cursor =
    bindE (resume c networkId) (\<lambda>_. saveChainCursor
      \<lparr>cur_chain = c, cur_network_id = networkId, cur_position = position, cur_cursor = cursor\<rparr>)"

section \<open>Applying one event\<close>

definition event_key :: "string \<Rightarrow> settlement_event \<Rightarrow> string" where
  "event_key networkId ev = chain_name_str (st_chain ev) @ '':'' @ networkId @ '':''
     @ toLowerCase (st_txHash ev) @ '':'' @ show_int (st_logIndex ev) @ '':''
     @ settlement_kind_str (st_kind ev)"

definition findOrder :: "settlement_event \<Rightarrow> order_row option db_comp" where
  "findOrder ev =
    (let c = ORDER_CHAIN (st_chain ev)
     in bindE (findBySrcOrderId c (st_onchainOrderId ev)) (\<lambda>asSrc. case asSrc of
          Some order \<Rightarrow> ret (Some order)
        | None \<Rightarrow> findByDstOrderId c (st_onchainOrderId ev)))"

text \<open>\<open>err instanceof Error && /^preimage /.test(err.message)\<close>\<close>

definition is_preimage_error :: "coord_error \<Rightarrow> bool" where
  "is_preimage_error e \<longleftrightarrow> take 9 (error_message e) = ''preimage ''"

definition apply_settlement :: "(bytes \<Rightarrow> string) \<Rightarrow> int \<Rightarrow> settlement_event
    \<Rightarrow> process_outcome db_comp" where
  "apply_settlement sha nowMs ev = bindE (findOrder ev) (\<lambda>found. case found of
     None \<Rightarrow> ret Out_ignored
   | Some order \<Rightarrow> catchE
      (case st_kind ev of
         Refunded_kind \<Rightarrow>
           if status order = Refunded then ret Out_duplicate
           else thenE (recordRefund (publicId order) (st_txHash ev) None) (ret Out_applied)
       | Claimed \<Rightarrow> (case truthy (st_preimage ev) of
           None \<Rightarrow> ret Out_ignored
         | Some p \<Rightarrow>
             if secretRevealedTx order = Some (st_txHash ev) \<and> truthy (preimage order) \<noteq> None
             then ret Out_duplicate
             else thenE (reveal sha nowMs (publicId order) p (st_txHash ev)) (ret Out_applied)))
      (\<lambda>err. if is_order_validation err then ret Out_ignored
             else if is_preimage_error err then ret Out_ignored
             else throw err))"

definition process :: "(bytes \<Rightarrow> string) \<Rightarrow> (settlement_event \<Rightarrow> int) \<Rightarrow> string \<Rightarrow> settlement_event
    \<Rightarrow> process_outcome db_comp" where
  "process sha clock networkId ev = bindE (hasProcessedEvent (event_key networkId ev)) (\<lambda>seen.
     if seen then ret Out_duplicate
     else bindE (apply_settlement sha (clock ev) ev) (\<lambda>outcome.
       thenE (markEventProcessed \<lparr>pe_key = event_key networkId ev, pe_chain = st_chain ev,
                pe_kind = settlement_kind_str (st_kind ev), pe_position = st_position ev\<rparr>)
         (ret outcome)))"

section \<open>A batch\<close>

record batch_counts =
  bc_applied :: nat
  bc_duplicates :: nat
  bc_ignored :: nat

fun count_outcome :: "process_outcome \<Rightarrow> batch_counts \<Rightarrow> batch_counts" where
  "count_outcome Out_applied c = c\<lparr>bc_applied := bc_applied c + 1\<rparr>"
| "count_outcome Out_duplicate c = c\<lparr>bc_duplicates := bc_duplicates c + 1\<rparr>"
| "count_outcome Out_ignored c = c\<lparr>bc_ignored := bc_ignored c + 1\<rparr>"

text \<open>The comparator of \<open>sort\<close>: position, then log index.\<close>

definition chain_order :: "settlement_event list \<Rightarrow> settlement_event list" where
  "chain_order evs = sort_key (\<lambda>e. (st_position e, st_logIndex e)) evs"

fun process_all :: "(bytes \<Rightarrow> string) \<Rightarrow> (settlement_event \<Rightarrow> int) \<Rightarrow> string \<Rightarrow> settlement_event list \<Rightarrow> batch_counts
    \<Rightarrow> batch_counts db_comp" where
  "process_all sha clock networkId [] counts = ret counts"
| "process_all sha clock networkId (ev # evs) counts =
     bindE (process sha clock networkId ev) (\<lambda>outcome.
       process_all sha clock networkId evs (count_outcome outcome counts))"

definition processBatch :: "(bytes \<Rightarrow> string) \<Rightarrow> (settlement_event \<Rightarrow> int) \<Rightarrow> string \<Rightarrow> chain_name \<Rightarrow> settlement_event list
    \<Rightarrow> int \<Rightarrow> string option \<Rightarrow> batch_counts db_comp" where
  "processBatch sha clock networkId c events upTo cursor =
    bindE (process_all sha clock networkId (chain_order events)
        \<lparr>bc_applied = 0, bc_duplicates = 0, bc_ignored = 0\<rparr>) (\<lambda>counts.
      thenE (advance_cursor c networkId upTo cursor) (ret counts))"

text \<open>\<open>toSettlement\<close> of the Ethereum listener: the log as a settlement event.\<close>

definition toSettlement :: "int \<Rightarrow> string option \<Rightarrow> string \<Rightarrow> int option \<Rightarrow> int \<Rightarrow> settlement_kind
    \<Rightarrow> settlement_event" where
  "toSettlement orderId pre txHash logIndex blockNumber kind =
    \<lparr>st_chain = Ethereum_net, st_kind = kind, st_onchainOrderId = show_int orderId,
     st_txHash = txHash, st_logIndex = (case logIndex of None \<Rightarrow> 0 | Some i \<Rightarrow> i),
     st_position = blockNumber, st_preimage = (if kind = Claimed then pre else None)\<rparr>"

section \<open>What a batch leaves alone\<close>

context service_invariant
begin

lemma keeps_findOrder: "keeps Q (findOrder ev)"
  unfolding findOrder_def Let_def by (intro keeps_rules)

lemma keeps_apply_settlement: "keeps Q (apply_settlement sha ms ev)"
  unfolding apply_settlement_def
  by (cases "st_kind ev") (auto intro!: keeps_rules keeps_findOrder keeps_reveal Q_rules)

end

text \<open>Processing also marks events; a predicate of the orders is not concerned.\<close>

locale coordinator_invariant = service_invariant +
  assumes Q_announce: "announce_checks i \<Longrightarrow> keeps Q (announce_unique pid i)"
    and Q_mark: "keeps Q (markEventProcessed e)"
    and Q_cursor: "keeps Q (saveChainCursor c)"
    and Q_clock: "Q s \<Longrightarrow> Q (s\<lparr>now_s := n\<rparr>)"
begin

lemma keeps_process: "keeps Q (process sha clock net ev)"
  unfolding process_def hasProcessedEvent_def
  by (intro keeps_rules keeps_apply_settlement Q_mark)

lemma keeps_process_all: "keeps Q (process_all sha clock net evs c)"
  by (induction evs arbitrary: c) (auto intro!: keeps_rules keeps_process)

lemma keeps_advance_cursor: "keeps Q (advance_cursor c net pos cur)"
  unfolding advance_cursor_def resume_def getChainCursor_def
  by (intro keeps_rules Q_cursor)

lemma keeps_processBatch: "keeps Q (processBatch sha clock net c evs upTo cur)"
  unfolding processBatch_def
  by (intro keeps_rules keeps_process_all keeps_advance_cursor)

end

lemma view_bookkeeping [simp]:
  "orders_view (s\<lparr>now_s := n\<rparr>) = orders_view s"
  "orders_view (s\<lparr>cursors_tbl := cs\<rparr>) = orders_view s"
  "orders_view (s\<lparr>processed_tbl := ps\<rparr>) = orders_view s"
  by (simp_all add: orders_view_def fun_eq_iff)

lemma keeps_bookkeeping:
  assumes "\<And>s cs. Q s \<Longrightarrow> Q (s\<lparr>cursors_tbl := cs\<rparr>)" "\<And>s ps. Q s \<Longrightarrow> Q (s\<lparr>processed_tbl := ps\<rparr>)"
  shows "keeps Q (markEventProcessed e)" "keeps Q (saveChainCursor c)"
  by (auto simp: keeps_def markEventProcessed_def saveChainCursor_def assms)

interpretation schema_coord: coordinator_invariant db_ok gap for gap
  by unfold_locales (auto intro: keeps_rules simp: db_ok_defs)

interpretation wf_coord: coordinator_invariant "all_orders (order_wf gap)" gap for gap
  by unfold_locales (auto intro!: keeps_rules keeps_bookkeeping simp: all_orders_def)

interpretation hashlock_coord: coordinator_invariant hashlocks_unique gap for gap
  by unfold_locales
    (auto intro!: keeps_announce_hashlocks keeps_bookkeeping simp: hashlocks_unique_def)

interpretation terms_coord: coordinator_invariant "all_orders terms_ok" gap for gap
  by unfold_locales
    (auto intro!: keeps_announce_terms keeps_bookkeeping simp: all_orders_def)

interpretation lifecycle_coord: coordinator_invariant "lifecycle_le s0" gap for s0 gap
  by unfold_locales (auto intro!: keeps_rules keeps_bookkeeping simp: lifecycle_le_def)

section \<open>The cursor\<close>

definition cursor_of :: "coord_db \<Rightarrow> chain_name \<Rightarrow> chain_cursor_row option" where
  "cursor_of s c = find (\<lambda>r. cur_chain r = c) (cursors_tbl s)"

lemma find_upsert_cursor:
  "find (\<lambda>r. cur_chain r = c) (upsert_cursor new rows) =
    (if cur_chain new \<noteq> c then find (\<lambda>r. cur_chain r = c) rows
     else case find (\<lambda>r. cur_chain r = c) rows of
       None \<Rightarrow> Some new
     | Some r \<Rightarrow>
         if cur_network_id r = cur_network_id new \<and> cur_position r \<le> cur_position new
         then Some (r\<lparr>cur_position := cur_position new, cur_cursor := cur_cursor new\<rparr>) else Some r)"
proof (cases "list_ex (\<lambda>r. cur_chain r = cur_chain new) rows")
  case True
  then have some: "find (\<lambda>r. cur_chain r = cur_chain new) rows \<noteq> None"
    by (auto simp: list_ex_iff find_None_iff)
  show ?thesis
    using True some
    by (auto simp: upsert_cursor_def find_update_where [where k = cur_chain] option.map_comp
        split: option.splits dest: find_SomeD)
next
  case False
  then have "find (\<lambda>r. cur_chain r = cur_chain new) rows = None"
    by (auto simp: list_ex_iff find_None_iff)
  with False show ?thesis by (auto simp: upsert_cursor_def find_append split: option.splits)
qed

lemma resume_apply:
  "resume c net s = (case cursor_of s c of
     None \<Rightarrow> (Inr None, s)
   | Some r \<Rightarrow> if cur_network_id r \<noteq> net then (Inl (CursorMismatchError c (cur_network_id r) net), s)
       else (Inr (Some (cur_position r, cur_cursor r)), s))"
  by (simp add: resume_def getChainCursor_def bindE_apply cursor_of_def split: option.splits)

lemma advance_cursor_apply:
  "advance_cursor c net pos cur s = (case cursor_of s c of
     None \<Rightarrow> saveChainCursor \<lparr>cur_chain = c, cur_network_id = net, cur_position = pos,
       cur_cursor = cur\<rparr> s
   | Some r \<Rightarrow> if cur_network_id r \<noteq> net then (Inl (CursorMismatchError c (cur_network_id r) net), s)
       else saveChainCursor \<lparr>cur_chain = c, cur_network_id = net, cur_position = pos,
         cur_cursor = cur\<rparr> s)"
  by (simp add: advance_cursor_def bindE_apply resume_apply split: option.splits)

text \<open>After a successful advance the cursor is on this network, at the later of both positions.\<close>

lemma advance_cursor_position:
  assumes "fst (advance_cursor c net pos cur s) = Inr ()"
  shows "\<exists>r. cursor_of (snd (advance_cursor c net pos cur s)) c = Some r \<and> cur_network_id r = net \<and>
    cur_position r = (case cursor_of s c of None \<Rightarrow> pos | Some r0 \<Rightarrow> max (cur_position r0) pos)"
  using assms
  by (auto simp: advance_cursor_apply saveChainCursor_def cursor_of_def find_upsert_cursor
      split: option.splits if_splits)

lemma advance_cursor_other:
  "c' \<noteq> c \<Longrightarrow> cursor_of (snd (advance_cursor c net pos cur s)) c' = cursor_of s c'"
  by (auto simp: advance_cursor_apply saveChainCursor_def cursor_of_def find_upsert_cursor
      split: option.splits)

lemma advance_cursor_fails:
  assumes "fst (advance_cursor c net pos cur s) = Inl e"
  shows "snd (advance_cursor c net pos cur s) = s"
  using assms by (auto simp: advance_cursor_apply saveChainCursor_def split: option.splits if_splits)

lemma advance_cursor_orders:
  "orders_tbl (snd (advance_cursor c net pos cur s)) = orders_tbl s"
  "events_tbl (snd (advance_cursor c net pos cur s)) = events_tbl s"
  "processed_tbl (snd (advance_cursor c net pos cur s)) = processed_tbl s"
  by (auto simp: advance_cursor_apply saveChainCursor_def split: option.splits)

section \<open>Exactly once\<close>

definition processed :: "string \<Rightarrow> settlement_event \<Rightarrow> coord_db \<Rightarrow> bool" where
  "processed net ev s \<longleftrightarrow> event_key net ev \<in> pe_key ` set (processed_tbl s)"

lemma hasProcessedEvent_apply:
  "hasProcessedEvent k s = (Inr (k \<in> pe_key ` set (processed_tbl s)), s)"
  by (auto simp: hasProcessedEvent_def find_None_iff image_iff)

lemma process_seen: "processed net ev s \<Longrightarrow> process sha clock net ev s = (Inr Out_duplicate, s)"
  by (simp add: process_def bindE_apply hasProcessedEvent_apply processed_def)

lemma markEventProcessed_marks:
  "pe_key e \<in> pe_key ` set (processed_tbl (snd (markEventProcessed e s)))"
  "set (processed_tbl s) \<subseteq> set (processed_tbl (snd (markEventProcessed e s)))"
  "cursors_tbl (snd (markEventProcessed e s)) = cursors_tbl s"
  by (auto simp: markEventProcessed_def list_ex_iff image_iff intro: sym)

lemma apply_settlement_frame:
  "cursors_tbl (snd (apply_settlement sha ms ev s)) = cursors_tbl s"
  "processed_tbl (snd (apply_settlement sha ms ev s)) = processed_tbl s"
  using keepsD [OF frame_inv.keeps_apply_settlement [of "cursors_tbl s" "processed_tbl s" sha ms ev],
    of s]
  by (auto simp: tables_frame_def)

lemma process_new:
  assumes "\<not> processed net ev s"
  shows "process sha clock net ev s = (case apply_settlement sha (clock ev) ev s of
     (Inl e, t) \<Rightarrow> (Inl e, t)
   | (Inr out, t) \<Rightarrow> (Inr out, snd (markEventProcessed \<lparr>pe_key = event_key net ev,
       pe_chain = st_chain ev, pe_kind = settlement_kind_str (st_kind ev),
       pe_position = st_position ev\<rparr> t)))"
  using assms
  by (auto simp: process_def bindE_apply thenE_apply hasProcessedEvent_apply processed_def
      markEventProcessed_def split: prod.splits sum.splits)

lemma process_effects:
  "cursors_tbl (snd (process sha clock net ev s)) = cursors_tbl s"
  "set (processed_tbl s) \<subseteq> set (processed_tbl (snd (process sha clock net ev s)))"
  "fst (process sha clock net ev s) = Inr out \<Longrightarrow> processed net ev (snd (process sha clock net ev s))"
proof -
  obtain r t where run: "apply_settlement sha (clock ev) ev s = (r, t)" by fastforce
  then have t: "cursors_tbl t = cursors_tbl s" "processed_tbl t = processed_tbl s"
    using apply_settlement_frame [of sha "clock ev" ev s] by simp_all
  show "cursors_tbl (snd (process sha clock net ev s)) = cursors_tbl s"
    using run t by (cases "processed net ev s")
      (auto simp: process_seen process_new markEventProcessed_marks split: sum.splits)
  show "set (processed_tbl s) \<subseteq> set (processed_tbl (snd (process sha clock net ev s)))"
    using run t markEventProcessed_marks(2) [of t] by (cases "processed net ev s")
      (auto simp: process_seen process_new split: sum.splits)
  show "processed net ev (snd (process sha clock net ev s))"
    if "fst (process sha clock net ev s) = Inr out"
    using that run markEventProcessed_marks(1) [of "\<lparr>pe_key = event_key net ev,
        pe_chain = st_chain ev, pe_kind = settlement_kind_str (st_kind ev),
        pe_position = st_position ev\<rparr>" t]
    by (cases "processed net ev s")
      (auto simp: process_seen process_new processed_def split: sum.splits)
qed

lemma processed_mono:
  "set (processed_tbl s) \<subseteq> set (processed_tbl t) \<Longrightarrow> processed net ev s \<Longrightarrow> processed net ev t"
  by (auto simp: processed_def)

lemma process_all_frame:
  "cursors_tbl (snd (process_all sha clock net evs c s)) = cursors_tbl s \<and>
   set (processed_tbl s) \<subseteq> set (processed_tbl (snd (process_all sha clock net evs c s)))"
proof (induction evs arbitrary: c s)
  case (Cons ev evs)
  obtain r t where run: "process sha clock net ev s = (r, t)" by fastforce
  then have t: "cursors_tbl t = cursors_tbl s" "set (processed_tbl s) \<subseteq> set (processed_tbl t)"
    using process_effects(1,2) [where sha = sha and clock = clock and net = net and ev = ev and s = s]
    by simp_all
  show ?case
  proof (cases r)
    case (Inr out)
    with run t Cons [of "count_outcome out c" t] show ?thesis by (auto simp: bindE_apply)
  qed (use run t in \<open>simp add: bindE_apply\<close>)
qed simp

lemmas process_all_effects = process_all_frame [THEN conjunct1] process_all_frame [THEN conjunct2]

lemma process_all_marks:
  "fst (process_all sha clock net evs c s) = Inr c' \<Longrightarrow> ev \<in> set evs \<Longrightarrow>
   processed net ev (snd (process_all sha clock net evs c s))"
proof (induction evs arbitrary: c s)
  case (Cons e evs)
  obtain r t where run: "process sha clock net e s = (r, t)" by fastforce
  with Cons.prems obtain out where r: "r = Inr out"
    by (cases r) (auto simp: bindE_apply)
  have rest: "snd (process_all sha clock net (e # evs) c s) =
      snd (process_all sha clock net evs (count_outcome out c) t)"
    "fst (process_all sha clock net evs (count_outcome out c) t) = Inr c'"
    using run r Cons.prems by (simp_all add: bindE_apply)
  show ?case
  proof (cases "ev = e")
    case True
    have "processed net e t" using process_effects(3) [where sha = sha and clock = clock and net = net and ev = e and s = s and out = out] run r by simp
    with True rest show ?thesis
      using processed_mono [OF process_all_effects(2)] by metis
  next
    case False
    with Cons rest show ?thesis by simp
  qed
qed simp

lemma process_all_seen:
  "\<forall>ev \<in> set evs. processed net ev s \<Longrightarrow>
   process_all sha clock net evs c s =
     (Inr (c\<lparr>bc_duplicates := bc_duplicates c + length evs\<rparr>), s)"
  by (induction evs arbitrary: c) (simp_all add: bindE_apply process_seen)

lemma set_chain_order [simp]: "set (chain_order evs) = set evs"
  by (simp add: chain_order_def)

lemma length_chain_order [simp]: "length (chain_order evs) = length evs"
  by (simp add: chain_order_def)

lemma processBatch_success:
  assumes "processBatch sha clock net c evs upTo cur s = (Inr counts, s')"
  obtains t where "process_all sha clock net (chain_order evs)
      \<lparr>bc_applied = 0, bc_duplicates = 0, bc_ignored = 0\<rparr> s = (Inr counts, t)"
    "advance_cursor c net upTo cur t = (Inr (), s')"
  using assms by (auto simp: processBatch_def bindE_apply thenE_apply split: prod.splits sum.splits)

section \<open>Redelivery\<close>

definition found_row :: "settlement_event \<Rightarrow> order_db_row list \<Rightarrow> order_db_row option" where
  "found_row ev rows = (case find (\<lambda>r. srcChain r = ORDER_CHAIN (st_chain ev) \<and>
       srcOrderId r = Some (st_onchainOrderId ev)) rows of
     Some d \<Rightarrow> Some d
   | None \<Rightarrow> find (\<lambda>r. dstChain r = ORDER_CHAIN (st_chain ev) \<and>
       dstOrderId r = Some (st_onchainOrderId ev)) rows)"

lemma findOrder_apply: "findOrder ev s = (Inr (map_option rowToOrder (found_row ev (orders_tbl s))), s)"
  by (simp add: findOrder_def found_row_def bindE_apply Let_def split: option.splits)

lemma find_update_where_pred:
  "(\<And>r. P (f r) = P r) \<Longrightarrow>
   find P (update_where Q f rs) = map_option (\<lambda>r. if Q r then f r else r) (find P rs)"
  by (induction rs) auto

lemma found_row_update:
  assumes "\<And>r. srcChain (f r) = srcChain r" "\<And>r. srcOrderId (f r) = srcOrderId r"
    "\<And>r. dstChain (f r) = dstChain r" "\<And>r. dstOrderId (f r) = dstOrderId r"
  shows "found_row ev (update_where Q f rs) =
    map_option (\<lambda>r. if Q r then f r else r) (found_row ev rs)"
  by (auto simp: found_row_def find_update_where_pred assms split: option.splits)

lemma found_row_in: "found_row ev rs = Some d \<Longrightarrow> d \<in> set rs"
  by (auto simp: found_row_def dest: find_SomeD split: option.splits)

lemma found_view:
  "db_ok s \<Longrightarrow> found_row ev (orders_tbl s) = Some d \<Longrightarrow>
   orders_view s (publicId d) = Some (rowToOrder d)"
  by (auto simp: orders_view_def db_ok_defs find_distinct_key dest!: found_row_in)

lemma apply_settlement_stop:
  assumes "found_row ev (orders_tbl s) = Some d"
    and "case st_kind ev of Refunded_kind \<Rightarrow> status d = Refunded
      | Claimed \<Rightarrow> truthy (st_preimage ev) = None \<or>
          secretRevealedTx d = Some (st_txHash ev) \<and> truthy (preimage d) \<noteq> None"
  shows "snd (apply_settlement sha ms ev s) = s"
  using assms
  by (auto simp: apply_settlement_def bindE_apply findOrder_apply catchE_apply rowToOrder_def
      split: settlement_kind.splits option.splits)

lemma apply_settlement_refund:
  assumes "found_row ev (orders_tbl s) = Some d" "st_kind ev = Refunded_kind" "status d \<noteq> Refunded"
  shows "snd (apply_settlement sha ms ev s) =
    snd (recordRefund (publicId d) (st_txHash ev) None s)"
  using assms
  by (auto simp: apply_settlement_def bindE_apply findOrder_apply catchE_apply thenE_apply
      split: prod.splits sum.splits)

lemma apply_settlement_claim:
  assumes "found_row ev (orders_tbl s) = Some d" "st_kind ev = Claimed"
    and "truthy (st_preimage ev) = Some p"
    and "\<not> (secretRevealedTx d = Some (st_txHash ev) \<and> truthy (preimage d) \<noteq> None)"
  shows "snd (apply_settlement sha ms ev s) = snd (reveal sha ms (publicId d) p (st_txHash ev) s)"
proof -
  have "secretRevealedTx (rowToOrder d) = secretRevealedTx d" by (simp add: rowToOrder_def)
  with assms show ?thesis
    by (auto simp: apply_settlement_def bindE_apply findOrder_apply catchE_apply thenE_apply
        split: prod.splits sum.splits)
qed

lemma apply_settlement_unknown:
  "found_row ev (orders_tbl s) = None \<Longrightarrow> snd (apply_settlement sha ms ev s) = s"
  by (simp add: apply_settlement_def bindE_apply findOrder_apply)

lemma refund_again:
  assumes ok: "db_ok s" and d: "found_row ev (orders_tbl s) = Some d" "status d \<noteq> Refunded"
    and kind: "st_kind ev = Refunded_kind"
    and t: "t = snd (recordRefund (publicId d) (st_txHash ev) None s)"
  shows "orders_tbl (snd (apply_settlement sha ms ev t)) = orders_tbl t"
proof -
  let ?c = "Do_refund (publicId d) (st_txHash ev) None"
  have view: "orders_view s (publicId d) = Some (rowToOrder d)" by (rule found_view [OF ok d(1)])
  show ?thesis
  proof (cases "canTransition (status d) Refunded")
    case True
    with run_service_table [of s ?c "rowToOrder d" gap] view t
    have "orders_tbl t = update_where (\<lambda>r. publicId r = publicId d)
        (sql_updateStatus Refunded (now_s s)) (orders_tbl s)" by simp
    then have "found_row ev (orders_tbl t) = Some (sql_updateStatus Refunded (now_s s) d)"
      using d(1) by (simp add: found_row_update sql_updateStatus_def)
    from apply_settlement_stop [OF this] kind show ?thesis by simp
  next
    case False
    have refused: "orders_tbl (snd (run_service gap ?c u)) = orders_tbl u"
      if "orders_tbl u = orders_tbl s" for u
      by (rule run_service_refused_table [where r = "rowToOrder d"])
        (use that view False in \<open>simp_all add: orders_view_def\<close>)
    then have eq: "orders_tbl t = orders_tbl s" using t by simp
    then have "found_row ev (orders_tbl t) = Some d" using d by simp
    with refused [OF eq] apply_settlement_refund [OF _ kind d(2), of t sha ms] show ?thesis by simp
  qed
qed

text \<open>The same for a claim; the window can only have closed further in between.\<close>

lemma reveal_table:
  assumes "orders_view s pid = Some r" "preimage r = None"
    and "\<not> canTransition (status r) Secret_revealed"
  shows "orders_tbl (snd (reveal sha ms pid p tx s)) = orders_tbl s"
  by (rule reveal_cases [of sha ms pid p tx s])
    (use run_service_refused_table [of s "Do_secret pid (toLowerCase p) tx None" r gap] assms
     in simp_all)

lemma claim_again:
  assumes ok: "db_ok s" and d: "found_row ev (orders_tbl s) = Some d"
    and kind: "st_kind ev = Claimed" and p: "truthy (st_preimage ev) = Some p"
    and t: "t = snd (reveal sha ms (publicId d) p (st_txHash ev) s)" and later: "ms \<le> ms'"
    and new: "\<not> (secretRevealedTx d = Some (st_txHash ev) \<and> truthy (preimage d) \<noteq> None)"
  shows "orders_tbl (snd (apply_settlement sha ms' ev t)) = orders_tbl t"
proof -
  let ?pid = "publicId d"
  have view: "orders_view s ?pid = Some (rowToOrder d)" by (rule found_view [OF ok d])
  have again: "orders_tbl (snd (reveal sha ms' ?pid p (st_txHash ev) t)) = orders_tbl t \<Longrightarrow>
      orders_tbl t = orders_tbl s \<Longrightarrow> ?thesis"
    using apply_settlement_claim [OF _ kind p new, of t sha ms'] d by simp
  have legal: "canTransition (status d) Secret_revealed \<Longrightarrow>
      reveal sha m ?pid p (st_txHash ev) s = recordSecret ?pid (toLowerCase p) (st_txHash ev) None s \<Longrightarrow>
      orders_tbl (snd (reveal sha m ?pid p (st_txHash ev) s)) = update_where
        (\<lambda>r. publicId r = ?pid) (sql_updateSecret (toLowerCase p) (st_txHash ev) (now_s s))
        (orders_tbl s)" for m
    using run_service_table [of s "Do_secret ?pid (toLowerCase p) (st_txHash ev) None"
        "rowToOrder d" gap] view by simp
  show ?thesis
  proof (cases "preimage d")
    case (Some x)
    then have "snd (reveal sha m ?pid p (st_txHash ev) s) = s" for m
      by (rule_tac reveal_cases [of sha m ?pid p "st_txHash ev" s]) (use view Some in auto)
    with again t show ?thesis by simp
  next
    case none: None
    show ?thesis
    proof (cases "canTransition (status d) Secret_revealed")
      case False
      have keep: "orders_tbl (snd (reveal sha m ?pid p (st_txHash ev) u)) = orders_tbl u"
        if "orders_tbl u = orders_tbl s" for u m
        by (rule reveal_table [where r = "rowToOrder d"])
          (use view none False that in \<open>simp_all add: orders_view_def\<close>)
      with again t show ?thesis by simp
    next
      case can: True
      show ?thesis
      proof (rule reveal_cases [of sha ms ?pid p "st_txHash ev" s])
        fix e assume stop: "reveal sha ms ?pid p (st_txHash ev) s = (Inl e, s)"
        show ?thesis
        proof (rule reveal_cases [of sha ms' ?pid p "st_txHash ev" s])
          fix r assume r: "orders_view s ?pid = Some r"
            "assertValidSecretFormat p ''preimage'' = Inr p"
            "some_id_matches sha (toLowerCase p) (hashlock r) (known_ids r) = Inr True"
            "preimage r = None" "unused_by_others ?pid (toLowerCase p) s"
            "\<not> past_timelock (srcTimelock r) (ms' div 1000)"
            "\<not> past_timelock (dstTimelock r) (ms' div 1000)"
          have "ms div 1000 \<le> ms' div 1000" using later by (simp add: zdiv_mono1)
          with r(6,7) have "\<not> past_timelock (srcTimelock r) (ms div 1000)"
            "\<not> past_timelock (dstTimelock r) (ms div 1000)" using past_timelock_mono by blast+
          from reveal_eq_record [OF r(2,1,3,4,5) this] stop
          have "recordSecret ?pid (toLowerCase p) (st_txHash ev) None s = (Inl e, s)" by simp
          with run_service_legal [of s "Do_secret ?pid (toLowerCase p) (st_txHash ev) None"
              "rowToOrder d" gap] view can show ?thesis by auto
        qed (use again t stop in simp_all)
      next
        fix r assume "orders_view s ?pid = Some r" "preimage r = Some (toLowerCase p)"
        with view none show ?thesis by simp
      next
        fix r assume r: "is_0x_hex 64 p" "reveal sha ms ?pid p (st_txHash ev) s =
          recordSecret ?pid (toLowerCase p) (st_txHash ev) None s"
        from legal [OF can r(2)] t d have "found_row ev (orders_tbl t) =
            Some (sql_updateSecret (toLowerCase p) (st_txHash ev) (now_s s) d)"
          by (simp add: found_row_update sql_updateSecret_def)
        moreover have "toLowerCase p \<noteq> []" using r(1) by (auto simp: is_0x_hex_def toLowerCase_def)
        ultimately show ?thesis
          using apply_settlement_stop [of ev t "sql_updateSecret (toLowerCase p) (st_txHash ev)
            (now_s s) d" sha ms'] kind
          by (simp add: sql_updateSecret_def truthy_def)
      qed
    qed
  qed
qed

lemma batch_all_processed:
  assumes "processBatch sha clock net c evs upTo cur s = (Inr counts, t)"
  shows "\<forall>ev \<in> set evs. processed net ev t"
proof
  fix ev assume ev: "ev \<in> set evs"
  from processBatch_success [OF assms] obtain u where
    u: "process_all sha clock net (chain_order evs)
          \<lparr>bc_applied = 0, bc_duplicates = 0, bc_ignored = 0\<rparr> s = (Inr counts, u)"
      "advance_cursor c net upTo cur u = (Inr (), t)" .
  have "processed net ev u"
    using process_all_marks [of sha clock net "chain_order evs"
        "\<lparr>bc_applied = 0, bc_duplicates = 0, bc_ignored = 0\<rparr>" s counts ev] u(1) ev by simp
  moreover have "processed_tbl t = processed_tbl u"
    using advance_cursor_orders(3) [of c net upTo cur u] u(2) by simp
  ultimately show "processed net ev t" by (simp add: processed_def)
qed

section \<open>Properties\<close>

text \<open>C7: a settlement batch takes effect exactly once. After a batch has been processed, delivering the
  same events again, in any order, at any time and with any new cursor, succeeds, counts every one
  of them as a duplicate, and leaves the orders, the audit trail and the processed events as they
  are.\<close>

theorem batch_exactly_once:
  assumes run: "processBatch sha clock net c evs upTo cur s = (Inr counts, t)"
    and again: "set evs' \<subseteq> set evs"
  shows "\<exists>t'. processBatch sha clock' net c evs' upTo' cur' t =
      (Inr \<lparr>bc_applied = 0, bc_duplicates = length evs', bc_ignored = 0\<rparr>, t') \<and>
    orders_tbl t' = orders_tbl t \<and> events_tbl t' = events_tbl t \<and>
    processed_tbl t' = processed_tbl t"
proof -
  have "\<forall>ev \<in> set (chain_order evs'). processed net ev t"
    using batch_all_processed [OF run] again by auto
  from process_all_seen [OF this, of sha clock'] have seen: "process_all sha clock' net
      (chain_order evs') \<lparr>bc_applied = 0, bc_duplicates = 0, bc_ignored = 0\<rparr> t =
    (Inr \<lparr>bc_applied = 0, bc_duplicates = length evs', bc_ignored = 0\<rparr>, t)" by simp
  from processBatch_success [OF run] obtain u where "advance_cursor c net upTo cur u = (Inr (), t)" .
  with advance_cursor_position [of c net upTo cur u] obtain r where
    "cursor_of t c = Some r" "cur_network_id r = net" by auto
  then have "fst (advance_cursor c net upTo' cur' t) = Inr ()"
    by (simp add: advance_cursor_apply saveChainCursor_def)
  then obtain t' where t': "advance_cursor c net upTo' cur' t = (Inr (), t')"
    by (cases "advance_cursor c net upTo' cur' t") simp
  with seen advance_cursor_orders [of c net upTo' cur' t] show ?thesis
    by (simp add: processBatch_def bindE_apply thenE_apply)
qed

definition sample_claim :: settlement_event where
  "sample_claim = \<lparr>st_chain = Ethereum_net, st_kind = Claimed, st_onchainOrderId = ''7'',
     st_txHash = ''0xcc'', st_logIndex = 0, st_position = 40, st_preimage = Some sample_pre\<rparr>"

definition sample_batch :: "(coord_error + batch_counts) \<times> coord_db" where
  "sample_batch = processBatch toy_sha (\<lambda>_. 3000) ''ethereum:1'' Ethereum_net [sample_claim] 40 None
     sample_locked"

theorem batch_exactly_once_witness:
  "map_option status (orders_view (snd sample_batch) ''p'') = Some Secret_revealed \<and>
   fst (processBatch toy_sha (\<lambda>_. 9000) ''ethereum:1'' Ethereum_net [sample_claim, sample_claim] 50
     None (snd sample_batch)) = Inr \<lparr>bc_applied = 0, bc_duplicates = 2, bc_ignored = 0\<rparr>"
proof -
  have "fst sample_batch = Inr \<lparr>bc_applied = 1, bc_duplicates = 0, bc_ignored = 0\<rparr>" by code_simp
  then have "sample_batch = (Inr \<lparr>bc_applied = 1, bc_duplicates = 0, bc_ignored = 0\<rparr>,
      snd sample_batch)" by (simp add: prod_eq_iff)
  then have run: "processBatch toy_sha (\<lambda>_. 3000) ''ethereum:1'' Ethereum_net [sample_claim] 40 None
      sample_locked = (Inr \<lparr>bc_applied = 1, bc_duplicates = 0, bc_ignored = 0\<rparr>, snd sample_batch)"
    by (simp only: sample_batch_def)
  have "map_option status (orders_view (snd sample_batch) ''p'') = Some Secret_revealed"
    by code_simp
  with batch_exactly_once [OF run, of "[sample_claim, sample_claim]" "\<lambda>_. 9000" 50 None]
  show ?thesis by auto
qed

text \<open>the cursor moves only after a whole batch and never backwards. A batch that succeeds leaves
  the chain's cursor on the configured network at the later of the old and the new position; a batch
  that fails leaves every cursor where it was; and no batch moves the cursor of another chain.\<close>

theorem batch_moves_cursor:
  "(case processBatch sha clock net c evs upTo cur s of
      (Inr counts, t) \<Rightarrow> (\<exists>r. cursor_of t c = Some r \<and> cur_network_id r = net \<and>
        cur_position r = (case cursor_of s c of None \<Rightarrow> upTo | Some r0 \<Rightarrow> max (cur_position r0) upTo))
    | (Inl e, t) \<Rightarrow> cursors_tbl t = cursors_tbl s) \<and>
   (c' = c \<or> cursor_of (snd (processBatch sha clock net c evs upTo cur s)) c' = cursor_of s c')"
proof -
  obtain x u where all: "process_all sha clock net (chain_order evs)
      \<lparr>bc_applied = 0, bc_duplicates = 0, bc_ignored = 0\<rparr> s = (x, u)" by fastforce
  then have u: "cursors_tbl u = cursors_tbl s"
    using process_all_effects(1) [of sha clock net "chain_order evs"
        "\<lparr>bc_applied = 0, bc_duplicates = 0, bc_ignored = 0\<rparr>" s] by simp
  then have same: "cursor_of u = cursor_of s" by (simp add: cursor_of_def fun_eq_iff)
  obtain y t where adv: "advance_cursor c net upTo cur u = (y, t)" by fastforce
  show ?thesis
  proof (cases x)
    case (Inl e)
    with all u same show ?thesis by (simp add: processBatch_def bindE_apply)
  next
    case (Inr counts)
    with all adv have run: "processBatch sha clock net c evs upTo cur s =
        (case y of Inl e \<Rightarrow> (Inl e, t) | Inr _ \<Rightarrow> (Inr counts, t))"
      by (simp add: processBatch_def bindE_apply thenE_apply split: sum.splits)
    have other: "c' = c \<or> cursor_of t c' = cursor_of s c'"
      using advance_cursor_other [of c' c net upTo cur u] adv same by auto
    show ?thesis
    proof (cases y)
      case (Inl e)
      with advance_cursor_fails [of c net upTo cur u e] adv u other run show ?thesis by simp
    next
      case (Inr v)
      with advance_cursor_position [of c net upTo cur u] adv same other run show ?thesis by simp
    qed
  qed
qed

text \<open>C8: redelivery after a crash is harmless. When the process stops after a settlement event was
  applied but before it was marked, applying it again at any later time changes no order, whatever
  the first attempt did: applied, refused, ignored or thrown.\<close>

theorem redelivery_harmless:
  assumes "db_ok s" "ms \<le> ms'"
  shows "orders_tbl (snd (apply_settlement sha ms' ev (snd (apply_settlement sha ms ev s)))) =
    orders_tbl (snd (apply_settlement sha ms ev s))"
proof (cases "found_row ev (orders_tbl s)")
  case None
  then show ?thesis by (simp add: apply_settlement_unknown)
next
  case d: (Some d)
  show ?thesis
  proof (cases "st_kind ev")
    case kind: Refunded_kind
    show ?thesis
    proof (cases "status d = Refunded")
      case True
      with d kind show ?thesis by (simp add: apply_settlement_stop)
    next
      case False
      show ?thesis
        unfolding apply_settlement_refund [OF d kind False]
        by (rule refund_again [OF assms(1) d False kind refl])
    qed
  next
    case kind: Claimed
    show ?thesis
    proof (cases "truthy (st_preimage ev) = None \<or>
        secretRevealedTx d = Some (st_txHash ev) \<and> truthy (preimage d) \<noteq> None")
      case True
      with d kind show ?thesis by (auto simp: apply_settlement_stop)
    next
      case False
      then obtain p where p: "truthy (st_preimage ev) = Some p"
        and new: "\<not> (secretRevealedTx d = Some (st_txHash ev) \<and> truthy (preimage d) \<noteq> None)"
        by auto
      show ?thesis
        unfolding apply_settlement_claim [OF d kind p new]
        by (rule claim_again [OF assms(1) d kind p refl assms(2) new])
    qed
  qed
qed

theorem redelivery_harmless_witness:
  "map_option status (orders_view (snd (apply_settlement toy_sha 3000 sample_claim sample_locked))
     ''p'') = Some Secret_revealed \<and>
   orders_tbl (snd (apply_settlement toy_sha 9000000 sample_claim
     (snd (apply_settlement toy_sha 3000 sample_claim sample_locked)))) =
   orders_tbl (snd (apply_settlement toy_sha 3000 sample_claim sample_locked))"
proof
  show "map_option status (orders_view (snd (apply_settlement toy_sha 3000 sample_claim
      sample_locked)) ''p'') = Some Secret_revealed" by code_simp
  have "db_ok sample_locked"
    unfolding sample_locked_def by (rule keepsD [OF keeps_service(1) sample_db_ok])
  then show "orders_tbl (snd (apply_settlement toy_sha 9000000 sample_claim
     (snd (apply_settlement toy_sha 3000 sample_claim sample_locked)))) =
   orders_tbl (snd (apply_settlement toy_sha 3000 sample_claim sample_locked))"
    by (rule redelivery_harmless) simp
qed




end
