(* ===== verification/Coordinator.thy ===== *)
theory Coordinator
  imports Chain_Events
begin

text \<open>
  The coordinator as a whole: \<open>serve\<close> is one entry point that changes state, taken from the HTTP
  routes (\<open>server/routes/orders.ts\<close>, \<open>quotes.ts\<close>, \<open>secrets.ts\<close>), the two listeners and the clock;
  \<open>reachable\<close> is every state that a sequence of them produces from an empty database.
  \<open>markStatus\<close>, \<open>insertOrder\<close> and \<open>removeFixtures\<close> are not among them: only the demo fixtures and
  their removal script call them.
\<close>

type_synonym coord_state = "quote_state option \<times> coord_db"

datatype coord_call =
    Clock int int int
      \<comment> \<open>the database clock, and the two clock readings of the quote service\<close>
  | Quote_route string "(string option \<times> string option) option" "string option" "quote_terms option"
  | Evict_quotes
  | Announce_route string announce_input
  | Src_locked_route src_lock_input
  | Dst_locked_route dst_lock_input
  | Reveal_route int string string string
  | Chain_event string bridge_order_event
  | Catch_up_created string int int string int
  | Settlement_batch "settlement_event \<Rightarrow> int" string chain_name "settlement_event list" int
      "string option"
  | Cursor_update chain_name string int "string option"

text \<open>\<open>lockSchema\<close>: non-empty texts and non-negative numbers, a refused body changes nothing.\<close>

definition lockSchema :: "'z src_lock_input_scheme \<Rightarrow> bool" where
  "lockSchema i \<longleftrightarrow> sl_orderId i \<noteq> [] \<and> sl_txHash i \<noteq> [] \<and> 0 \<le> sl_blockNumber i \<and>
     0 \<le> sl_timelock i"

definition revealSchema :: "string \<Rightarrow> string \<Rightarrow> string \<Rightarrow> bool" where
  "revealSchema pid pre txHash \<longleftrightarrow> pid \<noteq> [] \<and> is_0x_hex 64 pre \<and> txHash \<noteq> []"

fun set_clocks :: "int \<Rightarrow> int \<Rightarrow> int \<Rightarrow> coord_state \<Rightarrow> coord_state" where
  "set_clocks n q w (None, d) = (None, d\<lparr>now_s := n\<rparr>)"
| "set_clocks n q w (Some s, d) = (Some (s\<lparr>q_now := q, q_wall := w\<rparr>), d\<lparr>now_s := n\<rparr>)"

fun serve :: "(bytes \<Rightarrow> string) \<Rightarrow> int \<Rightarrow> coord_call \<Rightarrow> coord_state \<Rightarrow> coord_state" where
  "serve sha gap (Clock n q w) s = set_clocks n q w s"
| "serve sha gap (Quote_route newId fetched amount terms) (qs, d) =
     (map_option (\<lambda>q. snd (quoteEthXlm newId fetched amount terms q)) qs, d)"
| "serve sha gap Evict_quotes (qs, d) = (map_option (\<lambda>q. snd (evictExpired q)) qs, d)"
| "serve sha gap (Announce_route pid i) s =
     (if announceSchema i then snd (announce_svc pid i s) else s)"
| "serve sha gap (Src_locked_route i) s =
     (if lockSchema i then snd (on_db (recordSrcLock_svc gap (i\<lparr>sl_writer := None\<rparr>)) s) else s)"
| "serve sha gap (Dst_locked_route i) s =
     (if lockSchema i then snd (on_db (recordDstLock_svc gap (i\<lparr>sl_writer := None\<rparr>)) s) else s)"
| "serve sha gap (Reveal_route nowMs pid pre tx) s =
     (if revealSchema pid pre tx then snd (on_db (reveal sha nowMs pid pre tx) s) else s)"
| "serve sha gap (Chain_event writer ev) s = snd (on_db (apply_event gap writer ev) s)"
| "serve sha gap (Catch_up_created h oid t tx b) s = snd (on_db (handleCreated gap h oid t tx b) s)"
| "serve sha gap (Settlement_batch clock net c evs upTo cur) s =
     snd (on_db (processBatch sha clock net c evs upTo cur) s)"
| "serve sha gap (Cursor_update c net pos cur) s = snd (on_db (advance_cursor c net pos cur) s)"

fun serve_all :: "(bytes \<Rightarrow> string) \<Rightarrow> int \<Rightarrow> coord_call list \<Rightarrow> coord_state \<Rightarrow> coord_state" where
  "serve_all sha gap [] s = s"
| "serve_all sha gap (c # cs) s = serve_all sha gap cs (serve sha gap c s)"

inductive reachable :: "(bytes \<Rightarrow> string) \<Rightarrow> int \<Rightarrow> coord_state \<Rightarrow> bool" for sha gap where
  start: "reachable sha gap (q, empty_db n)"
| call: "reachable sha gap s \<Longrightarrow> reachable sha gap (serve sha gap c s)"

section \<open>The database part of every call\<close>

lemma on_db_snd [simp]: "snd (snd (on_db m (q, d))) = snd (m d)"
  by (simp add: on_db_def split: prod.splits)

lemma on_db_apply: "on_db m (q, d) = (fst (m d), (q, snd (m d)))"
  by (simp add: on_db_def split: prod.splits)

lemma on_quotes_apply: "on_quotes m (q, d) = (fst (m q), (snd (m q), d))"
  by (simp add: on_quotes_def split: prod.splits)

lemma announce_svc_db:
  assumes "announceSchema i"
  shows "snd (snd (announce_svc pid i (q, d))) = d \<or>
    announce_checks i \<and> snd (snd (announce_svc pid i (q, d))) = snd (announce_unique pid i d)"
  using assms
  by (auto simp: announce_svc_def announce_checks_def thenE_apply on_db_apply on_quotes_apply
      split: sum.splits)

lemma set_clocks_db: "snd (set_clocks n q w s) = (snd s)\<lparr>now_s := n\<rparr>"
  by (cases "(n, q, w, s)" rule: set_clocks.cases) simp_all

context coordinator_invariant
begin

lemma serve_keeps: "Q (snd s) \<Longrightarrow> Q (snd (serve sha gap c s))"
proof -
  assume Q: "Q (snd s)"
  obtain q d where s: "s = (q, d)" by fastforce
  show ?thesis
  proof (cases c)
    case (Announce_route pid i)
    with Q s announce_svc_db [of i pid q d] keepsD [OF Q_announce [of i pid], of d]
    show ?thesis by auto
  qed (use Q s in \<open>auto simp: set_clocks_db Q_clock intro!: keepsD [OF Q_src] keepsD [OF Q_dst]
    keepsD [OF keeps_reveal] keepsD [OF keeps_apply_event] keepsD [OF keeps_handleCreated]
    keepsD [OF keeps_processBatch] keepsD [OF keeps_advance_cursor]\<close>)
qed

lemma serve_all_keeps: "Q (snd s) \<Longrightarrow> Q (snd (serve_all sha gap cs s))"
  by (induction cs arbitrary: s) (simp_all add: serve_keeps)

lemma reachable_keeps:
  assumes "reachable sha gap s" "\<And>n. Q (empty_db n)"
  shows "Q (snd s)"
  using assms by (induction) (auto intro: serve_keeps)

end

lemma serve_all_append:
  "serve_all sha gap (xs @ ys) s = serve_all sha gap ys (serve_all sha gap xs s)"
  by (induction xs arbitrary: s) simp_all

lemma reachable_serve_all: "reachable sha gap s \<Longrightarrow> reachable sha gap (serve_all sha gap cs s)"
proof (induction cs arbitrary: s)
  case (Cons c cs)
  then show ?case using reachable.call [OF Cons.prems, of c] by (simp only: serve_all.simps)
qed simp

lemma empty_db_view [simp]: "orders_view (empty_db n) pid = None"
  by (simp add: empty_db_def orders_view_def)

lemma empty_db_ok: "db_ok (empty_db n)"
  by (simp add: empty_db_def db_ok_defs)

lemma reachable_inv:
  assumes "reachable sha gap s"
  shows "db_ok (snd s)" "all_orders (order_wf gap) (snd s)" "hashlocks_unique (snd s)"
    "all_orders terms_ok (snd s)"
proof -
  show "all_orders terms_ok (snd s)"
    by (rule terms_coord.reachable_keeps [OF assms]) (simp add: all_orders_def)
  show "db_ok (snd s)"
    by (rule schema_coord.reachable_keeps [OF assms]) (rule empty_db_ok)
  show "all_orders (order_wf gap) (snd s)"
    by (rule wf_coord.reachable_keeps [OF assms]) (simp add: all_orders_def)
  show "hashlocks_unique (snd s)"
    by (rule hashlock_coord.reachable_keeps [OF assms]) (simp add: hashlocks_unique_def)
qed

section \<open>A complete swap\<close>

lemma run_step:
  assumes view: "orders_view s (call_order c) = Some r"
    and legal: "canTransition (status r) (targetOf (call_action c))" "call_guard gap c r = Inr ()"
    and t: "t = snd (run_service gap c s)"
  shows "orders_view t (call_order c) = Some (call_change c (now_s s) r)"
    "orders_tbl t = update_where (\<lambda>r. publicId r = call_order c) (call_change c (now_s s))
      (orders_tbl s)"
  using run_service_legal [OF view legal] run_service_table [OF view legal] t by auto

text \<open>The claim event a contract emits for the order with source id \<open>oid\<close>.\<close>

definition claim_event :: "chain \<Rightarrow> string \<Rightarrow> string \<Rightarrow> int \<Rightarrow> bridge_order_event" where
  "claim_event c oid tx b = \<lparr>be_kind = Claim_event, be_chain = c, be_txHash = tx, be_blockNumber = b,
     be_orderId = Some oid, be_hashlock = None, be_timelock = None, be_preimage = None\<rparr>"

lemma apply_claim_event:
  assumes "find (\<lambda>r. srcChain r = c \<and> srcOrderId r = Some oid) (orders_tbl s) = Some d" "oid \<noteq> []"
  shows "snd (apply_event gap w (claim_event c oid tx b) s) =
    snd (recordClaim (publicId d) tx (Some w) s)"
proof -
  have "resolveOrder (claim_event c oid tx b) s = (Inr (Some (rowToOrder d)), s)"
    using assms by (simp add: resolveOrder_def claim_event_def truthy_def bindE_apply)
  then show ?thesis
    by (auto simp: apply_event_def applyClaim_def claim_event_def truthy_def bindE_apply thenE_apply
        catchE_apply split: prod.splits sum.splits)
qed

lemma update_where_last:
  "(\<And>x. x \<in> set xs \<Longrightarrow> \<not> Q x) \<Longrightarrow> Q y \<Longrightarrow> update_where Q f (xs @ [y]) = xs @ [f y]"
  by (induction xs) auto

lemma serve_announce:
  assumes "announce_checks i" "in_quoteId i = None" "orders_view d pid = None"
    "\<not> hashlock_taken (toLowerCase (in_hashlock i)) d"
  shows "serve sha gap (Announce_route pid i) (q, d) = (q, announced_db pid i d)"
proof -
  have "announce_unique pid i d = (Inr (rowToOrder (announced_row pid i d)), announced_db pid i d)"
    by (rule announce_unique_cases [of pid i d]) (use assms in auto)
  with assms show ?thesis
    by (simp add: announce_checks_def announce_svc_def thenE_apply on_quotes_apply on_db_apply
        quote_gate_def)
qed

text \<open>The state after each of the four calls of a swap without a destination lock.\<close>

lemma swap_states:
  assumes checks: "announce_checks i" "in_quoteId i = None"
    and fresh: "orders_view d pid = None" "\<not> hashlock_taken (toLowerCase (in_hashlock i)) d"
      "\<And>x. x \<in> set (orders_tbl d) \<Longrightarrow>
        srcOrderId x \<noteq> Some (sl_orderId l) \<and> preimage x \<noteq> Some (toLowerCase pre)"
    and lock: "lockSchema l" "sl_publicId l = pid"
    and pre: "revealSchema pid pre tx" "\<not> list_all (\<lambda>c. c = CHR ''0'') (drop 2 pre)"
    and oid: "is_decimal (sl_orderId l)" "hashOrderPreimage sha (int (parse_digits (sl_orderId l)))
        (toLowerCase pre) = Inr (toLowerCase (in_hashlock i))"
    and window: "\<not> past_timelock (Some (sl_timelock l)) (ms div 1000)"
  obtains d3 row where "serve_all sha gap [Announce_route pid i, Src_locked_route l,
      Reveal_route ms pid pre tx] (q, d) = (q, d3)"
    "orders_tbl d3 = orders_tbl d @ [row]" "orders_view d3 pid = Some (rowToOrder row)"
    "publicId row = pid" "status row = Secret_revealed" "preimage row = Some (toLowerCase pre)"
    "srcChain row = in_srcChain i" "srcOrderId row = Some (sl_orderId l)"
proof -
  let ?r0 = "announced_row pid i d" and ?l = "l\<lparr>sl_writer := None\<rparr>"
  define d1 where "d1 = announced_db pid i d"
  have pids: "\<And>x. x \<in> set (orders_tbl d) \<Longrightarrow> publicId x \<noteq> pid"
    using fresh(1) by (simp add: view_None_iff)
  have t1: "orders_tbl d1 = orders_tbl d @ [?r0]" by (simp add: d1_def announced_db_def)
  have v1: "orders_view d1 pid = Some (rowToOrder ?r0)"
    by (simp add: d1_def announced_view [OF fresh(1)])
  have r0: "dstTimelock ?r0 = None" "preimage ?r0 = None" "dstOrderId ?r0 = None"
    "srcChain ?r0 = in_srcChain i"
    by (simp_all add: announced_row_def new_order_row_def announce_order_input.defs)
  define d2 where "d2 = snd (recordSrcLock_svc gap ?l d1)"
  define r1 where "r1 = call_change (Do_src_lock ?l) (now_s d1) ?r0"
  have s2: "orders_view d2 pid = Some (rowToOrder r1)" "orders_tbl d2 = orders_tbl d @ [r1]"
    using run_step [of d1 "Do_src_lock ?l" "rowToOrder ?r0" gap d2] v1 lock r0 t1
    by (simp_all add: d2_def r1_def edges_into src_lock_guard_def update_where_last pids)
  have r1: "status r1 = Src_locked" "preimage r1 = None" "dstOrderId r1 = None"
    "srcOrderId r1 = Some (sl_orderId l)" "srcTimelock r1 = Some (sl_timelock l)"
    "dstTimelock r1 = None" "hashlock r1 = toLowerCase (in_hashlock i)" "publicId r1 = pid"
    "srcChain r1 = in_srcChain i"
    using r0 by (simp_all add: r1_def sql_updateSrcLock_def)
  have match: "some_id_matches sha (toLowerCase pre) (hashlock (rowToOrder r1))
      (known_ids (rowToOrder r1)) = Inr True"
    using r1 oid by (simp add: known_ids_def List.map_filter_simps)
  have "find (\<lambda>r. preimage r = Some (toLowerCase pre)) (orders_tbl d2) = None"
    using s2(2) fresh(3) r1 by (auto simp: find_None_iff)
  then have unused: "unused_by_others pid (toLowerCase pre) d2" by (simp add: unused_by_others_def)
  have valid: "assertValidSecretFormat pre ''preimage'' = Inr pre"
    using pre by (simp add: assertValid_Inr revealSchema_def)
  define d3 where "d3 = snd (reveal sha ms pid pre tx d2)"
  have rev: "d3 = snd (run_service gap (Do_secret pid (toLowerCase pre) tx None) d2)"
    unfolding d3_def using reveal_eq_record [OF valid s2(1) match] r1 unused window by simp
  define row where "row = call_change (Do_secret pid (toLowerCase pre) tx None) (now_s d2) r1"
  have s3: "orders_view d3 pid = Some (rowToOrder row)" "orders_tbl d3 = orders_tbl d @ [row]"
    using run_step [of d2 "Do_secret pid (toLowerCase pre) tx None" "rowToOrder r1" gap d3] s2 r1 rev
    by (simp_all add: row_def edges_into update_where_last pids)
  have a: "serve sha gap (Announce_route pid i) (q, d) = (q, d1)"
    unfolding d1_def by (rule serve_announce [OF checks fresh(1,2)])
  have b: "serve sha gap (Src_locked_route l) (q, d1) = (q, d2)"
    using lock by (simp add: on_db_apply d2_def)
  have c: "serve sha gap (Reveal_route ms pid pre tx) (q, d2) = (q, d3)"
    using pre by (simp add: on_db_apply d3_def)
  have "serve_all sha gap [Announce_route pid i, Src_locked_route l, Reveal_route ms pid pre tx]
      (q, d) = (q, d3)"
    by (simp only: serve_all.simps a b c)
  then show thesis
    by (rule that [OF _ s3(2,1)]) (use r1 in \<open>simp_all add: row_def sql_updateSecret_def\<close>)
qed

lemma claim_completes:
  assumes "orders_tbl d = rows @ [row]" "\<And>x. x \<in> set rows \<Longrightarrow> srcOrderId x \<noteq> Some oid"
    and "orders_view d (publicId row) = Some (rowToOrder row)" "status row = Secret_revealed"
    and "srcChain row = c" "srcOrderId row = Some oid" "oid \<noteq> []"
  shows "orders_view (snd (serve sha gap (Chain_event w (claim_event c oid tx b)) (q, d)))
    (publicId row) = Some (rowToOrder row\<lparr>status := Completed, updatedAt := now_s d\<rparr>)"
proof -
  have "find (\<lambda>r. srcChain r = c \<and> srcOrderId r = Some oid) (orders_tbl d) = Some row"
    using assms by (auto simp: find_append find_None_iff split: option.splits dest!: find_SomeD)
  from apply_claim_event [OF this assms(7), of gap w tx b]
  have "snd (serve sha gap (Chain_event w (claim_event c oid tx b)) (q, d)) =
      snd (run_service gap (Do_claim (publicId row) tx (Some w)) d)"
    by (simp add: on_db_apply)
  with run_step(1) [of d "Do_claim (publicId row) tx (Some w)" "rowToOrder row" gap] assms show ?thesis
    by (simp add: edges_into sql_updateStatus_def)
qed

section \<open>Properties\<close>

text \<open>C1: in every state the coordinator can reach, the columns of every order match its status and the
  timelocks keep the safety gap. An announced order has neither locks nor a secret; a source-locked
  one exactly the source lock; a destination-locked one both locks and no secret; a revealed or
  completed one the source lock and the secret with its transaction; a refunded one at least the
  source lock. With both timelocks known, the destination's expires first, by at least the
  configured gap. No call puts an order into \<open>failed\<close> or \<open>expired\<close>.\<close>

theorem reachable_orders_wf:
  assumes "reachable sha gap s" "orders_view (snd s) pid = Some r"
  shows "status_wf (status r) r \<and> gap_ok gap r \<and> status r \<notin> {Failed, Expired}"
  using reachable_inv(2) [OF assms(1)] assms(2) by (auto simp: all_orders_def order_wf_def)

definition sample_calls :: "coord_call list" where
  "sample_calls = [Announce_route ''p'' sample_announce, Src_locked_route sample_lock,
     Reveal_route 3000 ''p'' sample_pre ''0xcc'']"

definition sample_state :: coord_state where
  "sample_state = serve_all toy_sha 600 sample_calls (None, empty_db 100)"

theorem reachable_orders_wf_witness:
  "\<exists>r. orders_view (snd sample_state) ''p'' = Some r \<and> status r = Secret_revealed \<and> src_known r \<and>
    secret_known r"
proof -
  have "reachable toy_sha 600 sample_state"
    unfolding sample_state_def by (intro reachable_serve_all reachable.start)
  moreover have "map_option status (orders_view (snd sample_state) ''p'') = Some Secret_revealed"
    by code_simp
  then obtain r where "orders_view (snd sample_state) ''p'' = Some r" "status r = Secret_revealed"
    by auto
  ultimately show ?thesis using reachable_orders_wf [of toy_sha 600 sample_state "''p''" r] by auto
qed

text \<open>C10: identities and terms. In every reachable state an order is found by at most one hashlock and
  a hashlock names at most one order; every order's hashlock is a non-zero 32-byte value in lower
  case, its chains are those of its direction, its addresses are well-formed for their chains and
  its amounts are decimal; and the schema holds: public ids and row ids are unique, every event
  belongs to an order, and each chain has one cursor.\<close>

theorem reachable_terms_ok:
  assumes "reachable sha gap s" "orders_view (snd s) p = Some r" "orders_view (snd s) q = Some r'"
  shows "(hashlock r = hashlock r' \<longleftrightarrow> p = q) \<and> terms_ok r \<and> db_ok (snd s)"
  using reachable_inv(1,3,4) [OF assms(1)] assms(2,3)
  unfolding hashlocks_unique_def all_orders_def by auto

theorem reachable_terms_ok_witness:
  "\<exists>r. orders_view (snd sample_state) ''p'' = Some r \<and> terms_ok r \<and> db_ok (snd sample_state)"
proof -
  have "reachable toy_sha 600 sample_state"
    unfolding sample_state_def by (intro reachable_serve_all reachable.start)
  moreover have "orders_view (snd sample_state) ''p'' \<noteq> None" by code_simp
  then obtain r where "orders_view (snd sample_state) ''p'' = Some r" by blast
  ultimately show ?thesis
    using reachable_terms_ok [of toy_sha 600 sample_state "''p''" r "''p''" r] by auto
qed

text \<open>C11: no call ever loses an order, moves it backwards, edits its terms or rewrites the audit trail.
  After any sequence of calls from any state every order is still there, its status was reached
  along edges of the machine, its terms are those of its announcement, and the events recorded
  before are a prefix of the events recorded now.\<close>

theorem calls_only_move_forward:
  assumes "orders_view (snd s) pid = Some r"
  shows "\<exists>r'. orders_view (snd (serve_all sha gap cs s)) pid = Some r' \<and>
    canTransition\<^sup>*\<^sup>* (status r) (status r') \<and> same_terms r r' \<and>
    (\<exists>es. events_tbl (snd (serve_all sha gap cs s)) = events_tbl (snd s) @ es)"
proof -
  have le: "lifecycle_le (snd s) (snd (serve_all sha gap cs s))"
    by (rule lifecycle_coord.serve_all_keeps) (rule lifecycle.le_refl)
  then obtain es where "events_tbl (snd (serve_all sha gap cs s)) = events_tbl (snd s) @ es"
    by (rule lifecycle_le_events)
  with lifecycle_le_order [OF le assms] show ?thesis by metis
qed

theorem calls_only_move_forward_witness:
  "\<exists>r'. orders_view (snd (serve_all toy_sha 600 [Clock 200 0 0,
      Chain_event ''l'' (claim_event Ethereum ''7'' ''0xcc'' 9)] sample_state)) ''p'' = Some r' \<and>
    canTransition\<^sup>*\<^sup>* (status (the (orders_view (snd sample_state) ''p''))) (status r')"
proof -
  have "orders_view (snd sample_state) ''p'' \<noteq> None" by code_simp
  then have "orders_view (snd sample_state) ''p'' = Some (the (orders_view (snd sample_state) ''p''))"
    by simp
  from calls_only_move_forward [OF this, of toy_sha 600 "[Clock 200 0 0,
      Chain_event ''l'' (claim_event Ethereum ''7'' ''0xcc'' 9)]"]
  show ?thesis by blast
qed

text \<open>C4: an honest swap completes. In any state that does not know the order yet, announcing it with
  valid input, recording its source escrow, revealing a preimage that opens it before its timelock,
  and delivering the claim event of the escrow take the order to \<open>completed\<close>, with the revealed
  preimage stored in lower case.\<close>

theorem honest_swap_completes:
  assumes checks: "announce_checks i" "in_quoteId i = None"
    and fresh: "orders_view d pid = None" "\<not> hashlock_taken (toLowerCase (in_hashlock i)) d"
      "\<And>x. x \<in> set (orders_tbl d) \<Longrightarrow>
        srcOrderId x \<noteq> Some (sl_orderId l) \<and> preimage x \<noteq> Some (toLowerCase pre)"
    and lock: "lockSchema l" "sl_publicId l = pid"
    and pre: "revealSchema pid pre tx" "\<not> list_all (\<lambda>c. c = CHR ''0'') (drop 2 pre)"
    and oid: "is_decimal (sl_orderId l)" "hashOrderPreimage sha (int (parse_digits (sl_orderId l)))
        (toLowerCase pre) = Inr (toLowerCase (in_hashlock i))"
    and window: "\<not> past_timelock (Some (sl_timelock l)) (ms div 1000)"
  shows "\<exists>r. orders_view (snd (serve_all sha gap [Announce_route pid i, Src_locked_route l,
      Reveal_route ms pid pre tx, Chain_event w (claim_event (in_srcChain i) (sl_orderId l) tx' b)]
      (q, d))) pid = Some r \<and> status r = Completed \<and> preimage r = Some (toLowerCase pre)"
proof -
  obtain d3 row where s: "serve_all sha gap [Announce_route pid i, Src_locked_route l,
      Reveal_route ms pid pre tx] (q, d) = (q, d3)"
    "orders_tbl d3 = orders_tbl d @ [row]" "orders_view d3 pid = Some (rowToOrder row)"
    "publicId row = pid" "status row = Secret_revealed" "preimage row = Some (toLowerCase pre)"
    "srcChain row = in_srcChain i" "srcOrderId row = Some (sl_orderId l)"
    by (rule swap_states [OF checks fresh lock pre oid window])
  have "orders_view (snd (serve sha gap (Chain_event w (claim_event (in_srcChain i) (sl_orderId l)
      tx' b)) (q, d3))) pid = Some (rowToOrder row\<lparr>status := Completed, updatedAt := now_s d3\<rparr>)"
    using claim_completes [of d3 "orders_tbl d" row "sl_orderId l" "in_srcChain i"] s fresh(3) oid(1)
    by (simp add: is_decimal_def)
  moreover have "serve_all sha gap [Announce_route pid i, Src_locked_route l,
      Reveal_route ms pid pre tx, Chain_event w (claim_event (in_srcChain i) (sl_orderId l) tx' b)]
      (q, d) = serve sha gap (Chain_event w (claim_event (in_srcChain i) (sl_orderId l) tx' b)) (q, d3)"
    using s(1) by (simp only: serve_all.simps)
  ultimately show ?thesis using s(6) by simp
qed

theorem honest_swap_completes_witness:
  "\<exists>r. orders_view (snd (serve_all toy_sha 600 [Announce_route ''p'' sample_announce,
      Src_locked_route sample_lock, Reveal_route 3000 ''p'' sample_pre ''0xcc'',
      Chain_event ''l'' (claim_event Ethereum ''7'' ''0xdd'' 9)] (None, empty_db 100))) ''p'' = Some r \<and>
    status r = Completed \<and> preimage r = Some sample_pre"
proof -
  have 1: "announce_checks sample_announce" "in_quoteId sample_announce = None"
    "orders_view (empty_db 100) ''p'' = None"
    "\<not> hashlock_taken (toLowerCase (in_hashlock sample_announce)) (empty_db 100)"
    "lockSchema sample_lock" "sl_publicId sample_lock = ''p''" "revealSchema ''p'' sample_pre ''0xcc''"
    "\<not> list_all (\<lambda>c. c = CHR ''0'') (drop 2 sample_pre)" "is_decimal (sl_orderId sample_lock)"
    "hashOrderPreimage toy_sha (int (parse_digits (sl_orderId sample_lock))) (toLowerCase sample_pre) =
      Inr (toLowerCase (in_hashlock sample_announce))"
    "\<not> past_timelock (Some (sl_timelock sample_lock)) (3000 div 1000)"
    "in_srcChain sample_announce = Ethereum" "sl_orderId sample_lock = ''7''"
    by code_simp+
  have 2: "x \<in> set (orders_tbl (empty_db 100)) \<Longrightarrow> srcOrderId x \<noteq> Some (sl_orderId sample_lock) \<and>
    preimage x \<noteq> Some (toLowerCase sample_pre)" for x
    by (simp add: empty_db_def)
  from honest_swap_completes [OF 1(1-4) 2 1(5-11), of 600 "''l''" "''0xdd''" 9 None]
  show ?thesis using 1(12,13) sample_locked_facts(7) by simp
qed

end
