(* ===== verification/Json_Text.thy ===== *)
theory Json_Text
  imports OS_Prelude
begin

text \<open>
  The two encodings of the runtime that the history cursor goes through:
  \<open>Buffer.from(s, "utf8").toString("base64url")\<close> with its inverse, and \<open>JSON.stringify\<close> /
  \<open>JSON.parse\<close>. A string stands for its UTF-8 bytes.

  \<^item> The base64url decoder skips every character outside the two base64 alphabets and drops an
    incomplete last group, as the runtime does.
  \<^item> The JSON parser follows the grammar. Its fuel is the length of the text plus one: every value,
    member and element it enters has consumed a character. A number whose value is an integer is a
    \<open>JNum\<close>, any other a \<open>JFrac\<close>; rounding of numbers beyond 53 bits is not modelled.
\<close>

section \<open>base64url\<close>

text \<open>The alphabet \<open>A\<close>-\<open>Z\<close>, \<open>a\<close>-\<open>z\<close>, \<open>0\<close>-\<open>9\<close>, \<open>-\<close>, \<open>_\<close>.\<close>

definition b64_char :: "nat \<Rightarrow> char" where
  "b64_char n = char_of (if n < 26 then n + 65 else if n < 52 then n + 71
     else if n < 62 then n - 4 else if n = 62 then 45 else 95)"

definition b64_val :: "char \<Rightarrow> nat option" where
  "b64_val c =
    (let n = of_char c :: nat in
     if 65 \<le> n \<and> n \<le> 90 then Some (n - 65)
     else if 97 \<le> n \<and> n \<le> 122 then Some (n - 71)
     else if 48 \<le> n \<and> n \<le> 57 then Some (n + 4)
     else if n = 45 \<or> n = 43 then Some 62
     else if n = 95 \<or> n = 47 then Some 63
     else None)"

fun sextets :: "nat list \<Rightarrow> nat list" where
  "sextets [] = []"
| "sextets [a] = [a div 4, (a mod 4) * 16]"
| "sextets [a, b] = [a div 4, (a mod 4) * 16 + b div 16, (b mod 16) * 4]"
| "sextets (a # b # c # r) =
    [a div 4, (a mod 4) * 16 + b div 16, (b mod 16) * 4 + c div 64, c mod 64] @ sextets r"

fun octets :: "nat list \<Rightarrow> nat list" where
  "octets (x # y # z # w # r) =
    [x * 4 + y div 16, (y mod 16) * 16 + z div 4, (z mod 4) * 64 + w] @ octets r"
| "octets [x, y, z] = [x * 4 + y div 16, (y mod 16) * 16 + z div 4]"
| "octets [x, y] = [x * 4 + y div 16]"
| "octets _ = []"

definition toBase64url :: "string \<Rightarrow> string" where
  "toBase64url s = map b64_char (sextets (map of_char s))"

definition fromBase64url :: "string \<Rightarrow> string" where
  "fromBase64url s = map char_of (octets (List.map_filter b64_val s))"

lemma octets_sextets: "(\<forall>n \<in> set ns. n < 256) \<Longrightarrow> octets (sextets ns) = ns"
proof (induction ns rule: sextets.induct)
  case (4 a b c r)
  have "a div 4 * 4 + ((a mod 4) * 16 + b div 16) div 16 = a" using 4(2) by auto
  moreover have "((a mod 4) * 16 + b div 16) mod 16 * 16 + ((b mod 16) * 4 + c div 64) div 4 = b"
    using 4(2) by auto
  moreover have "((b mod 16) * 4 + c div 64) mod 4 * 64 + c mod 64 = c" using 4(2) by auto
  ultimately show ?case using 4 by simp
next
  case (3 a b)
  have "a div 4 * 4 + ((a mod 4) * 16 + b div 16) div 16 = a" using 3 by auto
  moreover have "((a mod 4) * 16 + b div 16) mod 16 * 16 + ((b mod 16) * 4) div 4 = b" using 3 by auto
  ultimately show ?case by simp
qed simp_all

lemma sextets_bound: "(\<forall>n \<in> set ns. n < 256) \<Longrightarrow> x \<in> set (sextets ns) \<Longrightarrow> x < 64"
  by (induction ns rule: sextets.induct) auto

lemma b64_val_char: "n < 64 \<Longrightarrow> b64_val (b64_char n) = Some n"
  by (auto simp: b64_val_def b64_char_def Let_def)

lemma map_filter_b64:
  "(\<forall>n \<in> set ns. n < 64) \<Longrightarrow> List.map_filter b64_val (map b64_char ns) = ns"
  by (induction ns) (auto simp: List.map_filter_def b64_val_char)

theorem fromBase64url_toBase64url [simp]: "fromBase64url (toBase64url s) = s"
proof -
  have b: "\<forall>n \<in> set (map of_char s). n < (256 :: nat)" by (auto simp: of_char_def)
  then have "List.map_filter b64_val (toBase64url s) = sextets (map of_char s)"
    unfolding toBase64url_def by (intro map_filter_b64) (use sextets_bound in blast)
  then show ?thesis using octets_sextets[OF b] by (simp add: fromBase64url_def comp_def)
qed

section \<open>JSON\<close>

datatype json = JNull | JBool bool | JNum int | JFrac string | JStr string
  | JArr "json list" | JObj "(string \<times> json) list"

definition hex_char :: "nat \<Rightarrow> char" where
  "hex_char n = char_of (if n < 10 then n + 48 else n + 87)"

definition quote_char :: "char \<Rightarrow> string" where
  "quote_char c =
    (let n = of_char c :: nat in
     if n = 34 then [CHR 0x5C, CHR 0x22]
     else if n = 92 then [CHR 0x5C, CHR 0x5C]
     else if n = 8 then CHR 0x5C # ''b''
     else if n = 9 then CHR 0x5C # ''t''
     else if n = 10 then CHR 0x5C # ''n''
     else if n = 12 then CHR 0x5C # ''f''
     else if n = 13 then CHR 0x5C # ''r''
     else if n < 32 then CHR 0x5C # ''u00'' @ [hex_char (n div 16), hex_char (n mod 16)]
     else [c])"

definition quote_text :: "string \<Rightarrow> string" where
  "quote_text s = CHR 0x22 # concat (map quote_char s) @ [CHR 0x22]"

fun intercalate :: "string \<Rightarrow> string list \<Rightarrow> string" where
  "intercalate sep [] = []"
| "intercalate sep [x] = x"
| "intercalate sep (x # y # xs) = x @ sep @ intercalate sep (y # xs)"

fun JSON_stringify :: "json \<Rightarrow> string" where
  "JSON_stringify JNull = ''null''"
| "JSON_stringify (JBool b) = (if b then ''true'' else ''false'')"
| "JSON_stringify (JNum i) = show_int i"
| "JSON_stringify (JFrac t) = t"
| "JSON_stringify (JStr s) = quote_text s"
| "JSON_stringify (JArr vs) = ''['' @ intercalate '','' (map JSON_stringify vs) @ '']''"
| "JSON_stringify (JObj kvs) =
    ''{'' @ intercalate '','' (map (\<lambda>kv. quote_text (fst kv) @ '':'' @ JSON_stringify (snd kv)) kvs) @ ''}''"

definition is_json_ws :: "char \<Rightarrow> bool" where
  "is_json_ws c \<longleftrightarrow> (of_char c :: nat) \<in> {9, 10, 13, 32}"

definition skip_ws :: "string \<Rightarrow> string" where
  "skip_ws s = dropWhile is_json_ws s"

definition hex_val :: "char \<Rightarrow> nat option" where
  "hex_val c =
    (let n = of_char c :: nat in
     if 48 \<le> n \<and> n \<le> 57 then Some (n - 48)
     else if 97 \<le> n \<and> n \<le> 102 then Some (n - 87)
     else if 65 \<le> n \<and> n \<le> 70 then Some (n - 55)
     else None)"

fun hex4 :: "char \<Rightarrow> char \<Rightarrow> char \<Rightarrow> char \<Rightarrow> nat option" where
  "hex4 a b c d = (case (hex_val a, hex_val b, hex_val c, hex_val d) of
     (Some w, Some x, Some y, Some z) \<Rightarrow> Some (((w * 16 + x) * 16 + y) * 16 + z)
   | _ \<Rightarrow> None)"

definition utf8 :: "nat \<Rightarrow> string" where
  "utf8 n =
    (if n < 128 then [char_of n]
     else if n < 2048 then [char_of (192 + n div 64), char_of (128 + n mod 64)]
     else [char_of (224 + n div 4096), char_of (128 + n div 64 mod 64), char_of (128 + n mod 64)])"

definition unescape :: "char \<Rightarrow> char option" where
  "unescape e =
    (if e = CHR 0x22 \<or> e = CHR 0x5C \<or> e = CHR ''/'' then Some e
     else if e = CHR ''b'' then Some (CHR 0x08)
     else if e = CHR ''f'' then Some (CHR 0x0C)
     else if e = CHR ''n'' then Some (CHR 0x0A)
     else if e = CHR ''r'' then Some (CHR 0x0D)
     else if e = CHR ''t'' then Some (CHR 0x09)
     else None)"

text \<open>The rest of a string after its opening quotation mark, up to the closing one.\<close>

fun string_body :: "string \<Rightarrow> (string \<times> string) option" where
  "string_body [] = None"
| "string_body (c # s) =
    (if c = CHR 0x22 then Some ([], s)
     else if c = CHR 0x5C then
       (case s of
          [] \<Rightarrow> None
        | e # r \<Rightarrow>
           (if e = CHR ''u'' then
              (case r of
                 h1 # h2 # h3 # h4 # r' \<Rightarrow>
                  (case hex4 h1 h2 h3 h4 of
                     None \<Rightarrow> None
                   | Some u \<Rightarrow> map_option (\<lambda>(t, q). (utf8 u @ t, q)) (string_body r'))
               | _ \<Rightarrow> None)
            else (case unescape e of
                    None \<Rightarrow> None
                  | Some x \<Rightarrow> map_option (\<lambda>(t, q). (x # t, q)) (string_body r))))
     else if (of_char c :: nat) < 32 then None
     else map_option (\<lambda>(t, q). (c # t, q)) (string_body s))"

definition json_number :: "bool \<Rightarrow> string \<Rightarrow> string \<Rightarrow> int \<Rightarrow> json" where
  "json_number neg ds fs e =
    (let m = (if neg then - int (parse_digits (ds @ fs)) else int (parse_digits (ds @ fs)));
         k = e - int (length fs)
     in if k \<ge> 0 then JNum (m * 10 ^ nat k)
        else if m mod 10 ^ nat (- k) = 0 then JNum (m div 10 ^ nat (- k))
        else JFrac (ds @ ''.'' @ fs))"

definition exponent_part :: "string \<Rightarrow> (int \<times> string) option" where
  "exponent_part s =
    (case s of
       [] \<Rightarrow> Some (0, [])
     | c # r \<Rightarrow>
        (if c = CHR ''e'' \<or> c = CHR ''E'' then
           (let neg = (r \<noteq> [] \<and> hd r = CHR ''-'');
                r' = (if r \<noteq> [] \<and> (hd r = CHR ''-'' \<or> hd r = CHR ''+'') then tl r else r);
                ds = takeWhile is_digit r'
            in if ds = [] then None
               else Some (if neg then - int (parse_digits ds) else int (parse_digits ds),
                          dropWhile is_digit r'))
         else Some (0, s)))"

definition parse_number :: "string \<Rightarrow> (json \<times> string) option" where
  "parse_number s =
    (let neg = (s \<noteq> [] \<and> hd s = CHR ''-'');
         s1 = (if neg then tl s else s);
         ds = takeWhile is_digit s1; s2 = dropWhile is_digit s1
     in if ds = [] \<or> hd ds = CHR ''0'' \<and> length ds > 1 then None
        else (let dot = (s2 \<noteq> [] \<and> hd s2 = CHR ''.'');
                  fs = (if dot then takeWhile is_digit (tl s2) else []);
                  s3 = (if dot then dropWhile is_digit (tl s2) else s2)
              in if dot \<and> fs = [] then None
                 else (case exponent_part s3 of
                         None \<Rightarrow> None
                       | Some (e, r) \<Rightarrow> Some (json_number neg ds fs e, r))))"

definition literal :: "string \<Rightarrow> json \<Rightarrow> string \<Rightarrow> (json \<times> string) option" where
  "literal w v s = (if take (length w) s = w then Some (v, drop (length w) s) else None)"

text \<open>\<open>parse_value\<close> reads one value, \<open>parse_member\<close> the members of an object from a key on,
  \<open>parse_element\<close> the elements of an array from a value on.\<close>

fun parse_value :: "nat \<Rightarrow> string \<Rightarrow> (json \<times> string) option"
  and parse_member :: "nat \<Rightarrow> string \<Rightarrow> ((string \<times> json) list \<times> string) option"
  and parse_element :: "nat \<Rightarrow> string \<Rightarrow> (json list \<times> string) option" where
  "parse_value 0 s = None"
| "parse_value (Suc k) s =
    (case skip_ws s of
       [] \<Rightarrow> None
     | c # r \<Rightarrow>
        (if c = CHR 0x22 then map_option (\<lambda>(t, q). (JStr t, q)) (string_body r)
         else if c = CHR 0x7B then
           (case skip_ws r of
              [] \<Rightarrow> None
            | d # q \<Rightarrow>
               (if d = CHR 0x7D then Some (JObj [], q)
                else map_option (\<lambda>(t, q). (JObj t, q)) (parse_member k r)))
         else if c = CHR 0x5B then
           (case skip_ws r of
              [] \<Rightarrow> None
            | d # q \<Rightarrow>
               (if d = CHR 0x5D then Some (JArr [], q)
                else map_option (\<lambda>(t, q). (JArr t, q)) (parse_element k r)))
         else if c = CHR ''t'' then literal ''true'' (JBool True) (c # r)
         else if c = CHR ''f'' then literal ''false'' (JBool False) (c # r)
         else if c = CHR ''n'' then literal ''null'' JNull (c # r)
         else parse_number (c # r)))"
| "parse_member 0 s = None"
| "parse_member (Suc k) s =
    (case skip_ws s of
       [] \<Rightarrow> None
     | c # r \<Rightarrow>
        (if c \<noteq> CHR 0x22 then None
         else case string_body r of
           None \<Rightarrow> None
         | Some (key, r1) \<Rightarrow>
            (case skip_ws r1 of
               [] \<Rightarrow> None
             | d # r2 \<Rightarrow>
                (if d \<noteq> CHR '':'' then None
                 else case parse_value k r2 of
                   None \<Rightarrow> None
                 | Some (v, r3) \<Rightarrow>
                    (case skip_ws r3 of
                       [] \<Rightarrow> None
                     | e # r4 \<Rightarrow>
                        (if e = CHR 0x7D then Some ([(key, v)], r4)
                         else if e = CHR '','' then
                           map_option (\<lambda>(t, q). ((key, v) # t, q)) (parse_member k r4)
                         else None))))))"
| "parse_element 0 s = None"
| "parse_element (Suc k) s =
    (case parse_value k s of
       None \<Rightarrow> None
     | Some (v, r) \<Rightarrow>
        (case skip_ws r of
           [] \<Rightarrow> None
         | e # r' \<Rightarrow>
            (if e = CHR 0x5D then Some ([v], r')
             else if e = CHR '','' then map_option (\<lambda>(t, q). (v # t, q)) (parse_element k r')
             else None)))"

definition JSON_parse :: "string \<Rightarrow> json option" where
  "JSON_parse s = (case parse_value (Suc (length s)) s of
     Some (v, r) \<Rightarrow> (if skip_ws r = [] then Some v else None)
   | None \<Rightarrow> None)"

text \<open>A property of the parsed value; the last of two members with one name wins.\<close>

definition jget :: "json \<Rightarrow> string \<Rightarrow> json option" where
  "jget j key = (case j of JObj kvs \<Rightarrow> map_of (rev kvs) key | _ \<Rightarrow> None)"

section \<open>What is written is read back\<close>

lemma hex_val_char: "n < 16 \<Longrightarrow> hex_val (hex_char n) = Some n"
  by (auto simp: hex_val_def hex_char_def Let_def)

lemma hex4_char: "n < 32 \<Longrightarrow> hex4 (CHR ''0'') (CHR ''0'') (hex_char (n div 16)) (hex_char (n mod 16)) = Some n"
  by (simp add: hex_val_char) (simp add: hex_val_def)

lemma char_eqI: "(of_char c :: nat) = of_char d \<Longrightarrow> c = d"
  by (metis char_of_char)

lemma quote_char_special:
  "quote_char (CHR 0x22) = [CHR 0x5C, CHR 0x22]" "quote_char (CHR 0x5C) = [CHR 0x5C, CHR 0x5C]"
  "quote_char (CHR 0x08) = CHR 0x5C # ''b''" "quote_char (CHR 0x09) = CHR 0x5C # ''t''"
  "quote_char (CHR 0x0A) = CHR 0x5C # ''n''" "quote_char (CHR 0x0C) = CHR 0x5C # ''f''"
  "quote_char (CHR 0x0D) = CHR 0x5C # ''r''"
  by code_simp+

lemma unescape_special:
  "unescape (CHR 0x22) = Some (CHR 0x22)" "unescape (CHR 0x5C) = Some (CHR 0x5C)"
  "unescape (CHR ''b'') = Some (CHR 0x08)" "unescape (CHR ''t'') = Some (CHR 0x09)"
  "unescape (CHR ''n'') = Some (CHR 0x0A)" "unescape (CHR ''f'') = Some (CHR 0x0C)"
  "unescape (CHR ''r'') = Some (CHR 0x0D)"
  by code_simp+

lemma string_body_escape:
  "e \<noteq> CHR ''u'' \<Longrightarrow> unescape e = Some x \<Longrightarrow> string_body r = Some (t, q) \<Longrightarrow>
   string_body (CHR 0x5C # e # r) = Some (x # t, q)"
  by simp

lemma string_body_cons:
  assumes "string_body r = Some (t, q)"
  shows "string_body (quote_char c @ r) = Some (c # t, q)"
proof -
  let ?n = "of_char c :: nat"
  consider "?n \<in> {34, 92, 8, 9, 10, 12, 13}" | "?n < 32" "?n \<notin> {34, 92, 8, 9, 10, 12, 13}"
    | "?n \<noteq> 34" "?n \<noteq> 92" "32 \<le> ?n" by fastforce
  then show ?thesis
  proof cases
    case 1
    have "?n = 34 \<Longrightarrow> c = CHR 0x22" "?n = 92 \<Longrightarrow> c = CHR 0x5C" "?n = 8 \<Longrightarrow> c = CHR 0x08" "?n = 9 \<Longrightarrow> c = CHR 0x09"
      "?n = 10 \<Longrightarrow> c = CHR 0x0A" "?n = 12 \<Longrightarrow> c = CHR 0x0C" "?n = 13 \<Longrightarrow> c = CHR 0x0D"
      by (intro char_eqI, simp)+
    with 1 consider "c = CHR 0x22" | "c = CHR 0x5C" | "c = CHR 0x08" | "c = CHR 0x09" | "c = CHR 0x0A" | "c = CHR 0x0C" | "c = CHR 0x0D" by blast
    then show ?thesis
      by cases (simp_all add: quote_char_special unescape_special assms string_body_escape
          del: string_body.simps)
  next
    case 2
    then have "quote_char c = CHR 0x5C # ''u00'' @ [hex_char (?n div 16), hex_char (?n mod 16)]"
      by (simp add: quote_char_def Let_def)
    with 2 assms show ?thesis by (simp add: hex4_char utf8_def del: hex4.simps)
  next
    case 3
    then have "c \<noteq> CHR 0x22" "c \<noteq> CHR 0x5C" by auto
    with 3 assms show ?thesis by (simp add: quote_char_def)
  qed
qed

lemma string_body_quote: "string_body (concat (map quote_char s) @ CHR 0x22 # r) = Some (s, r)"
  by (induction s) (auto intro: string_body_cons)

lemma show_nat_Suc: "show_nat n \<noteq> []"
  using is_decimal_show_nat[of n] by (simp add: is_decimal_def)

lemma is_digit_hd_show: "is_digit (hd (show_nat n))"
  using is_decimal_show_nat[of n] by (cases "show_nat n") (auto simp: is_decimal_def)

text \<open>What may follow a value inside a document.\<close>

definition ends_value :: "string \<Rightarrow> bool" where
  "ends_value r \<longleftrightarrow> r \<noteq> [] \<and> (hd r = CHR '','' \<or> hd r = CHR 0x7D \<or> hd r = CHR 0x5D)"

lemma parse_number_show:
  assumes "ends_value r"
  shows "parse_number (show_nat n @ r) = Some (JNum (int n), r)"
proof -
  obtain c q where r: "r = c # q" and c: "c = CHR '','' \<or> c = CHR 0x7D \<or> c = CHR 0x5D"
    using assms by (cases r) (auto simp: ends_value_def)
  have nd: "\<not> is_digit c" using c by (auto simp: is_digit_def)
  have tw: "takeWhile is_digit (show_nat n @ r) = show_nat n" "dropWhile is_digit (show_nat n @ r) = r"
    using takeWhile_digits[of "show_nat n" r] is_decimal_show_nat[of n] nd r
    by (simp_all add: is_decimal_def)
  have "hd (show_nat n @ r) \<noteq> CHR ''-''" using is_digit_hd_show[of n] show_nat_Suc[of n]
    by (auto simp: is_digit_def)
  moreover have "hd (show_nat n) = CHR ''0'' \<Longrightarrow> length (show_nat n) = 1"
    using hd_show_nat[of n] by (cases "n = 0") (auto simp: show_nat.simps[of 0])
  moreover have "exponent_part r = Some (0, r)" using c r by (auto simp: exponent_part_def)
  ultimately show ?thesis
    using tw c r show_nat_Suc[of n] unfolding parse_number_def Let_def
    by (auto simp: json_number_def)
qed

fun flat :: "json \<Rightarrow> bool" where
  "flat (JNum i) \<longleftrightarrow> 0 \<le> i"
| "flat (JStr s) \<longleftrightarrow> True"
| "flat _ \<longleftrightarrow> False"

lemma skip_ws_Cons: "\<not> is_json_ws c \<Longrightarrow> skip_ws (c # s) = c # s"
  by (simp add: skip_ws_def)

lemma parse_value_flat:
  assumes "flat v" "ends_value r"
  shows "parse_value (Suc k) (JSON_stringify v @ r) = Some (v, r)"
proof (cases v)
  case (JNum i)
  obtain c q where cq: "show_nat (nat i) = c # q" using show_nat_Suc[of "nat i"] by (cases "show_nat (nat i)") auto
  have d: "is_digit c" using is_digit_hd_show[of "nat i"] cq by simp
  then have "\<not> is_json_ws c" "c \<notin> {CHR 0x22, CHR 0x7B, CHR 0x5B, CHR ''t'', CHR ''f'', CHR ''n''}"
    by (auto simp: is_digit_def is_json_ws_def)
  then show ?thesis
    using parse_number_show[OF assms(2), of "nat i"] JNum assms(1)
    by (simp add: show_int_def cq skip_ws_Cons)
next
  case (JStr s)
  then show ?thesis by (simp add: quote_text_def skip_ws_Cons is_json_ws_def string_body_quote)
qed (use assms in auto)

lemma skip_ws_ends: "ends_value r \<Longrightarrow> skip_ws r = r"
  by (cases r) (auto simp: ends_value_def skip_ws_def is_json_ws_def)

lemma parse_member_flat:
  assumes "flat v" "ends_value r"
  shows "parse_member (Suc (Suc k)) (quote_text key @ '':'' @ JSON_stringify v @ r) =
    (if hd r = CHR 0x7D then Some ([(key, v)], tl r)
     else if hd r = CHR '','' then map_option (\<lambda>(t, q). ((key, v) # t, q)) (parse_member (Suc k) (tl r))
     else None)"
proof -
  obtain c q where r: "r = c # q" using assms(2) by (cases r) (auto simp: ends_value_def)
  show ?thesis
    using skip_ws_ends[OF assms(2)] parse_value_flat[OF assms, of k] r
    by (simp add: quote_text_def skip_ws_Cons is_json_ws_def string_body_quote del: parse_value.simps)
qed

lemma parse_members_flat:
  "list_all (flat \<circ> snd) kvs \<Longrightarrow> kvs \<noteq> [] \<Longrightarrow> length kvs < k \<Longrightarrow>
   parse_member k (intercalate '','' (map (\<lambda>kv. quote_text (fst kv) @ '':'' @ JSON_stringify (snd kv)) kvs)
      @ CHR 0x7D # rest) = Some (kvs, rest)"
proof (induction kvs arbitrary: k)
  case (Cons kv kvs)
  obtain j where k: "k = Suc (Suc j)" using Cons(4) by (cases k; cases "k - 1") auto
  obtain key v where kv: "kv = (key, v)" by force
  show ?case
  proof (cases kvs)
    case Nil
    have "ends_value (CHR 0x7D # rest)" by (simp add: ends_value_def)
    with parse_member_flat[of v "CHR 0x7D # rest" j key] Cons(2) show ?thesis
      by (simp add: Nil kv k del: parse_member.simps)
  next
    case (Cons kv2 kvs2)
    let ?r = "intercalate '','' (map (\<lambda>kv. quote_text (fst kv) @ '':'' @ JSON_stringify (snd kv)) kvs)
      @ CHR 0x7D # rest"
    have e: "ends_value (CHR '','' # ?r)" by (simp add: ends_value_def)
    have "parse_member (Suc j) ?r = Some (kvs, rest)"
      using Cons.IH[of "Suc j"] Cons.prems Cons k by simp
    with parse_member_flat[OF _ e, of v j key] Cons.prems(1) Cons show ?thesis
      by (simp add: kv k del: parse_member.simps)
  qed
qed simp

lemma length_intercalate:
  assumes "\<And>x. f x \<noteq> []"
  shows "length xs \<le> length (intercalate sep (map f xs))"
proof (induction xs rule: induct_list012)
  case (3 x y zs)
  have "0 < length (f x)" using assms by simp
  then have "1 \<le> length (f x)" by linarith
  then show ?case using 3(2) by simp
next
  case (2 x)
  show ?case using assms[of x] by (simp add: Suc_le_eq)
qed simp

theorem JSON_parse_stringify:
  assumes "list_all (flat \<circ> snd) kvs" "kvs \<noteq> []"
  shows "JSON_parse (JSON_stringify (JObj kvs)) = Some (JObj kvs)"
proof -
  let ?f = "\<lambda>kv. quote_text (fst kv) @ '':'' @ JSON_stringify (snd kv)"
  let ?t = "intercalate '','' (map ?f kvs)"
  have q: "?t = CHR 0x22 # tl ?t"
    using assms(2) by (cases kvs rule: list.exhaust; cases "tl kvs") (auto simp: quote_text_def)
  have "length kvs \<le> length ?t" using length_intercalate[of ?f kvs "'',''"] by (simp add: quote_text_def)
  then have "parse_member (Suc (Suc (length ?t))) (?t @ [CHR 0x7D]) = Some (kvs, [])"
    using parse_members_flat[OF assms, of "Suc (Suc (length ?t))" "[]"] by simp
  moreover have "skip_ws (?t @ [CHR 0x7D]) = ?t @ [CHR 0x7D]"
    by (subst (1 2) q) (simp add: skip_ws_Cons is_json_ws_def)
  moreover have "hd (?t @ [CHR 0x7D]) = CHR 0x22" by (subst q) simp
  ultimately have "parse_value (Suc (Suc (Suc (length ?t)))) (CHR 0x7B # ?t @ [CHR 0x7D]) = Some (JObj kvs, [])"
    by (cases "?t @ [CHR 0x7D]") (simp_all add: skip_ws_Cons is_json_ws_def del: parse_member.simps)
  then show ?thesis by (simp add: JSON_parse_def skip_ws_def del: parse_value.simps)
qed

end
