(* ===== verification/History_Cursor.thy ===== *)
theory History_Cursor
  imports Json_Text Sdk_Amounts
begin

text \<open>
  The keyset cursor of the history route (\<open>coordinator/src/server/routes/cursor-utils.ts\<close>): minted
  by the coordinator, echoed by clients, and checked against the request before it reaches the
  query layer. A query parameter of the framework is absent, a text, an array (the name repeated or
  bracketed), or an object.
\<close>

definition CURSOR_VERSION :: int where
  "CURSOR_VERSION = 1"

text \<open>\<open>/^[0-9a-f]{32}$/\<close> and \<open>/^(testnet|mainnet)$/\<close>\<close>

definition is_public_id :: "string \<Rightarrow> bool" where
  "is_public_id p \<longleftrightarrow> length p = 32 \<and> list_all is_lower_hex p"

definition is_network :: "string \<Rightarrow> bool" where
  "is_network n \<longleftrightarrow> n = ''testnet'' \<or> n = ''mainnet''"

record history_cursor =
  hc_createdAt :: int
  hc_publicId :: string
  hc_user :: string
  hc_network :: string

record cursor_scope =
  sc_user :: string
  sc_network :: string

datatype cursor_rejection = Malformed | Unsupported_version | User_mismatch | Network_mismatch

datatype query_value = Absent | Text string | Repeated "string list" | Nested

definition normaliseUser :: "string \<Rightarrow> string" where
  "normaliseUser user = toLowerCase (trim_str user)"

definition normaliseNetwork :: "string \<Rightarrow> string" where
  "normaliseNetwork network = toLowerCase (trim_str network)"

definition cursor_payload :: "history_cursor \<Rightarrow> json" where
  "cursor_payload c = JObj
    [(''v'', JNum CURSOR_VERSION),
     (''c'', JNum (hc_createdAt c)),
     (''p'', JStr (toLowerCase (hc_publicId c))),
     (''u'', JStr (normaliseUser (hc_user c))),
     (''n'', JStr (normaliseNetwork (hc_network c)))]"

definition encodeHistoryCursor :: "history_cursor \<Rightarrow> string" where
  "encodeHistoryCursor c = toBase64url (JSON_stringify (cursor_payload c))"

definition read_payload :: "json \<Rightarrow> history_cursor option" where
  "read_payload j =
    (if jget j ''v'' \<noteq> Some (JNum CURSOR_VERSION) then None
     else case (jget j ''c'', jget j ''p'', jget j ''u'', jget j ''n'') of
       (Some (JNum c), Some (JStr p), Some (JStr u), Some (JStr n)) \<Rightarrow>
         (if c < 0 \<or> \<not> is_public_id p \<or> u = [] \<or> \<not> is_network n then None
          else Some \<lparr>hc_createdAt = c, hc_publicId = p, hc_user = u, hc_network = n\<rparr>)
     | _ \<Rightarrow> None)"

definition decodeHistoryCursor :: "query_value \<Rightarrow> history_cursor option" where
  "decodeHistoryCursor raw =
    (case raw of
       Text t \<Rightarrow>
         (if t = [] then None
          else case JSON_parse (fromBase64url t) of None \<Rightarrow> None | Some j \<Rightarrow> read_payload j)
     | _ \<Rightarrow> None)"

definition validateHistoryCursor :: "query_value \<Rightarrow> cursor_scope
    \<Rightarrow> cursor_rejection + history_cursor" where
  "validateHistoryCursor raw scope =
    (case decodeHistoryCursor raw of
       None \<Rightarrow> Inl Malformed
     | Some cursor \<Rightarrow>
        (if hc_network cursor \<noteq> normaliseNetwork (sc_network scope) then Inl Network_mismatch
         else if hc_user cursor \<noteq> normaliseUser (sc_user scope) then Inl User_mismatch
         else Inr cursor))"

section \<open>Minted cursors\<close>

text \<open>What \<open>encodeHistoryCursor\<close> keeps of a cursor.\<close>

definition normalised :: "history_cursor \<Rightarrow> history_cursor" where
  "normalised c = \<lparr>hc_createdAt = hc_createdAt c, hc_publicId = toLowerCase (hc_publicId c),
     hc_user = normaliseUser (hc_user c), hc_network = normaliseNetwork (hc_network c)\<rparr>"

definition mintable :: "history_cursor \<Rightarrow> bool" where
  "mintable c \<longleftrightarrow> 0 \<le> hc_createdAt c \<and> is_public_id (toLowerCase (hc_publicId c))
     \<and> normaliseUser (hc_user c) \<noteq> [] \<and> is_network (normaliseNetwork (hc_network c))"

lemma sextets_nonempty: "ns \<noteq> [] \<Longrightarrow> sextets ns \<noteq> []"
  by (cases ns rule: sextets.cases) auto

lemma toBase64url_nonempty: "s \<noteq> [] \<Longrightarrow> toBase64url s \<noteq> []"
  by (simp add: toBase64url_def sextets_nonempty)

lemma parse_payload:
  "0 \<le> hc_createdAt c \<Longrightarrow> JSON_parse (fromBase64url (encodeHistoryCursor c)) = Some (cursor_payload c)"
  unfolding cursor_payload_def encodeHistoryCursor_def fromBase64url_toBase64url
  by (rule JSON_parse_stringify) (auto simp: CURSOR_VERSION_def)

lemma decode_encode: "mintable c \<Longrightarrow> decodeHistoryCursor (Text (encodeHistoryCursor c)) = Some (normalised c)"
proof -
  assume m: "mintable c"
  have "JSON_parse (fromBase64url (encodeHistoryCursor c)) = Some (cursor_payload c)"
    using m by (simp add: parse_payload mintable_def)
  moreover have "read_payload (cursor_payload c) = Some (normalised c)"
    using m by (simp add: read_payload_def cursor_payload_def jget_def mintable_def normalised_def)
  moreover have "encodeHistoryCursor c \<noteq> []"
    by (simp add: encodeHistoryCursor_def cursor_payload_def toBase64url_nonempty)
  ultimately show ?thesis by (simp add: decodeHistoryCursor_def)
qed

lemma decoded_mintable: "decodeHistoryCursor raw = Some c \<Longrightarrow>
  0 \<le> hc_createdAt c \<and> is_public_id (hc_publicId c) \<and> hc_user c \<noteq> [] \<and> is_network (hc_network c)"
  by (auto simp: decodeHistoryCursor_def read_payload_def
      split: query_value.splits option.splits if_splits json.splits prod.splits)

text \<open>C14: A cursor minted for a user and a network is accepted for every spelling of that user and
  network, and then names exactly the row it was minted from; for any other user it is refused as
  \<open>user_mismatch\<close>, for any other network as \<open>network_mismatch\<close>.\<close>

theorem minted_cursor_bound_to_scope:
  assumes "mintable c"
  shows "validateHistoryCursor (Text (encodeHistoryCursor c)) scope =
    (if normaliseNetwork (sc_network scope) \<noteq> normaliseNetwork (hc_network c) then Inl Network_mismatch
     else if normaliseUser (sc_user scope) \<noteq> normaliseUser (hc_user c) then Inl User_mismatch
     else Inr (normalised c))"
  using decode_encode[OF assms] by (auto simp: validateHistoryCursor_def normalised_def)

definition sample_cursor :: history_cursor where
  "sample_cursor = \<lparr>hc_createdAt = 7, hc_publicId = replicate 32 (CHR ''a''), hc_user = ''0xAB'',
     hc_network = ''testnet''\<rparr>"

lemma minted_cursor_bound_to_scope_witness:
  "validateHistoryCursor (Text (encodeHistoryCursor sample_cursor))
     \<lparr>sc_user = '' 0xab '', sc_network = ''testnet''\<rparr> = Inr (normalised sample_cursor)
   \<and> validateHistoryCursor (Text (encodeHistoryCursor sample_cursor))
     \<lparr>sc_user = ''0xcd'', sc_network = ''testnet''\<rparr> = Inl User_mismatch"
proof -
  have m: "mintable sample_cursor" by code_simp
  have n: "normaliseUser '' 0xab '' = normaliseUser (hc_user sample_cursor)"
    "normaliseUser ''0xcd'' \<noteq> normaliseUser (hc_user sample_cursor)"
    "normaliseNetwork ''testnet'' = normaliseNetwork (hc_network sample_cursor)" by code_simp+
  show ?thesis by (simp add: minted_cursor_bound_to_scope[OF m] n)
qed

end
