(* ===== verification/History_Pages.thy ===== *)
theory History_Pages
  imports History_Cursor Order_Service
begin

text \<open>
  \<open>GET /orders/history\<close> (\<open>coordinator/src/server/routes/orders.ts\<close>) and the client that follows its
  cursors (\<open>frontend/src/lib/orderHistoryCursor.ts\<close>). \<open>history_route\<close> is the handler up to the
  response: a refusal with its status and error code, or a page. \<open>history_walk\<close> requests page after
  page, each time with the cursor of the page before; the store may have changed between two
  requests, so it takes one store per request.

  With a store at rest the walk ends after at most one request per order and shows the whole
  history, newest first. With orders being announced meanwhile it still shows every order that was
  there at the first request exactly once, and no order twice.
\<close>

section \<open>Orders as the API shows them\<close>

record leg_view =
  lv_chain :: chain
  lv_address :: string
  lv_asset :: string
  lv_amount :: string
  lv_orderId :: "string option"
  lv_lockTx :: "string option"
  lv_lockBlock :: "int option"
  lv_timelock :: "int option"

record order_view =
  vw_id :: string
  vw_direction :: direction
  vw_status :: order_status
  vw_hashlock :: string
  vw_src :: leg_view
  vw_safetyDeposit :: string
  vw_dst :: leg_view
  vw_revealed :: bool
  vw_preimage :: "string option"
  vw_revealedTx :: "string option"
  vw_resolver :: "string option"
  vw_createdAt :: int
  vw_updatedAt :: int

definition serialiseOrder :: "order_row \<Rightarrow> order_view" where
  "serialiseOrder r =
    \<lparr>vw_id = publicId r, vw_direction = direction r, vw_status = status r, vw_hashlock = hashlock r,
     vw_src = \<lparr>lv_chain = srcChain r, lv_address = srcAddress r, lv_asset = srcAsset r,
       lv_amount = srcAmount r, lv_orderId = srcOrderId r, lv_lockTx = srcLockTx r,
       lv_lockBlock = srcLockBlock r, lv_timelock = srcTimelock r\<rparr>,
     vw_safetyDeposit = srcSafetyDeposit r,
     vw_dst = \<lparr>lv_chain = dstChain r, lv_address = dstAddress r, lv_asset = dstAsset r,
       lv_amount = dstAmount r, lv_orderId = dstOrderId r, lv_lockTx = dstLockTx r,
       lv_lockBlock = dstLockBlock r, lv_timelock = dstTimelock r\<rparr>,
     vw_revealed = (preimage r \<noteq> None), vw_preimage = preimage r,
     vw_revealedTx = secretRevealedTx r, vw_resolver = resolverAddress r,
     vw_createdAt = createdAt r, vw_updatedAt = updatedAt r\<rparr>"

lemma vw_id_serialise [simp]: "vw_id (serialiseOrder r) = publicId r"
  by (simp add: serialiseOrder_def)

section \<open>The route\<close>

text \<open>\<open>Number(text)\<close> where it is an integer, \<open>None\<close> where it is \<open>NaN\<close>, infinite or not an integer.\<close>

definition radix_digits :: "nat \<Rightarrow> string \<Rightarrow> int option" where
  "radix_digits b s =
    (let ds = map hex_val s
     in if s = [] \<or> list_ex (\<lambda>d. case d of None \<Rightarrow> True | Some n \<Rightarrow> b \<le> n) ds then None
        else Some (int (foldl (\<lambda>n d. b * n + the d) 0 ds)))"

definition decimal_literal :: "string \<Rightarrow> int option" where
  "decimal_literal s =
    (let neg = (s \<noteq> [] \<and> hd s = CHR ''-'');
         s1 = (if s \<noteq> [] \<and> (hd s = CHR ''-'' \<or> hd s = CHR ''+'') then tl s else s);
         ds = takeWhile is_digit s1; s2 = dropWhile is_digit s1;
         dot = (s2 \<noteq> [] \<and> hd s2 = CHR ''.'');
         fs = (if dot then takeWhile is_digit (tl s2) else []);
         s3 = (if dot then dropWhile is_digit (tl s2) else s2)
     in if ds = [] \<and> fs = [] then None
        else (case exponent_part s3 of
                Some (e, []) \<Rightarrow> (case json_number neg ds fs e of JNum i \<Rightarrow> Some i | _ \<Rightarrow> None)
              | _ \<Rightarrow> None))"

definition Number_integer :: "string \<Rightarrow> int option" where
  "Number_integer text =
    (let s = trim_str text; p = toLowerCase (take 2 s)
     in if s = [] then Some 0
        else if p = ''0x'' then radix_digits 16 (drop 2 s)
        else if p = ''0o'' then radix_digits 8 (drop 2 s)
        else if p = ''0b'' then radix_digits 2 (drop 2 s)
        else decimal_literal s)"

record history_query =
  q_address :: query_value
  q_eth :: query_value
  q_stellar :: query_value
  q_network :: query_value
  q_limit :: query_value
  q_cursor :: query_value

definition DEFAULT_LIMIT :: int where
  "DEFAULT_LIMIT = 50"

definition MAX_LIMIT :: int where
  "MAX_LIMIT = 200"

fun text_of :: "query_value \<Rightarrow> string" where
  "text_of (Text t) = trim_str t"
| "text_of _ = []"

definition readHistoryAddress :: "history_query \<Rightarrow> string" where
  "readHistoryAddress q =
    (case find (\<lambda>v. v \<noteq> []) (map text_of [q_address q, q_eth q, q_stellar q]) of
       Some v \<Rightarrow> v | None \<Rightarrow> [])"

fun raw_limit :: "query_value \<Rightarrow> int option" where
  "raw_limit Absent = Some DEFAULT_LIMIT"
| "raw_limit (Text t) = Number_integer t"
| "raw_limit (Repeated [t]) = Number_integer t"
| "raw_limit _ = None"

definition page_size :: "history_query \<Rightarrow> nat option" where
  "page_size q = (case raw_limit (q_limit q) of
     Some n \<Rightarrow> (if n < 1 \<or> n > MAX_LIMIT then None else Some (nat n)) | None \<Rightarrow> None)"

datatype history_refusal = Address_required | Network_refused | Invalid_limit
  | Invalid_cursor cursor_rejection

record history_page =
  pg_transactions :: "order_view list"
  pg_limit :: nat
  pg_count :: nat
  pg_hasMore :: bool
  pg_nextCursor :: "string option"

definition serve_page :: "string \<Rightarrow> string \<Rightarrow> nat \<Rightarrow> order_row list \<Rightarrow> history_page" where
  "serve_page network address limit rows =
    (let hasMore = length rows > limit;
         page = (if hasMore then take limit rows else rows);
         nextCursor =
           (if hasMore \<and> page \<noteq> [] then Some (encodeHistoryCursor
              \<lparr>hc_createdAt = createdAt (last page), hc_publicId = publicId (last page),
               hc_user = address, hc_network = network\<rparr>)
            else None)
     in \<lparr>pg_transactions = map serialiseOrder page, pg_limit = limit, pg_count = length page,
         pg_hasMore = hasMore, pg_nextCursor = nextCursor\<rparr>)"

text \<open>Every refusal is answered with status 400.\<close>

definition history_route :: "string \<Rightarrow> history_query \<Rightarrow> (history_refusal + history_page) db_comp" where
  "history_route network q =
    (let address = readHistoryAddress q
     in if address = [] then ret (Inl Address_required)
        else if q_network q \<noteq> Absent \<and> q_network q \<noteq> Text network then ret (Inl Network_refused)
        else case page_size q of
          None \<Rightarrow> ret (Inl Invalid_limit)
        | Some limit \<Rightarrow>
           (let answer = (\<lambda>before. bindE (findByAddressPage address (limit + 1) before)
                  (\<lambda>rows. ret (Inr (serve_page network address limit rows))))
            in if q_cursor q = Absent then answer None
               else case validateHistoryCursor (q_cursor q)
                      \<lparr>sc_user = address, sc_network = network\<rparr> of
                 Inl reason \<Rightarrow> ret (Inl (Invalid_cursor reason))
               | Inr cursor \<Rightarrow> answer (Some (hc_createdAt cursor, hc_publicId cursor))))"

section \<open>The client\<close>

text \<open>\<open>mergeHistoryPage\<close>: a map from id to order in order of first insertion, later copies win.\<close>

definition merge_order :: "order_view list \<Rightarrow> order_view \<Rightarrow> order_view list" where
  "merge_order shown v =
    (if vw_id v = [] then shown
     else if list_ex (\<lambda>w. vw_id w = vw_id v) shown
     then map (\<lambda>w. if vw_id w = vw_id v then v else w) shown
     else shown @ [v])"

definition mergeHistoryPage :: "order_view list list \<Rightarrow> order_view list" where
  "mergeHistoryPage pages = foldl merge_order [] (concat pages)"

text \<open>Following the cursors. Request \<open>i\<close> finds the store \<open>dbs i\<close>; at most \<open>fuel\<close> requests are made,
  \<open>None\<close> says that the pages went on or that a request was refused.\<close>

fun history_walk :: "string \<Rightarrow> history_query \<Rightarrow> nat \<Rightarrow> (nat \<Rightarrow> coord_db) \<Rightarrow> order_view list list option"
  where
  "history_walk network q 0 dbs = None"
| "history_walk network q (Suc fuel) dbs =
    (case fst (history_route network q (dbs 0)) of
       Inr (Inr page) \<Rightarrow>
         (case pg_nextCursor page of
            None \<Rightarrow> Some [pg_transactions page]
          | Some cursor \<Rightarrow>
             map_option ((#) (pg_transactions page))
               (history_walk network (q\<lparr>q_cursor := Text cursor\<rparr>) fuel (\<lambda>i. dbs (Suc i))))
     | _ \<Rightarrow> None)"

section \<open>Keysets\<close>

definition owned_by :: "string \<Rightarrow> 'f order_columns \<Rightarrow> bool" where
  "owned_by addr r \<longleftrightarrow> srcAddress r = addr \<or> dstAddress r = addr"

definition row_key :: "'f order_columns \<Rightarrow> int \<times> string" where
  "row_key r = (createdAt r, publicId r)"

text \<open>The whole history of an address, newest first.\<close>

definition full_history :: "coord_db \<Rightarrow> string \<Rightarrow> order_db_row list" where
  "full_history s addr = rev (sort_key row_key (filter (owned_by addr) (orders_tbl s)))"

lemma before_cursor_key: "before_cursor (Some k) r \<longleftrightarrow> row_key r < k"
  by (cases k) (auto simp: before_cursor_def row_key_def less_prod_def')

lemma page_rows_history:
  "page_rows (orders_tbl s) addr n None = take n (full_history s addr)"
  "page_rows (orders_tbl s) addr n (Some k) = take n (filter (\<lambda>r. row_key r < k) (full_history s addr))"
proof -
  have "filter (\<lambda>r. (srcAddress r = addr \<or> dstAddress r = addr) \<and> row_key r < k) (orders_tbl s)
    = filter (\<lambda>r. row_key r < k) (filter (owned_by addr) (orders_tbl s))"
    by (auto simp: owned_by_def intro: filter_cong)
  then show "page_rows (orders_tbl s) addr n (Some k) = take n (filter (\<lambda>r. row_key r < k) (full_history s addr))"
    by (simp add: page_rows_def full_history_def before_cursor_key filter_sort rev_filter[symmetric] row_key_def[abs_def])
  show "page_rows (orders_tbl s) addr n None = take n (full_history s addr)"
    by (simp add: page_rows_def full_history_def before_cursor_def row_key_def[abs_def] owned_by_def[abs_def])
qed

abbreviation newest_first :: "order_db_row list \<Rightarrow> bool" where
  "newest_first rs \<equiv> sorted_wrt (\<lambda>r r'. row_key r' < row_key r) rs"

lemma distinct_row_key: "distinct (map publicId rs) \<Longrightarrow> distinct (map row_key rs)"
  by (induction rs) (auto simp: row_key_def image_iff)

lemma newest_first_history:
  assumes "orders_ok s"
  shows "newest_first (full_history s addr)"
proof -
  have "distinct (map row_key (filter (owned_by addr) (orders_tbl s)))"
    using assms by (auto simp: orders_ok_def intro: distinct_row_key distinct_map_filter)
  then have "distinct (map row_key (full_history s addr))"
    by (simp add: full_history_def rev_map[symmetric] distinct_map)
  moreover have "sorted_wrt (\<lambda>r r'. row_key r' \<le> row_key r) (full_history s addr)"
    unfolding full_history_def sorted_wrt_rev using sorted_sort_key[of row_key "filter (owned_by addr) (orders_tbl s)"]
    by (simp add: sorted_map)
  ultimately show ?thesis
    by (auto simp: sorted_wrt_iff_nth_less distinct_conv_nth order.strict_iff_order)
qed

lemma set_full_history: "set (full_history s addr) = {r \<in> set (orders_tbl s). owned_by addr r}"
  by (simp add: full_history_def)

text \<open>A strictly descending list cut after its first \<open>n\<close> elements.\<close>

lemma newest_first_nth:
  "newest_first rs \<Longrightarrow> i < j \<Longrightarrow> j < length rs \<Longrightarrow> row_key (rs ! j) < row_key (rs ! i)"
  by (simp add: sorted_wrt_iff_nth_less)

lemma newest_first_take:
  assumes "newest_first rs" "n \<le> length rs" "r \<in> set (take n rs)"
  shows "row_key (rs ! (n - 1)) \<le> row_key r"
proof -
  obtain i where i: "i < n" "r = rs ! i" using assms(2,3) by (auto simp: in_set_conv_nth)
  show ?thesis
  proof (cases "i = n - 1")
    case False
    then have "row_key (rs ! (n - 1)) < row_key (rs ! i)"
      using i assms(2) by (intro newest_first_nth[OF assms(1)]) auto
    then show ?thesis using i by simp
  qed (use i in simp)
qed

lemma newest_first_drop:
  assumes "newest_first rs" "0 < n" "r \<in> set (drop n rs)"
  shows "row_key r < row_key (rs ! (n - 1))"
proof -
  obtain i where "i < length (drop n rs)" "r = drop n rs ! i"
    using assms(3) by (metis in_set_conv_nth)
  then have "r = rs ! (n + i)" "n + i < length rs" by simp_all
  then show ?thesis using newest_first_nth[OF assms(1), of "n - 1" "n + i"] assms(2) by simp
qed

lemma newest_first_filter_drop:
  assumes "newest_first rs" "0 < n" "n \<le> length rs"
  shows "filter (\<lambda>r. row_key r < row_key (rs ! (n - 1))) rs = drop n rs"
proof -
  have "filter (\<lambda>r. row_key r < row_key (rs ! (n - 1))) (take n rs @ drop n rs) = drop n rs"
    unfolding filter_append using newest_first_take[OF assms(1,3)] newest_first_drop[OF assms(1,2)]
    by (auto simp: filter_empty_conv not_less)
  then show ?thesis by simp
qed

section \<open>One request\<close>

lemma trim_str_idem: "trim_str (trim_str t) = trim_str t"
proof (cases "trim_str t = []")
  case False
  let ?y = "dropWhile is_space t"
  let ?z = "dropWhile is_space (rev ?y)"
  have t: "trim_str t = rev ?z" by (simp add: trim_str_def)
  have z: "?z \<noteq> []" using False t by simp
  then have "?y \<noteq> []" by (intro notI) simp
  obtain p where p: "rev ?y = p @ ?z" by (metis takeWhile_dropWhile_id)
  then have "?y = rev ?z @ rev p" by (metis rev_append rev_rev_ident)
  then have "hd (trim_str t) = hd ?y" using z t by (metis hd_append2 rev_is_Nil_conv)
  then have "\<not> is_space (hd (trim_str t))" using hd_dropWhile[OF \<open>?y \<noteq> []\<close>] by simp
  moreover have "\<not> is_space (last (trim_str t))" using hd_dropWhile[OF z] t by (simp add: last_rev)
  ultimately show ?thesis using False by (intro trim_str_fixed)
next
  case True
  have "trim_str [] = []" by (simp add: trim_str_def)
  with True show ?thesis by simp
qed

lemma readHistoryAddress_trimmed: "readHistoryAddress q \<noteq> [] \<Longrightarrow> trim_str (readHistoryAddress q) = readHistoryAddress q"
proof -
  have "trim_str (text_of v) = text_of v" for v
    by (cases v) (simp_all add: trim_str_idem, simp_all add: trim_str_def)
  moreover have "trim_str [] = []" by (simp add: trim_str_def)
  ultimately show ?thesis by (auto simp: readHistoryAddress_def)
qed

lemma lower_hex_fixed: "list_all is_lower_hex p \<Longrightarrow> toLowerCase p = p"
  unfolding toLowerCase_def
  by (induction p) (auto simp: lower_char_def is_lower_hex_def is_digit_def)

text \<open>A request the coordinator serves with pages of \<open>limit\<close> orders of \<open>addr\<close>.\<close>

definition served :: "string \<Rightarrow> string \<Rightarrow> nat \<Rightarrow> history_query \<Rightarrow> bool" where
  "served network addr limit q \<longleftrightarrow> is_network network \<and> addr \<noteq> [] \<and> readHistoryAddress q = addr
     \<and> q_network q \<in> {Absent, Text network} \<and> page_size q = Some limit"

text \<open>Rows whose keyset fits in a cursor: public ids of 32 hexadecimal digits, as \<open>announce\<close> makes
  them, and times after 1970.\<close>

definition pageable :: "coord_db \<Rightarrow> bool" where
  "pageable s \<longleftrightarrow> orders_ok s \<and> (\<forall>r \<in> set (orders_tbl s). 0 \<le> createdAt r \<and> is_public_id (publicId r))"

definition mint :: "string \<Rightarrow> string \<Rightarrow> int \<times> string \<Rightarrow> string" where
  "mint network addr k = encodeHistoryCursor \<lparr>hc_createdAt = fst k, hc_publicId = snd k, hc_user = addr,
     hc_network = network\<rparr>"

definition show_row :: "order_db_row \<Rightarrow> order_view" where
  "show_row r = serialiseOrder (rowToOrder r)"

lemma served_limit: "served network addr limit q \<Longrightarrow> 0 < limit"
  by (auto simp: served_def page_size_def split: option.splits if_splits)

lemma is_network_fixed: "is_network n \<Longrightarrow> normaliseNetwork n = n"
proof -
  have "normaliseNetwork ''testnet'' = ''testnet''" "normaliseNetwork ''mainnet'' = ''mainnet''" by code_simp+
  then show "is_network n \<Longrightarrow> normaliseNetwork n = n" by (auto simp: is_network_def)
qed

lemma route_first:
  assumes "served network addr limit q" "q_cursor q = Absent"
  shows "fst (history_route network q s) =
    Inr (Inr (serve_page network addr limit (map rowToOrder (take (limit + 1) (full_history s addr)))))"
  using assms unfolding served_def
  by (auto simp: history_route_def findByAddressPage_def bindE_apply page_rows_history Let_def)

lemma minted_accepted:
  assumes "served network addr limit q" "0 \<le> fst k" "is_public_id (snd k)"
  shows "validateHistoryCursor (Text (mint network addr k)) \<lparr>sc_user = addr, sc_network = network\<rparr> =
    Inr \<lparr>hc_createdAt = fst k, hc_publicId = snd k, hc_user = normaliseUser addr, hc_network = network\<rparr>"
proof -
  let ?c = "\<lparr>hc_createdAt = fst k, hc_publicId = snd k, hc_user = addr, hc_network = network\<rparr>"
  have "trim_str addr = addr" "addr \<noteq> []" "is_network network"
    using assms(1) readHistoryAddress_trimmed[of q] by (auto simp: served_def)
  moreover have "toLowerCase (snd k) = snd k" using assms(3) by (simp add: is_public_id_def lower_hex_fixed)
  ultimately have "mintable ?c" "normalised ?c = ?c\<lparr>hc_user := normaliseUser addr\<rparr>"
    using assms by (auto simp: mintable_def normalised_def is_network_fixed normaliseUser_def toLowerCase_def)
  then show ?thesis
    using assms(1) by (simp add: validateHistoryCursor_def mint_def decode_encode served_def is_network_fixed)
qed

lemma route_next:
  assumes "served network addr limit q" "0 \<le> fst k" "is_public_id (snd k)"
    and "q_cursor q = Text (mint network addr k)"
  shows "fst (history_route network q s) = Inr (Inr (serve_page network addr limit
    (map rowToOrder (take (limit + 1) (filter (\<lambda>r. row_key r < k) (full_history s addr))))))"
  using assms minted_accepted[OF assms(1-3)] unfolding served_def
  by (auto simp: history_route_def findByAddressPage_def bindE_apply page_rows_history Let_def)

text \<open>What one request leaves to be shown: \<open>rest\<close> is what the store holds below the cursor.\<close>

lemma walk_step:
  assumes route: "fst (history_route network q (dbs 0)) =
      Inr (Inr (serve_page network addr limit (map rowToOrder (take (limit + 1) rest))))"
    and "0 < limit"
  shows "history_walk network q (Suc fuel) dbs =
    (if length rest \<le> limit then Some [map show_row rest]
     else map_option ((#) (map show_row (take limit rest)))
       (history_walk network (q\<lparr>q_cursor := Text (mint network addr (row_key (rest ! (limit - 1))))\<rparr>)
          fuel (\<lambda>i. dbs (Suc i))))"
proof (cases "length rest \<le> limit")
  case True
  then show ?thesis
    by (simp add: route serve_page_def Let_def show_row_def[abs_def] comp_def)
next
  case False
  have "last (map rowToOrder (take limit rest)) = rowToOrder (rest ! (limit - 1))"
    using False assms(2) by (subst last_conv_nth) auto
  then show ?thesis using False assms(2)
    by (auto simp: route serve_page_def Let_def show_row_def[abs_def] comp_def take_map[symmetric] min_def
        mint_def row_key_def)
qed

lemma row_key_mintable:
  "pageable s \<Longrightarrow> r \<in> set (full_history s addr) \<Longrightarrow> 0 \<le> fst (row_key r) \<and> is_public_id (snd (row_key r))"
  by (auto simp: pageable_def set_full_history row_key_def)

section \<open>A store at rest\<close>

lemma served_cursor [simp]: "served network addr limit (q\<lparr>q_cursor := c\<rparr>) = served network addr limit q"
  by (simp add: served_def readHistoryAddress_def page_size_def)

lemma filter_below_below:
  "r \<in> set rest \<Longrightarrow> rest = filter (\<lambda>r. row_key r < k) rs \<Longrightarrow>
   filter (\<lambda>r'. row_key r' < row_key r) rest = filter (\<lambda>r'. row_key r' < row_key r) rs"
  by (auto intro!: filter_cong dest: order.strict_trans)

lemma walk_rest:
  assumes "served network addr limit q" "pageable s"
    and "newest_first rest" "length rest < fuel"
    and "fst (history_route network q s) =
      Inr (Inr (serve_page network addr limit (map rowToOrder (take (limit + 1) rest))))"
    and "rest = full_history s addr \<or> (\<exists>k. rest = filter (\<lambda>r. row_key r < k) (full_history s addr))"
  shows "\<exists>pages. history_walk network q fuel (\<lambda>_. s) = Some pages \<and> concat pages = map show_row rest"
  using assms
proof (induction fuel arbitrary: q rest)
  case (Suc fuel)
  note step = walk_step[where dbs = "\<lambda>_. s", OF Suc.prems(5) served_limit[OF Suc.prems(1)], of fuel]
  show ?case
  proof (cases "length rest \<le> limit")
    case False
    let ?k = "row_key (rest ! (limit - 1))"
    let ?q = "q\<lparr>q_cursor := Text (mint network addr ?k)\<rparr>"
    have lim: "0 < limit" "limit \<le> length rest" using served_limit[OF Suc.prems(1)] False by auto
    have cut: "filter (\<lambda>r. row_key r < ?k) rest = drop limit rest"
      using newest_first_filter_drop[OF Suc.prems(3) lim] .
    have "rest ! (limit - 1) \<in> set rest" using lim by simp
    then have inH: "rest ! (limit - 1) \<in> set (full_history s addr)" using Suc.prems(6) by auto
    have sub: "filter (\<lambda>r. row_key r < ?k) (full_history s addr) = filter (\<lambda>r. row_key r < ?k) rest"
      using Suc.prems(6) filter_below_below[OF \<open>rest ! (limit - 1) \<in> set rest\<close>] by metis
    have sq: "served network addr limit ?q" using Suc.prems(1) by simp
    have "\<exists>pages. history_walk network ?q fuel (\<lambda>_. s) = Some pages \<and> concat pages = map show_row (drop limit rest)"
    proof (rule Suc.IH[OF sq Suc.prems(2)])
      show "newest_first (drop limit rest)" using Suc.prems(3) by (rule sorted_wrt_drop)
      show "length (drop limit rest) < fuel" using lim Suc.prems(4) by simp
      show "fst (history_route network ?q s) =
          Inr (Inr (serve_page network addr limit (map rowToOrder (take (limit + 1) (drop limit rest)))))"
        using route_next[OF sq, of ?k s] row_key_mintable[OF Suc.prems(2) inH] cut sub by simp
      show "drop limit rest = full_history s addr \<or>
          (\<exists>k. drop limit rest = filter (\<lambda>r. row_key r < k) (full_history s addr))"
        using cut sub by metis
    qed
    then obtain more where more: "history_walk network ?q fuel (\<lambda>_. s) = Some more"
      "concat more = map show_row (drop limit rest)" by blast
    have "history_walk network q (Suc fuel) (\<lambda>_. s) = Some (map show_row (take limit rest) # more)"
      using step False more(1) by (simp del: history_walk.simps)
    moreover have "concat (map show_row (take limit rest) # more) = map show_row rest"
      by (simp add: more(2) flip: map_append)
    ultimately show ?thesis by blast
  qed (simp add: step del: history_walk.simps)
qed simp

text \<open>C12: With the store at rest, a client that follows \<open>nextCursor\<close> is served to the end with at
  most one request per order plus one, whatever page size it asked for, and the pages together
  are the whole history of its address, newest first.\<close>

theorem history_walk_is_complete:
  assumes "served network addr limit q" "q_cursor q = Absent" "pageable s"
  shows "\<exists>pages. history_walk network q (Suc (length (orders_tbl s))) (\<lambda>_. s) = Some pages
    \<and> concat pages = map show_row (full_history s addr)"
proof (rule walk_rest[OF assms(1,3)])
  show "newest_first (full_history s addr)" using assms(3) by (simp add: pageable_def newest_first_history)
  show "length (full_history s addr) < Suc (length (orders_tbl s))"
    by (simp add: full_history_def le_imp_less_Suc)
qed (simp_all add: route_first[OF assms(1,2)])

section \<open>A store that grows between the requests\<close>

definition view_key :: "order_view \<Rightarrow> int \<times> string" where
  "view_key v = (vw_createdAt v, vw_id v)"

lemma view_key_show [simp]: "view_key (show_row r) = row_key r"
  by (simp add: view_key_def show_row_def serialiseOrder_def row_key_def)

text \<open>Orders are not deleted and keep the columns the history is selected and ordered by.\<close>

definition keeps_orders :: "coord_db \<Rightarrow> coord_db \<Rightarrow> bool" where
  "keeps_orders s s' \<longleftrightarrow> (\<forall>r \<in> set (orders_tbl s). \<exists>r' \<in> set (orders_tbl s').
     row_key r' = row_key r \<and> srcAddress r' = srcAddress r \<and> dstAddress r' = dstAddress r)"

lemma keeps_ordersD:
  "keeps_orders s s' \<Longrightarrow> r \<in> set (orders_tbl s) \<Longrightarrow> owned_by addr r \<Longrightarrow>
   \<exists>r' \<in> set (orders_tbl s'). row_key r' = row_key r \<and> owned_by addr r'"
  by (fastforce simp: keeps_orders_def owned_by_def)

text \<open>A run of pages below the bound \<open>below\<close>: strictly descending, and with every order of \<open>s\<close>.\<close>

definition shows_all :: "string \<Rightarrow> coord_db \<Rightarrow> (int \<times> string \<Rightarrow> bool) \<Rightarrow> order_view list \<Rightarrow> bool" where
  "shows_all addr s below vs \<longleftrightarrow>
    sorted_wrt (\<lambda>v w. view_key w < view_key v) vs \<and> (\<forall>v \<in> set vs. below (view_key v)) \<and>
    (\<forall>r \<in> set (orders_tbl s). owned_by addr r \<and> below (row_key r) \<longrightarrow> row_key r \<in> view_key ` set vs)"

lemma shows_rest:
  assumes "newest_first rest" "set rest = {r \<in> set (orders_tbl s). owned_by addr r \<and> below (row_key r)}"
  shows "shows_all addr s below (map show_row rest)"
  using assms by (force simp: shows_all_def sorted_wrt_map)

lemma shows_append:
  assumes rest: "newest_first rest" "set rest = {r \<in> set (orders_tbl s). owned_by addr r \<and> below (row_key r)}"
    and n: "0 < n" "n < length rest" and keeps: "keeps_orders s s'"
    and down: "\<And>k k'. below k \<Longrightarrow> k' < k \<Longrightarrow> below k'"
    and tail: "shows_all addr s' (\<lambda>k. k < row_key (rest ! (n - 1))) vs"
  shows "shows_all addr s below (map show_row (take n rest) @ vs)"
proof -
  let ?k = "row_key (rest ! (n - 1))"
  have kb: "below ?k" using rest(2) n nth_mem[of "n - 1" rest] by auto
  have "sorted_wrt (\<lambda>v w. view_key w < view_key v) (map show_row (take n rest) @ vs)"
    unfolding sorted_wrt_append
  proof (intro conjI ballI)
    show "sorted_wrt (\<lambda>v w. view_key w < view_key v) (map show_row (take n rest))"
      using rest(1) by (simp add: sorted_wrt_map sorted_wrt_take)
    show "sorted_wrt (\<lambda>v w. view_key w < view_key v) vs" using tail by (simp add: shows_all_def)
    fix v w assume "v \<in> set (map show_row (take n rest))" "w \<in> set vs"
    then show "view_key w < view_key v"
      using newest_first_take[OF rest(1), of n] n tail by (force simp: shows_all_def)
  qed
  moreover have "\<forall>v \<in> set (map show_row (take n rest) @ vs). below (view_key v)"
  proof
    fix v assume "v \<in> set (map show_row (take n rest) @ vs)"
    then consider r where "r \<in> set rest" "v = show_row r" | "v \<in> set vs" by (auto dest: in_set_takeD)
    then show "below (view_key v)"
      by cases (use rest(2) tail down[OF kb, of "view_key v"] in \<open>auto simp: shows_all_def\<close>)
  qed
  moreover have "row_key r \<in> view_key ` set (map show_row (take n rest) @ vs)"
    if r: "r \<in> set (orders_tbl s)" "owned_by addr r" "below (row_key r)" for r
  proof (cases "row_key r < ?k")
    case True
    then show ?thesis using keeps_ordersD[OF keeps r(1,2)] tail by (force simp: shows_all_def)
  next
    case False
    then have "r \<notin> set (drop n rest)" using newest_first_drop[OF rest(1) n(1)] by blast
    moreover have "r \<in> set (take n rest @ drop n rest)" using rest(2) r by simp
    ultimately show ?thesis unfolding set_append by force
  qed
  ultimately show ?thesis by (simp add: shows_all_def)
qed

lemma walk_shows_all:
  assumes "served network addr limit q" "\<And>i. pageable (dbs i)" "\<And>i. keeps_orders (dbs i) (dbs (Suc i))"
    and "history_walk network q fuel dbs = Some pages"
    and "fst (history_route network q (dbs 0)) =
      Inr (Inr (serve_page network addr limit (map rowToOrder (take (limit + 1) rest))))"
    and "newest_first rest" "set rest = {r \<in> set (orders_tbl (dbs 0)). owned_by addr r \<and> below (row_key r)}"
    and down: "\<And>k k'. below k \<Longrightarrow> k' < k \<Longrightarrow> below k'"
  shows "shows_all addr (dbs 0) below (concat pages)"
  using assms
proof (induction fuel arbitrary: q dbs rest below pages)
  case (Suc fuel)
  note step = walk_step[where dbs = dbs, OF Suc.prems(5) served_limit[OF Suc.prems(1)], of fuel]
  show ?case
  proof (cases "length rest \<le> limit")
    case True
    then show ?thesis using Suc.prems(4) step shows_rest[OF Suc.prems(6,7)] by (auto simp del: history_walk.simps)
  next
    case False
    let ?k = "row_key (rest ! (limit - 1))"
    let ?q = "q\<lparr>q_cursor := Text (mint network addr ?k)\<rparr>"
    let ?dbs = "\<lambda>i. dbs (Suc i)"
    let ?H = "full_history (dbs 1) addr"
    have lim: "0 < limit" "limit < length rest" using served_limit[OF Suc.prems(1)] False by auto
    obtain more where more: "history_walk network ?q fuel ?dbs = Some more"
        "pages = map show_row (take limit rest) # more"
    proof -
      have "map_option ((#) (map show_row (take limit rest))) (history_walk network ?q fuel ?dbs) = Some pages"
        using Suc.prems(4) step False by (simp del: history_walk.simps)
      then show ?thesis using that by (auto simp: map_option_eq_Some)
    qed
    have sq: "served network addr limit ?q" using Suc.prems(1) by simp
    have "rest ! (limit - 1) \<in> set rest" using lim by simp
    then have k: "0 \<le> fst ?k" "is_public_id (snd ?k)"
      using Suc.prems(7) Suc.prems(2)[of 0] by (auto simp: pageable_def row_key_def)
    have "shows_all addr (?dbs 0) (\<lambda>j. j < ?k) (concat more)"
    proof (rule Suc.IH[OF sq _ _ more(1)])
      show "fst (history_route network ?q (dbs (Suc 0))) =
          Inr (Inr (serve_page network addr limit (map rowToOrder (take (limit + 1)
            (filter (\<lambda>r. row_key r < ?k) (full_history (dbs (Suc 0)) addr))))))"
        using route_next[OF sq k, of "dbs (Suc 0)"] by simp
      show "newest_first (filter (\<lambda>r. row_key r < ?k) (full_history (dbs (Suc 0)) addr))"
        using Suc.prems(2)[of "Suc 0"] by (intro sorted_wrt_filter newest_first_history) (simp add: pageable_def)
    qed (use Suc.prems(2,3) in \<open>auto simp: set_full_history intro: order.strict_trans\<close>)
    then show ?thesis
      using shows_append[OF Suc.prems(6,7) lim _ Suc.prems(8)] Suc.prems(3)[of 0] more(2) by simp
  qed
qed simp

text \<open>C13: While orders are announced and changed between the requests, a client that follows
  \<open>nextCursor\<close> to the end sees the orders in strictly descending keyset order, so none twice, and
  every order of its address that existed at the first request among them.\<close>

theorem history_walk_never_skips:
  assumes "served network addr limit q" "q_cursor q = Absent"
    and "\<And>i. pageable (dbs i)" "\<And>i. keeps_orders (dbs i) (dbs (Suc i))"
    and "history_walk network q fuel dbs = Some pages"
  shows "sorted_wrt (\<lambda>v w. view_key w < view_key v) (concat pages)
    \<and> row_key ` {r \<in> set (orders_tbl (dbs 0)). owned_by addr r} \<subseteq> view_key ` set (concat pages)"
proof -
  have "shows_all addr (dbs 0) (\<lambda>_. True) (concat pages)"
  proof (rule walk_shows_all[OF assms(1,3,4,5)])
    show "newest_first (full_history (dbs 0) addr)"
      using assms(3)[of 0] by (intro newest_first_history) (simp add: pageable_def)
  qed (auto simp: route_first[OF assms(1,2)] set_full_history)
  then show ?thesis by (auto simp: shows_all_def)
qed

section \<open>Samples\<close>

definition sample_order :: "nat \<Rightarrow> int \<Rightarrow> order_db_row" where
  "sample_order n t = new_order_row (int n) (replicate 32 (char_of (97 + n)))
     \<lparr>in_direction = Eth_to_xlm, in_hashlock = ''h'', in_srcChain = Ethereum, in_srcAddress = ''0xab'',
      in_srcAsset = ''native'', in_srcAmount = ''1'', in_srcSafetyDeposit = ''0'', in_dstChain = Stellar,
      in_dstAddress = ''G'', in_dstAsset = ''native'', in_dstAmount = ''1''\<rparr> t"

definition sample_store :: "nat \<Rightarrow> coord_db" where
  "sample_store n = (empty_db 9)\<lparr>orders_seq := 9, orders_tbl :=
     [sample_order 0 5, sample_order 1 6, sample_order 2 6] @ (if n = 0 then [] else [sample_order 3 8])\<rparr>"

definition sample_query :: history_query where
  "sample_query = \<lparr>q_address = Text '' 0xab'', q_eth = Absent, q_stellar = Absent,
     q_network = Text ''testnet'', q_limit = Text ''2'', q_cursor = Absent\<rparr>"

lemma sample_served: "served ''testnet'' ''0xab'' 2 sample_query" "q_cursor sample_query = Absent"
  by code_simp+

lemma sample_pageable: "pageable (sample_store n)"
proof -
  have "pageable (sample_store 0)" "pageable (sample_store 1)" by code_simp+
  then show ?thesis by (cases "n = 0") (simp_all add: sample_store_def)
qed

lemma sample_keeps: "keeps_orders (sample_store n) (sample_store (Suc n))"
  by (auto simp: sample_store_def keeps_orders_def)

lemma history_walk_is_complete_witness:
  "\<exists>pages. history_walk ''testnet'' sample_query (Suc (length (orders_tbl (sample_store 0)))) (\<lambda>_. sample_store 0)
      = Some pages \<and> map vw_createdAt (concat pages) = [6, 6, 5]"
proof -
  obtain pages where p: "history_walk ''testnet'' sample_query (Suc (length (orders_tbl (sample_store 0))))
      (\<lambda>_. sample_store 0) = Some pages"
    "concat pages = map show_row (full_history (sample_store 0) ''0xab'')"
    using history_walk_is_complete[OF sample_served sample_pageable] by blast
  moreover have "map vw_createdAt (map show_row (full_history (sample_store 0) ''0xab'')) = [6, 6, 5]" by code_simp
  ultimately show ?thesis by metis
qed

lemma history_walk_never_skips_witness:
  "\<exists>pages. history_walk ''testnet'' sample_query 3 sample_store = Some pages
     \<and> row_key ` {r \<in> set (orders_tbl (sample_store 0)). owned_by ''0xab'' r} \<subseteq> view_key ` set (concat pages)"
proof -
  have "history_walk ''testnet'' sample_query 3 sample_store \<noteq> None" by code_simp
  then obtain pages where p: "history_walk ''testnet'' sample_query 3 sample_store = Some pages" by auto
  then show ?thesis
    using history_walk_never_skips[OF sample_served sample_pageable sample_keeps p] by blast
qed

text \<open>The demo fixtures carry public ids such as \<open>demo-completed-001\<close>. A page that ends at one of them
  hands out a cursor the coordinator itself refuses, so the history cannot be followed past it.\<close>

lemma fixture_cursor_refused:
  "validateHistoryCursor (Text (mint ''testnet'' ''0xab'' (7, ''demo-completed-001'')))
     \<lparr>sc_user = ''0xab'', sc_network = ''testnet''\<rparr> = Inl Malformed"
proof -
  let ?c = "\<lparr>hc_createdAt = 7, hc_publicId = ''demo-completed-001'', hc_user = ''0xab'', hc_network = ''testnet''\<rparr>"
  have "JSON_parse (fromBase64url (mint ''testnet'' ''0xab'' (7, ''demo-completed-001''))) = Some (cursor_payload ?c)"
    using parse_payload[of ?c] by (simp add: mint_def)
  moreover have "read_payload (cursor_payload ?c) = None" by code_simp
  ultimately show ?thesis by (simp add: validateHistoryCursor_def decodeHistoryCursor_def)
qed

end
