(* ===== verification/Http_Routes.thy ===== *)
theory Http_Routes
  imports Coordinator History_Pages
begin

text \<open>
  The HTTP surface of the coordinator (\<open>coordinator/src/server/\<close>): the handlers of
  \<open>routes/orders.ts\<close>, \<open>routes/secrets.ts\<close> and the status route of \<open>routes/quotes.ts\<close> with their
  status codes, the rate limiter of \<open>readiness-rate-limit.ts\<close>, the origin checks of \<open>cors.ts\<close>, and
  the order in which \<open>app.ts\<close> runs them. A request is what the body parser hands on; oversized and
  malformed bodies and response headers are not modelled; the redaction of bodies is in \<open>Public_Views\<close>.

  \<open>app.ts\<close> mounts the router of the health routes without a path, so its rate limiter sees every
  request, and mounts the secret routes without their gates; \<open>app_handle\<close> follows it.
\<close>

section \<open>Rate limiter\<close>

record bucket =
  bk_startedAt :: int
  bk_count :: nat

record limiter_options =
  lo_limit :: "int option"
  lo_windowMs :: "int option"

definition limiter_limit :: "limiter_options \<Rightarrow> nat" where
  "limiter_limit opts = nat (max 1 (case lo_limit opts of None \<Rightarrow> 30 | Some n \<Rightarrow> n))"

definition limiter_window :: "limiter_options \<Rightarrow> int" where
  "limiter_window opts = max 1000 (case lo_windowMs opts of None \<Rightarrow> 60000 | Some n \<Rightarrow> n)"

definition ceil_div :: "int \<Rightarrow> int \<Rightarrow> int" where
  "ceil_div a b = - ((- a) div b)"

record limiter_verdict =
  lv_remaining :: nat
  lv_resetAt :: int
  lv_retryAfter :: "int option"

definition current_bucket :: "int \<Rightarrow> int \<Rightarrow> bucket option \<Rightarrow> bucket" where
  "current_bucket windowMs timestamp current =
    (case current of
       None \<Rightarrow> \<lparr>bk_startedAt = timestamp, bk_count = 0\<rparr>
     | Some b \<Rightarrow> (if timestamp - bk_startedAt b \<ge> windowMs
                  then \<lparr>bk_startedAt = timestamp, bk_count = 0\<rparr> else b))"

text \<open>The options are integers. An environment variable that is no number would make the limit or the window \<open>NaN\<close>, which no
  comparison reaches: the limiter would refuse nothing, or never start a new window. That case is left out.\<close>

text \<open>One request: the new buckets, and \<open>lv_retryAfter\<close> when it is answered with 429.\<close>

definition rate_limit :: "nat \<Rightarrow> int \<Rightarrow> string \<Rightarrow> int \<Rightarrow> (string \<times> bucket) list
    \<Rightarrow> limiter_verdict \<times> (string \<times> bucket) list" where
  "rate_limit limit windowMs key timestamp buckets =
    (let b0 = current_bucket windowMs timestamp (map_of buckets key);
         b = b0\<lparr>bk_count := bk_count b0 + 1\<rparr>
     in (\<lparr>lv_remaining = limit - bk_count b,
          lv_resetAt = ceil_div (bk_startedAt b + windowMs) 1000,
          lv_retryAfter =
            (if bk_count b > limit
             then Some (max 1 (ceil_div (bk_startedAt b + windowMs - timestamp) 1000)) else None)\<rparr>,
         AList.update key b buckets))"

text \<open>The times at which the requests of \<open>client\<close> were let through, in a run of the limiter.\<close>

fun let_through :: "nat \<Rightarrow> int \<Rightarrow> string \<Rightarrow> (string \<times> int) list \<Rightarrow> (string \<times> bucket) list \<Rightarrow> int list" where
  "let_through limit windowMs client [] buckets = []"
| "let_through limit windowMs client ((key, t) # rs) buckets =
    (let (v, buckets') = rate_limit limit windowMs key t buckets;
         later = let_through limit windowMs client rs buckets'
     in if key = client \<and> lv_retryAfter v = None then t # later else later)"

text \<open>The run of one client, which sees only its own bucket.\<close>

fun accepted :: "nat \<Rightarrow> int \<Rightarrow> int list \<Rightarrow> bucket option \<Rightarrow> int list" where
  "accepted limit w [] b = []"
| "accepted limit w (t # ts) b =
    (let b0 = current_bucket w t b; later = accepted limit w ts (Some (b0\<lparr>bk_count := bk_count b0 + 1\<rparr>))
     in if bk_count b0 < limit then t # later else later)"

lemma let_through_accepted:
  "let_through limit w client rs buckets =
   accepted limit w (map snd (filter (\<lambda>r. fst r = client) rs)) (map_of buckets client)"
proof (induction rs arbitrary: buckets)
  case (Cons r rs)
  obtain key t where r: "r = (key, t)" by force
  show ?case
    by (cases "key = client") (simp_all add: r rate_limit_def Let_def Cons update_conv)
qed simp

lemma accepted_sub: "set (accepted limit w ts b) \<subseteq> set ts"
  by (induction ts arbitrary: b) (auto simp: Let_def)

text \<open>Up to the end of a bucket it lets through what is left of its limit.\<close>

lemma accepted_in_bucket:
  "sorted ts \<Longrightarrow> e \<le> bk_startedAt b + w \<Longrightarrow>
   length (filter (\<lambda>t. t < e) (accepted limit w ts (Some b))) \<le> limit - bk_count b"
proof (induction ts arbitrary: b)
  case (Cons t ts)
  show ?case
  proof (cases "t < e")
    case True
    then have "current_bucket w t (Some b) = b" using Cons.prems(2) by (simp add: current_bucket_def)
    then show ?thesis
      using Cons.IH[of "b\<lparr>bk_count := bk_count b + 1\<rparr>"] Cons.prems True by (auto simp: Let_def)
  next
    case False
    then have "\<forall>x \<in> set (t # ts). \<not> x < e" using Cons.prems(1) by auto
    then have "filter (\<lambda>t. t < e) (accepted limit w (t # ts) (Some b)) = []"
      using accepted_sub[of limit w "t # ts" "Some b"] by (auto simp: filter_empty_conv simp del: accepted.simps)
    then show ?thesis by simp
  qed
qed simp

lemma accepted_within_window:
  assumes "0 < limit" "sorted ts" "\<forall>t \<in> set ts. from \<le> t"
  shows "length (filter (\<lambda>t. t < from + w) (accepted limit w ts b))
    \<le> (case b of None \<Rightarrow> 0 | Some b \<Rightarrow> limit - bk_count b) + limit"
  using assms(2,3)
proof (induction ts arbitrary: b)
  case (Cons t ts)
  let ?new = "\<lparr>bk_startedAt = t, bk_count = 1\<rparr>"
  have new: "length (filter (\<lambda>x. x < from + w) (accepted limit w ts (Some ?new))) \<le> limit - 1"
    using accepted_in_bucket[of ts "from + w" ?new w limit] Cons.prems by auto
  show ?case
  proof (cases "b = None \<or> (\<exists>c. b = Some c \<and> t - bk_startedAt c \<ge> w)")
    case True
    then have "current_bucket w t b = \<lparr>bk_startedAt = t, bk_count = 0\<rparr>"
      by (auto simp: current_bucket_def)
    then show ?thesis using new assms(1) by (auto simp: Let_def)
  next
    case False
    then obtain c where c: "b = Some c" "current_bucket w t b = c" by (auto simp: current_bucket_def)
    then show ?thesis
      using Cons.IH[of "Some (c\<lparr>bk_count := bk_count c + 1\<rparr>)"] Cons.prems by (auto simp: Let_def)
  qed
qed simp

lemma accepted_append:
  "\<exists>b'. accepted limit w (ts @ us) b = accepted limit w ts b @ accepted limit w us b'"
proof (induction ts arbitrary: b)
  case Nil
  then show ?case by auto
next
  case (Cons t ts)
  show ?case
    using Cons[of "Some ((current_bucket w t b)\<lparr>bk_count := bk_count (current_bucket w t b) + 1\<rparr>)"]
    by (auto simp: Let_def)
qed

text \<open>C16: Whatever other clients do, of the requests a client sends in any span as long as the window,
  wherever it starts, at most twice the limit are let through, as long as the clock does not go
  back.\<close>

theorem rate_limit_bound:
  assumes "sorted (map snd (filter (\<lambda>r. fst r = client) rs))"
  shows "length (filter (\<lambda>t. from \<le> t \<and> t < from + limiter_window opts)
      (let_through (limiter_limit opts) (limiter_window opts) client rs [])) \<le> 2 * limiter_limit opts"
proof -
  let ?ts = "map snd (filter (\<lambda>r. fst r = client) rs)"
  let ?w = "limiter_window opts" and ?l = "limiter_limit opts"
  let ?us = "takeWhile (\<lambda>t. t < from) ?ts" and ?vs = "dropWhile (\<lambda>t. t < from) ?ts"
  obtain b' where split: "accepted ?l ?w (?us @ ?vs) None = accepted ?l ?w ?us None @ accepted ?l ?w ?vs b'"
    using accepted_append by blast
  have none: "filter (\<lambda>t. from \<le> t \<and> t < from + ?w) (accepted ?l ?w ?us None) = []"
    using accepted_sub[of ?l ?w ?us None] by (auto simp: filter_empty_conv dest!: set_takeWhileD)
  have "sorted ?vs" using assms by (simp add: sorted_dropWhile)
  moreover have "\<forall>t \<in> set ?vs. from \<le> t"
  proof (cases ?vs)
    case (Cons v vs)
    then have "\<not> v < from" by (metis dropWhile_eq_Cons_conv)
    then show ?thesis using \<open>sorted ?vs\<close> Cons by auto
  next
    case Nil
    then show ?thesis by (simp only: list.set ball_simps)
  qed
  moreover have "0 < ?l" by (simp add: limiter_limit_def)
  ultimately have "length (filter (\<lambda>t. t < from + ?w) (accepted ?l ?w ?vs b'))
      \<le> (case b' of None \<Rightarrow> 0 | Some b \<Rightarrow> ?l - bk_count b) + ?l"
    by (intro accepted_within_window) auto
  moreover have "length (filter (\<lambda>t. from \<le> t \<and> t < from + ?w) xs) \<le> length (filter (\<lambda>t. t < from + ?w) xs)" for xs
    by (induction xs) auto
  ultimately have "length (filter (\<lambda>t. from \<le> t \<and> t < from + ?w) (accepted ?l ?w (?us @ ?vs) None))
      \<le> (case b' of None \<Rightarrow> 0 | Some b \<Rightarrow> ?l - bk_count b) + ?l"
    unfolding split filter_append none by (simp del: takeWhile_dropWhile_id) (meson le_trans)
  then show ?thesis by (auto simp: let_through_accepted split: option.splits)
qed

lemma rate_limit_bound_witness:
  "length (filter (\<lambda>t. 0 \<le> t \<and> t < 0 + limiter_window \<lparr>lo_limit = Some 1, lo_windowMs = None\<rparr>)
     (let_through (limiter_limit \<lparr>lo_limit = Some 1, lo_windowMs = None\<rparr>)
        (limiter_window \<lparr>lo_limit = Some 1, lo_windowMs = None\<rparr>) ''a''
        [(''a'', 1), (''b'', 2), (''a'', 3)] [])) \<le> 2"
  using rate_limit_bound[of "''a''" "[(''a'', 1), (''b'', 2), (''a'', 3)]" 0 "\<lparr>lo_limit = Some 1, lo_windowMs = None\<rparr>"]
  by (simp add: limiter_limit_def)

section \<open>Origins\<close>

text \<open>\<open>is_url\<close> says whether the URL constructor accepts a text.\<close>

fun split_on :: "char \<Rightarrow> string \<Rightarrow> string list" where
  "split_on c [] = [[]]"
| "split_on c (x # xs) =
    (if x = c then [] # split_on c xs
     else (case split_on c xs of [] \<Rightarrow> [[x]] | w # ws \<Rightarrow> (x # w) # ws))"

definition parseCorsOrigins :: "(string \<Rightarrow> bool) \<Rightarrow> string \<Rightarrow> string + string list" where
  "parseCorsOrigins is_url raw =
    (let trimmed = trim_str raw
     in if trimmed = [] then Inr []
        else let origins = filter (\<lambda>s. s \<noteq> []) (map trim_str (split_on (CHR '','') trimmed))
          in case find (\<lambda>origin. origin \<noteq> ''*'' \<and> \<not> is_url origin) origins of
               Some origin \<Rightarrow> Inl (''Invalid CORS origin: '' @ origin)
             | None \<Rightarrow> Inr origins)"

definition isOriginAllowed :: "string option \<Rightarrow> string list \<Rightarrow> bool" where
  "isOriginAllowed origin allowedOrigins =
    (if origin = None \<or> origin = Some [] then True
     else if ''*'' \<in> set allowedOrigins then True
     else the origin \<in> set allowedOrigins)"

definition strict_cors_passes :: "string list \<Rightarrow> string option \<Rightarrow> bool" where
  "strict_cors_passes allowedOrigins origin =
    (\<not> (origin = None \<or> origin = Some [] \<or> \<not> isOriginAllowed origin allowedOrigins))"

section \<open>Handlers\<close>

datatype reply_body =
    Order_body order_view
  | Ok_body
  | Error_body string
  | Transition_body transition_rejection_info
  | Snapshots_body "order_snapshot list"
  | Transitions_body "order_transition_summary list" "order_rejected_transition list"
  | Rejected_body "order_rejected_transition list" order_status
  | Eligibility_body refund_eligibility
  | History_body history_page
  | Secret_body string string
  | Fresh_quote_body price_quote int
  | Stale_quote_body string int int
  | Metrics_body order_metrics

type_synonym reply = "nat \<times> reply_body"

definition orderValidationResponse :: "coord_error \<Rightarrow> reply" where
  "orderValidationResponse err =
    (case err of
       OrderTransitionRejectedError i \<Rightarrow> (409, Transition_body i)
     | OrderValidationError m (Some QUOTE_EXPIRED) \<Rightarrow> (400, Error_body ''quote_expired'')
     | OrderValidationError m (Some QUOTE_NOT_FOUND) \<Rightarrow> (400, Error_body ''quote_not_found'')
     | OrderValidationError m (Some QUOTE_MISMATCH) \<Rightarrow> (400, Error_body ''quote_mismatch'')
     | OrderValidationError m (Some (Timelock_code c)) \<Rightarrow> (400, Error_body ''timelock_ordering_invalid'')
     | _ \<Rightarrow> (400, Error_body ''order_validation_error''))"

text \<open>\<open>next(err)\<close> ends at the final error handler.\<close>

definition internal_error :: reply where
  "internal_error = (500, Error_body ''internal_error'')"

definition validation_error :: reply where
  "validation_error = (400, Error_body ''validation_error'')"

definition not_found :: reply where
  "not_found = (404, Error_body ''not_found'')"

definition order_failure :: "coord_error \<Rightarrow> reply" where
  "order_failure err = (if is_order_validation err then orderValidationResponse err else internal_error)"

definition secret_failure :: "coord_error \<Rightarrow> reply" where
  "secret_failure err = (case err of
     OrderTransitionRejectedError i \<Rightarrow> (409, Transition_body i) | _ \<Rightarrow> (400, Error_body ''secret_error''))"

definition answer :: "(coord_error \<Rightarrow> reply) \<Rightarrow> ('a \<Rightarrow> reply) \<Rightarrow> 'a svc_comp \<Rightarrow> coord_state
    \<Rightarrow> reply \<times> coord_state" where
  "answer failed done m st = (case m st of (Inr x, st') \<Rightarrow> (done x, st') | (Inl e, st') \<Rightarrow> (failed e, st'))"

definition post_announce :: "string \<Rightarrow> announce_input \<Rightarrow> coord_state \<Rightarrow> reply \<times> coord_state" where
  "post_announce pid i st =
    (if \<not> announceSchema i then (validation_error, st)
     else answer order_failure (\<lambda>order. (201, Order_body (serialiseOrder order))) (announce_svc pid i) st)"

definition post_src_locked :: "int \<Rightarrow> src_lock_input \<Rightarrow> coord_state \<Rightarrow> reply \<times> coord_state" where
  "post_src_locked gap i st =
    (if \<not> lockSchema i then (validation_error, st)
     else answer order_failure (\<lambda>_. (200, Ok_body)) (on_db (recordSrcLock_svc gap (i\<lparr>sl_writer := None\<rparr>))) st)"

definition post_dst_locked :: "int \<Rightarrow> dst_lock_input \<Rightarrow> coord_state \<Rightarrow> reply \<times> coord_state" where
  "post_dst_locked gap i st =
    (if \<not> lockSchema i then (validation_error, st)
     else answer order_failure (\<lambda>_. (200, Ok_body)) (on_db (recordDstLock_svc gap (i\<lparr>sl_writer := None\<rparr>))) st)"

definition post_reveal :: "(bytes \<Rightarrow> string) \<Rightarrow> int \<Rightarrow> string \<Rightarrow> string \<Rightarrow> string \<Rightarrow> coord_state
    \<Rightarrow> reply \<times> coord_state" where
  "post_reveal sha nowMs pid pre tx st =
    (if \<not> revealSchema pid pre tx then (validation_error, st)
     else answer secret_failure (\<lambda>_. (200, Ok_body)) (on_db (reveal sha nowMs pid pre tx)) st)"

text \<open>A route that answers 404 for an unknown order and otherwise what \<open>m\<close> reads for it.\<close>

definition with_found :: "string \<Rightarrow> (order_row \<Rightarrow> reply db_comp) \<Rightarrow> coord_state \<Rightarrow> reply \<times> coord_state" where
  "with_found pid m = answer (\<lambda>_. internal_error) (\<lambda>r. r)
    (on_db (bindE (findByPublicId pid) (\<lambda>found. case found of None \<Rightarrow> ret not_found | Some order \<Rightarrow> m order)))"

definition get_order :: "string \<Rightarrow> coord_state \<Rightarrow> reply \<times> coord_state" where
  "get_order pid = with_found pid (\<lambda>order. ret (200, Order_body (serialiseOrder order)))"

definition get_transitions_route :: "string \<Rightarrow> coord_state \<Rightarrow> reply \<times> coord_state" where
  "get_transitions_route pid = with_found pid (\<lambda>order.
     bindE (getTransitions pid) (\<lambda>ts. bindE (getRejectedTransitions pid) (\<lambda>rs.
       ret (200, Transitions_body ts rs))))"

definition get_rejected_route :: "string \<Rightarrow> coord_state \<Rightarrow> reply \<times> coord_state" where
  "get_rejected_route pid = with_found pid (\<lambda>order.
     bindE (getRejectedTransitions pid) (\<lambda>rs. ret (200, Rejected_body rs (status order))))"

definition get_eligibility :: "int \<Rightarrow> string \<Rightarrow> coord_state \<Rightarrow> reply \<times> coord_state" where
  "get_eligibility nowMs pid = with_found pid (\<lambda>order.
     ret (200, Eligibility_body (evaluateRefundEligibility
       [(Ethereum_side, if srcChain order = Ethereum then srcTimelock order else dstTimelock order),
        (Stellar_side, if srcChain order = Stellar then srcTimelock order else dstTimelock order)]
       (nowMs div 1000))))"

definition get_snapshots_route :: "coord_state \<Rightarrow> reply \<times> coord_state" where
  "get_snapshots_route = answer (\<lambda>_. internal_error) (\<lambda>s. (200, Snapshots_body s)) (on_db getCompletedOrderSnapshots)"

definition get_metrics_route :: "coord_state \<Rightarrow> reply \<times> coord_state" where
  "get_metrics_route = answer (\<lambda>_. internal_error) (\<lambda>m. (200, Metrics_body m)) (on_db getMetrics)"

definition history_reply :: "history_refusal + history_page \<Rightarrow> reply" where
  "history_reply r = (case r of
     Inr page \<Rightarrow> (200, History_body page)
   | Inl Address_required \<Rightarrow> (400, Error_body ''address_required'')
   | Inl Network_refused \<Rightarrow> (400, Error_body ''network_mismatch'')
   | Inl Invalid_limit \<Rightarrow> (400, Error_body ''invalid_limit'')
   | Inl (Invalid_cursor reason) \<Rightarrow> (400, Error_body ''invalid_cursor''))"

definition get_history :: "string \<Rightarrow> history_query \<Rightarrow> coord_state \<Rightarrow> reply \<times> coord_state" where
  "get_history network q = answer (\<lambda>_. internal_error) history_reply (on_db (history_route network q))"

definition get_secret_route :: "string \<Rightarrow> coord_state \<Rightarrow> reply \<times> coord_state" where
  "get_secret_route pid = answer (\<lambda>_. internal_error)
    (\<lambda>p. case p of
       None \<Rightarrow> (404, Error_body ''not_revealed'')
     | Some pre \<Rightarrow> (if pre = [] then (404, Error_body ''not_revealed'') else (200, Secret_body pid pre)))
    (on_db (get_secret pid))"

text \<open>Only the two errors that \<open>assertFresh\<close> throws without an order amount have a handler.\<close>

definition get_quote_status :: "string \<Rightarrow> coord_state \<Rightarrow> reply \<times> coord_state" where
  "get_quote_status qid st =
    (case fst st of
       None \<Rightarrow> (internal_error, st)
     | Some q \<Rightarrow>
        (case assertFresh qid None q of
           Inr quote \<Rightarrow> (200, Fresh_quote_body quote (expiresAt quote - q_wall q))
         | Inl (QuoteExpiredError i expiredMs) \<Rightarrow> (410, Stale_quote_body qid expiredMs (q_wall q - expiredMs))
         | Inl (QuoteNotFoundError i) \<Rightarrow> (404, Error_body ''quote_not_found'')
         | Inl _ \<Rightarrow> internal_error, st))"

section \<open>The application\<close>

datatype http_request =
    Post_announce string announce_input
  | Post_src_locked src_lock_input
  | Post_dst_locked dst_lock_input
  | Post_reveal int string string string
  | Get_order string
  | Get_transitions string
  | Get_rejected string
  | Get_eligibility int string
  | Get_snapshots
  | Get_metrics
  | Get_history history_query
  | Get_secret string
  | Get_quote_status string

fun handle :: "(bytes \<Rightarrow> string) \<Rightarrow> int \<Rightarrow> string \<Rightarrow> http_request \<Rightarrow> coord_state \<Rightarrow> reply \<times> coord_state" where
  "handle sha gap network (Post_announce pid i) st = post_announce pid i st"
| "handle sha gap network (Post_src_locked i) st = post_src_locked gap i st"
| "handle sha gap network (Post_dst_locked i) st = post_dst_locked gap i st"
| "handle sha gap network (Post_reveal nowMs pid pre tx) st = post_reveal sha nowMs pid pre tx st"
| "handle sha gap network (Get_order pid) st = get_order pid st"
| "handle sha gap network (Get_transitions pid) st = get_transitions_route pid st"
| "handle sha gap network (Get_rejected pid) st = get_rejected_route pid st"
| "handle sha gap network (Get_eligibility nowMs pid) st = get_eligibility nowMs pid st"
| "handle sha gap network Get_snapshots st = get_snapshots_route st"
| "handle sha gap network Get_metrics st = get_metrics_route st"
| "handle sha gap network (Get_history q) st = get_history network q st"
| "handle sha gap network (Get_secret pid) st = get_secret_route pid st"
| "handle sha gap network (Get_quote_status qid) st = get_quote_status qid st"

record app_state =
  ap_buckets :: "(string \<times> bucket) list"
  ap_coord :: coord_state

text \<open>The middlewares in the order of \<open>app.ts\<close>: every request passes the rate limiter of the health
  routes before it reaches a router under \<open>/api\<close>.\<close>

definition app_handle :: "(bytes \<Rightarrow> string) \<Rightarrow> int \<Rightarrow> string \<Rightarrow> limiter_options \<Rightarrow> string \<Rightarrow> int
    \<Rightarrow> http_request \<Rightarrow> app_state \<Rightarrow> reply \<times> app_state" where
  "app_handle sha gap network opts ip nowMs req st =
    (let (v, buckets) = rate_limit (limiter_limit opts) (limiter_window opts) ip nowMs (ap_buckets st);
         st' = st\<lparr>ap_buckets := buckets\<rparr>
     in if lv_retryAfter v \<noteq> None then ((429, Error_body ''rate_limited''), st')
        else (let (r, c) = handle sha gap network req (ap_coord st) in (r, st'\<lparr>ap_coord := c\<rparr>)))"

section \<open>What a reply says about the store\<close>





























text \<open>The limiter of the health routes answers for every route: once a client has used up its bucket,
  health checks or not, a reveal is refused like anything else.\<close>

lemma health_limiter_covers_api:
  assumes "map_of (ap_buckets st) ip = Some b" "limiter_limit opts \<le> bk_count b"
    and "nowMs - bk_startedAt b < limiter_window opts"
  shows "fst (app_handle sha gap network opts ip nowMs req st) = (429, Error_body ''rate_limited'')
    \<and> ap_coord (snd (app_handle sha gap network opts ip nowMs req st)) = ap_coord st"
  using assms by (simp add: app_handle_def rate_limit_def current_bucket_def Let_def)

end
