(* ===== verification/Relay_Store.thy ===== *)
theory Relay_Store
  imports OS_Prelude "HOL-Library.AList"
begin

text \<open>
  Durable relay records (\<open>relayer/src/relay-submission-store.ts\<close>): the persisted form of a
  submission, the memory store, and the file store with its tolerant read and its pruning.

  The content of the file is what \<open>load\<close> can find there: nothing, text it cannot use, or a list of
  entries. \<open>JSON.parse\<close> reads back what \<open>JSON.stringify\<close> wrote, and a write goes through a rename,
  so a save replaces the whole content or none of it. Times are integers (milliseconds). A
  \<open>result\<close> is a JavaScript value.
\<close>

datatype js_value =
    JNull
  | JBool bool
  | JNum int
  | JBig int
  | JStr string
  | JArr "js_value list"
  | JObj "(string \<times> js_value) list"

datatype relay_status = InFlight | PendingTx | SucceededTx | FailedTx

datatype terminal_reason = ReasonFailed | ReasonNotFound | ReasonNonRetryable | ReasonStaging

record persisted_submission =
  ps_version :: int
  ps_key :: string
  ps_orderKey :: string
  ps_orderId :: string
  ps_side :: string
  ps_action :: string
  ps_chain :: string
  ps_network :: "string option"
  ps_txHash :: "string option"
  ps_status :: relay_status
  ps_attempts :: nat
  ps_maxAttempts :: nat
  ps_broadcasts :: nat
  ps_lastError :: "string option"
  ps_terminalReason :: "terminal_reason option"
  ps_result :: "js_value option"
  ps_firstSeenAt :: int
  ps_lastAttemptAt :: "int option"
  ps_completedAt :: "int option"

datatype file_content =
  Missing | Unreadable | Blank | Not_json | Wrong_shape | Entries "persisted_submission list"

fun load_file :: "file_content \<Rightarrow> persisted_submission list" where
  "load_file Missing = []"
| "load_file Unreadable = []"
| "load_file Blank = []"
| "load_file Not_json = []"
| "load_file Wrong_shape = []"
| "load_file (Entries es) = es"

definition is_live :: "persisted_submission \<Rightarrow> bool" where
  "is_live e \<longleftrightarrow> ps_status e = InFlight \<or> ps_status e = PendingTx"

text \<open>\<open>completedAt ?? lastAttemptAt ?? firstSeenAt\<close>\<close>

definition settled_at :: "persisted_submission \<Rightarrow> int" where
  "settled_at e =
    (case ps_completedAt e of Some c \<Rightarrow> c
     | None \<Rightarrow> (case ps_lastAttemptAt e of Some l \<Rightarrow> l | None \<Rightarrow> ps_firstSeenAt e))"

definition prune :: "nat \<Rightarrow> persisted_submission list \<Rightarrow> persisted_submission list" where
  "prune maxRecords entries =
    (let live = filter is_live entries;
         terminal = sort_key (\<lambda>e. - settled_at e) (filter (\<lambda>e. \<not> is_live e) entries)
     in live @ take maxRecords terminal)"

datatype store_kind = No_store | Memory_store | File_store nat

text \<open>The constructor of the file store: at least one terminal record is kept.\<close>

definition file_store :: "nat option \<Rightarrow> store_kind" where
  "file_store maxRecords = File_store (max 1 (case maxRecords of None \<Rightarrow> 500 | Some m \<Rightarrow> m))"

text \<open>
  \<open>save\<close> of the two stores: the new content, or the error of the file system when the file cannot
  be written.
\<close>

fun save_store :: "store_kind \<Rightarrow> bool \<Rightarrow> persisted_submission list \<Rightarrow> string + file_content" where
  "save_store No_store up es = Inl ''no store''"
| "save_store Memory_store up es = Inr (Entries es)"
| "save_store (File_store m) up es = (if up then Inr (Entries (prune m es)) else Inl ''EIO'')"

section \<open>What pruning keeps\<close>

lemma set_prune_subset: "set (prune m es) \<subseteq> set es"
  by (auto simp: prune_def Let_def dest: in_set_takeD)

lemma prune_keeps_live: "e \<in> set es \<Longrightarrow> is_live e \<Longrightarrow> e \<in> set (prune m es)"
  by (simp add: prune_def Let_def)

lemma set_prune_all:
  "length (filter (\<lambda>e. \<not> is_live e) es) \<le> m \<Longrightarrow> set (prune m es) = set es"
  by (auto simp: prune_def Let_def)

lemma distinct_map_filter_split:
  "distinct (map f xs) \<Longrightarrow> distinct (map f (filter P xs) @ map f (filter (\<lambda>x. \<not> P x) xs))"
  by (induction xs) (auto simp: image_iff)

lemma distinct_sort_key_map [simp]: "distinct (map f (sort_key g xs)) = distinct (map f xs)"
  by (simp add: distinct_map)

lemma distinct_prune:
  assumes "distinct (map ps_key es)"
  shows "distinct (map ps_key (prune m es))"
proof -
  let ?l = "filter is_live es"
  let ?t = "sort_key (\<lambda>e. - settled_at e) (filter (\<lambda>e. \<not> is_live e) es)"
  have "distinct (map ps_key ?l @ map ps_key ?t)"
    using distinct_map_filter_split[OF assms, of is_live] by simp
  then show ?thesis
    by (auto simp: prune_def Let_def take_map[symmetric] disjoint_iff dest: in_set_takeD)
qed

text \<open>
  A pruned terminal record was settled no later than any terminal record that is kept.
\<close>

lemma take_sorted_le:
  "sorted (map f xs) \<Longrightarrow> x \<in> set xs \<Longrightarrow> x \<notin> set (take n xs) \<Longrightarrow> y \<in> set (take n xs) \<Longrightarrow> f y \<le> f x"
proof (induction xs arbitrary: n)
  case (Cons z zs)
  then show ?case by (cases n) (auto dest: in_set_takeD)
qed simp

lemma prune_drops_oldest:
  assumes "e \<in> set es" "e \<notin> set (prune m es)" "k \<in> set (prune m es)" "\<not> is_live k"
  shows "\<not> is_live e \<and> settled_at e \<le> settled_at k"
proof
  show ne: "\<not> is_live e" using assms(1,2) prune_keeps_live by blast
  let ?t = "sort_key (\<lambda>e. - settled_at e) (filter (\<lambda>e. \<not> is_live e) es)"
  have "e \<in> set ?t" "e \<notin> set (take m ?t)" "k \<in> set (take m ?t)"
    using assms ne by (auto simp: prune_def Let_def)
  from take_sorted_le[OF sorted_sort_key this] show "settled_at e \<le> settled_at k" by simp
qed

end
