(* ===== verification/Relay_Tracker.thy ===== *)
theory Relay_Tracker
  imports Relay_Store
begin

text \<open>
  The single door for relay transactions (\<open>relayer/src/relay-submission-tracker.ts\<close>).

  \<^item> A submission record is an object that the map \<open>records\<close> and the running operations share. The
    model keeps the objects in \<open>heap\<close> and refers to them by index, so that a write of a running
    operation is seen through the map as long as the map still holds that object.
  \<^item> Every \<open>await\<close> is a point where other calls may run. An operation that waits is an entry of
    \<open>ops\<close> with its phase, and each continuation between two waits is one definition: \<open>submit\<close>,
    \<open>stager_settled\<close>, \<open>broadcast_settled\<close>, \<open>confirm_settled\<close> and \<open>wake\<close>. What the stager, the
    broadcast or the confirmer answers (a timeout included) is an argument.
  \<^item> \<open>wire\<close> records every call of a \<open>broadcast\<close> closure with the key and the transaction hash.
  \<^item> The header of the private method \<open>track\<close> is missing from the file at this commit (a stray
    fragment of an older \<open>submit\<close> stands in its place). All it contributes is the map \<open>inflight\<close>
    of running operations by key, which the model reads off \<open>ops\<close>.
  \<^item> SHA-256 is the parameter \<open>sha\<close>. Log lines and observer events are left out.
\<close>

section \<open>Data\<close>

record relay_action =
  ra_orderId :: string
  ra_side :: string
  ra_action :: string
  ra_chain :: string
  ra_network :: "string option"
  ra_destination :: "string option"
  ra_amount :: "string option"

record submission_record =
  sr_key :: string
  sr_orderKey :: string
  sr_action :: relay_action
  sr_status :: relay_status
  sr_attempts :: nat
  sr_maxAttempts :: nat
  sr_broadcasts :: nat
  sr_txHash :: "string option"
  sr_network :: "string option"
  sr_lastError :: "string option"
  sr_terminalReason :: "terminal_reason option"
  sr_result :: "js_value option"
  sr_firstSeenAt :: int
  sr_lastAttemptAt :: "int option"
  sr_completedAt :: "int option"
  sr_restored :: bool

datatype confirmation_state = Conf_succeeded | Conf_failed | Conf_pending | Conf_not_found

record relay_confirmation =
  rc_state :: confirmation_state
  rc_error :: "string option"
  rc_result :: "js_value option"

record staged_submission =
  st_txHash :: string
  st_network :: "string option"

datatype relay_error =
    RelayTerminalError string nat "string option" terminal_reason
  | RelayConfirmationTimeoutError string "string option" "string option" nat
  | RelayInFlightError string
  | RelayOrderBusyError string string relay_status string

datatype outcome_status = Out_succeeded | Out_already_handled

record relay_outcome =
  ro_status :: outcome_status
  ro_result :: "js_value option"
  ro_duplicate :: bool
  ro_txHash :: "string option"
  ro_network :: "string option"
  ro_reconciled :: "bool option"

record relay_config =
  cfg_maxAttempts :: nat
  cfg_confirms :: bool
  cfg_store :: store_kind
  cfg_isRetryable :: "string \<Rightarrow> bool"

text \<open>\<open>Math.max(1, Math.floor(config.maxAttempts ?? 3))\<close>\<close>

definition make_config :: "nat option \<Rightarrow> bool \<Rightarrow> store_kind \<Rightarrow> (string \<Rightarrow> bool) \<Rightarrow> relay_config" where
  "make_config maxAttempts confirms store isRetryable =
    \<lparr>cfg_maxAttempts = max 1 (case maxAttempts of None \<Rightarrow> 3 | Some m \<Rightarrow> m),
     cfg_confirms = confirms, cfg_store = store, cfg_isRetryable = isRetryable\<rparr>"

text \<open>What a running operation waits for; polls so far, and whether it serves a duplicate call.\<close>

datatype relay_phase = Staging | Broadcasting | Polling nat bool | Sleeping nat bool

record tracker =
  heap :: "submission_record list"
  records :: "(string \<times> nat) list"
  ops :: "(nat \<times> relay_phase) list"
  reconciling :: "string list"
  duplicatesSkipped :: nat
  inFlightSkipped :: nat
  orderBlocked :: nat
  restoredCount :: nat
  storeErrors :: nat
  disk :: file_content
  disk_up :: bool
  wire :: "(string \<times> string) list"

datatype relay_reply =
  Resolved relay_outcome | Thrown relay_error | Waiting nat | Joins nat | Idle

section \<open>Keys\<close>

definition is_safe_char :: "char \<Rightarrow> bool" where
  "is_safe_char c \<longleftrightarrow> is_digit c \<or> 65 \<le> (of_char c :: nat) \<and> (of_char c :: nat) \<le> 90
     \<or> 97 \<le> (of_char c :: nat) \<and> (of_char c :: nat) \<le> 122 \<or> c = CHR ''.'' \<or> c = CHR ''_'' \<or> c = CHR ''-''"

definition humanizeOrderId :: "string \<Rightarrow> string" where
  "humanizeOrderId orderId =
    (let safe = take 64 (map (\<lambda>c. if is_safe_char c then c else CHR ''_'') orderId)
     in if safe = [] then ''unknown'' else safe)"

definition shortDigest :: "(string \<Rightarrow> string) \<Rightarrow> string \<Rightarrow> string" where
  "shortDigest sha input = take 8 (sha input)"

definition hex_nibble :: "nat \<Rightarrow> char" where
  "hex_nibble n = (if n < 10 then char_of (48 + n) else char_of (87 + n))"

text \<open>\<open>JSON.stringify\<close> of a string: short escapes, and \<open>u00XX\<close> for other control characters.\<close>

definition json_char :: "char \<Rightarrow> string" where
  "json_char c =
    (let n = (of_char c :: nat)
     in if n = 34 then [char_of (92::nat), c] else if n = 92 then [c, c]
        else if n = 8 then [char_of (92::nat), CHR ''b''] else if n = 9 then [char_of (92::nat), CHR ''t'']
        else if n = 10 then [char_of (92::nat), CHR ''n''] else if n = 12 then [char_of (92::nat), CHR ''f'']
        else if n = 13 then [char_of (92::nat), CHR ''r'']
        else if n < 32 then char_of (92::nat) # ''u00'' @ [hex_nibble (n div 16), hex_nibble (n mod 16)]
        else [c])"

definition stableStringify_string :: "string \<Rightarrow> string" where
  "stableStringify_string s = char_of (34::nat) # concat (map json_char s) @ [char_of (34::nat)]"

definition computeOrderKey :: "(string \<Rightarrow> string) \<Rightarrow> string \<Rightarrow> string \<Rightarrow> string" where
  "computeOrderKey sha orderId side =
    humanizeOrderId orderId @ ''|'' @ side @ ''#'' @ shortDigest sha orderId"

definition computeSubmissionKey :: "(string \<Rightarrow> string) \<Rightarrow> relay_action \<Rightarrow> string" where
  "computeSubmissionKey sha a =
    ra_side a @ '':'' @ ra_action a @ '':'' @ humanizeOrderId (ra_orderId a) @ ''#''
      @ shortDigest sha (stableStringify_string (ra_orderId a))"

section \<open>Records and the store\<close>

text \<open>The JSON projection of a result: a BigInt is written as its decimal text.\<close>

primrec serializableResult :: "js_value \<Rightarrow> js_value" where
  "serializableResult JNull = JNull"
| "serializableResult (JBool b) = JBool b"
| "serializableResult (JNum n) = JNum n"
| "serializableResult (JBig n) = JStr (show_int n)"
| "serializableResult (JStr s) = JStr s"
| "serializableResult (JArr xs) = JArr (map serializableResult xs)"
| "serializableResult (JObj fs) = JObj (map (map_prod id serializableResult) fs)"

definition toPersistedSubmission :: "submission_record \<Rightarrow> persisted_submission" where
  "toPersistedSubmission r =
    \<lparr>ps_version = 1, ps_key = sr_key r, ps_orderKey = sr_orderKey r,
     ps_orderId = ra_orderId (sr_action r), ps_side = ra_side (sr_action r),
     ps_action = ra_action (sr_action r), ps_chain = ra_chain (sr_action r),
     ps_network = (case sr_network r of Some n \<Rightarrow> Some n | None \<Rightarrow> ra_network (sr_action r)),
     ps_txHash = sr_txHash r, ps_status = sr_status r, ps_attempts = sr_attempts r,
     ps_maxAttempts = sr_maxAttempts r, ps_broadcasts = sr_broadcasts r,
     ps_lastError = sr_lastError r, ps_terminalReason = sr_terminalReason r,
     ps_result = map_option serializableResult (sr_result r), ps_firstSeenAt = sr_firstSeenAt r,
     ps_lastAttemptAt = sr_lastAttemptAt r, ps_completedAt = sr_completedAt r\<rparr>"

definition truthy :: "string option \<Rightarrow> bool" where
  "truthy v \<longleftrightarrow> v \<noteq> None \<and> v \<noteq> Some []"

definition normalizePersistedStatus ::
  "relay_status \<Rightarrow> string option \<Rightarrow> string option \<Rightarrow> relay_status \<times> string option" where
  "normalizePersistedStatus status txHash lastError =
    (case status of
       SucceededTx \<Rightarrow> (SucceededTx, lastError)
     | FailedTx \<Rightarrow> (FailedTx, lastError)
     | InFlight \<Rightarrow> (FailedTx, Some ''relayer restarted before a transaction hash was recorded'')
     | PendingTx \<Rightarrow>
         if truthy txHash then (PendingTx, lastError)
         else (FailedTx, Some ''pending record without a transaction hash; discarded''))"

definition restored_record :: "(string \<Rightarrow> string) \<Rightarrow> persisted_submission \<Rightarrow> submission_record" where
  "restored_record sha e =
    (let action = \<lparr>ra_orderId = ps_orderId e, ra_side = ps_side e, ra_action = ps_action e,
           ra_chain = ps_chain e, ra_network = ps_network e, ra_destination = None,
           ra_amount = None\<rparr>;
         (status, lastError) = normalizePersistedStatus (ps_status e) (ps_txHash e) (ps_lastError e);
         terminalReason =
           (if status = FailedTx
               \<and> (ps_terminalReason e = Some ReasonStaging \<or> \<not> truthy (ps_txHash e))
            then Some ReasonStaging else ps_terminalReason e)
     in \<lparr>sr_key = ps_key e,
         sr_orderKey = (if ps_orderKey e \<noteq> [] then ps_orderKey e
                        else computeOrderKey sha (ra_orderId action) (ra_side action)),
         sr_action = action, sr_status = status, sr_attempts = ps_attempts e,
         sr_maxAttempts = ps_maxAttempts e, sr_broadcasts = ps_broadcasts e,
         sr_txHash = ps_txHash e, sr_network = ps_network e, sr_lastError = lastError,
         sr_terminalReason = terminalReason, sr_result = ps_result e,
         sr_firstSeenAt = ps_firstSeenAt e, sr_lastAttemptAt = ps_lastAttemptAt e,
         sr_completedAt = ps_completedAt e, sr_restored = True\<rparr>)"

definition set_record :: "submission_record \<Rightarrow> tracker \<Rightarrow> tracker" where
  "set_record r t =
    t\<lparr>heap := heap t @ [r], records := AList.update (sr_key r) (length (heap t)) (records t)\<rparr>"

text \<open>One round of the loop of \<open>restore\<close>.\<close>

definition restore_entry :: "(string \<Rightarrow> string) \<Rightarrow> persisted_submission \<Rightarrow> tracker \<Rightarrow> tracker" where
  "restore_entry sha e t =
    (if ps_key e = [] then t
     else (set_record (restored_record sha e) t)\<lparr>restoredCount := restoredCount t + 1\<rparr>)"

definition restore :: "(string \<Rightarrow> string) \<Rightarrow> relay_config \<Rightarrow> tracker \<Rightarrow> tracker" where
  "restore sha cfg t =
    (if cfg_store cfg = No_store then t
     else fold (restore_entry sha) (load_file (disk t)) t)"

definition persist :: "relay_config \<Rightarrow> tracker \<Rightarrow> tracker" where
  "persist cfg t =
    (if cfg_store cfg = No_store then t
     else case save_store (cfg_store cfg) (disk_up t)
                 (map (\<lambda>(k, oid). toPersistedSubmission (heap t ! oid)) (records t)) of
       Inr c \<Rightarrow> t\<lparr>disk := c\<rparr>
     | Inl _ \<Rightarrow> t\<lparr>storeErrors := storeErrors t + 1\<rparr>)"

text \<open>A new process over what an earlier one left on disk and on the wire.\<close>

definition boot :: "(string \<Rightarrow> string) \<Rightarrow> relay_config \<Rightarrow> file_content \<Rightarrow> bool \<Rightarrow> (string \<times> string) list
    \<Rightarrow> tracker" where
  "boot sha cfg content up sent = restore sha cfg
    \<lparr>heap = [], records = [], ops = [], reconciling = [], duplicatesSkipped = 0,
     inFlightSkipped = 0, orderBlocked = 0, restoredCount = 0, storeErrors = 0,
     disk = content, disk_up = up, wire = sent\<rparr>"

section \<open>Operations\<close>

definition update_rec :: "nat \<Rightarrow> (submission_record \<Rightarrow> submission_record) \<Rightarrow> tracker \<Rightarrow> tracker" where
  "update_rec oid f t = t\<lparr>heap := (heap t)[oid := f (heap t ! oid)]\<rparr>"

definition end_op :: "nat \<Rightarrow> tracker \<Rightarrow> tracker" where
  "end_op oid t = t\<lparr>ops := AList.delete oid (ops t)\<rparr>"

definition set_op :: "nat \<Rightarrow> relay_phase \<Rightarrow> tracker \<Rightarrow> tracker" where
  "set_op oid ph t = t\<lparr>ops := AList.update oid ph (ops t)\<rparr>"

definition getRecord :: "string \<Rightarrow> tracker \<Rightarrow> submission_record option" where
  "getRecord key t = map_option (\<lambda>oid. heap t ! oid) (map_of (records t) key)"

definition getBlockingRecord :: "(string \<Rightarrow> string) \<Rightarrow> relay_action \<Rightarrow> tracker \<Rightarrow> submission_record option" where
  "getBlockingRecord sha a t =
    (let orderKey = computeOrderKey sha (ra_orderId a) (ra_side a);
         key = computeSubmissionKey sha a
     in find (\<lambda>r. sr_orderKey r = orderKey \<and> sr_key r \<noteq> key \<and> sr_status r \<noteq> FailedTx)
          (map (\<lambda>(k, oid). heap t ! oid) (records t)))"

definition assertOrderAvailable :: "(string \<Rightarrow> string) \<Rightarrow> relay_action \<Rightarrow> tracker
    \<Rightarrow> (relay_error option) \<times> tracker" where
  "assertOrderAvailable sha a t =
    (case getBlockingRecord sha a t of
       None \<Rightarrow> (None, t)
     | Some b \<Rightarrow>
         (Some (RelayOrderBusyError (sr_key b) (ra_action (sr_action b)) (sr_status b) (ra_action a)),
          t\<lparr>orderBlocked := orderBlocked t + 1\<rparr>))"

fun reason_text :: "terminal_reason \<Rightarrow> string" where
  "reason_text ReasonFailed = ''failed''"
| "reason_text ReasonNotFound = ''not_found''"
| "reason_text ReasonNonRetryable = ''non_retryable''"
| "reason_text ReasonStaging = ''staging_failed''"

definition fail_rec :: "relay_config \<Rightarrow> terminal_reason \<Rightarrow> int \<Rightarrow> nat \<Rightarrow> tracker \<Rightarrow> tracker" where
  "fail_rec cfg reason now oid t =
    persist cfg (update_rec oid (\<lambda>r. r\<lparr>sr_status := FailedTx, sr_completedAt := Some now,
      sr_terminalReason := Some reason,
      sr_lastError := (case sr_lastError r of Some e \<Rightarrow> Some e
                       | None \<Rightarrow> Some (''relay submission '' @ reason_text reason))\<rparr>) t)"

definition terminal_error :: "nat \<Rightarrow> terminal_reason \<Rightarrow> tracker \<Rightarrow> relay_error" where
  "terminal_error oid reason t =
    RelayTerminalError (sr_key (heap t ! oid)) (sr_attempts (heap t ! oid))
      (sr_lastError (heap t ! oid)) reason"

definition unconfirmed_error :: "nat \<Rightarrow> tracker \<Rightarrow> relay_error" where
  "unconfirmed_error oid t =
    RelayConfirmationTimeoutError (sr_key (heap t ! oid)) (sr_txHash (heap t ! oid))
      (sr_network (heap t ! oid)) (sr_attempts (heap t ! oid))"

definition settleSuccess :: "relay_config \<Rightarrow> js_value option \<Rightarrow> bool \<Rightarrow> bool \<Rightarrow> int \<Rightarrow> nat \<Rightarrow> tracker
    \<Rightarrow> relay_reply \<times> tracker" where
  "settleSuccess cfg result duplicate reconciled now oid t =
    (let t1 = persist cfg (update_rec oid (\<lambda>r. r\<lparr>sr_status := SucceededTx, sr_result := result,
                sr_completedAt := Some now, sr_lastError := None\<rparr>) t);
         r = heap t1 ! oid
     in (Resolved \<lparr>ro_status = (if duplicate then Out_already_handled else Out_succeeded),
           ro_result = result, ro_duplicate = duplicate, ro_txHash = sr_txHash r,
           ro_network = sr_network r, ro_reconciled = Some reconciled\<rparr>, end_op oid t1))"

text \<open>One round of the polling loop up to the call of the confirmer.\<close>

definition poll :: "nat \<Rightarrow> bool \<Rightarrow> int \<Rightarrow> nat \<Rightarrow> tracker \<Rightarrow> relay_reply \<times> tracker" where
  "poll polls dup now oid t =
    (Waiting oid, set_op oid (Polling (polls + 1) dup)
       (update_rec oid (\<lambda>r. r\<lparr>sr_attempts := sr_attempts r + 1, sr_lastAttemptAt := Some now\<rparr>) t))"

text \<open>\<open>reconcile\<close> up to its first wait.\<close>

definition reconcile :: "relay_config \<Rightarrow> bool \<Rightarrow> int \<Rightarrow> nat \<Rightarrow> tracker \<Rightarrow> relay_reply \<times> tracker" where
  "reconcile cfg dup now oid t =
    (let key = sr_key (heap t ! oid)
     in if \<not> cfg_confirms cfg then (Thrown (unconfirmed_error oid t), end_op oid t)
        else if key \<in> set (reconciling t) then
          (Thrown (RelayInFlightError key),
           end_op oid (t\<lparr>inFlightSkipped := inFlightSkipped t + 1\<rparr>))
        else poll 0 dup now oid (t\<lparr>reconciling := key # reconciling t\<rparr>))"

text \<open>The \<open>finally\<close> of \<open>reconcile\<close>.\<close>

definition stop_reconciling :: "nat \<Rightarrow> tracker \<Rightarrow> tracker" where
  "stop_reconciling oid t =
    t\<lparr>reconciling := removeAll (sr_key (heap t ! oid)) (reconciling t)\<rparr>"

text \<open>
  The rest of \<open>submit\<close> once no record holds the key, and the start of \<open>broadcastOnce\<close> up to the
  call of the stager.
\<close>

definition start_submission :: "(string \<Rightarrow> string) \<Rightarrow> relay_config \<Rightarrow> relay_action \<Rightarrow> int \<Rightarrow> tracker
    \<Rightarrow> relay_reply \<times> tracker" where
  "start_submission sha cfg a now t =
    (case assertOrderAvailable sha a t of
       (Some e, t1) \<Rightarrow> (Thrown e, t1)
     | (None, t1) \<Rightarrow>
         (let oid = length (heap t1);
              r = \<lparr>sr_key = computeSubmissionKey sha a,
                   sr_orderKey = computeOrderKey sha (ra_orderId a) (ra_side a), sr_action = a,
                   sr_status = InFlight, sr_attempts = 0, sr_maxAttempts = cfg_maxAttempts cfg,
                   sr_broadcasts = 0, sr_txHash = None, sr_network = None, sr_lastError = None,
                   sr_terminalReason = None, sr_result = None, sr_firstSeenAt = now,
                   sr_lastAttemptAt = None, sr_completedAt = None, sr_restored = False\<rparr>;
              t2 = persist cfg (set_record r t1)
          in (Waiting oid, set_op oid Staging
                (update_rec oid (\<lambda>r. r\<lparr>sr_attempts := sr_attempts r + 1,
                                        sr_lastAttemptAt := Some now\<rparr>) t2))))"

definition driven :: "string \<Rightarrow> tracker \<Rightarrow> bool" where
  "driven key t \<longleftrightarrow> (\<exists>(oid, ph) \<in> set (ops t). sr_key (heap t ! oid) = key)"

definition submit :: "(string \<Rightarrow> string) \<Rightarrow> relay_config \<Rightarrow> relay_action \<Rightarrow> int \<Rightarrow> tracker
    \<Rightarrow> relay_reply \<times> tracker" where
  "submit sha cfg a now t =
    (let key = computeSubmissionKey sha a
     in case map_of (records t) key of
       None \<Rightarrow> start_submission sha cfg a now t
     | Some oid \<Rightarrow>
        (let r = heap t ! oid
         in case sr_status r of
              SucceededTx \<Rightarrow>
                (Resolved \<lparr>ro_status = Out_already_handled, ro_result = sr_result r,
                   ro_duplicate = True, ro_txHash = sr_txHash r, ro_network = sr_network r,
                   ro_reconciled = None\<rparr>,
                 t\<lparr>duplicatesSkipped := duplicatesSkipped t + 1\<rparr>)
            | FailedTx \<Rightarrow>
                if sr_terminalReason r = Some ReasonStaging then
                  (let t1 = persist cfg (t\<lparr>records := AList.delete key (records t)\<rparr>)
                   in case assertOrderAvailable sha a t1 of
                        (Some e, t2) \<Rightarrow> (Thrown e, t2)
                      | (None, t2) \<Rightarrow> start_submission sha cfg a now t2)
                else
                  (Thrown (terminal_error oid
                     (case sr_terminalReason r of Some x \<Rightarrow> x | None \<Rightarrow> ReasonFailed) t), t)
            | InFlight \<Rightarrow>
                if driven key t
                then (Joins oid, t\<lparr>inFlightSkipped := inFlightSkipped t + 1\<rparr>)
                else (Thrown (RelayInFlightError key),
                      t\<lparr>inFlightSkipped := inFlightSkipped t + 1\<rparr>)
            | PendingTx \<Rightarrow>
                if driven key t
                then (Joins oid, t\<lparr>inFlightSkipped := inFlightSkipped t + 1\<rparr>)
                else reconcile cfg True now oid t))"

text \<open>\<open>broadcastOnce\<close> after the stager has answered, up to the call of the broadcast closure.\<close>

definition stager_settled :: "relay_config \<Rightarrow> string + staged_submission \<Rightarrow> int \<Rightarrow> nat \<Rightarrow> tracker
    \<Rightarrow> relay_reply \<times> tracker" where
  "stager_settled cfg ans now oid t =
    (case ans of
       Inl err \<Rightarrow>
         (let reason = (if cfg_isRetryable cfg err then ReasonStaging else ReasonNonRetryable);
              t1 = fail_rec cfg reason now oid
                     (update_rec oid (\<lambda>r. r\<lparr>sr_lastError := Some err\<rparr>) t)
          in (Thrown (terminal_error oid reason t1), end_op oid t1))
     | Inr staged \<Rightarrow>
         if st_txHash staged = [] then
           (let t1 = fail_rec cfg ReasonStaging now oid
                       (update_rec oid (\<lambda>r. r\<lparr>sr_lastError :=
                          Some ''stager did not provide a transaction hash before broadcast''\<rparr>) t)
            in (Thrown (terminal_error oid ReasonStaging t1), end_op oid t1))
         else
           (let t1 = persist cfg (update_rec oid (\<lambda>r. r\<lparr>sr_txHash := Some (st_txHash staged),
                  sr_network := (case st_network staged of Some n \<Rightarrow> Some n
                                 | None \<Rightarrow> ra_network (sr_action r)),
                  sr_status := PendingTx, sr_broadcasts := sr_broadcasts r + 1\<rparr>) t)
            in (Waiting oid, set_op oid Broadcasting
                  (t1\<lparr>wire := wire t1 @ [(sr_key (heap t1 ! oid), st_txHash staged)]\<rparr>))))"

definition broadcast_settled :: "relay_config \<Rightarrow> string + js_value \<Rightarrow> int \<Rightarrow> nat \<Rightarrow> tracker
    \<Rightarrow> relay_reply \<times> tracker" where
  "broadcast_settled cfg ans now oid t =
    (case ans of
       Inr result \<Rightarrow> settleSuccess cfg (Some result) False False now oid t
     | Inl err \<Rightarrow>
         reconcile cfg False now oid
           (persist cfg (update_rec oid (\<lambda>r. r\<lparr>sr_lastError := Some err\<rparr>) t)))"

definition unsettled_text :: "relay_confirmation \<Rightarrow> submission_record \<Rightarrow> string" where
  "unsettled_text c r =
    (let tx = ''tx '' @ (case sr_txHash r of Some h \<Rightarrow> h | None \<Rightarrow> ''undefined'')
     in if rc_state c = Conf_not_found
        then tx @ '' was never observed on '' @
          (case sr_network r of Some n \<Rightarrow> n | None \<Rightarrow> ra_chain (sr_action r))
        else case rc_error c of Some e \<Rightarrow> e | None \<Rightarrow> tx @ '' still pending'')"

text \<open>The polling loop after the confirmer has answered or thrown.\<close>

definition confirm_settled :: "relay_config \<Rightarrow> string + relay_confirmation \<Rightarrow> int \<Rightarrow> nat \<Rightarrow> bool \<Rightarrow> nat
    \<Rightarrow> tracker \<Rightarrow> relay_reply \<times> tracker" where
  "confirm_settled cfg ans now polls dup oid t =
    (let c = (case ans of Inr c \<Rightarrow> c
              | Inl err \<Rightarrow> \<lparr>rc_state = Conf_pending, rc_error = Some err, rc_result = None\<rparr>)
     in case rc_state c of
          Conf_succeeded \<Rightarrow>
            settleSuccess cfg (case rc_result c of Some x \<Rightarrow> Some x | None \<Rightarrow> sr_result (heap t ! oid))
              dup True now oid (stop_reconciling oid t)
        | Conf_failed \<Rightarrow>
            (let t1 = fail_rec cfg ReasonFailed now oid (update_rec oid (\<lambda>r. r\<lparr>sr_lastError :=
                   (case rc_error c of Some e \<Rightarrow> Some e
                    | None \<Rightarrow> Some ''transaction failed on chain'')\<rparr>) t)
             in (Thrown (terminal_error oid ReasonFailed t1), end_op oid (stop_reconciling oid t1)))
        | _ \<Rightarrow>
            (let t1 = persist cfg (update_rec oid (\<lambda>r. r\<lparr>sr_lastError := Some (unsettled_text c r)\<rparr>) t)
             in if polls < cfg_maxAttempts cfg then (Waiting oid, set_op oid (Sleeping polls dup) t1)
                else if rc_state c = Conf_not_found then
                  (let t2 = fail_rec cfg ReasonNotFound now oid t1
                   in (Thrown (terminal_error oid ReasonNotFound t2),
                       end_op oid (stop_reconciling oid t2)))
                else (Thrown (unconfirmed_error oid t1),
                      end_op oid (stop_reconciling oid (persist cfg t1)))))"

definition forget :: "relay_config \<Rightarrow> string \<Rightarrow> bool \<Rightarrow> tracker \<Rightarrow> bool \<times> tracker" where
  "forget cfg key force t =
    (case getRecord key t of
       None \<Rightarrow> (False, t)
     | Some r \<Rightarrow>
         if \<not> force \<and> (sr_status r = SucceededTx \<or> sr_status r = PendingTx) then (False, t)
         else (True, persist cfg (t\<lparr>records := AList.delete key (records t)\<rparr>)))"

section \<open>Interleavings\<close>

text \<open>
  An event is a call from outside, the answer a waiting operation gets, or a restart of the
  process. An answer for an operation that does not wait for it is ignored.
\<close>

datatype relay_event =
    Submit relay_action int
  | Stager_answers nat "string + staged_submission" int
  | Broadcast_answers nat "string + js_value" int
  | Confirmer_answers nat "string + relay_confirmation" int
  | Timer nat int
  | Forget string bool
  | Restart

definition relay_step :: "(string \<Rightarrow> string) \<Rightarrow> relay_config \<Rightarrow> relay_event \<Rightarrow> tracker
    \<Rightarrow> relay_reply \<times> tracker" where
  "relay_step sha cfg ev t =
    (case ev of
       Submit a now \<Rightarrow> submit sha cfg a now t
     | Stager_answers oid ans now \<Rightarrow>
         (case map_of (ops t) oid of Some Staging \<Rightarrow> stager_settled cfg ans now oid t | _ \<Rightarrow> (Idle, t))
     | Broadcast_answers oid ans now \<Rightarrow>
         (case map_of (ops t) oid of
            Some Broadcasting \<Rightarrow> broadcast_settled cfg ans now oid t | _ \<Rightarrow> (Idle, t))
     | Confirmer_answers oid ans now \<Rightarrow>
         (case map_of (ops t) oid of
            Some (Polling polls dup) \<Rightarrow> confirm_settled cfg ans now polls dup oid t | _ \<Rightarrow> (Idle, t))
     | Timer oid now \<Rightarrow>
         (case map_of (ops t) oid of
            Some (Sleeping polls dup) \<Rightarrow> poll polls dup now oid t | _ \<Rightarrow> (Idle, t))
     | Forget key force \<Rightarrow> (Idle, snd (forget cfg key force t))
     | Restart \<Rightarrow> (Idle, boot sha cfg (disk t) (disk_up t) (wire t)))"

definition relay_run :: "(string \<Rightarrow> string) \<Rightarrow> relay_config \<Rightarrow> relay_event list \<Rightarrow> tracker \<Rightarrow> tracker" where
  "relay_run sha cfg evs t = fold (\<lambda>ev t. snd (relay_step sha cfg ev t)) evs t"

definition fresh_tracker :: "(string \<Rightarrow> string) \<Rightarrow> relay_config \<Rightarrow> tracker" where
  "fresh_tracker sha cfg = boot sha cfg Missing True []"

end
