(* ===== verification/Relay_Safety.thy ===== *)
theory Relay_Safety
  imports Relay_Tracker
begin

text \<open>
  What the relay tracker guarantees: at most one broadcast per submission key and one live or
  settled action per order, over any interleaving of calls, answers and restarts.

  The invariant speaks about the heap, the map of records, the running operations and the wire.
\<close>

section \<open>Projections\<close>

named_theorems relay_frame \<open>components an operation leaves alone\<close>

lemma persist_frame [relay_frame, simp]:
  "heap (persist cfg t) = heap t" "records (persist cfg t) = records t" "ops (persist cfg t) = ops t"
  "wire (persist cfg t) = wire t" "disk_up (persist cfg t) = disk_up t"
  "reconciling (persist cfg t) = reconciling t"
  by (simp_all add: persist_def split: sum.splits)

lemma update_rec_frame [relay_frame, simp]:
  "heap (update_rec oid f t) = (heap t)[oid := f (heap t ! oid)]"
  "records (update_rec oid f t) = records t" "ops (update_rec oid f t) = ops t"
  "wire (update_rec oid f t) = wire t" "disk_up (update_rec oid f t) = disk_up t"
  "disk (update_rec oid f t) = disk t"
  by (simp_all add: update_rec_def)

lemma op_frame [relay_frame, simp]:
  "heap (end_op oid t) = heap t" "records (end_op oid t) = records t"
  "ops (end_op oid t) = AList.delete oid (ops t)" "wire (end_op oid t) = wire t"
  "disk_up (end_op oid t) = disk_up t" "disk (end_op oid t) = disk t"
  "heap (set_op oid ph t) = heap t" "records (set_op oid ph t) = records t"
  "ops (set_op oid ph t) = AList.update oid ph (ops t)" "wire (set_op oid ph t) = wire t"
  "disk_up (set_op oid ph t) = disk_up t" "disk (set_op oid ph t) = disk t"
  by (simp_all add: end_op_def set_op_def)

lemma stop_reconciling_frame [relay_frame, simp]:
  "heap (stop_reconciling oid t) = heap t" "records (stop_reconciling oid t) = records t"
  "ops (stop_reconciling oid t) = ops t" "wire (stop_reconciling oid t) = wire t"
  "disk_up (stop_reconciling oid t) = disk_up t" "disk (stop_reconciling oid t) = disk t"
  by (simp_all add: stop_reconciling_def)

lemma set_record_frame [relay_frame, simp]:
  "heap (set_record r t) = heap t @ [r]"
  "records (set_record r t) = AList.update (sr_key r) (length (heap t)) (records t)"
  "ops (set_record r t) = ops t" "wire (set_record r t) = wire t"
  "disk_up (set_record r t) = disk_up t" "disk (set_record r t) = disk t"
  by (simp_all add: set_record_def)

lemma assertOrderAvailable_frame [relay_frame]:
  assumes "assertOrderAvailable sha a t = (e, t')"
  shows "heap t' = heap t" "records t' = records t" "ops t' = ops t" "wire t' = wire t"
    "disk_up t' = disk_up t" "disk t' = disk t"
  using assms by (auto simp: assertOrderAvailable_def split: option.splits)

section \<open>The invariant\<close>

text \<open>The record is past the point of no return for transaction \<open>h\<close>.\<close>

definition posted :: "string \<Rightarrow> submission_record \<Rightarrow> bool" where
  "posted h r \<longleftrightarrow> h \<noteq> [] \<and> sr_txHash r = Some h \<and> sr_status r \<noteq> InFlight
     \<and> (sr_status r = FailedTx \<longrightarrow> sr_terminalReason r \<noteq> Some ReasonStaging)"

fun phase_ok :: "relay_phase \<Rightarrow> submission_record \<Rightarrow> bool" where
  "phase_ok Staging r = (sr_status r = InFlight)"
| "phase_ok ph r = (sr_status r = PendingTx)"

definition relay_core :: "submission_record list \<Rightarrow> (string \<times> nat) list \<Rightarrow> (nat \<times> relay_phase) list
    \<Rightarrow> (string \<times> string) list \<Rightarrow> bool" where
  "relay_core h rs os w \<longleftrightarrow>
     distinct (map fst rs)
   \<and> (\<forall>(k, oid) \<in> set rs. oid < length h \<and> sr_key (h ! oid) = k \<and> k \<noteq> [] \<and> sr_orderKey (h ! oid) \<noteq> [])
   \<and> distinct (map fst os)
   \<and> (\<forall>(oid, ph) \<in> set os. (sr_key (h ! oid), oid) \<in> set rs \<and> phase_ok ph (h ! oid))
   \<and> (\<forall>(k1, o1) \<in> set rs. \<forall>(k2, o2) \<in> set rs. sr_orderKey (h ! o1) = sr_orderKey (h ! o2)
        \<longrightarrow> sr_status (h ! o1) \<noteq> FailedTx \<longrightarrow> sr_status (h ! o2) \<noteq> FailedTx \<longrightarrow> k1 = k2)
   \<and> distinct (map fst w)
   \<and> (\<forall>(k, tx) \<in> set w. \<exists>oid. (k, oid) \<in> set rs \<and> posted tx (h ! oid))"

definition relay_inv :: "tracker \<Rightarrow> bool" where
  "relay_inv t \<longleftrightarrow> relay_core (heap t) (records t) (ops t) (wire t)"

lemma relay_coreI:
  assumes "distinct (map fst rs)"
    and "\<And>k oid. (k, oid) \<in> set rs \<Longrightarrow>
      oid < length h \<and> sr_key (h ! oid) = k \<and> k \<noteq> [] \<and> sr_orderKey (h ! oid) \<noteq> []"
    and "distinct (map fst os)"
    and "\<And>oid ph. (oid, ph) \<in> set os \<Longrightarrow> (sr_key (h ! oid), oid) \<in> set rs \<and> phase_ok ph (h ! oid)"
    and "\<And>k1 o1 k2 o2. (k1, o1) \<in> set rs \<Longrightarrow> (k2, o2) \<in> set rs \<Longrightarrow>
      sr_orderKey (h ! o1) = sr_orderKey (h ! o2) \<Longrightarrow> sr_status (h ! o1) \<noteq> FailedTx \<Longrightarrow>
      sr_status (h ! o2) \<noteq> FailedTx \<Longrightarrow> k1 = k2"
    and "distinct (map fst w)"
    and "\<And>k tx. (k, tx) \<in> set w \<Longrightarrow> \<exists>oid. (k, oid) \<in> set rs \<and> posted tx (h ! oid)"
  shows "relay_core h rs os w"
  unfolding relay_core_def
proof (intro conjI)
  show "\<forall>(k1, o1) \<in> set rs. \<forall>(k2, o2) \<in> set rs. sr_orderKey (h ! o1) = sr_orderKey (h ! o2)
        \<longrightarrow> sr_status (h ! o1) \<noteq> FailedTx \<longrightarrow> sr_status (h ! o2) \<noteq> FailedTx \<longrightarrow> k1 = k2"
    using assms(5) by blast
qed (use assms(1-4,6,7) in \<open>auto\<close>)

lemma relay_coreD:
  assumes "relay_core h rs os w"
  shows "distinct (map fst rs)"
    and "(k, oid) \<in> set rs \<Longrightarrow>
      oid < length h \<and> sr_key (h ! oid) = k \<and> k \<noteq> [] \<and> sr_orderKey (h ! oid) \<noteq> []"
    and "distinct (map fst os)"
    and "(oid, ph) \<in> set os \<Longrightarrow> (sr_key (h ! oid), oid) \<in> set rs \<and> phase_ok ph (h ! oid)"
    and "(k1, o1) \<in> set rs \<Longrightarrow> (k2, o2) \<in> set rs \<Longrightarrow>
      sr_orderKey (h ! o1) = sr_orderKey (h ! o2) \<Longrightarrow> sr_status (h ! o1) \<noteq> FailedTx \<Longrightarrow>
      sr_status (h ! o2) \<noteq> FailedTx \<Longrightarrow> k1 = k2"
    and "distinct (map fst w)"
    and "(k, tx) \<in> set w \<Longrightarrow> \<exists>oid. (k, oid) \<in> set rs \<and> posted tx (h ! oid)"
proof -
  note d = assms[unfolded relay_core_def]
  show "distinct (map fst rs)" "distinct (map fst os)" "distinct (map fst w)" using d by simp_all
  show "(k, oid) \<in> set rs \<Longrightarrow>
      oid < length h \<and> sr_key (h ! oid) = k \<and> k \<noteq> [] \<and> sr_orderKey (h ! oid) \<noteq> []"
    using d by blast
  show "(oid, ph) \<in> set os \<Longrightarrow> (sr_key (h ! oid), oid) \<in> set rs \<and> phase_ok ph (h ! oid)"
    using d by blast
  show "(k, tx) \<in> set w \<Longrightarrow> \<exists>oid. (k, oid) \<in> set rs \<and> posted tx (h ! oid)" using d by blast
  show "(k1, o1) \<in> set rs \<Longrightarrow> (k2, o2) \<in> set rs \<Longrightarrow>
      sr_orderKey (h ! o1) = sr_orderKey (h ! o2) \<Longrightarrow> sr_status (h ! o1) \<noteq> FailedTx \<Longrightarrow>
      sr_status (h ! o2) \<noteq> FailedTx \<Longrightarrow> k1 = k2"
    using d by blast
qed

lemma relay_core_fun:
  "relay_core h rs os w \<Longrightarrow> (k, o1) \<in> set rs \<Longrightarrow> (k, o2) \<in> set rs \<Longrightarrow> o1 = o2"
  by (meson eq_key_imp_eq_value relay_coreD(1))

lemma relay_core_inj:
  "relay_core h rs os w \<Longrightarrow> (k1, oid) \<in> set rs \<Longrightarrow> (k2, oid) \<in> set rs \<Longrightarrow> k1 = k2"
  by (metis relay_coreD(2))

lemma relay_core_op:
  "relay_core h rs os w \<Longrightarrow> (oid, ph) \<in> set os \<Longrightarrow>
   (sr_key (h ! oid), oid) \<in> set rs \<and> oid < length h \<and> phase_ok ph (h ! oid)"
  by (metis relay_coreD(2,4))

lemma set_delete_alist: "set (AList.delete k xs) = {x \<in> set xs. fst x \<noteq> k}"
  by (auto simp: AList.delete_eq)

lemma set_update_alist:
  "distinct (map fst xs) \<Longrightarrow> set (AList.update k v xs) = insert (k, v) {x \<in> set xs. fst x \<noteq> k}"
  by (induction xs) (auto simp: image_iff)

lemma distinct_delete_alist: "distinct (map fst xs) \<Longrightarrow> distinct (map fst (AList.delete k xs))"
  by (rule distinct_delete)

lemma phase_ok_status: "sr_status r = sr_status r' \<Longrightarrow> phase_ok ph r = phase_ok ph r'"
  by (cases ph) auto

lemma relay_core_end:
  assumes c: "relay_core h rs os w" shows "relay_core h rs (AList.delete oid os) w"
  by (rule relay_coreI)
    (use relay_coreD[OF c] in \<open>auto simp: set_delete_alist intro: distinct_delete\<close>)

lemma relay_core_set:
  assumes c: "relay_core h rs os w" and k: "(k, oid) \<in> set rs" "phase_ok ph (h ! oid)"
  shows "relay_core h rs (AList.update oid ph os) w"
proof -
  have sub: "set (AList.update oid ph os) \<subseteq> insert (oid, ph) (set os)"
    by (induction os) (auto split: if_splits)
  show ?thesis
  proof (rule relay_coreI)
    show "distinct (map fst (AList.update oid ph os))"
      using relay_coreD(3)[OF c] by (rule distinct_update)
    show "(sr_key (h ! i), i) \<in> set rs \<and> phase_ok ph' (h ! i)"
      if "(i, ph') \<in> set (AList.update oid ph os)" for i ph'
    proof -
      from that sub have "(i, ph') = (oid, ph) \<or> (i, ph') \<in> set os" by blast
      then show ?thesis using relay_coreD(2)[OF c k(1)] relay_coreD(4)[OF c] k by auto
    qed
  qed (use relay_coreD(1,2,5,6,7)[OF c] in \<open>blast+\<close>)
qed

text \<open>A write to a record that suits the phase of the operation that holds it, if any.\<close>

lemma relay_core_update:
  assumes c: "relay_core h rs os w" and o: "(k, oid) \<in> set rs"
    and p: "\<And>ph. (oid, ph) \<in> set os \<Longrightarrow> phase_ok ph r'"
    and f: "sr_key r' = sr_key (h ! oid)" "sr_orderKey r' = sr_orderKey (h ! oid)"
      "sr_status (h ! oid) = FailedTx \<Longrightarrow> sr_status r' = FailedTx"
      "\<And>tx. posted tx (h ! oid) \<Longrightarrow> posted tx r'"
  shows "relay_core (h[oid := r']) rs os w"
proof -
  have l: "oid < length h" using relay_coreD(2)[OF c o(1)] by simp
  have same: "sr_key (h[oid := r'] ! i) = sr_key (h ! i)"
    "sr_orderKey (h[oid := r'] ! i) = sr_orderKey (h ! i)" for i
    using f(1,2) l by (auto simp: nth_list_update)
  have st: "sr_status (h[oid := r'] ! i) \<noteq> FailedTx \<Longrightarrow> sr_status (h ! i) \<noteq> FailedTx" for i
    using f(3) l by (cases "oid = i") auto
  have po: "posted tx (h ! i) \<Longrightarrow> posted tx (h[oid := r'] ! i)" for i tx
    using f(4) l by (cases "oid = i") auto
  show ?thesis
  proof (rule relay_coreI, goal_cases)
    case (2 k' i) then show ?case using relay_coreD(2)[OF c] by (simp add: same)
  next
    case (4 i ph)
    then show ?case using relay_coreD(4)[OF c 4] p l f(1) by (cases "i = oid") auto
  next
    case (5 k1 o1 k2 o2)
    then show ?case using relay_coreD(5)[OF c] st by (metis same(2))
  next
    case (7 k' tx) then show ?case using relay_coreD(7)[OF c] po by blast
  qed (use relay_coreD(1,3,6)[OF c] in simp_all)
qed

text \<open>The end of an operation with a last write to its record, and a change of phase with a write.\<close>

lemma relay_core_finish:
  assumes c: "relay_core h rs os w" and o: "(k, oid) \<in> set rs"
    and f: "sr_key r' = sr_key (h ! oid)" "sr_orderKey r' = sr_orderKey (h ! oid)"
      "sr_status (h ! oid) = FailedTx \<Longrightarrow> sr_status r' = FailedTx"
      "\<And>tx. posted tx (h ! oid) \<Longrightarrow> posted tx r'"
  shows "relay_core (h[oid := r']) rs (AList.delete oid os) w"
  by (rule relay_core_update[OF relay_core_end[OF c] o]) (use f in \<open>auto simp: set_delete_alist\<close>)

lemma relay_core_ops_cong:
  "relay_core h rs os w \<Longrightarrow> set os = set os' \<Longrightarrow> distinct (map fst os') \<Longrightarrow> relay_core h rs os' w"
  by (simp add: relay_core_def)

lemma relay_core_phase:
  assumes c: "relay_core h rs os w" and o: "(k, oid) \<in> set rs" and ph: "phase_ok ph r'"
    and f: "sr_key r' = sr_key (h ! oid)" "sr_orderKey r' = sr_orderKey (h ! oid)"
      "sr_status (h ! oid) = FailedTx \<Longrightarrow> sr_status r' = FailedTx"
      "\<And>tx. posted tx (h ! oid) \<Longrightarrow> posted tx r'"
  shows "relay_core (h[oid := r']) rs (AList.update oid ph os) w"
proof -
  have l: "oid < length h" using relay_coreD(2)[OF c o(1)] by simp
  have "relay_core (h[oid := r']) rs (AList.update oid ph (AList.delete oid os)) w"
    by (rule relay_core_set[OF relay_core_finish[OF c o f] o]) (use ph l in simp_all)
  moreover have "set (AList.update oid ph (AList.delete oid os)) = set (AList.update oid ph os)"
    using relay_coreD(3)[OF c] by (auto simp: set_update_alist distinct_delete_alist set_delete_alist)
  moreover have "distinct (map fst (AList.update oid ph os))"
    using relay_coreD(3)[OF c] by (rule distinct_update)
  ultimately show ?thesis by (rule relay_core_ops_cong)
qed

lemma relay_core_wire:
  assumes c: "relay_core h rs os w" and "(k, oid) \<in> set rs" "posted tx (h ! oid)" "k \<notin> fst ` set w"
  shows "relay_core h rs os (w @ [(k, tx)])"
  by (rule relay_coreI) (use assms relay_coreD[OF c] in \<open>auto\<close>)

lemma relay_core_unposted:
  assumes "relay_core h rs os w" "(k, oid) \<in> set rs" "\<And>tx. \<not> posted tx (h ! oid)"
  shows "k \<notin> fst ` set w"
proof
  assume "k \<in> fst ` set w"
  then obtain tx where "(k, tx) \<in> set w" by force
  then obtain o' where "(k, o') \<in> set rs" "posted tx (h ! o')"
    using relay_coreD(7)[OF assms(1)] by blast
  with assms relay_core_fun show False by metis
qed

text \<open>Dropping a record that was never posted and that no operation holds.\<close>

lemma relay_core_drop:
  assumes c: "relay_core h rs os w" and o: "(k, oid) \<in> set rs" "oid \<notin> fst ` set os"
    and n: "\<And>tx. \<not> posted tx (h ! oid)"
  shows "relay_core h (AList.delete k rs) os w"
proof -
  have "k \<notin> fst ` set w" using relay_core_unposted[OF c o(1) n] .
  then have w: "(k', tx) \<in> set w \<Longrightarrow> k' \<noteq> k" for k' tx by force
  have os: "(i, ph) \<in> set os \<Longrightarrow> sr_key (h ! i) \<noteq> k" for i ph
    using relay_core_op[OF c] relay_core_fun[OF c _ o(1)] o(2) by force
  show ?thesis
  proof (rule relay_coreI, goal_cases)
    case 1 show ?case using relay_coreD(1)[OF c] by (rule distinct_delete)
  next
    case (4 i ph) then show ?case using relay_coreD(4)[OF c] os by (auto simp: set_delete_alist)
  next
    case (5 k1 o1 k2 o2)
    then show ?case using relay_coreD(5)[OF c, of k1 o1 k2 o2] by (auto simp: set_delete_alist)
  next
    case (7 k' tx) then show ?case using relay_coreD(7)[OF c] w by (fastforce simp: set_delete_alist)
  qed (use relay_coreD(2,3,6)[OF c] in \<open>auto simp: set_delete_alist\<close>)
qed

text \<open>A new in-flight record under a free key, for an order nobody else holds.\<close>

lemma relay_core_new:
  assumes c: "relay_core h rs os w" and k: "sr_key r = k" "k \<noteq> []" "sr_orderKey r \<noteq> []"
    and free: "k \<notin> fst ` set rs"
    and lock: "\<And>k' oid. (k', oid) \<in> set rs \<Longrightarrow> sr_orderKey (h ! oid) = sr_orderKey r \<Longrightarrow>
      sr_status (h ! oid) = FailedTx"
  shows "relay_core (h @ [r]) (AList.update k (length h) rs) os w"
proof -
  have u: "AList.update k (length h) rs = rs @ [(k, length h)]"
    using free by (induction rs) auto
  have o: "(k', oid) \<in> set rs \<Longrightarrow> (h @ [r]) ! oid = h ! oid" for k' oid
    using relay_coreD(2)[OF c] by (simp add: nth_append)
  have os: "(oid, ph) \<in> set os \<Longrightarrow> (h @ [r]) ! oid = h ! oid" for oid ph
    using relay_core_op[OF c] by (simp add: nth_append)
  show ?thesis
    unfolding u
  proof (rule relay_coreI, goal_cases)
    case 1 then show ?case using relay_coreD(1)[OF c] free by simp
  next
    case (2 k' i) then show ?case using relay_coreD(2)[OF c] k o by fastforce
  next
    case (4 i ph) then show ?case using relay_coreD(4)[OF c] os by auto
  next
    case (5 k1 o1 k2 o2)
    have old: "x = k \<and> i = length h \<or> (x, i) \<in> set rs" if "(x, i) \<in> set (rs @ [(k, length h)])" for x i
      using that by auto
    from 5 old[OF 5(1)] old[OF 5(2)] relay_coreD(5)[OF c, of k1 o1 k2 o2] lock[of k1 o1] lock[of k2 o2]
    show ?case using o[of k1 o1] o[of k2 o2] by auto
  next
    case (7 k' tx) then show ?case using relay_coreD(7)[OF c] o by fastforce
  qed (use relay_coreD(3,6)[OF c] in simp_all)
qed

section \<open>Every operation preserves the invariant\<close>

lemma relay_inv_ops:
  assumes "relay_inv t" "map_of (ops t) oid = Some ph"
  shows "(sr_key (heap t ! oid), oid) \<in> set (records t)" "oid < length (heap t)"
    "phase_ok ph (heap t ! oid)"
  using relay_core_op assms map_of_SomeD unfolding relay_inv_def by metis+

lemma not_posted [simp]: "sr_status r = InFlight \<Longrightarrow> \<not> posted tx r"
  "sr_status r = FailedTx \<Longrightarrow> sr_terminalReason r = Some ReasonStaging \<Longrightarrow> \<not> posted tx r"
  by (simp_all add: posted_def)

lemma fail_rec_frame [relay_frame, simp]:
  "records (fail_rec cfg reason now oid t) = records t" "ops (fail_rec cfg reason now oid t) = ops t"
  "wire (fail_rec cfg reason now oid t) = wire t"
  "disk_up (fail_rec cfg reason now oid t) = disk_up t"
  by (simp_all add: fail_rec_def)

lemma settleSuccess_inv:
  assumes i: "relay_inv t" and op: "(k, oid) \<in> set (records t)" "sr_status (heap t ! oid) = PendingTx"
  shows "relay_inv (snd (settleSuccess cfg res dup rec now oid t))"
  unfolding relay_inv_def settleSuccess_def Let_def
  by simp (rule relay_core_finish[OF i[unfolded relay_inv_def] op(1)];
    use op in \<open>simp add: posted_def\<close>)

text \<open>A failure after any write that touches neither the identity nor the hash of the record.\<close>

lemma fail_inv:
  assumes i: "relay_inv t" and op: "(k, oid) \<in> set (records t)" "oid < length (heap t)"
    and f: "sr_key (f (heap t ! oid)) = sr_key (heap t ! oid)"
      "sr_orderKey (f (heap t ! oid)) = sr_orderKey (heap t ! oid)"
      "sr_txHash (f (heap t ! oid)) = sr_txHash (heap t ! oid)"
    and r: "sr_status (heap t ! oid) = InFlight \<or> reason \<noteq> ReasonStaging"
  shows "relay_inv (end_op oid (fail_rec cfg reason now oid (update_rec oid f t)))"
  unfolding relay_inv_def fail_rec_def
  using op(2)
  by simp (rule relay_core_finish[OF i[unfolded relay_inv_def] op(1)];
    use f r in \<open>auto simp: posted_def\<close>)

lemma poll_inv:
  assumes i: "relay_inv t" and op: "(k, oid) \<in> set (records t)" "sr_status (heap t ! oid) = PendingTx"
  shows "relay_inv (snd (poll polls dup now oid t))"
  unfolding relay_inv_def poll_def
  by simp (rule relay_core_phase[OF i[unfolded relay_inv_def] op(1)];
    use op in \<open>auto simp: posted_def\<close>)

lemma end_op_inv: "relay_inv t \<Longrightarrow> relay_inv (end_op oid t)"
  by (simp add: relay_inv_def relay_core_end)

lemma relay_inv_cong:
  "relay_inv t \<Longrightarrow> heap t' = heap t \<Longrightarrow> records t' = records t \<Longrightarrow> ops t' = ops t \<Longrightarrow>
   wire t' = wire t \<Longrightarrow> relay_inv t'"
  by (simp add: relay_inv_def)

lemma reconcile_inv:
  assumes i: "relay_inv t" and op: "(k, oid) \<in> set (records t)" "sr_status (heap t ! oid) = PendingTx"
  shows "relay_inv (snd (reconcile cfg dup now oid t))"
  unfolding reconcile_def Let_def
  using i op by (auto intro!: end_op_inv poll_inv elim: relay_inv_cong)

lemma note_error_inv:
  assumes i: "relay_inv t" and op: "(k, oid) \<in> set (records t)"
  shows "relay_inv (update_rec oid (\<lambda>r. r\<lparr>sr_lastError := e r\<rparr>) t)"
  unfolding relay_inv_def update_rec_frame
proof (rule relay_core_update[OF i[unfolded relay_inv_def] op])
  fix ph assume "(oid, ph) \<in> set (ops t)"
  then have "phase_ok ph (heap t ! oid)" using relay_core_op[OF i[unfolded relay_inv_def]] by blast
  then show "phase_ok ph ((heap t ! oid)\<lparr>sr_lastError := e (heap t ! oid)\<rparr>)"
    by (subst phase_ok_status) simp_all
qed (simp_all add: posted_def)

lemma persist_inv [simp]: "relay_inv (persist cfg t) = relay_inv t"
  by (simp add: relay_inv_def)

lemma counter_inv [simp]:
  "relay_inv (t\<lparr>inFlightSkipped := n\<rparr>) = relay_inv t"
  "relay_inv (t\<lparr>duplicatesSkipped := n\<rparr>) = relay_inv t"
  "relay_inv (t\<lparr>orderBlocked := n\<rparr>) = relay_inv t"
  "relay_inv (t\<lparr>restoredCount := n\<rparr>) = relay_inv t"
  "relay_inv (t\<lparr>reconciling := ks\<rparr>) = relay_inv t"
  by (simp_all add: relay_inv_def)

lemma persist_end_op: "relay_inv (end_op oid (persist cfg t)) = relay_inv (end_op oid t)"
  by (simp add: relay_inv_def)

lemma stop_reconciling_inv [simp]: "relay_inv (stop_reconciling oid t) = relay_inv t"
  by (simp add: relay_inv_def)

lemma stager_settled_inv:
  assumes i: "relay_inv t" and op: "map_of (ops t) oid = Some Staging"
  shows "relay_inv (snd (stager_settled cfg ans now oid t))"
proof -
  note o = relay_inv_ops[OF i op]
  have c: "relay_core (heap t) (records t) (ops t) (wire t)" using i by (simp add: relay_inv_def)
  show ?thesis
  proof (cases "\<exists>staged. ans = Inr staged \<and> st_txHash staged \<noteq> []")
    case False
    then show ?thesis
      using o by (auto simp: stager_settled_def Let_def split: sum.splits intro!: fail_inv[OF i o(1,2)])
  next
    case True
    then obtain staged where a: "ans = Inr staged" "st_txHash staged \<noteq> []" by blast
    let ?r = "(heap t ! oid)\<lparr>sr_txHash := Some (st_txHash staged),
      sr_network := (case st_network staged of Some n \<Rightarrow> Some n
         | None \<Rightarrow> ra_network (sr_action (heap t ! oid))),
      sr_status := PendingTx, sr_broadcasts := sr_broadcasts (heap t ! oid) + 1\<rparr>"
    have p: "relay_core ((heap t)[oid := ?r]) (records t) (AList.update oid Broadcasting (ops t)) (wire t)"
      by (rule relay_core_phase[OF c o(1)]) (use o(3) in simp_all)
    have "sr_key (heap t ! oid) \<notin> fst ` set (wire t)"
      by (rule relay_core_unposted[OF c o(1)]) (use o(3) in simp)
    then have "relay_core ((heap t)[oid := ?r]) (records t) (AList.update oid Broadcasting (ops t))
        (wire t @ [(sr_key (heap t ! oid), st_txHash staged)])"
      by (intro relay_core_wire[OF p o(1)]) (use o(2) a in \<open>auto simp: posted_def\<close>)
    then show ?thesis
      using a o(2) by (simp add: stager_settled_def Let_def relay_inv_def)
  qed
qed

lemma broadcast_settled_inv:
  assumes i: "relay_inv t" and op: "map_of (ops t) oid = Some Broadcasting"
  shows "relay_inv (snd (broadcast_settled cfg ans now oid t))"
  using relay_inv_ops[OF i op]
  by (auto simp: broadcast_settled_def split: sum.splits
      intro!: settleSuccess_inv[OF i] reconcile_inv note_error_inv[OF i])

lemma confirm_settled_inv:
  assumes i: "relay_inv t" and op: "map_of (ops t) oid = Some (Polling polls dup)"
  shows "relay_inv (snd (confirm_settled cfg ans now polls dup oid t))"
proof -
  note o = relay_inv_ops[OF i op]
  have st: "sr_status (heap t ! oid) = PendingTx" using o(3) by simp
  define c where "c = (case ans of Inr c \<Rightarrow> c
      | Inl err \<Rightarrow> \<lparr>rc_state = Conf_pending, rc_error = Some err, rc_result = None\<rparr>)"
  define t1 where "t1 = persist cfg
      (update_rec oid (\<lambda>r. r\<lparr>sr_lastError := Some (unsettled_text c r)\<rparr>) t)"
  have i1: "relay_inv t1" using note_error_inv[OF i o(1)] by (simp add: t1_def)
  have o1: "(sr_key (heap t ! oid), oid) \<in> set (records t1)" "oid < length (heap t1)"
    "sr_status (heap t1 ! oid) = PendingTx" using o st by (simp_all add: t1_def)
  have i2: "relay_inv (set_op oid (Sleeping polls dup) t1)"
    using relay_core_set[OF i1[unfolded relay_inv_def] o1(1)] o1(3) by (simp add: relay_inv_def)
  have i3: "relay_inv (end_op oid (fail_rec cfg ReasonNotFound now oid t1))"
    using fail_inv[OF i1 o1(1,2), of id] by (simp add: update_rec_def)
  have i4: "relay_inv (end_op oid (fail_rec cfg ReasonFailed now oid
      (update_rec oid (sr_lastError_update (\<lambda>_. e)) t)))" for e
    by (rule fail_inv[OF i o(1,2)]) (simp_all add: st)
  have swap: "end_op oid (stop_reconciling oid t') = stop_reconciling oid (end_op oid t')" for t'
    by (simp add: end_op_def stop_reconciling_def)
  show ?thesis
    unfolding confirm_settled_def c_def[symmetric] Let_def t1_def[symmetric]
    using i i2 i3 i4 end_op_inv[OF i1] st o
    by (auto split: confirmation_state.splits simp: swap persist_end_op intro!: settleSuccess_inv)
qed

lemma computeSubmissionKey_nonempty [simp]: "computeSubmissionKey sha a \<noteq> []"
  by (simp add: computeSubmissionKey_def)

lemma computeOrderKey_nonempty [simp]: "computeOrderKey sha i s \<noteq> []"
  by (simp add: computeOrderKey_def)

lemma start_submission_inv:
  assumes i: "relay_inv t" and free: "computeSubmissionKey sha a \<notin> fst ` set (records t)"
  shows "relay_inv (snd (start_submission sha cfg a now t))"
proof (cases "assertOrderAvailable sha a t")
  case (Pair e t1)
  note fr = assertOrderAvailable_frame[OF Pair]
  have i1: "relay_inv t1" using i fr by (simp add: relay_inv_def)
  show ?thesis
  proof (cases e)
    case (Some x)
    then show ?thesis using Pair i1 by (simp add: start_submission_def)
  next
    case None
    let ?k = "computeSubmissionKey sha a"
    define r where "r = \<lparr>sr_key = ?k,
       sr_orderKey = computeOrderKey sha (ra_orderId a) (ra_side a), sr_action = a,
       sr_status = InFlight, sr_attempts = 0, sr_maxAttempts = cfg_maxAttempts cfg,
       sr_broadcasts = 0, sr_txHash = None, sr_network = None, sr_lastError = None,
       sr_terminalReason = None, sr_result = None, sr_firstSeenAt = now,
       sr_lastAttemptAt = None, sr_completedAt = None, sr_restored = False\<rparr>"
    have "getBlockingRecord sha a t = None"
      using Pair None by (auto simp: assertOrderAvailable_def split: option.splits)
    then have lock: "(k, oid) \<in> set (records t) \<Longrightarrow> sr_orderKey (heap t ! oid) = sr_orderKey r
        \<Longrightarrow> sr_status (heap t ! oid) = FailedTx" for k oid
      using free relay_coreD(2)[OF i[unfolded relay_inv_def], of k oid]
      by (force simp: getBlockingRecord_def find_None_iff r_def)
    have "relay_core (heap t @ [r]) (AList.update ?k (length (heap t)) (records t)) (ops t) (wire t)"
      by (rule relay_core_new[OF i[unfolded relay_inv_def]])
        (use free lock in \<open>auto simp: r_def\<close>)
    then have "relay_core ((heap t @ [r])[length (heap t) :=
          r\<lparr>sr_attempts := sr_attempts r + 1, sr_lastAttemptAt := Some now\<rparr>])
        (AList.update ?k (length (heap t)) (records t))
        (AList.update (length (heap t)) Staging (ops t)) (wire t)"
      by (rule relay_core_phase[where k = ?k])
        (simp_all add: r_def set_update_alist relay_coreD(1)[OF i[unfolded relay_inv_def]])
    then show ?thesis
      using Pair None fr
      by (simp add: start_submission_def Let_def r_def[symmetric] relay_inv_def)
        (simp add: r_def)
  qed
qed

lemma relay_inv_restage:
  assumes i: "relay_inv t" and m: "map_of (records t) k = Some oid"
    and f: "sr_status (heap t ! oid) = FailedTx" "sr_terminalReason (heap t ! oid) = Some ReasonStaging"
  shows "relay_inv (persist cfg (t\<lparr>records := AList.delete k (records t)\<rparr>))"
proof -
  note c = i[unfolded relay_inv_def]
  have "(oid, ph) \<notin> set (ops t)" for ph
    using relay_core_op[OF c] f(1) by (cases ph) force+
  then have "oid \<notin> fst ` set (ops t)" by force
  from relay_core_drop[OF c map_of_SomeD[OF m] this] show ?thesis using f by (simp add: relay_inv_def)
qed

lemma submit_inv:
  assumes i: "relay_inv t"
  shows "relay_inv (snd (submit sha cfg a now t))"
proof (cases "map_of (records t) (computeSubmissionKey sha a)")
  case None
  then have "computeSubmissionKey sha a \<notin> fst ` set (records t)" by (simp add: map_of_eq_None_iff)
  from start_submission_inv[OF i this] show ?thesis by (simp add: submit_def None Let_def)
next
  case (Some oid)
  let ?k = "computeSubmissionKey sha a"
  note c = i[unfolded relay_inv_def]
  have o: "(?k, oid) \<in> set (records t)" using Some by (rule map_of_SomeD)
  let ?t1 = "persist cfg (t\<lparr>records := AList.delete ?k (records t)\<rparr>)"
  note drop = relay_inv_restage[OF i Some, of cfg]
  have again: "relay_inv (snd (case assertOrderAvailable sha a ?t1 of
        (Some e, t2) \<Rightarrow> (Thrown e, t2) | (None, t2) \<Rightarrow> start_submission sha cfg a now t2))"
    if "relay_inv ?t1"
  proof (cases "assertOrderAvailable sha a ?t1")
    case (Pair e t2)
    note fr = assertOrderAvailable_frame[OF Pair]
    have "relay_inv t2" using that fr by (simp add: relay_inv_def)
    moreover have "?k \<notin> fst ` set (records t2)" using fr by (auto simp: set_delete_alist)
    ultimately show ?thesis using Pair start_submission_inv by (cases e) auto
  qed
  show ?thesis
    using Some drop again
    by (auto simp: submit_def Let_def split: relay_status.splits
        intro!: reconcile_inv[OF i o] i)
qed

end
