(* ===== verification/Relay_Durability.thy ===== *)
theory Relay_Durability
  imports Relay_Safety
begin

text \<open>
  Restarts of the relay process. \<open>durable\<close> says that restoring the file gives, up to what the
  invariant speaks about, the same records as restoring what is in memory. The locale
  \<open>submission_store\<close> is what a persistence backend has to promise for it; it is interpreted for
  the memory store and for the file store as long as the records fit.
\<close>

section \<open>Restoring\<close>

definition record_core :: "submission_record \<Rightarrow>
    string \<times> string \<times> string option \<times> relay_status \<times> terminal_reason option" where
  "record_core r = (sr_key r, sr_orderKey r, sr_txHash r, sr_status r, sr_terminalReason r)"

definition restored_core :: "(string \<Rightarrow> string) \<Rightarrow> persisted_submission \<Rightarrow>
    string \<times> string \<times> string option \<times> relay_status \<times> terminal_reason option" where
  "restored_core sha e = record_core (restored_record sha e)"

definition durable :: "(string \<Rightarrow> string) \<Rightarrow> tracker \<Rightarrow> bool" where
  "durable sha t \<longleftrightarrow> distinct (map ps_key (load_file (disk t)))
    \<and> restored_core sha ` set (load_file (disk t)) =
      (\<lambda>(k, oid). restored_core sha (toPersistedSubmission (heap t ! oid))) ` set (records t)"

lemma restored_record_parts [simp]:
  "sr_key (restored_record sha e) = ps_key e"
  "sr_orderKey (restored_record sha e) =
    (if ps_orderKey e \<noteq> [] then ps_orderKey e
     else computeOrderKey sha (ps_orderId e) (ps_side e))"
  "sr_txHash (restored_record sha e) = ps_txHash e"
  "sr_status (restored_record sha e) =
    fst (normalizePersistedStatus (ps_status e) (ps_txHash e) (ps_lastError e))"
  by (simp_all add: restored_record_def Let_def split: prod.splits)

lemma restored_core_idem:
  "restored_core sha (toPersistedSubmission (restored_record sha e)) = restored_core sha e"
  by (cases "ps_status e")
    (auto simp: restored_core_def record_core_def restored_record_def Let_def
      toPersistedSubmission_def normalizePersistedStatus_def truthy_def)

lemma toPersisted_parts [simp]:
  "ps_key (toPersistedSubmission r) = sr_key r" "ps_orderKey (toPersistedSubmission r) = sr_orderKey r"
  "ps_txHash (toPersistedSubmission r) = sr_txHash r" "ps_status (toPersistedSubmission r) = sr_status r"
  by (simp_all add: toPersistedSubmission_def)

lemma restored_not_failed:
  "sr_status (restored_record sha (toPersistedSubmission r)) \<noteq> FailedTx \<Longrightarrow> sr_status r \<noteq> FailedTx"
  by (auto simp: normalizePersistedStatus_def)

lemma record_core_eqD:
  assumes "record_core r = record_core r'"
  shows "sr_key r = sr_key r'" "sr_orderKey r = sr_orderKey r'" "sr_status r = sr_status r'"
  using assms by (simp_all add: record_core_def)

lemma posted_restored:
  "posted tx r \<Longrightarrow> posted tx (restored_record sha (toPersistedSubmission r))"
  by (cases "sr_status r")
    (auto simp: posted_def restored_record_def Let_def toPersistedSubmission_def
      normalizePersistedStatus_def truthy_def)

lemma posted_core: "record_core r = record_core r' \<Longrightarrow> posted tx r = posted tx r'"
  by (simp add: posted_def record_core_def)

text \<open>The loop of \<open>restore\<close> appends one record per entry.\<close>

lemma update_fresh: "k \<notin> fst ` set xs \<Longrightarrow> AList.update k v xs = xs @ [(k, v)]"
  by (induction xs) auto

lemma restore_loop:
  assumes "distinct (map ps_key es)" "\<forall>e \<in> set es. ps_key e \<noteq> []"
    and "ps_key ` set es \<inter> fst ` set (records t) = {}"
  shows "heap (fold (restore_entry sha) es t) = heap t @ map (restored_record sha) es
    \<and> records (fold (restore_entry sha) es t) =
        records t @ zip (map ps_key es) [length (heap t)..<length (heap t) + length es]
    \<and> ops (fold (restore_entry sha) es t) = ops t \<and> wire (fold (restore_entry sha) es t) = wire t
    \<and> disk (fold (restore_entry sha) es t) = disk t
    \<and> disk_up (fold (restore_entry sha) es t) = disk_up t"
  using assms
proof (induction es arbitrary: t)
  case (Cons e es)
  let ?t = "restore_entry sha e t"
  have t: "heap ?t = heap t @ [restored_record sha e]" "records ?t = records t @ [(ps_key e, length (heap t))]"
    "ops ?t = ops t" "wire ?t = wire t" "disk ?t = disk t" "disk_up ?t = disk_up t"
    using Cons.prems(2,3) by (simp_all add: restore_entry_def update_fresh)
  have "heap (fold (restore_entry sha) es ?t) = heap ?t @ map (restored_record sha) es
    \<and> records (fold (restore_entry sha) es ?t) =
        records ?t @ zip (map ps_key es) [length (heap ?t)..<length (heap ?t) + length es]
    \<and> ops (fold (restore_entry sha) es ?t) = ops ?t \<and> wire (fold (restore_entry sha) es ?t) = wire ?t
    \<and> disk (fold (restore_entry sha) es ?t) = disk ?t
    \<and> disk_up (fold (restore_entry sha) es ?t) = disk_up ?t"
    using Cons.prems by (intro Cons.IH) (auto simp: t(2))
  moreover have "[length (heap t)..<length (heap t) + length (e # es)] =
      length (heap t) # [length (heap ?t)..<length (heap ?t) + length es]"
    by (simp add: t(1) upt_rec)
  ultimately show ?case by (simp add: t)
qed simp

lemma boot_shape:
  assumes "cfg_store cfg \<noteq> No_store" "distinct (map ps_key (load_file c))"
    and "\<forall>e \<in> set (load_file c). ps_key e \<noteq> []"
  shows "heap (boot sha cfg c up w) = map (restored_record sha) (load_file c)
    \<and> records (boot sha cfg c up w) =
        zip (map ps_key (load_file c)) [0..<length (load_file c)]
    \<and> ops (boot sha cfg c up w) = [] \<and> wire (boot sha cfg c up w) = w
    \<and> disk (boot sha cfg c up w) = c \<and> disk_up (boot sha cfg c up w) = up"
  using restore_loop[OF assms(2,3), of "\<lparr>heap = [], records = [], ops = [], reconciling = [],
     duplicatesSkipped = 0, inFlightSkipped = 0, orderBlocked = 0, restoredCount = 0,
     storeErrors = 0, disk = c, disk_up = up, wire = w\<rparr>" sha] assms(1)
  by (simp add: boot_def restore_def)

lemma fresh_tracker_inv: "relay_inv (fresh_tracker sha cfg)"
  by (simp add: fresh_tracker_def boot_def restore_def relay_inv_def relay_core_def)

lemma fresh_tracker_parts [simp]:
  "records (fresh_tracker sha cfg) = []" "disk_up (fresh_tracker sha cfg)"
  "durable sha (fresh_tracker sha cfg)"
  by (simp_all add: fresh_tracker_def boot_def restore_def durable_def)

lemma zip_upt_iff:
  "(k, i) \<in> set (zip ks [0..<length ks]) \<longleftrightarrow> i < length ks \<and> k = ks ! i"
  by (auto simp: in_set_zip)

text \<open>Every entry of a durable file stands for a record, and the other way round.\<close>

lemma durable_entry:
  assumes "durable sha t" "e \<in> set (load_file (disk t))"
  obtains k oid where "(k, oid) \<in> set (records t)"
    "record_core (restored_record sha e) =
     record_core (restored_record sha (toPersistedSubmission (heap t ! oid)))"
proof -
  have "restored_core sha e \<in>
      (\<lambda>(k, oid). restored_core sha (toPersistedSubmission (heap t ! oid))) ` set (records t)"
    using assms unfolding durable_def by blast
  then show thesis using that by (auto simp: restored_core_def)
qed

lemma durable_record:
  assumes "durable sha t" "(k, oid) \<in> set (records t)"
  obtains e where "e \<in> set (load_file (disk t))"
    "record_core (restored_record sha e) =
     record_core (restored_record sha (toPersistedSubmission (heap t ! oid)))"
proof -
  have "restored_core sha (toPersistedSubmission (heap t ! oid)) \<in> restored_core sha ` set (load_file (disk t))"
    using assms unfolding durable_def by force
  then show thesis using that by (auto simp: restored_core_def)
qed

lemma durable_keys:
  assumes i: "relay_inv t" and d: "durable sha t"
  shows "ps_key ` set (load_file (disk t)) = fst ` set (records t)"
proof -
  have k: "(k, oid) \<in> set (records t) \<Longrightarrow> sr_key (heap t ! oid) = k" for k oid
    using relay_coreD(2)[OF i[unfolded relay_inv_def]] by blast
  show ?thesis
  proof (intro set_eqI iffI)
    fix x assume "x \<in> ps_key ` set (load_file (disk t))"
    then obtain e where e: "e \<in> set (load_file (disk t))" "x = ps_key e" by blast
    obtain k oid where "(k, oid) \<in> set (records t)" "ps_key e = sr_key (heap t ! oid)"
      using durable_entry[OF d e(1)] record_core_eqD(1) by (metis restored_record_parts(1) toPersisted_parts(1))
    then show "x \<in> fst ` set (records t)" using k e by force
  next
    fix x assume "x \<in> fst ` set (records t)"
    then obtain oid where o: "(x, oid) \<in> set (records t)" by force
    obtain e where "e \<in> set (load_file (disk t))" "ps_key e = sr_key (heap t ! oid)"
      using durable_record[OF d o] record_core_eqD(1) by (metis restored_record_parts(1) toPersisted_parts(1))
    then show "x \<in> ps_key ` set (load_file (disk t))" using k[OF o] by force
  qed
qed

lemma boot_records:
  assumes i: "relay_inv t" and d: "durable sha t" and s: "cfg_store cfg \<noteq> No_store"
  defines "t' \<equiv> boot sha cfg (disk t) (disk_up t) (wire t)" and "es \<equiv> load_file (disk t)"
  shows "(k, j) \<in> set (records t') \<longleftrightarrow> j < length es \<and> k = ps_key (es ! j)"
    and "j < length es \<Longrightarrow> heap t' ! j = restored_record sha (es ! j)"
    and "length (heap t') = length es" "length (records t') = length (records t)"
    and "ops t' = []" "wire t' = wire t" "disk t' = disk t" "disk_up t' = disk_up t"
    and "distinct (map fst (records t'))" "e \<in> set es \<Longrightarrow> ps_key e \<noteq> []"
proof -
  note c = i[unfolded relay_inv_def]
  have dk: "distinct (map ps_key es)" using d by (simp add: durable_def es_def)
  have ne: "\<forall>e \<in> set es. ps_key e \<noteq> []"
  proof
    fix e assume "e \<in> set es"
    then have "ps_key e \<in> fst ` set (records t)"
      using durable_keys[OF i d] by (auto simp: es_def)
    then show "ps_key e \<noteq> []" using relay_coreD(2)[OF c] by force
  qed
  note b = boot_shape[OF s dk[unfolded es_def] ne[unfolded es_def], of sha "disk_up t" "wire t",
      folded t'_def es_def]
  show "(k, j) \<in> set (records t') \<longleftrightarrow> j < length es \<and> k = ps_key (es ! j)"
    using b zip_upt_iff[of k j "map ps_key es"] by auto
  have "length es = card (ps_key ` set es)" using distinct_card[OF dk] by simp
  also have "\<dots> = length (records t)"
    using distinct_card[OF relay_coreD(1)[OF c]] durable_keys[OF i d] by (simp add: es_def)
  finally show "length (records t') = length (records t)" using b by simp
  show "j < length es \<Longrightarrow> heap t' ! j = restored_record sha (es ! j)" using b by simp
  show "e \<in> set es \<Longrightarrow> ps_key e \<noteq> []" using ne by blast
  show "length (heap t') = length es" "ops t' = []" "wire t' = wire t" "disk t' = disk t"
    "disk_up t' = disk_up t" "distinct (map fst (records t'))"
    using b dk by simp_all
qed

text \<open>The records of the new process and those of the old one, entry by entry.\<close>

lemma boot_entry:
  assumes i: "relay_inv t" and d: "durable sha t" and s: "cfg_store cfg \<noteq> No_store"
  defines "t' \<equiv> boot sha cfg (disk t) (disk_up t) (wire t)"
  assumes r: "(k, j) \<in> set (records t')"
  obtains oid where "(k, oid) \<in> set (records t)"
    "record_core (heap t' ! j) = record_core (restored_record sha (toPersistedSubmission (heap t ! oid)))"
proof -
  note b = boot_records[OF i d s, folded t'_def]
  let ?e = "load_file (disk t) ! j"
  have j: "j < length (load_file (disk t))" "k = ps_key ?e" using r b(1) by blast+
  obtain x oid where x: "(x, oid) \<in> set (records t)" "record_core (restored_record sha ?e) =
      record_core (restored_record sha (toPersistedSubmission (heap t ! oid)))"
    using durable_entry[OF d nth_mem[OF j(1)]] .
  have "x = k"
    using record_core_eqD(1)[OF x(2)] relay_coreD(2)[OF i[unfolded relay_inv_def] x(1)] j(2) by simp
  then show thesis using that x b(2)[OF j(1)] by simp
qed

lemma boot_posted:
  assumes i: "relay_inv t" and d: "durable sha t" and s: "cfg_store cfg \<noteq> No_store"
  defines "t' \<equiv> boot sha cfg (disk t) (disk_up t) (wire t)"
  assumes r: "(k, oid) \<in> set (records t)" "posted tx (heap t ! oid)"
  shows "\<exists>j. (k, j) \<in> set (records t') \<and> posted tx (heap t' ! j)"
proof -
  note b = boot_records[OF i d s, folded t'_def]
  obtain e where e: "e \<in> set (load_file (disk t))" "record_core (restored_record sha e) =
      record_core (restored_record sha (toPersistedSubmission (heap t ! oid)))"
    using durable_record[OF d r(1)] .
  have p: "posted tx (restored_record sha e)"
    using posted_restored[OF r(2)] posted_core[OF e(2)] by simp
  have k: "ps_key e = k"
    using record_core_eqD(1)[OF e(2)] relay_coreD(2)[OF i[unfolded relay_inv_def] r(1)] by simp
  obtain j where "j < length (load_file (disk t))" "load_file (disk t) ! j = e"
    using e(1) by (meson in_set_conv_nth)
  then show ?thesis using b(1,2) p k by auto
qed

lemma boot_inv:
  assumes i: "relay_inv t" and d: "durable sha t" and s: "cfg_store cfg \<noteq> No_store"
  shows "relay_inv (boot sha cfg (disk t) (disk_up t) (wire t))"
proof -
  define t' where "t' = boot sha cfg (disk t) (disk_up t) (wire t)"
  note c = i[unfolded relay_inv_def] and b = boot_records[OF i d s, folded t'_def]
  note entry = boot_entry[OF i d s, folded t'_def]
  have "relay_core (heap t') (records t') (ops t') (wire t')"
  proof (rule relay_coreI, goal_cases)
    case (2 k j)
    then show ?case using b(1,2,3) b(10) by auto
  next
    case (5 k1 j1 k2 j2)
    obtain o1 where r1: "(k1, o1) \<in> set (records t)" "record_core (heap t' ! j1) =
        record_core (restored_record sha (toPersistedSubmission (heap t ! o1)))"
      using entry[OF 5(1)] .
    obtain o2 where r2: "(k2, o2) \<in> set (records t)" "record_core (heap t' ! j2) =
        record_core (restored_record sha (toPersistedSubmission (heap t ! o2)))"
      using entry[OF 5(2)] .
    note q1 = record_core_eqD[OF r1(2)] and q2 = record_core_eqD[OF r2(2)]
    have "sr_orderKey (heap t ! o1) = sr_orderKey (heap t ! o2)"
      using 5(3) q1(2) q2(2) relay_coreD(2)[OF c r1(1)] relay_coreD(2)[OF c r2(1)] by simp
    moreover have "sr_status (heap t ! o1) \<noteq> FailedTx" "sr_status (heap t ! o2) \<noteq> FailedTx"
      using 5(4,5) q1(3) q2(3) restored_not_failed[of sha] by metis+
    ultimately show "k1 = k2" using relay_coreD(5)[OF c r1(1) r2(1)] by blast
  next
    case (7 k tx)
    then obtain oid where "(k, oid) \<in> set (records t)" "posted tx (heap t ! oid)"
      using relay_coreD(7)[OF c] b(6) by metis
    then show ?case using boot_posted[OF i d s] unfolding t'_def by blast
  qed (use b relay_coreD(6)[OF c] in simp_all)
  then show ?thesis by (simp add: relay_inv_def t'_def)
qed

lemma boot_durable:
  assumes i: "relay_inv t" and d: "durable sha t" and s: "cfg_store cfg \<noteq> No_store"
  shows "durable sha (boot sha cfg (disk t) (disk_up t) (wire t))"
proof -
  define t' where "t' = boot sha cfg (disk t) (disk_up t) (wire t)"
  note b = boot_records[OF i d s, folded t'_def]
  let ?es = "load_file (disk t)"
  have h: "restored_core sha (toPersistedSubmission (heap t' ! j)) = restored_core sha (?es ! j)"
    if "j < length ?es" for j using b(2)[OF that] restored_core_idem by simp
  have r: "set (records t') = {(ps_key (?es ! j), j) | j. j < length ?es}" using b(1) by auto
  have "(\<lambda>(k, oid). restored_core sha (toPersistedSubmission (heap t' ! oid))) ` set (records t') =
      (\<lambda>j. restored_core sha (?es ! j)) ` {..<length ?es}"
    unfolding r using h by (force simp: image_iff)
  also have "\<dots> = restored_core sha ` set ?es"
  proof -
    have "set ?es = (!) ?es ` {..<length ?es}" by (auto simp: set_conv_nth)
    then show ?thesis by (metis (no_types, lifting) image_cong image_image)
  qed
  finally show ?thesis using b(7) d by (simp add: durable_def t'_def)
qed

section \<open>Writes\<close>

lemma durable_cong:
  "durable sha t \<Longrightarrow> heap t' = heap t \<Longrightarrow> records t' = records t \<Longrightarrow> disk t' = disk t \<Longrightarrow> durable sha t'"
  by (simp add: durable_def)

lemma durable_frame [simp]:
  "durable sha (end_op oid t) = durable sha t" "durable sha (set_op oid ph t) = durable sha t"
  "durable sha (stop_reconciling oid t) = durable sha t"
  "durable sha (t\<lparr>inFlightSkipped := n\<rparr>) = durable sha t"
  "durable sha (t\<lparr>duplicatesSkipped := n\<rparr>) = durable sha t"
  "durable sha (t\<lparr>orderBlocked := n\<rparr>) = durable sha t"
  "durable sha (t\<lparr>reconciling := ks\<rparr>) = durable sha t"
  "durable sha (t\<lparr>wire := w\<rparr>) = durable sha t"
  by (simp_all add: durable_def)

text \<open>Counting an attempt writes nothing the restart depends on.\<close>

lemma restored_core_attempt [simp]:
  "restored_core sha (toPersistedSubmission (r\<lparr>sr_attempts := a, sr_lastAttemptAt := b\<rparr>)) =
   restored_core sha (toPersistedSubmission r)"
  unfolding restored_core_def record_core_def
  by (auto simp: restored_record_def Let_def toPersistedSubmission_def split_beta)

lemma durable_attempt [simp]:
  "durable sha (update_rec oid (\<lambda>r. r\<lparr>sr_attempts := f r, sr_lastAttemptAt := g r\<rparr>) t) = durable sha t"
proof -
  have "restored_core sha (toPersistedSubmission ((heap t)[oid := (heap t ! oid)
        \<lparr>sr_attempts := f (heap t ! oid), sr_lastAttemptAt := g (heap t ! oid)\<rparr>] ! i)) =
      restored_core sha (toPersistedSubmission (heap t ! i))" for i
  proof (cases "i = oid \<and> oid < length (heap t)")
    case True
    then show ?thesis by (simp only: nth_list_update_eq restored_core_attempt)
  next
    case False
    then have "(heap t)[oid := x] ! i = heap t ! i" for x
      by (cases "oid < length (heap t)") (auto simp: list_update_beyond)
    then show ?thesis by simp
  qed
  then show ?thesis by (simp add: durable_def)
qed

definition keyed :: "tracker \<Rightarrow> bool" where
  "keyed t \<longleftrightarrow> distinct (map fst (records t))
     \<and> (\<forall>(k, oid) \<in> set (records t). sr_key (heap t ! oid) = k)"

lemma relay_inv_keyed: "relay_inv t \<Longrightarrow> keyed t"
  using relay_coreD(1,2) unfolding relay_inv_def keyed_def by blast

lemma keyed_cong:
  "keyed t \<Longrightarrow> records t' = records t \<Longrightarrow>
   (\<And>i. sr_key (heap t' ! i) = sr_key (heap t ! i)) \<Longrightarrow> keyed t'"
  by (simp add: keyed_def)

lemma keyed_update:
  "keyed t \<Longrightarrow> sr_key (f (heap t ! oid)) = sr_key (heap t ! oid) \<Longrightarrow> keyed (update_rec oid f t)"
  by (rule keyed_cong[of t], assumption)
    (auto, metis nth_list_update_eq nth_list_update_neq list_update_beyond not_le_imp_less)

lemma keyed_persist [simp]: "keyed (persist cfg t) = keyed t"
  by (simp add: keyed_def)

lemma answered_frame [simp]:
  "records (snd (settleSuccess cfg res dup rec now oid t)) = records t"
  "disk_up (snd (settleSuccess cfg res dup rec now oid t)) = disk_up t"
  "records (snd (reconcile cfg dup now oid t)) = records t"
  "disk_up (snd (reconcile cfg dup now oid t)) = disk_up t"
  "records (snd (stager_settled cfg ans now oid t)) = records t"
  "disk_up (snd (stager_settled cfg ans now oid t)) = disk_up t"
  "records (snd (broadcast_settled cfg ans' now oid t)) = records t"
  "disk_up (snd (broadcast_settled cfg ans' now oid t)) = disk_up t"
  "records (snd (confirm_settled cfg ans'' now polls dup oid t)) = records t"
  "disk_up (snd (confirm_settled cfg ans'' now polls dup oid t)) = disk_up t"
  by (simp_all add: settleSuccess_def reconcile_def poll_def stager_settled_def broadcast_settled_def
      confirm_settled_def Let_def split: sum.splits confirmation_state.splits)

lemma start_submission_length:
  "length (records (snd (start_submission sha cfg a now t))) \<le> length (records t) + 1
   \<and> disk_up (snd (start_submission sha cfg a now t)) = disk_up t"
proof (cases "assertOrderAvailable sha a t")
  case (Pair e t1)
  have "length (AList.update k v xs) \<le> length xs + 1" for k :: string and v :: nat and xs
    by (induction xs) auto
  then show ?thesis
    using Pair assertOrderAvailable_frame[OF Pair] by (cases e) (auto simp: start_submission_def Let_def)
qed

lemma submit_length:
  "length (records (snd (submit sha cfg a now t))) \<le> length (records t) + 1
   \<and> disk_up (snd (submit sha cfg a now t)) = disk_up t"
proof -
  let ?k = "computeSubmissionKey sha a"
  let ?t1 = "persist cfg (t\<lparr>records := AList.delete ?k (records t)\<rparr>)"
  have "length (records (snd (case assertOrderAvailable sha a ?t1 of
        (Some e, t2) \<Rightarrow> (Thrown e, t2) | (None, t2) \<Rightarrow> start_submission sha cfg a now t2)))
        \<le> length (records t) + 1
      \<and> disk_up (snd (case assertOrderAvailable sha a ?t1 of
        (Some e, t2) \<Rightarrow> (Thrown e, t2) | (None, t2) \<Rightarrow> start_submission sha cfg a now t2)) = disk_up t"
  proof (cases "assertOrderAvailable sha a ?t1")
    case (Pair e t2)
    then show ?thesis
      using assertOrderAvailable_frame[OF Pair] start_submission_length[of sha cfg a now t2]
        length_delete_le[of ?k "records t"]
      by (cases e) auto
  qed
  then show ?thesis
    using start_submission_length[of sha cfg a now t]
    by (auto simp: submit_def Let_def split: option.splits relay_status.splits)
qed

lemma answer_frame [simp]:
  "records (snd (relay_step sha cfg (Stager_answers oid ans now) t)) = records t"
  "disk_up (snd (relay_step sha cfg (Stager_answers oid ans now) t)) = disk_up t"
  "records (snd (relay_step sha cfg (Broadcast_answers oid ans' now) t)) = records t"
  "disk_up (snd (relay_step sha cfg (Broadcast_answers oid ans' now) t)) = disk_up t"
  "records (snd (relay_step sha cfg (Confirmer_answers oid ans'' now) t)) = records t"
  "disk_up (snd (relay_step sha cfg (Confirmer_answers oid ans'' now) t)) = disk_up t"
  "records (snd (relay_step sha cfg (Timer oid now) t)) = records t"
  "disk_up (snd (relay_step sha cfg (Timer oid now) t)) = disk_up t"
  by (simp_all add: relay_step_def poll_def split: option.split relay_phase.split)

text \<open>One step, whatever the store holds, unless the process restarts.\<close>

lemma step_inv:
  assumes i: "relay_inv t" and n: "\<And>k f. ev \<noteq> Forget k f"
    and r: "ev = Restart \<Longrightarrow> durable sha t \<and> cfg_store cfg \<noteq> No_store"
  shows "relay_inv (snd (relay_step sha cfg ev t))"
proof (cases ev)
  case Restart
  then show ?thesis using boot_inv[OF i] r by (simp add: relay_step_def)
next
  case (Timer oid now)
  show ?thesis
  proof (cases "map_of (ops t) oid")
    case (Some ph)
    then show ?thesis
      using Timer i relay_inv_ops[OF i Some]
      by (cases ph) (auto simp: relay_step_def intro!: poll_inv)
  qed (simp add: relay_step_def Timer i)
qed (use i n in \<open>auto simp: relay_step_def split: option.splits relay_phase.splits
      intro!: submit_inv stager_settled_inv broadcast_settled_inv confirm_settled_inv\<close>)

text \<open>The contract of a persistence backend, for a bounded number of records.\<close>

locale submission_store =
  fixes kind :: store_kind and fits :: "nat \<Rightarrow> bool"
  assumes stores: "kind \<noteq> No_store"
    and fits_less: "fits n \<Longrightarrow> m \<le> n \<Longrightarrow> fits m"
    and save_load: "fits (length es) \<Longrightarrow> distinct (map ps_key es) \<Longrightarrow>
      \<exists>c. save_store kind True es = Inr c \<and> set (load_file c) = set es
        \<and> distinct (map ps_key (load_file c))"
begin

lemma persist_durable:
  assumes "cfg_store cfg = kind" "keyed t" "fits (length (records t))" "disk_up t"
  shows "durable sha (persist cfg t)"
proof -
  let ?es = "map (\<lambda>(k, oid). toPersistedSubmission (heap t ! oid)) (records t)"
  have "map ps_key ?es = map fst (records t)"
    using assms(2) by (auto simp: keyed_def)
  then have "distinct (map ps_key ?es)" using assms(2) by (simp add: keyed_def del: map_map)
  moreover have "fits (length ?es)" using assms(3) by simp
  ultimately obtain c where c: "save_store kind True ?es = Inr c" "set (load_file c) = set ?es"
      "distinct (map ps_key (load_file c))" using save_load by blast
  then have "persist cfg t = t\<lparr>disk := c\<rparr>" using assms(1,4) stores by (simp add: persist_def)
  then show ?thesis using c(2,3) by (simp add: durable_def image_image split_def)
qed

lemma fail_durable:
  assumes "cfg_store cfg = kind" "keyed t" "fits (length (records t))" "disk_up t"
  shows "durable sha (fail_rec cfg reason now oid t)"
  unfolding fail_rec_def
  by (rule persist_durable) (use assms in \<open>simp_all add: keyed_update\<close>)

lemma settle_durable:
  assumes "cfg_store cfg = kind" "keyed t" "fits (length (records t))" "disk_up t"
  shows "durable sha (snd (settleSuccess cfg res dup rec now oid t))"
  unfolding settleSuccess_def Let_def
  by (simp, rule persist_durable) (use assms in \<open>simp_all add: keyed_update\<close>)

lemma reconcile_durable: "durable sha t \<Longrightarrow> durable sha (snd (reconcile cfg dup now oid t))"
  by (simp add: reconcile_def poll_def Let_def)

lemma stager_settled_durable:
  assumes "cfg_store cfg = kind" "keyed t" "fits (length (records t))" "disk_up t"
  shows "durable sha (snd (stager_settled cfg ans now oid t))"
  unfolding stager_settled_def Let_def
  by (cases ans; simp split del: if_split)
    (use assms in \<open>auto intro!: fail_durable persist_durable keyed_update\<close>)

lemma broadcast_settled_durable:
  assumes "cfg_store cfg = kind" "keyed t" "fits (length (records t))" "disk_up t"
  shows "durable sha (snd (broadcast_settled cfg ans now oid t))"
  using assms unfolding broadcast_settled_def
  by (auto split: sum.splits intro!: settle_durable reconcile_durable persist_durable keyed_update)

lemma confirm_settled_durable:
  assumes "cfg_store cfg = kind" "keyed t" "fits (length (records t))" "disk_up t"
  shows "durable sha (snd (confirm_settled cfg ans now polls dup oid t))"
  using assms unfolding confirm_settled_def Let_def
  by (auto split: confirmation_state.splits
      intro!: settle_durable fail_durable persist_durable keyed_update
      intro: keyed_cong)

lemma start_submission_durable:
  assumes "cfg_store cfg = kind" "relay_inv t" "durable sha t" "disk_up t"
    and "fits (length (records t) + 1)" "computeSubmissionKey sha a \<notin> fst ` set (records t)"
  shows "durable sha (snd (start_submission sha cfg a now t))"
proof (cases "assertOrderAvailable sha a t")
  case (Pair e t1)
  note fr = assertOrderAvailable_frame[OF Pair]
  show ?thesis
  proof (cases e)
    case (Some x)
    then show ?thesis using Pair durable_cong[OF assms(3) fr(1,2,6)] by (simp add: start_submission_def)
  next
    case None
    have keyed: "keyed (set_record r t1)" if "sr_key r = computeSubmissionKey sha a" for r
      using relay_coreD(1,2)[OF assms(2)[unfolded relay_inv_def]] assms(6) fr that
      by (auto simp: keyed_def update_fresh nth_append)
    show ?thesis
      using Pair None assms(1,4,5,6) fr
      by (simp add: start_submission_def Let_def)
        (rule persist_durable; simp add: keyed update_fresh)
  qed
qed

lemma submit_durable:
  assumes "cfg_store cfg = kind" "relay_inv t" "durable sha t" "disk_up t"
    and "fits (length (records t) + 1)"
  shows "durable sha (snd (submit sha cfg a now t))"
proof (cases "map_of (records t) (computeSubmissionKey sha a)")
  case None
  then have "computeSubmissionKey sha a \<notin> fst ` set (records t)" by (simp add: map_of_eq_None_iff)
  from start_submission_durable[OF assms this] show ?thesis by (simp add: submit_def None Let_def)
next
  case (Some oid)
  let ?k = "computeSubmissionKey sha a"
  let ?t1 = "persist cfg (t\<lparr>records := AList.delete ?k (records t)\<rparr>)"
  have restage: "durable sha (snd (case assertOrderAvailable sha a ?t1 of
        (Some e, t2) \<Rightarrow> (Thrown e, t2) | (None, t2) \<Rightarrow> start_submission sha cfg a now t2))"
    if "relay_inv ?t1"
  proof (cases "assertOrderAvailable sha a ?t1")
    case (Pair e t2)
    note fr = assertOrderAvailable_frame[OF Pair]
    have l: "length (AList.delete ?k (records t)) \<le> length (records t)" by (rule length_delete_le)
    have d1: "durable sha ?t1"
      using that l assms(1,4,5) fits_less by (intro persist_durable) (auto dest: relay_inv_keyed)
    have i2: "relay_inv t2" using that fr by (simp add: relay_inv_def)
    have "durable sha (snd (start_submission sha cfg a now t2))"
      using i2 l assms(1,4,5) fr fits_less durable_cong[OF d1 fr(1,2,6)]
      by (intro start_submission_durable) (auto simp: set_delete_alist)
    then show ?thesis using Pair durable_cong[OF d1 fr(1,2,6)] by (cases e) auto
  qed
  have "relay_inv ?t1" if "sr_status (heap t ! oid) = FailedTx"
      "sr_terminalReason (heap t ! oid) = Some ReasonStaging"
    using relay_inv_restage[OF assms(2) Some that] .
  then show ?thesis
    using Some restage assms(3)
    by (auto simp: submit_def Let_def split: relay_status.splits intro!: reconcile_durable)
qed

text \<open>The invariant, the file and the number of records together.\<close>

definition covered :: "(string \<Rightarrow> string) \<Rightarrow> nat \<Rightarrow> tracker \<Rightarrow> bool" where
  "covered sha n t \<longleftrightarrow> relay_inv t \<and> durable sha t \<and> length (records t) \<le> n \<and> disk_up t"

lemma answer_durable:
  assumes "cfg_store cfg = kind" "keyed t" "fits (length (records t))" "disk_up t" "durable sha t"
  shows "durable sha (snd (relay_step sha cfg (Stager_answers oid ans now) t))"
    and "durable sha (snd (relay_step sha cfg (Broadcast_answers oid ans' now) t))"
    and "durable sha (snd (relay_step sha cfg (Confirmer_answers oid ans'' now) t))"
    and "durable sha (snd (relay_step sha cfg (Timer oid now) t))"
  using stager_settled_durable[OF assms(1-4), of sha ans now oid]
    broadcast_settled_durable[OF assms(1-4), of sha ans' now oid]
    confirm_settled_durable[OF assms(1-4), of sha ans'' now] assms(5)
  by (simp_all add: relay_step_def poll_def split: option.split relay_phase.split)

lemma step_covered:
  assumes "cfg_store cfg = kind" "covered sha n t" "\<And>k f. ev \<noteq> Forget k f"
    and "fits (n + (case ev of Submit _ _ \<Rightarrow> 1 | _ \<Rightarrow> 0))"
  shows "covered sha (n + (case ev of Submit _ _ \<Rightarrow> 1 | _ \<Rightarrow> 0)) (snd (relay_step sha cfg ev t))"
proof -
  have i: "relay_inv t" "durable sha t" "length (records t) \<le> n" "disk_up t"
    using assms(2) unfolding covered_def by blast+
  note c = i relay_inv_keyed[OF i(1)]
  have fits: "fits (length (records t))" 
    by (rule fits_less[OF assms(4)]) (use c(3) in linarith)
  have inv: "relay_inv (snd (relay_step sha cfg ev t))"
    using step_inv[OF c(1) assms(3)] c(2) assms(1) stores by blast
  note ad = answer_durable[OF assms(1) c(5) fits c(4,2)]
  show ?thesis
  proof (cases ev)
    case (Submit a now)
    then have "fits (length (records t) + 1)" using assms(4) c(3) fits_less by force
    then show ?thesis
      using Submit submit_durable[OF assms(1) c(1,2,4)] inv submit_length[of sha cfg a now t] c(3,4)
      by (simp add: covered_def relay_step_def)
  next
    case Restart
    then show ?thesis
      using inv boot_durable[OF c(1,2)] boot_records(4,8)[OF c(1,2)] assms(1) stores c(3,4)
      by (simp add: covered_def relay_step_def)
  next
    case (Forget k f) then show ?thesis using assms(3) by blast
  next
    case (Stager_answers oid ans now)
    with inv c(3,4) ad(1) show ?thesis unfolding covered_def by simp
  next
    case (Broadcast_answers oid ans now)
    with inv c(3,4) ad(2) show ?thesis unfolding covered_def by simp
  next
    case (Confirmer_answers oid ans now)
    with inv c(3,4) ad(3) show ?thesis unfolding covered_def by simp
  next
    case (Timer oid now)
    with inv c(3,4) ad(4) show ?thesis unfolding covered_def by simp
  qed
qed

end

interpretation memory_store: submission_store Memory_store "\<lambda>_. True"
  by unfold_locales simp_all

interpretation file_store: submission_store "File_store m" "\<lambda>n. n \<le> m" for m
proof
  fix es :: "persisted_submission list"
  assume l: "length es \<le> m" and d: "distinct (map ps_key es)"
  have "length (filter (\<lambda>e. \<not> is_live e) es) \<le> m" using l length_filter_le order_trans by blast
  from set_prune_all[OF this] distinct_prune[OF d, of m]
  show "\<exists>c. save_store (File_store m) True es = Inr c \<and> set (load_file c) = set es
      \<and> distinct (map ps_key (load_file c))" by simp
qed simp_all

end
