(* ===== verification/Relay_Guarantees.thy ===== *)
theory Relay_Guarantees
  imports Relay_Durability
begin

text \<open>
  The guarantees of the relay tracker over whole runs, and the two ways around them: a file store
  that pruned a settled record, and \<open>forget\<close> on a submission that is still being staged.
\<close>

fun submits :: "relay_event list \<Rightarrow> nat" where
  "submits [] = 0"
| "submits (Submit a now # evs) = submits evs + 1"
| "submits (ev # evs) = submits evs"

text \<open>The store keeps \<open>n\<close> records over a restart.\<close>

fun store_holds :: "store_kind \<Rightarrow> nat \<Rightarrow> bool" where
  "store_holds No_store n = False"
| "store_holds Memory_store n = True"
| "store_holds (File_store m) n = (n \<le> m)"

fun forgets :: "relay_event \<Rightarrow> bool" where
  "forgets (Forget key force) = True"
| "forgets _ = False"

text \<open>Nothing is forgotten, and the process restarts only over a store that holds every record.\<close>

definition proper_run :: "relay_config \<Rightarrow> relay_event list \<Rightarrow> bool" where
  "proper_run cfg evs \<longleftrightarrow> \<not> list_ex forgets evs
     \<and> (Restart \<in> set evs \<longrightarrow> store_holds (cfg_store cfg) (submits evs))"

lemma submits_append [simp]: "submits (evs @ evs') = submits evs + submits evs'"
  by (induction evs rule: submits.induct) simp_all

lemma submits_single: "submits [ev] = (case ev of Submit _ _ \<Rightarrow> 1 | _ \<Rightarrow> 0)"
  by (cases ev) simp_all

lemma relay_run_snoc [simp]:
  "relay_run sha cfg (evs @ [ev]) t = snd (relay_step sha cfg ev (relay_run sha cfg evs t))"
  by (simp add: relay_run_def)

lemma relay_run_Nil [simp]: "relay_run sha cfg [] t = t"
  by (simp add: relay_run_def)

lemma forgets_iff: "forgets ev = (\<exists>k f. ev = Forget k f)"
  by (cases ev) auto

context submission_store begin

lemma run_covered:
  assumes "cfg_store cfg = kind" "\<not> list_ex forgets evs" "fits (submits evs)"
  shows "covered sha (submits evs) (relay_run sha cfg evs (fresh_tracker sha cfg))"
  using assms
proof (induction evs rule: rev_induct)
  case Nil
  then show ?case by (simp add: covered_def fresh_tracker_inv)
next
  case (snoc ev evs)
  have "fits (submits evs)" by (rule fits_less[OF snoc.prems(3)]) simp
  with snoc have "covered sha (submits evs) (relay_run sha cfg evs (fresh_tracker sha cfg))" by simp
  moreover have "\<And>k f. ev \<noteq> Forget k f" using snoc.prems(2) by auto
  moreover have "fits (submits evs + (case ev of Submit _ _ \<Rightarrow> 1 | _ \<Rightarrow> 0))"
    using snoc.prems(3) unfolding submits_append submits_single .
  ultimately have "covered sha (submits evs + (case ev of Submit _ _ \<Rightarrow> 1 | _ \<Rightarrow> 0))
      (snd (relay_step sha cfg ev (relay_run sha cfg evs (fresh_tracker sha cfg))))"
    by (intro step_covered) (use snoc.prems(1) in auto)
  then show ?case unfolding relay_run_snoc submits_append submits_single .
qed

end

lemma run_inv_no_restart:
  assumes "\<not> list_ex forgets evs" "Restart \<notin> set evs"
  shows "relay_inv (relay_run sha cfg evs (fresh_tracker sha cfg))"
  using assms
proof (induction evs rule: rev_induct)
  case (snoc ev evs)
  then show ?case by (auto intro!: step_inv)
qed (simp add: fresh_tracker_inv)

lemma proper_run_inv:
  assumes "proper_run cfg evs"
  shows "relay_inv (relay_run sha cfg evs (fresh_tracker sha cfg))"
proof (cases "Restart \<in> set evs")
  case False
  then show ?thesis using assms run_inv_no_restart by (simp add: proper_run_def)
next
  case True
  then have a: "\<not> list_ex forgets evs" "store_holds (cfg_store cfg) (submits evs)"
    using assms by (simp_all add: proper_run_def)
  show ?thesis
  proof (cases "cfg_store cfg")
    case No_store then show ?thesis using a by simp
  next
    case Memory_store
    from memory_store.run_covered[OF this a(1) TrueI] show ?thesis
      by (simp add: memory_store.covered_def)
  next
    case (File_store m)
    then have "submits evs \<le> m" using a by simp
    from file_store.run_covered[OF File_store a(1) this] show ?thesis
      by (simp add: file_store.covered_def)
  qed
qed

lemma relay_inv_getRecord:
  assumes "relay_inv t" "(k, oid) \<in> set (records t)"
  shows "getRecord k t = Some (heap t ! oid)"
  using assms relay_coreD(1)[OF assms(1)[unfolded relay_inv_def]] by (simp add: getRecord_def)

lemma getRecordD: "getRecord k t = Some r \<Longrightarrow> \<exists>oid. (k, oid) \<in> set (records t) \<and> r = heap t ! oid"
  by (auto simp: getRecord_def dest: map_of_SomeD)

text \<open>The wire only grows.\<close>

lemma wire_frame [simp]:
  "wire (snd (settleSuccess cfg res dup rec now oid t)) = wire t"
  "wire (snd (reconcile cfg dup now oid t)) = wire t"
  "wire (snd (broadcast_settled cfg ans now oid t)) = wire t"
  "wire (snd (confirm_settled cfg ans' now polls dup oid t)) = wire t"
  "wire (snd (poll polls dup now oid t)) = wire t"
  "wire (snd (forget cfg key force t)) = wire t"
  by (simp_all add: settleSuccess_def reconcile_def poll_def broadcast_settled_def forget_def
      confirm_settled_def Let_def split: sum.splits confirmation_state.splits option.splits)

lemma restore_wire: "wire (fold (restore_entry sha) es t) = wire t"
  by (induction es arbitrary: t) (simp_all add: restore_entry_def)

lemma boot_wire [simp]: "wire (boot sha cfg c up w) = w"
  by (simp add: boot_def restore_def restore_wire)

lemma assertOrderAvailable_wire: "wire (snd (assertOrderAvailable sha a t)) = wire t"
  by (simp add: assertOrderAvailable_def split: option.splits)

lemma start_submission_wire [simp]: "wire (snd (start_submission sha cfg a now t)) = wire t"
  using assertOrderAvailable_wire[of sha a t]
  by (auto simp: start_submission_def Let_def split: prod.splits option.splits)

lemma submit_wire [simp]: "wire (snd (submit sha cfg a now t)) = wire t"
  using assertOrderAvailable_wire[of sha a
      "persist cfg (t\<lparr>records := AList.delete (computeSubmissionKey sha a) (records t)\<rparr>)"]
  by (auto simp: submit_def Let_def split: prod.splits option.splits relay_status.splits)

lemma step_wire: "set (wire t) \<subseteq> set (wire (snd (relay_step sha cfg ev t)))"
  by (cases ev) (auto simp: relay_step_def stager_settled_def Let_def
      split: option.splits relay_phase.splits sum.splits)

section \<open>Single flight\<close>

definition sample_cfg :: relay_config where
  "sample_cfg = make_config (Some 2) True (file_store None) (\<lambda>_. True)"

definition sample_claim_of :: "string \<Rightarrow> relay_action" where
  "sample_claim_of o1 = \<lparr>ra_orderId = o1, ra_side = ''eth_to_xlm'', ra_action = ''claim'',
     ra_chain = ''stellar'', ra_network = None, ra_destination = None, ra_amount = None\<rparr>"

definition sample_refund_of :: "string \<Rightarrow> relay_action" where
  "sample_refund_of o1 = (sample_claim_of o1)\<lparr>ra_action := ''refund''\<rparr>"

text \<open>A claim whose broadcast times out, a crash, and a second submission that polls its hash.\<close>

definition sample_run :: "relay_event list" where
  "sample_run =
    [Submit (sample_claim_of ''o1'') 1, Stager_answers 0 (Inr \<lparr>st_txHash = ''h1'', st_network = None\<rparr>) 2,
     Submit (sample_refund_of ''o1'') 3, Broadcast_answers 0 (Inl ''timeout'') 4, Restart,
     Submit (sample_claim_of ''o1'') 5, Submit (sample_refund_of ''o1'') 6,
     Confirmer_answers 0 (Inr \<lparr>rc_state = Conf_succeeded, rc_error = None, rc_result = None\<rparr>) 7]"

text \<open>C19: In any run of the relay tracker in which nothing is forgotten, and in which the process
  restarts only over a store that holds every record, at most one transaction is broadcast per
  submission key, however calls, timeouts, confirmations and restarts interleave.\<close>

theorem one_broadcast_per_key:
  assumes "proper_run cfg evs"
  shows "distinct (map fst (wire (relay_run sha cfg evs (fresh_tracker sha cfg))))"
  using relay_coreD(6)[OF proper_run_inv[OF assms, unfolded relay_inv_def]] .

lemma one_broadcast_per_key_witness:
  "distinct (map fst (wire (relay_run (\<lambda>s. s) sample_cfg sample_run (fresh_tracker (\<lambda>s. s) sample_cfg))))
   \<and> length (wire (relay_run (\<lambda>s. s) sample_cfg sample_run (fresh_tracker (\<lambda>s. s) sample_cfg))) = 1"
proof
  have "proper_run sample_cfg sample_run" by code_simp
  from one_broadcast_per_key[OF this]
  show "distinct (map fst (wire (relay_run (\<lambda>s. s) sample_cfg sample_run
    (fresh_tracker (\<lambda>s. s) sample_cfg))))" .
  show "length (wire (relay_run (\<lambda>s. s) sample_cfg sample_run (fresh_tracker (\<lambda>s. s) sample_cfg))) = 1"
    by code_simp
qed

text \<open>C20: In the same runs, two records of one order (one order id and side) that are both in
  flight, pending or settled are the same submission: a claim and a refund of an order never hold
  it together.\<close>

theorem one_action_per_order:
  assumes "proper_run cfg evs"
    and "getRecord k1 (relay_run sha cfg evs (fresh_tracker sha cfg)) = Some r1"
    and "getRecord k2 (relay_run sha cfg evs (fresh_tracker sha cfg)) = Some r2"
    and "sr_orderKey r1 = sr_orderKey r2" "sr_status r1 \<noteq> FailedTx" "sr_status r2 \<noteq> FailedTx"
  shows "k1 = k2"
  using assms(2-6) relay_coreD(5)[OF proper_run_inv[OF assms(1), of sha, unfolded relay_inv_def]]
  by (blast dest!: getRecordD)

lemma one_action_per_order_witness:
  "(let t = relay_run (\<lambda>s. s) sample_cfg sample_run (fresh_tracker (\<lambda>s. s) sample_cfg);
        k = computeSubmissionKey (\<lambda>s. s) (sample_claim_of ''o1'')
    in map_option sr_status (getRecord k t) = Some SucceededTx
       \<and> getRecord (computeSubmissionKey (\<lambda>s. s) (sample_refund_of ''o1'')) t = None)"
proof -
  let ?t = "relay_run (\<lambda>s. s) sample_cfg sample_run (fresh_tracker (\<lambda>s. s) sample_cfg)"
  let ?k = "computeSubmissionKey (\<lambda>s. s) (sample_claim_of ''o1'')"
  have p: "proper_run sample_cfg sample_run" by code_simp
  have s: "map_option sr_status (getRecord ?k ?t) = Some SucceededTx" by code_simp
  then obtain r where r: "getRecord ?k ?t = Some r" "sr_status r = SucceededTx" by auto
  have "?k = ?k" by (rule one_action_per_order[OF p r(1) r(1)]) (simp_all add: r(2))
  moreover have "getRecord (computeSubmissionKey (\<lambda>s. s) (sample_refund_of ''o1'')) ?t = None"
    by code_simp
  ultimately show ?thesis using s by (simp add: Let_def)
qed

text \<open>Once a transaction of a key is on the wire its hash is on record, and it stays there
  through every continuation of the run, restarts included, so that a retry can only poll it.\<close>

theorem broadcast_hash_kept:
  assumes "proper_run cfg (evs @ later)"
    and "(k, tx) \<in> set (wire (relay_run sha cfg evs (fresh_tracker sha cfg)))"
  shows "\<exists>r. getRecord k (relay_run sha cfg (evs @ later) (fresh_tracker sha cfg)) = Some r
    \<and> sr_txHash r = Some tx \<and> sr_status r \<noteq> InFlight"
proof -
  have w: "(k, tx) \<in> set (wire (relay_run sha cfg (evs @ later) (fresh_tracker sha cfg)))"
    using assms(2)
  proof (induction later rule: rev_induct)
    case (snoc ev later)
    show ?case
      using snoc step_wire[of "relay_run sha cfg (evs @ later) (fresh_tracker sha cfg)" sha cfg ev]
      unfolding append_assoc[symmetric] relay_run_snoc by blast
  qed simp
  note i = proper_run_inv[OF assms(1), of sha]
  obtain oid where "(k, oid) \<in> set (records (relay_run sha cfg (evs @ later) (fresh_tracker sha cfg)))"
    "posted tx (heap (relay_run sha cfg (evs @ later) (fresh_tracker sha cfg)) ! oid)"
    using relay_coreD(7)[OF i[unfolded relay_inv_def]] w by blast
  then show ?thesis using relay_inv_getRecord[OF i] by (auto simp: posted_def)
qed

lemma broadcast_hash_kept_witness:
  "\<exists>r. getRecord (computeSubmissionKey (\<lambda>s. s) (sample_claim_of ''o1''))
       (relay_run (\<lambda>s. s) sample_cfg sample_run (fresh_tracker (\<lambda>s. s) sample_cfg)) = Some r
     \<and> sr_txHash r = Some ''h1'' \<and> sr_status r \<noteq> InFlight"
proof -
  have "proper_run sample_cfg (take 2 sample_run @ drop 2 sample_run)" by code_simp
  moreover have "(computeSubmissionKey (\<lambda>s. s) (sample_claim_of ''o1''), ''h1'') \<in>
      set (wire (relay_run (\<lambda>s. s) sample_cfg (take 2 sample_run) (fresh_tracker (\<lambda>s. s) sample_cfg)))"
    by code_simp
  ultimately show ?thesis using broadcast_hash_kept by fastforce
qed

text \<open>An order that holds a live or settled action refuses every other action.\<close>

lemma submit_refuses_second_action:
  assumes "getBlockingRecord sha a t = Some b" "getRecord (computeSubmissionKey sha a) t = None"
  shows "submit sha cfg a now t =
    (Thrown (RelayOrderBusyError (sr_key b) (ra_action (sr_action b)) (sr_status b) (ra_action a)),
     t\<lparr>orderBlocked := orderBlocked t + 1\<rparr>)"
  using assms by (simp add: submit_def getRecord_def start_submission_def assertOrderAvailable_def)

section \<open>Two ways around the guarantee\<close>

text \<open>A file that keeps one settled record, two settled orders, a restart and the first order again.\<close>

definition pruned_run :: "relay_event list" where
  "pruned_run =
    [Submit (sample_claim_of ''o1'') 1, Stager_answers 0 (Inr \<lparr>st_txHash = ''h1'', st_network = None\<rparr>) 2,
     Broadcast_answers 0 (Inr JNull) 3,
     Submit (sample_claim_of ''o2'') 4, Stager_answers 1 (Inr \<lparr>st_txHash = ''h2'', st_network = None\<rparr>) 5,
     Broadcast_answers 1 (Inr JNull) 6, Restart,
     Submit (sample_claim_of ''o1'') 7, Stager_answers 1 (Inr \<lparr>st_txHash = ''h3'', st_network = None\<rparr>) 8]"

text \<open>The bound on the stored records matters: with a file store that keeps one settled record,
  a run without any \<open>forget\<close> broadcasts the claim of the first order a second time after a restart,
  because its settled record was pruned.\<close>

theorem pruned_record_is_paid_again:
  "let cfg = make_config (Some 2) True (file_store (Some 1)) (\<lambda>_. True);
       t = relay_run (\<lambda>s. s) cfg pruned_run (fresh_tracker (\<lambda>s. s) cfg)
   in \<not> list_ex forgets pruned_run \<and> map snd (wire t) = [''h1'', ''h2'', ''h3'']
      \<and> map fst (wire t) ! 0 = map fst (wire t) ! 2"
  by code_simp

text \<open>\<open>forget\<close> without force removes a submission that is still being staged, and both stagings
  then broadcast: two transactions for one key without a restart or a forced call.\<close>

theorem forget_in_flight_pays_twice:
  assumes "h1 \<noteq> []" "h2 \<noteq> []" and "cfg_store cfg = No_store"
  shows "wire (relay_run sha cfg
    [Submit a 1, Forget (computeSubmissionKey sha a) False, Submit a 2,
     Stager_answers 0 (Inr \<lparr>st_txHash = h1, st_network = None\<rparr>) 3,
     Stager_answers 1 (Inr \<lparr>st_txHash = h2, st_network = None\<rparr>) 4] (fresh_tracker sha cfg)) =
    [(computeSubmissionKey sha a, h1), (computeSubmissionKey sha a, h2)]"
  using assms
  by (simp add: relay_run_def relay_step_def fresh_tracker_def boot_def restore_def submit_def
      start_submission_def assertOrderAvailable_def getBlockingRecord_def persist_def set_record_def
      set_op_def update_rec_def forget_def getRecord_def stager_settled_def Let_def)

lemma forget_in_flight_pays_twice_witness:
  "map snd (wire (relay_run (\<lambda>s. s) (make_config None True No_store (\<lambda>_. True))
    [Submit (sample_claim_of ''o1'') 1,
     Forget (computeSubmissionKey (\<lambda>s. s) (sample_claim_of ''o1'')) False,
     Submit (sample_claim_of ''o1'') 2,
     Stager_answers 0 (Inr \<lparr>st_txHash = ''h1'', st_network = None\<rparr>) 3,
     Stager_answers 1 (Inr \<lparr>st_txHash = ''h2'', st_network = None\<rparr>) 4]
    (fresh_tracker (\<lambda>s. s) (make_config None True No_store (\<lambda>_. True))))) = [''h1'', ''h2'']"
  by (subst forget_in_flight_pays_twice) (simp_all add: make_config_def)

end
