(* ===== verification/Relay_Recovery.thy ===== *)
theory Relay_Recovery
  imports Relay_Guarantees
begin

text \<open>
  The recovery service (\<open>relayer/src/recovery-service.ts\<close>): its network guard, the hash it looks
  for in a record's result, and what it does with each row for each answer of the RPC. The answer of
  the provider is an argument; timers and log lines are left out. A row is processed from the
  answer of the provider on, and the submission that patches a confirmed row is the event \<open>Submit\<close>.
\<close>

datatype tx_status = Tx_confirmed | Tx_expired | Tx_pending | Tx_unknown

record recovery_report =
  alreadyConfirmed :: "string list"
  replaced :: "string list"
  stillPending :: "string list"
  unknown_rows :: "string list"

definition empty_report :: recovery_report where
  "empty_report = \<lparr>alreadyConfirmed = [], replaced = [], stillPending = [], unknown_rows = []\<rparr>"

definition string_field :: "string \<Rightarrow> (string \<times> js_value) list \<Rightarrow> string option" where
  "string_field f fs =
    (case map_of fs f of Some (JStr s) \<Rightarrow> (if s \<noteq> [] then Some s else None) | _ \<Rightarrow> None)"

definition extractTxHash :: "js_value option \<Rightarrow> string option" where
  "extractTxHash result =
    (case result of
       Some (JStr s) \<Rightarrow> (if s \<noteq> [] then Some s else None)
     | Some (JObj fs) \<Rightarrow>
         (case string_field ''hash'' fs of
            Some h \<Rightarrow> Some h
          | None \<Rightarrow> (case string_field ''txHash'' fs of
              Some h \<Rightarrow> Some h | None \<Rightarrow> string_field ''id'' fs))
     | _ \<Rightarrow> None)"

text \<open>The guard of \<open>start\<close>: the unexpected chains it reports, none when it passes.\<close>

definition assertNetworkMatch :: "string list \<Rightarrow> tracker \<Rightarrow> string list" where
  "assertNetworkMatch expected t =
    sort (remdups (filter (\<lambda>c. c \<notin> set expected)
      (map (\<lambda>(k, oid). ra_chain (sr_action (heap t ! oid))) (records t))))"

definition processRow :: "(string \<Rightarrow> string) \<Rightarrow> relay_config \<Rightarrow> (string \<Rightarrow> string \<Rightarrow> tx_status) \<Rightarrow> int
    \<Rightarrow> submission_record \<Rightarrow> recovery_report \<times> tracker \<Rightarrow> recovery_report \<times> tracker" where
  "processRow sha cfg getTxStatus now r = (\<lambda>(rep, t).
    (case extractTxHash (sr_result r) of
       None \<Rightarrow> (rep\<lparr>unknown_rows := unknown_rows rep @ [sr_key r]\<rparr>, t)
     | Some h \<Rightarrow>
        (case getTxStatus h (ra_chain (sr_action r)) of
           Tx_confirmed \<Rightarrow>
             if sr_status r = SucceededTx
             then (rep\<lparr>alreadyConfirmed := alreadyConfirmed rep @ [sr_key r]\<rparr>, t)
             else (rep\<lparr>alreadyConfirmed := alreadyConfirmed rep @ [sr_key r]\<rparr>,
                   snd (submit sha cfg (sr_action r) now (snd (forget cfg (sr_key r) False t))))
         | Tx_expired \<Rightarrow>
             (rep\<lparr>replaced := replaced rep @ [sr_key r]\<rparr>, snd (forget cfg (sr_key r) False t))
         | Tx_pending \<Rightarrow> (rep\<lparr>stillPending := stillPending rep @ [sr_key r]\<rparr>, t)
         | Tx_unknown \<Rightarrow> (rep\<lparr>unknown_rows := unknown_rows rep @ [sr_key r]\<rparr>, t))))"

text \<open>\<open>list\<close>: newest first, stable.\<close>

definition list_records :: "tracker \<Rightarrow> submission_record list" where
  "list_records t =
    sort_key (\<lambda>r. - sr_firstSeenAt r) (map (\<lambda>(k, oid). heap t ! oid) (records t))"

definition recoverPendingRows :: "(string \<Rightarrow> string) \<Rightarrow> relay_config
    \<Rightarrow> (string \<Rightarrow> string \<Rightarrow> tx_status) \<Rightarrow> int \<Rightarrow> tracker \<Rightarrow> recovery_report \<times> tracker" where
  "recoverPendingRows sha cfg getTxStatus now t =
    fold (processRow sha cfg getTxStatus now)
      (filter (\<lambda>r. sr_status r = InFlight \<or> sr_status r = FailedTx) (list_records t))
      (empty_report, t)"

section \<open>Only settled records have a result\<close>

definition result_ok :: "submission_record \<Rightarrow> bool" where
  "result_ok r \<longleftrightarrow> sr_status r = SucceededTx \<or> sr_result r = None"

definition entry_ok :: "persisted_submission \<Rightarrow> bool" where
  "entry_ok e \<longleftrightarrow> ps_status e = SucceededTx \<or> ps_result e = None"

definition clean_core :: "submission_record list \<Rightarrow> (nat \<times> relay_phase) list \<Rightarrow> bool" where
  "clean_core h os \<longleftrightarrow> (\<forall>r \<in> set h. result_ok r)
     \<and> (\<forall>(oid, ph) \<in> set os. oid < length h \<and> phase_ok ph (h ! oid)) \<and> distinct (map fst os)"

definition clean :: "tracker \<Rightarrow> bool" where
  "clean t \<longleftrightarrow> clean_core (heap t) (ops t) \<and> (\<forall>e \<in> set (load_file (disk t)). entry_ok e)
     \<and> (\<forall>(k, oid) \<in> set (records t). oid < length (heap t))"

lemma clean_core_update:
  assumes "clean_core h os" "result_ok r'" "\<And>ph. (oid, ph) \<in> set os \<Longrightarrow> phase_ok ph r'"
  shows "clean_core (h[oid := r']) os"
proof -
  have "phase_ok ph (h[oid := r'] ! i)" if "(i, ph) \<in> set os" for i ph
    using assms(1,3) that by (cases "i = oid") (auto simp: clean_core_def)
  then show ?thesis
    using assms(1,2) unfolding clean_core_def
    by (auto dest!: set_update_subset_insert[THEN subsetD])
qed

lemma clean_core_end: "clean_core h os \<Longrightarrow> clean_core h (AList.delete oid os)"
  by (auto simp: clean_core_def set_delete_alist intro: distinct_delete)

lemma clean_core_set:
  "clean_core h os \<Longrightarrow> oid < length h \<Longrightarrow> phase_ok ph (h ! oid) \<Longrightarrow>
   clean_core h (AList.update oid ph os)"
  by (auto simp: clean_core_def set_update_alist intro: distinct_update)

lemma clean_core_finish:
  "clean_core h os \<Longrightarrow> result_ok r' \<Longrightarrow> clean_core (h[oid := r']) (AList.delete oid os)"
  by (rule clean_core_update[OF clean_core_end]) (auto simp: set_delete_alist)

lemma clean_core_phase:
  assumes "clean_core h os" "result_ok r'" "phase_ok ph r'" "oid < length h"
  shows "clean_core (h[oid := r']) (AList.update oid ph os)"
proof -
  have "clean_core (h[oid := r']) (AList.update oid ph (AList.delete oid os))"
    by (rule clean_core_set[OF clean_core_finish]) (use assms in simp_all)
  moreover have "set (AList.update oid ph (AList.delete oid os)) = set (AList.update oid ph os)"
    using assms(1) by (auto simp: clean_core_def set_update_alist distinct_delete_alist set_delete_alist)
  moreover have "distinct (map fst (AList.update oid ph os))"
    using assms(1) by (auto simp: clean_core_def intro: distinct_update)
  ultimately show ?thesis by (simp add: clean_core_def)
qed

lemma clean_persist: "clean t \<Longrightarrow> clean (persist cfg t)"
proof -
  assume c: "clean t"
  have "entry_ok (toPersistedSubmission (heap t ! oid))" if "(k, oid) \<in> set (records t)" for k oid
  proof -
    have "result_ok (heap t ! oid)"
      using c that by (auto simp: clean_def clean_core_def)
    then show ?thesis by (auto simp: result_ok_def entry_ok_def toPersistedSubmission_def)
  qed
  then have e: "\<forall>e \<in> set (map (\<lambda>(k, oid). toPersistedSubmission (heap t ! oid)) (records t)). entry_ok e"
    by auto
  have "\<forall>e \<in> set (load_file (disk (persist cfg t))). entry_ok e"
    using e c unfolding persist_def clean_def
    by (cases "cfg_store cfg") (auto dest!: set_prune_subset[THEN subsetD])
  then show ?thesis using c by (simp add: clean_def)
qed

lemma persist_commutes:
  "end_op oid (persist cfg t) = persist cfg (end_op oid t)"
  "set_op oid ph (persist cfg t) = persist cfg (set_op oid ph t)"
  "stop_reconciling oid (persist cfg t) = persist cfg (stop_reconciling oid t)"
  by (simp_all add: persist_def end_op_def set_op_def stop_reconciling_def split: sum.splits)

lemma clean_frame [simp]:
  "clean (stop_reconciling oid t) = clean t" "clean (t\<lparr>wire := w\<rparr>) = clean t"
  "clean (t\<lparr>inFlightSkipped := n\<rparr>) = clean t" "clean (t\<lparr>duplicatesSkipped := n\<rparr>) = clean t"
  "clean (t\<lparr>orderBlocked := n\<rparr>) = clean t" "clean (t\<lparr>reconciling := ks\<rparr>) = clean t"
  by (simp_all add: clean_def)

lemma clean_finish: "clean t \<Longrightarrow> result_ok (f (heap t ! oid)) \<Longrightarrow> clean (end_op oid (update_rec oid f t))"
  by (auto simp: clean_def clean_core_finish)

lemma clean_phase:
  "clean t \<Longrightarrow> result_ok (f (heap t ! oid)) \<Longrightarrow> phase_ok ph (f (heap t ! oid)) \<Longrightarrow>
   oid < length (heap t) \<Longrightarrow> clean (set_op oid ph (update_rec oid f t))"
  by (auto simp: clean_def clean_core_phase)

lemma clean_end: "clean t \<Longrightarrow> clean (end_op oid t)"
  by (simp add: clean_def clean_core_end)

lemma clean_op:
  "clean t \<Longrightarrow> map_of (ops t) oid = Some ph \<Longrightarrow>
   oid < length (heap t) \<and> phase_ok ph (heap t ! oid) \<and> result_ok (heap t ! oid)"
  by (fastforce simp: clean_def clean_core_def dest: map_of_SomeD)

lemma clean_note:
  assumes "clean t" "oid < length (heap t)"
  shows "clean (update_rec oid (\<lambda>r. r\<lparr>sr_lastError := e r\<rparr>) t)"
proof -
  have r: "result_ok (heap t ! oid)" using assms by (auto simp: clean_def clean_core_def)
  have "phase_ok ph ((heap t ! oid)\<lparr>sr_lastError := e (heap t ! oid)\<rparr>)" if "(oid, ph) \<in> set (ops t)" for ph
    using assms(1) that phase_ok_status[of "heap t ! oid" _ ph] by (auto simp: clean_def clean_core_def)
  with r have "clean_core ((heap t)[oid := (heap t ! oid)\<lparr>sr_lastError := e (heap t ! oid)\<rparr>]) (ops t)"
    using assms(1) by (intro clean_core_update) (auto simp: clean_def result_ok_def)
  then show ?thesis using assms(1) by (simp add: clean_def)
qed

lemma clean_fail:
  assumes "clean t" "sr_result (f (heap t ! oid)) = None" "oid < length (heap t)"
  shows "clean (end_op oid (fail_rec cfg reason now oid (update_rec oid f t)))"
proof -
  have "end_op oid (fail_rec cfg reason now oid (update_rec oid f t)) =
      persist cfg (end_op oid (update_rec oid (\<lambda>r. (f r)\<lparr>sr_status := FailedTx,
        sr_completedAt := Some now, sr_terminalReason := Some reason,
        sr_lastError := (case sr_lastError (f r) of Some e \<Rightarrow> Some e
                         | None \<Rightarrow> Some (''relay submission '' @ reason_text reason))\<rparr>) t))"
    using assms(3) unfolding fail_rec_def persist_commutes by (simp add: update_rec_def)
  then show ?thesis using assms by (auto intro!: clean_persist clean_finish simp: result_ok_def)
qed

lemma update_rec_id: "update_rec oid id t = t"
  by (simp add: update_rec_def)

lemma clean_settle:
  assumes "clean t"
  shows "clean (snd (settleSuccess cfg res dup rec now oid t))"
  using assms unfolding settleSuccess_def Let_def snd_conv persist_commutes
  by (auto intro!: clean_persist clean_finish simp: result_ok_def)

lemma clean_poll:
  assumes "clean t" "oid < length (heap t)" "sr_status (heap t ! oid) = PendingTx"
  shows "clean (snd (poll polls dup now oid t))"
proof -
  have "result_ok (heap t ! oid)" using assms by (auto simp: clean_def clean_core_def)
  then show ?thesis
    using assms unfolding poll_def snd_conv by (intro clean_phase) (auto simp: result_ok_def)
qed

lemma clean_reconcile:
  assumes "clean t" "oid < length (heap t)" "sr_status (heap t ! oid) = PendingTx"
  shows "clean (snd (reconcile cfg dup now oid t))"
  using assms by (auto simp: reconcile_def Let_def intro!: clean_end clean_poll)

lemma clean_stager:
  assumes c: "clean t" and op: "map_of (ops t) oid = Some Staging"
  shows "clean (snd (stager_settled cfg ans now oid t))"
proof -
  note o = clean_op[OF c op]
  then have n: "sr_result (heap t ! oid) = None" by (auto simp: result_ok_def)
  have swap: "set_op oid Broadcasting (t'\<lparr>wire := w\<rparr>) = (set_op oid Broadcasting t')\<lparr>wire := w\<rparr>" for t' w
    by (simp add: set_op_def)
  show ?thesis
    using o n
    by (auto simp: stager_settled_def Let_def swap persist_commutes result_ok_def split: sum.splits
        intro!: clean_fail[OF c] clean_persist clean_phase[OF c])
qed

lemma clean_broadcast:
  assumes c: "clean t" and op: "map_of (ops t) oid = Some Broadcasting"
  shows "clean (snd (broadcast_settled cfg ans now oid t))"
  using clean_op[OF c op]
  by (auto simp: broadcast_settled_def split: sum.splits
      intro!: clean_settle c clean_reconcile clean_persist clean_note)

lemma clean_confirm:
  assumes c: "clean t" and op: "map_of (ops t) oid = Some (Polling polls dup)"
  shows "clean (snd (confirm_settled cfg ans now polls dup oid t))"
proof -
  note o = clean_op[OF c op]
  then have n: "sr_result (heap t ! oid) = None" by (auto simp: result_ok_def)
  have swap: "end_op oid (stop_reconciling oid t') = stop_reconciling oid (end_op oid t')" for t'
    by (simp add: end_op_def stop_reconciling_def)
  have note_c: "clean (update_rec oid (\<lambda>r. r\<lparr>sr_lastError := e r\<rparr>) t)" for e
    using clean_note[OF c] o by blast
  have sl: "clean (set_op oid (Sleeping polls dup) (update_rec oid (\<lambda>r. r\<lparr>sr_lastError := e r\<rparr>) t))" for e
    by (rule clean_phase[OF c]) (use o in \<open>auto simp: result_ok_def\<close>)
  have fl: "clean (end_op oid (fail_rec cfg ReasonNotFound now oid
      (persist cfg (update_rec oid (\<lambda>r. r\<lparr>sr_lastError := e r\<rparr>) t))))" for e
    using clean_fail[OF clean_persist[OF note_c[of e]], where f = id and oid = oid] o n
    unfolding update_rec_id by simp
  have fd: "clean (end_op oid (fail_rec cfg ReasonFailed now oid
      (update_rec oid (sr_lastError_update (\<lambda>_. e)) t)))" for e
    by (rule clean_fail[OF c]) (use o n in simp_all)
  show ?thesis
    unfolding confirm_settled_def Let_def
    by (auto split: confirmation_state.splits simp: swap
        intro!: clean_settle c fd fl clean_persist note_c sl clean_end
        simp: persist_commutes(2))
qed

lemma alist_update_subset: "set (AList.update k v xs) \<subseteq> insert (k, v) (set xs)"
  by (induction xs) auto

lemma clean_set_record:
  assumes c: "clean t" and r: "result_ok r"
  shows "clean (set_record r t)"
proof -
  have "(heap t @ [r]) ! i = heap t ! i \<and> i < length (heap t @ [r])" if "i < length (heap t)" for i
    using that by (simp add: nth_append)
  then have "clean_core (heap t @ [r]) (ops t)"
    using c r unfolding clean_def clean_core_def by (auto simp: nth_append)
  moreover have "\<forall>(k, oid) \<in> set (records (set_record r t)). oid < length (heap (set_record r t))"
    using c alist_update_subset[of "sr_key r" "length (heap t)" "records t"]
    unfolding clean_def by fastforce
  ultimately show ?thesis using c by (simp add: clean_def)
qed

lemma clean_cong:
  "clean t \<Longrightarrow> heap t' = heap t \<Longrightarrow> records t' = records t \<Longrightarrow> ops t' = ops t \<Longrightarrow> disk t' = disk t \<Longrightarrow> clean t'"
  by (simp add: clean_def)

lemma clean_drop: "clean t \<Longrightarrow> clean (t\<lparr>records := AList.delete k (records t)\<rparr>)"
  by (auto simp: clean_def set_delete_alist)

lemma clean_start:
  assumes c: "clean t"
  shows "clean (snd (start_submission sha cfg a now t))"
proof (cases "assertOrderAvailable sha a t")
  case (Pair e t1)
  note fr = assertOrderAvailable_frame[OF Pair]
  have c1: "clean t1" by (rule clean_cong[OF c]) (use fr in simp_all)
  show ?thesis
    using Pair c1
    by (cases e) (auto simp: start_submission_def Let_def result_ok_def
        intro!: clean_phase clean_persist clean_set_record)
qed

lemma clean_submit:
  assumes c: "clean t"
  shows "clean (snd (submit sha cfg a now t))"
proof -
  let ?k = "computeSubmissionKey sha a"
  let ?t1 = "persist cfg (t\<lparr>records := AList.delete ?k (records t)\<rparr>)"
  have c1: "clean ?t1" using c by (intro clean_persist clean_drop)
  have "clean (snd (case assertOrderAvailable sha a ?t1 of
        (Some e, t2) \<Rightarrow> (Thrown e, t2) | (None, t2) \<Rightarrow> start_submission sha cfg a now t2))"
  proof (cases "assertOrderAvailable sha a ?t1")
    case (Pair e t2)
    have "clean t2"
      by (rule clean_cong[OF c1]) (use assertOrderAvailable_frame[OF Pair] in simp_all)
    then show ?thesis using Pair clean_start by (cases e) auto
  qed
  moreover have "oid < length (heap t)" if "map_of (records t) ?k = Some oid" for oid
    using c map_of_SomeD[OF that] by (auto simp: clean_def)
  ultimately show ?thesis
    using c by (auto simp: submit_def Let_def split: option.splits relay_status.splits
        intro!: clean_start clean_reconcile)
qed

lemma clean_boot:
  assumes "\<forall>e \<in> set (load_file c). entry_ok e"
  shows "clean (boot sha cfg c up w)"
proof -
  have e: "result_ok (restored_record sha e)" if "entry_ok e" for e
    using that by (cases "ps_status e")
      (auto simp: entry_ok_def result_ok_def restored_record_def normalizePersistedStatus_def Let_def
        split: prod.splits)
  have "clean (restore_entry sha e t)" if "clean t" "entry_ok e" for e t
    using clean_set_record[OF that(1) e[OF that(2)]] that(1)
    by (auto simp: restore_entry_def clean_def)
  then have f: "clean (fold (restore_entry sha) es t)" if "clean t" "\<forall>e \<in> set es. entry_ok e" for es t
    using that by (induction es arbitrary: t) auto
  have "clean \<lparr>heap = [], records = [], ops = [], reconciling = [], duplicatesSkipped = 0,
     inFlightSkipped = 0, orderBlocked = 0, restoredCount = 0, storeErrors = 0,
     disk = c, disk_up = up, wire = w\<rparr>" (is "clean ?t0")
    using assms by (simp add: clean_def clean_core_def)
  then show ?thesis
    using f[of ?t0 "load_file c"] assms unfolding boot_def restore_def by simp
qed

lemma clean_step:
  assumes c: "clean t" shows "clean (snd (relay_step sha cfg ev t))"
proof (cases ev)
  case Restart
  have "\<forall>e \<in> set (load_file (disk t)). entry_ok e" using c unfolding clean_def by blast
  from clean_boot[OF this] Restart show ?thesis by (simp add: relay_step_def)
next
  case (Timer oid now)
  show ?thesis
  proof (cases "map_of (ops t) oid")
    case (Some ph)
    then show ?thesis
      using Timer c clean_op[OF c Some] by (cases ph) (auto simp: relay_step_def intro!: clean_poll)
  qed (simp add: relay_step_def Timer c)
next
  case (Forget k f)
  then show ?thesis
    using c by (auto simp: relay_step_def forget_def split: option.splits
        intro!: clean_persist clean_drop)
qed (use c in \<open>auto simp: relay_step_def split: option.split relay_phase.split
      intro!: clean_submit clean_stager clean_broadcast clean_confirm\<close>)

lemma clean_run: "clean (relay_run sha cfg evs (fresh_tracker sha cfg))"
proof (induction evs rule: rev_induct)
  case Nil
  show ?case by (simp add: fresh_tracker_def clean_boot)
next
  case (snoc ev evs)
  then show ?case by (simp add: clean_step)
qed

section \<open>What recovery recovers\<close>

lemma recover_unknown:
  assumes "\<forall>r \<in> set rs. sr_result r = None"
  shows "fold (processRow sha cfg getTxStatus now) rs (rep, t) =
    (rep\<lparr>unknown_rows := unknown_rows rep @ map sr_key rs\<rparr>, t)"
  using assms
  by (induction rs arbitrary: rep) (simp_all add: processRow_def extractTxHash_def)

text \<open>In every state the tracker can reach, by any calls, answers, forgets and restarts, the rows
  the recovery service looks at have no stored result. It reports all of them as unknown, asks the
  RPC for none of them, and changes nothing.\<close>

theorem recovery_recovers_nothing:
  fixes sha cfg evs
  defines "t \<equiv> relay_run sha cfg evs (fresh_tracker sha cfg)"
  shows "recoverPendingRows sha cfg getTxStatus now t =
    (empty_report\<lparr>unknown_rows := map sr_key (filter (\<lambda>r. sr_status r = InFlight \<or> sr_status r = FailedTx)
       (list_records t))\<rparr>, t)"
proof -
  have "\<forall>r \<in> set (list_records t). result_ok r"
    using clean_run[of sha cfg evs] unfolding t_def[symmetric] clean_def clean_core_def
    by (auto simp: list_records_def)
  then have "\<forall>r \<in> set (filter (\<lambda>r. sr_status r = InFlight \<or> sr_status r = FailedTx) (list_records t)).
      sr_result r = None"
    by (auto simp: result_ok_def)
  from recover_unknown[OF this] show ?thesis
    by (simp add: recoverPendingRows_def empty_report_def)
qed

end
