(* ===== verification/Merkle_Tree.thy ===== *)
theory Merkle_Tree
  imports Sdk_Secrets
begin

text \<open>
  The Merkle tree of fill secrets (\<open>relayer/src/merkle-tree.ts\<close>): leaves, the tree built level by
  level, proofs, their verification and the checks on a partial fill. \<open>keccak\<close> is the digest of
  the library \<open>ethers\<close>, from bytes to the text \<open>0x..\<close>. Amounts, which the code keeps as decimal
  text, are non-negative integers; \<open>Math.random\<close> is the argument \<open>rnd\<close>.
\<close>

section \<open>Text and bytes\<close>

text \<open>\<open>s.replace('0x', '')\<close>: the first occurrence only.\<close>

fun replace_0x :: "string \<Rightarrow> string" where
  "replace_0x (a # b # cs) =
    (if a = CHR ''0'' \<and> b = CHR ''x'' then cs else a # replace_0x (b # cs))"
| "replace_0x s = s"

text \<open>\<open>Buffer.from(s, 'hex')\<close>: pairs of digits up to the first that is none.\<close>

fun hex_decode :: "string \<Rightarrow> bytes" where
  "hex_decode (a # b # cs) =
    (if is_hex a \<and> is_hex b then word_of_nat (16 * hex_val a + hex_val b) # hex_decode cs else [])"
| "hex_decode s = []"

definition raw :: "string \<Rightarrow> bytes" where
  "raw s = hex_decode (replace_0x s)"

definition combine :: "(bytes \<Rightarrow> string) \<Rightarrow> string \<Rightarrow> string \<Rightarrow> string" where
  "combine keccak l r = keccak (raw l @ raw r)"

text \<open>\<open>hashSecret\<close>, and \<open>hashLockForSingleFill\<close> of the utilities.\<close>

definition hashLockForSingleFill :: "(bytes \<Rightarrow> string) \<Rightarrow> string \<Rightarrow> string" where
  "hashLockForSingleFill keccak secret = keccak (raw secret)"

section \<open>Data\<close>

text \<open>A quotient of two numbers, whole or not; \<open>BigInt\<close> refuses the latter.\<close>

datatype js_number = Whole int | Fraction int int

definition js_div :: "int \<Rightarrow> int \<Rightarrow> js_number" where
  "js_div a b = (if b dvd a then Whole (a div b) else Fraction a b)"

fun BigInt_number :: "js_number \<Rightarrow> string + int" where
  "BigInt_number (Whole i) = Inr i"
| "BigInt_number (Fraction a b) = Inl ''RangeError''"

record fill_secret =
  fs_id :: string
  fs_index :: nat
  fs_secret :: string
  fs_hash :: string
  fs_fillPercentage :: js_number
  fs_createdAt :: int

record merkle_leaf =
  ml_index :: nat
  ml_secretHash :: string
  ml_fillAmount :: int
  ml_cumulativeAmount :: int
  ml_proof :: "string list"

datatype merkle_node =
  MerkleNode (mn_hash: string) (mn_left: "merkle_node option") (mn_right: "merkle_node option")
    (mn_data: "merkle_leaf option")

datatype fragment_status = FragPending | FragFilled | FragExpired

record order_fragment =
  of_orderId :: string
  of_fragmentIndex :: nat
  of_fillPercentage :: int
  of_secretHash :: string
  of_merkleProof :: "string list"
  of_status :: fragment_status

record partial_fill_config =
  pc_secretsCount :: nat
  pc_fragmentSize :: int

record merkle_manager =
  mm_config :: partial_fill_config
  mm_leaves :: "merkle_leaf list"
  mm_root :: "merkle_node option"
  mm_secrets :: "(string \<times> fill_secret) list"

definition new_manager :: "partial_fill_config \<Rightarrow> merkle_manager" where
  "new_manager config = \<lparr>mm_config = config, mm_leaves = [], mm_root = None, mm_secrets = []\<rparr>"

section \<open>Secrets and leaves\<close>

definition generateSecrets :: "(bytes \<Rightarrow> string) \<Rightarrow> (nat \<Rightarrow> string) \<Rightarrow> int \<Rightarrow> string \<Rightarrow> merkle_manager
    \<Rightarrow> fill_secret list \<times> merkle_manager" where
  "generateSecrets keccak rnd now orderId m =
    (let n = pc_secretsCount (mm_config m);
         secrets = map (\<lambda>i. \<lparr>fs_id = orderId @ ''_'' @ show_nat i, fs_index = i, fs_secret = rnd i,
             fs_hash = hashLockForSingleFill keccak (rnd i),
             fs_fillPercentage = js_div 100 (int n), fs_createdAt = now\<rparr>) [0..<n]
     in (secrets, m\<lparr>mm_secrets := fold (\<lambda>s. (#) (fs_hash s, s)) secrets (mm_secrets m)\<rparr>))"

text \<open>The first loop of \<open>createMerkleTree\<close>, from index \<open>i\<close> with the amount filled so far.\<close>

fun make_leaves :: "int \<Rightarrow> nat \<Rightarrow> int \<Rightarrow> fill_secret list \<Rightarrow> string + merkle_leaf list" where
  "make_leaves totalAmount i cumulative [] = Inr []"
| "make_leaves totalAmount i cumulative (s # ss) =
    (case BigInt_number (fs_fillPercentage s) of
       Inl e \<Rightarrow> Inl e
     | Inr p \<Rightarrow>
        (let amount = totalAmount * p div 100
         in case make_leaves totalAmount (i + 1) (cumulative + amount) ss of
              Inl e \<Rightarrow> Inl e
            | Inr ls \<Rightarrow> Inr (\<lparr>ml_index = i, ml_secretHash = fs_hash s, ml_fillAmount = amount,
                 ml_cumulativeAmount = cumulative + amount, ml_proof = []\<rparr> # ls)))"

section \<open>The tree\<close>

definition parent :: "(bytes \<Rightarrow> string) \<Rightarrow> merkle_node \<Rightarrow> merkle_node option \<Rightarrow> merkle_node" where
  "parent keccak l r =
    MerkleNode (combine keccak (mn_hash l) (mn_hash (case r of Some r' \<Rightarrow> r' | None \<Rightarrow> l)))
      (Some l) r None"

fun next_level :: "(bytes \<Rightarrow> string) \<Rightarrow> merkle_node list \<Rightarrow> merkle_node list" where
  "next_level keccak (a # b # rest) = parent keccak a (Some b) # next_level keccak rest"
| "next_level keccak [a] = [parent keccak a None]"
| "next_level keccak [] = []"

lemma length_next_level [simp]: "length (next_level keccak ns) = (length ns + 1) div 2"
  by (induction keccak ns rule: next_level.induct) auto

function build_levels :: "(bytes \<Rightarrow> string) \<Rightarrow> merkle_node list \<Rightarrow> merkle_node list" where
  "build_levels keccak ns = (if length ns > 1 then build_levels keccak (next_level keccak ns) else ns)"
  by pat_completeness auto
termination by (relation "measure (\<lambda>(k, ns). length ns)") auto

declare build_levels.simps [simp del]

definition buildTree :: "(bytes \<Rightarrow> string) \<Rightarrow> merkle_leaf list \<Rightarrow> merkle_node option" where
  "buildTree keccak leaves =
    (if leaves = [] then None
     else Some (hd (build_levels keccak
       (map (\<lambda>l. MerkleNode (ml_secretHash l) None None (Some l)) leaves))))"

text \<open>
  \<open>generateProof\<close> returns what it pushes. It is called with \<open>start \<le> end\<close> only, which the halving
  keeps.
\<close>

function generateProof :: "merkle_node \<Rightarrow> nat \<Rightarrow> nat \<Rightarrow> nat \<Rightarrow> string list" where
  "generateProof node leafIndex s e =
    (if e \<le> s then []
     else let mid = (s + e) div 2
       in if leafIndex \<le> mid then
            (case mn_right node of Some r \<Rightarrow> [mn_hash r] | None \<Rightarrow> [])
            @ (case mn_left node of Some l \<Rightarrow> generateProof l leafIndex s mid | None \<Rightarrow> [])
          else
            (case mn_left node of Some l \<Rightarrow> [mn_hash l] | None \<Rightarrow> [])
            @ (case mn_right node of Some r \<Rightarrow> generateProof r leafIndex (mid + 1) e | None \<Rightarrow> []))"
  by pat_completeness auto
termination by (relation "measure (\<lambda>(n, i, s, e). e - s)") auto

declare generateProof.simps [simp del]

definition getProof :: "merkle_manager \<Rightarrow> nat \<Rightarrow> string list" where
  "getProof m leafIndex =
    (case mm_root m of
       None \<Rightarrow> []
     | Some root \<Rightarrow>
         if leafIndex \<ge> length (mm_leaves m) then []
         else generateProof root leafIndex 0 (length (mm_leaves m) - 1))"

definition createMerkleTree :: "(bytes \<Rightarrow> string) \<Rightarrow> fill_secret list \<Rightarrow> int \<Rightarrow> merkle_manager
    \<Rightarrow> string + (string \<times> merkle_manager)" where
  "createMerkleTree keccak secrets totalAmount m =
    (case make_leaves totalAmount 0 0 secrets of
       Inl e \<Rightarrow> Inl e
     | Inr leaves \<Rightarrow>
        (let m1 = m\<lparr>mm_leaves := leaves, mm_root := buildTree keccak leaves\<rparr>;
             m2 = m1\<lparr>mm_leaves := map (\<lambda>l. l\<lparr>ml_proof := getProof m1 (ml_index l)\<rparr>) leaves\<rparr>
         in Inr (case mm_root m2 of Some r \<Rightarrow> mn_hash r | None \<Rightarrow> [], m2)))"

definition computeProofHash :: "(bytes \<Rightarrow> string) \<Rightarrow> merkle_leaf \<Rightarrow> string list \<Rightarrow> string" where
  "computeProofHash keccak leaf mprf = foldl (combine keccak) (ml_secretHash leaf) mprf"

definition leaf_at :: "merkle_manager \<Rightarrow> nat \<Rightarrow> merkle_leaf option" where
  "leaf_at m i = (if i < length (mm_leaves m) then Some (mm_leaves m ! i) else None)"

definition verifyProof :: "(bytes \<Rightarrow> string) \<Rightarrow> merkle_manager \<Rightarrow> nat \<Rightarrow> string \<Rightarrow> string list \<Rightarrow> string
    \<Rightarrow> bool" where
  "verifyProof keccak m leafIndex secretHash mprf merkleRoot =
    (case leaf_at m leafIndex of
       None \<Rightarrow> False
     | Some leaf \<Rightarrow> ml_secretHash leaf = secretHash
         \<and> computeProofHash keccak leaf mprf = merkleRoot)"

section \<open>Progressive fills\<close>

text \<open>\<open>Math.floor(current / fragmentSize)\<close> for a positive fragment size.\<close>

definition fill_index :: "merkle_manager \<Rightarrow> int \<Rightarrow> nat" where
  "fill_index m current = nat (current div pc_fragmentSize (mm_config m))"

record fill_requirements =
  nextSecretIndex :: nat
  requiredSecrets :: "string list"
  availableAmount :: int

definition getProgressiveFillRequirements :: "merkle_manager \<Rightarrow> int \<Rightarrow> fill_requirements" where
  "getProgressiveFillRequirements m current =
    (let n = fill_index m current
     in \<lparr>nextSecretIndex = n,
         requiredSecrets = concat (map (\<lambda>l. case map_of (mm_secrets m) (ml_secretHash l) of
             Some s \<Rightarrow> [fs_hash s] | None \<Rightarrow> []) (take (n + 1) (mm_leaves m))),
         availableAmount = (case leaf_at m n of Some l \<Rightarrow> ml_cumulativeAmount l | None \<Rightarrow> 0)\<rparr>)"

definition validatePartialFill :: "merkle_manager \<Rightarrow> nat \<Rightarrow> string \<Rightarrow> int \<Rightarrow> int
    \<Rightarrow> string + string option" where
  "validatePartialFill m fragmentIndex secretHash fillAmount currentFilled =
    (case leaf_at m fragmentIndex of
       None \<Rightarrow> Inl ''Invalid fragment index''
     | Some leaf \<Rightarrow>
         if ml_secretHash leaf \<noteq> secretHash then Inl ''Invalid secret hash''
         else if currentFilled + fillAmount > ml_cumulativeAmount leaf
         then Inl ''Fill amount exceeds fragment limit''
         else if fragmentIndex > 0 \<and>
           currentFilled < ml_cumulativeAmount (mm_leaves m ! (fragmentIndex - 1))
         then Inl ''Must fill fragments progressively''
         else Inr (map_option ml_secretHash (leaf_at m (fragmentIndex + 1))))"

record revelation =
  readySecrets :: "fill_secret list"
  pendingSecrets :: "fill_secret list"
  nextThreshold :: int

definition getSecretsReadyForRevelation :: "merkle_manager \<Rightarrow> int \<Rightarrow> revelation" where
  "getSecretsReadyForRevelation m current =
    (let n = fill_index m current;
         known = concat (map (\<lambda>(i, l). case map_of (mm_secrets m) (ml_secretHash l) of
             Some s \<Rightarrow> [(i, s)] | None \<Rightarrow> []) (enumerate 0 (mm_leaves m)))
     in \<lparr>readySecrets = map snd (filter (\<lambda>(i, s). i \<le> n) known),
         pendingSecrets = map snd (filter (\<lambda>(i, s). \<not> i \<le> n) known),
         nextThreshold = (int n + 1) * pc_fragmentSize (mm_config m)\<rparr>)"

definition generateOrderFragments :: "merkle_manager \<Rightarrow> string \<Rightarrow> order_fragment list" where
  "generateOrderFragments m orderId =
    map (\<lambda>(i, l). \<lparr>of_orderId = orderId, of_fragmentIndex = i,
        of_fillPercentage = pc_fragmentSize (mm_config m), of_secretHash = ml_secretHash l,
        of_merkleProof = ml_proof l, of_status = FragPending\<rparr>) (enumerate 0 (mm_leaves m))"

section \<open>The utilities\<close>

fun next_hashes :: "(bytes \<Rightarrow> string) \<Rightarrow> string list \<Rightarrow> string list" where
  "next_hashes keccak (a # b # rest) = combine keccak a b # next_hashes keccak rest"
| "next_hashes keccak [a] = [combine keccak a a]"
| "next_hashes keccak [] = []"

lemma length_next_hashes [simp]: "length (next_hashes keccak hs) = (length hs + 1) div 2"
  by (induction keccak hs rule: next_hashes.induct) auto

function hash_levels :: "(bytes \<Rightarrow> string) \<Rightarrow> string list \<Rightarrow> string list" where
  "hash_levels keccak hs = (if length hs > 1 then hash_levels keccak (next_hashes keccak hs) else hs)"
  by pat_completeness auto
termination by (relation "measure (\<lambda>(k, hs). length hs)") auto

declare hash_levels.simps [simp del]

definition hashLockForMultipleFills :: "(bytes \<Rightarrow> string) \<Rightarrow> string list \<Rightarrow> string" where
  "hashLockForMultipleFills keccak leaves =
    (if leaves = [] then ''0x'' else hd (hash_levels keccak leaves))"

definition createLeavesFromSecrets :: "(bytes \<Rightarrow> string) \<Rightarrow> string list \<Rightarrow> string list" where
  "createLeavesFromSecrets keccak secrets =
    map (\<lambda>(i, s). combine keccak
        (keccak (map (\<lambda>c. word_of_nat (of_char c)) (show_nat i))) (hashLockForSingleFill keccak s))
      (enumerate 0 secrets)"

section \<open>The tree and the utilities agree\<close>

lemma mn_hash_parent [simp]:
  "mn_hash (parent keccak a (Some b)) = combine keccak (mn_hash a) (mn_hash b)"
  "mn_hash (parent keccak a None) = combine keccak (mn_hash a) (mn_hash a)"
  by (simp_all add: parent_def)

lemma map_hash_next_level:
  "map mn_hash (next_level keccak ns) = next_hashes keccak (map mn_hash ns)"
  by (induction keccak ns rule: next_level.induct) auto

lemma map_hash_build_levels:
  "map mn_hash (build_levels keccak ns) = hash_levels keccak (map mn_hash ns)"
proof (induction keccak ns rule: build_levels.induct)
  case (1 keccak ns)
  then show ?case
    by (subst build_levels.simps, subst hash_levels.simps) (simp add: map_hash_next_level)
qed

lemma next_hashes_Nil [simp]: "next_hashes keccak hs = [] \<longleftrightarrow> hs = []"
  by (cases "(keccak, hs)" rule: next_hashes.cases) auto

lemma length_hash_levels: "hs \<noteq> [] \<Longrightarrow> length (hash_levels keccak hs) = 1"
proof (induction keccak hs rule: hash_levels.induct)
  case (1 keccak hs)
  show ?case
  proof (cases "length hs > 1")
    case True
    with 1 show ?thesis by (subst hash_levels.simps) simp
  next
    case False
    with 1(2) show ?thesis by (subst hash_levels.simps) (cases hs, auto)
  qed
qed

lemma buildTree_root:
  assumes "leaves \<noteq> []"
  shows "map_option mn_hash (buildTree keccak leaves) =
     Some (hashLockForMultipleFills keccak (map ml_secretHash leaves))"
proof -
  let ?ns = "map (\<lambda>l. MerkleNode (ml_secretHash l) None None (Some l)) leaves"
  have m: "map mn_hash ?ns = map ml_secretHash leaves" by simp
  have b: "map mn_hash (build_levels keccak ?ns) = hash_levels keccak (map ml_secretHash leaves)"
    unfolding map_hash_build_levels m ..
  have "length (map mn_hash (build_levels keccak ?ns)) = 1"
    unfolding b using assms by (intro length_hash_levels) simp
  then have "length (build_levels keccak ?ns) = 1" unfolding length_map .
  then obtain n where n: "build_levels keccak ?ns = [n]" by (auto simp: length_Suc_conv)
  then have "hash_levels keccak (map ml_secretHash leaves) = [mn_hash n]" using b by simp
  then show ?thesis using assms n by (simp add: buildTree_def hashLockForMultipleFills_def)
qed

section \<open>Binding\<close>

text \<open>The text of a 32-byte digest, as \<open>keccak256\<close> of \<open>ethers\<close> returns it.\<close>

definition digest_text :: "string \<Rightarrow> bool" where
  "digest_text h \<longleftrightarrow> length h = 66 \<and> h = uint8ToHex (raw h)"

lemma hex_decode_bytes: "hex_decode (concat (map byte_hex bs)) = bs"
proof (induction bs)
  case (Cons b bs)
  have "unat b div 16 < 16" "unat b mod 16 < 16" using unat_byte[of b] by auto
  then have "16 * hex_val (hex_digit (unat b div 16)) + hex_val (hex_digit (unat b mod 16)) = unat b"
    "is_hex (hex_digit (unat b div 16))" "is_hex (hex_digit (unat b mod 16))"
    by simp_all
  with Cons show ?case by (simp add: byte_hex_def)
qed simp

lemma raw_uint8ToHex [simp]: "raw (uint8ToHex bs) = bs"
  by (simp add: raw_def uint8ToHex_def hex_decode_bytes)

lemma length_uint8ToHex: "length (uint8ToHex bs) = 2 + 2 * length bs"
  by (induction bs) (simp_all add: uint8ToHex_def byte_hex_def)

lemma digest_text_raw:
  assumes "digest_text h" shows "length (raw h) = 32"
  using assms length_uint8ToHex[of "raw h"] by (simp add: digest_text_def)

lemma digest_text_inj: "digest_text h \<Longrightarrow> digest_text h' \<Longrightarrow> raw h = raw h' \<Longrightarrow> h = h'"
  by (metis digest_text_def)

text \<open>The byte strings that are hashed when a level, and when a whole tree, is built.\<close>

fun pair_inputs :: "string list \<Rightarrow> bytes list" where
  "pair_inputs (a # b # rest) = (raw a @ raw b) # pair_inputs rest"
| "pair_inputs [a] = [raw a @ raw a]"
| "pair_inputs [] = []"

function tree_inputs :: "(bytes \<Rightarrow> string) \<Rightarrow> string list \<Rightarrow> bytes list" where
  "tree_inputs keccak hs =
    (if length hs > 1 then pair_inputs hs @ tree_inputs keccak (next_hashes keccak hs) else [])"
  by pat_completeness auto
termination by (relation "measure (\<lambda>(k, hs). length hs)") auto

declare tree_inputs.simps [simp del]

lemma next_hashes_inputs: "next_hashes keccak hs = map keccak (pair_inputs hs)"
  by (induction keccak hs rule: next_hashes.induct) (auto simp: combine_def)

lemma pair_inputs_inj:
  "pair_inputs xs = pair_inputs ys \<Longrightarrow> length xs = length ys \<Longrightarrow> list_all digest_text xs \<Longrightarrow>
   list_all digest_text ys \<Longrightarrow> xs = ys"
proof (induction xs arbitrary: ys rule: pair_inputs.induct)
  case (1 a b rest)
  then obtain a' b' rest' where ys: "ys = a' # b' # rest'"
    by (cases ys rule: pair_inputs.cases) auto
  have "raw a = raw a' \<and> raw b = raw b'"
    using 1(2,4,5) ys digest_text_raw by (auto simp: append_eq_append_conv)
  then show ?case using 1 ys digest_text_inj by auto
next
  case (2 a)
  then obtain a' where ys: "ys = [a']" by (cases ys rule: pair_inputs.cases) auto
  have "raw a = raw a'" using 2(1,3,4) ys digest_text_raw by (auto simp: append_eq_append_conv)
  then show ?case using 2 ys digest_text_inj by auto
qed auto

definition collision :: "(bytes \<Rightarrow> string) \<Rightarrow> bytes list \<Rightarrow> bytes list \<Rightarrow> bool" where
  "collision keccak as bs \<longleftrightarrow> (\<exists>(a, b) \<in> set (zip as bs). a \<noteq> b \<and> keccak a = keccak b)"

lemma map_eq_collision:
  "length as = length bs \<Longrightarrow> map keccak as = map keccak bs \<Longrightarrow> as = bs \<or> collision keccak as bs"
  by (induction as bs rule: list_induct2) (auto simp: collision_def)

lemma collision_append:
  "length as = length bs \<Longrightarrow>
   collision keccak (as @ as') (bs @ bs') = (collision keccak as bs \<or> collision keccak as' bs')"
  by (auto simp: collision_def)

lemma length_pair_inputs [simp]: "length (pair_inputs hs) = (length hs + 1) div 2"
  using length_next_hashes[of undefined hs] by (simp only: next_hashes_inputs length_map)

lemma hash_levels_binding:
  assumes k: "\<And>bs. digest_text (keccak bs)"
  shows "hash_levels keccak xs = hash_levels keccak ys \<Longrightarrow> length xs = length ys \<Longrightarrow>
    list_all digest_text xs \<Longrightarrow> list_all digest_text ys \<Longrightarrow>
    xs = ys \<or> collision keccak (tree_inputs keccak xs) (tree_inputs keccak ys)"
proof (induction "length xs" arbitrary: xs ys rule: less_induct)
  case less
  show ?case
  proof (cases "length xs > 1")
    case False
    then show ?thesis using less(2,3) by (simp add: hash_levels.simps[of keccak])
  next
    case True
    let ?xs = "next_hashes keccak xs" and ?ys = "next_hashes keccak ys"
    have d: "list_all digest_text (next_hashes keccak hs)" for hs
      using k by (simp add: next_hashes_inputs list_all_iff)
    have e: "hash_levels keccak ?xs = hash_levels keccak ?ys"
      using less(2,3) True by (simp add: hash_levels.simps[of keccak xs] hash_levels.simps[of keccak ys])
    have t: "tree_inputs keccak xs = pair_inputs xs @ tree_inputs keccak ?xs"
      "tree_inputs keccak ys = pair_inputs ys @ tree_inputs keccak ?ys"
      using True less(3) by (simp_all add: tree_inputs.simps[of keccak xs] tree_inputs.simps[of keccak ys])
    from less(1)[of ?xs ?ys] True less(3) e d
    have "?xs = ?ys \<or> collision keccak (tree_inputs keccak ?xs) (tree_inputs keccak ?ys)" by simp
    moreover have "xs = ys \<or> collision keccak (pair_inputs xs) (pair_inputs ys)" if "?xs = ?ys"
      using map_eq_collision[of "pair_inputs xs" "pair_inputs ys" keccak] that less(3-5) pair_inputs_inj
      by (auto simp: next_hashes_inputs)
    ultimately show ?thesis using less(3) by (auto simp: t collision_append)
  qed
qed

section \<open>Properties of the tree\<close>

text \<open>C26: The tree of the manager has the root of the reference routine over its leaf hashes, and the
  root binds the leaves: two trees over the same number of well-formed hashes with one root have
  the same leaves, or two byte strings hashed at the same place of the two trees collide.\<close>

theorem merkle_root_binds_leaves:
  assumes "\<And>bs. digest_text (keccak bs)"
    and "ls \<noteq> []" "length ls = length ls'"
    and "list_all (\<lambda>l. digest_text (ml_secretHash l)) ls" "list_all (\<lambda>l. digest_text (ml_secretHash l)) ls'"
    and "map_option mn_hash (buildTree keccak ls) = map_option mn_hash (buildTree keccak ls')"
  shows "map_option mn_hash (buildTree keccak ls) =
      Some (hashLockForMultipleFills keccak (map ml_secretHash ls))
    \<and> (map ml_secretHash ls = map ml_secretHash ls'
       \<or> collision keccak (tree_inputs keccak (map ml_secretHash ls))
           (tree_inputs keccak (map ml_secretHash ls')))"
proof
  let ?xs = "map ml_secretHash ls" and ?ys = "map ml_secretHash ls'"
  have ne: "ls' \<noteq> []" using assms(2,3) by auto
  show root: "map_option mn_hash (buildTree keccak ls) = Some (hashLockForMultipleFills keccak ?xs)"
    by (rule buildTree_root[OF assms(2)])
  have "hd (hash_levels keccak ?xs) = hd (hash_levels keccak ?ys)"
    using assms(6) root buildTree_root[OF ne, of keccak] assms(2) ne
    by (simp add: hashLockForMultipleFills_def)
  then have "hash_levels keccak ?xs = hash_levels keccak ?ys"
    using length_hash_levels[of ?xs keccak] length_hash_levels[of ?ys keccak] assms(2) ne
    by (auto simp: length_Suc_conv)
  from hash_levels_binding[OF assms(1) this] assms(3-5)
  show "?xs = ?ys \<or> collision keccak (tree_inputs keccak ?xs) (tree_inputs keccak ?ys)"
    by (simp add: list_all_iff)
qed

text \<open>A digest for examples: the 32-byte text of the last bytes of its argument.\<close>

definition toy_keccak :: "bytes \<Rightarrow> string" where
  "toy_keccak bs = uint8ToHex (take 32 (rev bs @ replicate 32 0))"

lemma toy_keccak_text: "digest_text (toy_keccak bs)"
proof -
  have "length (uint8ToHex (take 32 (rev bs @ replicate 32 0))) = 66"
    by (simp add: length_uint8ToHex)
  then show ?thesis by (simp add: digest_text_def toy_keccak_def)
qed

definition toy_leaf :: "nat \<Rightarrow> merkle_leaf" where
  "toy_leaf i = \<lparr>ml_index = i, ml_secretHash = toy_keccak [word_of_nat i], ml_fillAmount = 1,
     ml_cumulativeAmount = int i + 1, ml_proof = []\<rparr>"

lemma merkle_root_binds_leaves_witness:
  "map_option mn_hash (buildTree toy_keccak (map toy_leaf [0, 1, 2])) =
     Some (hashLockForMultipleFills toy_keccak (map ml_secretHash (map toy_leaf [0, 1, 2])))"
proof -
  have "list_all (\<lambda>l. digest_text (ml_secretHash l)) (map toy_leaf [0, 1, 2])"
    by (simp add: toy_leaf_def toy_keccak_text)
  then show ?thesis
    using merkle_root_binds_leaves[of toy_keccak "map toy_leaf [0, 1, 2]" "map toy_leaf [0, 1, 2]"]
      toy_keccak_text by simp
qed

text \<open>
  A lone last node is paired with itself, so the number of leaves is not bound by the root: a tree
  with an odd level has the root of the tree whose last leaf is repeated.
\<close>

lemma next_hashes_repeat_last:
  "odd (length (hs @ [h])) \<Longrightarrow> next_hashes keccak (hs @ [h]) = next_hashes keccak (hs @ [h, h])"
  by (induction keccak hs rule: next_hashes.induct) auto

lemma repeated_leaf_same_root:
  assumes "odd (length (hs @ [h]))" "hs \<noteq> []"
  shows "hashLockForMultipleFills keccak (hs @ [h]) = hashLockForMultipleFills keccak (hs @ [h, h])"
  using assms next_hashes_repeat_last[OF assms(1), of keccak]
  by (simp add: hashLockForMultipleFills_def hash_levels.simps[of keccak "hs @ [h]"]
      hash_levels.simps[of keccak "hs @ [h, h]"])

lemma buildTree_two:
  "buildTree keccak [l0, l1] = Some (MerkleNode (combine keccak (ml_secretHash l0) (ml_secretHash l1))
     (Some (MerkleNode (ml_secretHash l0) None None (Some l0)))
     (Some (MerkleNode (ml_secretHash l1) None None (Some l1))) None)"
  by (simp add: buildTree_def build_levels.simps[of keccak "[a, b]" for a b]
      build_levels.simps[of keccak "[a]" for a] parent_def)

lemma generateProof_end [simp]: "e \<le> s \<Longrightarrow> generateProof n i s e = []"
  by (subst generateProof.simps) simp

lemma generateProof_two:
  "generateProof (MerkleNode h (Some a) (Some b) d) 0 0 (Suc 0) = [mn_hash b]"
  "generateProof (MerkleNode h (Some a) (Some b) d) (Suc 0) 0 (Suc 0) = [mn_hash a]"
  by (subst generateProof.simps, simp)+

text \<open>In a tree of two fills the manager accepts its own proof of the first fill, but its own
  proof of the second fill only if hashing the two leaves in the two orders gives the same digest:
  \<open>computeProofHash\<close> always puts the running hash on the left. So the second half of an order
  cannot be filled unless the hash function collides.\<close>

theorem second_fill_proof_rejected:
  assumes "createMerkleTree keccak [s0, s1] amount m = Inr (root, m')"
  shows "verifyProof keccak m' 0 (fs_hash s0) (getProof m' 0) root \<and>
    (verifyProof keccak m' 1 (fs_hash s1) (getProof m' 1) root \<longleftrightarrow>
      keccak (raw (fs_hash s1) @ raw (fs_hash s0)) = keccak (raw (fs_hash s0) @ raw (fs_hash s1)))"
proof -
  obtain p0 p1 where "BigInt_number (fs_fillPercentage s0) = Inr p0"
      "BigInt_number (fs_fillPercentage s1) = Inr p1"
    using assms by (auto simp: createMerkleTree_def Let_def split: sum.splits)
  then obtain l0 l1 where l: "mm_leaves m' = [l0, l1]" "ml_secretHash l0 = fs_hash s0"
      "ml_secretHash l1 = fs_hash s1" "root = combine keccak (fs_hash s0) (fs_hash s1)"
      "getProof m' 0 = [fs_hash s1]" "getProof m' (Suc 0) = [fs_hash s0]"
    using assms
    by (auto simp: createMerkleTree_def Let_def buildTree_two getProof_def generateProof_two)
  then show ?thesis
    by (auto simp: verifyProof_def leaf_at_def computeProofHash_def combine_def)
qed

definition toy_secret :: "nat \<Rightarrow> fill_secret" where
  "toy_secret i = \<lparr>fs_id = ''o1'', fs_index = i, fs_secret = ''0x01'',
     fs_hash = toy_keccak [word_of_nat i], fs_fillPercentage = js_div 100 2, fs_createdAt = 0\<rparr>"

lemma second_fill_proof_rejected_witness:
  "\<exists>root m'. createMerkleTree toy_keccak [toy_secret 1, toy_secret 2] 100
      (new_manager \<lparr>pc_secretsCount = 2, pc_fragmentSize = 50\<rparr>) = Inr (root, m')
    \<and> verifyProof toy_keccak m' 0 (fs_hash (toy_secret 1)) (getProof m' 0) root
    \<and> \<not> verifyProof toy_keccak m' 1 (fs_hash (toy_secret 2)) (getProof m' 1) root"
proof -
  have "case createMerkleTree toy_keccak [toy_secret 1, toy_secret 2] 100
      (new_manager \<lparr>pc_secretsCount = 2, pc_fragmentSize = 50\<rparr>) of Inr _ \<Rightarrow> True | Inl _ \<Rightarrow> False"
    by code_simp
  then obtain root m' where t: "createMerkleTree toy_keccak [toy_secret 1, toy_secret 2] 100
      (new_manager \<lparr>pc_secretsCount = 2, pc_fragmentSize = 50\<rparr>) = Inr (root, m')"
    by (auto split: sum.splits)
  have "toy_keccak (raw (fs_hash (toy_secret 2)) @ raw (fs_hash (toy_secret 1))) \<noteq>
      toy_keccak (raw (fs_hash (toy_secret 1)) @ raw (fs_hash (toy_secret 2)))"
    by (simp add: toy_secret_def toy_keccak_def inj_eq[OF uint8ToHex_inj] numeral_eq_Suc)
  then show ?thesis using t second_fill_proof_rejected[OF t] by blast
qed

text \<open>An order whose number of secrets does not divide 100 gets no tree: the percentage of a
  fragment is then no whole number and the conversion to BigInt throws.\<close>

lemma uneven_secrets_throw:
  assumes "pc_secretsCount (mm_config m) > 0" "\<not> int (pc_secretsCount (mm_config m)) dvd 100"
  shows "createMerkleTree keccak (fst (generateSecrets keccak rnd now orderId m)) totalAmount
    (snd (generateSecrets keccak rnd now orderId m)) = Inl ''RangeError''"
proof -
  have "[0..<pc_secretsCount (mm_config m)] = 0 # [1..<pc_secretsCount (mm_config m)]"
    using assms(1) by (subst upt_rec) simp
  then show ?thesis
    using assms(2) by (simp add: createMerkleTree_def generateSecrets_def Let_def js_div_def)
qed

end
