(* ===== verification/Partial_Fills.thy ===== *)
theory Partial_Fills
  imports Merkle_Tree "HOL-Library.AList"
begin

text \<open>
  The manager of partially filled orders (\<open>relayer/src/partial-fills.ts\<close>): initialisation,
  validation and execution of a fill, progress, recommendation and completion.

  Amounts, which the code keeps as decimal text, are integers. The three maps are association
  lists by order id. \<open>Date.now\<close> is the argument \<open>now\<close>; the estimated completion time, the
  confidence and the random competitor count, which only inform a user, and the emitted events are
  left out. An exception is its message.
\<close>

section \<open>Data\<close>

record fill_time_locks =
  srcWithdrawal :: int
  dstWithdrawal :: int
  srcCancellation :: int
  dstCancellation :: int

datatype fill_order_status = OrderActive | OrderCompleted | OrderCancelled | OrderExpired

record partial_fill_order =
  po_orderId :: string
  po_maker :: string
  po_makerAsset :: string
  po_takerAsset :: string
  po_makingAmount :: int
  po_takingAmount :: int
  po_srcChainId :: int
  po_dstChainId :: int
  po_merkleRoot :: string
  po_allowPartialFills :: bool
  po_allowMultipleFills :: bool
  po_auctionStartTime :: int
  po_auctionEndTime :: int
  po_timeLocks :: fill_time_locks
  po_status :: fill_order_status
  po_createdAt :: int
  po_updatedAt :: int

datatype execution_status = ExecPending | ExecExecuted | ExecFailed | ExecCancelled

record fill_execution =
  fe_fillId :: string
  fe_orderId :: string
  fe_fragmentIndex :: nat
  fe_resolver :: string
  fe_fillAmount :: int
  fe_auctionPrice :: int
  fe_gasCost :: int
  fe_secretHash :: string
  fe_merkleProof :: "string list"
  fe_status :: execution_status
  fe_executedAt :: int

record fill_progress =
  fp_totalAmount :: int
  fp_filledAmount :: int
  fp_remainingAmount :: int
  fp_fillPercentage :: int
  fp_fragmentsFilled :: nat
  fp_totalFragments :: nat
  fp_nextSecretIndex :: nat
  fp_averageGasPrice :: int
  fp_totalGasCost :: int

record fill_validation =
  fv_priceImpact :: int
  fv_nextAvailableFragment :: nat

record fill_recommendation =
  fr_fragmentIndex :: nat
  fr_recommendedFillAmount :: int
  fr_expectedProfit :: int
  fr_priceImpact :: int
  fr_timeToExpiry :: int

record fill_manager =
  fm_orders :: "(string \<times> partial_fill_order) list"
  fm_executions :: "(string \<times> fill_execution list) list"
  fm_merkle :: "(string \<times> merkle_manager) list"

definition empty_manager :: fill_manager where
  "empty_manager = \<lparr>fm_orders = [], fm_executions = [], fm_merkle = []\<rparr>"

section \<open>Operations\<close>

definition DEFAULT_GAS :: int where
  "DEFAULT_GAS = 100000000000000000"

definition initializePartialFillOrder :: "(bytes \<Rightarrow> string) \<Rightarrow> (nat \<Rightarrow> string) \<Rightarrow> int
    \<Rightarrow> partial_fill_order \<Rightarrow> partial_fill_config \<Rightarrow> fill_manager
    \<Rightarrow> (string + order_fragment list \<times> fill_secret list \<times> string) \<times> fill_manager" where
  "initializePartialFillOrder keccak rnd now orderData config st =
    (let orderId = po_orderId orderData;
         (secrets, m) = generateSecrets keccak rnd now orderId (new_manager config)
     in case createMerkleTree keccak secrets (po_makingAmount orderData) m of
          Inl e \<Rightarrow> (Inl e, st)
        | Inr (root, m') \<Rightarrow>
           (let order = orderData\<lparr>po_merkleRoot := root, po_status := OrderActive,
                  po_createdAt := now, po_updatedAt := now\<rparr>
            in (Inr (generateOrderFragments m' orderId, secrets, root),
                st\<lparr>fm_orders := AList.update orderId order (fm_orders st),
                   fm_merkle := AList.update orderId m' (fm_merkle st),
                   fm_executions := AList.update orderId [] (fm_executions st)\<rparr>)))"

definition executions_of :: "fill_manager \<Rightarrow> string \<Rightarrow> fill_execution list" where
  "executions_of st orderId = (case map_of (fm_executions st) orderId of Some es \<Rightarrow> es | None \<Rightarrow> [])"

definition executed :: "fill_execution list \<Rightarrow> fill_execution list" where
  "executed es = filter (\<lambda>e. fe_status e = ExecExecuted) es"

definition filled_amount :: "fill_execution list \<Rightarrow> int" where
  "filled_amount es = sum_list (map fe_fillAmount (executed es))"

definition calculatePriceImpact :: "int \<Rightarrow> int \<Rightarrow> int" where
  "calculatePriceImpact fillAmount totalAmount =
    (if totalAmount = 0 then 0 else fillAmount * 100 div totalAmount)"

definition validateFill :: "(bytes \<Rightarrow> string) \<Rightarrow> int \<Rightarrow> fill_manager \<Rightarrow> string \<Rightarrow> nat \<Rightarrow> int \<Rightarrow> string
    \<Rightarrow> string list \<Rightarrow> string + fill_validation" where
  "validateFill keccak now st orderId fragmentIndex fillAmount secretHash mprf =
    (case (map_of (fm_orders st) orderId, map_of (fm_merkle st) orderId) of
       (Some order, Some m) \<Rightarrow>
         if po_status order \<noteq> OrderActive then Inl ''Order not active''
         else if now < po_auctionStartTime order then Inl ''Auction not started''
         else if now > po_auctionEndTime order then Inl ''Auction expired''
         else if \<not> po_allowPartialFills order \<and> fillAmount \<noteq> po_makingAmount order
         then Inl ''Partial fills not allowed''
         else if \<not> verifyProof keccak m fragmentIndex secretHash mprf (po_merkleRoot order)
         then Inl ''Invalid merkle proof''
         else if list_ex (\<lambda>e. fe_fragmentIndex e = fragmentIndex \<and> fe_status e = ExecExecuted)
             (executions_of st orderId)
         then Inl ''Fragment already filled''
         else if fillAmount > po_makingAmount order - filled_amount (executions_of st orderId)
         then Inl ''Fill amount exceeds remaining amount''
         else Inr \<lparr>fv_priceImpact = calculatePriceImpact fillAmount (po_makingAmount order),
                   fv_nextAvailableFragment = fragmentIndex + 1\<rparr>
     | _ \<Rightarrow> Inl ''Order not found'')"

definition calculateFillProgress :: "fill_manager \<Rightarrow> string \<Rightarrow> string + fill_progress" where
  "calculateFillProgress st orderId =
    (case (map_of (fm_orders st) orderId, map_of (fm_merkle st) orderId) of
       (Some order, Some m) \<Rightarrow>
        (let es = executions_of st orderId;
             totalAmount = po_makingAmount order;
             filled = filled_amount es;
             gas = sum_list (map fe_gasCost es)
         in if totalAmount = 0 then Inl ''Division by zero''
            else let percentage = filled * 100 div totalAmount
              in Inr \<lparr>fp_totalAmount = totalAmount, fp_filledAmount = filled,
                   fp_remainingAmount = totalAmount - filled, fp_fillPercentage = percentage,
                   fp_fragmentsFilled = length (executed es),
                   fp_totalFragments = length (generateOrderFragments m orderId),
                   fp_nextSecretIndex = nextSecretIndex (getProgressiveFillRequirements m percentage),
                   fp_averageGasPrice = (if es \<noteq> [] then gas div int (length es) else 0),
                   fp_totalGasCost = gas\<rparr>)
     | _ \<Rightarrow> Inl ''Order not found'')"

text \<open>The loop that looks for the first fragment that is not filled; \<open>fuel\<close> bounds its rounds.\<close>

fun first_free :: "nat \<Rightarrow> nat set \<Rightarrow> nat \<Rightarrow> nat" where
  "first_free 0 filled n = n"
| "first_free (Suc fuel) filled n = (if n \<in> filled then first_free fuel filled (n + 1) else n)"

definition generateFillRecommendation :: "int \<Rightarrow> fill_manager \<Rightarrow> string \<Rightarrow> fill_progress
    \<Rightarrow> string + fill_recommendation option" where
  "generateFillRecommendation now st orderId p =
    (case (map_of (fm_orders st) orderId, map_of (fm_merkle st) orderId) of
       (Some order, Some m) \<Rightarrow>
        (if fp_fillPercentage p \<ge> 100 then Inr None
         else let done = executed (executions_of st orderId);
             rest = int (fp_totalFragments p) - int (fp_fragmentsFilled p)
           in if rest = 0 \<or> po_makingAmount order = 0 then Inl ''Division by zero''
              else let amount = fp_remainingAmount p div rest
                in Inr (Some \<lparr>
                     fr_fragmentIndex = first_free (length done) (set (map fe_fragmentIndex done)) 0,
                     fr_recommendedFillAmount = amount,
                     fr_expectedProfit = amount * amount div po_makingAmount order - DEFAULT_GAS,
                     fr_priceImpact = calculatePriceImpact amount (po_makingAmount order),
                     fr_timeToExpiry = po_auctionEndTime order - now\<rparr>))
     | _ \<Rightarrow> Inr None)"

definition completeOrder :: "int \<Rightarrow> string \<Rightarrow> fill_manager \<Rightarrow> fill_manager" where
  "completeOrder now orderId st =
    (case map_of (fm_orders st) orderId of
       None \<Rightarrow> st
     | Some order \<Rightarrow> st\<lparr>fm_orders := AList.update orderId
         (order\<lparr>po_status := OrderCompleted, po_updatedAt := now\<rparr>) (fm_orders st)\<rparr>)"

definition executePartialFill :: "(bytes \<Rightarrow> string) \<Rightarrow> int \<Rightarrow> string \<Rightarrow> nat \<Rightarrow> int \<Rightarrow> string \<Rightarrow> string
    \<Rightarrow> string list \<Rightarrow> fill_manager
    \<Rightarrow> (string + fill_execution \<times> fill_progress \<times> fill_recommendation option) \<times> fill_manager" where
  "executePartialFill keccak now orderId fragmentIndex fillAmount resolver secretHash mprf st =
    (if map_of (fm_orders st) orderId = None \<or> map_of (fm_merkle st) orderId = None
     then (Inl ''Order not found'', st)
     else case validateFill keccak now st orderId fragmentIndex fillAmount secretHash mprf of
       Inl e \<Rightarrow> (Inl (''Fill validation failed: '' @ e), st)
     | Inr _ \<Rightarrow>
        (let ex = \<lparr>fe_fillId = orderId @ ''_'' @ show_nat fragmentIndex @ ''_'' @ show_int now,
               fe_orderId = orderId, fe_fragmentIndex = fragmentIndex, fe_resolver = resolver,
               fe_fillAmount = fillAmount, fe_auctionPrice = fillAmount, fe_gasCost = DEFAULT_GAS,
               fe_secretHash = secretHash, fe_merkleProof = mprf, fe_status = ExecPending,
               fe_executedAt = now\<rparr>;
             st1 = st\<lparr>fm_executions := AList.update orderId (executions_of st orderId @ [ex])
                        (fm_executions st)\<rparr>
         in case calculateFillProgress st1 orderId of
              Inl e \<Rightarrow> (Inl e, st1)
            | Inr p \<Rightarrow> (case generateFillRecommendation now st1 orderId p of
                Inl e \<Rightarrow> (Inl e, st1)
              | Inr r \<Rightarrow> (Inr (ex, p, r),
                  if fp_fillPercentage p \<ge> 100 then completeOrder now orderId st1 else st1))))"

definition getAvailableFragments :: "fill_manager \<Rightarrow> string \<Rightarrow> order_fragment list" where
  "getAvailableFragments st orderId =
    (case (map_of (fm_orders st) orderId, map_of (fm_merkle st) orderId) of
       (Some order, Some m) \<Rightarrow>
         filter (\<lambda>f. of_fragmentIndex f \<notin>
             set (map fe_fragmentIndex (executed (executions_of st orderId))))
           (generateOrderFragments m orderId)
     | _ \<Rightarrow> [])"

definition getAllActiveOrders :: "fill_manager \<Rightarrow> partial_fill_order list" where
  "getAllActiveOrders st = filter (\<lambda>o1. po_status o1 = OrderActive) (map snd (fm_orders st))"

text \<open>The fuel of the search suffices: it ends at the first index that is not filled.\<close>

lemma first_free_range: "n \<le> first_free fuel filled n"
  by (induction fuel filled n rule: first_free.induct) auto

lemma first_free_stops:
  "finite filled \<Longrightarrow> card {i \<in> filled. n \<le> i} \<le> fuel \<Longrightarrow>
   first_free fuel filled n \<notin> filled \<and> (\<forall>i. n \<le> i \<and> i < first_free fuel filled n \<longrightarrow> i \<in> filled)"
proof (induction fuel filled n rule: first_free.induct)
  case (1 filled n)
  then show ?case by (auto simp: card_eq_0_iff)
next
  case (2 fuel filled n)
  show ?case
  proof (cases "n \<in> filled")
    case True
    have "{i \<in> filled. n \<le> i} = insert n {i \<in> filled. n + 1 \<le> i}" using True by auto
    then have "card {i \<in> filled. n + 1 \<le> i} \<le> fuel" using 2(2,3) by simp
    from 2(1)[OF True 2(2) this] True show ?thesis
      by simp (metis Suc_leI le_neq_implies_less)
  qed auto
qed

text \<open>The search for the next fragment ends within as many rounds as there are executed fills,
  at the least index without an executed fill.\<close>

theorem next_fragment_is_least_free:
  "let done = set (map fe_fragmentIndex (executed es));
       n = first_free (length (executed es)) done 0
   in n \<notin> done \<and> {..<n} \<subseteq> done"
proof -
  let ?done = "set (map fe_fragmentIndex (executed es))"
  have "card {i \<in> ?done. 0 \<le> i} \<le> length (executed es)"
    using card_length[of "map fe_fragmentIndex (executed es)"] by simp
  from first_free_stops[OF _ this] show ?thesis by (auto simp: Let_def)
qed

section \<open>Fills that never count\<close>

datatype fill_call =
    InitOrder "nat \<Rightarrow> string" int partial_fill_order partial_fill_config
  | ExecuteFill int string nat int string string "string list"

fun run_fill_call :: "(bytes \<Rightarrow> string) \<Rightarrow> fill_call \<Rightarrow> fill_manager \<Rightarrow> fill_manager" where
  "run_fill_call keccak (InitOrder rnd now orderData config) st =
    snd (initializePartialFillOrder keccak rnd now orderData config st)"
| "run_fill_call keccak (ExecuteFill now orderId i amount resolver h mprf) st =
    snd (executePartialFill keccak now orderId i amount resolver h mprf st)"

definition run_fills :: "(bytes \<Rightarrow> string) \<Rightarrow> fill_call list \<Rightarrow> fill_manager" where
  "run_fills keccak calls = fold (run_fill_call keccak) calls empty_manager"

definition idle :: "fill_manager \<Rightarrow> bool" where
  "idle st \<longleftrightarrow> (\<forall>es \<in> snd ` set (fm_executions st). \<forall>e \<in> set es. fe_status e = ExecPending)
     \<and> (\<forall>o1 \<in> snd ` set (fm_orders st). po_status o1 = OrderActive)"

lemma snd_update_subset: "snd ` set (AList.update k v xs) \<subseteq> insert v (snd ` set xs)"
  by (induction xs) auto

lemma idle_executions:
  assumes "idle st" shows "\<forall>e \<in> set (executions_of st orderId). fe_status e = ExecPending"
proof (cases "map_of (fm_executions st) orderId")
  case (Some es)
  then have "es \<in> snd ` set (fm_executions st)" by (force dest: map_of_SomeD)
  then show ?thesis using assms Some unfolding idle_def executions_of_def by auto
qed (simp add: executions_of_def)

lemma idle_executed [simp]: "idle st \<Longrightarrow> executed (executions_of st orderId) = []"
  using idle_executions by (fastforce simp: executed_def filter_empty_conv)

lemma idle_update:
  assumes "idle st" "\<forall>e \<in> set es. fe_status e = ExecPending"
    and "\<forall>o1 \<in> snd ` set os. po_status o1 = OrderActive"
  shows "idle (st\<lparr>fm_executions := AList.update orderId es (fm_executions st), fm_orders := os, fm_merkle := m\<rparr>)"
proof -
  have "\<forall>es' \<in> snd ` set (AList.update orderId es (fm_executions st)). \<forall>e \<in> set es'. fe_status e = ExecPending"
  proof
    fix es' assume "es' \<in> snd ` set (AList.update orderId es (fm_executions st))"
    then have "es' = es \<or> es' \<in> snd ` set (fm_executions st)" using snd_update_subset[of orderId es "fm_executions st"] by blast
    then show "\<forall>e \<in> set es'. fe_status e = ExecPending" using assms(1,2) unfolding idle_def by blast
  qed
  then show ?thesis using assms(3) by (simp add: idle_def)
qed

lemma idle_push:
  assumes "idle st" "fe_status ex = ExecPending"
  shows "idle (st\<lparr>fm_executions := AList.update orderId (executions_of st orderId @ [ex]) (fm_executions st)\<rparr>)"
proof -
  have "\<forall>o1 \<in> snd ` set (fm_orders st). po_status o1 = OrderActive" using assms(1) unfolding idle_def by blast
  from idle_update[OF assms(1) _ this, where es = "executions_of st orderId @ [ex]" and orderId = orderId and m = "fm_merkle st"]
  show ?thesis using assms idle_executions[OF assms(1)] by auto
qed

lemma idle_progress:
  "idle st \<Longrightarrow> calculateFillProgress st orderId = Inr p \<Longrightarrow>
   fp_filledAmount p = 0 \<and> fp_fillPercentage p = 0 \<and> fp_fragmentsFilled p = 0
   \<and> fp_remainingAmount p = fp_totalAmount p"
  by (auto simp: calculateFillProgress_def Let_def filled_amount_def split: option.splits if_splits)

text \<open>What an accepted call has checked and written, in a manager whose fills are all pending.\<close>

definition pushed :: "fill_manager \<Rightarrow> string \<Rightarrow> fill_execution \<Rightarrow> fill_manager" where
  "pushed st orderId ex = st\<lparr>fm_executions := AList.update orderId (executions_of st orderId @ [ex])
     (fm_executions st)\<rparr>"

lemma idle_pushed: "idle st \<Longrightarrow> fe_status ex = ExecPending \<Longrightarrow> idle (pushed st orderId ex)"
  unfolding pushed_def by (rule idle_push)

lemma pushed_frame [simp]:
  "fm_orders (pushed st orderId ex) = fm_orders st" "fm_merkle (pushed st orderId ex) = fm_merkle st"
  "executions_of (pushed st orderId ex) orderId = executions_of st orderId @ [ex]"
  by (simp_all add: pushed_def executions_of_def update_conv')

definition new_execution :: "int \<Rightarrow> string \<Rightarrow> nat \<Rightarrow> int \<Rightarrow> string \<Rightarrow> string \<Rightarrow> string list
    \<Rightarrow> fill_execution" where
  "new_execution now orderId i amount resolver h mprf =
    \<lparr>fe_fillId = orderId @ ''_'' @ show_nat i @ ''_'' @ show_int now,
     fe_orderId = orderId, fe_fragmentIndex = i, fe_resolver = resolver,
     fe_fillAmount = amount, fe_auctionPrice = amount, fe_gasCost = DEFAULT_GAS,
     fe_secretHash = h, fe_merkleProof = mprf, fe_status = ExecPending, fe_executedAt = now\<rparr>"

lemma idle_executePartialFill:
  assumes i: "idle st"
  shows "snd (executePartialFill keccak now orderId i amount resolver h mprf st) \<in>
    {st, pushed st orderId (new_execution now orderId i amount resolver h mprf)}"
proof -
  let ?st1 = "pushed st orderId (new_execution now orderId i amount resolver h mprf)"
  have "fp_fillPercentage p = 0" if "calculateFillProgress ?st1 orderId = Inr p" for p
    using idle_progress[OF idle_pushed[OF i] that] by (simp add: new_execution_def)
  then show ?thesis
    unfolding executePartialFill_def Let_def new_execution_def[symmetric] pushed_def[symmetric]
    by (auto split: sum.splits)
qed

lemma idle_execute:
  assumes "idle st"
  shows "idle (snd (executePartialFill keccak now orderId i amount resolver h mprf st))"
  using idle_executePartialFill[OF assms, of keccak now orderId i amount resolver h mprf]
    idle_pushed[OF assms, of "new_execution now orderId i amount resolver h mprf" orderId] assms
  by (auto simp: new_execution_def)

lemma idle_init:
  assumes "idle st"
  shows "idle (snd (initializePartialFillOrder keccak rnd now orderData config st))"
proof -
  have "idle (st\<lparr>fm_orders := AList.update k o1 (fm_orders st), fm_merkle := m,
      fm_executions := AList.update k [] (fm_executions st)\<rparr>)" if "po_status o1 = OrderActive" for k o1 m
  proof -
    have "\<forall>o2 \<in> snd ` set (AList.update k o1 (fm_orders st)). po_status o2 = OrderActive"
      using snd_update_subset[of k o1 "fm_orders st"] assms that unfolding idle_def by blast
    from idle_update[OF assms _ this, where es = "[]" and orderId = k and m = m] show ?thesis
      by (simp add: idle_def)
  qed
  then show ?thesis
    using assms by (auto simp: initializePartialFillOrder_def Let_def split: sum.splits prod.splits)
qed

lemma idle_run: "idle (run_fills keccak calls)"
proof -
  have "idle (fold (run_fill_call keccak) calls st)" if "idle st" for st
    using that
  proof (induction calls arbitrary: st)
    case (Cons c calls)
    then show ?case by (cases c) (simp_all add: idle_init idle_execute)
  qed simp
  moreover have "idle empty_manager" by (simp add: idle_def empty_manager_def)
  ultimately show ?thesis unfolding run_fills_def by blast
qed

text \<open>After any sequence of initialisations and fills, no order has progressed: \<open>executePartialFill\<close>
  stores every fill as pending and nothing ever marks one as executed, so the filled amount and the
  percentage stay 0 and every order stays active.\<close>

theorem fills_never_count:
  shows "(\<forall>orderId p. calculateFillProgress (run_fills keccak calls) orderId = Inr p \<longrightarrow>
      fp_filledAmount p = 0 \<and> fp_fillPercentage p = 0 \<and> fp_remainingAmount p = fp_totalAmount p)
    \<and> (\<forall>o1 \<in> snd ` set (fm_orders (run_fills keccak calls)). po_status o1 = OrderActive)"
  using idle_progress[OF idle_run[of keccak calls]] idle_run[of keccak calls]
  by (auto simp: idle_def)

lemma idle_accepts_again:
  assumes i: "idle st" and a: "executePartialFill keccak now orderId i amount resolver h mprf st = (Inr x, st')"
    and o1: "map_of (fm_orders st) orderId = Some order" and t: "now \<le> now'" "now' \<le> po_auctionEndTime order"
  shows "\<exists>y. executePartialFill keccak now' orderId i amount resolver h mprf st' =
    (Inr y, pushed st' orderId (new_execution now' orderId i amount resolver h mprf))
    \<and> st' = pushed st orderId (new_execution now orderId i amount resolver h mprf)"
proof -
  define st1 where "st1 = pushed st orderId (new_execution now orderId i amount resolver h mprf)"
  define st2 where "st2 = pushed st1 orderId (new_execution now' orderId i amount resolver h mprf)"
  have i1: "idle st1" unfolding st1_def by (rule idle_pushed[OF i]) (simp add: new_execution_def)
  have i2: "idle st2" unfolding st2_def by (rule idle_pushed[OF i1]) (simp add: new_execution_def)
  note e1 = idle_executed[OF i] idle_executed[OF i1] idle_executed[OF i2]
  obtain m where m: "map_of (fm_merkle st) orderId = Some m"
    using a by (auto simp: executePartialFill_def split: if_splits)
  obtain v where v: "validateFill keccak now st orderId i amount h mprf = Inr v"
    using a o1 m by (auto simp: executePartialFill_def split: sum.splits)
  have frame: "fm_orders st1 = fm_orders st" "fm_merkle st1 = fm_merkle st"
    "fm_orders st2 = fm_orders st" "fm_merkle st2 = fm_merkle st"
    by (simp_all add: st1_def st2_def)
  have np: "list_ex (\<lambda>e. fe_fragmentIndex e = i \<and> fe_status e = ExecExecuted) (executions_of s orderId) = False"
    if "idle s" for s using idle_executions[OF that] by (auto simp: list_ex_iff)
  have v': "validateFill keccak now' st1 orderId i amount h mprf = Inr v"
    using v o1 m t np[OF i] np[OF i1]
    by (auto simp: validateFill_def frame filled_amount_def e1 split: if_splits)
  have pos: "po_makingAmount order \<noteq> 0" "length (generateOrderFragments m orderId) \<noteq> 0" "st' = st1"
    using a v o1 m unfolding executePartialFill_def Let_def new_execution_def[symmetric] pushed_def[symmetric]
      st1_def[symmetric]
    by (auto simp: calculateFillProgress_def generateFillRecommendation_def Let_def frame e1
        filled_amount_def split: sum.splits if_splits)
  have "\<exists>y. executePartialFill keccak now' orderId i amount resolver h mprf st1 = (Inr y, st2)"
    unfolding executePartialFill_def Let_def new_execution_def[symmetric] pushed_def[symmetric] st2_def[symmetric]
    using v' o1 m pos(1,2)
    by (simp add: frame calculateFillProgress_def generateFillRecommendation_def Let_def e1 filled_amount_def)
  then show ?thesis using pos(3) by (simp add: st1_def st2_def)
qed

text \<open>A fill that was accepted is accepted again, with the same fragment, secret hash and proof, at
  any later time of the auction, and both are recorded: nothing bounds the recorded amount of an
  order by its making amount.\<close>

theorem fragment_filled_twice:
  assumes "executePartialFill keccak now orderId i amount resolver h mprf (run_fills keccak calls) = (Inr x, st')"
    and "map_of (fm_orders (run_fills keccak calls)) orderId = Some order"
    and "now \<le> now'" "now' \<le> po_auctionEndTime order"
  shows "\<exists>y st''. executePartialFill keccak now' orderId i amount resolver h mprf st' = (Inr y, st'')
    \<and> map fe_fillAmount (executions_of st'' orderId) =
      map fe_fillAmount (executions_of (run_fills keccak calls) orderId) @ [amount, amount]"
  using idle_accepts_again[OF idle_run assms] by (auto simp: new_execution_def)

definition sample_fill_order :: partial_fill_order where
  "sample_fill_order = \<lparr>po_orderId = ''o1'', po_maker = ''m'', po_makerAsset = ''a'', po_takerAsset = ''b'',
     po_makingAmount = 100, po_takingAmount = 100, po_srcChainId = 1, po_dstChainId = 2,
     po_merkleRoot = [], po_allowPartialFills = True, po_allowMultipleFills = True,
     po_auctionStartTime = 0, po_auctionEndTime = 10,
     po_timeLocks = \<lparr>srcWithdrawal = 0, dstWithdrawal = 0, srcCancellation = 0, dstCancellation = 0\<rparr>,
     po_status = OrderActive, po_createdAt = 0, po_updatedAt = 0\<rparr>"

definition sample_fills :: "fill_call list" where
  "sample_fills = [InitOrder (\<lambda>i. ''0x01'') 1 sample_fill_order
     \<lparr>pc_secretsCount = 1, pc_fragmentSize = 100\<rparr>]"

definition mini_keccak :: "bytes \<Rightarrow> string" where
  "mini_keccak bs = uint8ToHex (take 1 bs)"

lemma fragment_filled_twice_witness:
  "\<exists>x st1 y s2.
     executePartialFill mini_keccak 2 ''o1'' 0 100 ''res'' ''0x01'' [] (run_fills mini_keccak sample_fills) = (Inr x, st1)
   \<and> executePartialFill mini_keccak 3 ''o1'' 0 100 ''res'' ''0x01'' [] st1 = (Inr y, s2)
   \<and> map fe_fillAmount (executions_of s2 ''o1'') = [100, 100]"
proof -
  let ?r = "executePartialFill mini_keccak 2 ''o1'' 0 100 ''res'' ''0x01'' [] (run_fills mini_keccak sample_fills)"
  have "(case fst ?r of Inr _ \<Rightarrow> True | Inl _ \<Rightarrow> False)" by code_simp
  then obtain x st' where a: "?r = (Inr x, st')" by (cases ?r) (auto split: sum.splits)
  have "map_option po_auctionEndTime (map_of (fm_orders (run_fills mini_keccak sample_fills)) ''o1'') = Some 10"
    by code_simp
  then obtain order where o1: "map_of (fm_orders (run_fills mini_keccak sample_fills)) ''o1'' = Some order"
      "po_auctionEndTime order = 10" by auto
  have t: "(2::int) \<le> 3" "3 \<le> po_auctionEndTime order" using o1(2) by simp_all
  obtain y and s2 :: fill_manager where
      e: "executePartialFill mini_keccak 3 ''o1'' 0 100 ''res'' ''0x01'' [] st' = (Inr y, s2)" and "map fe_fillAmount (executions_of s2 ''o1'') =
      map fe_fillAmount (executions_of (run_fills mini_keccak sample_fills) ''o1'') @ [100, 100]"
    using fragment_filled_twice[OF a o1(1) t] by blast
  moreover have "map fe_fillAmount (executions_of (run_fills mini_keccak sample_fills) ''o1'') = []" by code_simp
  ultimately have "map fe_fillAmount (executions_of s2 ''o1'') = [100, 100]" by simp
  with a e show ?thesis by (intro exI conjI)
qed

lemma fills_never_count_witness:
  "\<exists>p. calculateFillProgress (run_fills mini_keccak
       (sample_fills @ [ExecuteFill 2 ''o1'' 0 100 ''res'' ''0x01'' []])) ''o1'' = Inr p
     \<and> fp_totalAmount p = 100 \<and> fp_filledAmount p = 0 \<and> fp_fillPercentage p = 0"
proof -
  let ?st = "run_fills mini_keccak (sample_fills @ [ExecuteFill 2 ''o1'' 0 100 ''res'' ''0x01'' []])"
  have "map_option (\<lambda>p. fp_totalAmount p)
      (case calculateFillProgress ?st ''o1'' of Inr p \<Rightarrow> Some p | Inl _ \<Rightarrow> None) = Some 100"
    by code_simp
  then obtain p where p: "calculateFillProgress ?st ''o1'' = Inr p" "fp_totalAmount p = 100"
    by (auto split: sum.splits)
  then show ?thesis using fills_never_count by blast
qed

end
