(* ===== verification/Fusion_Events.thy ===== *)
theory Fusion_Events
  imports Json_Text "HOL-Library.AList"
begin

text \<open>
  The event bus of the relayer (\<open>relayer/src/event-handlers.ts\<close>, class \<open>FusionEventManager\<close>): its
  registered listeners, its bounded history, and \<open>emitEvent\<close>, which appends to the history and
  calls every matching listener in order of registration. What a callback does is an argument
  \<open>call\<close> of \<open>emitEvent\<close>, a step on the state \<open>'s\<close> of the component that registered it; the tag of a
  listener says which callback it is. A callback that throws is caught: it leaves its own state
  changes and nothing else.

  An absent metadata field is \<open>None\<close>. Numbers are integers.
\<close>

datatype event_type = OrderCreated | OrderInvalid | OrderBalanceChange | OrderAllowanceChange
  | OrderFilled | OrderFilledPartially | OrderCancelled | SecretShared | ProgressUpdate
  | RecommendationGenerated | FragmentReady | RecoveryEvent

fun event_type_str :: "event_type \<Rightarrow> string" where
  "event_type_str OrderCreated = ''order_created''"
| "event_type_str OrderInvalid = ''order_invalid''"
| "event_type_str OrderBalanceChange = ''order_balance_change''"
| "event_type_str OrderAllowanceChange = ''order_allowance_change''"
| "event_type_str OrderFilled = ''order_filled''"
| "event_type_str OrderFilledPartially = ''order_filled_partially''"
| "event_type_str OrderCancelled = ''order_cancelled''"
| "event_type_str SecretShared = ''secret_shared''"
| "event_type_str ProgressUpdate = ''progress_update''"
| "event_type_str RecommendationGenerated = ''recommendation_generated''"
| "event_type_str FragmentReady = ''fragment_ready''"
| "event_type_str RecoveryEvent = ''recovery''"

record event_metadata =
  md_orderHash :: "string option"
  md_resolver :: "string option"
  md_chainId :: "int option"
  md_urgent :: bool

record event_message =
  em_id :: string
  em_type :: event_type
  em_timestamp :: int
  em_data :: json
  em_metadata :: event_metadata

text \<open>The filters of a listener; an absent set is \<open>None\<close>.\<close>

record listener_filters =
  lf_orderHashes :: "string set option"
  lf_resolvers :: "string set option"
  lf_chainIds :: "int set option"

record 'c event_listener =
  el_types :: "event_type set"
  el_filters :: listener_filters
  el_callback :: 'c

record 'c event_manager =
  mg_listeners :: "(string \<times> 'c event_listener) list"
  mg_history :: "event_message list"

definition MAX_HISTORY_SIZE :: nat where
  "MAX_HISTORY_SIZE = 500"

text \<open>JavaScript truthiness of the metadata fields.\<close>

definition given :: "string option \<Rightarrow> bool" where
  "given v \<longleftrightarrow> v \<noteq> None \<and> v \<noteq> Some []"

definition given_id :: "int option \<Rightarrow> bool" where
  "given_id v \<longleftrightarrow> v \<noteq> None \<and> v \<noteq> Some 0"

definition excludes :: "'a set option \<Rightarrow> 'a option \<Rightarrow> bool" where
  "excludes f v \<longleftrightarrow> (case (f, v) of (Some S, Some x) \<Rightarrow> S \<noteq> {} \<and> x \<notin> S | _ \<Rightarrow> False)"

definition shouldNotifyListener :: "'c event_listener \<Rightarrow> event_message \<Rightarrow> bool" where
  "shouldNotifyListener l ev =
    (let f = el_filters l; m = em_metadata ev
     in if em_type ev \<notin> el_types l then False
        else if given (md_orderHash m) \<and> excludes (lf_orderHashes f) (md_orderHash m) then False
        else if given (md_resolver m) \<and> excludes (lf_resolvers f) (md_resolver m) then False
        else if given_id (md_chainId m) \<and> excludes (lf_chainIds f) (md_chainId m) then False
        else True)"

definition addEventListener :: "string \<Rightarrow> 'c event_listener \<Rightarrow> 'c event_manager \<Rightarrow> 'c event_manager" where
  "addEventListener newId l m = m\<lparr>mg_listeners := AList.update newId l (mg_listeners m)\<rparr>"

definition removeEventListener :: "string \<Rightarrow> 'c event_manager \<Rightarrow> bool \<times> 'c event_manager" where
  "removeEventListener i m =
    (map_of (mg_listeners m) i \<noteq> None, m\<lparr>mg_listeners := AList.delete i (mg_listeners m)\<rparr>)"

definition remember :: "event_message \<Rightarrow> event_message list \<Rightarrow> event_message list" where
  "remember ev h = (let h' = h @ [ev] in if length h' > MAX_HISTORY_SIZE then tl h' else h')"

definition notified :: "'c event_manager \<Rightarrow> event_message \<Rightarrow> 'c list" where
  "notified m ev = map (el_callback \<circ> snd) (filter (\<lambda>(i, l). shouldNotifyListener l ev) (mg_listeners m))"

definition emitEvent :: "('c \<Rightarrow> event_message \<Rightarrow> 's \<Rightarrow> 's) \<Rightarrow> event_message \<Rightarrow> 'c event_manager \<Rightarrow> 's
    \<Rightarrow> 'c event_manager \<times> 's" where
  "emitEvent call ev m s =
    (m\<lparr>mg_history := remember ev (mg_history m)\<rparr>, fold (\<lambda>c. call c ev) (notified m ev) s)"

definition getEventHistory :: "event_type list option \<Rightarrow> string option \<Rightarrow> nat \<Rightarrow> nat
    \<Rightarrow> 'c event_manager \<Rightarrow> event_message list" where
  "getEventHistory types orderHash limit offset m =
    (let h = mg_history m;
         h1 = (case types of None \<Rightarrow> h | Some ts \<Rightarrow> filter (\<lambda>e. em_type e \<in> set ts) h);
         h2 = (if given orderHash then filter (\<lambda>e. md_orderHash (em_metadata e) = orderHash) h1 else h1)
     in take (if limit = 0 then 100 else limit) (drop offset h2))"

text \<open>The history of the bus holds the last \<open>MAX_HISTORY_SIZE\<close> events.\<close>

lemma remember_last: "length h \<le> MAX_HISTORY_SIZE \<Longrightarrow>
  remember ev h = drop (length h + 1 - MAX_HISTORY_SIZE) (h @ [ev])"
  by (cases "length h = MAX_HISTORY_SIZE"; cases h)
    (auto simp: remember_def Let_def MAX_HISTORY_SIZE_def)

end
