(* ===== verification/Event_History.thy ===== *)
theory Event_History
  imports Fusion_Events
begin

text \<open>
  The event history of the relayer (\<open>relayer/src/event-history.ts\<close>): recent events in memory, indexes
  over them, queries, and eviction to disk. The model follows the aliasing of the code: a query
  that no index narrows down works on the memory array itself, and \<open>Array.sort\<close> sorts in place.
  Events carry unique ids, so comparing them by reference is comparing them. The day of the
  by-day index is the day number. File names, checksums and timers are left out.
\<close>

record history_config =
  hcf_maxMemoryEvents :: nat
  hcf_indexingEnabled :: bool
  hcf_archiveAfterDays :: int

record event_index =
  ix_orderHash :: "(string \<times> event_message list) list"
  ix_resolver :: "(string \<times> event_message list) list"
  ix_chainId :: "(int \<times> event_message list) list"
  ix_type :: "(event_type \<times> event_message list) list"
  ix_day :: "(int \<times> event_message list) list"

record event_statistics =
  es_total :: nat
  es_byType :: "(event_type \<times> nat) list"
  es_byChain :: "(int \<times> nat) list"
  es_byResolver :: "(string \<times> nat) list"
  es_last1Hour :: nat
  es_last24Hours :: nat
  es_last7Days :: nat
  es_last30Days :: nat

text \<open>\<open>eh_disk\<close> collects the batches written to disk, oldest first.\<close>

record event_history =
  eh_config :: history_config
  eh_memory :: "event_message list"
  eh_index :: event_index
  eh_stats :: event_statistics
  eh_disk :: "event_message list list"

datatype sort_field = By_timestamp | By_eventType | By_orderHash
datatype sort_order = Asc | Desc

record event_query =
  eq_types :: "event_type list option"
  eq_orderHashes :: "string list option"
  eq_resolvers :: "string list option"
  eq_chainIds :: "int list option"
  eq_timeRange :: "(int \<times> int) option"
  eq_limit :: nat
  eq_offset :: nat
  eq_sortBy :: sort_field
  eq_sortOrder :: sort_order

definition empty_index :: event_index where
  "empty_index = \<lparr>ix_orderHash = [], ix_resolver = [], ix_chainId = [], ix_type = [], ix_day = []\<rparr>"

definition initializeStatistics :: event_statistics where
  "initializeStatistics = \<lparr>es_total = 0, es_byType = [], es_byChain = [], es_byResolver = [],
     es_last1Hour = 0, es_last24Hours = 0, es_last7Days = 0, es_last30Days = 0\<rparr>"

definition new_history :: "history_config \<Rightarrow> event_history" where
  "new_history cfg = \<lparr>eh_config = cfg, eh_memory = [], eh_index = empty_index,
     eh_stats = initializeStatistics, eh_disk = []\<rparr>"

section \<open>Index and statistics\<close>

definition bucket_of :: "('k \<times> 'v list) list \<Rightarrow> 'k \<Rightarrow> 'v list" where
  "bucket_of m k = (case map_of m k of None \<Rightarrow> [] | Some vs \<Rightarrow> vs)"

definition push_bucket :: "'k \<Rightarrow> 'v \<Rightarrow> ('k \<times> 'v list) list \<Rightarrow> ('k \<times> 'v list) list" where
  "push_bucket k v m = AList.update k (bucket_of m k @ [v]) m"

definition DAY_MS :: int where
  "DAY_MS = 24 * 60 * 60 * 1000"

definition updateIndex :: "event_message \<Rightarrow> event_index \<Rightarrow> event_index" where
  "updateIndex ev ix =
    (let md = em_metadata ev
     in \<lparr>ix_orderHash = (if given (md_orderHash md) then push_bucket (the (md_orderHash md)) ev (ix_orderHash ix)
                         else ix_orderHash ix),
         ix_resolver = (if given (md_resolver md) then push_bucket (the (md_resolver md)) ev (ix_resolver ix)
                        else ix_resolver ix),
         ix_chainId = (if given_id (md_chainId md) then push_bucket (the (md_chainId md)) ev (ix_chainId ix)
                       else ix_chainId ix),
         ix_type = push_bucket (em_type ev) ev (ix_type ix),
         ix_day = push_bucket (em_timestamp ev div DAY_MS) ev (ix_day ix)\<rparr>)"

definition bump :: "'k \<Rightarrow> ('k \<times> nat) list \<Rightarrow> ('k \<times> nat) list" where
  "bump k m = AList.update k ((case map_of m k of None \<Rightarrow> 0 | Some n \<Rightarrow> n) + 1) m"

definition updateStatistics :: "int \<Rightarrow> event_message \<Rightarrow> event_statistics \<Rightarrow> event_statistics" where
  "updateStatistics now ev st =
    (let md = em_metadata ev; age = now - em_timestamp ev; inc = (\<lambda>b n. if b then n + 1 else n)
     in \<lparr>es_total = es_total st + 1,
         es_byType = bump (em_type ev) (es_byType st),
         es_byChain = (if given_id (md_chainId md) then bump (the (md_chainId md)) (es_byChain st) else es_byChain st),
         es_byResolver = (if given (md_resolver md) then bump (the (md_resolver md)) (es_byResolver st) else es_byResolver st),
         es_last1Hour = inc (age \<le> 60 * 60 * 1000) (es_last1Hour st),
         es_last24Hours = inc (age \<le> DAY_MS) (es_last24Hours st),
         es_last7Days = inc (age \<le> 7 * DAY_MS) (es_last7Days st),
         es_last30Days = inc (age \<le> 30 * DAY_MS) (es_last30Days st)\<rparr>)"

section \<open>Adding, evicting, archiving\<close>

text \<open>\<open>splice(0, n)\<close> takes the first \<open>n\<close> events out of the memory; the index keeps them.\<close>

definition persistOldestEvents :: "event_history \<Rightarrow> event_history" where
  "persistOldestEvents h =
    (let n = hcf_maxMemoryEvents (eh_config h) div 2
     in h\<lparr>eh_memory := drop n (eh_memory h), eh_disk := eh_disk h @ [take n (eh_memory h)]\<rparr>)"

definition addEvent :: "int \<Rightarrow> event_message \<Rightarrow> event_history \<Rightarrow> event_history" where
  "addEvent now ev h =
    (let h1 = h\<lparr>eh_memory := eh_memory h @ [ev]\<rparr>;
         h2 = (if hcf_indexingEnabled (eh_config h) then h1\<lparr>eh_index := updateIndex ev (eh_index h1)\<rparr> else h1);
         h3 = h2\<lparr>eh_stats := updateStatistics now ev (eh_stats h2)\<rparr>
     in if length (eh_memory h3) > hcf_maxMemoryEvents (eh_config h) then persistOldestEvents h3 else h3)"

definition rebuildIndex :: "event_history \<Rightarrow> event_history" where
  "rebuildIndex h = h\<lparr>eh_index := fold updateIndex (eh_memory h) empty_index\<rparr>"

definition archiveOldEvents :: "int \<Rightarrow> event_history \<Rightarrow> event_history" where
  "archiveOldEvents now h =
    (let cutoff = now - hcf_archiveAfterDays (eh_config h) * DAY_MS;
         old = filter (\<lambda>e. em_timestamp e < cutoff) (eh_memory h)
     in if old = [] then h
        else rebuildIndex (h\<lparr>eh_memory := filter (\<lambda>e. em_timestamp e \<ge> cutoff) (eh_memory h),
               eh_disk := eh_disk h @ [old]\<rparr>))"

section \<open>Queries\<close>

text \<open>A stable sort; descending negates the comparison and keeps ties in place.\<close>

definition stable_sort :: "sort_order \<Rightarrow> ('a \<Rightarrow> 'k::linorder) \<Rightarrow> 'a list \<Rightarrow> 'a list" where
  "stable_sort ord f xs = (case ord of Asc \<Rightarrow> sort_key f xs | Desc \<Rightarrow> rev (sort_key f (rev xs)))"

definition sortEvents :: "sort_field \<Rightarrow> sort_order \<Rightarrow> event_message list \<Rightarrow> event_message list" where
  "sortEvents field ord es =
    (case field of
       By_timestamp \<Rightarrow> stable_sort ord em_timestamp es
     | By_eventType \<Rightarrow> stable_sort ord (event_type_str \<circ> em_type) es
     | By_orderHash \<Rightarrow> stable_sort ord (\<lambda>e. case md_orderHash (em_metadata e) of None \<Rightarrow> [] | Some s \<Rightarrow> s) es)"

text \<open>One criterion of \<open>queryFromIndex\<close>: an empty intermediate result is replaced, not intersected.\<close>

definition narrow :: "('k \<times> event_message list) list \<Rightarrow> 'k list option \<Rightarrow> event_message list
    \<Rightarrow> event_message list" where
  "narrow ix keys events =
    (case keys of
       None \<Rightarrow> events
     | Some ks \<Rightarrow>
        (if ks = [] then events
         else let found = concat (map (bucket_of ix) ks)
           in if events = [] then found else filter (\<lambda>e. e \<in> set found) events))"

text \<open>\<open>None\<close> stands for the memory array itself.\<close>

definition queryFromIndex :: "event_index \<Rightarrow> event_query \<Rightarrow> event_message list option" where
  "queryFromIndex ix q =
    (let es = narrow (ix_chainId ix) (eq_chainIds q)
               (narrow (ix_resolver ix) (eq_resolvers q)
                 (narrow (ix_type ix) (eq_types q)
                   (narrow (ix_orderHash ix) (eq_orderHashes q) [])))
     in if es = [] then None else Some es)"

definition refused_by :: "'k list option \<Rightarrow> 'k option \<Rightarrow> bool" where
  "refused_by keys v \<longleftrightarrow> (case (keys, v) of (Some ks, Some x) \<Rightarrow> x \<notin> set ks | _ \<Rightarrow> False)"

definition matches_query :: "event_query \<Rightarrow> event_message \<Rightarrow> bool" where
  "matches_query q e =
    (let md = em_metadata e
     in \<not> refused_by (eq_types q) (Some (em_type e))
        \<and> \<not> (given (md_orderHash md) \<and> refused_by (eq_orderHashes q) (md_orderHash md))
        \<and> \<not> (given (md_resolver md) \<and> refused_by (eq_resolvers q) (md_resolver md))
        \<and> \<not> (given_id (md_chainId md) \<and> refused_by (eq_chainIds q) (md_chainId md))
        \<and> (case eq_timeRange q of None \<Rightarrow> True
           | Some (s, t) \<Rightarrow> \<not> (em_timestamp e < s \<or> em_timestamp e > t)))"

definition queryFromMemory :: "event_message list \<Rightarrow> event_query \<Rightarrow> event_message list" where
  "queryFromMemory memory q = filter (matches_query q) memory"

record query_page =
  qp_events :: "event_message list"
  qp_total :: nat
  qp_limit :: nat
  qp_offset :: nat
  qp_hasMore :: bool

definition paginate :: "event_query \<Rightarrow> event_message list \<Rightarrow> query_page" where
  "paginate q es =
    (let limit = (if eq_limit q = 0 then 100 else eq_limit q)
     in \<lparr>qp_events = take limit (drop (eq_offset q) es), qp_total = length es, qp_limit = limit,
         qp_offset = eq_offset q, qp_hasMore = (eq_offset q + limit < length es)\<rparr>)"

definition queryEvents :: "event_query \<Rightarrow> event_history \<Rightarrow> query_page \<times> event_history" where
  "queryEvents q h =
    (let sorted = sortEvents (eq_sortBy q) (eq_sortOrder q)
     in if hcf_indexingEnabled (eh_config h)
        then case queryFromIndex (eh_index h) q of
               Some es \<Rightarrow> (paginate q (sorted es), h)
             | None \<Rightarrow> (paginate q (sorted (eh_memory h)), h\<lparr>eh_memory := sorted (eh_memory h)\<rparr>)
        else (paginate q (sorted (queryFromMemory (eh_memory h) q)), h))"

text \<open>The events that \<open>startReplay\<close> schedules.\<close>

definition replay_events :: "int \<Rightarrow> int \<Rightarrow> event_type list option \<Rightarrow> string list option
    \<Rightarrow> event_history \<Rightarrow> event_message list \<times> event_history" where
  "replay_events start end types orderHashes h =
    map_prod qp_events id (queryEvents \<lparr>eq_types = types, eq_orderHashes = orderHashes, eq_resolvers = None,
      eq_chainIds = None, eq_timeRange = Some (start, end), eq_limit = 0, eq_offset = 0,
      eq_sortBy = By_timestamp, eq_sortOrder = Asc\<rparr> h)"

datatype search_field = In_eventType | In_orderHash | In_resolver | In_data

fun occurs_in :: "string \<Rightarrow> string \<Rightarrow> bool" where
  "occurs_in p [] = (p = [])"
| "occurs_in p (c # s) = (take (length p) (c # s) = p \<or> occurs_in p s)"

fun field_text :: "search_field \<Rightarrow> event_message \<Rightarrow> string" where
  "field_text In_eventType e = event_type_str (em_type e)"
| "field_text In_orderHash e = (case md_orderHash (em_metadata e) of None \<Rightarrow> [] | Some s \<Rightarrow> s)"
| "field_text In_resolver e = (case md_resolver (em_metadata e) of None \<Rightarrow> [] | Some s \<Rightarrow> s)"
| "field_text In_data e = JSON_stringify (em_data e)"

definition searchEvents :: "string \<Rightarrow> search_field list \<Rightarrow> nat \<Rightarrow> bool \<Rightarrow> event_history \<Rightarrow> event_message list" where
  "searchEvents textQuery inFields limit caseSensitive h =
    (let fit = (\<lambda>s. if caseSensitive then s else toLowerCase s)
     in take limit (filter (\<lambda>e. list_ex (\<lambda>f. occurs_in (fit textQuery) (fit (field_text f e))) inFields) (eh_memory h)))"

section \<open>What the index holds\<close>

datatype history_op = Add_event int event_message | Query_events event_query

fun run_op :: "history_op \<Rightarrow> event_history \<Rightarrow> event_history" where
  "run_op (Add_event now ev) h = addEvent now ev h"
| "run_op (Query_events q) h = snd (queryEvents q h)"

text \<open>The log of everything that was added.\<close>

fun added :: "history_op list \<Rightarrow> event_message list" where
  "added [] = []"
| "added (Add_event now ev # ops) = ev # added ops"
| "added (Query_events q # ops) = added ops"

lemma added_append [simp]: "added (ops @ ops') = added ops @ added ops'"
  by (induction ops rule: added.induct) auto

lemma bucket_push [simp]: "bucket_of (push_bucket k v m) k' = (if k' = k then bucket_of m k @ [v] else bucket_of m k')"
  by (simp add: bucket_of_def push_bucket_def update_conv)

lemma addEvent_index [simp]:
  "eh_config (addEvent now ev h) = eh_config h"
  "hcf_indexingEnabled (eh_config h) \<Longrightarrow> eh_index (addEvent now ev h) = updateIndex ev (eh_index h)"
  by (simp_all add: addEvent_def persistOldestEvents_def Let_def)

lemma queryEvents_index [simp]:
  "eh_config (snd (queryEvents q h)) = eh_config h" "eh_index (snd (queryEvents q h)) = eh_index h"
  by (simp_all add: queryEvents_def Let_def split: option.splits)

lemma run_op_config [simp]: "eh_config (run_op op h) = eh_config h"
  by (cases op) simp_all

lemma config_run [simp]: "eh_config (fold run_op ops h) = eh_config h"
  by (induction ops arbitrary: h) auto

lemma bucket_updateIndex:
  assumes "given (Some key)"
  shows "bucket_of (ix_orderHash (updateIndex ev ix)) key =
    bucket_of (ix_orderHash ix) key @ (if md_orderHash (em_metadata ev) = Some key then [ev] else [])"
  using assms by (auto simp: updateIndex_def Let_def given_def)

lemma index_is_log:
  assumes "hcf_indexingEnabled cfg" "given (Some key)"
  shows "bucket_of (ix_orderHash (eh_index (fold run_op ops (new_history cfg)))) key =
    filter (\<lambda>e. md_orderHash (em_metadata e) = Some key) (added ops)"
proof (induction ops rule: rev_induct)
  case Nil
  then show ?case by (simp add: new_history_def empty_index_def bucket_of_def)
next
  case (snoc op ops)
  have cfg: "eh_config (fold run_op ops (new_history cfg)) = cfg" by (simp add: new_history_def)
  show ?case
    using snoc assms cfg by (cases op) (simp_all add: bucket_updateIndex)
qed

text \<open>A query for one order, with any time range, paging and sorting.\<close>

definition for_order :: "string \<Rightarrow> event_query \<Rightarrow> bool" where
  "for_order key q \<longleftrightarrow> given (Some key) \<and> eq_orderHashes q = Some [key]
     \<and> eq_types q = None \<and> eq_resolvers q = None \<and> eq_chainIds q = None"

lemma queryFromIndex_order:
  "for_order key q \<Longrightarrow> queryFromIndex ix q =
    (let es = bucket_of (ix_orderHash ix) key in if es = [] then None else Some es)"
  by (simp add: queryFromIndex_def for_order_def narrow_def Let_def)

text \<open>Without archiving, an indexed query for one order that has events answers from the log of
  everything ever added: all of the order's events, also those long evicted from memory, and
  whatever time range was asked for.\<close>

theorem order_query_reads_log:
  assumes "hcf_indexingEnabled cfg" "for_order key q"
    and "filter (\<lambda>e. md_orderHash (em_metadata e) = Some key) (added ops) \<noteq> []"
  shows "fst (queryEvents q (fold run_op ops (new_history cfg))) =
    paginate q (sortEvents (eq_sortBy q) (eq_sortOrder q)
      (filter (\<lambda>e. md_orderHash (em_metadata e) = Some key) (added ops)))"
proof -
  have "given (Some key)" using assms(2) by (simp add: for_order_def)
  moreover have "eh_config (fold run_op ops (new_history cfg)) = cfg" by (simp add: new_history_def)
  ultimately show ?thesis
    using assms by (simp add: queryEvents_def queryFromIndex_order index_is_log Let_def)
qed

section \<open>Queries without a match, and their effect on the memory\<close>

definition unfiltered :: "event_query \<Rightarrow> event_query" where
  "unfiltered q = q\<lparr>eq_types := None, eq_orderHashes := None, eq_resolvers := None, eq_chainIds := None\<rparr>"

lemma queryFromIndex_unfiltered: "queryFromIndex ix (unfiltered q) = None"
  by (simp add: queryFromIndex_def unfiltered_def narrow_def)

text \<open>An indexed query for an order without events answers, and leaves the memory, as the query
  with no filter at all: every event of every order.\<close>

theorem order_query_without_match:
  assumes "hcf_indexingEnabled cfg" "for_order key q"
    and "filter (\<lambda>e. md_orderHash (em_metadata e) = Some key) (added ops) = []"
  shows "queryEvents q (fold run_op ops (new_history cfg)) =
    queryEvents (unfiltered q) (fold run_op ops (new_history cfg))"
proof -
  have "given (Some key)" using assms(2) by (simp add: for_order_def)
  moreover have "eh_config (fold run_op ops (new_history cfg)) = cfg" by (simp add: new_history_def)
  ultimately show ?thesis
    using assms
    by (simp add: queryEvents_def queryFromIndex_order queryFromIndex_unfiltered index_is_log Let_def)
      (simp add: unfiltered_def paginate_def Let_def)
qed

lemma newest_first_sort:
  assumes "sorted_wrt (<) (map em_timestamp es)"
  shows "sortEvents By_timestamp Desc es = rev es"
proof -
  have s: "sorted (map em_timestamp es)" "distinct (map em_timestamp es)"
    using assms by (simp_all add: strict_sorted_iff)
  have "map em_timestamp (sort_key em_timestamp (rev es)) = map em_timestamp es"
    using s by (intro sorted_distinct_set_unique) (auto simp: distinct_map)
  moreover have "inj_on em_timestamp (set (sort_key em_timestamp (rev es)) \<union> set es)"
    using s(2) by (simp add: distinct_map)
  ultimately have "sort_key em_timestamp (rev es) = es" by (rule map_inj_on)
  then show ?thesis by (simp add: sortEvents_def stable_sort_def)
qed

text \<open>A query without filters reverses the memory array, so that the next overflow writes the
  newest half of the events to disk and keeps the oldest; without the query it writes the oldest.\<close>

theorem plain_query_evicts_newest:
  assumes "hcf_indexingEnabled (eh_config h)" "sorted_wrt (<) (map em_timestamp (eh_memory h))"
    and "length (eh_memory h) = hcf_maxMemoryEvents (eh_config h)"
    and "eq_sortBy q = By_timestamp" "eq_sortOrder q = Desc"
  shows "let n = hcf_maxMemoryEvents (eh_config h) div 2;
             read = addEvent now ev (snd (queryEvents (unfiltered q) h));
             unread = addEvent now ev h
         in eh_disk read = eh_disk h @ [take n (rev (eh_memory h))]
          \<and> eh_memory read = drop n (rev (eh_memory h)) @ [ev]
          \<and> eh_disk unread = eh_disk h @ [take n (eh_memory h)]
          \<and> eh_memory unread = drop n (eh_memory h) @ [ev]"
proof -
  have "snd (queryEvents (unfiltered q) h) = h\<lparr>eh_memory := rev (eh_memory h)\<rparr>"
    using assms newest_first_sort[OF assms(2)]
    by (simp add: queryEvents_def queryFromIndex_unfiltered Let_def) (simp add: unfiltered_def)
  moreover have "hcf_maxMemoryEvents (eh_config h) div 2 \<le> length (eh_memory h)" using assms(3) by simp
  ultimately show ?thesis using assms(1,3)
    by (simp add: addEvent_def persistOldestEvents_def Let_def)
qed

section \<open>Samples\<close>

definition sample_event :: "int \<Rightarrow> string \<Rightarrow> event_message" where
  "sample_event t hash = \<lparr>em_id = show_int t, em_type = OrderCreated, em_timestamp = t, em_data = JNull,
     em_metadata = \<lparr>md_orderHash = Some hash, md_resolver = None, md_chainId = None, md_urgent = False\<rparr>\<rparr>"

definition sample_config :: history_config where
  "sample_config = \<lparr>hcf_maxMemoryEvents = 2, hcf_indexingEnabled = True, hcf_archiveAfterDays = 30\<rparr>"

definition sample_event_query :: "string \<Rightarrow> event_query" where
  "sample_event_query hash = \<lparr>eq_types = None, eq_orderHashes = Some [hash], eq_resolvers = None, eq_chainIds = None,
     eq_timeRange = Some (7, 9), eq_limit = 0, eq_offset = 0, eq_sortBy = By_timestamp, eq_sortOrder = Desc\<rparr>"

definition sample_ops :: "history_op list" where
  "sample_ops = map (\<lambda>t. Add_event t (sample_event t ''0xa'')) [1, 2, 3, 4]"

lemma sample_for_order: "for_order ''0xa'' (sample_event_query ''0xa'')" "for_order ''0xb'' (sample_event_query ''0xb'')"
  by code_simp+

lemma order_query_reads_log_witness:
  "map em_timestamp (qp_events (fst (queryEvents (sample_event_query ''0xa'')
     (fold run_op sample_ops (new_history sample_config))))) = [4, 3, 2, 1]"
proof -
  have "filter (\<lambda>e. md_orderHash (em_metadata e) = Some ''0xa'') (added sample_ops) \<noteq> []"
    "hcf_indexingEnabled sample_config" by code_simp+
  note r = order_query_reads_log[OF this(2) sample_for_order(1) this(1)]
  show ?thesis unfolding r by code_simp
qed

lemma order_query_without_match_witness:
  "queryEvents (sample_event_query ''0xb'') (fold run_op sample_ops (new_history sample_config)) =
   queryEvents (unfiltered (sample_event_query ''0xb'')) (fold run_op sample_ops (new_history sample_config))"
proof (rule order_query_without_match[OF _ sample_for_order(2)])
  show "filter (\<lambda>e. md_orderHash (em_metadata e) = Some ''0xb'') (added sample_ops) = []" by code_simp
  show "hcf_indexingEnabled sample_config" by code_simp
qed

lemma plain_query_evicts_newest_witness:
  "eh_disk (addEvent 3 (sample_event 3 ''0xa'') (snd (queryEvents (unfiltered (sample_event_query ''0xa''))
     (fold run_op (take 2 sample_ops) (new_history sample_config))))) = [[sample_event 2 ''0xa'']]"
proof -
  let ?h = "fold run_op (take 2 sample_ops) (new_history sample_config)"
  let ?q = "sample_event_query ''0xa''"
  have h: "hcf_indexingEnabled (eh_config ?h)" "sorted_wrt (<) (map em_timestamp (eh_memory ?h))"
    "length (eh_memory ?h) = hcf_maxMemoryEvents (eh_config ?h)" "eq_sortBy ?q = By_timestamp"
    "eq_sortOrder ?q = Desc" by code_simp+
  have "eh_disk ?h = []" "take (hcf_maxMemoryEvents (eh_config ?h) div 2) (rev (eh_memory ?h)) = [sample_event 2 ''0xa'']"
    by code_simp+
  then show ?thesis using plain_query_evicts_newest[OF h, of 3 "sample_event 3 ''0xa''"] by (simp add: Let_def)
qed

end
