(* ===== verification/Client_Subscriptions.thy ===== *)
theory Client_Subscriptions
  imports Fusion_Events
begin

text \<open>
  The subscriptions of the relayer's clients (\<open>relayer/src/client-subscriptions.ts\<close>, class
  \<open>ClientSubscriptionManager\<close>) on top of the event bus.

  A subscription object is shared by the client record, the map of subscriptions and the callback
  registered at the bus, and outlives its removal from the first two; \<open>sm_heap\<close> holds every
  subscription object under its id, the other places hold ids. Queued events are numbered in place
  of their random ids.

  \<open>processDeliveryQueue\<close> awaits every delivery, so other code can run between two of them.
  \<open>start_run\<close>, \<open>next_delivery\<close> and the end of the loop are separate steps. The loop iterates over the
  array it started with: \<open>dr_array\<close> is \<open>None\<close> while that still is the delivery queue, and the old
  array once the queue has been replaced.

  Average latency, byte counts and log lines are left out; they influence nothing.
  The retry branch of \<open>deliverEvent\<close> is left out: it is taken when a statement of the delivery throws, and these count and measure an
  event whose data is JSON, which does not throw. The branch would not queue the event again either; it returns false like a refusal.
\<close>

datatype sub_priority = PLow | PMedium | PHigh | PUrgent

record subscription_filters =
  sf_orderHashes :: "string set option"
  sf_resolvers :: "string set option"
  sf_chainIds :: "int set option"
  sf_eventProperties :: "(string \<times> json) list option"
  sf_timeRange :: "(int \<times> int) option"
  sf_minConfidence :: "int option"
  sf_maxLatency :: "int option"
  sf_excludeTestEvents :: "bool option"

record subscription_stats =
  ss_totalEvents :: nat
  ss_deliverySuccess :: nat
  ss_lastDelivery :: int
  ss_messagesQueued :: nat

record subscription =
  su_clientId :: string
  su_eventTypes :: "event_type set"
  su_filters :: subscription_filters
  su_priority :: sub_priority
  su_createdAt :: int
  su_updatedAt :: int
  su_isActive :: bool
  su_statistics :: subscription_stats

record quota_usage =
  qu_eventsReceived :: nat
  qu_subscriptionCount :: int
  qu_resetTime :: int
  qu_quotaExceeded :: bool

record client_info =
  ci_connected :: bool
  ci_connectedAt :: int
  ci_lastActivity :: int
  ci_subscription :: "string option"
  ci_quota :: quota_usage

record queued_event =
  qe_id :: nat
  qe_event :: event_message
  qe_clientId :: string
  qe_priority :: int
  qe_timestamp :: int

record delivery_run =
  dr_array :: "queued_event list option"
  dr_pos :: nat
  dr_done :: "nat list"

record subscription_config =
  sc_maxSubscriptionsPerClient :: int
  sc_subscriptionTimeout :: int

record subscription_manager =
  sm_config :: subscription_config
  sm_clients :: "(string \<times> client_info) list"
  sm_heap :: "(string \<times> subscription) list"
  sm_subscriptions :: "string list"
  sm_queue :: "queued_event list"
  sm_next :: nat
  sm_run :: "delivery_run option"

text \<open>The request of \<open>createSubscription\<close> and \<open>updateSubscription\<close>; absent fields are \<open>None\<close>.\<close>

record subscription_request =
  rs_clientId :: string
  rs_eventTypes :: "event_type set option"
  rs_filters :: "subscription_filters option"
  rs_priority :: "sub_priority option"

definition no_filters :: subscription_filters where
  "no_filters = \<lparr>sf_orderHashes = None, sf_resolvers = None, sf_chainIds = None, sf_eventProperties = None,
     sf_timeRange = None, sf_minConfidence = None, sf_maxLatency = None, sf_excludeTestEvents = None\<rparr>"

definition initializeQuotaUsage :: "int \<Rightarrow> quota_usage" where
  "initializeQuotaUsage now = \<lparr>qu_eventsReceived = 0, qu_subscriptionCount = 0, qu_resetTime = now + 60000,
     qu_quotaExceeded = False\<rparr>"

definition initializeSubscriptionStatistics :: subscription_stats where
  "initializeSubscriptionStatistics = \<lparr>ss_totalEvents = 0, ss_deliverySuccess = 0, ss_lastDelivery = 0,
     ss_messagesQueued = 0\<rparr>"

section \<open>Clients and subscriptions\<close>

definition registerClient :: "int \<Rightarrow> string \<Rightarrow> subscription_manager \<Rightarrow> subscription_manager" where
  "registerClient now clientId m = m\<lparr>sm_clients := AList.update clientId
     \<lparr>ci_connected = True, ci_connectedAt = now, ci_lastActivity = now, ci_subscription = None,
      ci_quota = initializeQuotaUsage now\<rparr> (sm_clients m)\<rparr>"

text \<open>Assigning a filtered copy to the queue detaches a running loop from it.\<close>

definition drop_queued :: "string \<Rightarrow> subscription_manager \<Rightarrow> subscription_manager" where
  "drop_queued clientId m =
    m\<lparr>sm_queue := filter (\<lambda>item. qe_clientId item \<noteq> clientId) (sm_queue m),
      sm_run := (case sm_run m of
         None \<Rightarrow> None
       | Some r \<Rightarrow> Some (case dr_array r of None \<Rightarrow> r\<lparr>dr_array := Some (sm_queue m)\<rparr> | Some _ \<Rightarrow> r))\<rparr>"

definition map_sub :: "string \<Rightarrow> (subscription \<Rightarrow> subscription) \<Rightarrow> subscription_manager \<Rightarrow> subscription_manager" where
  "map_sub sid f m = (case map_of (sm_heap m) sid of
     None \<Rightarrow> m | Some s \<Rightarrow> m\<lparr>sm_heap := AList.update sid (f s) (sm_heap m)\<rparr>)"

definition map_client :: "string \<Rightarrow> (client_info \<Rightarrow> client_info) \<Rightarrow> subscription_manager \<Rightarrow> subscription_manager" where
  "map_client cid f m = (case map_of (sm_clients m) cid of
     None \<Rightarrow> m | Some c \<Rightarrow> m\<lparr>sm_clients := AList.update cid (f c) (sm_clients m)\<rparr>)"

definition cancelSubscription :: "string \<Rightarrow> subscription_manager \<Rightarrow> bool \<times> subscription_manager" where
  "cancelSubscription clientId m =
    (case map_of (sm_clients m) clientId of
       None \<Rightarrow> (False, m)
     | Some client \<Rightarrow>
        (case ci_subscription client of
           None \<Rightarrow> (False, m)
         | Some sid \<Rightarrow>
            (let m1 = map_sub sid (\<lambda>s. s\<lparr>su_isActive := False\<rparr>) m;
                 m2 = m1\<lparr>sm_subscriptions := filter (\<lambda>i. i \<noteq> sid) (sm_subscriptions m1)\<rparr>;
                 m3 = map_client clientId (\<lambda>c. c\<lparr>ci_subscription := None,
                        ci_quota := (ci_quota c)\<lparr>qu_subscriptionCount := qu_subscriptionCount (ci_quota c) - 1\<rparr>\<rparr>) m2
             in (True, drop_queued clientId m3))))"

definition unregisterClient :: "string \<Rightarrow> subscription_manager \<Rightarrow> bool \<times> subscription_manager" where
  "unregisterClient clientId m =
    (case map_of (sm_clients m) clientId of
       None \<Rightarrow> (False, m)
     | Some client \<Rightarrow>
        (let m1 = (if ci_subscription client \<noteq> None then snd (cancelSubscription clientId m) else m);
             m2 = drop_queued clientId m1
         in (True, m2\<lparr>sm_clients := AList.delete clientId (sm_clients m2)\<rparr>)))"

definition new_subscription :: "int \<Rightarrow> subscription_request \<Rightarrow> subscription" where
  "new_subscription now rq =
    (let f = (case rs_filters rq of None \<Rightarrow> no_filters | Some f \<Rightarrow> f)
     in \<lparr>su_clientId = rs_clientId rq,
         su_eventTypes = (case rs_eventTypes rq of None \<Rightarrow> {} | Some ts \<Rightarrow> ts),
         su_filters = f\<lparr>sf_excludeTestEvents := Some (sf_excludeTestEvents f = Some True)\<rparr>,
         su_priority = (case rs_priority rq of None \<Rightarrow> PMedium | Some p \<Rightarrow> p),
         su_createdAt = now, su_updatedAt = now, su_isActive = True,
         su_statistics = initializeSubscriptionStatistics\<rparr>)"

text \<open>The listener carries the sets of the subscription as it was created.\<close>

definition listener_of :: "string \<Rightarrow> subscription \<Rightarrow> string event_listener" where
  "listener_of sid s = \<lparr>el_types = su_eventTypes s,
     el_filters = \<lparr>lf_orderHashes = sf_orderHashes (su_filters s), lf_resolvers = sf_resolvers (su_filters s),
       lf_chainIds = sf_chainIds (su_filters s)\<rparr>, el_callback = sid\<rparr>"

text \<open>\<open>sid\<close> and \<open>lid\<close> are the generated ids of the subscription and of its listener.\<close>

definition createSubscription :: "int \<Rightarrow> string \<Rightarrow> string \<Rightarrow> subscription_request
    \<Rightarrow> subscription_manager \<times> string event_manager
    \<Rightarrow> (string + string) \<times> subscription_manager \<times> string event_manager" where
  "createSubscription now sid lid rq mb =
    (let (m, bus) = mb
     in case map_of (sm_clients m) (rs_clientId rq) of
          None \<Rightarrow> (Inl (''Client not found: '' @ rs_clientId rq), m, bus)
        | Some client \<Rightarrow>
           (if qu_subscriptionCount (ci_quota client) \<ge> sc_maxSubscriptionsPerClient (sm_config m)
            then (Inl ''Subscription limit exceeded'', m, bus)
            else let s = new_subscription now rq;
                m1 = m\<lparr>sm_heap := AList.update sid s (sm_heap m), sm_subscriptions := sm_subscriptions m @ [sid]\<rparr>;
                m2 = map_client (rs_clientId rq) (\<lambda>c. c\<lparr>ci_subscription := Some sid,
                       ci_quota := (ci_quota c)\<lparr>qu_subscriptionCount := qu_subscriptionCount (ci_quota c) + 1\<rparr>\<rparr>) m1
              in (Inr sid, m2, addEventListener lid (listener_of sid s) bus)))"

definition merge_filters :: "subscription_filters \<Rightarrow> subscription_filters \<Rightarrow> subscription_filters" where
  "merge_filters old new =
    (let pick = (\<lambda>a b. if b = None then a else b)
     in \<lparr>sf_orderHashes = (if sf_orderHashes new = None then sf_orderHashes old else sf_orderHashes new),
         sf_resolvers = (if sf_resolvers new = None then sf_resolvers old else sf_resolvers new),
         sf_chainIds = (if sf_chainIds new = None then sf_chainIds old else sf_chainIds new),
         sf_eventProperties = (if sf_eventProperties new = None then sf_eventProperties old else sf_eventProperties new),
         sf_timeRange = (if sf_timeRange new = None then sf_timeRange old else sf_timeRange new),
         sf_minConfidence = pick (sf_minConfidence old) (sf_minConfidence new),
         sf_maxLatency = pick (sf_maxLatency old) (sf_maxLatency new),
         sf_excludeTestEvents = (if sf_excludeTestEvents new = None then sf_excludeTestEvents old else sf_excludeTestEvents new)\<rparr>)"

definition updateSubscription :: "int \<Rightarrow> subscription_request \<Rightarrow> subscription_manager
    \<Rightarrow> (string + bool) \<times> subscription_manager" where
  "updateSubscription now rq m =
    (case map_of (sm_clients m) (rs_clientId rq) of
       Some client \<Rightarrow>
        (case ci_subscription client of
           Some sid \<Rightarrow>
             (Inr True, map_sub sid (\<lambda>s. s\<lparr>
                su_eventTypes := (case rs_eventTypes rq of None \<Rightarrow> su_eventTypes s | Some ts \<Rightarrow> ts),
                su_filters := (case rs_filters rq of None \<Rightarrow> su_filters s | Some f \<Rightarrow> merge_filters (su_filters s) f),
                su_priority := (case rs_priority rq of None \<Rightarrow> su_priority s | Some p \<Rightarrow> p),
                su_updatedAt := now\<rparr>) m)
         | None \<Rightarrow> (Inl (''Subscription not found for client: '' @ rs_clientId rq), m))
     | None \<Rightarrow> (Inl (''Subscription not found for client: '' @ rs_clientId rq), m))"

section \<open>Queueing\<close>

definition differs :: "json option \<Rightarrow> json \<Rightarrow> bool" where
  "differs actual wanted \<longleftrightarrow> (case wanted of JArr _ \<Rightarrow> True | JObj _ \<Rightarrow> True | _ \<Rightarrow> actual \<noteq> Some wanted)"

definition truthy_flag :: "json option \<Rightarrow> bool" where
  "truthy_flag v \<longleftrightarrow> (case v of
     None \<Rightarrow> False | Some JNull \<Rightarrow> False | Some (JBool b) \<Rightarrow> b | Some (JNum i) \<Rightarrow> i \<noteq> 0
   | Some (JStr s) \<Rightarrow> s \<noteq> [] | _ \<Rightarrow> True)"

definition eventMatchesFilters :: "int \<Rightarrow> event_message \<Rightarrow> subscription_filters \<Rightarrow> bool" where
  "eventMatchesFilters now ev f =
    (if (case sf_timeRange f of None \<Rightarrow> False | Some (s, e) \<Rightarrow> em_timestamp ev < s \<or> em_timestamp ev > e) then False
     else if (case sf_eventProperties f of None \<Rightarrow> False
              | Some ps \<Rightarrow> list_ex (\<lambda>(k, v). differs (jget (em_data ev) k) v) ps) then False
     else if (case (sf_minConfidence f, jget (em_data ev) ''confidence'') of
                (Some c, Some (JNum d)) \<Rightarrow> c \<noteq> 0 \<and> d < c | _ \<Rightarrow> False) then False
     else if (case sf_maxLatency f of None \<Rightarrow> False | Some l \<Rightarrow> l \<noteq> 0 \<and> now - em_timestamp ev > l) then False
     else if sf_excludeTestEvents f = Some True \<and> truthy_flag (jget (em_data ev) ''isTest'') then False
     else True)"

fun base_priority :: "sub_priority \<Rightarrow> int" where
  "base_priority PUrgent = 1000"
| "base_priority PHigh = 750"
| "base_priority PMedium = 500"
| "base_priority PLow = 250"

definition calculateEventPriority :: "event_message \<Rightarrow> subscription \<Rightarrow> int" where
  "calculateEventPriority ev s =
    base_priority (su_priority s)
    + (if em_type ev = OrderFilledPartially then 100 else 0)
    + (if em_type ev = OrderFilled then 200 else 0)
    + (if em_type ev = OrderCancelled then 150 else 0)
    + (if md_urgent (em_metadata ev) then 300 else 0)"

text \<open>The synchronous part of the callback; the call of \<open>processDeliveryQueue\<close> at its end is a
  \<open>start_run\<close> that may follow.\<close>

definition handleEventForSubscription :: "int \<Rightarrow> string \<Rightarrow> event_message \<Rightarrow> subscription_manager
    \<Rightarrow> subscription_manager" where
  "handleEventForSubscription now sid ev m =
    (case map_of (sm_heap m) sid of
       None \<Rightarrow> m
     | Some s \<Rightarrow>
        (if \<not> su_isActive s then m
         else if \<not> eventMatchesFilters now ev (su_filters s) then m
         else case map_of (sm_clients m) (su_clientId s) of
           None \<Rightarrow> m
         | Some client \<Rightarrow>
            (if qu_quotaExceeded (ci_quota client) then m
             else map_sub sid (\<lambda>s. s\<lparr>su_statistics := (su_statistics s)
                      \<lparr>ss_totalEvents := ss_totalEvents (su_statistics s) + 1,
                       ss_messagesQueued := ss_messagesQueued (su_statistics s) + 1\<rparr>\<rparr>)
               (m\<lparr>sm_queue := sm_queue m @ [\<lparr>qe_id = sm_next m, qe_event = ev, qe_clientId = su_clientId s,
                    qe_priority = calculateEventPriority ev s, qe_timestamp = now\<rparr>],
                  sm_next := sm_next m + 1\<rparr>))))"

section \<open>Delivering\<close>

definition sort_queue :: "queued_event list \<Rightarrow> queued_event list" where
  "sort_queue q = sort_key (\<lambda>item. (- qe_priority item, qe_timestamp item)) q"

definition start_run :: "subscription_manager \<Rightarrow> subscription_manager" where
  "start_run m =
    (if sm_run m \<noteq> None \<or> sm_queue m = [] then m
     else m\<lparr>sm_queue := sort_queue (sm_queue m), sm_run := Some \<lparr>dr_array = None, dr_pos = 0, dr_done = []\<rparr>\<rparr>)"

definition can_deliver :: "queued_event \<Rightarrow> subscription_manager \<Rightarrow> string option" where
  "can_deliver item m =
    (case map_of (sm_clients m) (qe_clientId item) of
       None \<Rightarrow> None
     | Some client \<Rightarrow>
        (if \<not> ci_connected client then None
         else case ci_subscription client of
           None \<Rightarrow> None
         | Some sid \<Rightarrow>
            (case map_of (sm_heap m) sid of
               None \<Rightarrow> None
             | Some s \<Rightarrow> (if \<not> su_isActive s \<or> qu_quotaExceeded (ci_quota client) then None else Some sid))))"

definition deliverEvent :: "int \<Rightarrow> queued_event \<Rightarrow> subscription_manager \<Rightarrow> bool \<times> subscription_manager" where
  "deliverEvent now item m =
    (case can_deliver item m of
       None \<Rightarrow> (False, m)
     | Some sid \<Rightarrow>
        (True, map_client (qe_clientId item) (\<lambda>c. c\<lparr>ci_lastActivity := now,
             ci_quota := (ci_quota c)\<lparr>qu_eventsReceived := qu_eventsReceived (ci_quota c) + 1\<rparr>\<rparr>)
           (map_sub sid (\<lambda>s. s\<lparr>su_statistics := (su_statistics s)
              \<lparr>ss_deliverySuccess := ss_deliverySuccess (su_statistics s) + 1, ss_lastDelivery := now\<rparr>\<rparr>) m)))"

definition run_array :: "delivery_run \<Rightarrow> subscription_manager \<Rightarrow> queued_event list" where
  "run_array r m = (case dr_array r of None \<Rightarrow> sm_queue m | Some a \<Rightarrow> a)"

text \<open>One iteration of the loop, or its end. The first component is the delivered item.\<close>

definition next_delivery :: "int \<Rightarrow> subscription_manager \<Rightarrow> queued_event option \<times> subscription_manager" where
  "next_delivery now m =
    (case sm_run m of
       None \<Rightarrow> (None, m)
     | Some r \<Rightarrow>
        (let items = run_array r m
         in if dr_pos r \<ge> length items \<or> length (dr_done r) \<ge> 100
            then (None, m\<lparr>sm_queue := filter (\<lambda>item. qe_id item \<notin> set (dr_done r)) (sm_queue m), sm_run := None\<rparr>)
            else let item = items ! dr_pos r; (delivered, m') = deliverEvent now item m
              in (if delivered then Some item else None,
                  m'\<lparr>sm_run := Some (r\<lparr>dr_pos := dr_pos r + 1,
                      dr_done := (if delivered then dr_done r @ [qe_id item] else dr_done r)\<rparr>)\<rparr>)))"

section \<open>Timers\<close>

definition cleanupInactiveSubscriptions :: "int \<Rightarrow> subscription_manager \<Rightarrow> subscription_manager" where
  "cleanupInactiveSubscriptions now m =
    fold (\<lambda>cid m. snd (unregisterClient cid m))
      (map fst (filter (\<lambda>(cid, c). now - ci_lastActivity c > sc_subscriptionTimeout (sm_config m)) (sm_clients m))) m"

definition resetQuotas :: "int \<Rightarrow> subscription_manager \<Rightarrow> subscription_manager" where
  "resetQuotas now m = m\<lparr>sm_clients := map (\<lambda>(cid, c).
     (cid, if now \<ge> qu_resetTime (ci_quota c) then c\<lparr>ci_quota := initializeQuotaUsage now\<rparr> else c)) (sm_clients m)\<rparr>"

definition activeSubscriptions :: "subscription_manager \<Rightarrow> nat" where
  "activeSubscriptions m = length (filter (\<lambda>i. case map_of (sm_heap m) i of None \<Rightarrow> False | Some s \<Rightarrow> su_isActive s)
     (sm_subscriptions m))"

section \<open>Runs\<close>

datatype sub_op =
    Register int string
  | Unregister string
  | Create int string string subscription_request
  | Update int subscription_request
  | Cancel string
  | Emit int event_message
  | Start_run
  | Next_delivery int
  | Cleanup int
  | Reset_quotas int

record sub_system =
  sy_manager :: subscription_manager
  sy_bus :: "string event_manager"
  sy_delivered :: "nat list"

definition on_manager :: "(subscription_manager \<Rightarrow> subscription_manager) \<Rightarrow> sub_system \<Rightarrow> sub_system" where
  "on_manager f y = y\<lparr>sy_manager := f (sy_manager y)\<rparr>"

text \<open>\<open>sy_delivered\<close> is the log of the numbers of delivered items.\<close>

fun sub_step :: "sub_op \<Rightarrow> sub_system \<Rightarrow> sub_system" where
  "sub_step (Register now cid) y = on_manager (registerClient now cid) y"
| "sub_step (Unregister cid) y = on_manager (\<lambda>m. snd (unregisterClient cid m)) y"
| "sub_step (Create now sid lid rq) y =
    (case createSubscription now sid lid rq (sy_manager y, sy_bus y) of
       (_, m, bus) \<Rightarrow> y\<lparr>sy_manager := m, sy_bus := bus\<rparr>)"
| "sub_step (Update now rq) y = on_manager (\<lambda>m. snd (updateSubscription now rq m)) y"
| "sub_step (Cancel cid) y = on_manager (\<lambda>m. snd (cancelSubscription cid m)) y"
| "sub_step (Emit now ev) y =
    (case emitEvent (handleEventForSubscription now) ev (sy_bus y) (sy_manager y) of
       (bus, m) \<Rightarrow> y\<lparr>sy_manager := m, sy_bus := bus\<rparr>)"
| "sub_step Start_run y = on_manager start_run y"
| "sub_step (Next_delivery now) y =
    (case next_delivery now (sy_manager y) of
       (out, m) \<Rightarrow> y\<lparr>sy_manager := m,
         sy_delivered := sy_delivered y @ (case out of None \<Rightarrow> [] | Some item \<Rightarrow> [qe_id item])\<rparr>)"
| "sub_step (Cleanup now) y = on_manager (cleanupInactiveSubscriptions now) y"
| "sub_step (Reset_quotas now) y = on_manager (resetQuotas now) y"

definition new_system :: "subscription_config \<Rightarrow> sub_system" where
  "new_system cfg = \<lparr>sy_manager = \<lparr>sm_config = cfg, sm_clients = [], sm_heap = [], sm_subscriptions = [],
     sm_queue = [], sm_next = 0, sm_run = None\<rparr>, sy_bus = \<lparr>mg_listeners = [], mg_history = []\<rparr>,
     sy_delivered = []\<rparr>"

section \<open>Every queued event is delivered at most once\<close>

abbreviation ids :: "queued_event list \<Rightarrow> nat list" where
  "ids q \<equiv> map qe_id q"

text \<open>What concerns deliveries: the queue, the next number and the running loop.\<close>

definition run_ok :: "queued_event list \<Rightarrow> nat \<Rightarrow> delivery_run option \<Rightarrow> nat list \<Rightarrow> bool" where
  "run_ok q n run log \<longleftrightarrow>
    (case run of
       None \<Rightarrow> set log \<inter> set (ids q) = {}
     | Some r \<Rightarrow>
        (let a = (case dr_array r of None \<Rightarrow> q | Some a \<Rightarrow> a)
         in distinct (ids a) \<and> (\<forall>i \<in> set (ids a). i < n) \<and> set log \<inter> set (ids q) \<subseteq> set (dr_done r)
            \<and> set log \<inter> set (ids (drop (dr_pos r) a)) = {} \<and> dr_pos r \<le> length a))"

definition delivery_ok :: "subscription_manager \<Rightarrow> nat list \<Rightarrow> bool" where
  "delivery_ok m log \<longleftrightarrow> distinct (ids (sm_queue m)) \<and> (\<forall>i \<in> set (ids (sm_queue m)) \<union> set log. i < sm_next m)
     \<and> distinct log \<and> run_ok (sm_queue m) (sm_next m) (sm_run m) log"

definition same_queue :: "subscription_manager \<Rightarrow> subscription_manager \<Rightarrow> bool" where
  "same_queue m m' \<longleftrightarrow> sm_queue m' = sm_queue m \<and> sm_next m' = sm_next m \<and> sm_run m' = sm_run m"

lemma delivery_ok_same: "same_queue m m' \<Longrightarrow> delivery_ok m' log = delivery_ok m log"
  by (simp add: same_queue_def delivery_ok_def)

lemma same_queue_maps [simp]:
  "same_queue m (map_sub sid f m)" "same_queue m (map_client cid g m)"
  "sm_queue (map_sub sid f m) = sm_queue m" "sm_queue (map_client cid g m) = sm_queue m"
  "sm_next (map_sub sid f m) = sm_next m" "sm_next (map_client cid g m) = sm_next m"
  "sm_run (map_sub sid f m) = sm_run m" "sm_run (map_client cid g m) = sm_run m"
  by (simp_all add: same_queue_def map_sub_def map_client_def split: option.splits)

lemma delivery_ok_drop: "delivery_ok m log \<Longrightarrow> delivery_ok (drop_queued cid m) log"
  by (auto simp: delivery_ok_def drop_queued_def run_ok_def Let_def distinct_map_filter split: option.splits)

lemma delivery_ok_cancel: "delivery_ok m log \<Longrightarrow> delivery_ok (snd (cancelSubscription cid m)) log"
  by (auto simp: cancelSubscription_def Let_def split: option.splits
      intro!: delivery_ok_drop) (simp add: delivery_ok_def)

lemma delivery_ok_unregister: "delivery_ok m log \<Longrightarrow> delivery_ok (snd (unregisterClient cid m)) log"
proof -
  assume ok: "delivery_ok m log"
  have "delivery_ok (m'\<lparr>sm_clients := cs\<rparr>) log = delivery_ok m' log" for m' cs
    by (simp add: delivery_ok_def)
  then show ?thesis using ok
    by (auto simp: unregisterClient_def Let_def split: option.splits intro!: delivery_ok_drop delivery_ok_cancel)
qed

lemma delivery_ok_handle: "delivery_ok m log \<Longrightarrow> delivery_ok (handleEventForSubscription now sid ev m) log"
proof -
  assume ok: "delivery_ok m log"
  have push: "delivery_ok (map_sub sid f (m\<lparr>sm_queue := sm_queue m @ [x], sm_next := sm_next m + 1\<rparr>)) log"
    if "qe_id x = sm_next m" for x f
    using ok that
    by (auto simp: delivery_ok_def run_ok_def Let_def less_Suc_eq split: option.splits)
  show ?thesis using ok push
    by (auto simp: handleEventForSubscription_def split: option.splits)
qed

lemma delivery_ok_emit: "delivery_ok m log \<Longrightarrow> delivery_ok (fold (\<lambda>c. handleEventForSubscription now c ev) cs m) log"
  by (induction cs arbitrary: m) (auto intro: delivery_ok_handle)

lemma delivery_ok_start: "delivery_ok m log \<Longrightarrow> delivery_ok (start_run m) log"
proof -
  assume ok: "delivery_ok m log"
  have s: "set (sort_queue q) = set q" "distinct (ids (sort_queue q)) = distinct (ids q)" for q
    by (simp_all add: sort_queue_def distinct_map)
  show ?thesis using ok s by (auto simp: start_run_def delivery_ok_def run_ok_def Let_def; blast)
qed

lemma delivery_ok_next:
  assumes ok: "delivery_ok m log" and step: "next_delivery now m = (out, m')"
  shows "delivery_ok m' (log @ (case out of None \<Rightarrow> [] | Some item \<Rightarrow> [qe_id item]))"
proof (cases "sm_run m")
  case None
  then show ?thesis using assms by (auto simp: next_delivery_def)
next
  case (Some r)
  let ?a = "run_array r m"
  show ?thesis
  proof (cases "dr_pos r \<ge> length ?a \<or> length (dr_done r) \<ge> 100")
    case True
    then show ?thesis using assms Some
      by (auto simp: next_delivery_def Let_def delivery_ok_def run_ok_def distinct_map_filter split: option.splits)
  next
    case False
    let ?item = "?a ! dr_pos r"
    obtain b m1 where d: "deliverEvent now ?item m = (b, m1)" by force
    then have m1: "sm_queue m1 = sm_queue m" "sm_next m1 = sm_next m"
      by (auto simp: deliverEvent_def split: option.splits)
    have drop: "drop (dr_pos r) ?a = ?item # drop (dr_pos r + 1) ?a"
      using False by (simp add: Cons_nth_drop_Suc)
    have arr: "(case dr_array r of None \<Rightarrow> sm_queue m | Some a \<Rightarrow> a) = ?a" by (simp add: run_array_def)
    have da: "distinct (ids (drop (dr_pos r) ?a))"
      using ok Some by (auto simp: delivery_ok_def run_ok_def arr Let_def drop_map[symmetric])
    have fresh: "qe_id ?item \<notin> set log" "qe_id ?item < sm_next m"
      "qe_id ?item \<notin> set (ids (drop (dr_pos r + 1) ?a))"
      using ok Some drop da False
      by (auto simp: delivery_ok_def run_ok_def arr Let_def)
    have m': "m' = m1\<lparr>sm_run := Some (r\<lparr>dr_pos := dr_pos r + 1,
        dr_done := (if b then dr_done r @ [qe_id ?item] else dr_done r)\<rparr>)\<rparr>"
      and out: "out = (if b then Some ?item else None)"
      using step Some False d by (auto simp: next_delivery_def Let_def)
    have "set log \<inter> set (ids (drop (dr_pos r + 1) ?a)) = {}"
      using ok Some drop by (auto simp: delivery_ok_def run_ok_def arr Let_def)
    with ok Some fresh False m1 arr show ?thesis unfolding m' out
      by (cases "dr_array r") (auto simp: delivery_ok_def run_ok_def Let_def)
  qed
qed

lemma delivery_ok_step: "delivery_ok (sy_manager y) (sy_delivered y) \<Longrightarrow>
  delivery_ok (sy_manager (sub_step op y)) (sy_delivered (sub_step op y))"
proof (cases op)
  case (Cleanup now)
  have "delivery_ok m log \<Longrightarrow> delivery_ok (fold (\<lambda>cid m. snd (unregisterClient cid m)) cs m) log" for cs m log
    by (induction cs arbitrary: m) (auto intro: delivery_ok_unregister)
  then show "delivery_ok (sy_manager y) (sy_delivered y) \<Longrightarrow> ?thesis"
    by (simp add: Cleanup on_manager_def cleanupInactiveSubscriptions_def)
next
  case (Next_delivery now)
  then show "delivery_ok (sy_manager y) (sy_delivered y) \<Longrightarrow> ?thesis"
    by (auto split: prod.splits dest: delivery_ok_next)
next
  case (Create now sid lid rq)
  have "same_queue (sy_manager y) (fst (snd (createSubscription now sid lid rq (sy_manager y, sy_bus y))))"
    by (simp add: createSubscription_def Let_def same_queue_def split: option.splits)
  then show "delivery_ok (sy_manager y) (sy_delivered y) \<Longrightarrow> ?thesis"
    by (auto simp: Create delivery_ok_same split: prod.splits)
next
  case (Update now rq)
  have same: "same_queue m (snd (updateSubscription now rq m))" for m
    by (simp add: updateSubscription_def same_queue_def split: option.splits)
  then show "delivery_ok (sy_manager y) (sy_delivered y) \<Longrightarrow> ?thesis"
    by (simp add: Update on_manager_def delivery_ok_same[OF same])
next
  case (Register now cid)
  then show "delivery_ok (sy_manager y) (sy_delivered y) \<Longrightarrow> ?thesis"
    by (simp add: on_manager_def delivery_ok_def registerClient_def)
next
  case (Reset_quotas now)
  then show "delivery_ok (sy_manager y) (sy_delivered y) \<Longrightarrow> ?thesis"
    by (simp add: on_manager_def delivery_ok_def resetQuotas_def)
qed (auto simp: on_manager_def emitEvent_def intro: delivery_ok_unregister delivery_ok_cancel delivery_ok_emit
    delivery_ok_start)

lemma delivery_ok_runs: "delivery_ok (sy_manager (fold sub_step ops (new_system cfg)))
  (sy_delivered (fold sub_step ops (new_system cfg)))"
proof (induction ops rule: rev_induct)
  case Nil
  show ?case by (simp add: new_system_def delivery_ok_def run_ok_def)
qed (simp add: delivery_ok_step)

text \<open>C17: However registrations, subscriptions, events, clean-ups and the iterations of the delivery
  loop interleave, no queued event is delivered twice, also when the queue is replaced under a
  running loop.\<close>

theorem queued_event_delivered_once:
  "distinct (sy_delivered (fold sub_step ops (new_system cfg)))"
  using delivery_ok_runs by (simp add: delivery_ok_def)

section \<open>What an update does not reach\<close>

text \<open>Two managers that differ at most in what only listeners look at.\<close>

definition alike_sub :: "subscription \<Rightarrow> subscription \<Rightarrow> bool" where
  "alike_sub s s' \<longleftrightarrow> su_clientId s' = su_clientId s \<and> su_isActive s' = su_isActive s
     \<and> su_priority s' = su_priority s
     \<and> (\<forall>now ev. eventMatchesFilters now ev (su_filters s') = eventMatchesFilters now ev (su_filters s))"

definition alike :: "subscription_manager \<Rightarrow> subscription_manager \<Rightarrow> bool" where
  "alike m m' \<longleftrightarrow> sm_clients m' = sm_clients m \<and> sm_queue m' = sm_queue m \<and> sm_next m' = sm_next m
     \<and> (\<forall>sid. rel_option alike_sub (map_of (sm_heap m) sid) (map_of (sm_heap m') sid))"

lemma alike_sub_refl [simp]: "alike_sub s s"
  by (simp add: alike_sub_def)

lemma alike_refl [simp]: "alike m m"
  by (simp add: alike_def option.rel_refl)

lemma alike_map_sub: "(\<And>s. alike_sub s (f s)) \<Longrightarrow> alike m (map_sub sid f m)"
  by (auto simp: alike_def map_sub_def update_conv option.rel_refl split: option.splits)

lemma alike_handle:
  assumes a: "alike m m'"
  shows "alike (handleEventForSubscription now sid ev m) (handleEventForSubscription now sid ev m')"
proof (cases "map_of (sm_heap m) sid")
  case None
  then have "map_of (sm_heap m') sid = None"
    using a by (auto simp: alike_def option_rel_Some1 dest: spec[of _ sid])
  with None a show ?thesis by (simp add: handleEventForSubscription_def)
next
  case (Some s)
  obtain s' where s': "map_of (sm_heap m') sid = Some s'" "su_clientId s' = su_clientId s"
      "su_isActive s' = su_isActive s" "su_priority s' = su_priority s"
      "\<And>now ev. eventMatchesFilters now ev (su_filters s') = eventMatchesFilters now ev (su_filters s)"
    using a Some unfolding alike_def by (auto simp: option_rel_Some1 alike_sub_def dest!: spec[of _ sid])
  show ?thesis
    using a Some s'
    by (auto simp: handleEventForSubscription_def alike_def alike_sub_def map_sub_def update_conv calculateEventPriority_def
        split: option.splits)
qed

lemma alike_emit: "alike m m' \<Longrightarrow>
  alike (fold (\<lambda>c. handleEventForSubscription now c ev) cs m) (fold (\<lambda>c. handleEventForSubscription now c ev) cs m')"
  by (induction cs arbitrary: m m') (auto intro: alike_handle)

text \<open>A request that changes event types, orders, resolvers and chains only.\<close>

definition listener_level :: "subscription_request \<Rightarrow> bool" where
  "listener_level rq \<longleftrightarrow> rs_priority rq = None \<and> (case rs_filters rq of None \<Rightarrow> True
     | Some f \<Rightarrow> sf_eventProperties f = None \<and> sf_timeRange f = None \<and> sf_minConfidence f = None
        \<and> sf_maxLatency f = None \<and> sf_excludeTestEvents f = None)"

lemma matches_merge:
  "listener_level rq \<Longrightarrow> rs_filters rq = Some f \<Longrightarrow>
   eventMatchesFilters now ev (merge_filters old f) = eventMatchesFilters now ev old"
  by (simp add: listener_level_def merge_filters_def eventMatchesFilters_def)

lemma alike_update: "listener_level rq \<Longrightarrow> alike m (snd (updateSubscription now rq m))"
proof -
  assume l: "listener_level rq"
  then have "rs_priority rq = None" by (simp add: listener_level_def)
  then have "alike_sub s (s\<lparr>su_eventTypes := ts, su_filters := (case rs_filters rq of None \<Rightarrow> su_filters s
      | Some f \<Rightarrow> merge_filters (su_filters s) f), su_priority := (case rs_priority rq of None \<Rightarrow> su_priority s
      | Some p \<Rightarrow> p), su_updatedAt := now\<rparr>)" for s ts
    using matches_merge[OF l] by (simp add: alike_sub_def split: option.splits)
  then show ?thesis
    by (simp add: updateSubscription_def alike_map_sub split: option.splits)
qed

text \<open>Changing the event types, orders, resolvers or chains of a subscription has no effect on what
  the client is sent: every event queues exactly what it would have queued without the update.\<close>

theorem update_never_reaches_listener:
  assumes "listener_level rq"
  shows "sm_queue (snd (emitEvent (handleEventForSubscription now) ev bus (snd (updateSubscription t rq m)))) =
    sm_queue (snd (emitEvent (handleEventForSubscription now) ev bus m))"
  using alike_emit[OF alike_update[OF assms]] by (simp add: emitEvent_def alike_def)

section \<open>Samples\<close>

definition sample_request :: "event_type set \<Rightarrow> subscription_request" where
  "sample_request ts = \<lparr>rs_clientId = ''c'', rs_eventTypes = Some ts, rs_filters = None, rs_priority = None\<rparr>"

definition sample_fusion_event :: event_message where
  "sample_fusion_event = \<lparr>em_id = ''e'', em_type = OrderFilled, em_timestamp = 5, em_data = JObj [],
     em_metadata = \<lparr>md_orderHash = Some ''0xa'', md_resolver = None, md_chainId = None, md_urgent = False\<rparr>\<rparr>"

definition sample_system :: sub_system where
  "sample_system = fold sub_step [Register 0 ''c'', Create 1 ''s1'' ''l1'' (sample_request {OrderFilled})]
     (new_system \<lparr>sc_maxSubscriptionsPerClient = 1, sc_subscriptionTimeout = 300000\<rparr>)"

lemma update_never_reaches_listener_witness:
  "map qe_clientId (sm_queue (snd (emitEvent (handleEventForSubscription 5) sample_fusion_event (sy_bus sample_system)
     (snd (updateSubscription 2 (sample_request {}) (sy_manager sample_system)))))) = [''c'']"
proof -
  have "listener_level (sample_request {})" by code_simp
  from update_never_reaches_listener[OF this] show ?thesis by simp code_simp
qed

text \<open>The limit on subscriptions counts down to nothing every minute, and a second subscription leaves
  the first one active: the client, limited to one subscription, has two and is sent every event
  twice.\<close>

lemma reset_lifts_subscription_limit:
  "(let y = fold sub_step [Reset_quotas 60000, Create 60001 ''s2'' ''l2'' (sample_request {OrderFilled}),
       Emit 60002 sample_fusion_event] sample_system
    in activeSubscriptions (sy_manager y) = 2 \<and> map qe_clientId (sm_queue (sy_manager y)) = [''c'', ''c''])"
  by code_simp

text \<open>Cancelling reaches only the newer subscription: the older one goes on queueing events that are
  never delivered.\<close>

lemma cancelled_client_keeps_queueing:
  "(let y = fold sub_step [Reset_quotas 60000, Create 60001 ''s2'' ''l2'' (sample_request {OrderFilled}),
       Cancel ''c'', Emit 60002 sample_fusion_event, Start_run, Next_delivery 60003, Next_delivery 60004] sample_system
    in length (sm_queue (sy_manager y)) = 1 \<and> sy_delivered y = [] \<and> sm_run (sy_manager y) = None
     \<and> activeSubscriptions (sy_manager y) = 1)"
  by code_simp

end
