(* ===== verification/Resolver_Planner.thy ===== *)
theory Resolver_Planner
  imports Coord_Types
begin

text \<open>
  The resolver's planner (\<open>resolver/src/planner/\<close>) and its start-up checks
  (\<open>resolver/src/network-agreement.ts\<close>). \<open>buildPlan\<close> turns an observed source order into the
  parameters of the destination lock; \<open>validatePlan\<close> compares a plan with the coordinator's order
  field by field and \<open>submitValidatedPlan\<close> is the only way to the submit callback. Clock readings
  are arguments, \<open>bigint\<close> and timestamps are \<open>int\<close>; \<open>sha256_hex\<close> is Node's digest of a text.
\<close>

section \<open>Configuration\<close>

record ethereum_config =
  ec_rpcUrl :: string
  ec_chainId :: int
  ec_htlcEscrow :: "string option"
  ec_resolverRegistry :: "string option"
  ec_resolverPrivateKey :: "string option"

record soroban_config =
  so_rpcUrl :: string
  so_networkPassphrase :: string
  so_htlc :: "string option"
  so_resolverRegistry :: "string option"
  so_resolverSecret :: "string option"

record resolver_config =
  rcf_network :: string
  rcf_ethereum :: ethereum_config
  rcf_soroban :: soroban_config

definition unset :: "string option \<Rightarrow> bool" where
  "unset v \<longleftrightarrow> v = None \<or> v = Some []"

definition check :: "bool \<Rightarrow> string \<Rightarrow> string list" where
  "check bad msg = (if bad then [msg] else [])"

definition validateResolverConfig :: "resolver_config \<Rightarrow> bool \<Rightarrow> string list" where
  "validateResolverConfig cfg dryRun =
    (let e = rcf_ethereum cfg; s = rcf_soroban cfg
     in check (rcf_network cfg \<noteq> ''testnet'' \<and> rcf_network cfg \<noteq> ''mainnet'') (''Invalid network: '' @ rcf_network cfg)
        @ check (unset (ec_htlcEscrow e)) ''ETH_HTLC_ESCROW contract address is not configured''
        @ check (unset (so_htlc s)) ''SOROBAN_HTLC contract id is not configured''
        @ check (ec_rpcUrl e = []) ''Ethereum RPC URL is not configured''
        @ check (so_rpcUrl s = []) ''Soroban RPC URL is not configured''
        @ (if dryRun then []
           else check (unset (ec_resolverPrivateKey e)) ''RESOLVER_ETH_PRIVATE_KEY is required when dry-run is disabled''
              @ check (unset (so_resolverSecret s)) ''RESOLVER_STELLAR_SECRET is required when dry-run is disabled''))"

section \<open>Fill plans\<close>

record observed_order =
  ob_sourceChain :: chain
  ob_orderId :: string
  ob_sender :: string
  ob_beneficiary :: string
  ob_token :: string
  ob_amount :: int
  ob_safetyDeposit :: int
  ob_hashlock :: string
  ob_timelock :: int

record destination_params =
  dp_destinationChain :: chain
  dp_beneficiary :: string
  dp_refundAddress :: string
  dp_token :: string
  dp_amount :: int
  dp_safetyDeposit :: int
  dp_hashlock :: string
  dp_timelockSeconds :: int

record fill_plan =
  fp_source :: observed_order
  fp_destination :: destination_params
  fp_direction :: direction

record plan_options =
  pl_timelockBufferSeconds :: "int option"
  pl_feeBasisPoints :: "int option"
  pl_dryRun :: bool

definition DEFAULT_TIMELOCK_BUFFER :: int where
  "DEFAULT_TIMELOCK_BUFFER = 600"

definition DEFAULT_FEE_BASIS_POINTS :: int where
  "DEFAULT_FEE_BASIS_POINTS = 10"

fun resolveDirection :: "chain \<Rightarrow> direction" where
  "resolveDirection Ethereum = Eth_to_xlm"
| "resolveDirection Stellar = Xlm_to_eth"

fun resolveDestinationChain :: "chain \<Rightarrow> chain" where
  "resolveDestinationChain Ethereum = Stellar"
| "resolveDestinationChain Stellar = Ethereum"

definition computeTimelockSeconds :: "int \<Rightarrow> int \<Rightarrow> int \<Rightarrow> int" where
  "computeTimelockSeconds sourceTimelockAbs nowSeconds bufferSeconds =
    (let remaining = sourceTimelockAbs - nowSeconds; clamped = remaining - bufferSeconds
     in if clamped < 300 then 300 else if clamped > 86400 then 86400 else clamped)"

text \<open>Division of \<open>bigint\<close> truncates towards zero.\<close>

definition quot :: "int \<Rightarrow> int \<Rightarrow> int" where
  "quot a b = (if (a < 0) = (b < 0) then \<bar>a\<bar> div \<bar>b\<bar> else - (\<bar>a\<bar> div \<bar>b\<bar>))"

definition computeDestinationAmount :: "int \<Rightarrow> int \<Rightarrow> int" where
  "computeDestinationAmount sourceAmount feeBasisPoints =
    (if feeBasisPoints = 0 then sourceAmount
     else let fee = quot (sourceAmount * feeBasisPoints) 10000 in sourceAmount - fee)"

definition validateDestinationParams :: "int \<Rightarrow> int \<Rightarrow> int \<Rightarrow> string list" where
  "validateDestinationParams amount safetyDeposit timelockSeconds =
    check (amount \<le> 0) ''Destination amount must be > 0''
    @ check (safetyDeposit < 0) ''Safety deposit must be >= 0''
    @ check (timelockSeconds < 300) ''Timelock is below minimum (300s)''
    @ check (timelockSeconds > 86400) ''Timelock exceeds maximum (86400s)''"

definition buildPlan :: "int \<Rightarrow> observed_order \<Rightarrow> resolver_config \<Rightarrow> plan_options
    \<Rightarrow> string list + fill_plan" where
  "buildPlan nowSeconds order cfg opts =
    (let configErrors = validateResolverConfig cfg (pl_dryRun opts)
     in if configErrors \<noteq> [] then Inl configErrors
        else let destinationChain = resolveDestinationChain (ob_sourceChain order);
            buffer = (case pl_timelockBufferSeconds opts of None \<Rightarrow> DEFAULT_TIMELOCK_BUFFER | Some b \<Rightarrow> b);
            feeBp = (case pl_feeBasisPoints opts of None \<Rightarrow> DEFAULT_FEE_BASIS_POINTS | Some f \<Rightarrow> f);
            registry = (if destinationChain = Ethereum then ec_resolverRegistry (rcf_ethereum cfg)
                        else so_resolverRegistry (rcf_soroban cfg));
            destination = \<lparr>dp_destinationChain = destinationChain, dp_beneficiary = ob_beneficiary order,
              dp_refundAddress = (case registry of None \<Rightarrow> ob_sender order | Some r \<Rightarrow> r),
              dp_token = ob_token order, dp_amount = computeDestinationAmount (ob_amount order) feeBp,
              dp_safetyDeposit = ob_safetyDeposit order, dp_hashlock = ob_hashlock order,
              dp_timelockSeconds = computeTimelockSeconds (ob_timelock order) nowSeconds buffer\<rparr>;
            paramErrors = validateDestinationParams (dp_amount destination) (dp_safetyDeposit destination)
              (dp_timelockSeconds destination)
          in if paramErrors \<noteq> [] then Inl paramErrors
             else Inr \<lparr>fp_source = order, fp_destination = destination,
                    fp_direction = resolveDirection (ob_sourceChain order)\<rparr>)"

fun occurs :: "string \<Rightarrow> string \<Rightarrow> bool" where
  "occurs p [] = (p = [])"
| "occurs p (c # s) = (take (length p) (c # s) = p \<or> occurs p s)"

text \<open>The placeholder order of a Soroban event.\<close>

definition observedFromSorobanEvent :: "string list \<Rightarrow> string \<Rightarrow> observed_order option" where
  "observedFromSorobanEvent topics contractId =
    (if length topics < 4 then None
     else if \<not> occurs ''OrderCreated'' (topics ! 0) then None
     else Some \<lparr>ob_sourceChain = Stellar, ob_orderId = ''0'', ob_sender = ''soroban:unknown'',
       ob_beneficiary = ''soroban:unknown'', ob_token = contractId, ob_amount = 0, ob_safetyDeposit = 0,
       ob_hashlock = ''0x'' @ replicate 64 (CHR ''0''), ob_timelock = 0\<rparr>)"

section \<open>Plans against the coordinator's order\<close>

record plan_leg =
  lg_chain :: chain
  lg_asset :: string
  lg_amount :: string
  lg_timelock :: int

record resolver_order =
  ro_publicId :: string
  ro_hashlock :: string
  ro_src :: plan_leg
  ro_dst :: plan_leg

datatype plan_action = Fill_action | Claim_action

record resolver_plan =
  rp_publicId :: string
  rp_action :: plan_action
  rp_hashlock :: string
  rp_src :: plan_leg
  rp_dst :: plan_leg
  rp_expiresAt :: int
  rp_builtAt :: int

datatype plan_error_code = ORDER_MISMATCH | HASHLOCK_MISMATCH | TIMELOCK_MISMATCH | AMOUNT_MISMATCH
  | ASSET_MISMATCH | PLAN_EXPIRED

record plan_issue =
  is_code :: plan_error_code
  is_field :: string
  is_expected :: string
  is_actual :: string

definition issue_if :: "bool \<Rightarrow> plan_error_code \<Rightarrow> string \<Rightarrow> string \<Rightarrow> string \<Rightarrow> plan_issue list" where
  "issue_if bad code fld expected actual =
    (if bad then [\<lparr>is_code = code, is_field = fld, is_expected = expected, is_actual = actual\<rparr>] else [])"

definition compareLegs :: "string \<Rightarrow> plan_leg \<Rightarrow> plan_leg \<Rightarrow> plan_issue list" where
  "compareLegs kind p ord =
    issue_if (lg_chain p \<noteq> lg_chain ord) ASSET_MISMATCH (kind @ ''.chain'') (chain_str (lg_chain ord)) (chain_str (lg_chain p))
    @ issue_if (lg_asset p \<noteq> lg_asset ord) ASSET_MISMATCH (kind @ ''.asset'') (lg_asset ord) (lg_asset p)
    @ issue_if (lg_amount p \<noteq> lg_amount ord) AMOUNT_MISMATCH (kind @ ''.amount'') (lg_amount ord) (lg_amount p)
    @ issue_if (lg_timelock p \<noteq> lg_timelock ord) TIMELOCK_MISMATCH (kind @ ''.timelock'')
        (show_int (lg_timelock ord)) (show_int (lg_timelock p))"

text \<open>All issues found; the plan is accepted when there is none, and otherwise refused with the code
  of the first.\<close>

definition validatePlan :: "resolver_plan \<Rightarrow> resolver_order \<Rightarrow> int \<Rightarrow> plan_issue list" where
  "validatePlan plan order now =
    issue_if (rp_publicId plan \<noteq> ro_publicId order) ORDER_MISMATCH ''publicId'' (ro_publicId order) (rp_publicId plan)
    @ issue_if (toLowerCase (rp_hashlock plan) \<noteq> toLowerCase (ro_hashlock order)) HASHLOCK_MISMATCH ''hashlock''
        (ro_hashlock order) (rp_hashlock plan)
    @ compareLegs ''src'' (rp_src plan) (ro_src order)
    @ compareLegs ''dst'' (rp_dst plan) (ro_dst order)
    @ issue_if (now > rp_expiresAt plan) PLAN_EXPIRED ''expiresAt'' (''>= now ('' @ show_int now @ '')'')
        (show_int (rp_expiresAt plan))"

definition validatePlanForSubmit :: "resolver_plan \<Rightarrow> resolver_order \<Rightarrow> int
    \<Rightarrow> (plan_error_code \<times> plan_issue list) + resolver_plan" where
  "validatePlanForSubmit plan order now =
    (case validatePlan plan order now of [] \<Rightarrow> Inr plan | i # is \<Rightarrow> Inl (is_code i, i # is))"

text \<open>\<open>submit\<close> acts on the state \<open>'s\<close> of the caller.\<close>

definition submitValidatedPlan :: "resolver_plan \<Rightarrow> resolver_order \<Rightarrow> (resolver_plan \<Rightarrow> 's \<Rightarrow> 'a \<times> 's) \<Rightarrow> int
    \<Rightarrow> 's \<Rightarrow> ((plan_error_code \<times> plan_issue list) + 'a) \<times> 's" where
  "submitValidatedPlan plan order submit now s =
    (case validatePlanForSubmit plan order now of
       Inl e \<Rightarrow> (Inl e, s)
     | Inr p \<Rightarrow> map_prod Inr id (submit p s))"

record order_plan_options =
  op_action :: "plan_action option"
  op_expiresAt :: "int option"

definition buildOrderPlan :: "int \<Rightarrow> resolver_order \<Rightarrow> order_plan_options \<Rightarrow> resolver_plan" where
  "buildOrderPlan now order opts =
    \<lparr>rp_publicId = ro_publicId order,
     rp_action = (case op_action opts of None \<Rightarrow> Fill_action | Some a \<Rightarrow> a),
     rp_hashlock = ro_hashlock order, rp_src = ro_src order, rp_dst = ro_dst order,
     rp_expiresAt = (case op_expiresAt opts of
        None \<Rightarrow> min (lg_timelock (ro_src order)) (lg_timelock (ro_dst order)) | Some e \<Rightarrow> e),
     rp_builtAt = now\<rparr>"

section \<open>Network agreement\<close>

datatype agreement_status = Agreement_ok | Agreement_warn | Agreement_fail

record coordinator_readiness =
  cr_networkMode :: "string option"
  cr_chainId :: "int option"
  cr_passphraseHash :: "string option"
  cr_stellarNetwork :: "string option"

definition network_passphrase :: "string \<Rightarrow> string" where
  "network_passphrase network = (if network = ''mainnet'' then ''Public Global Stellar Network ; September 2015''
     else ''Test SDF Network ; September 2015'')"

definition expected_chain_id :: "string \<Rightarrow> int" where
  "expected_chain_id network = (if network = ''mainnet'' then 1 else 11155111)"

definition compareNetworkAgreement :: "(string \<Rightarrow> string) \<Rightarrow> string \<Rightarrow> int option \<Rightarrow> coordinator_readiness
    \<Rightarrow> agreement_status \<times> string list" where
  "compareNetworkAgreement sha256_hex network evmChainId c =
    (let mismatches =
       check (\<not> unset (cr_networkMode c) \<and> cr_networkMode c \<noteq> Some network) ''network mode differs''
       @ (case cr_chainId c of
            None \<Rightarrow> []
          | Some i \<Rightarrow>
             (if evmChainId \<noteq> None \<and> evmChainId \<noteq> Some i then [''Ethereum chain ID differs (resolver)'']
              else check (i \<noteq> expected_chain_id network) ''Ethereum chain ID differs (expected)''))
       @ (if \<not> unset (cr_passphraseHash c)
          then check (cr_passphraseHash c \<noteq> Some (sha256_hex (network_passphrase network)))
                 ''Stellar network passphrase differs''
          else check (\<not> unset (cr_stellarNetwork c) \<and> cr_stellarNetwork c \<noteq> Some network) ''Stellar network differs'')
     in (if mismatches \<noteq> [] then Agreement_fail else Agreement_ok, mismatches))"

text \<open>The chain readings are \<open>None\<close> when the RPC call failed; \<open>ledger\<close> says whether the Soroban
  RPC answered with a ledger sequence.\<close>

definition checkResolverNetworkAgreement :: "string \<Rightarrow> int option \<Rightarrow> bool option \<Rightarrow> string
    \<Rightarrow> agreement_status \<times> string list" where
  "checkResolverNetworkAgreement network chainId ledger passphrase =
    (let observed = (if ledger = Some True then Some passphrase else None);
         mismatches =
           (case chainId of
              None \<Rightarrow> [''Ethereum RPC unreachable'']
            | Some i \<Rightarrow> check (i \<noteq> expected_chain_id network) ''Ethereum RPC chain ID does not match'')
           @ (case ledger of
                None \<Rightarrow> [''Soroban RPC unreachable'']
              | Some False \<Rightarrow> [''Soroban RPC returned invalid ledger sequence'']
              | Some True \<Rightarrow> check (passphrase \<noteq> network_passphrase network) ''Soroban network passphrase does not match'')
           @ check (chainId \<noteq> None \<and> observed \<noteq> None
                \<and> (chainId = Some 1) \<noteq> (observed = Some (network_passphrase ''mainnet''))) ''networks disagree''
     in (if mismatches \<noteq> [] then Agreement_fail else Agreement_ok, mismatches))"

section \<open>Lemmas\<close>

lemma check_empty [simp]: "check bad msg = [] \<longleftrightarrow> \<not> bad"
  by (simp add: check_def)

lemma issue_if_empty [simp]: "issue_if bad code f e a = [] \<longleftrightarrow> \<not> bad"
  by (simp add: issue_if_def)

lemma compareLegs_empty [simp]: "compareLegs kind p ord = [] \<longleftrightarrow> p = ord"
  by (cases p; cases ord) (auto simp: compareLegs_def)

text \<open>Agreement of a plan with an order at a time.\<close>

definition in_step :: "resolver_plan \<Rightarrow> resolver_order \<Rightarrow> int \<Rightarrow> bool" where
  "in_step plan order now \<longleftrightarrow> rp_publicId plan = ro_publicId order
     \<and> toLowerCase (rp_hashlock plan) = toLowerCase (ro_hashlock order)
     \<and> rp_src plan = ro_src order \<and> rp_dst plan = ro_dst order \<and> now \<le> rp_expiresAt plan"

lemma validatePlan_empty: "validatePlan plan order now = [] \<longleftrightarrow> in_step plan order now"
  by (auto simp: validatePlan_def in_step_def)

text \<open>The submit callback runs for exactly the plans that agree with the coordinator's order in
  identity, hashlock, both chains, assets, amounts and timelocks and have not passed their
  deadline; any other plan leaves the caller's state alone.\<close>

theorem submit_iff_in_step:
  "submitValidatedPlan plan order submit now s =
    (if in_step plan order now then map_prod Inr id (submit plan s)
     else (Inl (is_code (hd (validatePlan plan order now)), validatePlan plan order now), s))"
  by (cases "validatePlan plan order now")
    (simp_all add: submitValidatedPlan_def validatePlanForSubmit_def flip: validatePlan_empty)

text \<open>A plan built from an order is accepted for it until the earlier of the two timelocks, to
  the second, and from then on refused as expired and for no other reason.\<close>

theorem built_plan_valid_until_deadline:
  "validatePlan (buildOrderPlan built order \<lparr>op_action = a, op_expiresAt = None\<rparr>) order now =
    issue_if (now > min (lg_timelock (ro_src order)) (lg_timelock (ro_dst order))) PLAN_EXPIRED ''expiresAt''
      (''>= now ('' @ show_int now @ '')'') (show_int (min (lg_timelock (ro_src order)) (lg_timelock (ro_dst order))))"
proof -
  have "compareLegs k l l = []" for k l by simp
  then show ?thesis by (simp add: validatePlan_def buildOrderPlan_def issue_if_def)
qed

lemma timelock_before_source:
  "0 < buffer \<Longrightarrow> computeTimelockSeconds src now buffer < src - now \<longleftrightarrow> 300 < src - now"
  by (auto simp: computeTimelockSeconds_def Let_def)

text \<open>C18: Every plan the planner accepts locks between 5 minutes and a day; but its lock expires before the source lock exactly when the source order has more than
  5 minutes left. For a source order about to expire, or already expired, it plans a destination
  lock that outlives the source.\<close>

theorem fill_timelock_margin:
  assumes "buildPlan now order cfg opts = Inr plan"
    and "case pl_timelockBufferSeconds opts of None \<Rightarrow> True | Some b \<Rightarrow> 0 < b"
  shows "300 \<le> dp_timelockSeconds (fp_destination plan) \<and> dp_timelockSeconds (fp_destination plan) \<le> 86400
    \<and> (now + dp_timelockSeconds (fp_destination plan) < ob_timelock order \<longleftrightarrow> now + 300 < ob_timelock order)"
proof -
  let ?b = "case pl_timelockBufferSeconds opts of None \<Rightarrow> DEFAULT_TIMELOCK_BUFFER | Some b \<Rightarrow> b"
  have b: "0 < ?b" using assms(2) by (auto simp: DEFAULT_TIMELOCK_BUFFER_def split: option.splits)
  have t: "dp_timelockSeconds (fp_destination plan) = computeTimelockSeconds (ob_timelock order) now ?b"
    using assms(1) by (auto simp: buildPlan_def Let_def split: if_splits)
  show ?thesis using timelock_before_source[OF b, of "ob_timelock order" now]
    by (auto simp: t computeTimelockSeconds_def Let_def)
qed

definition sample_resolver_config :: resolver_config where
  "sample_resolver_config = \<lparr>rcf_network = ''testnet'',
     rcf_ethereum = \<lparr>ec_rpcUrl = ''u'', ec_chainId = 1, ec_htlcEscrow = Some ''0x1'', ec_resolverRegistry = None,
       ec_resolverPrivateKey = None\<rparr>,
     rcf_soroban = \<lparr>so_rpcUrl = ''u'', so_networkPassphrase = ''p'', so_htlc = Some ''C'', so_resolverRegistry = None,
       so_resolverSecret = None\<rparr>\<rparr>"

definition sample_observed :: observed_order where
  "sample_observed = \<lparr>ob_sourceChain = Ethereum, ob_orderId = ''1'', ob_sender = ''a'', ob_beneficiary = ''b'',
     ob_token = ''t'', ob_amount = 1000, ob_safetyDeposit = 0, ob_hashlock = ''h'', ob_timelock = 100\<rparr>"

lemma fill_timelock_margin_witness:
  "\<exists>plan. buildPlan 200 sample_observed sample_resolver_config
      \<lparr>pl_timelockBufferSeconds = None, pl_feeBasisPoints = None, pl_dryRun = True\<rparr> = Inr plan
    \<and> \<not> 200 + dp_timelockSeconds (fp_destination plan) < ob_timelock sample_observed"
proof -
  let ?o = "\<lparr>pl_timelockBufferSeconds = None, pl_feeBasisPoints = None, pl_dryRun = True\<rparr>"
  have "(case buildPlan 200 sample_observed sample_resolver_config ?o of Inr _ \<Rightarrow> True | Inl _ \<Rightarrow> False)" by code_simp
  then obtain plan where p: "buildPlan 200 sample_observed sample_resolver_config ?o = Inr plan"
    by (auto split: sum.splits)
  have "case pl_timelockBufferSeconds ?o of None \<Rightarrow> True | Some b \<Rightarrow> 0 < b" by simp
  from fill_timelock_margin[OF p this] p show ?thesis by (auto simp: sample_observed_def)
qed

lemma amount_after_fee:
  "0 \<le> a \<Longrightarrow> 0 \<le> f \<Longrightarrow> f \<le> 10000 \<Longrightarrow> 0 \<le> computeDestinationAmount a f \<and> computeDestinationAmount a f \<le> a"
proof -
  assume h: "0 \<le> a" "0 \<le> f" "f \<le> 10000"
  then have "a * f \<le> a * 10000" by (intro mult_left_mono) auto
  then have "a * f div 10000 \<le> a" using zdiv_mono1[of "a * f" "a * 10000" 10000] by simp
  moreover have "0 \<le> a * f div 10000" using h by (simp add: pos_imp_zdiv_nonneg_iff)
  moreover have "\<not> a * f < 0" using h by (simp add: not_less)
  ultimately show ?thesis using h
    by (simp add: computeDestinationAmount_def quot_def Let_def)
qed

text \<open>A resolver that passes its own check targets the network it is configured for on both chains.\<close>

lemma resolver_agreement_ok:
  "fst (checkResolverNetworkAgreement network chainId ledger passphrase) = Agreement_ok \<longleftrightarrow>
    chainId = Some (expected_chain_id network) \<and> ledger = Some True \<and> passphrase = network_passphrase network"
proof -
  have "network_passphrase network = network_passphrase ''mainnet'' \<longleftrightarrow> network = ''mainnet''"
    by (simp add: network_passphrase_def)
  then show ?thesis
    by (cases chainId; cases ledger)
      (auto simp: checkResolverNetworkAgreement_def Let_def expected_chain_id_def split: bool.splits if_splits)
qed

end
