(* ===== verification/Sdk_Lifecycle.thy ===== *)
theory Sdk_Lifecycle
  imports Order_Machine Timelocks
begin

text \<open>
  What the clients of the coordinator believe about an order: the transition table of the SDK
  (\<open>packages/sdk/src/state-machine/index.ts\<close>), its refund timeline
  (\<open>packages/sdk/src/state-machine/refund-timeline.ts\<close>) and the freshness banner of the frontend
  (\<open>frontend/src/lib/orderFreshness.ts\<close>). The texts shown with a state are kept, the dates, which
  only restate the two timelocks, are not. Times are integers.

  The properties compare them with the coordinator's own machine and timelock rules.
\<close>

section \<open>The transition table\<close>

fun sdk_TRANSITIONS :: "order_status \<Rightarrow> order_status list" where
  "sdk_TRANSITIONS Announced = [Src_locked, Failed, Expired]"
| "sdk_TRANSITIONS Src_locked = [Dst_locked, Secret_revealed, Refunded, Failed, Expired]"
| "sdk_TRANSITIONS Dst_locked = [Secret_revealed, Refunded, Failed, Expired]"
| "sdk_TRANSITIONS Secret_revealed = [Completed, Refunded, Failed]"
| "sdk_TRANSITIONS Completed = []"
| "sdk_TRANSITIONS Refunded = []"
| "sdk_TRANSITIONS Failed = []"
| "sdk_TRANSITIONS Expired = [Refunded, Failed]"

text \<open>\<open>InvalidTransitionError\<close> carries both statuses.\<close>

datatype invalid_transition = InvalidTransitionError order_status order_status

definition sdk_canTransition :: "order_status \<Rightarrow> order_status \<Rightarrow> bool" where
  "sdk_canTransition from to \<longleftrightarrow> to \<in> set (sdk_TRANSITIONS from)"

definition sdk_requireTransition :: "order_status \<Rightarrow> order_status \<Rightarrow> invalid_transition + unit" where
  "sdk_requireTransition from to =
    (if \<not> sdk_canTransition from to then Inl (InvalidTransitionError from to) else Inr ())"

definition sdk_isTerminal :: "order_status \<Rightarrow> bool" where
  "sdk_isTerminal status \<longleftrightarrow> length (sdk_TRANSITIONS status) = 0"

definition nextStatesOf :: "order_status \<Rightarrow> order_status list" where
  "nextStatesOf status = sdk_TRANSITIONS status"

section \<open>The refund timeline\<close>

datatype simulator_direction = Eth_to_xlm_sim | Xlm_to_eth_sim
datatype simulated_state = Waiting | Claimable | Refundable

record timeline_input =
  ti_direction :: simulator_direction
  ti_sourceTimelock :: int
  ti_destinationTimelock :: int
  ti_sourceLockObserved :: bool
  ti_destinationLockObserved :: bool

record timeline_result =
  tr_state :: simulated_state
  tr_label :: string
  tr_description :: string
  tr_claimableBy :: string
  tr_refundableBy :: string

fun DIRECTION_LABELS :: "simulator_direction \<Rightarrow> string \<times> string" where
  "DIRECTION_LABELS Eth_to_xlm_sim = (''Ethereum'', ''Stellar'')"
| "DIRECTION_LABELS Xlm_to_eth_sim = (''Stellar'', ''Ethereum'')"

fun describeState :: "simulated_state \<Rightarrow> string \<times> string \<Rightarrow> string \<times> string" where
  "describeState Waiting (source, destination) = (''Waiting'', ''The '' @ destination @
     '' lock has not been observed yet, or timelocks are still active. No action is available yet.'')"
| "describeState Claimable (source, destination) = (''Claimable'', ''Funds are locked on '' @ destination @
     ''. You can claim them before the destination timelock expires by providing the correct hashlock preimage.'')"
| "describeState Refundable (source, destination) = (''Refundable'',
     ''Both chain timelocks have expired. You can refund your original deposit from the '' @ source @ '' HTLC contract.'')"

fun claim_text :: "simulator_direction \<Rightarrow> string" where
  "claim_text Eth_to_xlm_sim = ''You can claim XLM on Stellar (destination) before the destination timelock expires.''"
| "claim_text Xlm_to_eth_sim = ''You can claim ETH on Ethereum (destination) before the destination timelock expires.''"

fun refund_text :: "simulator_direction \<Rightarrow> string" where
  "refund_text Eth_to_xlm_sim = ''You can refund ETH on Ethereum (source) after both chain timelocks expire.''"
| "refund_text Xlm_to_eth_sim = ''You can refund XLM on Stellar (source) after both chain timelocks expire.''"

text \<open>\<open>now\<close> is \<open>nowUnixSeconds\<close> or the clock.\<close>

definition simulateRefundTimeline :: "timeline_input \<Rightarrow> int \<Rightarrow> timeline_result" where
  "simulateRefundTimeline i now =
    (let srcExpired = now > ti_sourceTimelock i;
         dstExpired = now > ti_destinationTimelock i;
         state = (if \<not> ti_sourceLockObserved i \<or> \<not> ti_destinationLockObserved i then Waiting
                  else if srcExpired \<and> dstExpired then Refundable
                  else if \<not> dstExpired then Claimable
                  else Waiting);
         (label, description) = describeState state (DIRECTION_LABELS (ti_direction i))
     in \<lparr>tr_state = state, tr_label = label, tr_description = description,
         tr_claimableBy = claim_text (ti_direction i), tr_refundableBy = refund_text (ti_direction i)\<rparr>)"

section \<open>The freshness banner\<close>

datatype freshness_label = Fresh | Pending_label | Stale | Refund_soon | Refund_eligible

definition FRESH_THRESHOLD_MS :: int where "FRESH_THRESHOLD_MS = 3 * 60 * 1000"
definition PENDING_THRESHOLD_MS :: int where "PENDING_THRESHOLD_MS = 8 * 60 * 1000"
definition STALE_THRESHOLD_MS :: int where "STALE_THRESHOLD_MS = 20 * 60 * 1000"
definition REFUND_SOON_WINDOW_MS :: int where "REFUND_SOON_WINDOW_MS = 15 * 60 * 1000"

definition FINISHED_STATUSES :: "string list" where
  "FINISHED_STATUSES = [''completed'', ''refunded'', ''failed'', ''cancelled'']"

record freshness_input =
  fr_status :: string
  fr_updatedAt :: int
  fr_nowMs :: int
  fr_timelockUnixSeconds :: "int option"

definition ceil_div :: "int \<Rightarrow> int \<Rightarrow> int" where
  "ceil_div a b = - ((- a) div b)"

definition soon_hint :: "int \<Rightarrow> string" where
  "soon_hint minutesLeft = ''Timelock expires in ~'' @ show_int minutesLeft @
     '' min. If the swap doesn'' @ [char_of (39 :: nat)] @ ''t complete, you'' @ [char_of (39 :: nat)] @ ''ll be able to refund.''"

text \<open>The em dash of one hint is written as a hyphen.\<close>

definition by_age :: "int \<Rightarrow> freshness_label \<times> string" where
  "by_age ageMs =
    (if ageMs < FRESH_THRESHOLD_MS then (Fresh, [])
     else if ageMs < PENDING_THRESHOLD_MS
       then (Pending_label, ''Still processing - cross-chain swaps can take a few minutes.'')
     else if ageMs < STALE_THRESHOLD_MS
       then (Stale, ''Taking longer than expected. Check back soon or refresh to get the latest status.'')
     else (Stale, ''This order has been pending for a while. Try refreshing, or contact support if you need help.''))"

definition classifyOrderFreshness :: "freshness_input \<Rightarrow> freshness_label \<times> string" where
  "classifyOrderFreshness i =
    (if fr_status i \<in> set FINISHED_STATUSES then (Fresh, [])
     else case fr_timelockUnixSeconds i of
        None \<Rightarrow> by_age (fr_nowMs i - fr_updatedAt i)
      | Some t \<Rightarrow>
          let timelockMs = t * 1000 in
          if fr_nowMs i \<ge> timelockMs
            then (Refund_eligible, ''Timelock expired. You can request a refund now.'')
          else if timelockMs - fr_nowMs i \<le> REFUND_SOON_WINDOW_MS
            then (Refund_soon, soon_hint (ceil_div (timelockMs - fr_nowMs i) 60000))
          else by_age (fr_nowMs i - fr_updatedAt i))"

section \<open>Agreement with the coordinator\<close>

lemma sdk_table: "sdk_TRANSITIONS s = transitionsFrom s"
  by (cases s) (simp_all add: transitionsFrom_def)

text \<open>The table a client of the SDK works with is the one the coordinator enforces: the same next
  states in the same order, the same terminal statuses, and \<open>requireTransition\<close> lets through exactly
  the steps that are an edge of the coordinator's lifecycle.\<close>

theorem sdk_lifecycle_is_coordinators:
  "nextStatesOf from = transitionsFrom from \<and> sdk_isTerminal from = isTerminal from \<and>
   sdk_requireTransition from to =
     (if canTransition from to then Inr () else Inl (InvalidTransitionError from to))"
  by (simp add: nextStatesOf_def sdk_isTerminal_def isTerminal_def sdk_requireTransition_def
      sdk_canTransition_def canTransition_def sdk_table)

lemma by_age_label: "fst (by_age a) \<noteq> Refund_eligible"
  by (simp add: by_age_def)

lemma banner_eligible:
  "fst (classifyOrderFreshness i) = Refund_eligible \<longleftrightarrow>
     fr_status i \<notin> set FINISHED_STATUSES \<and> (\<exists>t. fr_timelockUnixSeconds i = Some t \<and> t * 1000 \<le> fr_nowMs i)"
  using by_age_label by (auto simp: classifyOrderFreshness_def Let_def split: option.splits)

text \<open>C25: What the clients show agrees with the coordinator's clock. With both locks observed and the
  destination timelock before the source one, the simulator says claimable exactly while the
  coordinator still takes the preimage, and refundable exactly when it grants the refund; and the
  banner of an open order announces the refund exactly from the source timelock on, which is the
  coordinator's answer except for the one second of the timelock itself.\<close>

theorem clients_agree_on_windows:
  assumes "0 < ti_destinationTimelock i" "ti_destinationTimelock i < ti_sourceTimelock i"
    and "ti_sourceLockObserved i" "ti_destinationLockObserved i"
    and "fr_status b \<notin> set FINISHED_STATUSES" "fr_timelockUnixSeconds b = Some (ti_sourceTimelock i)"
    and "fr_nowMs b div 1000 = now"
  shows "(tr_state (simulateRefundTimeline i now) = Claimable \<longleftrightarrow>
      sw_open (evaluateSecretWindow (Some (ti_sourceTimelock i)) (Some (ti_destinationTimelock i)) now))
    \<and> (tr_state (simulateRefundTimeline i now) = Refundable \<longleftrightarrow>
      eligible (evaluateRefundEligibility
        [(Ethereum_side, Some (ti_sourceTimelock i)), (Stellar_side, Some (ti_destinationTimelock i))] now))
    \<and> (fst (classifyOrderFreshness b) = Refund_eligible \<longleftrightarrow>
      eligible (evaluateRefundEligibility
        [(Ethereum_side, Some (ti_sourceTimelock i)), (Stellar_side, Some (ti_destinationTimelock i))] now)
      \<or> now = ti_sourceTimelock i)"
proof -
  obtain s d where sd: "ti_sourceTimelock i = s" "ti_destinationTimelock i = d" by simp
  have state: "tr_state (simulateRefundTimeline i now) =
      (if now > s then Refundable else if now \<le> d then Claimable else Waiting)"
    using assms(2-4) sd by (auto simp: simulateRefundTimeline_def Let_def split: prod.splits)
  have grant: "eligible (evaluateRefundEligibility [(Ethereum_side, Some s), (Stellar_side, Some d)] now)
      \<longleftrightarrow> s < now"
    using assms(2) sd by (auto simp: eligible_iff)
  have "s * 1000 \<le> fr_nowMs b \<longleftrightarrow> s \<le> now"
    using assms(7) by linarith
  then have banner: "fst (classifyOrderFreshness b) = Refund_eligible \<longleftrightarrow> s \<le> now"
    using assms(5,6) sd by (simp add: banner_eligible)
  show ?thesis
    unfolding sd state grant banner using assms(1,2) sd by (auto simp: sw_open_iff)
qed

lemma clients_agree_on_windows_witness:
  "let i = \<lparr>ti_direction = Eth_to_xlm_sim, ti_sourceTimelock = 200, ti_destinationTimelock = 100,
             ti_sourceLockObserved = True, ti_destinationLockObserved = True\<rparr>;
       b = \<lparr>fr_status = ''src_locked'', fr_updatedAt = 0, fr_nowMs = 200999, fr_timelockUnixSeconds = Some 200\<rparr>
   in tr_state (simulateRefundTimeline i 200) = Waiting \<and> fst (classifyOrderFreshness b) = Refund_eligible"
proof -
  let ?i = "\<lparr>ti_direction = Eth_to_xlm_sim, ti_sourceTimelock = 200, ti_destinationTimelock = 100,
             ti_sourceLockObserved = True, ti_destinationLockObserved = True\<rparr>"
  let ?b = "\<lparr>fr_status = ''src_locked'', fr_updatedAt = 0, fr_nowMs = 200999, fr_timelockUnixSeconds = Some 200\<rparr>"
  have "''src_locked'' \<notin> set FINISHED_STATUSES" by (simp add: FINISHED_STATUSES_def)
  then show ?thesis
    using clients_agree_on_windows[of ?i ?b 200]
    by (cases "tr_state (simulateRefundTimeline ?i 200)") (simp_all add: Let_def sw_open_iff eligible_iff)
qed

end
