(* ===== verification/Contract_Poller.thy ===== *)
theory Contract_Poller
  imports OS_Prelude "HOL-Library.Sublist"
begin

text \<open>
  The relayer's event poller (\<open>relayer/src/contract-event-poller.ts\<close>) on top of its poll loop
  (\<open>relayer/src/adaptive-poll.ts\<close>).

  \<^item> \<open>ps_armed\<close> holds the timers of the runtime that have not fired, by handle, with their delay. Any
    of them may fire next. \<open>ps_running\<close> is the run that waits for its tick, with the readings of
    \<open>isActive\<close> and \<open>isAttentive\<close> it took and whether its tick entered.
  \<^item> A tick waits for the answers of the RPC; they are the arguments of \<open>tick_settled\<close>, \<open>None\<close> for a call
    that fails. A log is a value of type \<open>'l\<close>; \<open>decoded\<close> says whether it has arguments. \<open>ps_calls\<close>
    lists the calls of the handlers. An exception of a handler is caught and changes nothing.
  \<^item> The handlers of a tick run between its two ends; log lines are left out.
\<close>

section \<open>The poll loop\<close>

record poll_options =
  activeIntervalMs :: int
  idleIntervalMs :: int

record 'l poll_system =
  ps_stopped :: bool
  ps_timer :: "nat option"
  ps_armed :: "(nat \<times> int) list"
  ps_next :: nat
  ps_running :: "(bool \<times> bool \<times> bool) option"
  ps_isPolling :: bool
  ps_lastProcessed :: int
  ps_calls :: "(string \<times> 'l) list"

definition schedule :: "int \<Rightarrow> 'l poll_system \<Rightarrow> 'l poll_system" where
  "schedule delayMs s =
    (if ps_stopped s then s
     else s\<lparr>ps_timer := Some (ps_next s), ps_armed := ps_armed s @ [(ps_next s, delayMs)],
            ps_next := ps_next s + 1\<rparr>)"

definition clear_timer :: "'l poll_system \<Rightarrow> 'l poll_system" where
  "clear_timer s =
    (case ps_timer s of None \<Rightarrow> s
     | Some t \<Rightarrow> s\<lparr>ps_armed := filter (\<lambda>a. fst a \<noteq> t) (ps_armed s)\<rparr>)"

text \<open>The \<open>finally\<close> block of \<open>run\<close>.\<close>

definition finish_run :: "poll_options \<Rightarrow> 'l poll_system \<Rightarrow> 'l poll_system" where
  "finish_run opts s =
    (case ps_running s of None \<Rightarrow> s
     | Some (active, attentive, entered) \<Rightarrow>
         schedule (if active \<or> attentive then activeIntervalMs opts else idleIntervalMs opts)
           (s\<lparr>ps_running := None\<rparr>))"

text \<open>\<open>run\<close> up to the wait for its tick, or to its end when it has none. The tick enters unless one
  is polling.\<close>

definition run_loop :: "poll_options \<Rightarrow> bool \<Rightarrow> bool \<Rightarrow> 'l poll_system \<Rightarrow> 'l poll_system" where
  "run_loop opts active attentive s =
    (if ps_stopped s \<or> ps_running s \<noteq> None then s
     else if active then s\<lparr>ps_running := Some (active, attentive, \<not> ps_isPolling s), ps_isPolling := True\<rparr>
     else finish_run opts (s\<lparr>ps_running := Some (active, attentive, False)\<rparr>))"

definition fire :: "poll_options \<Rightarrow> nat \<Rightarrow> bool \<Rightarrow> bool \<Rightarrow> 'l poll_system \<Rightarrow> 'l poll_system" where
  "fire opts t active attentive s =
    (if t \<notin> fst ` set (ps_armed s) then s
     else run_loop opts active attentive (s\<lparr>ps_armed := filter (\<lambda>a. fst a \<noteq> t) (ps_armed s)\<rparr>))"

definition stop :: "'l poll_system \<Rightarrow> 'l poll_system" where
  "stop s = clear_timer (s\<lparr>ps_stopped := True\<rparr>)"

definition wake :: "'l poll_system \<Rightarrow> 'l poll_system" where
  "wake s = (if ps_stopped s \<or> ps_running s \<noteq> None then s else schedule 0 (clear_timer s))"

section \<open>The tick of the poller\<close>

record 'l poller_config =
  pc_bindings :: "string list"
  pc_hasFilter :: "string \<Rightarrow> bool"
  pc_decoded :: "'l \<Rightarrow> bool"
  pc_maxWindow :: int

definition DEFAULT_MAX_WINDOW :: int where
  "DEFAULT_MAX_WINDOW = 500"

text \<open>The loop over the bindings: the handler calls, and whether every query was answered.\<close>

fun run_bindings :: "'l poller_config \<Rightarrow> (string \<Rightarrow> int \<Rightarrow> int \<Rightarrow> 'l list option) \<Rightarrow> int \<Rightarrow> int
    \<Rightarrow> string list \<Rightarrow> (string \<times> 'l) list \<times> bool" where
  "run_bindings cfg query fromBlock toBlock [] = ([], True)"
| "run_bindings cfg query fromBlock toBlock (b # bs) =
    (if \<not> pc_hasFilter cfg b then run_bindings cfg query fromBlock toBlock bs
     else case query b fromBlock toBlock of
        None \<Rightarrow> ([], False)
      | Some events \<Rightarrow>
          let (calls, answered) = run_bindings cfg query fromBlock toBlock bs
          in (map (Pair b) (filter (pc_decoded cfg) events) @ calls, answered))"

definition poll_tick :: "'l poller_config \<Rightarrow> int option \<Rightarrow> (string \<Rightarrow> int \<Rightarrow> int \<Rightarrow> 'l list option)
    \<Rightarrow> 'l poll_system \<Rightarrow> 'l poll_system" where
  "poll_tick cfg head query s =
    (case head of None \<Rightarrow> s
     | Some h \<Rightarrow>
         if h \<le> ps_lastProcessed s then s
         else let fromBlock = ps_lastProcessed s + 1;
                  toBlock = min h (fromBlock + pc_maxWindow cfg - 1);
                  (calls, answered) = run_bindings cfg query fromBlock toBlock (pc_bindings cfg);
                  s' = s\<lparr>ps_calls := ps_calls s @ calls\<rparr>
              in if answered then s'\<lparr>ps_lastProcessed := toBlock\<rparr> else s')"

text \<open>The tick of the waiting run ends, and the run with it.\<close>

definition tick_settled :: "poll_options \<Rightarrow> 'l poller_config \<Rightarrow> int option
    \<Rightarrow> (string \<Rightarrow> int \<Rightarrow> int \<Rightarrow> 'l list option) \<Rightarrow> 'l poll_system \<Rightarrow> 'l poll_system" where
  "tick_settled opts cfg head query s =
    (case ps_running s of None \<Rightarrow> s
     | Some (active, attentive, entered) \<Rightarrow>
         finish_run opts (if entered then (poll_tick cfg head query s)\<lparr>ps_isPolling := False\<rparr> else s))"

definition startContractEventPoller :: "int \<Rightarrow> 'l poll_system" where
  "startContractEventPoller startBlock =
    schedule 0 \<lparr>ps_stopped = False, ps_timer = None, ps_armed = [], ps_next = 0, ps_running = None,
      ps_isPolling = False, ps_lastProcessed = startBlock, ps_calls = []\<rparr>"

datatype 'l poll_op =
    Fire nat bool bool
  | Tick_settled "int option" "string \<Rightarrow> int \<Rightarrow> int \<Rightarrow> 'l list option"
  | Stop
  | Wake

fun poll_step :: "poll_options \<Rightarrow> 'l poller_config \<Rightarrow> 'l poll_op \<Rightarrow> 'l poll_system \<Rightarrow> 'l poll_system" where
  "poll_step opts cfg (Fire t active attentive) s = fire opts t active attentive s"
| "poll_step opts cfg (Tick_settled head query) s = tick_settled opts cfg head query s"
| "poll_step opts cfg Stop s = stop s"
| "poll_step opts cfg Wake s = wake s"

definition poll_run :: "poll_options \<Rightarrow> 'l poller_config \<Rightarrow> int \<Rightarrow> 'l poll_op list \<Rightarrow> 'l poll_system" where
  "poll_run opts cfg startBlock ops = fold (poll_step opts cfg) ops (startContractEventPoller startBlock)"

lemma poll_run_snoc: "poll_run opts cfg start (ops @ [op]) = poll_step opts cfg op (poll_run opts cfg start ops)"
  by (simp add: poll_run_def)

section \<open>The loop neither stops by itself nor runs twice\<close>

lemmas loop_defs = schedule_def clear_timer_def finish_run_def run_loop_def fire_def stop_def wake_def
  tick_settled_def

text \<open>A live loop waits for exactly one timer or for exactly one tick; a stopped one for no timer.\<close>

definition loop_ok :: "'l poll_system \<Rightarrow> bool" where
  "loop_ok s \<longleftrightarrow>
    (if ps_stopped s then ps_armed s = []
     else case ps_running s of
        Some r \<Rightarrow> ps_armed s = []
      | None \<Rightarrow> \<exists>t d. ps_armed s = [(t, d)] \<and> ps_timer s = Some t)
    \<and> ps_isPolling s = (\<exists>a b. ps_running s = Some (a, b, True))
    \<and> (\<forall>a b c. ps_running s = Some (a, b, c) \<longrightarrow> c)"

lemma poll_tick_frame [simp]:
  "ps_stopped (poll_tick cfg h q s) = ps_stopped s" "ps_timer (poll_tick cfg h q s) = ps_timer s"
  "ps_armed (poll_tick cfg h q s) = ps_armed s" "ps_next (poll_tick cfg h q s) = ps_next s"
  "ps_running (poll_tick cfg h q s) = ps_running s" "ps_isPolling (poll_tick cfg h q s) = ps_isPolling s"
  by (simp_all add: poll_tick_def Let_def split: option.splits prod.splits)

lemma loop_ok_start: "loop_ok (startContractEventPoller b)"
  by (simp add: loop_ok_def startContractEventPoller_def schedule_def)

lemma loop_ok_step: "loop_ok s \<Longrightarrow> loop_ok (poll_step opts cfg op s)"
  by (cases op) (auto simp: loop_ok_def loop_defs split: option.splits if_splits)

lemma loop_ok_run: "loop_ok (poll_run opts cfg start ops)"
  by (induction ops rule: rev_induct) (simp_all add: poll_run_def loop_ok_start loop_ok_step)

text \<open>However timers, ticks, failures, wake-ups and \<open>stop\<close> interleave, a poll loop that was not
  stopped waits for exactly one timer or for exactly one tick: it never dies, never polls twice at
  the same time, and never leaves a second timer behind. Once stopped it has no timer.\<close>

theorem poll_loop_alive:
  "let s = poll_run opts cfg start ops in
    length (ps_armed s) + (if ps_running s = None then 0 else 1) =
      (if ps_stopped s then (if ps_running s = None then 0 else 1) else 1)
    \<and> ps_isPolling s = (ps_running s \<noteq> None)"
  using loop_ok_run[of opts cfg start ops] by (auto simp: loop_ok_def Let_def split: if_splits option.splits)

section \<open>No log is skipped\<close>

text \<open>The chain has the logs \<open>chain b n\<close> of event \<open>b\<close> in block \<open>n\<close>; an answered query returns those of
  its window.\<close>

definition honest_query :: "(string \<Rightarrow> int \<Rightarrow> 'l list) \<Rightarrow> (string \<Rightarrow> int \<Rightarrow> int \<Rightarrow> 'l list option) \<Rightarrow> bool" where
  "honest_query chain query \<longleftrightarrow> (\<forall>b f t es. query b f t = Some es \<longrightarrow> es = concat (map (chain b) [f..t]))"

fun honest_op :: "(string \<Rightarrow> int \<Rightarrow> 'l list) \<Rightarrow> 'l poll_op \<Rightarrow> bool" where
  "honest_op chain (Tick_settled head query) \<longleftrightarrow> honest_query chain query"
| "honest_op chain _ \<longleftrightarrow> True"

definition window_logs :: "'l poller_config \<Rightarrow> (string \<Rightarrow> int \<Rightarrow> 'l list) \<Rightarrow> string \<Rightarrow> int \<Rightarrow> int \<Rightarrow> 'l list" where
  "window_logs cfg chain b f t = filter (pc_decoded cfg) (concat (map (chain b) [f..t]))"

definition calls_of :: "string \<Rightarrow> (string \<times> 'l) list \<Rightarrow> 'l list" where
  "calls_of b calls = map snd (filter (\<lambda>c. fst c = b) calls)"

lemma calls_of_append [simp]: "calls_of b (xs @ ys) = calls_of b xs @ calls_of b ys"
  by (simp add: calls_of_def)

lemma calls_of_Pair [simp]: "calls_of b (map (Pair b') es) = (if b' = b then es else [])"
  by (simp add: calls_of_def filter_map comp_def)

lemma calls_of_Nil [simp]: "calls_of b [] = []"
  by (simp add: calls_of_def)

lemma run_bindings_calls:
  assumes "honest_query chain query" "distinct bs" "run_bindings cfg query f t bs = (calls, answered)"
  shows "answered \<Longrightarrow> b \<in> set bs \<Longrightarrow> pc_hasFilter cfg b \<Longrightarrow> calls_of b calls = window_logs cfg chain b f t"
    and "calls_of b calls \<in> {[], window_logs cfg chain b f t}"
    and "b \<notin> set bs \<Longrightarrow> calls_of b calls = []"
  using assms(2,3)
proof (induction bs arbitrary: calls answered)
  case (Cons b' bs)
  case 1
  then show ?case using Cons.IH assms(1)
    by (fastforce simp: honest_query_def window_logs_def Let_def split: if_splits option.splits prod.splits)
next
  case (Cons b' bs)
  case 2
  then show ?case using Cons.IH assms(1)
    by (fastforce simp: honest_query_def window_logs_def Let_def split: if_splits option.splits prod.splits)
next
  case (Cons b' bs)
  case 3
  then show ?case using Cons.IH
    by (fastforce simp: Let_def split: if_splits option.splits prod.splits)
qed auto

definition answers_all :: "'l poll_op \<Rightarrow> bool" where
  "answers_all op \<longleftrightarrow> (case op of Tick_settled head query \<Rightarrow> \<forall>b f t. query b f t \<noteq> None | _ \<Rightarrow> True)"

text \<open>What the handler of \<open>b\<close> has seen when the cursor is where it is.\<close>

definition scanned :: "'l poller_config \<Rightarrow> (string \<Rightarrow> int \<Rightarrow> 'l list) \<Rightarrow> int \<Rightarrow> string \<Rightarrow> bool \<Rightarrow> 'l poll_system \<Rightarrow> bool" where
  "scanned cfg chain start b exactly s \<longleftrightarrow>
    start \<le> ps_lastProcessed s
    \<and> subseq (window_logs cfg chain b (start + 1) (ps_lastProcessed s)) (calls_of b (ps_calls s))
    \<and> (exactly \<longrightarrow> calls_of b (ps_calls s) = window_logs cfg chain b (start + 1) (ps_lastProcessed s))"

lemma window_logs_split:
  "start \<le> c \<Longrightarrow> c < t \<Longrightarrow>
    window_logs cfg chain b (start + 1) t = window_logs cfg chain b (start + 1) c @ window_logs cfg chain b (c + 1) t"
  using upto_split1[of "start + 1" "c + 1" t] by (simp add: window_logs_def)

lemma run_bindings_answered:
  "\<forall>b f t. query b f t \<noteq> None \<Longrightarrow> snd (run_bindings cfg query f t bs)"
proof (induction bs)
  case (Cons b bs)
  then obtain es where "query b f t = Some es" by blast
  with Cons show ?case by (simp add: split_beta Let_def)
qed simp

lemma scanned_cong:
  "ps_lastProcessed s' = ps_lastProcessed s \<Longrightarrow> ps_calls s' = ps_calls s \<Longrightarrow>
    scanned cfg chain start b ex s' = scanned cfg chain start b ex s"
  by (simp add: scanned_def)

lemma loop_keeps_calls [simp]:
  "ps_lastProcessed (schedule d s) = ps_lastProcessed s" "ps_calls (schedule d s) = ps_calls s"
  "ps_lastProcessed (clear_timer s) = ps_lastProcessed s" "ps_calls (clear_timer s) = ps_calls s"
  "ps_lastProcessed (finish_run opts s) = ps_lastProcessed s" "ps_calls (finish_run opts s) = ps_calls s"
  "ps_lastProcessed (fire opts t a c s) = ps_lastProcessed s" "ps_calls (fire opts t a c s) = ps_calls s"
  "ps_lastProcessed (stop s) = ps_lastProcessed s" "ps_calls (stop s) = ps_calls s"
  "ps_lastProcessed (wake s) = ps_lastProcessed s" "ps_calls (wake s) = ps_calls s"
  by (simp_all add: loop_defs split: option.splits prod.splits)

lemma scanned_tick:
  assumes "scanned cfg chain start b ex s" "honest_query chain query" "distinct (pc_bindings cfg)"
    and "b \<in> set (pc_bindings cfg)" "pc_hasFilter cfg b" "1 \<le> pc_maxWindow cfg"
    and "ex \<Longrightarrow> \<forall>b f t. query b f t \<noteq> None"
  shows "scanned cfg chain start b ex (poll_tick cfg head query s)"
proof (cases head)
  case (Some h)
  let ?c = "ps_lastProcessed s" and ?t = "min h (ps_lastProcessed s + 1 + pc_maxWindow cfg - 1)"
  obtain calls answered where
    rb: "run_bindings cfg query (?c + 1) ?t (pc_bindings cfg) = (calls, answered)" by force
  note calls = run_bindings_calls[OF assms(2,3) rb, of b]
  have all: "ex \<Longrightarrow> answered" using run_bindings_answered[OF assms(7)] rb by (metis snd_conv)
  have low: "start \<le> ?c" using assms(1) by (simp add: scanned_def)
  with calls(1) have seen: "answered \<Longrightarrow> \<not> h \<le> ?c \<Longrightarrow>
      window_logs cfg chain b (start + 1) ?t = window_logs cfg chain b (start + 1) ?c @ calls_of b calls"
    using window_logs_split[of start ?c ?t cfg chain b] calls(1) assms(4-6) by simp
  have tick: "poll_tick cfg head query s = (if h \<le> ?c then s
      else if answered then s\<lparr>ps_calls := ps_calls s @ calls, ps_lastProcessed := ?t\<rparr>
      else s\<lparr>ps_calls := ps_calls s @ calls\<rparr>)"
    using Some rb by (simp add: poll_tick_def Let_def)
  show ?thesis
  proof (cases "h \<le> ?c")
    case False
    show ?thesis
    proof (cases answered)
      case True
      have "start \<le> ?t" using low False assms(6) by simp
      then show ?thesis using assms(1) True False seen
        by (simp add: tick scanned_def list_emb_append_mono)
    next
      case unanswered: False
      then show ?thesis using assms(1) False all
        by (auto simp: tick scanned_def intro: list_emb_prefix)
    qed
  qed (use assms(1) tick in simp)
qed (use assms(1) in \<open>simp add: poll_tick_def\<close>)

lemma scanned_step:
  assumes "scanned cfg chain start b ex s" "honest_op chain op" "distinct (pc_bindings cfg)"
    and "b \<in> set (pc_bindings cfg)" "pc_hasFilter cfg b" "1 \<le> pc_maxWindow cfg" "ex \<Longrightarrow> answers_all op"
  shows "scanned cfg chain start b ex (poll_step opts cfg op s)"
proof (cases op)
  case (Tick_settled head query)
  then have "scanned cfg chain start b ex (poll_tick cfg head query s)"
    using assms by (intro scanned_tick) (auto simp: answers_all_def)
  then show ?thesis using assms(1) Tick_settled
    by (auto simp: tick_settled_def scanned_def split: option.splits prod.splits)
qed (use assms(1) in \<open>auto cong: scanned_cong\<close>)

text \<open>C23: The poller skips no log. Over any interleaving with failing calls, every decoded log of the
  blocks from the start to the cursor has been handed to the handler of its event, in block order;
  logs are handed over again only after a failed query, and without one the handler has seen exactly
  the logs up to the cursor, each once.\<close>

theorem poller_skips_no_log:
  assumes "list_all (honest_op chain) ops" "distinct (pc_bindings cfg)"
    and "b \<in> set (pc_bindings cfg)" "pc_hasFilter cfg b" "1 \<le> pc_maxWindow cfg"
  shows "let s = poll_run opts cfg start ops in
    subseq (window_logs cfg chain b (start + 1) (ps_lastProcessed s)) (calls_of b (ps_calls s))
    \<and> (list_all answers_all ops \<longrightarrow>
        calls_of b (ps_calls s) = window_logs cfg chain b (start + 1) (ps_lastProcessed s))"
proof -
  have "scanned cfg chain start b (list_all answers_all ops) (poll_run opts cfg start ops)"
    using assms(1)
  proof (induction ops rule: rev_induct)
    case Nil
    then show ?case
      by (simp add: poll_run_def startContractEventPoller_def schedule_def scanned_def window_logs_def calls_of_def)
  next
    case (snoc op ops)
    then have "scanned cfg chain start b (list_all answers_all (ops @ [op])) (poll_run opts cfg start ops)"
      by (auto simp: scanned_def)
    then show ?case unfolding poll_run_snoc using snoc.prems assms(2-5)
      by (intro scanned_step) auto
  qed
  then show ?thesis by (simp add: scanned_def Let_def)
qed

section \<open>Catching up\<close>

text \<open>One round: the timer fires with orders to watch, and the tick is answered.\<close>

fun serve_rounds :: "poll_options \<Rightarrow> 'l poller_config \<Rightarrow> bool \<Rightarrow> (int \<times> (string \<Rightarrow> int \<Rightarrow> int \<Rightarrow> 'l list option)) list
    \<Rightarrow> 'l poll_system \<Rightarrow> 'l poll_system" where
  "serve_rounds opts cfg attentive [] s = s"
| "serve_rounds opts cfg attentive ((h, query) # rs) s = serve_rounds opts cfg attentive rs
     (tick_settled opts cfg (Some h) query (fire opts (fst (hd (ps_armed s))) True attentive s))"

definition resting :: "'l poll_system \<Rightarrow> bool" where
  "resting s \<longleftrightarrow> \<not> ps_stopped s \<and> ps_running s = None \<and> \<not> ps_isPolling s \<and> (\<exists>t d. ps_armed s = [(t, d)])"

lemma resting_round:
  fixes opts :: poll_options and cfg :: "'l poller_config" and h :: int and a :: bool
  assumes "resting s" "\<forall>b f t. query b f t \<noteq> None"
  defines "s' \<equiv> tick_settled opts cfg (Some h) query (fire opts (fst (hd (ps_armed s))) True a s)"
  shows "resting s'" "ps_lastProcessed s' =
    (if h \<le> ps_lastProcessed s then ps_lastProcessed s else min h (ps_lastProcessed s + pc_maxWindow cfg))"
proof -
  obtain t d where armed: "ps_armed s = [(t, d)]" using assms(1) by (auto simp: resting_def)
  let ?s1 = "s\<lparr>ps_armed := [], ps_running := Some (True, a, True), ps_isPolling := True\<rparr>"
  have "fire opts (fst (hd (ps_armed s))) True a s = ?s1"
    using assms(1) armed by (simp add: fire_def run_loop_def resting_def)
  then have s': "s' = finish_run opts ((poll_tick cfg (Some h) query ?s1)\<lparr>ps_isPolling := False\<rparr>)"
    by (simp add: s'_def tick_settled_def)
  show "resting s'" using assms(1)
    by (simp add: s' resting_def finish_run_def schedule_def)
  have "snd (run_bindings cfg query f u (pc_bindings cfg))" for f u
    using run_bindings_answered[OF assms(2)] .
  then show "ps_lastProcessed s' =
      (if h \<le> ps_lastProcessed s then ps_lastProcessed s else min h (ps_lastProcessed s + pc_maxWindow cfg))"
    by (simp add: s' poll_tick_def Let_def split_beta)
qed

lemma resting_rounds:
  assumes "resting s" "1 \<le> pc_maxWindow cfg"
    and "list_all (\<lambda>(h, query). H \<le> h \<and> (\<forall>b f t. query b f t \<noteq> None)) rounds"
  shows "min H (ps_lastProcessed s + int (length rounds) * pc_maxWindow cfg)
    \<le> ps_lastProcessed (serve_rounds opts cfg a rounds s)"
  using assms(1,3)
proof (induction rounds arbitrary: s)
  case (Cons r rounds)
  obtain h query where r: "r = (h, query)" by force
  let ?s' = "tick_settled opts cfg (Some h) query (fire opts (fst (hd (ps_armed s))) True a s)"
  have hq: "H \<le> h" "\<forall>b f t. query b f t \<noteq> None" using Cons.prems(2) r by auto
  note step = resting_round[OF Cons.prems(1) hq(2), of opts cfg h a]
  have "min H (ps_lastProcessed ?s' + int (length rounds) * pc_maxWindow cfg)
      \<le> ps_lastProcessed (serve_rounds opts cfg a rounds ?s')"
    using Cons.IH[OF step(1)] Cons.prems(2) by simp
  moreover have "min H (ps_lastProcessed s + int (length (r # rounds)) * pc_maxWindow cfg)
      \<le> min H (ps_lastProcessed ?s' + int (length rounds) * pc_maxWindow cfg)"
  proof (cases "h \<le> ps_lastProcessed s")
    case True
    moreover have "0 \<le> int (length rounds) * pc_maxWindow cfg" using assms(2) by simp
    ultimately show ?thesis using step(2) hq(1) by (simp add: min_def)
  next
    case False
    moreover have "0 \<le> int (length rounds) * pc_maxWindow cfg" using assms(2) by simp
    ultimately show ?thesis using step(2) hq(1) by (simp add: min_def algebra_simps)
  qed
  ultimately show ?case by (simp add: r)
qed simp

text \<open>C24: A poller that fell behind catches up. From any state in which it was not stopped and no tick
  is waiting, \<open>n\<close> rounds that are answered bring the cursor to the head of the chain, or at least
  \<open>n\<close> windows closer.\<close>

theorem poller_catches_up:
  assumes "\<not> ps_stopped (poll_run opts cfg start ops)" "ps_running (poll_run opts cfg start ops) = None"
    and "1 \<le> pc_maxWindow cfg"
    and "list_all (\<lambda>(h, query). H \<le> h \<and> (\<forall>b f t. query b f t \<noteq> None)) rounds"
  shows "min H (ps_lastProcessed (poll_run opts cfg start ops) + int (length rounds) * pc_maxWindow cfg)
    \<le> ps_lastProcessed (serve_rounds opts cfg a rounds (poll_run opts cfg start ops))"
proof (rule resting_rounds[OF _ assms(3,4)])
  show "resting (poll_run opts cfg start ops)"
    using loop_ok_run[of opts cfg start ops] assms(1,2) by (auto simp: loop_ok_def resting_def)
qed

section \<open>Samples\<close>

definition sample_poller :: "int poller_config" where
  "sample_poller = \<lparr>pc_bindings = [''OrderCreated''], pc_hasFilter = (\<lambda>_. True), pc_decoded = (\<lambda>_. True),
     pc_maxWindow = 2\<rparr>"

definition sample_poll_options :: poll_options where
  "sample_poll_options = \<lparr>activeIntervalMs = 15000, idleIntervalMs = 120000\<rparr>"

text \<open>A chain whose block \<open>n\<close> has the log \<open>n\<close>.\<close>

definition sample_query :: "string \<Rightarrow> int \<Rightarrow> int \<Rightarrow> int list option" where
  "sample_query b f t = Some (concat (map (\<lambda>n. [n]) [f..t]))"

lemma sample_query_answers: "sample_query b f t \<noteq> None"
  by (simp add: sample_query_def)

lemma sample_honest: "honest_query (\<lambda>_ n. [n]) sample_query"
  by (simp add: honest_query_def sample_query_def)

lemma poller_skips_no_log_witness:
  "calls_of ''OrderCreated'' (ps_calls (poll_run sample_poll_options sample_poller 10
     [Fire 0 True False, Tick_settled (Some 15) sample_query])) = [11, 12]"
proof -
  let ?ops = "[Fire 0 True False, Tick_settled (Some 15) sample_query]"
  have "list_all answers_all ?ops" by (simp add: answers_all_def sample_query_def)
  then have "calls_of ''OrderCreated'' (ps_calls (poll_run sample_poll_options sample_poller 10 ?ops)) =
      window_logs sample_poller (\<lambda>_ n. [n]) ''OrderCreated'' (10 + 1)
        (ps_lastProcessed (poll_run sample_poll_options sample_poller 10 ?ops))"
    using poller_skips_no_log[of "\<lambda>_ n. [n]" ?ops sample_poller "''OrderCreated''" sample_poll_options 10]
    by (simp add: sample_honest sample_poller_def Let_def)
  moreover have "ps_lastProcessed (poll_run sample_poll_options sample_poller 10 ?ops) = 12"
    by (simp add: poll_run_def startContractEventPoller_def loop_defs poll_tick_def sample_poller_def
        sample_query_def Let_def)
  ultimately show ?thesis by (simp add: window_logs_def sample_poller_def)
qed

lemma poller_catches_up_witness:
  "15 \<le> ps_lastProcessed (serve_rounds sample_poll_options sample_poller False
     [(15, sample_query), (15, sample_query), (16, sample_query)] (startContractEventPoller 10))"
proof -
  let ?s = "startContractEventPoller 10 :: int poll_system" and ?rounds = "[(15, sample_query), (15, sample_query), (16, sample_query)]"
  have run: "poll_run sample_poll_options sample_poller 10 [] = ?s"
    by (simp add: poll_run_def)
  have "list_all (\<lambda>(h :: int, query). 15 \<le> h \<and> (\<forall>b f t. query b f t \<noteq> None)) ?rounds"
    using sample_query_answers by auto
  moreover have "\<not> ps_stopped ?s" "ps_running ?s = None" "ps_lastProcessed ?s = 10" "pc_maxWindow sample_poller = 2"
    by (simp_all add: startContractEventPoller_def schedule_def sample_poller_def)
  ultimately show ?thesis
    using poller_catches_up[of sample_poll_options sample_poller 10 "[]" 15 ?rounds False] unfolding run
    by (simp del: serve_rounds.simps)
qed

end
