(* ===== verification/Relay_Progress.thy ===== *)
theory Relay_Progress
  imports Relay_Guarantees
begin

text \<open>
  What one event does to the tracker within one life of the process, for the components that submit
  through it: a settled record is never touched again, a record with a transaction has it on the
  wire, and an operation runs until its callers are answered. \<open>advances\<close> states the three together
  and is proved for every event but \<open>Forget\<close> and \<open>Restart\<close>.
\<close>

section \<open>Definitions\<close>

definition backed :: "tracker \<Rightarrow> bool" where
  "backed t \<longleftrightarrow> (\<forall>(k, oid) \<in> set (records t).
     sr_status (heap t ! oid) \<in> {PendingTx, SucceededTx} \<longrightarrow>
       (\<exists>h. h \<noteq> [] \<and> sr_txHash (heap t ! oid) = Some h \<and> (k, h) \<in> set (wire t)))"

fun ended :: "relay_reply \<Rightarrow> bool" where
  "ended (Resolved out) = True"
| "ended (Thrown e) = True"
| "ended _ = False"

text \<open>The operation whose callers get the reply of an event.\<close>

fun target :: "relay_event \<Rightarrow> nat option" where
  "target (Stager_answers oid ans now) = Some oid"
| "target (Broadcast_answers oid ans now) = Some oid"
| "target (Confirmer_answers oid ans now) = Some oid"
| "target (Timer oid now) = Some oid"
| "target _ = None"

definition running :: "tracker \<Rightarrow> nat set" where
  "running t = fst ` set (ops t)"

definition advances :: "nat option \<Rightarrow> relay_reply \<Rightarrow> tracker \<Rightarrow> tracker \<Rightarrow> bool" where
  "advances tgt reply t t' \<longleftrightarrow>
     (\<forall>(k, oid) \<in> set (records t). sr_status (heap t ! oid) = SucceededTx \<longrightarrow>
        (k, oid) \<in> set (records t') \<and> heap t' ! oid = heap t ! oid)
   \<and> (backed t \<longrightarrow> backed t')
   \<and> (\<forall>oid \<in> running t. ended reply \<and> tgt = Some oid
        \<or> oid \<in> running t' \<and> sr_key (heap t' ! oid) = sr_key (heap t ! oid))"

lemma backedD:
  "backed t \<Longrightarrow> (k, oid) \<in> set (records t) \<Longrightarrow> sr_status (heap t ! oid) \<in> {PendingTx, SucceededTx} \<Longrightarrow>
    \<exists>h. h \<noteq> [] \<and> sr_txHash (heap t ! oid) = Some h \<and> (k, h) \<in> set (wire t)"
  unfolding backed_def by blast

lemma backed_cong:
  "backed t \<Longrightarrow> heap t' = heap t \<Longrightarrow> records t' = records t \<Longrightarrow> wire t' = wire t \<Longrightarrow> backed t'"
  by (simp add: backed_def)

lemma advances_same:
  "heap t' = heap t \<Longrightarrow> records t' = records t \<Longrightarrow> wire t' = wire t \<Longrightarrow> ops t' = ops t \<Longrightarrow> advances tgt reply t t'"
  by (auto simp: advances_def backed_def running_def)

section \<open>A write of a running operation\<close>

text \<open>An event that writes one unsettled record and continues or ends the operation on it.\<close>

lemma advances_write:
  assumes i: "relay_inv t" and k: "(k, oid) \<in> set (records t)" "sr_status (heap t ! oid) \<noteq> SucceededTx"
    and h: "heap t' = (heap t)[oid := r']" "records t' = records t" "sr_key r' = sr_key (heap t ! oid)"
    and w: "set (wire t) \<subseteq> set (wire t')"
    and nxt: "ops t' = AList.update oid ph (ops t)
      \<or> ops t' = AList.delete oid (ops t) \<and> (ended reply \<and> tgt = Some oid \<or> oid \<notin> running t)
      \<or> ops t' = ops t"
    and b: "backed t \<Longrightarrow> sr_status r' \<in> {PendingTx, SucceededTx} \<Longrightarrow>
      \<exists>x. x \<noteq> [] \<and> sr_txHash r' = Some x \<and> (k, x) \<in> set (wire t')"
  shows "advances tgt reply t t'"
proof -
  note c = relay_coreD[OF i[unfolded relay_inv_def]]
  have len: "oid < length (heap t)" using c(2) k(1) by blast
  have inj: "(k', oid) \<in> set (records t) \<Longrightarrow> k' = k" for k' using c(2) k(1) by metis
  have keep: "(k', o') \<in> set (records t) \<Longrightarrow> sr_status (heap t ! o') = SucceededTx \<Longrightarrow> heap t' ! o' = heap t ! o'"
    for k' o' using k(2) h(1) by (cases "o' = oid") auto
  have bk: "backed t'" if t: "backed t"
    unfolding backed_def
  proof (clarify)
    fix k' o' assume m: "(k', o') \<in> set (records t')" "sr_status (heap t' ! o') \<in> {PendingTx, SucceededTx}"
    show "\<exists>x. x \<noteq> [] \<and> sr_txHash (heap t' ! o') = Some x \<and> (k', x) \<in> set (wire t')"
    proof (cases "o' = oid")
      case True
      then show ?thesis using m b[OF t] h len inj by auto
    next
      case False
      then show ?thesis using m h w backedD[OF t, of k' o'] by auto
    qed
  qed
  have "o' \<in> running t \<Longrightarrow> sr_key (heap t' ! o') = sr_key (heap t ! o')" for o'
    using h(1,3) len by (cases "o' = oid") auto
  moreover have "o' \<in> running t \<Longrightarrow> ended reply \<and> tgt = Some o' \<or> o' \<in> running t'" for o'
    using nxt by (auto simp: running_def set_delete_alist dom_update set_update_alist c(3) image_iff)
  ultimately show ?thesis using keep bk h(2) by (auto simp: advances_def)
qed

lemma advances_trans:
  assumes "advances tgt reply0 t t1" "advances tgt reply t1 t2" "\<not> ended reply0"
  shows "advances tgt reply t t2"
  using assms unfolding advances_def by fastforce

section \<open>The continuations\<close>

lemma settleSuccess_advances:
  assumes i: "relay_inv t" and k: "(k, oid) \<in> set (records t)" "sr_status (heap t ! oid) = PendingTx"
  shows "advances (Some oid) (fst (settleSuccess cfg res dup rec now oid t)) t
    (snd (settleSuccess cfg res dup rec now oid t))"
  by (rule advances_write[OF i k(1), where r' = "(heap t ! oid)\<lparr>sr_status := SucceededTx, sr_result := res,
        sr_completedAt := Some now, sr_lastError := None\<rparr>"])
    (use k backedD[OF _ k(1)] in \<open>auto simp: settleSuccess_def Let_def\<close>)

lemma fail_advances:
  assumes i: "relay_inv t" and k: "(k, oid) \<in> set (records t)" "sr_status (heap t ! oid) \<noteq> SucceededTx"
    and f: "sr_key (f (heap t ! oid)) = sr_key (heap t ! oid)"
  shows "advances (Some oid) (Thrown e) t (end_op oid (fail_rec cfg reason now oid (update_rec oid f t)))"
proof -
  have len: "oid < length (heap t)" using relay_coreD(2)[OF i[unfolded relay_inv_def] k(1)] by simp
  show ?thesis
    by (rule advances_write[OF i k, where r' = "(f (heap t ! oid))\<lparr>sr_status := FailedTx, sr_completedAt := Some now,
        sr_terminalReason := Some reason, sr_lastError := (case sr_lastError (f (heap t ! oid)) of Some e \<Rightarrow> Some e
                       | None \<Rightarrow> Some (''relay submission '' @ reason_text reason))\<rparr>"])
      (use f len in \<open>auto simp: fail_rec_def\<close>)
qed

lemma note_advances:
  assumes i: "relay_inv t" and k: "(k, oid) \<in> set (records t)" "sr_status (heap t ! oid) = PendingTx"
    and t': "heap t' = (heap t)[oid := (heap t ! oid)\<lparr>sr_lastError := e\<rparr>]" "records t' = records t" "wire t' = wire t"
      "ops t' = ops t \<or> ops t' = AList.update oid ph (ops t) \<or>
       ops t' = AList.delete oid (ops t) \<and> ended reply \<and> tgt = Some oid"
  shows "advances tgt reply t t'"
  by (rule advances_write[OF i k(1) _ t'(1,2), where ph = ph])
    (use k backedD[OF _ k(1)] t' in auto)

lemma poll_advances:
  assumes i: "relay_inv t" and k: "(k, oid) \<in> set (records t)" "sr_status (heap t ! oid) = PendingTx"
  shows "advances tgt reply t (snd (poll polls dup now oid t))"
  by (rule advances_write[OF i k(1), where ph = "Polling (polls + 1) dup" and r' = "(heap t ! oid)\<lparr>sr_attempts := sr_attempts (heap t ! oid) + 1,
        sr_lastAttemptAt := Some now\<rparr>"])
    (use k backedD[OF _ k(1)] in \<open>auto simp: poll_def\<close>)

lemma advances_cong:
  "advances tgt reply t t' \<Longrightarrow> heap t0 = heap t \<Longrightarrow> records t0 = records t \<Longrightarrow> wire t0 = wire t \<Longrightarrow> ops t0 = ops t \<Longrightarrow>
    advances tgt reply t0 t'"
  by (auto simp: advances_def backed_def running_def)

lemma end_op_advances:
  "ended reply \<and> tgt = Some oid \<or> oid \<notin> running t \<Longrightarrow> heap t' = heap t \<Longrightarrow> records t' = records t \<Longrightarrow>
    wire t' = wire t \<Longrightarrow> ops t' = AList.delete oid (ops t) \<Longrightarrow> advances tgt reply t t'"
  by (auto simp: advances_def backed_def running_def set_delete_alist image_iff)

lemma reconcile_advances:
  assumes i: "relay_inv t" and k: "(k, oid) \<in> set (records t)" "sr_status (heap t ! oid) = PendingTx"
    and tgt: "tgt = Some oid \<or> oid \<notin> running t"
  shows "advances tgt (fst (reconcile cfg dup now oid t)) t (snd (reconcile cfg dup now oid t))"
proof -
  have "advances tgt reply t (snd (poll 0 dup now oid (t\<lparr>reconciling := ks\<rparr>)))" for ks reply
  proof (rule advances_cong)
    show "advances tgt reply (t\<lparr>reconciling := ks\<rparr>) (snd (poll 0 dup now oid (t\<lparr>reconciling := ks\<rparr>)))"
      by (rule poll_advances[where k = k]) (use i k in simp_all)
  qed simp_all
  then show ?thesis
    using tgt by (auto simp: reconcile_def Let_def intro!: end_op_advances)
qed

lemma stager_settled_advances:
  assumes i: "relay_inv t" and op: "map_of (ops t) oid = Some Staging"
  shows "advances (Some oid) (fst (stager_settled cfg ans now oid t)) t (snd (stager_settled cfg ans now oid t))"
proof -
  note k = relay_inv_ops[OF i op]
  have st: "sr_status (heap t ! oid) = InFlight" using k(3) by simp
  show ?thesis
  proof (cases "\<exists>staged. ans = Inr staged \<and> st_txHash staged \<noteq> []")
    case False
    then show ?thesis using st
      by (auto simp: stager_settled_def Let_def split: sum.splits intro!: fail_advances[OF i k(1)])
  next
    case True
    then obtain staged where a: "ans = Inr staged" "st_txHash staged \<noteq> []" by blast
    show ?thesis
      by (rule advances_write[OF i k(1), where ph = Broadcasting and
            r' = "(heap t ! oid)\<lparr>sr_txHash := Some (st_txHash staged),
              sr_network := (case st_network staged of Some n \<Rightarrow> Some n | None \<Rightarrow> ra_network (sr_action (heap t ! oid))),
              sr_status := PendingTx, sr_broadcasts := sr_broadcasts (heap t ! oid) + 1\<rparr>"])
        (use a k st in \<open>auto simp: stager_settled_def Let_def\<close>)
  qed
qed

lemma broadcast_settled_advances:
  assumes i: "relay_inv t" and op: "map_of (ops t) oid = Some Broadcasting"
  shows "advances (Some oid) (fst (broadcast_settled cfg ans now oid t)) t (snd (broadcast_settled cfg ans now oid t))"
proof (cases ans)
  case (Inr result)
  then show ?thesis using relay_inv_ops[OF i op] settleSuccess_advances[OF i]
    by (simp add: broadcast_settled_def)
next
  case (Inl err)
  note k = relay_inv_ops[OF i op]
  let ?t1 = "persist cfg (update_rec oid (\<lambda>r. r\<lparr>sr_lastError := Some err\<rparr>) t)"
  have i1: "relay_inv ?t1" using note_error_inv[OF i k(1)] by simp
  have "advances (Some oid) Idle t ?t1"
    by (rule note_advances[OF i k(1)]) (use k in auto)
  moreover have "advances (Some oid) (fst (reconcile cfg False now oid ?t1)) ?t1 (snd (reconcile cfg False now oid ?t1))"
    by (rule reconcile_advances[OF i1, where k = "sr_key (heap t ! oid)"]) (use k in auto)
  ultimately show ?thesis by (simp add: broadcast_settled_def Inl) (rule advances_trans[of _ Idle]; simp)
qed

lemma confirm_settled_advances:
  assumes i: "relay_inv t" and op: "map_of (ops t) oid = Some (Polling polls dup)"
  shows "advances (Some oid) (fst (confirm_settled cfg ans now polls dup oid t)) t
    (snd (confirm_settled cfg ans now polls dup oid t))"
proof -
  note k = relay_inv_ops[OF i op]
  have st: "sr_status (heap t ! oid) = PendingTx" using k(3) by simp
  define c where "c = (case ans of Inr c \<Rightarrow> c
      | Inl err \<Rightarrow> \<lparr>rc_state = Conf_pending, rc_error = Some err, rc_result = None\<rparr>)"
  define t1 where "t1 = persist cfg
      (update_rec oid (\<lambda>r. r\<lparr>sr_lastError := Some (unsettled_text c r)\<rparr>) t)"
  have i1: "relay_inv t1" using note_error_inv[OF i k(1)] by (simp add: t1_def)
  have k1: "(sr_key (heap t ! oid), oid) \<in> set (records t1)" "sr_status (heap t1 ! oid) = PendingTx"
    using k st by (simp_all add: t1_def)
  have noted: "advances (Some oid) Idle t t1"
    by (rule note_advances[OF i k(1) st]) (auto simp: t1_def)
  have sleep: "advances (Some oid) (Waiting oid) t (set_op oid (Sleeping polls dup) t1)"
    by (rule note_advances[OF i k(1) st]) (auto simp: t1_def)
  have give_up: "advances (Some oid) (Thrown e) t (end_op oid (stop_reconciling oid (persist cfg t1)))" for e
    by (rule note_advances[OF i k(1) st, where ph = Staging]) (auto simp: t1_def)
  have swap: "end_op oid (stop_reconciling oid t') = stop_reconciling oid (end_op oid t')" for t'
    by (simp add: end_op_def stop_reconciling_def)
  have still: "advances tgt reply t (stop_reconciling oid t') \<longleftrightarrow> advances tgt reply t t'" for tgt reply t'
    by (auto simp: advances_def backed_def running_def)
  have "advances (Some oid) (Thrown e) t1 (end_op oid (fail_rec cfg ReasonNotFound now oid t1))" for e
    using fail_advances[OF i1 k1(1), where f = id] k1(2) by (simp add: update_rec_def)
  then have never: "advances (Some oid) (Thrown e) t (end_op oid (fail_rec cfg ReasonNotFound now oid t1))" for e
    by (rule advances_trans[OF noted]) simp
  have failed: "advances (Some oid) (Thrown e) t (end_op oid (fail_rec cfg ReasonFailed now oid
      (update_rec oid (sr_lastError_update (\<lambda>_. x)) t)))" for e x
    by (rule fail_advances[OF i k(1)]) (simp_all add: st)
  have done_: "advances (Some oid) (fst (settleSuccess cfg res dup True now oid (stop_reconciling oid t))) t
      (snd (settleSuccess cfg res dup True now oid (stop_reconciling oid t)))" for res
    by (rule advances_cong, rule settleSuccess_advances[where k = "sr_key (heap t ! oid)"]) (use i k st in simp_all)
  show ?thesis
    unfolding confirm_settled_def c_def[symmetric] Let_def t1_def[symmetric]
    using sleep give_up never failed done_
    by (auto split: confirmation_state.splits simp: swap still)
qed

section \<open>Submitting\<close>

lemma start_submission_advances:
  assumes i: "relay_inv t" and free: "computeSubmissionKey sha a \<notin> fst ` set (records t)"
  shows "advances None (fst (start_submission sha cfg a now t)) t (snd (start_submission sha cfg a now t))"
proof (cases "assertOrderAvailable sha a t")
  case (Pair e t1)
  note fr = assertOrderAvailable_frame[OF Pair]
  note c = relay_coreD[OF i[unfolded relay_inv_def]]
  show ?thesis
  proof (cases e)
    case (Some x)
    then show ?thesis using Pair fr by (simp add: start_submission_def advances_same)
  next
    case None
    let ?t' = "snd (start_submission sha cfg a now t)"
    obtain r where r: "heap ?t' = heap t @ [r]" "sr_status r = InFlight"
        "records ?t' = AList.update (computeSubmissionKey sha a) (length (heap t)) (records t)"
        "ops ?t' = AList.update (length (heap t)) Staging (ops t)" "wire ?t' = wire t"
      using Pair None fr by (simp add: start_submission_def Let_def)
    have old: "(k, oid) \<in> set (records t) \<Longrightarrow> (k, oid) \<in> set (records ?t') \<and> heap ?t' ! oid = heap t ! oid" for k oid
      using free c(2)[of k oid] r(1,3) by (auto simp: set_update_alist c(1) nth_append image_iff)
    have runs: "oid \<in> running t \<Longrightarrow> oid \<in> running ?t' \<and> sr_key (heap ?t' ! oid) = sr_key (heap t ! oid)" for oid
      using c(4) old by (fastforce simp: running_def r(4) set_update_alist c(3) image_iff)
    have "backed ?t'" if b: "backed t"
    proof (unfold backed_def, clarify)
      fix k oid assume m: "(k, oid) \<in> set (records ?t')" "sr_status (heap ?t' ! oid) \<in> {PendingTx, SucceededTx}"
      then have "(k, oid) \<in> set (records t)"
        using r(1-3) by (auto simp: set_update_alist c(1))
      with m old[of k oid] backedD[OF b] r(5) show "\<exists>h. h \<noteq> [] \<and> sr_txHash (heap ?t' ! oid) = Some h \<and> (k, h) \<in> set (wire ?t')"
        by auto
    qed
    then show ?thesis using old runs by (auto simp: advances_def)
  qed
qed

lemma restage_advances:
  assumes i: "relay_inv t" and m: "map_of (records t) k = Some oid" and f: "sr_status (heap t ! oid) = FailedTx"
    and t': "heap t' = heap t" "records t' = AList.delete k (records t)" "ops t' = ops t" "wire t' = wire t"
  shows "advances None reply t t'"
proof -
  note c = relay_coreD[OF i[unfolded relay_inv_def]]
  have "(k, oid') \<in> set (records t) \<Longrightarrow> oid' = oid" for oid'
    using m c(1) by (metis map_of_eq_Some_iff option.inject)
  then show ?thesis
    using f t' by (auto simp: advances_def backed_def running_def set_delete_alist)
qed

lemma submit_advances:
  assumes i: "relay_inv t"
  shows "advances None (fst (submit sha cfg a now t)) t (snd (submit sha cfg a now t))"
proof (cases "map_of (records t) (computeSubmissionKey sha a)")
  case None
  then have "computeSubmissionKey sha a \<notin> fst ` set (records t)" by (simp add: map_of_eq_None_iff)
  from start_submission_advances[OF i this] show ?thesis by (simp add: submit_def None Let_def)
next
  case (Some oid)
  let ?k = "computeSubmissionKey sha a"
  let ?t1 = "persist cfg (t\<lparr>records := AList.delete ?k (records t)\<rparr>)"
  have k: "(?k, oid) \<in> set (records t)" using Some by (rule map_of_SomeD)
  note c = relay_coreD[OF i[unfolded relay_inv_def]]
  have idle: "oid \<notin> running t" if "\<not> driven ?k t"
    using that c(2)[OF k] by (fastforce simp: driven_def running_def)
  have again: "advances None (fst m) t (snd m)"
    if m: "m = (case assertOrderAvailable sha a ?t1 of
        (Some e, t2) \<Rightarrow> (Thrown e, t2) | (None, t2) \<Rightarrow> start_submission sha cfg a now t2)"
      and f: "sr_status (heap t ! oid) = FailedTx" "sr_terminalReason (heap t ! oid) = Some ReasonStaging" for m
  proof (cases "assertOrderAvailable sha a ?t1")
    case (Pair e t2)
    note fr = assertOrderAvailable_frame[OF Pair]
    have drop: "advances None reply t t2" for reply
      by (rule restage_advances[OF i Some f(1)]) (use fr in simp_all)
    show ?thesis
    proof (cases e)
      case None
      have "relay_inv t2" using relay_inv_restage[OF i Some f, of cfg] fr by (simp add: relay_inv_def)
      moreover have "?k \<notin> fst ` set (records t2)" using fr by (auto simp: set_delete_alist)
      ultimately show ?thesis
        using m Pair None advances_trans[OF drop[of Idle] start_submission_advances] by simp
    qed (use m Pair drop in simp)
  qed
  have same: "advances None reply t (t\<lparr>inFlightSkipped := n\<rparr>)" "advances None reply t (t\<lparr>duplicatesSkipped := n\<rparr>)"
    "advances None reply t t" for n reply
    by (simp_all add: advances_same)
  show ?thesis
    using Some again[OF refl] same reconcile_advances[OF i k, of None] idle
    by (auto simp: submit_def Let_def split: relay_status.splits)
qed

text \<open>An event of the running process.\<close>

fun live_event :: "relay_event \<Rightarrow> bool" where
  "live_event (Forget key force) = False"
| "live_event Restart = False"
| "live_event _ = True"

lemma step_advances:
  assumes i: "relay_inv t" and "live_event ev"
  shows "advances (target ev) (fst (relay_step sha cfg ev t)) t (snd (relay_step sha cfg ev t))"
proof -
  have same: "advances tgt Idle t t" for tgt by (simp add: advances_same)
  show ?thesis
  proof (cases ev)
    case (Submit a now)
    then show ?thesis using submit_advances[OF i] by (simp add: relay_step_def)
  next
    case (Stager_answers oid ans now)
    then show ?thesis using same stager_settled_advances[OF i]
      by (simp add: relay_step_def split: option.splits relay_phase.splits)
  next
    case (Broadcast_answers oid ans now)
    then show ?thesis using same broadcast_settled_advances[OF i]
      by (simp add: relay_step_def split: option.splits relay_phase.splits)
  next
    case (Confirmer_answers oid ans now)
    then show ?thesis using same confirm_settled_advances[OF i]
      by (simp add: relay_step_def split: option.splits relay_phase.splits)
  next
    case (Timer oid now)
    have "advances (Some oid) (fst (poll polls dup now oid t)) t (snd (poll polls dup now oid t))"
      if "map_of (ops t) oid = Some (Sleeping polls dup)" for polls dup
      using poll_advances[OF i relay_inv_ops(1)[OF i that]] relay_inv_ops(3)[OF i that] by simp
    then show ?thesis using Timer same
      by (simp add: relay_step_def split: option.splits relay_phase.splits)
  qed (use assms(2) in simp_all)
qed

section \<open>Replies\<close>

text \<open>What a resolved reply says about the record it settles.\<close>

definition settles :: "string \<Rightarrow> relay_outcome \<Rightarrow> tracker \<Rightarrow> bool" where
  "settles k out t \<longleftrightarrow> (\<exists>oid. (k, oid) \<in> set (records t) \<and> sr_status (heap t ! oid) = SucceededTx
     \<and> sr_txHash (heap t ! oid) = ro_txHash out)"

lemma settleSuccess_reply:
  assumes "relay_inv t" "(k, oid) \<in> set (records t)"
    and "fst (settleSuccess cfg res dup rec now oid t) = Resolved out"
  shows "settles k out (snd (settleSuccess cfg res dup rec now oid t))"
  using assms relay_coreD(2)[OF assms(1)[unfolded relay_inv_def] assms(2)]
  by (auto simp: settles_def settleSuccess_def Let_def intro!: exI[of _ oid])

lemma reconcile_reply: "fst (reconcile cfg dup now oid t) \<noteq> Resolved out"
  by (simp add: reconcile_def Let_def poll_def)

lemma step_reply:
  assumes i: "relay_inv t" and "target ev = Some oid" "fst (relay_step sha cfg ev t) = Resolved out"
  shows "settles (sr_key (heap t ! oid)) out (snd (relay_step sha cfg ev t))"
proof (cases ev)
  case (Stager_answers oid' ans now)
  then show ?thesis using assms(3)
    by (auto simp: relay_step_def stager_settled_def Let_def split: option.splits relay_phase.splits sum.splits if_splits)
next
  case (Broadcast_answers oid' ans now)
  then show ?thesis using assms(2,3) relay_inv_ops(1)[OF i] settleSuccess_reply[OF i]
    by (auto simp: relay_step_def broadcast_settled_def reconcile_reply split: option.splits relay_phase.splits sum.splits)
next
  case (Confirmer_answers oid' ans now)
  have fin: "settles (sr_key (heap t ! oid)) out (snd (settleSuccess cfg res dup True now oid (stop_reconciling oid t)))"
    if "map_of (ops t) oid = Some ph" "fst (settleSuccess cfg res dup True now oid (stop_reconciling oid t)) = Resolved out"
    for res dup ph
    by (rule settleSuccess_reply) (use that i relay_inv_ops(1)[OF i] in simp_all)
  then show ?thesis using assms(2,3) Confirmer_answers
    by (auto simp: relay_step_def confirm_settled_def Let_def
        split: option.splits relay_phase.splits sum.splits confirmation_state.splits if_splits)
next
  case (Timer oid' now)
  then show ?thesis using assms(3)
    by (auto simp: relay_step_def poll_def split: option.splits relay_phase.splits)
qed (use assms(2) in simp_all)

lemma submit_reply:
  assumes i: "relay_inv t" and m: "submit sha cfg a now t = (reply, t')"
  shows "reply = Resolved out \<Longrightarrow> settles (computeSubmissionKey sha a) out t'"
    and "reply = Waiting oid \<or> reply = Joins oid \<Longrightarrow> oid \<in> running t' \<and> sr_key (heap t' ! oid) = computeSubmissionKey sha a"
proof -
  let ?k = "computeSubmissionKey sha a"
  note c = relay_coreD[OF i[unfolded relay_inv_def]]
  have runs: "oid \<in> running t' \<and> sr_key (heap t' ! oid) = ?k"
    if "start_submission sha cfg a now t0 = (Waiting oid, t')" for t0 oid
    using that assertOrderAvailable_frame[of sha a t0]
    by (auto simp: start_submission_def running_def Let_def dom_update split: prod.splits option.splits)
  have nojoin: "fst (start_submission sha cfg a now t0) \<noteq> Resolved out"
    "fst (start_submission sha cfg a now t0) \<noteq> Joins oid" for t0 out oid
    by (auto simp: start_submission_def Let_def split: prod.splits option.splits)
  have nojoin': "(Resolved out, t') \<noteq> start_submission sha cfg a now t0"
    "(Joins oid, t') \<noteq> start_submission sha cfg a now t0" for t0 out oid
    by (metis nojoin fst_conv)+
  have rec: "reconcile cfg True now o' t = (reply, t') \<Longrightarrow> reply = Waiting oid \<Longrightarrow> (?k, o') \<in> set (records t) \<Longrightarrow>
      oid \<in> running t' \<and> sr_key (heap t' ! oid) = ?k" for o'
    using c(2)[of ?k o'] by (auto simp: reconcile_def poll_def running_def Let_def dom_update split: if_splits)
  have joined: "oid \<in> running t \<and> sr_key (heap t ! oid) = ?k"
    if m: "map_of (records t) ?k = Some oid" "driven ?k t" for oid
  proof -
    obtain oid' where o': "oid' \<in> running t" "sr_key (heap t ! oid') = ?k"
      using m(2) by (force simp: driven_def running_def)
    then have "(?k, oid') \<in> set (records t)" using c(4) by (force simp: running_def)
    then have "oid' = oid" using map_of_SomeD[OF m(1)] c(1) by (metis map_of_eq_Some_iff option.inject)
    then show ?thesis using o' by simp
  qed
  have sub: "submit sha cfg a now t = (case map_of (records t) ?k of
      None \<Rightarrow> start_submission sha cfg a now t
    | Some o' \<Rightarrow> (case sr_status (heap t ! o') of SucceededTx \<Rightarrow> submit sha cfg a now t
        | FailedTx \<Rightarrow> submit sha cfg a now t
        | InFlight \<Rightarrow> if driven ?k t then (Joins o', t\<lparr>inFlightSkipped := inFlightSkipped t + 1\<rparr>)
            else (Thrown (RelayInFlightError ?k), t\<lparr>inFlightSkipped := inFlightSkipped t + 1\<rparr>)
        | PendingTx \<Rightarrow> if driven ?k t then (Joins o', t\<lparr>inFlightSkipped := inFlightSkipped t + 1\<rparr>)
            else reconcile cfg True now o' t))"
    by (simp add: submit_def Let_def split: option.splits relay_status.splits)
  have failed: "(\<exists>e. reply = Thrown e) \<or> (\<exists>t0. start_submission sha cfg a now t0 = (reply, t'))"
    if "map_of (records t) ?k = Some o'" "sr_status (heap t ! o') = FailedTx" for o'
    using that m by (auto simp: submit_def Let_def split: prod.splits option.splits if_splits)
  have settled: "(\<exists>out. reply = Resolved out \<and> sr_txHash (heap t ! o') = ro_txHash out) \<and> heap t' = heap t \<and> records t' = records t"
    if "map_of (records t) ?k = Some o'" "sr_status (heap t ! o') = SucceededTx" for o'
    using that m by (auto simp: submit_def Let_def)
  show "reply = Resolved out \<Longrightarrow> settles ?k out t'"
  proof (cases "map_of (records t) ?k")
    case (Some o')
    assume r: "reply = Resolved out"
    note in_recs = map_of_SomeD[OF Some]
    have norec: "(Resolved out, t') \<noteq> reconcile cfg True now o' t" by (metis reconcile_reply fst_conv)
    show ?thesis
    proof (cases "sr_status (heap t ! o')")
      case SucceededTx
      then show ?thesis using settled[OF Some] in_recs r unfolding settles_def by auto
    next
      case FailedTx
      then show ?thesis using failed[OF Some] r nojoin(1) by (metis fst_conv relay_reply.distinct(1))
    qed (use sub m Some r norec in \<open>auto split: if_splits\<close>)
  qed (use sub m nojoin'(1) in auto)
  show "reply = Waiting oid \<or> reply = Joins oid \<Longrightarrow> oid \<in> running t' \<and> sr_key (heap t' ! oid) = ?k"
  proof (cases "map_of (records t) ?k")
    case (Some o')
    assume r: "reply = Waiting oid \<or> reply = Joins oid"
    note in_recs = map_of_SomeD[OF Some]
    have "fst (reconcile cfg True now o' t) \<noteq> Joins oid" by (simp add: reconcile_def poll_def Let_def)
    then have norec: "(Joins oid, t') \<noteq> reconcile cfg True now o' t" by (metis fst_conv)
    show ?thesis
    proof (cases "sr_status (heap t ! o')")
      case SucceededTx
      then show ?thesis using settled[OF Some] r by auto
    next
      case FailedTx
      then show ?thesis using failed[OF Some] r nojoin(2) runs by (metis fst_conv relay_reply.distinct)
    next
      case InFlight
      then show ?thesis using sub m Some r joined[of oid] by (auto simp: running_def split: if_splits)
    next
      case PendingTx
      then show ?thesis using sub m Some r joined[of oid] norec rec[of o'] in_recs
        by (auto simp: running_def split: if_splits)
    qed
  qed (use sub m nojoin'(2) runs in auto)
qed

end
