(* ===== verification/Refund_Watchdog.thy ===== *)
theory Refund_Watchdog
  imports Relay_Progress
begin

text \<open>
  The refund watchdog (\<open>relayer/src/refund-watchdog.ts\<close>) over the relay tracker, with the helpers of
  the order map (\<open>relayer/src/order-poll-utils.ts\<close>).

  \<^item> \<open>activeOrders\<close> is an association list; a restart of the process empties it.
  \<^item> A scan walks the orders and waits for each submission, and nothing keeps two scans apart. So the
    model has one event per order that a scan reaches, and \<open>ws_waiting\<close> lists the scans that wait for
    an operation of the tracker; they continue with the reply of the event that ends it.
  \<^item> A time stamp is a number or a text; a text is given by what \<open>Date.parse\<close> reads from it. Building
    and signing the payment is the stager, whose answer is an event of the tracker. Log lines are
    left out.
\<close>

section \<open>Orders\<close>

datatype stamp = Stamp_number int | Stamp_text "int option"

record watch_order =
  wo_orderId :: "string option"
  wo_direction :: "string option"
  wo_status :: "string option"
  wo_stellarAddress :: "string option"
  wo_stellarTxHash :: "string option"
  wo_xlmReceivedAt :: "stamp option"
  wo_created :: "stamp option"
  wo_amount :: "string option"
  wo_networkMode :: "string option"
  wo_refundTxHash :: "string option"
  wo_refundedAt :: "int option"
  wo_watchdogFailedAt :: "int option"
  wo_watchdogFailureReason :: "string option"

record watchdog_config =
  wc_staleAfterMs :: int
  wc_networkMode :: string

definition DEFAULT_STALE_AFTER_MS :: int where
  "DEFAULT_STALE_AFTER_MS = 5 * 60000"

definition toMillis :: "stamp option \<Rightarrow> int option" where
  "toMillis value =
    (case value of None \<Rightarrow> None
     | Some (Stamp_number n) \<Rightarrow> Some (if n > 1000000000000 then n else n * 1000)
     | Some (Stamp_text parsed) \<Rightarrow> parsed)"

definition nonzero :: "int option \<Rightarrow> bool" where
  "nonzero v \<longleftrightarrow> (case v of None \<Rightarrow> False | Some n \<Rightarrow> n \<noteq> 0)"

definition isXlmToEthAwaitingEth :: "watch_order \<Rightarrow> bool" where
  "isXlmToEthAwaitingEth order =
    (if wo_direction order \<noteq> Some ''xlm_to_eth'' then False
     else if \<not> truthy (wo_stellarTxHash order) then False
     else if truthy (wo_refundTxHash order) \<or> nonzero (wo_refundedAt order) then False
     else if wo_status order = Some ''eth_tx_sent'' \<or> wo_status order = Some ''completed'' then False
     else if wo_status order = Some ''refunded'' then False
     else True)"

definition watchdogRefundAction :: "string \<Rightarrow> watch_order \<Rightarrow> string \<Rightarrow> relay_action" where
  "watchdogRefundAction orderId order networkMode =
    \<lparr>ra_orderId = (if truthy (wo_orderId order) then the (wo_orderId order) else orderId),
     ra_side = ''xlm_to_eth'', ra_action = ''refund'', ra_chain = ''stellar'',
     ra_network = Some (if truthy (wo_networkMode order) then the (wo_networkMode order) else networkMode),
     ra_destination = None, ra_amount = wo_amount order\<rparr>"

section \<open>Helpers of the order map\<close>

definition TERMINAL_STATUSES :: "string list" where
  "TERMINAL_STATUSES = [''completed'', ''cancelled'', ''failed'', ''refunded'', ''expired'',
     ''escrow_creation_failed'']"

definition MOCK_STATUSES :: "string list" where
  "MOCK_STATUSES = [''mock_escrow_created'', ''mock_htlc_created'']"

definition PRE_DEPOSIT_STATUSES :: "string list" where
  "PRE_DEPOSIT_STATUSES = [''pending_relayer_escrow'', ''pending_direct_escrow'',
     ''pending_dst_escrow_deployment'', ''awaiting_xlm_payment'']"

definition DEFAULT_ABANDON_MS :: int where
  "DEFAULT_ABANDON_MS = 30 * 60000"

definition parseOrderCreatedMs :: "stamp option \<Rightarrow> int option" where
  "parseOrderCreatedMs created =
    (case created of None \<Rightarrow> None | Some (Stamp_number n) \<Rightarrow> Some n | Some (Stamp_text parsed) \<Rightarrow> parsed)"

definition hasPendingRelayerEscrow :: "(string \<times> watch_order) list \<Rightarrow> bool" where
  "hasPendingRelayerEscrow activeOrders =
    list_ex (\<lambda>(_, order). wo_status order = Some ''pending_relayer_escrow'') activeOrders"

definition hasAwaitingXlmPayment :: "(string \<times> watch_order) list \<Rightarrow> bool" where
  "hasAwaitingXlmPayment activeOrders =
    list_ex (\<lambda>(_, order). wo_status order = Some ''awaiting_xlm_payment'') activeOrders"

definition needsChainMonitoring :: "(string \<times> watch_order) list \<Rightarrow> bool" where
  "needsChainMonitoring activeOrders =
    list_ex (\<lambda>(_, order). truthy (wo_status order) \<and> the (wo_status order) \<notin> set TERMINAL_STATUSES
      \<and> the (wo_status order) \<notin> set MOCK_STATUSES) activeOrders"

definition abandoned :: "int \<Rightarrow> int \<Rightarrow> watch_order \<Rightarrow> bool" where
  "abandoned now maxAgeMs order \<longleftrightarrow>
    truthy (wo_status order) \<and> the (wo_status order) \<in> set PRE_DEPOSIT_STATUSES
    \<and> (case parseOrderCreatedMs (wo_created order) of None \<Rightarrow> False | Some c \<Rightarrow> \<not> now - c < maxAgeMs)"

definition expireAbandonedOrders :: "int \<Rightarrow> int \<Rightarrow> (string \<times> watch_order) list \<Rightarrow> nat \<times> (string \<times> watch_order) list" where
  "expireAbandonedOrders now maxAgeMs activeOrders =
    (length (filter (abandoned now maxAgeMs \<circ> snd) activeOrders),
     map (\<lambda>(orderId, order). (orderId, if abandoned now maxAgeMs order then order\<lparr>wo_status := Some ''expired''\<rparr> else order))
       activeOrders)"

section \<open>The scan\<close>

record watchdog_system =
  ws_tracker :: tracker
  ws_orders :: "(string \<times> watch_order) list"
  ws_waiting :: "(string \<times> nat) list"

definition startedAt :: "watch_order \<Rightarrow> int option" where
  "startedAt order = (case toMillis (wo_xlmReceivedAt order) of Some t \<Rightarrow> Some t | None \<Rightarrow> toMillis (wo_created order))"

text \<open>The conditions under which \<open>scan\<close> goes on to the tracker.\<close>

definition watchdog_due :: "watchdog_config \<Rightarrow> int \<Rightarrow> watch_order \<Rightarrow> bool" where
  "watchdog_due cfg now order =
    (if \<not> isXlmToEthAwaitingEth order then False
     else if nonzero (wo_watchdogFailedAt order) \<and> now - the (wo_watchdogFailedAt order) < 10 * 60000 then False
     else case startedAt order of None \<Rightarrow> False
       | Some t \<Rightarrow> t \<noteq> 0 \<and> \<not> now - t < wc_staleAfterMs cfg \<and> truthy (wo_stellarAddress order))"

definition result_hash :: "js_value option \<Rightarrow> string option" where
  "result_hash result =
    (case result of Some (JObj fs) \<Rightarrow> (case map_of fs ''hash'' of Some (JStr h) \<Rightarrow> Some h | _ \<Rightarrow> None) | _ \<Rightarrow> None)"

definition watchdog_failed :: "int \<Rightarrow> string \<Rightarrow> watch_order \<Rightarrow> watch_order" where
  "watchdog_failed now message order =
    order\<lparr>wo_watchdogFailedAt := Some now, wo_watchdogFailureReason := Some message\<rparr>"

text \<open>What follows the submission: the bookkeeping of a refund, and the handler of errors.\<close>

definition watchdog_settle :: "relay_reply \<Rightarrow> int \<Rightarrow> watch_order \<Rightarrow> watch_order" where
  "watchdog_settle reply now order =
    (case reply of
       Resolved out \<Rightarrow>
         (let refundHash = (case ro_txHash out of Some h \<Rightarrow> Some h | None \<Rightarrow> result_hash (ro_result out))
          in if \<not> truthy refundHash
             then watchdog_failed now ''refund submission returned no transaction hash'' order
             else order\<lparr>wo_status := Some ''refunded'', wo_refundTxHash := refundHash,
                    wo_refundedAt := Some now, wo_watchdogFailedAt := None\<rparr>)
     | Thrown (RelayInFlightError key) \<Rightarrow>
         watchdog_failed now (''Relay submission '' @ key @ '' is already in flight'') order
     | _ \<Rightarrow> order)"

definition put_order :: "string \<Rightarrow> watch_order \<Rightarrow> watchdog_system \<Rightarrow> watchdog_system" where
  "put_order orderId order s = s\<lparr>ws_orders := AList.update orderId order (ws_orders s)\<rparr>"

definition scan_order :: "(string \<Rightarrow> string) \<Rightarrow> relay_config \<Rightarrow> watchdog_config \<Rightarrow> int \<Rightarrow> string \<Rightarrow> watchdog_system
    \<Rightarrow> watchdog_system" where
  "scan_order sha rcfg cfg now orderId s =
    (case map_of (ws_orders s) orderId of None \<Rightarrow> s
     | Some order \<Rightarrow>
        (let a = watchdogRefundAction orderId order (wc_networkMode cfg)
         in if \<not> watchdog_due cfg now order then s
            else if getBlockingRecord sha a (ws_tracker s) \<noteq> None then s
            else let (reply, t') = submit sha rcfg a now (ws_tracker s);
                     s' = s\<lparr>ws_tracker := t'\<rparr>
                 in case reply of
                      Waiting oid \<Rightarrow> s'\<lparr>ws_waiting := (orderId, oid) # ws_waiting s'\<rparr>
                    | Joins oid \<Rightarrow> s'\<lparr>ws_waiting := (orderId, oid) # ws_waiting s'\<rparr>
                    | _ \<Rightarrow> put_order orderId (watchdog_settle reply now order) s'))"

text \<open>The scans that wait for operation \<open>oid\<close> continue.\<close>

definition settle_waiting :: "nat \<Rightarrow> relay_reply \<Rightarrow> int \<Rightarrow> watchdog_system \<Rightarrow> watchdog_system" where
  "settle_waiting oid reply now s =
    s\<lparr>ws_orders := map (\<lambda>(orderId, order). (orderId, if (orderId, oid) \<in> set (ws_waiting s) then watchdog_settle reply now order
        else order)) (ws_orders s),
      ws_waiting := filter (\<lambda>w. snd w \<noteq> oid) (ws_waiting s)\<rparr>"

fun event_time :: "relay_event \<Rightarrow> int" where
  "event_time (Submit a now) = now"
| "event_time (Stager_answers oid ans now) = now"
| "event_time (Broadcast_answers oid ans now) = now"
| "event_time (Confirmer_answers oid ans now) = now"
| "event_time (Timer oid now) = now"
| "event_time _ = 0"

definition tracker_event :: "(string \<Rightarrow> string) \<Rightarrow> relay_config \<Rightarrow> relay_event \<Rightarrow> watchdog_system \<Rightarrow> watchdog_system" where
  "tracker_event sha rcfg ev s =
    (let (reply, t') = relay_step sha rcfg ev (ws_tracker s);
         s' = s\<lparr>ws_tracker := t'\<rparr>
     in if ev = Restart then s'\<lparr>ws_orders := [], ws_waiting := []\<rparr>
        else case target ev of
               Some oid \<Rightarrow> if ended reply then settle_waiting oid reply (event_time ev) s' else s'
             | None \<Rightarrow> s')"

text \<open>
  What happens around the watchdog: a handler stores an order, another writes its status, abandoned
  orders expire, a scan reaches an order, and the events of the tracker, which other handlers cause
  too. A stored order takes the place of an older one of the same id, whose scans then write to an
  object that is no longer in the map.
\<close>

datatype watch_event =
    New_order string watch_order
  | Order_status string string
  | Expire_abandoned int
  | Scan string int
  | Tracker_event relay_event

definition watch_step :: "(string \<Rightarrow> string) \<Rightarrow> relay_config \<Rightarrow> watchdog_config \<Rightarrow> watch_event \<Rightarrow> watchdog_system
    \<Rightarrow> watchdog_system" where
  "watch_step sha rcfg cfg ev s =
    (case ev of
       New_order orderId order \<Rightarrow> (put_order orderId order s)\<lparr>ws_waiting := filter (\<lambda>w. fst w \<noteq> orderId) (ws_waiting s)\<rparr>
     | Order_status orderId st \<Rightarrow> (case map_of (ws_orders s) orderId of None \<Rightarrow> s
         | Some order \<Rightarrow> put_order orderId (order\<lparr>wo_status := Some st\<rparr>) s)
     | Expire_abandoned now \<Rightarrow> s\<lparr>ws_orders := snd (expireAbandonedOrders now DEFAULT_ABANDON_MS (ws_orders s))\<rparr>
     | Scan orderId now \<Rightarrow> scan_order sha rcfg cfg now orderId s
     | Tracker_event e \<Rightarrow> tracker_event sha rcfg e s)"

definition watch_run :: "(string \<Rightarrow> string) \<Rightarrow> relay_config \<Rightarrow> watchdog_config \<Rightarrow> watch_event list \<Rightarrow> watchdog_system" where
  "watch_run sha rcfg cfg evs = fold (watch_step sha rcfg cfg) evs
    \<lparr>ws_tracker = fresh_tracker sha rcfg, ws_orders = [], ws_waiting = []\<rparr>"

section \<open>A refund is final\<close>

text \<open>Within one life of the process: nothing is forgotten, and orders come without a refund.\<close>

fun live_watch :: "watch_event \<Rightarrow> bool" where
  "live_watch (New_order orderId order) \<longleftrightarrow> wo_refundTxHash order = None"
| "live_watch (Tracker_event ev) \<longleftrightarrow> live_event ev"
| "live_watch _ \<longleftrightarrow> True"

definition refund_key :: "(string \<Rightarrow> string) \<Rightarrow> string \<Rightarrow> watch_order \<Rightarrow> string" where
  "refund_key sha orderId order = computeSubmissionKey sha (watchdogRefundAction orderId order [])"

lemma refund_key: "computeSubmissionKey sha (watchdogRefundAction orderId order mode) = refund_key sha orderId order"
  by (simp add: refund_key_def computeSubmissionKey_def watchdogRefundAction_def)

lemma refund_key_cong: "wo_orderId order' = wo_orderId order \<Longrightarrow> refund_key sha orderId order' = refund_key sha orderId order"
  by (simp add: refund_key_def computeSubmissionKey_def watchdogRefundAction_def)

text \<open>The record of a refund that the order \<open>order\<close> may report.\<close>

definition refund_recorded :: "(string \<Rightarrow> string) \<Rightarrow> tracker \<Rightarrow> string \<Rightarrow> watch_order \<Rightarrow> bool" where
  "refund_recorded sha t orderId order \<longleftrightarrow> (case wo_refundTxHash order of None \<Rightarrow> True
     | Some h \<Rightarrow> \<exists>oid. (refund_key sha orderId order, oid) \<in> set (records t)
         \<and> sr_status (heap t ! oid) = SucceededTx \<and> sr_txHash (heap t ! oid) = Some h)"

definition watch_inv :: "(string \<Rightarrow> string) \<Rightarrow> watchdog_system \<Rightarrow> bool" where
  "watch_inv sha s \<longleftrightarrow> relay_inv (ws_tracker s) \<and> backed (ws_tracker s)
   \<and> (\<forall>(orderId, oid) \<in> set (ws_waiting s). \<forall>order. map_of (ws_orders s) orderId = Some order \<longrightarrow>
        oid \<in> running (ws_tracker s) \<and> sr_key (heap (ws_tracker s) ! oid) = refund_key sha orderId order)
   \<and> (\<forall>orderId order. map_of (ws_orders s) orderId = Some order \<longrightarrow> refund_recorded sha (ws_tracker s) orderId order)"

lemma map_of_map_keyed: "map_of (map (\<lambda>(k, v). (k, f k v)) xs) k = map_option (f k) (map_of xs k)"
  by (induction xs) auto

lemma watch_invD:
  assumes "watch_inv sha s"
  shows "relay_inv (ws_tracker s)" "backed (ws_tracker s)"
    "(orderId, oid) \<in> set (ws_waiting s) \<Longrightarrow> map_of (ws_orders s) orderId = Some order \<Longrightarrow>
       oid \<in> running (ws_tracker s) \<and> sr_key (heap (ws_tracker s) ! oid) = refund_key sha orderId order"
    "map_of (ws_orders s) orderId = Some order \<Longrightarrow> refund_recorded sha (ws_tracker s) orderId order"
  using assms unfolding watch_inv_def by blast+

lemma refund_recorded_advances:
  "advances tgt reply t t' \<Longrightarrow> refund_recorded sha t orderId order \<Longrightarrow> refund_recorded sha t' orderId order"
proof (cases "wo_refundTxHash order")
  case (Some h)
  assume a: "advances tgt reply t t'" and "refund_recorded sha t orderId order"
  then obtain oid where oid: "(refund_key sha orderId order, oid) \<in> set (records t)"
      "sr_status (heap t ! oid) = SucceededTx" "sr_txHash (heap t ! oid) = Some h"
    using Some by (auto simp: refund_recorded_def)
  have "(refund_key sha orderId order, oid) \<in> set (records t') \<and> heap t' ! oid = heap t ! oid"
    using a oid(1,2) unfolding advances_def by blast
  then show ?thesis using Some oid by (auto simp: refund_recorded_def)
qed (simp add: refund_recorded_def)

lemma refund_recorded_cong:
  assumes "wo_orderId order' = wo_orderId order" "wo_refundTxHash order' = wo_refundTxHash order"
  shows "refund_recorded sha t orderId order' = refund_recorded sha t orderId order"
  using refund_key_cong[OF assms(1), of sha orderId] assms(2) by (simp add: refund_recorded_def split: option.split)

lemma refund_recorded_SomeI:
  assumes "wo_orderId order' = wo_orderId order" "wo_refundTxHash order' = Some h"
    and "(refund_key sha orderId order, oid) \<in> set (records t)" "sr_status (heap t ! oid) = SucceededTx"
      "sr_txHash (heap t ! oid) = Some h"
  shows "refund_recorded sha t orderId order'"
  using refund_key_cong[OF assms(1), of sha orderId] assms(2-5) by (auto simp: refund_recorded_def)

text \<open>Writes to orders that keep the id and the refund.\<close>

lemma watch_inv_orders:
  assumes i: "watch_inv sha s" and t: "ws_tracker s' = ws_tracker s" "set (ws_waiting s') \<subseteq> set (ws_waiting s)"
    and o': "\<And>orderId order'. map_of (ws_orders s') orderId = Some order' \<Longrightarrow>
      (\<exists>order. map_of (ws_orders s) orderId = Some order \<and> wo_orderId order' = wo_orderId order
        \<and> wo_refundTxHash order' = wo_refundTxHash order)
      \<or> wo_refundTxHash order' = None \<and> orderId \<notin> fst ` set (ws_waiting s')"
  shows "watch_inv sha s'"
proof -
  note d = watch_invD[OF i]
  show ?thesis
    unfolding watch_inv_def
  proof (intro conjI allI impI ballI, goal_cases)
    case (3 w)
    obtain orderId oid where w: "w = (orderId, oid)" by force
    have "oid \<in> running (ws_tracker s') \<and> sr_key (heap (ws_tracker s') ! oid) = refund_key sha orderId order'"
      if m: "map_of (ws_orders s') orderId = Some order'" for order'
    proof -
      have "orderId \<in> fst ` set (ws_waiting s')" using 3 w by force
      then obtain order where order: "map_of (ws_orders s) orderId = Some order" "wo_orderId order' = wo_orderId order"
        using o'[OF m] by blast
      have "(orderId, oid) \<in> set (ws_waiting s)" using 3 w t(2) by blast
      from d(3)[OF this order(1)] show ?thesis using t(1) refund_key_cong[OF order(2)] by simp
    qed
    then show ?case by (simp add: w)
  next
    case (4 orderId order')
    from o'[OF 4] show ?case
    proof
      assume "\<exists>order. map_of (ws_orders s) orderId = Some order \<and> wo_orderId order' = wo_orderId order
        \<and> wo_refundTxHash order' = wo_refundTxHash order"
      then show ?thesis using d(4) refund_recorded_cong t(1) by metis
    qed (simp add: refund_recorded_def)
  qed (use d t in auto)
qed

lemma settle_orderId [simp]: "wo_orderId (watchdog_settle reply now order) = wo_orderId order"
  by (simp add: watchdog_settle_def watchdog_failed_def Let_def split: relay_reply.splits relay_error.splits)

lemma settle_key [simp]: "refund_key sha orderId (watchdog_settle reply now order) = refund_key sha orderId order"
  by (rule refund_key_cong) simp

lemma settle_recorded:
  assumes "refund_recorded sha t orderId order" "backed t"
    and "\<And>out. reply = Resolved out \<Longrightarrow> settles (refund_key sha orderId order) out t"
  shows "refund_recorded sha t orderId (watchdog_settle reply now order)"
proof (cases reply)
  case (Resolved out)
  obtain oid where k: "(refund_key sha orderId order, oid) \<in> set (records t)" "sr_status (heap t ! oid) = SucceededTx"
      "sr_txHash (heap t ! oid) = ro_txHash out"
    using assms(3)[OF Resolved] by (auto simp: settles_def)
  moreover obtain h where "h \<noteq> []" "sr_txHash (heap t ! oid) = Some h"
    using backedD[OF assms(2) k(1)] k(2) by auto
  ultimately have "watchdog_settle reply now order = order\<lparr>wo_status := Some ''refunded'', wo_refundTxHash := Some h,
        wo_refundedAt := Some now, wo_watchdogFailedAt := None\<rparr>"
    using Resolved by (auto simp: watchdog_settle_def truthy_def Let_def split: option.splits)
  then show ?thesis using k(1,2) \<open>sr_txHash (heap t ! oid) = Some h\<close>
    by (intro refund_recorded_SomeI[where order = order and h = h]) simp_all
next
  case (Thrown e)
  have "refund_recorded sha t orderId (watchdog_failed now m order)" for m
    using assms(1) refund_recorded_cong[of "watchdog_failed now m order" order] by (simp add: watchdog_failed_def)
  then show ?thesis using assms(1) Thrown by (simp add: watchdog_settle_def split: relay_error.splits)
qed (use assms(1) in \<open>simp_all add: watchdog_settle_def\<close>)

lemma watch_inv_scan:
  assumes i: "watch_inv sha s"
  shows "watch_inv sha (scan_order sha rcfg cfg now orderId s)"
proof (cases "map_of (ws_orders s) orderId")
  case None
  then show ?thesis using i by (simp add: scan_order_def)
next
  case (Some order)
  let ?a = "watchdogRefundAction orderId order (wc_networkMode cfg)"
  obtain reply t' where sub: "submit sha rcfg ?a now (ws_tracker s) = (reply, t')" by force
  note d = watch_invD[OF i]
  have inv: "relay_inv t'" using submit_inv[OF d(1), of sha rcfg ?a now] sub by simp
  have adv: "advances None reply (ws_tracker s) t'" using submit_advances[OF d(1), of sha rcfg ?a now] sub by simp
  have t': "backed t'" using adv d(2) by (simp add: advances_def)
  have waits: "(k, oid) \<in> set (ws_waiting s) \<Longrightarrow> map_of (ws_orders s) k = Some order' \<Longrightarrow>
      oid \<in> running t' \<and> sr_key (heap t' ! oid) = refund_key sha k order'" for k oid order'
    using d(3)[of k oid order'] adv by (auto simp: advances_def)
  have recs: "map_of (ws_orders s) k = Some order' \<Longrightarrow> refund_recorded sha t' k order'" for k order'
    using d(4) refund_recorded_advances[OF adv] by blast
  have kept: "watch_inv sha (s\<lparr>ws_tracker := t'\<rparr>)"
    unfolding watch_inv_def using inv t' waits recs by auto
  have wait: "watch_inv sha (s\<lparr>ws_tracker := t', ws_waiting := (orderId, oid) # ws_waiting s\<rparr>)"
    if "reply = Waiting oid \<or> reply = Joins oid" for oid
    using submit_reply(2)[OF d(1) sub that] kept Some refund_key unfolding watch_inv_def by auto
  have settled: "watch_inv sha (put_order orderId (watchdog_settle reply now order) (s\<lparr>ws_tracker := t'\<rparr>))"
  proof -
    have "refund_recorded sha t' orderId (watchdog_settle reply now order)"
      using recs[OF Some] t' submit_reply(1)[OF d(1) sub] by (intro settle_recorded) (simp_all add: refund_key)
    then show ?thesis using inv t' waits recs Some
      unfolding watch_inv_def put_order_def by (auto simp: update_conv' split: if_splits)
  qed
  show ?thesis
    using i kept wait settled Some sub by (auto simp: scan_order_def Let_def split: relay_reply.splits)
qed

lemma watch_inv_settle:
  assumes i: "relay_inv t" and ev: "live_event ev" "target ev = Some oid" and w: "watch_inv sha s" "ws_tracker s = t"
    and r: "relay_step sha rcfg ev t = (reply, t')"
  shows "watch_inv sha (if ended reply then settle_waiting oid reply now (s\<lparr>ws_tracker := t'\<rparr>) else s\<lparr>ws_tracker := t'\<rparr>)"
proof -
  note d = watch_invD[OF w(1), unfolded w(2)]
  have inv: "relay_inv t'"
    using step_inv[OF i, of ev sha rcfg] ev(1) r by (cases ev) simp_all
  have adv: "advances (Some oid) reply t t'" using step_advances[OF i ev(1), of sha rcfg] ev(2) r by simp
  have t': "backed t'" using adv d(2) by (simp add: advances_def)
  have recs: "map_of (ws_orders s) k = Some order \<Longrightarrow> refund_recorded sha t' k order" for k order
    using d(4) refund_recorded_advances[OF adv] by blast
  have waits: "(k, oid') \<in> set (ws_waiting s) \<Longrightarrow> map_of (ws_orders s) k = Some order \<Longrightarrow> \<not> ended reply \<or> oid' \<noteq> oid \<Longrightarrow>
      oid' \<in> running t' \<and> sr_key (heap t' ! oid') = refund_key sha k order" for k oid' order
    using d(3)[of k oid' order] adv by (auto simp: advances_def)
  show ?thesis
  proof (cases "ended reply")
    case False
    then show ?thesis unfolding watch_inv_def using inv t' waits recs by auto
  next
    case True
    have settled: "refund_recorded sha t' k (watchdog_settle reply now order)"
      if "(k, oid) \<in> set (ws_waiting s)" "map_of (ws_orders s) k = Some order" for k order
    proof (rule settle_recorded[OF recs[OF that(2)] t'])
      show "settles (refund_key sha k order) out t'" if "reply = Resolved out" for out
        using step_reply[OF i ev(2), of sha rcfg out] d(3)[OF \<open>(k, oid) \<in> set (ws_waiting s)\<close>
            \<open>map_of (ws_orders s) k = Some order\<close>] r that by simp
    qed
    show ?thesis
      using True inv t' waits recs settled
      unfolding watch_inv_def settle_waiting_def by (auto simp: map_of_map_keyed)
  qed
qed

lemma watch_inv_step:
  assumes i: "watch_inv sha s" and ev: "live_watch ev"
  shows "watch_inv sha (watch_step sha rcfg cfg ev s)"
proof (cases ev)
  case (New_order orderId order)
  show ?thesis unfolding New_order
    by (rule watch_inv_orders[OF i]) (use ev New_order in \<open>auto simp: watch_step_def put_order_def update_conv' split: if_splits\<close>)
next
  case (Order_status orderId st)
  show ?thesis
  proof (cases "map_of (ws_orders s) orderId")
    case (Some order)
    show ?thesis unfolding Order_status
      by (rule watch_inv_orders[OF i]) (use Some in \<open>auto simp: watch_step_def put_order_def update_conv' split: if_splits\<close>)
  qed (use i Order_status in \<open>simp add: watch_step_def\<close>)
next
  case (Expire_abandoned now)
  show ?thesis unfolding Expire_abandoned
    by (rule watch_inv_orders[OF i]) (auto simp: watch_step_def expireAbandonedOrders_def map_of_map_keyed split: if_splits)
next
  case (Scan orderId now)
  then show ?thesis using watch_inv_scan[OF i] by (simp add: watch_step_def)
next
  case (Tracker_event e)
  note d = watch_invD[OF i]
  obtain reply t' where r: "relay_step sha rcfg e (ws_tracker s) = (reply, t')" by force
  have live: "live_event e" "e \<noteq> Restart" using ev Tracker_event by auto
  show ?thesis
  proof (cases "target e")
    case (Some oid)
    then show ?thesis
      using watch_inv_settle[OF d(1) live(1) Some i refl r, of "event_time e"] r live(2) Tracker_event
      by (simp add: watch_step_def tracker_event_def Let_def)
  next
    case None
    have "relay_inv t'" using step_inv[OF d(1), of e sha rcfg] live r by (cases e) simp_all
    moreover have adv: "advances None reply (ws_tracker s) t'"
      using step_advances[OF d(1) live(1), of sha rcfg] None r by simp
    ultimately have "watch_inv sha (s\<lparr>ws_tracker := t'\<rparr>)"
      unfolding watch_inv_def using d(2-4) refund_recorded_advances[OF adv] by (auto simp: advances_def)
    then show ?thesis using None r live(2) Tracker_event by (simp add: watch_step_def tracker_event_def Let_def)
  qed
qed

lemma watch_inv_run:
  assumes "list_all live_watch evs"
  shows "watch_inv sha (watch_run sha rcfg cfg evs)"
  using assms
proof (induction evs rule: rev_induct)
  case Nil
  have "records (fresh_tracker sha rcfg) = []" by (simp add: fresh_tracker_def boot_def restore_def)
  then show ?case using fresh_tracker_inv by (simp add: watch_run_def watch_inv_def backed_def)
next
  case (snoc ev evs)
  then show ?case by (simp add: watch_run_def watch_inv_step)
qed

lemma filter_unique_key: "distinct (map fst xs) \<Longrightarrow> (k, v) \<in> set xs \<Longrightarrow> filter (\<lambda>x. fst x = k) xs = [(k, v)]"
proof (induction xs)
  case (Cons x xs)
  show ?case
  proof (cases "x = (k, v)")
    case True
    then have "filter (\<lambda>x. fst x = k) xs = []" using Cons.prems(1) by (auto simp: filter_empty_conv)
    then show ?thesis using True by simp
  next
    case False
    then have "(k, v) \<in> set xs" "fst x \<noteq> k" using Cons.prems by (auto simp: image_iff)
    then show ?thesis using Cons by simp
  qed
qed simp

text \<open>C22: A refund that the watchdog reports happened, once. However scans, handlers, timeouts and
  confirmations interleave within one life of the process, an order marked with a refund hash has
  exactly one refund transaction broadcast, the one with that hash; its record is settled, and every record of another
  action on the same order is a failed one, so no release of the order is live or settled. A release that was broadcast, not found on chain
  and given up before the refund is such a failed record: its transaction is out as well (\<open>refund_after_lost_release\<close>).\<close>

theorem watchdog_refund_is_final:
  assumes "list_all live_watch evs"
    and "map_of (ws_orders (watch_run sha rcfg cfg evs)) orderId = Some order" "wo_refundTxHash order = Some h"
  defines "t \<equiv> ws_tracker (watch_run sha rcfg cfg evs)"
    and "k \<equiv> computeSubmissionKey sha (watchdogRefundAction orderId order (wc_networkMode cfg))"
  shows "filter (\<lambda>w. fst w = k) (wire t) = [(k, h)] \<and>
    (\<exists>r. getRecord k t = Some r \<and> sr_status r = SucceededTx \<and>
      (\<forall>k' r'. getRecord k' t = Some r' \<and> sr_orderKey r' = sr_orderKey r \<and> k' \<noteq> k \<longrightarrow> sr_status r' = FailedTx))"
proof -
  note d = watch_invD[OF watch_inv_run[OF assms(1), of sha rcfg cfg], folded t_def]
  note c = relay_coreD[OF d(1)[unfolded relay_inv_def]]
  obtain oid where oid: "(k, oid) \<in> set (records t)" "sr_status (heap t ! oid) = SucceededTx"
      "sr_txHash (heap t ! oid) = Some h"
    using d(4)[OF assms(2)] assms(3) by (auto simp: refund_recorded_def k_def refund_key)
  have "(k, h) \<in> set (wire t)" using backedD[OF d(2) oid(1)] oid(2,3) by auto
  from filter_unique_key[OF c(6) this] have "filter (\<lambda>w. fst w = k) (wire t) = [(k, h)]" .
  moreover have "getRecord k t = Some (heap t ! oid)" by (rule relay_inv_getRecord[OF d(1) oid(1)])
  moreover have "sr_status r' = FailedTx"
    if "getRecord k' t = Some r'" "sr_orderKey r' = sr_orderKey (heap t ! oid)" "k' \<noteq> k" for k' r'
  proof -
    from getRecordD[OF that(1)] obtain oid' where "(k', oid') \<in> set (records t)" "r' = heap t ! oid'" by blast
    then show ?thesis using c(5)[of k' oid' k oid] oid \<open>k' \<noteq> k\<close> that(2) by auto
  qed
  ultimately show ?thesis using oid(2) by blast
qed

section \<open>Samples\<close>

definition stuck_order :: watch_order where
  "stuck_order = \<lparr>wo_orderId = None, wo_direction = Some ''xlm_to_eth'', wo_status = Some ''awaiting_eth_release'',
     wo_stellarAddress = Some ''G1'', wo_stellarTxHash = Some ''x1'', wo_xlmReceivedAt = Some (Stamp_number 2000000000000),
     wo_created = None, wo_amount = None, wo_networkMode = None, wo_refundTxHash = None, wo_refundedAt = None,
     wo_watchdogFailedAt = None, wo_watchdogFailureReason = None\<rparr>"

definition sample_watchdog :: watchdog_config where
  "sample_watchdog = \<lparr>wc_staleAfterMs = DEFAULT_STALE_AFTER_MS, wc_networkMode = ''testnet''\<rparr>"

text \<open>The first scan starts the refund, the second joins it.\<close>

definition sample_watch :: "watch_event list" where
  "sample_watch = [New_order ''o1'' stuck_order, Scan ''o1'' 2000000300000,
     Tracker_event (Stager_answers 0 (Inr \<lparr>st_txHash = ''r1'', st_network = None\<rparr>) 2000000300001),
     Scan ''o1'' 2000000360000, Tracker_event (Broadcast_answers 0 (Inr JNull) 2000000360001)]"

lemma watchdog_refund_is_final_witness:
  "map snd (wire (ws_tracker (watch_run (\<lambda>s. s) sample_cfg sample_watchdog sample_watch))) = [''r1'']
   \<and> (\<exists>r. getRecord (computeSubmissionKey (\<lambda>s. s) (watchdogRefundAction ''o1'' stuck_order ''testnet''))
        (ws_tracker (watch_run (\<lambda>s. s) sample_cfg sample_watchdog sample_watch)) = Some r \<and> sr_status r = SucceededTx)"
proof -
  let ?s = "watch_run (\<lambda>s. s) sample_cfg sample_watchdog sample_watch"
  have live: "list_all live_watch sample_watch" by (simp add: sample_watch_def stuck_order_def)
  have "map_option wo_refundTxHash (map_of (ws_orders ?s) ''o1'') = Some (Some ''r1'')" by code_simp
  then obtain order where order: "map_of (ws_orders ?s) ''o1'' = Some order" "wo_refundTxHash order = Some ''r1''" by auto
  have "map_option wo_orderId (map_of (ws_orders ?s) ''o1'') = Some None" by code_simp
  then have "wo_orderId order = wo_orderId stuck_order" using order(1) by (simp add: stuck_order_def)
  then have key: "refund_key (\<lambda>s. s) ''o1'' order = refund_key (\<lambda>s. s) ''o1'' stuck_order" by (rule refund_key_cong)
  have "map snd (wire (ws_tracker ?s)) = [''r1'']" by code_simp
  then show ?thesis using watchdog_refund_is_final[OF live order] unfolding refund_key key by blast
qed

text \<open>A release is broadcast, its answer is lost, the node does not find it within the two attempts, and the watchdog refunds
  the order: two payouts of one order are on the wire, and the first may still be mined.\<close>

definition lost_release :: "watch_event list" where
  "lost_release =
    (let claim = \<lparr>ra_orderId = ''o1'', ra_side = ''xlm_to_eth'', ra_action = ''claim'', ra_chain = ''ethereum'', ra_network = Some ''testnet'',
           ra_destination = Some ''0xa'', ra_amount = Some ''1''\<rparr>;
         unseen = Inr \<lparr>rc_state = Conf_not_found, rc_error = None, rc_result = None\<rparr>
     in [New_order ''o1'' stuck_order, Tracker_event (Submit claim 2000000000001),
         Tracker_event (Stager_answers 0 (Inr \<lparr>st_txHash = ''c1'', st_network = None\<rparr>) 2000000000002),
         Tracker_event (Broadcast_answers 0 (Inl ''timed out'') 2000000030000),
         Tracker_event (Confirmer_answers 0 unseen 2000000030001), Tracker_event (Timer 0 2000000033000),
         Tracker_event (Confirmer_answers 0 unseen 2000000033001),
         Scan ''o1'' 2000000400000, Tracker_event (Stager_answers 1 (Inr \<lparr>st_txHash = ''r1'', st_network = None\<rparr>) 2000000400001),
         Tracker_event (Broadcast_answers 1 (Inr JNull) 2000000400002)])"

lemma refund_after_lost_release:
  "list_all live_watch lost_release
   \<and> (let s = watch_run (\<lambda>s. s) sample_cfg sample_watchdog lost_release
    in map snd (wire (ws_tracker s)) = [''c1'', ''r1''] \<and> map_option wo_refundTxHash (map_of (ws_orders s) ''o1'') = Some (Some ''r1''))"
  by code_simp
end
