(* ===== verification/Relay_Port.thy ===== *)
theory Relay_Port
  imports Relay_Tracker
begin

text \<open>
  The chain adapters of the relay tracker (\<open>relayer/src/relay-submission-port.ts\<close>): staging of a
  transaction under a hash that is known before it is sent, the broadcast loop that re-sends one
  signed payload while the node is rate limited, and the confirmation lookups.

  \<^item> What a node or a signing library answers is an argument: a list of answers for the attempts of a
    broadcast, \<open>Inl\<close> an exception, \<open>Inr\<close> a value. \<open>keccak\<close> is the digest of the library \<open>ethers\<close>.
  \<^item> An exception carries what the code reads of it: status codes and messages.
\<close>

section \<open>Staging\<close>

record rpc_error =
  er_code :: "string option"
  er_inner_code :: "string option"
  er_message :: "string option"
  er_inner_message :: "string option"
  er_status :: "int option"

text \<open>A code is the text of the number or string that the exception carries.\<close>

fun text_occurs :: "string \<Rightarrow> string \<Rightarrow> bool" where
  "text_occurs pat [] \<longleftrightarrow> pat = []"
| "text_occurs pat (c # cs) \<longleftrightarrow> take (length pat) (c # cs) = pat \<or> text_occurs pat cs"

definition or_empty :: "string option \<Rightarrow> string" where
  "or_empty v = (case v of None \<Rightarrow> [] | Some s \<Rightarrow> s)"

definition isRateLimitError :: "rpc_error \<Rightarrow> bool" where
  "isRateLimitError err =
    (if er_code err = Some ''429'' \<or> er_inner_code err = Some ''429'' then True
     else let text = toLowerCase (or_empty (er_message err) @ '' '' @ or_empty (er_inner_message err))
          in text_occurs ''rate limit'' text \<or> text_occurs ''compute units'' text
             \<or> text_occurs ''exceeded'' text \<or> text_occurs ''429'' text)"

definition stageStellarTransaction :: "string \<Rightarrow> string \<Rightarrow> string + staged_submission" where
  "stageStellarTransaction hash network =
    (if hash = [] then Inl ''stellar transaction hash could not be computed locally''
     else Inr \<lparr>st_txHash = hash, st_network = Some network\<rparr>)"

definition stageEthereumTransaction :: "(string \<Rightarrow> string) \<Rightarrow> string \<Rightarrow> string \<Rightarrow> string + staged_submission" where
  "stageEthereumTransaction keccak rawTx network =
    (if keccak rawTx = [] then Inl ''ethereum transaction hash could not be computed locally''
     else Inr \<lparr>st_txHash = keccak rawTx, st_network = Some network\<rparr>)"

text \<open>
  The loop of \<open>broadcast\<close>: the payloads sent, and how it ends. \<open>answers i\<close> is the node's answer to
  attempt \<open>i\<close>; an answer \<open>Inr None\<close> is a falsy response.
\<close>

datatype 'a broadcast_end = Sent 'a | No_response | Send_failed rpc_error

fun broadcast_loop :: "nat \<Rightarrow> string \<Rightarrow> (nat \<Rightarrow> rpc_error + 'a option) \<Rightarrow> nat \<Rightarrow> nat \<Rightarrow> string list \<times> 'a broadcast_end" where
  "broadcast_loop maxRetries rawTx answers 0 attempt = ([], No_response)"
| "broadcast_loop maxRetries rawTx answers (Suc left) attempt =
    (case answers attempt of
       Inr (Some sent) \<Rightarrow> ([rawTx], Sent sent)
     | Inr None \<Rightarrow> ([rawTx], No_response)
     | Inl err \<Rightarrow>
         if attempt \<ge> maxRetries \<or> \<not> isRateLimitError err then ([rawTx], Send_failed err)
         else let (payloads, res) = broadcast_loop maxRetries rawTx answers left (attempt + 1)
              in (rawTx # payloads, res))"

text \<open>Attempts \<open>0\<close> to \<open>maxRetries\<close>.\<close>

definition ethereum_broadcast :: "nat \<Rightarrow> string \<Rightarrow> (nat \<Rightarrow> rpc_error + 'a option) \<Rightarrow> string list \<times> 'a broadcast_end" where
  "ethereum_broadcast maxRetries rawTx answers = broadcast_loop maxRetries rawTx answers (maxRetries + 1) 0"

definition backoff_ms :: "nat \<Rightarrow> nat \<Rightarrow> nat" where
  "backoff_ms baseDelay attempt = baseDelay * 2 ^ attempt"

section \<open>Confirmation\<close>

definition isNotFound :: "rpc_error \<Rightarrow> bool" where
  "isNotFound err \<longleftrightarrow> er_status err = Some 404"

definition messageOf :: "rpc_error \<Rightarrow> string" where
  "messageOf err = or_empty (er_message err)"

definition pending_because :: "string \<Rightarrow> relay_confirmation" where
  "pending_because msg = \<lparr>rc_state = Conf_pending, rc_error = Some msg, rc_result = None\<rparr>"

text \<open>A ledger transaction: its success flag, the JSON text of its result codes, and the value.\<close>

record stellar_tx =
  sx_successful :: "bool option"
  sx_result_codes :: string
  sx_value :: js_value

definition confirmStellar :: "rpc_error + unit \<Rightarrow> rpc_error + stellar_tx option \<Rightarrow> relay_confirmation" where
  "confirmStellar server lookup =
    (case server of Inl err \<Rightarrow> pending_because (''horizon unavailable: '' @ messageOf err)
     | Inr _ \<Rightarrow> (case lookup of
          Inl err \<Rightarrow> if isNotFound err then \<lparr>rc_state = Conf_not_found, rc_error = None, rc_result = None\<rparr>
            else pending_because (messageOf err)
        | Inr None \<Rightarrow> \<lparr>rc_state = Conf_succeeded, rc_error = None, rc_result = None\<rparr>
        | Inr (Some tx) \<Rightarrow>
            if sx_successful tx = Some False
            then \<lparr>rc_state = Conf_failed, rc_error = Some (''stellar tx failed on ledger (result codes: '' @ sx_result_codes tx @ '')''),
                   rc_result = Some (sx_value tx)\<rparr>
            else \<lparr>rc_state = Conf_succeeded, rc_error = None, rc_result = Some (sx_value tx)\<rparr>))"

record evm_receipt =
  er_receipt_status :: "int option"
  er_receipt_value :: js_value

definition confirmEthereum :: "rpc_error + unit \<Rightarrow> rpc_error + evm_receipt option \<Rightarrow> rpc_error + bool \<Rightarrow> relay_confirmation" where
  "confirmEthereum provider receipt known =
    (case provider of Inl err \<Rightarrow> pending_because (''eth provider unavailable: '' @ messageOf err)
     | Inr _ \<Rightarrow> (case receipt of
          Inl err \<Rightarrow> pending_because (messageOf err)
        | Inr (Some r) \<Rightarrow>
            if er_receipt_status r = Some 1 \<or> er_receipt_status r = None
            then \<lparr>rc_state = Conf_succeeded, rc_error = None, rc_result = Some (er_receipt_value r)\<rparr>
            else \<lparr>rc_state = Conf_failed,
                   rc_error = Some (''evm tx reverted (status '' @ show_int (the (er_receipt_status r)) @ '')''),
                   rc_result = Some (er_receipt_value r)\<rparr>
        | Inr None \<Rightarrow> (case known of
             Inr True \<Rightarrow> \<lparr>rc_state = Conf_pending, rc_error = None, rc_result = None\<rparr>
           | Inr False \<Rightarrow> \<lparr>rc_state = Conf_not_found, rc_error = None, rc_result = None\<rparr>
           | Inl err \<Rightarrow> if isNotFound err then \<lparr>rc_state = Conf_not_found, rc_error = None, rc_result = None\<rparr>
               else pending_because (messageOf err))))"

text \<open>What the node of either chain answers, in the order it is asked.\<close>

datatype chain_answers =
    Stellar_answers "rpc_error + unit" "rpc_error + stellar_tx option"
  | Ethereum_answers "rpc_error + unit" "rpc_error + evm_receipt option" "rpc_error + bool"

definition confirm_ref :: "string \<Rightarrow> chain_answers \<Rightarrow> relay_confirmation" where
  "confirm_ref chain ans =
    (case ans of
       Stellar_answers server lookup \<Rightarrow>
         if chain = ''stellar'' then confirmStellar server lookup
         else pending_because (''no confirmer configured for chain '' @ chain)
     | Ethereum_answers provider receipt known \<Rightarrow>
         if chain = ''ethereum'' then confirmEthereum provider receipt known
         else pending_because (''no confirmer configured for chain '' @ chain))"

section \<open>One payload\<close>

lemma broadcast_loop_payloads:
  "set (fst (broadcast_loop m rawTx answers n a)) \<subseteq> {rawTx} \<and> length (fst (broadcast_loop m rawTx answers n a)) \<le> n"
  by (induction n arbitrary: a) (auto simp: split_beta Let_def split: sum.splits option.splits)

lemma broadcast_loop_sent:
  "snd (broadcast_loop m rawTx answers n a) = Sent x \<Longrightarrow>
    \<exists>i. a \<le> i \<and> answers i = Inr (Some x) \<and> (\<forall>j. a \<le> j \<and> j < i \<longrightarrow> (\<exists>err. answers j = Inl err \<and> isRateLimitError err))"
proof (induction n arbitrary: a)
  case (Suc n)
  show ?case
  proof (cases "answers a")
    case (Inl err)
    then have "isRateLimitError err" "snd (broadcast_loop m rawTx answers n (a + 1)) = Sent x"
      using Suc.prems by (auto simp: split_beta Let_def split: if_splits)
    from Suc.IH[OF this(2)] obtain i where i: "a + 1 \<le> i" "answers i = Inr (Some x)"
      "\<forall>j. a + 1 \<le> j \<and> j < i \<longrightarrow> (\<exists>err. answers j = Inl err \<and> isRateLimitError err)" by blast
    have "\<exists>err. answers j = Inl err \<and> isRateLimitError err" if "a \<le> j" "j < i" for j
      using that i(3) Inl \<open>isRateLimitError err\<close> by (cases "j = a") auto
    then show ?thesis using i(1,2) by (intro exI[of _ i]) auto
  next
    case (Inr r)
    then show ?thesis using Suc.prems by (intro exI[of _ a]) (auto split: option.splits)
  qed
qed simp

text \<open>However the node answers, every attempt of a broadcast sends the payload the transaction was
  staged with, at most one more time than the retries allow, and it goes on only after a rate limit.\<close>

lemma broadcast_resends_payload:
  "set (fst (ethereum_broadcast m rawTx answers)) \<subseteq> {rawTx}"
  "length (fst (ethereum_broadcast m rawTx answers)) \<le> m + 1"
  using broadcast_loop_payloads[of m rawTx answers "m + 1" 0] by (simp_all add: ethereum_broadcast_def)

text \<open>A submission is given up as dead only on evidence: a settled transaction of that hash that
  failed, or a node that answered that it has none.\<close>

lemma confirmEthereum_evidence:
  "rc_state (confirmEthereum p r k) = Conf_failed \<Longrightarrow> \<exists>x s. r = Inr (Some x) \<and> er_receipt_status x = Some s \<and> s \<noteq> 1"
  "rc_state (confirmEthereum p r k) = Conf_not_found \<Longrightarrow> r = Inr None \<and> (k = Inr False \<or> (\<exists>e. k = Inl e \<and> isNotFound e))"
  by (auto simp: confirmEthereum_def pending_because_def split: sum.splits option.splits bool.splits if_splits)

lemma confirmStellar_evidence:
  "rc_state (confirmStellar s l) = Conf_failed \<Longrightarrow> \<exists>x. l = Inr (Some x) \<and> sx_successful x = Some False"
  "rc_state (confirmStellar s l) = Conf_not_found \<Longrightarrow> \<exists>e. l = Inl e \<and> isNotFound e"
  by (auto simp: confirmStellar_def pending_because_def split: sum.splits option.splits if_splits)

end
