(* ===== verification/Js_Number.thy ===== *)
theory Js_Number
  imports Sdk_Amounts Complex_Main
begin

text \<open>
  Numbers of JavaScript as far as the Stellar amounts need them: \<open>Number(text)\<close> with rounding to
  binary64, and \<open>toFixed(7)\<close>.

  \<^item> A finite number is its exact value, a rational. \<open>fl\<close> rounds a positive rational to the nearest
    binary64 value, ties to even, with subnormal values and overflow to \<open>Infinity\<close>. The sign of zero,
    which \<open>toFixed\<close> does not show, is dropped.
  \<^item> \<open>toFixed\<close> of a number from \<open>10\<^sup>2\<^sup>1\<close> on is its shortest decimal text, the argument \<open>wide\<close>.
  \<^item> A decimal text is rounded from its exact value, as the engines do it.
\<close>

section \<open>Rounding to binary64\<close>

datatype js_number = Fin rat | Pos_inf | Neg_inf | Not_a_number

fun bits :: "nat \<Rightarrow> nat" where
  "bits n = (if n = 0 then 0 else Suc (bits (n div 2)))"

declare bits.simps [simp del]

definition pow2 :: "int \<Rightarrow> rat" where
  "pow2 e = (if 0 \<le> e then 2 ^ nat e else 1 / 2 ^ nat (- e))"

definition half_even :: "rat \<Rightarrow> int" where
  "half_even q =
    (let f = \<lfloor>q\<rfloor>; r = q - of_int f
     in if r < 1 / 2 then f else if r > 1 / 2 then f + 1 else if even f then f else f + 1)"

text \<open>The exponent of the last bit: the significand has 53 bits, unless the value is subnormal.\<close>

definition last_bit :: "nat \<Rightarrow> nat \<Rightarrow> int" where
  "last_bit n d =
    (let e0 = int (bits n) - int (bits d) - 53;
         e = (if of_nat n / of_nat d < pow2 (e0 + 53) then e0 else e0 + 1)
     in max e (- 1074))"

text \<open>The value of \<open>n / d\<close> for positive \<open>n\<close> and \<open>d\<close>.\<close>

definition fl :: "nat \<Rightarrow> nat \<Rightarrow> js_number" where
  "fl n d =
    (if n = 0 then Fin 0
     else let e = last_bit n d;
              x = of_int (half_even (of_nat n / of_nat d / pow2 e)) * pow2 e
          in if x < 2 ^ 1024 then Fin x else Pos_inf)"

section \<open>Texts\<close>

definition is_space :: "char \<Rightarrow> bool" where
  "is_space c \<longleftrightarrow> (let n = (of_char c :: nat) in 9 \<le> n \<and> n \<le> 13 \<or> n = 32 \<or> n = 160)"

definition trim :: "string \<Rightarrow> string" where
  "trim s = rev (dropWhile is_space (rev (dropWhile is_space s)))"

text \<open>\<open>n \<cdot> 10\<^sup>e\<close>\<close>

definition decimal_value :: "nat \<Rightarrow> int \<Rightarrow> js_number" where
  "decimal_value n e = (if 0 \<le> e then fl (n * 10 ^ nat e) 1 else fl n (10 ^ nat (- e)))"

text \<open>An optional exponent; the whole rest has to be read.\<close>

definition exponent_text :: "string \<Rightarrow> int option" where
  "exponent_text s =
    (case s of [] \<Rightarrow> Some 0
     | c # rest \<Rightarrow>
        if c = CHR ''e'' \<or> c = CHR ''E''
        then (let neg = (rest \<noteq> [] \<and> hd rest = CHR ''-'');
                  ds = (if rest \<noteq> [] \<and> (hd rest = CHR ''-'' \<or> hd rest = CHR ''+'') then tl rest else rest)
              in if is_decimal ds then Some (if neg then - int (parse_digits ds) else int (parse_digits ds)) else None)
        else None)"

definition unsigned_decimal :: "string \<Rightarrow> js_number" where
  "unsigned_decimal s =
    (let ds = takeWhile is_digit s; r = dropWhile is_digit s;
         fs = (if r \<noteq> [] \<and> hd r = CHR ''.'' then takeWhile is_digit (tl r) else []);
         r' = (if r \<noteq> [] \<and> hd r = CHR ''.'' then dropWhile is_digit (tl r) else r)
     in if ds = [] \<and> fs = [] then Not_a_number
        else case exponent_text r' of None \<Rightarrow> Not_a_number
          | Some e \<Rightarrow> decimal_value (parse_digits (ds @ fs)) (e - int (length fs)))"

fun negated :: "js_number \<Rightarrow> js_number" where
  "negated (Fin x) = Fin (- x)"
| "negated Pos_inf = Neg_inf"
| "negated Neg_inf = Pos_inf"
| "negated Not_a_number = Not_a_number"

definition nibble_val :: "char \<Rightarrow> nat" where
  "nibble_val c = (if is_digit c then digit_val c else of_char (lower_char c) - 87)"

definition radix_value :: "nat \<Rightarrow> string \<Rightarrow> js_number" where
  "radix_value b ds =
    (if ds \<noteq> [] \<and> list_all (\<lambda>c. is_hex c \<and> nibble_val c < b) ds
     then fl (foldl (\<lambda>n c. b * n + nibble_val c) 0 ds) 1 else Not_a_number)"

text \<open>\<open>Number(text)\<close>\<close>

definition to_number :: "string \<Rightarrow> js_number" where
  "to_number text =
    (let s = trim text;
         plain = (\<lambda>u. if u = ''Infinity'' then Pos_inf else unsigned_decimal u)
     in if s = [] then Fin 0
        else if take 2 s = ''0x'' \<or> take 2 s = ''0X'' then radix_value 16 (drop 2 s)
        else if take 2 s = ''0o'' \<or> take 2 s = ''0O'' then radix_value 8 (drop 2 s)
        else if take 2 s = ''0b'' \<or> take 2 s = ''0B'' then radix_value 2 (drop 2 s)
        else if hd s = CHR ''-'' then negated (plain (tl s))
        else if hd s = CHR ''+'' then plain (tl s)
        else plain s)"

definition is_finite_number :: "js_number \<Rightarrow> bool" where
  "is_finite_number x \<longleftrightarrow> (case x of Fin _ \<Rightarrow> True | _ \<Rightarrow> False)"

text \<open>Seven decimals of a number of units of \<open>10\<^sup>-\<^sup>7\<close>.\<close>

definition fixed7 :: "nat \<Rightarrow> string" where
  "fixed7 n = show_nat (n div 10000000) @ ''.'' @ padStart (show_nat (n mod 10000000)) 7 CHR ''0''"

text \<open>\<open>x.toFixed(7)\<close>; of two nearest texts the larger.\<close>

definition toFixed7 :: "(rat \<Rightarrow> string) \<Rightarrow> js_number \<Rightarrow> string" where
  "toFixed7 wide x =
    (case x of Not_a_number \<Rightarrow> ''NaN'' | Pos_inf \<Rightarrow> ''Infinity'' | Neg_inf \<Rightarrow> ''-Infinity''
     | Fin q \<Rightarrow> (let a = \<bar>q\<bar>; sign = (if q < 0 then ''-'' else [])
                 in if 10 ^ 21 \<le> a then sign @ wide a
                    else sign @ fixed7 (nat \<lfloor>a * 10000000 + 1 / 2\<rfloor>)))"

section \<open>The rounding error\<close>

lemma bits_bounds: "n \<noteq> 0 \<Longrightarrow> 2 ^ (bits n - 1) \<le> n \<and> n < 2 ^ bits n"
proof (induction n rule: bits.induct)
  case (1 n)
  show ?case
  proof (cases "n = 1")
    case False
    then have "n div 2 \<noteq> 0" using 1(2) by auto
    from 1(1)[OF 1(2) this] have ih: "2 ^ (bits (n div 2) - 1) \<le> n div 2" "n div 2 < 2 ^ bits (n div 2)" by auto
    moreover have "bits (n div 2) \<noteq> 0" using \<open>n div 2 \<noteq> 0\<close> by (subst bits.simps) simp
    then obtain k where "bits (n div 2) = Suc k" by (cases "bits (n div 2)") auto
    ultimately show ?thesis using 1(2) by (subst (1 2) bits.simps) auto
  qed (simp add: bits.simps)
qed

lemma half_even_error: "\<bar>of_int (half_even q) - q\<bar> \<le> 1 / 2"
  unfolding half_even_def Let_def
  using of_int_floor_le[of q] floor_correct[of q] by (auto simp: abs_if field_simps) linarith+

lemma half_even_unique:
  assumes "\<bar>q - of_int k\<bar> < 1 / 2"
  shows "half_even q = k"
proof -
  have "\<bar>of_int (half_even q) - of_int k :: rat\<bar> < 1"
    using half_even_error[of q] assms by linarith
  then have "\<bar>of_int (half_even q - k) :: rat\<bar> < 1" by simp
  then show ?thesis by linarith
qed

lemma half_even_nonneg: "0 \<le> q \<Longrightarrow> 0 \<le> half_even q"
  by (simp add: half_even_def Let_def)

lemma pow2_pos [simp]: "0 < pow2 e"
  by (simp add: pow2_def)

lemma pow2_Suc: "pow2 (e + 1) = 2 * pow2 e"
proof (cases "0 \<le> e")
  case True then show ?thesis by (simp add: pow2_def nat_add_distrib)
next
  case False
  then have "nat (- e) = Suc (nat (- (e + 1)))" by simp
  then show ?thesis using False by (auto simp: pow2_def)
qed

lemma pow2_nat [simp]: "pow2 (int k) = 2 ^ k"
  by (simp add: pow2_def)

lemma pow2_add_nat: "pow2 (e + int k) = pow2 e * 2 ^ k"
proof (induction k)
  case (Suc k)
  have "pow2 (e + int (Suc k)) = pow2 (e + int k + 1)" by (simp add: algebra_simps)
  then show ?case by (simp add: pow2_Suc Suc)
qed simp

lemma pow2_diff: "pow2 (int a - int b) = 2 ^ a / 2 ^ b"
  using pow2_add_nat[of "int a - int b" b] by (simp add: field_simps)

lemma last_bit_bound:
  assumes "0 < n" "0 < d" "- 1074 < last_bit n d"
  shows "2 ^ 52 * pow2 (last_bit n d) \<le> of_nat n / (of_nat d :: rat)"
proof -
  let ?q = "of_nat n / of_nat d :: rat"
  define e0 where "e0 = int (bits n) - int (bits d) - 53"
  have bn: "2 ^ (bits n - 1) \<le> n" "d < 2 ^ bits d" "bits n \<noteq> 0"
    using bits_bounds[of n] bits_bounds[of d] assms(1,2) by (auto simp: bits.simps[of n])
  have "pow2 (int (bits n - 1) - int (bits d)) \<le> ?q"
  proof -
    have "(2 :: rat) ^ (bits n - 1) \<le> of_nat n" using bn(1) by (metis of_nat_le_iff of_nat_numeral of_nat_power)
    moreover have "(of_nat d :: rat) \<le> 2 ^ bits d" using bn(2) by (metis less_imp_le of_nat_le_iff of_nat_numeral of_nat_power)
    ultimately show ?thesis using assms(2) unfolding pow2_diff by (intro frac_le) auto
  qed
  moreover have "int (bits n - 1) - int (bits d) = e0 + int 52" using bn(3) by (simp add: e0_def)
  ultimately have low: "2 ^ 52 * pow2 e0 \<le> ?q" by (simp only: pow2_add_nat mult.commute)
  show ?thesis
  proof (cases "?q < pow2 (e0 + 53)")
    case True
    then have "last_bit n d = max e0 (- 1074)" by (simp add: last_bit_def e0_def Let_def)
    then show ?thesis using low assms(3) by (simp add: max_def split: if_splits)
  next
    case False
    then have "last_bit n d = max (e0 + 1) (- 1074)" by (simp add: last_bit_def e0_def Let_def)
    moreover have "pow2 (e0 + 53) = 2 ^ 52 * pow2 (e0 + 1)"
      using pow2_add_nat[of "e0 + 1" 52] by (simp add: algebra_simps)
    ultimately show ?thesis using False assms(3) by (simp add: max_def split: if_splits)
  qed
qed

lemma fl_nonneg: "fl n d = Fin x \<Longrightarrow> 0 \<le> x"
  by (auto simp: fl_def Let_def half_even_nonneg less_imp_le[OF pow2_pos] split: if_splits)

lemma fl_error:
  assumes "0 < n" "0 < d" "of_nat n / of_nat d \<le> (2 :: rat) ^ 1000"
  shows "\<exists>x. fl n d = Fin x \<and> \<bar>x - of_nat n / of_nat d\<bar> \<le> max (of_nat n / of_nat d / 2 ^ 53) (1 / 2 ^ 1075)"
proof -
  let ?q = "of_nat n / of_nat d :: rat" and ?e = "last_bit n d"
  let ?x = "of_int (half_even (?q / pow2 ?e)) * pow2 ?e"
  have "?x - ?q = (of_int (half_even (?q / pow2 ?e)) - ?q / pow2 ?e) * pow2 ?e"
    by (simp add: field_simps less_imp_neq[OF pow2_pos, symmetric])
  then have err: "\<bar>?x - ?q\<bar> \<le> pow2 ?e / 2"
    using mult_right_mono[OF half_even_error[of "?q / pow2 ?e"] less_imp_le[OF pow2_pos[of ?e]]]
    by (simp add: abs_mult abs_of_pos[OF pow2_pos])
  have e: "- 1074 \<le> ?e" by (simp add: last_bit_def Let_def)
  have le: "pow2 ?e / 2 \<le> max (?q / 2 ^ 53) (1 / 2 ^ 1075)"
  proof (cases "?e = - 1074")
    case True
    then have "pow2 ?e / 2 = 1 / 2 ^ 1075" by (simp add: pow2_def)
    then show ?thesis by simp
  next
    case False
    then have "2 ^ 52 * pow2 ?e \<le> ?q" using last_bit_bound[OF assms(1,2)] e by simp
    then have "pow2 ?e / 2 \<le> ?q / 2 ^ 53" by simp
    then show ?thesis by simp
  qed
  have "?x \<le> ?q + max (?q / 2 ^ 53) (1 / 2 ^ 1075)" using err le by linarith
  also have "\<dots> < 2 ^ 1024"
  proof -
    have "0 \<le> ?q" by simp
    have "r / 2 ^ 53 \<le> r + 1" if "0 \<le> r" for r :: rat using that by (simp add: divide_le_eq)
    from this[OF \<open>0 \<le> ?q\<close>] have "?q / 2 ^ 53 \<le> ?q + 1" .
    moreover have "1 / 2 ^ 1075 \<le> ?q + 1"
    proof (rule order_trans)
      show "1 / 2 ^ 1075 \<le> (1 :: rat)" by simp
      show "1 \<le> ?q + 1" using \<open>0 \<le> ?q\<close> by simp
    qed
    ultimately have "max (?q / 2 ^ 53) (1 / 2 ^ 1075) \<le> ?q + 1" by simp
    then have "?q + max (?q / 2 ^ 53) (1 / 2 ^ 1075) \<le> 2 * 2 ^ 1000 + 1" using assms(3) by linarith
    also have "\<dots> < (2 :: rat) ^ 1024" by simp
    finally show ?thesis .
  qed
  finally have "fl n d = Fin ?x" using assms(1) by (simp add: fl_def Let_def)
  then show ?thesis using err le by auto
qed

section \<open>Amounts survive\<close>

lemma fixed7_round:
  assumes "n < 2 ^ 52"
  shows "toFixed7 wide (decimal_value n (- 7)) = fixed7 n"
proof (cases "n = 0")
  case True
  have "\<lfloor>1 / 2 :: rat\<rfloor> = 0" by (simp only: floor_eq_iff) simp
  then show ?thesis using True by (simp add: decimal_value_def fl_def toFixed7_def Let_def)
next
  case False
  define q :: rat where "q = of_nat n / 10 ^ 7"
  have n52: "of_nat n < (2 :: rat) ^ 52" using assms by (metis of_nat_less_iff of_nat_numeral of_nat_power)
  have "q \<le> of_nat n" by (simp add: q_def)
  then have "q < 2 ^ 52" using n52 by (rule le_less_trans)
  then have "q \<le> 2 ^ 1000" by simp
  then obtain x where x: "fl n (10 ^ 7) = Fin x" "\<bar>x - q\<bar> \<le> max (q / 2 ^ 53) (1 / 2 ^ 1075)"
    using fl_error[of n "10 ^ 7"] False by (auto simp: q_def)
  have "max (q / 2 ^ 53) (1 / 2 ^ 1075) * 10 ^ 7 < 1 / 2"
    using n52 by (simp add: q_def max_def field_simps)
  moreover have "\<bar>x * 10 ^ 7 - of_nat n\<bar> = \<bar>x - q\<bar> * 10 ^ 7"
  proof -
    have "x * 10 ^ 7 - of_nat n = (x - q) * 10 ^ 7" by (simp add: q_def algebra_simps)
    then show ?thesis by (simp only: abs_mult) simp
  qed
  ultimately have close: "\<bar>x * 10 ^ 7 - of_nat n\<bar> < 1 / 2"
    using mult_right_mono[OF x(2) zero_le_power[of 10 7]] by simp
  moreover have "1 \<le> (of_nat n :: rat)" using False by simp
  ultimately have "0 < x * 10 ^ 7" by linarith
  then have pos: "0 < x" by simp
  have "x * 10 ^ 7 < 2 ^ 52 + 1" using close n52 by linarith
  then have small: "x < 10 ^ 21" using pos by simp
  have "\<lfloor>x * 10000000 + 1 / 2\<rfloor> = int n"
  proof (rule floor_unique)
    have "x * 10000000 - of_nat n < 1 / 2" "of_nat n - x * 10000000 < 1 / 2"
      using close[unfolded abs_less_iff] by simp_all
    then show "of_int (int n) \<le> x * 10000000 + 1 / 2" "x * 10000000 + 1 / 2 < of_int (int n) + 1"
      by simp_all
  qed
  then show ?thesis using x(1) pos small by (simp add: decimal_value_def toFixed7_def Let_def)
qed

lemma is_digit_not_space: "is_digit c \<Longrightarrow> \<not> is_space c"
  by (simp add: is_digit_def is_space_def Let_def)

lemma digits_padStart: "list_all is_digit s \<Longrightarrow> list_all is_digit (padStart s k CHR ''0'')"
  by (auto simp: padStart_def list_all_iff is_digit_def)

lemma trim_id:
  assumes "s \<noteq> []" "\<not> is_space (hd s)" "\<not> is_space (last s)"
  shows "trim s = s"
proof -
  have "dropWhile is_space s = s" using assms(1,2) by (cases s) auto
  moreover have "dropWhile is_space (rev s) = rev s"
    using assms(1,3) by (cases "rev s") (auto simp: hd_rev[symmetric] rev_swap)
  ultimately show ?thesis by (simp add: trim_def)
qed

lemma unsigned_decimal_point:
  assumes w: "list_all is_digit w" "w \<noteq> []" and f: "list_all is_digit f"
  shows "unsigned_decimal (w @ CHR ''.'' # f) = decimal_value (parse_digits (w @ f)) (- int (length f))"
proof -
  have "\<not> is_digit CHR ''.''" by (simp add: is_digit_def)
  then have s: "takeWhile is_digit (w @ CHR ''.'' # f) = w" "dropWhile is_digit (w @ CHR ''.'' # f) = CHR ''.'' # f"
    using takeWhile_digits[OF w(1), of "CHR ''.'' # f"] by simp_all
  have t: "takeWhile is_digit f = f" "dropWhile is_digit f = []"
    using takeWhile_digits[OF f, of "[]"] by simp_all
  show ?thesis
    unfolding unsigned_decimal_def Let_def s list.sel t using w(2) by (simp add: exponent_text_def)
qed

lemma to_number_fixed7: "to_number (fixed7 n) = decimal_value n (- 7)"
proof -
  let ?w = "show_nat (n div 10000000)" and ?f = "padStart (show_nat (n mod 10000000)) 7 CHR ''0''"
  have w: "list_all is_digit ?w" "?w \<noteq> []" by (rule show_nat_digits)+
  have f: "list_all is_digit ?f" by (rule digits_padStart) (rule show_nat_digits)
  have "length (show_nat (n mod 10000000)) \<le> 7" by (rule show_nat_length) simp_all
  then have len: "length ?f = 7" by (simp add: padStart_def)
  obtain c cs where c: "?w = c # cs" "is_digit c" using w by (cases ?w) auto
  obtain x fs where x: "?f = fs @ [x]" "is_digit x" using f len by (cases ?f rule: rev_cases) auto
  let ?s = "?w @ ''.'' @ ?f"
  have "trim ?s = ?s"
  proof (rule trim_id)
    show "\<not> is_space (hd ?s)" using c is_digit_not_space by simp
    show "\<not> is_space (last ?s)" using x is_digit_not_space by simp
  qed simp
  moreover have "unsigned_decimal ?s = decimal_value (parse_digits (?w @ ?f)) (- 7)"
    using unsigned_decimal_point[OF w f] len by simp
  moreover have "parse_digits (?w @ ?f) = n" using len by (simp add: parse_digits_append padStart_def)
  moreover have "take 2 ?s \<notin> {''0x'', ''0X'', ''0o'', ''0O'', ''0b'', ''0B''}"
    using w(1) unfolding c(1) by (cases cs) (auto simp: is_digit_def)
  moreover have "hd ?s \<noteq> CHR ''-''" "hd ?s \<noteq> CHR ''+''" "?s \<noteq> ''Infinity''"
    using c by (auto simp: is_digit_def)
  ultimately show ?thesis by (simp add: to_number_def fixed7_def Let_def)
qed

text \<open>An amount of less than \<open>2\<^sup>5\<^sup>2\<close> stroops comes through \<open>Number\<close> and \<open>toFixed\<close> unchanged.\<close>

lemma number_fixed7: "n < 2 ^ 52 \<Longrightarrow> toFixed7 wide (to_number (fixed7 n)) = fixed7 n"
  by (simp add: to_number_fixed7 fixed7_round)

lemma fixed7_inj: "fixed7 m = fixed7 n \<Longrightarrow> m = n"
proof -
  assume eq: "fixed7 m = fixed7 n"
  let ?f = "\<lambda>n. padStart (show_nat (n mod 10000000)) 7 CHR ''0''"
  have tw: "takeWhile is_digit (fixed7 k) = show_nat (k div 10000000) \<and> dropWhile is_digit (fixed7 k) = CHR ''.'' # ?f k" for k
    using takeWhile_digits[OF show_nat_digits(1), of "CHR ''.'' # ?f k"] by (simp add: fixed7_def is_digit_def)
  have pf: "parse_digits (?f k) = k mod 10000000" for k by (simp add: padStart_def parse_digits_append)
  have "m div 10000000 = n div 10000000" using tw[of m] tw[of n] eq by (metis parse_show_nat)
  moreover have "m mod 10000000 = n mod 10000000" using tw[of m] tw[of n] eq pf by (metis list.inject)
  ultimately show ?thesis by (metis div_mult_mod_eq)
qed

end
