(* ===== verification/Js_Arith.thy ===== *)
theory Js_Arith
  imports Js_Number
begin

text \<open>
  Arithmetic on JavaScript numbers as the relayer's amounts use it: the operators, \<open>Math.min\<close>,
  \<open>Math.max\<close>, \<open>Math.round\<close> and \<open>parseFloat\<close>. Each operation rounds its exact result once (\<open>of_rat\<close>);
  the sign of zero is dropped, so a division by zero has the sign of its dividend.
\<close>

definition js_of_rat :: "rat \<Rightarrow> js_number" where
  "js_of_rat q =
    (let (a, b) = quotient_of q
     in if 0 \<le> a then fl (nat a) (nat b) else negated (fl (nat (- a)) (nat b)))"

fun js_sub :: "js_number \<Rightarrow> js_number \<Rightarrow> js_number" where
  "js_sub (Fin a) (Fin b) = js_of_rat (a - b)"
| "js_sub Not_a_number y = Not_a_number"
| "js_sub x Not_a_number = Not_a_number"
| "js_sub Pos_inf Pos_inf = Not_a_number"
| "js_sub Neg_inf Neg_inf = Not_a_number"
| "js_sub Pos_inf y = Pos_inf"
| "js_sub Neg_inf y = Neg_inf"
| "js_sub (Fin a) y = negated y"

definition signed_inf :: "bool \<Rightarrow> js_number" where
  "signed_inf positive = (if positive then Pos_inf else Neg_inf)"

fun js_positive :: "js_number \<Rightarrow> bool" where
  "js_positive (Fin q) \<longleftrightarrow> 0 < q"
| "js_positive Pos_inf \<longleftrightarrow> True"
| "js_positive _ \<longleftrightarrow> False"

fun js_mult :: "js_number \<Rightarrow> js_number \<Rightarrow> js_number" where
  "js_mult (Fin a) (Fin b) = js_of_rat (a * b)"
| "js_mult Not_a_number y = Not_a_number"
| "js_mult x Not_a_number = Not_a_number"
| "js_mult (Fin a) y = (if a = 0 then Not_a_number else signed_inf ((0 < a) = js_positive y))"
| "js_mult x (Fin b) = (if b = 0 then Not_a_number else signed_inf (js_positive x = (0 < b)))"
| "js_mult x y = signed_inf (js_positive x = js_positive y)"

fun js_div :: "js_number \<Rightarrow> js_number \<Rightarrow> js_number" where
  "js_div (Fin a) (Fin b) =
    (if b = 0 then (if a = 0 then Not_a_number else signed_inf (0 < a)) else js_of_rat (a / b))"
| "js_div Not_a_number y = Not_a_number"
| "js_div x Not_a_number = Not_a_number"
| "js_div (Fin a) y = Fin 0"
| "js_div x (Fin b) = signed_inf (js_positive x = (0 \<le> b))"
| "js_div x y = Not_a_number"

text \<open>\<open>x < y\<close>; a comparison with \<open>NaN\<close> is false.\<close>

fun js_less :: "js_number \<Rightarrow> js_number \<Rightarrow> bool" where
  "js_less (Fin a) (Fin b) \<longleftrightarrow> a < b"
| "js_less Neg_inf y \<longleftrightarrow> y \<noteq> Neg_inf \<and> y \<noteq> Not_a_number"
| "js_less x Pos_inf \<longleftrightarrow> x \<noteq> Pos_inf \<and> x \<noteq> Not_a_number"
| "js_less _ _ \<longleftrightarrow> False"

definition js_min :: "js_number \<Rightarrow> js_number \<Rightarrow> js_number" where
  "js_min x y = (if x = Not_a_number \<or> y = Not_a_number then Not_a_number else if js_less y x then y else x)"

definition js_max :: "js_number \<Rightarrow> js_number \<Rightarrow> js_number" where
  "js_max x y = (if x = Not_a_number \<or> y = Not_a_number then Not_a_number else if js_less x y then y else x)"

text \<open>\<open>Math.round\<close>; a result beyond 53 bits is an integer already.\<close>

fun js_round :: "js_number \<Rightarrow> js_number" where
  "js_round (Fin q) = Fin (of_int \<lfloor>q + 1 / 2\<rfloor>)"
| "js_round x = x"

text \<open>\<open>parseFloat\<close>: the longest prefix that is a decimal literal.\<close>

definition float_exponent :: "string \<Rightarrow> int" where
  "float_exponent s =
    (case s of [] \<Rightarrow> 0
     | c # rest \<Rightarrow>
        if c = CHR ''e'' \<or> c = CHR ''E''
        then (let neg = (rest \<noteq> [] \<and> hd rest = CHR ''-'');
                  ds = takeWhile is_digit (if rest \<noteq> [] \<and> (hd rest = CHR ''-'' \<or> hd rest = CHR ''+'') then tl rest else rest)
              in if ds = [] then 0 else if neg then - int (parse_digits ds) else int (parse_digits ds))
        else 0)"

definition parse_unsigned :: "string \<Rightarrow> js_number" where
  "parse_unsigned s =
    (let ds = takeWhile is_digit s; r = dropWhile is_digit s;
         fs = (if r \<noteq> [] \<and> hd r = CHR ''.'' then takeWhile is_digit (tl r) else []);
         r' = (if r \<noteq> [] \<and> hd r = CHR ''.'' then dropWhile is_digit (tl r) else r)
     in if take 8 s = ''Infinity'' then Pos_inf
        else if ds = [] \<and> fs = [] then Not_a_number
        else decimal_value (parse_digits (ds @ fs)) (float_exponent r' - int (length fs)))"

definition parseFloat :: "string \<Rightarrow> js_number" where
  "parseFloat text =
    (let s = dropWhile is_space text
     in if s \<noteq> [] \<and> hd s = CHR ''-'' then negated (parse_unsigned (tl s))
        else if s \<noteq> [] \<and> hd s = CHR ''+'' then parse_unsigned (tl s)
        else parse_unsigned s)"

section \<open>Rounding errors\<close>

lemma js_of_rat_pos:
  assumes "0 < q"
  obtains n d where "q = of_nat n / of_nat d" "0 < n" "0 < d" "js_of_rat q = fl n d"
proof -
  obtain a b where ab: "quotient_of q = (a, b)" by force
  then have q: "q = of_int a / of_int b" and b: "0 < b" using quotient_of_div quotient_of_denom_pos by blast+
  then have a: "0 < a" using assms by (simp add: zero_less_divide_iff)
  show thesis
    by (rule that[of "nat a" "nat b"]) (use q a b ab in \<open>simp_all add: js_of_rat_def\<close>)
qed

lemma fl_range: "fl n d = Pos_inf \<or> (\<exists>y. fl n d = Fin y \<and> 0 \<le> y)"
proof -
  have "fl n d \<noteq> Neg_inf" "fl n d \<noteq> Not_a_number" by (simp_all add: fl_def Let_def)
  then show ?thesis using fl_nonneg[of n d] by (cases "fl n d") auto
qed

lemma js_of_rat_zero [simp]: "js_of_rat 0 = Fin 0"
  by (simp add: js_of_rat_def fl_def)

lemma js_of_rat_nonpos:
  assumes "q \<le> 0"
  shows "js_of_rat q = Neg_inf \<or> (\<exists>y. js_of_rat q = Fin y \<and> y \<le> 0)"
proof -
  obtain a b where ab: "quotient_of q = (a, b)" by force
  have "q = of_int a / of_int b" "0 < b" using ab quotient_of_div quotient_of_denom_pos by blast+
  with assms have "a \<le> 0" by (simp add: divide_le_0_iff)
  then have "js_of_rat q = negated (fl (nat (- a)) (nat b))"
    using ab by (cases "a = 0") (simp_all add: js_of_rat_def fl_def)
  then show ?thesis using fl_range[of "nat (- a)" "nat b"] by (metis negated.simps(1,2) neg_le_0_iff_le)
qed

lemma js_of_rat_error:
  assumes "0 < q" "q \<le> 2 ^ 1000"
  obtains x where "js_of_rat q = Fin x" "\<bar>x - q\<bar> \<le> max (q / 2 ^ 53) (1 / 2 ^ 1075)" "0 \<le> x"
proof -
  from js_of_rat_pos[OF assms(1)] obtain n d where nd: "q = of_nat n / of_nat d" "0 < n" "0 < d" "js_of_rat q = fl n d" by blast
  from fl_error[OF nd(2,3)] obtain x where "fl n d = Fin x" "\<bar>x - q\<bar> \<le> max (q / 2 ^ 53) (1 / 2 ^ 1075)"
    using assms(2) nd(1) by auto
  then show thesis using that nd(4) fl_nonneg by simp
qed

text \<open>A coarser form that linear arithmetic can use.\<close>

lemma js_of_rat_close:
  assumes "0 < q" "1 / 2 ^ 900 \<le> q" "q \<le> 2 ^ 1000"
  obtains x where "js_of_rat q = Fin x" "\<bar>x - q\<bar> \<le> q / 2 ^ 53" "0 \<le> x"
proof -
  from js_of_rat_error[OF assms(1,3)] obtain x where x: "js_of_rat q = Fin x"
    "\<bar>x - q\<bar> \<le> max (q / 2 ^ 53) (1 / 2 ^ 1075)" "0 \<le> x" by blast
  have "1 / 2 ^ 1075 \<le> (1 / 2 ^ 900) / (2 :: rat) ^ 53" by simp
  also have "\<dots> \<le> q / 2 ^ 53" using assms(2) by (intro divide_right_mono) simp_all
  finally show thesis using that x by simp
qed

lemma parseFloat_fixed7: "parseFloat (fixed7 n) = decimal_value n (- 7)"
proof -
  let ?w = "show_nat (n div 10000000)" and ?f = "padStart (show_nat (n mod 10000000)) 7 CHR ''0''"
  have w: "list_all is_digit ?w" "?w \<noteq> []" by (rule show_nat_digits)+
  have f: "list_all is_digit ?f" by (rule digits_padStart) (rule show_nat_digits)
  have "length (show_nat (n mod 10000000)) \<le> 7" by (rule show_nat_length) simp_all
  then have len: "length ?f = 7" by (simp add: padStart_def)
  have nd: "\<not> is_digit CHR ''.''" by (simp add: is_digit_def)
  obtain c cs where c: "?w = c # cs" "is_digit c" using w by (cases ?w) auto
  have s: "takeWhile is_digit (?w @ CHR ''.'' # ?f) = ?w" "dropWhile is_digit (?w @ CHR ''.'' # ?f) = CHR ''.'' # ?f"
    using takeWhile_digits[OF w(1), of "CHR ''.'' # ?f"] nd by simp_all
  have t: "takeWhile is_digit ?f = ?f" "dropWhile is_digit ?f = []"
    using takeWhile_digits[OF f, of "[]"] by simp_all
  have "parse_unsigned (?w @ CHR ''.'' # ?f) = decimal_value (parse_digits (?w @ ?f)) (- 7)"
    unfolding parse_unsigned_def Let_def s list.sel t
    using w(2) c len by (auto simp: float_exponent_def is_digit_def)
  moreover have "parse_digits (?w @ ?f) = n" using len by (simp add: parse_digits_append padStart_def)
  moreover have "c \<noteq> CHR ''-''" "c \<noteq> CHR ''+''" using c(2) by (auto simp: is_digit_def)
  moreover have "dropWhile is_space (fixed7 n) = fixed7 n" using c is_digit_not_space by (simp add: fixed7_def)
  ultimately show ?thesis using c by (simp add: parseFloat_def Let_def fixed7_def)
qed

end
