(* ===== verification/Payout_Amounts.thy ===== *)
theory Payout_Amounts
  imports Js_Arith
begin

text \<open>
  What the relayer pays: the ETH amount of a release, the XLM amount of a refund and the memos of the
  refunds (\<open>relayer/src/index.ts\<close>, \<open>relayer/src/xlm-refund.ts\<close>), and the safety deposit.

  \<^item> \<open>formatEther\<close> and \<open>parseEther\<close> of the library \<open>ethers\<close> are arguments, \<open>parseEther\<close> applied to the
    text of a number; each may refuse. \<open>wide\<close> is the text of numbers from \<open>10\<^sup>2\<^sup>1\<close> on.
  \<^item> The fields of a stored order that the computation reads are those of \<open>order_details\<close>, \<open>None\<close>
    when absent.
\<close>

section \<open>Releasing ETH\<close>

text \<open>The exchange rate of an order may come from a request, as a number or as a text; arithmetic reads the text as a number. A text is
  falsy only when it is empty, so \<open>''0''\<close> is a rate. Rates of other types are left out.\<close>

datatype rate_value = Rate_number js_number | Rate_text string

fun rate_truthy :: "rate_value \<Rightarrow> bool" where
  "rate_truthy (Rate_number r) \<longleftrightarrow> r \<noteq> Fin 0 \<and> r \<noteq> Not_a_number"
| "rate_truthy (Rate_text t) \<longleftrightarrow> t \<noteq> []"

fun rate_number :: "rate_value \<Rightarrow> js_number" where
  "rate_number (Rate_number r) = r"
| "rate_number (Rate_text t) = to_number t"

record order_details =
  od_ethAddress :: "string option"
  od_stellarTimelock :: "int option"
  od_ethTimelock :: "int option"
  od_exchangeRate :: "rate_value option"
  od_targetAmount :: "string option"
  od_stellar_amount :: "string option"
  od_stellarAmount :: "string option"
  od_ethTxHash :: "string option"

definition given :: "string option \<Rightarrow> bool" where
  "given v \<longleftrightarrow> v \<noteq> None \<and> v \<noteq> Some []"

definition ETH_TO_XLM_RATE :: js_number where
  "ETH_TO_XLM_RATE = Fin 10000"

definition exchange_rate :: "order_details \<Rightarrow> js_number" where
  "exchange_rate d =
    (case od_exchangeRate d of None \<Rightarrow> ETH_TO_XLM_RATE
     | Some v \<Rightarrow> if rate_truthy v then rate_number v else ETH_TO_XLM_RATE)"

text \<open>\<open>Math.round(x * 1e6) / 1e6\<close>\<close>

definition micro_round :: "js_number \<Rightarrow> js_number" where
  "micro_round x = js_div (js_round (js_mult x (Fin 1000000))) (Fin 1000000)"

text \<open>The branch of an order with a target amount, up to the call of \<open>parseEther\<close>.\<close>

definition target_number :: "(string \<Rightarrow> string + string) \<Rightarrow> js_number \<Rightarrow> string \<Rightarrow> string \<Rightarrow> string + js_number" where
  "target_number formatEther rate orderAmount targetAmount =
    (let n = parseFloat (filter (\<lambda>c. is_digit c \<or> c = CHR ''.'') targetAmount);
         bounded = (\<lambda>n. micro_round (js_min (js_max n (decimal_value 1 (- 6))) (Fin 1)))
     in if n = Not_a_number \<or> \<not> js_positive n
        then (case formatEther orderAmount of Inl e \<Rightarrow> Inl e | Inr t \<Rightarrow> Inr (bounded (js_div (parseFloat t) rate)))
        else Inr (bounded n))"

definition xlm_amount :: "order_details \<Rightarrow> string \<Rightarrow> js_number" where
  "xlm_amount d orderAmount =
    (if given (od_stellar_amount d) then parseFloat (the (od_stellar_amount d))
     else if given (od_stellarAmount d) then js_div (parseFloat (the (od_stellarAmount d))) (Fin 10000000)
     else let n = parseFloat orderAmount
          in if js_positive n \<and> js_less n (Fin 1000000) then n else Fin 1600)"

definition release_wei :: "(string \<Rightarrow> string + string) \<Rightarrow> (js_number \<Rightarrow> string + int) \<Rightarrow> order_details \<Rightarrow> string \<Rightarrow> string + int" where
  "release_wei formatEther parseEther d orderAmount =
    (if given (od_targetAmount d)
     then (case target_number formatEther (exchange_rate d) orderAmount (the (od_targetAmount d)) of
        Inl e \<Rightarrow> Inl e | Inr x \<Rightarrow> parseEther x)
     else (case parseEther (micro_round (js_min (js_div (xlm_amount d orderAmount) (exchange_rate d)) (Fin 10))) of
        Inl e \<Rightarrow> Inr 1000000000000000 | Inr wei \<Rightarrow> Inr wei))"

text \<open>\<open>BigInt(tx.gasLimit) * BigInt(tx.gasPrice)\<close>\<close>

definition GAS_COST :: int where
  "GAS_COST = 21000 * 20000000000"

section \<open>Refunding XLM\<close>

record payment_op =
  po_type :: string
  po_to :: string
  po_asset_type :: string
  po_from :: string
  po_amount :: string

definition is_payment_to :: "string \<Rightarrow> payment_op \<Rightarrow> bool" where
  "is_payment_to relayer op \<longleftrightarrow> po_type op = ''payment'' \<and> po_to op = relayer \<and> po_asset_type op = ''native''"

text \<open>The amount of \<open>prepareXlmRefund\<close>; \<open>ops\<close> is what Horizon answers for the original payment.\<close>

definition refund_amount :: "(rat \<Rightarrow> string) \<Rightarrow> string \<Rightarrow> string + payment_op list \<Rightarrow> string option \<Rightarrow> string option \<Rightarrow> string" where
  "refund_amount wide relayer ops stellarTxHash fallback =
    (let base = (if given fallback \<and> js_positive (to_number (the fallback)) then the fallback else ''0.1'')
     in if \<not> given stellarTxHash then base
        else case ops of Inl e \<Rightarrow> base
        | Inr records \<Rightarrow> (case List.find (is_payment_to relayer) records of None \<Rightarrow> base
           | Some op \<Rightarrow> toFixed7 wide (js_max (js_sub (parseFloat (po_amount op)) (decimal_value 1 (- 4))) (Fin 0))))"

definition manual_payment :: "string \<Rightarrow> string \<Rightarrow> payment_op list \<Rightarrow> payment_op option" where
  "manual_payment relayer stellarAddress records =
    List.find (\<lambda>op. is_payment_to relayer op \<and> po_from op = stellarAddress) records"

definition manual_amount :: "(rat \<Rightarrow> string) \<Rightarrow> payment_op \<Rightarrow> string" where
  "manual_amount wide op = toFixed7 wide (js_sub (parseFloat (po_amount op)) (decimal_value 1 (- 4)))"

definition refund_memo :: "string \<Rightarrow> string" where
  "refund_memo orderId = ''Refund:'' @ take 20 (if orderId = [] then ''unknown'' else orderId)"

definition manual_memo :: "string \<Rightarrow> string" where
  "manual_memo stellarTxHash = ''ManualRefund:'' @ take 20 stellarTxHash"

section \<open>The safety deposit\<close>

definition safety_deposit_tier :: "js_number \<Rightarrow> js_number" where
  "safety_deposit_tier amountInEth =
    (let usd = js_mult amountInEth (Fin 3500);
         le = (\<lambda>x n. js_less x (Fin n) \<or> x = Fin n)
     in if le usd 50 then decimal_value 5 (- 5)
        else if le usd 100 then decimal_value 1 (- 4)
        else if le usd 500 then decimal_value 2 (- 4)
        else if le usd 1000 then decimal_value 5 (- 4)
        else js_min (decimal_value 2 (- 3)) (js_mult amountInEth (decimal_value 1 (- 2))))"

definition calculateDynamicSafetyDeposit :: "(string \<Rightarrow> string + string) \<Rightarrow> (js_number \<Rightarrow> string + int) \<Rightarrow> string
    \<Rightarrow> string \<Rightarrow> string option \<Rightarrow> string + int" where
  "calculateDynamicSafetyDeposit formatEther parseEther DEFAULT_NETWORK_MODE amountInWei networkMode =
    (case formatEther amountInWei of Inl e \<Rightarrow> Inl e
     | Inr t \<Rightarrow>
        (let dep = safety_deposit_tier (parseFloat t)
         in parseEther (if networkMode = Some ''testnet'' \<or> DEFAULT_NETWORK_MODE = ''testnet''
              then js_max dep (decimal_value 1 (- 2)) else dep)))"

section \<open>A release is capped\<close>

lemma micro_round_capped:
  assumes "js_less x (Fin (of_nat c)) \<or> x = Fin (of_nat c)" "c \<le> 10"
  shows "micro_round x = Neg_inf \<or> (\<exists>k. k \<le> int c * 1000000 \<and> micro_round x = js_div (Fin (of_int k)) (Fin 1000000))"
proof (cases x)
  case (Fin q)
  then have q: "q \<le> of_nat c" using assms(1) by auto
  have "\<exists>y. js_of_rat (q * 1000000) = Fin y \<and> y < of_nat c * 1000000 + 1 / 2 \<or> js_of_rat (q * 1000000) = Neg_inf"
  proof (cases "0 < q")
    case True
    have c10: "(of_nat c :: rat) \<le> 10" using assms(2) by (metis of_nat_le_iff of_nat_numeral)
    have "q * 1000000 \<le> of_nat c * 1000000" using q by simp
    moreover from this have "q * 1000000 \<le> 10000000" using c10 by linarith
    moreover have "(10000000 :: rat) \<le> 2 ^ 1000" by simp
    ultimately have "q * 1000000 \<le> 2 ^ 1000" by (meson order_trans)
    then obtain y where "js_of_rat (q * 1000000) = Fin y"
      "\<bar>y - q * 1000000\<bar> \<le> max (q * 1000000 / 2 ^ 53) (1 / 2 ^ 1075)"
      using js_of_rat_error[of "q * 1000000"] True by auto
    moreover have "max (q * 1000000 / 2 ^ 53) (1 / 2 ^ 1075) < (1 / 2 :: rat)"
      using \<open>q * 1000000 \<le> 10000000\<close> by simp
    ultimately show ?thesis using \<open>q * 1000000 \<le> of_nat c * 1000000\<close> unfolding abs_le_iff
      by (intro exI[of _ y]) (rule disjI1, rule conjI, assumption, linarith)
  next
    case False
    then have "js_of_rat (q * 1000000) = Neg_inf \<or> (\<exists>y. js_of_rat (q * 1000000) = Fin y \<and> y \<le> 0)"
      by (intro js_of_rat_nonpos) simp
    moreover have "y \<le> 0 \<Longrightarrow> y < of_nat c * 1000000 + 1 / 2" for y :: rat
      by (rule le_less_trans[of _ 0]) (simp_all add: add_nonneg_pos)
    ultimately show ?thesis by blast
  qed
  then show ?thesis
  proof
    fix y assume y: "js_of_rat (q * 1000000) = Fin y \<and> y < of_nat c * 1000000 + 1 / 2 \<or> js_of_rat (q * 1000000) = Neg_inf"
    then show ?thesis
    proof
      assume y: "js_of_rat (q * 1000000) = Fin y \<and> y < of_nat c * 1000000 + 1 / 2"
      then have "y + 1 / 2 < of_int (int c * 1000000) + 1" by simp
      then have "\<lfloor>y + 1 / 2\<rfloor> \<le> int c * 1000000" by (simp only: floor_le_iff)
      then show ?thesis using y Fin by (auto simp: micro_round_def intro!: exI[of _ "\<lfloor>y + 1 / 2\<rfloor>"])
    qed (use Fin in \<open>simp add: micro_round_def signed_inf_def\<close>)
  qed
qed (use assms(1) in \<open>auto simp: micro_round_def signed_inf_def\<close>)

lemma micro_round_nan [simp]: "micro_round Not_a_number = Not_a_number"
  by (simp add: micro_round_def )

lemma js_min_capped: "js_min x (Fin c) = Not_a_number \<or> js_less (js_min x (Fin c)) (Fin c) \<or> js_min x (Fin c) = Fin c"
  by (cases x) (auto simp: js_min_def)

text \<open>\<open>parseEther\<close> reads multiples of a millionth exactly, refuses what is not a number, and keeps the
  sign.\<close>

definition parses_micro :: "(js_number \<Rightarrow> string + int) \<Rightarrow> bool" where
  "parses_micro parseEther \<longleftrightarrow>
    (\<forall>k. 0 \<le> k \<and> k \<le> 10000000 \<longrightarrow>
       parseEther (js_div (Fin (of_int k)) (Fin 1000000)) = Inr (k * 1000000000000))
    \<and> (\<forall>x wei. parseEther x = Inr wei \<longrightarrow> is_finite_number x \<and> (js_positive x \<or> wei \<le> 0))"

lemma parses_microD:
  assumes "parses_micro parseEther" "js_min x (Fin (of_nat c)) = y" "c \<le> 10" "parseEther (micro_round y) = Inr wei"
  shows "wei \<le> int c * 1000000000000000000"
proof -
  have fin: "is_finite_number (micro_round y)" "js_positive (micro_round y) \<or> wei \<le> 0"
    using assms(1,4) by (auto simp: parses_micro_def)
  then have "y \<noteq> Not_a_number" by (auto simp: is_finite_number_def)
  then have "js_less y (Fin (of_nat c)) \<or> y = Fin (of_nat c)" using js_min_capped assms(2) by blast
  from micro_round_capped[OF this assms(3)] fin obtain k where
    k: "k \<le> int c * 1000000" "micro_round y = js_div (Fin (of_int k)) (Fin 1000000)"
    by (auto simp: is_finite_number_def)
  show ?thesis
  proof (cases "0 \<le> k")
    case True
    then have "wei = k * 1000000000000" using assms(1,3,4) k by (auto simp: parses_micro_def)
    then show ?thesis using k(1) by simp
  next
    case False
    then have "\<not> js_positive (micro_round y)"
      using js_of_rat_nonpos[of "of_int k / 1000000"] k(2) by auto
    then have "wei \<le> 0" using fin(2) by blast
    then show ?thesis by (rule order_trans) simp
  qed
qed

text \<open>C28: Whatever a client stored in its order, one release pays at most 10 ETH, and at most 1 ETH for
  an order with a target amount. Of \<open>parseEther\<close> it assumes that it reads multiples of a millionth
  exactly and refuses what is not a number.\<close>

theorem release_capped:
  assumes "parses_micro parseEther" "release_wei formatEther parseEther d orderAmount = Inr wei"
  shows "wei \<le> (if given (od_targetAmount d) then 1000000000000000000 else 10000000000000000000)"
proof (cases "given (od_targetAmount d)")
  case True
  then obtain x where "target_number formatEther (exchange_rate d) orderAmount (the (od_targetAmount d)) = Inr x"
      "parseEther x = Inr wei"
    using assms(2) by (auto simp: release_wei_def split: sum.splits)
  then obtain n where "parseEther (micro_round (js_min n (Fin 1))) = Inr wei"
    by (auto simp: target_number_def Let_def split: if_splits sum.splits)
  then show ?thesis using parses_microD[OF assms(1) refl, of 1] True by simp
next
  case False
  let ?x = "js_div (xlm_amount d orderAmount) (exchange_rate d)"
  consider "parseEther (micro_round (js_min ?x (Fin 10))) = Inr wei" | "wei = 1000000000000000"
    using assms(2) False by (auto simp: release_wei_def split: sum.splits)
  then show ?thesis
  proof cases
    case 1
    then show ?thesis using parses_microD[OF assms(1) refl, of 10] False by simp
  qed (use False in simp)
qed

definition sample_parseEther :: "js_number \<Rightarrow> string + int" where
  "sample_parseEther x = (case x of Fin q \<Rightarrow> Inr (\<lfloor>q * 1000000 + 1 / 2\<rfloor> * 1000000000000) | _ \<Rightarrow> Inl ''invalid'')"

lemma sample_parses_micro: "parses_micro sample_parseEther"
  unfolding parses_micro_def
proof (intro conjI allI impI)
  fix k :: int assume k: "0 \<le> k \<and> k \<le> 10000000"
  show "sample_parseEther (js_div (Fin (of_int k)) (Fin 1000000)) = Inr (k * 1000000000000)"
  proof (cases "k = 0")
    case True
    have "\<lfloor>1 / 2 :: rat\<rfloor> = 0" by (simp only: floor_eq_iff) simp
    then show ?thesis using True by (simp add: sample_parseEther_def)
  next
    case False
    have k': "(1 :: rat) \<le> of_int k" "(of_int k :: rat) \<le> 10000000" using False k by linarith+
    moreover have "1 / 2 ^ 900 \<le> (1 / 1000000 :: rat)" "(10 :: rat) \<le> 2 ^ 1000" by simp_all
    ultimately have "0 < (of_int k / 1000000 :: rat)" "1 / 2 ^ 900 \<le> (of_int k / 1000000 :: rat)"
      "(of_int k / 1000000 :: rat) \<le> 2 ^ 1000" by linarith+
    from js_of_rat_close[OF this] obtain x where
      x: "js_of_rat (of_int k / 1000000) = Fin x" "\<bar>x - of_int k / 1000000\<bar> \<le> of_int k / 1000000 / 2 ^ 53" by blast
    have "(of_int k / 1000000 / 2 ^ 53 :: rat) \<le> 1 / 10000000" using k'(2) by simp
    then have "\<bar>x - of_int k / 1000000\<bar> \<le> 1 / 10000000" using x(2) by (rule order_trans[rotated])
    then have "x - of_int k / 1000000 \<le> 1 / 10000000" "of_int k / 1000000 - x \<le> 1 / 10000000"
      unfolding abs_le_iff by linarith+
    then have "\<lfloor>x * 1000000 + 1 / 2\<rfloor> = k"
      by (intro floor_unique) linarith+
    then show ?thesis using x(1) by (simp add: sample_parseEther_def)
  qed
next
  fix x wei assume "sample_parseEther x = Inr wei"
  then obtain q where q: "x = Fin q" "wei = \<lfloor>q * 1000000 + 1 / 2\<rfloor> * 1000000000000"
    by (auto simp: sample_parseEther_def split: js_number.splits)
  have "\<lfloor>q * 1000000 + 1 / 2\<rfloor> \<le> 0" if "q \<le> 0" using that by (simp add: floor_le_iff)
  then show "is_finite_number x" "js_positive x \<or> wei \<le> 0"
    using q by (cases "0 < q"; simp add: is_finite_number_def)+
qed

text \<open>An order whose amount is not a number is released with the fallback amount.\<close>

definition sample_details :: order_details where
  "sample_details = \<lparr>od_ethAddress = None, od_stellarTimelock = None, od_ethTimelock = None, od_exchangeRate = None,
     od_targetAmount = None, od_stellar_amount = Some ''abc'', od_stellarAmount = None, od_ethTxHash = None\<rparr>"

lemma sample_release: "release_wei Inr sample_parseEther sample_details ''10'' = Inr 1000000000000000"
proof -
  have "parseFloat ''abc'' = Not_a_number" by code_simp
  then show ?thesis
    by (simp add: release_wei_def sample_details_def given_def xlm_amount_def js_min_def sample_parseEther_def
        split: js_number.splits)
qed

theorem release_capped_witness: "(1000000000000000 :: int) \<le> 10000000000000000000 \<and> \<not> given (od_targetAmount sample_details)"
  using release_capped[OF sample_parses_micro sample_release] by (simp add: sample_details_def given_def)

section \<open>A refund keeps a thousand stroops\<close>

lemma fl_close:
  assumes "0 < n" "0 < d" "1 / 2 ^ 900 \<le> (of_nat n / of_nat d :: rat)" "of_nat n / of_nat d \<le> (2 :: rat) ^ 1000"
  obtains x where "fl n d = Fin x" "\<bar>x - of_nat n / of_nat d\<bar> \<le> of_nat n / of_nat d / 2 ^ 53" "0 \<le> x"
proof -
  let ?q = "of_nat n / of_nat d :: rat"
  from fl_error[OF assms(1,2,4)] obtain x where x: "fl n d = Fin x" "\<bar>x - ?q\<bar> \<le> max (?q / 2 ^ 53) (1 / 2 ^ 1075)" by blast
  have "1 / 2 ^ 1075 \<le> (1 / 2 ^ 900) / (2 :: rat) ^ 53" by simp
  also have "\<dots> \<le> ?q / 2 ^ 53" using assms(3) by (intro divide_right_mono) simp_all
  finally show thesis using that[of x] x fl_nonneg[OF x(1)] by simp
qed

lemma stroops_close:
  assumes "0 < n" "n < 2 ^ 50"
  obtains x where "decimal_value n (- 7) = Fin x" "\<bar>x - of_nat n / 10000000\<bar> \<le> of_nat n / 10000000 / 2 ^ 53" "0 \<le> x"
proof -
  have n: "(1 :: rat) \<le> of_nat n" "(of_nat n :: rat) < 2 ^ 50"
    using assms by (simp, metis of_nat_less_iff of_nat_numeral of_nat_power)
  have "1 / 2 ^ 900 \<le> (1 / 10000000 :: rat)" by simp
  also have "\<dots> \<le> of_nat n / of_nat (10 ^ 7)" using n by simp
  finally have low: "1 / 2 ^ 900 \<le> (of_nat n / of_nat (10 ^ 7) :: rat)" .
  have "of_nat n / of_nat (10 ^ 7) \<le> (2 ^ 50 :: rat)" using n by simp
  also have "\<dots> \<le> 2 ^ 1000" by (rule power_increasing) simp_all
  finally show thesis using that fl_close[of n "10 ^ 7", OF assms(1) _ low] by (auto simp: decimal_value_def)
qed

lemma dust_close: obtains x where "decimal_value 1 (- 4) = Fin x" "\<bar>x - 1 / 10000\<bar> \<le> 1 / 10000 / 2 ^ 53"
  using fl_close[of 1 "10 ^ 4"] by (auto simp: decimal_value_def)

lemma dust_number:
  assumes "1000 < n" "n < 2 ^ 50"
  obtains x where "js_sub (decimal_value n (- 7)) (decimal_value 1 (- 4)) = Fin x"
    "\<bar>x * 10000000 - of_nat (n - 1000)\<bar> < 1 / 2" "0 < x"
proof -
  define N :: rat where "N = of_nat n"
  have N: "1001 \<le> N" "N \<le> 2 ^ 50"
    using assms by (simp_all add: N_def)
  obtain a where a: "decimal_value n (- 7) = Fin a" "\<bar>a - N / 10000000\<bar> \<le> N / 10000000 / 2 ^ 53"
    using stroops_close[of n] assms by (auto simp: N_def)
  obtain b where b: "decimal_value 1 (- 4) = Fin b" "\<bar>b - 1 / 10000\<bar> \<le> 1 / 10000 / 2 ^ 53" by (rule dust_close)
  have d: "1 / 100000000 \<le> a - b" "a - b \<le> 2 ^ 50"
    using a(2) b(2) N unfolding abs_le_iff by simp_all
  moreover have "1 / 2 ^ 900 \<le> (1 / 100000000 :: rat)" by simp
  moreover have "(2 :: rat) ^ 50 \<le> 2 ^ 1000" by (rule power_increasing) simp_all
  ultimately obtain x where x: "js_of_rat (a - b) = Fin x" "\<bar>x - (a - b)\<bar> \<le> (a - b) / 2 ^ 53"
    using js_of_rat_close[of "a - b"] by (metis (no_types, opaque_lifting) less_le_trans order_trans zero_less_divide_1_iff zero_less_numeral)
  have "of_nat (n - 1000) = N - 1000" using assms by (simp add: N_def of_nat_diff)
  moreover have "\<bar>x * 10000000 - (N - 1000)\<bar> < 1 / 2" "0 < x"
    using a(2) b(2) x(2) N unfolding abs_le_iff abs_less_iff by simp_all
  ultimately show thesis using that a(1) b(1) x(1) by simp
qed

lemma toFixed7_near:
  assumes "\<bar>x * 10000000 - of_nat m\<bar> < 1 / 2" "0 < x" "m < 2 ^ 50"
  shows "toFixed7 wide (Fin x) = fixed7 m"
proof -
  have "(of_nat m :: rat) < 2 ^ 50" using assms(3) by (metis of_nat_less_iff of_nat_numeral of_nat_power)
  then have "x * 10000000 < 2 ^ 50 + 1" using assms(1) unfolding abs_less_iff by linarith
  then have small: "x < 10 ^ 21" using assms(2) by simp
  have "\<lfloor>x * 10000000 + 1 / 2\<rfloor> = int m"
  proof (rule floor_unique)
    have "x * 10000000 - of_nat m < 1 / 2" "of_nat m - x * 10000000 < 1 / 2"
      using assms(1)[unfolded abs_less_iff] by simp_all
    then show "of_int (int m) \<le> x * 10000000 + 1 / 2" "x * 10000000 + 1 / 2 < of_int (int m) + 1" by simp_all
  qed
  then show ?thesis using assms(2) small by (simp add: toFixed7_def Let_def)
qed

text \<open>A refund returns the payment less exactly 1000 stroops. For every payment of the relayer's
  account of more than 1000 and less than \<open>2\<^sup>5\<^sup>0\<close> stroops, the automatic and the manual refund render the
  same amount, that of \<open>n - 1000\<close> stroops, in spite of the binary arithmetic in between.\<close>

theorem refund_keeps_dust:
  assumes "List.find (is_payment_to relayer) records = Some op" "po_amount op = fixed7 n"
    and "1000 < n" "n < 2 ^ 50" "given stellarTxHash"
  shows "refund_amount wide relayer (Inr records) stellarTxHash fallback = fixed7 (n - 1000)
    \<and> manual_amount wide op = fixed7 (n - 1000)"
proof -
  obtain x where x: "js_sub (decimal_value n (- 7)) (decimal_value 1 (- 4)) = Fin x"
    "\<bar>x * 10000000 - of_nat (n - 1000)\<bar> < 1 / 2" "0 < x" by (rule dust_number[OF assms(3,4)])
  have "toFixed7 wide (Fin x) = fixed7 (n - 1000)" by (rule toFixed7_near[OF x(2,3)]) (use assms(4) in simp)
  moreover have "js_max (Fin x) (Fin 0) = Fin x" using x(3) by (simp add: js_max_def)
  ultimately show ?thesis using assms(1,2,5) x(1)
    by (simp add: refund_amount_def manual_amount_def parseFloat_fixed7)
qed

theorem refund_keeps_dust_witness:
  "refund_amount (\<lambda>_. []) ''R'' (Inr [\<lparr>po_type = ''payment'', po_to = ''R'', po_asset_type = ''native'', po_from = ''G'',
     po_amount = fixed7 100000000\<rparr>]) (Some ''x'') None = fixed7 99999000"
  by (subst conjunct1[OF refund_keeps_dust[where n = 100000000 and op = "\<lparr>po_type = ''payment'', po_to = ''R'',
      po_asset_type = ''native'', po_from = ''G'', po_amount = fixed7 100000000\<rparr>"]])
    (simp_all add: is_payment_to_def given_def)

text \<open>A text memo of Stellar has at most 28 bytes. The memo of an automatic refund fits; that of a manual
  refund never does for a transaction hash, so the builder refuses it.\<close>

lemma refund_memo_fits: "length (refund_memo orderId) \<le> 28"
  by (simp add: refund_memo_def)

lemma manual_memo_too_long: "16 \<le> length stellarTxHash \<Longrightarrow> 28 < length (manual_memo stellarTxHash)"
  by (simp add: manual_memo_def)

end
