(* ===== verification/Relay_Handlers.thy ===== *)
theory Relay_Handlers
  imports Refund_Watchdog Relay_Port Payout_Amounts Timelocks
begin

text \<open>
  The two handlers of the relayer that pay out on their own account, over the relay tracker and beside
  the refund watchdog (\<open>relayer/src/index.ts\<close>): \<open>POST /api/orders/xlm-to-eth\<close>, which releases ETH and
  falls back to a refund in XLM, and \<open>POST /api/orders/manual-refund\<close>.

  \<^item> A request is an entry of \<open>hs_requests\<close> with the phase it waits in. What it waits for is an event:
    balances, the answers of Horizon, and the replies of the tracker. A promise of the tracker that
    settles turns \<open>On\<close> into \<open>Answer\<close>; the continuation is the event \<open>Continue\<close>.
  \<^item> A handler holds the order object it found or stored. \<open>rq_attached\<close> says whether the map still holds
    that object; writes to one that was replaced are not seen.
  \<^item> \<open>env\<close> is the environment of the process, \<open>getAddress\<close>, \<open>formatEther\<close>, \<open>parseEther\<close>, the constructor
    of wallets and the keys of secrets are functions of \<open>ethers\<close> and the Stellar SDK. The wait for the
    chain monitoring in \<open>storeActiveOrder\<close> is left out, as are log lines and the texts of bodies.
\<close>

section \<open>Configuration\<close>

record handler_config =
  hc_env :: "string \<Rightarrow> string option"
  hc_timelockGap :: int
  hc_getAddress :: "string \<Rightarrow> string + string"
  hc_wallet :: "string \<Rightarrow> string + unit"
  hc_publicKey :: "string \<Rightarrow> string + string"
  hc_formatEther :: "string \<Rightarrow> string + string"
  hc_parseEther :: "js_number \<Rightarrow> string + int"
  hc_wide :: "rat \<Rightarrow> string"

text \<open>\<open>a || b\<close> on texts that may be undefined\<close>

definition or_else :: "string option \<Rightarrow> string option \<Rightarrow> string option" where
  "or_else a b = (if truthy a then a else b)"

definition DEFAULT_NETWORK_MODE :: "(string \<Rightarrow> string option) \<Rightarrow> string" where
  "DEFAULT_NETWORK_MODE env = (case env ''NETWORK_MODE'' of Some (c # cs) \<Rightarrow> c # cs | _ \<Rightarrow> ''mainnet'')"

definition infuraRpcUrl :: "bool \<Rightarrow> string \<Rightarrow> string" where
  "infuraRpcUrl mainnet apiKey =
    (if mainnet then ''https://mainnet.infura.io/v3'' else ''https://sepolia.infura.io/v3'') @ ''/'' @ trim apiKey"

definition resolveEthereumRpcUrl :: "bool \<Rightarrow> (string \<Rightarrow> string option) \<Rightarrow> string" where
  "resolveEthereumRpcUrl testnet env =
    (let url = (\<lambda>v. map_option trim (env v));
         infura = (if truthy (url ''INFURA_API_KEY'') then Some (infuraRpcUrl (\<not> testnet) (the (url ''INFURA_API_KEY''))) else None);
         public = (if testnet then ''https://ethereum-sepolia-rpc.publicnode.com'' else ''https://ethereum-rpc.publicnode.com'')
     in the (or_else (url (if testnet then ''SEPOLIA_RPC_URL'' else ''MAINNET_RPC_URL''))
          (or_else (url ''ETHEREUM_RPC_URL'') (or_else infura (Some public)))))"

definition stellar_secret :: "(string \<Rightarrow> string option) \<Rightarrow> string \<Rightarrow> string option" where
  "stellar_secret env network =
    or_else (env (if network = ''mainnet'' then ''RELAYER_STELLAR_SECRET_MAINNET'' else ''RELAYER_STELLAR_SECRET_TESTNET''))
      (env ''RELAYER_STELLAR_SECRET'')"

section \<open>State\<close>

record xlm_request =
  xr_orderId :: "string option"
  xr_stellarTxHash :: "string option"
  xr_stellarAddress :: "string option"
  xr_ethAddress :: "string option"
  xr_networkMode :: "string option"
  xr_queryNetwork :: "string option"

record manual_request =
  mr_stellarTxHash :: "string option"
  mr_stellarAddress :: "string option"
  mr_networkMode :: "string option"
  mr_orderId :: "string option"

datatype failure = Relay_failure relay_error | Plain_failure string

datatype refund_report = Refund_completed "string option" | Refund_refused failure

text \<open>The replies, with their status: 400/404/409/500, 200, 202, 500, 200, 202, 409 and 500.\<close>

datatype handler_reply =
    Error_reply nat string
  | Eth_sent "string option"
  | Eth_pending "string option"
  | Release_failed failure refund_report
  | Refund_paid "string option" string bool
  | Refund_pending "string option"
  | Refund_busy relay_error
  | Handler_failed failure

text \<open>A request waits for an operation of the tracker that it drives, or that it joined. A call that joined is told
  of a success as of one that was already handled.\<close>

datatype wait = On nat | Joined nat | Answer relay_reply

fun joined_reply :: "relay_reply \<Rightarrow> relay_reply" where
  "joined_reply (Resolved out) = Resolved (out\<lparr>ro_status := Out_already_handled, ro_duplicate := True\<rparr>)"
| "joined_reply reply = reply"

fun deliver :: "nat \<Rightarrow> relay_reply \<Rightarrow> wait \<Rightarrow> wait" where
  "deliver oid reply (On oid') = (if oid' = oid then Answer reply else On oid')"
| "deliver oid reply (Joined oid') = (if oid' = oid then Answer (joined_reply reply) else Joined oid')"
| "deliver oid reply (Answer settled) = Answer settled"

datatype refund_kind = Inline failure | Manual string

datatype request_phase =
    Await_balance
  | Releasing wait
  | Await_lookup
  | Refunding refund_kind wait
  | Replied handler_reply

record relay_request =
  rq_orderId :: string
  rq_stellarTxHash :: string
  rq_stellarAddress :: "string option"
  rq_network :: string
  rq_ethAddress :: string
  rq_orderAmount :: string
  rq_details :: order_details
  rq_attached :: bool
  rq_phase :: request_phase

record handler_system =
  hs_watch :: watchdog_system
  hs_details :: "(string \<times> order_details) list"
  hs_requests :: "relay_request list"

definition no_details :: order_details where
  "no_details = \<lparr>od_ethAddress = None, od_stellarTimelock = None, od_ethTimelock = None, od_exchangeRate = None,
     od_targetAmount = None, od_stellar_amount = None, od_stellarAmount = None, od_ethTxHash = None\<rparr>"

definition add_request :: "relay_request \<Rightarrow> handler_system \<Rightarrow> handler_system" where
  "add_request r hs = hs\<lparr>hs_requests := hs_requests hs @ [r]\<rparr>"

definition put_phase :: "nat \<Rightarrow> request_phase \<Rightarrow> handler_system \<Rightarrow> handler_system" where
  "put_phase rid ph hs = hs\<lparr>hs_requests := (hs_requests hs)[rid := (hs_requests hs ! rid)\<lparr>rq_phase := ph\<rparr>]\<rparr>"

text \<open>A write to the order object of a request.\<close>

definition mark_order :: "nat \<Rightarrow> (watch_order \<Rightarrow> watch_order) \<Rightarrow> handler_system \<Rightarrow> handler_system" where
  "mark_order rid f hs =
    (let r = hs_requests hs ! rid
     in if \<not> rq_attached r then hs
        else case map_of (ws_orders (hs_watch hs)) (rq_orderId r) of None \<Rightarrow> hs
          | Some order \<Rightarrow> hs\<lparr>hs_watch := put_order (rq_orderId r) (f order) (hs_watch hs)\<rparr>)"

definition mark_sent :: "nat \<Rightarrow> string option \<Rightarrow> handler_system \<Rightarrow> handler_system" where
  "mark_sent rid txHash hs =
    (let r = hs_requests hs ! rid
     in if \<not> rq_attached r then hs
        else (mark_order rid (\<lambda>order. order\<lparr>wo_status := Some ''eth_tx_sent''\<rparr>) hs)
          \<lparr>hs_details := AList.map_entry (rq_orderId r) (\<lambda>d. d\<lparr>od_ethTxHash := txHash\<rparr>) (hs_details hs)\<rparr>)"

definition wait_of :: "relay_reply \<Rightarrow> wait" where
  "wait_of reply = (case reply of Waiting oid \<Rightarrow> On oid | Joins oid \<Rightarrow> Joined oid | _ \<Rightarrow> Answer reply)"

definition submit_for :: "(string \<Rightarrow> string) \<Rightarrow> relay_config \<Rightarrow> relay_action \<Rightarrow> int \<Rightarrow> handler_system \<Rightarrow> wait \<times> handler_system" where
  "submit_for sha rcfg a now hs =
    (let (reply, t') = submit sha rcfg a now (ws_tracker (hs_watch hs))
     in (wait_of reply, hs\<lparr>hs_watch := (hs_watch hs)\<lparr>ws_tracker := t'\<rparr>\<rparr>))"

definition payout_action :: "relay_request \<Rightarrow> bool \<Rightarrow> string option \<Rightarrow> relay_action" where
  "payout_action r release amount =
    \<lparr>ra_orderId = rq_orderId r, ra_side = ''xlm_to_eth'', ra_action = (if release then ''claim'' else ''refund''),
     ra_chain = (if release then ''ethereum'' else ''stellar''), ra_network = Some (rq_network r),
     ra_destination = (if release then Some (rq_ethAddress r) else rq_stellarAddress r), ra_amount = amount\<rparr>"

section \<open>The fallback to a refund\<close>

definition start_refund :: "(string \<Rightarrow> string) \<Rightarrow> relay_config \<Rightarrow> handler_config \<Rightarrow> int \<Rightarrow> failure \<Rightarrow> nat
    \<Rightarrow> handler_system \<Rightarrow> handler_system" where
  "start_refund sha rcfg cfg now failure rid hs =
    (let r = hs_requests hs ! rid
     in if \<not> truthy (stellar_secret (hc_env cfg) (rq_network r))
        then put_phase rid (Replied (Release_failed failure (Refund_refused (Plain_failure
          (''Relayer Stellar secret not configured for '' @ rq_network r))))) hs
        else let (w, hs') = submit_for sha rcfg (payout_action r False None) now hs
             in put_phase rid (Refunding (Inline failure) w) hs')"

section \<open>Releasing ETH\<close>

text \<open>The order a request works on: the stored one, or the minimal one that the handler stores. It keeps
  its receipt time and network.\<close>

definition minimal_order :: "string \<Rightarrow> xlm_request \<Rightarrow> string \<Rightarrow> int \<Rightarrow> watch_order" where
  "minimal_order orderId req network now =
    \<lparr>wo_orderId = Some orderId, wo_direction = Some ''xlm_to_eth'', wo_status = Some ''awaiting_eth_release'',
     wo_stellarAddress = xr_stellarAddress req, wo_stellarTxHash = None, wo_xlmReceivedAt = None,
     wo_created = Some (Stamp_text (Some now)), wo_amount = None, wo_networkMode = Some network,
     wo_refundTxHash = None, wo_refundedAt = None, wo_watchdogFailedAt = None, wo_watchdogFailureReason = None\<rparr>"

definition note_payment :: "xlm_request \<Rightarrow> string \<Rightarrow> int \<Rightarrow> watch_order \<Rightarrow> watch_order" where
  "note_payment req network now order =
    order\<lparr>wo_xlmReceivedAt := (case wo_xlmReceivedAt order of None \<Rightarrow> Some (Stamp_number now) | v \<Rightarrow> v),
      wo_stellarTxHash := xr_stellarTxHash req,
      wo_stellarAddress := or_else (xr_stellarAddress req) (wo_stellarAddress order),
      wo_networkMode := (case wo_networkMode order of None \<Rightarrow> Some network | v \<Rightarrow> v)\<rparr>"

definition stored_details :: "string \<Rightarrow> handler_system \<Rightarrow> order_details" where
  "stored_details orderId hs =
    (if map_of (ws_orders (hs_watch hs)) orderId = None then no_details
     else case map_of (hs_details hs) orderId of None \<Rightarrow> no_details | Some d \<Rightarrow> d)"

definition request_network :: "handler_config \<Rightarrow> xlm_request \<Rightarrow> string" where
  "request_network cfg req =
    the (or_else (xr_networkMode req) (or_else (xr_queryNetwork req) (Some (DEFAULT_NETWORK_MODE (hc_env cfg)))))"

definition xlm_entry :: "xlm_request \<Rightarrow> string \<Rightarrow> string \<Rightarrow> string \<Rightarrow> order_details \<Rightarrow> request_phase \<Rightarrow> relay_request" where
  "xlm_entry req network userEth amount d ph =
    \<lparr>rq_orderId = or_empty (xr_orderId req), rq_stellarTxHash = or_empty (xr_stellarTxHash req),
     rq_stellarAddress = xr_stellarAddress req, rq_network = network, rq_ethAddress = userEth, rq_orderAmount = amount,
     rq_details = d, rq_attached = True, rq_phase = ph\<rparr>"

text \<open>The bookkeeping for the watchdog, and the entry of the request.\<close>

definition book_request :: "xlm_request \<Rightarrow> string \<Rightarrow> string \<Rightarrow> int \<Rightarrow> handler_system \<Rightarrow> handler_system" where
  "book_request req network normalized now hs =
    (let orderId = or_empty (xr_orderId req);
         stored = map_of (ws_orders (hs_watch hs)) orderId;
         d = (if stored = None then no_details\<lparr>od_ethAddress := Some normalized\<rparr> else stored_details orderId hs);
         order = (case stored of Some found \<Rightarrow> found | None \<Rightarrow> minimal_order orderId req network now);
         amount = (case stored of Some found \<Rightarrow> the (or_else (wo_amount found) (Some ''10'')) | None \<Rightarrow> ''10'')
     in add_request (xlm_entry req network (the (or_else (od_ethAddress d) (Some normalized))) amount d Await_balance)
          (hs\<lparr>hs_watch := put_order orderId (note_payment req network now order) (hs_watch hs),
              hs_details := (if stored = None then AList.update orderId d (hs_details hs) else hs_details hs)\<rparr>))"

text \<open>The checks of the environment before the balance is asked for.\<close>

definition prepare_release :: "(string \<Rightarrow> string) \<Rightarrow> relay_config \<Rightarrow> handler_config \<Rightarrow> string \<Rightarrow> int \<Rightarrow> nat
    \<Rightarrow> handler_system \<Rightarrow> handler_system" where
  "prepare_release sha rcfg cfg network now rid hs =
    (let rpcUrl = resolveEthereumRpcUrl (network = ''testnet'') (hc_env cfg)
     in case or_else (hc_env cfg ''RELAYER_PRIVATE_KEY'') None of
          None \<Rightarrow> start_refund sha rcfg cfg now (Plain_failure ''RELAYER_PRIVATE_KEY environment variable is required'') rid hs
        | Some key \<Rightarrow>
           if text_occurs ''YOUR_'' rpcUrl \<or> text_occurs ''api_key_here'' rpcUrl
           then put_phase rid (Replied (Error_reply 500 ''RPC URL not configured'')) hs
           else case hc_wallet cfg key of
             Inl m \<Rightarrow> start_refund sha rcfg cfg now (Plain_failure m) rid hs
           | Inr _ \<Rightarrow> hs)"

text \<open>The request up to the wait for the balance.\<close>

definition xlm_to_eth :: "(string \<Rightarrow> string) \<Rightarrow> relay_config \<Rightarrow> handler_config \<Rightarrow> int \<Rightarrow> xlm_request
    \<Rightarrow> handler_system \<Rightarrow> handler_system" where
  "xlm_to_eth sha rcfg cfg now req hs =
    (let network = request_network cfg req;
         refuse = (\<lambda>st m. add_request (xlm_entry req network [] [] no_details (Replied (Error_reply st m))) hs)
     in if \<not> truthy (xr_orderId req) \<or> \<not> truthy (xr_stellarTxHash req) \<or> \<not> truthy (xr_ethAddress req)
        then refuse 400 ''Missing required fields: orderId, stellarTxHash, ethAddress''
        else case hc_getAddress cfg (toLowerCase (the (xr_ethAddress req))) of Inl m \<Rightarrow> refuse 500 m
        | Inr normalized \<Rightarrow>
          (let d = stored_details (or_empty (xr_orderId req)) hs
           in if nonzero (od_stellarTimelock d) \<and> nonzero (od_ethTimelock d)
                 \<and> \<not> isValid (validateTimelockOrdering (the (od_ethTimelock d)) (the (od_stellarTimelock d)) (hc_timelockGap cfg))
              then refuse 500 ''Invalid timelock ordering''
              else prepare_release sha rcfg cfg network now (length (hs_requests hs)) (book_request req network normalized now hs)))"

definition is_rate_limited :: "rpc_error \<Rightarrow> bool" where
  "is_rate_limited err \<longleftrightarrow> er_code err = Some ''429'' \<or> text_occurs ''exceeded'' (or_empty (er_message err))
     \<or> text_occurs ''rate limit'' (or_empty (er_message err))"

text \<open>The loop around \<open>getBalance\<close>; \<open>answers i\<close> is the answer to call \<open>i\<close>. There are at most 5 retries.\<close>

fun balance_loop :: "(nat \<Rightarrow> rpc_error + int) \<Rightarrow> nat \<Rightarrow> nat \<Rightarrow> rpc_error + int" where
  "balance_loop answers 0 i = answers i"
| "balance_loop answers (Suc left) i =
    (case answers i of Inr b \<Rightarrow> Inr b
     | Inl err \<Rightarrow> if is_rate_limited err then balance_loop answers left (i + 1) else Inl err)"

text \<open>From the balance to the submission of the release. \<open>formatEther\<close> reads every integer.\<close>

definition release_text :: "handler_config \<Rightarrow> int \<Rightarrow> string option" where
  "release_text cfg wei = (case hc_formatEther cfg (show_int wei) of Inr t \<Rightarrow> Some t | Inl _ \<Rightarrow> None)"

definition submit_release :: "(string \<Rightarrow> string) \<Rightarrow> relay_config \<Rightarrow> handler_config \<Rightarrow> int \<Rightarrow> relay_request \<Rightarrow> int
    \<Rightarrow> nat \<Rightarrow> handler_system \<Rightarrow> handler_system" where
  "submit_release sha rcfg cfg balance r now rid hs =
    (case release_wei (hc_formatEther cfg) (hc_parseEther cfg) (rq_details r) (rq_orderAmount r) of
       Inl m \<Rightarrow> start_refund sha rcfg cfg now (Plain_failure m) rid hs
     | Inr wei \<Rightarrow>
         if balance < wei + GAS_COST
         then put_phase rid (Replied (Error_reply 400 ''Insufficient relayer balance'')) hs
         else let (w, hs') = submit_for sha rcfg (payout_action r True (release_text cfg wei)) now hs
              in put_phase rid (Releasing w) hs')"

definition balance_settled :: "(string \<Rightarrow> string) \<Rightarrow> relay_config \<Rightarrow> handler_config \<Rightarrow> (nat \<Rightarrow> rpc_error + int) \<Rightarrow> int
    \<Rightarrow> nat \<Rightarrow> handler_system \<Rightarrow> handler_system" where
  "balance_settled sha rcfg cfg answers now rid hs =
    (case balance_loop answers 5 0 of
       Inl err \<Rightarrow> start_refund sha rcfg cfg now (Plain_failure (messageOf err)) rid hs
     | Inr balance \<Rightarrow> submit_release sha rcfg cfg balance (hs_requests hs ! rid) now rid hs)"

text \<open>After the tracker has answered the release. A busy order is an \<open>instanceof RelayInFlightError\<close> too.\<close>

definition release_settled :: "(string \<Rightarrow> string) \<Rightarrow> relay_config \<Rightarrow> handler_config \<Rightarrow> relay_reply \<Rightarrow> int \<Rightarrow> nat
    \<Rightarrow> handler_system \<Rightarrow> handler_system" where
  "release_settled sha rcfg cfg reply now rid hs =
    (case reply of
       Resolved out \<Rightarrow> put_phase rid (Replied (Eth_sent (ro_txHash out)))
         (mark_sent rid (ro_txHash out) hs)
     | Thrown (RelayInFlightError key) \<Rightarrow>
         put_phase rid (Replied (Error_reply 409 ''ETH release already in progress for this order'')) hs
     | Thrown (RelayOrderBusyError k a st req) \<Rightarrow>
         put_phase rid (Replied (Error_reply 409 ''ETH release already in progress for this order'')) hs
     | Thrown (RelayConfirmationTimeoutError k h n a) \<Rightarrow> put_phase rid (Replied (Eth_pending h)) hs
     | Thrown e \<Rightarrow> start_refund sha rcfg cfg now (Relay_failure e) rid hs
     | _ \<Rightarrow> hs)"

section \<open>The manual refund\<close>

definition order_of_payment :: "string \<Rightarrow> (string \<times> watch_order) list \<Rightarrow> string option" where
  "order_of_payment stellarTxHash orders =
    map_option fst (List.find (\<lambda>(_, order). wo_stellarTxHash order = Some stellarTxHash) orders)"

text \<open>Up to the lookups on Horizon. Only a request that names its order holds the order object.\<close>

definition manual_refund :: "handler_config \<Rightarrow> manual_request \<Rightarrow> handler_system \<Rightarrow> handler_system" where
  "manual_refund cfg req hs =
    (let network = the (or_else (mr_networkMode req) (Some (DEFAULT_NETWORK_MODE (hc_env cfg))));
         hash = or_empty (mr_stellarTxHash req);
         orders = ws_orders (hs_watch hs);
         request = (\<lambda>orderId attached ph.
           \<lparr>rq_orderId = orderId, rq_stellarTxHash = hash, rq_stellarAddress = mr_stellarAddress req,
            rq_network = network, rq_ethAddress = [], rq_orderAmount = [], rq_details = no_details, rq_attached = attached, rq_phase = ph\<rparr>);
         refuse = (\<lambda>st m. add_request (request [] False (Replied (Error_reply st m))) hs)
     in if \<not> truthy (mr_stellarTxHash req) \<or> \<not> truthy (mr_stellarAddress req)
        then refuse 400 ''Missing required fields: stellarTxHash, stellarAddress''
        else case or_else (stellar_secret (hc_env cfg) network) None of
          None \<Rightarrow> refuse 500 ''Relayer Stellar secret not configured''
        | Some secret \<Rightarrow> (case hc_publicKey cfg secret of
             Inl m \<Rightarrow> add_request (request [] False (Replied (Handler_failed (Plain_failure m)))) hs
           | Inr _ \<Rightarrow>
              let named = truthy (mr_orderId req);
                  refundOrderId = the (or_else (mr_orderId req) (or_else (order_of_payment hash orders) (Some hash)))
              in add_request (request refundOrderId (named \<and> map_of orders refundOrderId \<noteq> None) Await_lookup) hs))"

text \<open>From the answers of Horizon to the submission: the operations of the payment, and the memos of the
  last transactions of the relayer, \<open>None\<close> when they cannot be read.\<close>

definition lookup_settled :: "(string \<Rightarrow> string) \<Rightarrow> relay_config \<Rightarrow> handler_config \<Rightarrow> string + payment_op list \<Rightarrow> string list option
    \<Rightarrow> int \<Rightarrow> nat \<Rightarrow> handler_system \<Rightarrow> handler_system" where
  "lookup_settled sha rcfg cfg payments memos now rid hs =
    (let r = hs_requests hs ! rid;
         relayer = (case hc_publicKey cfg (or_empty (stellar_secret (hc_env cfg) (rq_network r))) of Inr k \<Rightarrow> k | Inl _ \<Rightarrow> [])
     in case payments of
          Inl m \<Rightarrow> put_phase rid (Replied (Error_reply 404 ''Could not verify original transaction'')) hs
        | Inr found \<Rightarrow> (case manual_payment relayer (or_empty (rq_stellarAddress r)) found of
             None \<Rightarrow> put_phase rid (Replied (Error_reply 400
               ''Original transaction does not match a payment from this stellar address to the relayer'')) hs
           | Some op \<Rightarrow>
              if (case memos of None \<Rightarrow> False
                  | Some ms \<Rightarrow> ''Refund:'' @ take 20 (rq_orderId r) \<in> set ms \<or> manual_memo (rq_stellarTxHash r) \<in> set ms)
              then put_phase rid (Replied (Error_reply 409 ''Refund already processed for this transaction'')) hs
              else let amount = manual_amount (hc_wide cfg) op;
                       (w, hs') = submit_for sha rcfg (payout_action r False (Some amount)) now hs
                   in put_phase rid (Refunding (Manual amount) w) hs'))"

text \<open>After the tracker has answered a refund of either kind.\<close>

definition refund_settled :: "refund_kind \<Rightarrow> relay_reply \<Rightarrow> int \<Rightarrow> nat \<Rightarrow> handler_system \<Rightarrow> handler_system" where
  "refund_settled kind reply now rid hs =
    (case (kind, reply) of
       (Inline failure, Resolved out) \<Rightarrow> put_phase rid (Replied (Release_failed failure (Refund_completed (ro_txHash out))))
         (mark_order rid (\<lambda>order. order\<lparr>wo_status := Some ''refunded'', wo_refundTxHash := ro_txHash out\<rparr>) hs)
     | (Inline failure, Thrown e) \<Rightarrow> put_phase rid (Replied (Release_failed failure (Refund_refused (Relay_failure e)))) hs
     | (Manual amount, Resolved out) \<Rightarrow> put_phase rid (Replied (Refund_paid (ro_txHash out) amount (ro_duplicate out)))
         (mark_order rid (\<lambda>order. order\<lparr>wo_status := Some ''refunded'', wo_refundTxHash := ro_txHash out, wo_refundedAt := Some now\<rparr>) hs)
     | (Manual amount, Thrown e) \<Rightarrow> put_phase rid (Replied
         (case e of RelayOrderBusyError k a st req \<Rightarrow> Refund_busy e
          | RelayConfirmationTimeoutError k h n a \<Rightarrow> Refund_pending h
          | _ \<Rightarrow> Handler_failed (Relay_failure e))) hs
     | _ \<Rightarrow> hs)"

section \<open>Interleavings\<close>

datatype handler_event =
    Watch watch_event
  | Store_order string watch_order order_details
  | Xlm_request xlm_request int
  | Manual_request manual_request
  | Balance_answers nat "nat \<Rightarrow> rpc_error + int" int
  | Lookup_answers nat "string + payment_op list" "string list option" int
  | Continue nat int

fun deliver_wait :: "nat \<Rightarrow> relay_reply \<Rightarrow> request_phase \<Rightarrow> request_phase" where
  "deliver_wait oid reply (Releasing w) = Releasing (deliver oid reply w)"
| "deliver_wait oid reply (Refunding k w) = Refunding k (deliver oid reply w)"
| "deliver_wait oid reply ph = ph"

text \<open>What an event of the watchdog's world does to the requests: replies are delivered, a restart ends
  the process, a stored order replaces the object.\<close>

definition requests_after :: "(string \<Rightarrow> string) \<Rightarrow> relay_config \<Rightarrow> watch_event \<Rightarrow> handler_system \<Rightarrow> relay_request list" where
  "requests_after sha rcfg ev hs =
    (case ev of
       Tracker_event e \<Rightarrow>
         (let reply = fst (relay_step sha rcfg e (ws_tracker (hs_watch hs)))
          in if e = Restart then []
             else case target e of
               Some oid \<Rightarrow> if ended reply then map (\<lambda>r. r\<lparr>rq_phase := deliver_wait oid reply (rq_phase r)\<rparr>) (hs_requests hs)
                 else hs_requests hs
             | None \<Rightarrow> hs_requests hs)
     | New_order orderId order \<Rightarrow> map (\<lambda>r. if rq_orderId r = orderId then r\<lparr>rq_attached := False\<rparr> else r) (hs_requests hs)
     | _ \<Rightarrow> hs_requests hs)"

definition watch_event_step :: "(string \<Rightarrow> string) \<Rightarrow> relay_config \<Rightarrow> watchdog_config \<Rightarrow> watch_event \<Rightarrow> handler_system
    \<Rightarrow> handler_system" where
  "watch_event_step sha rcfg wcfg ev hs =
    hs\<lparr>hs_watch := watch_step sha rcfg wcfg ev (hs_watch hs), hs_requests := requests_after sha rcfg ev hs\<rparr>"

definition handler_step :: "(string \<Rightarrow> string) \<Rightarrow> relay_config \<Rightarrow> watchdog_config \<Rightarrow> handler_config \<Rightarrow> handler_event
    \<Rightarrow> handler_system \<Rightarrow> handler_system" where
  "handler_step sha rcfg wcfg cfg ev hs =
    (case ev of
       Watch e \<Rightarrow> watch_event_step sha rcfg wcfg e hs
     | Store_order orderId order d \<Rightarrow>
         (watch_event_step sha rcfg wcfg (New_order orderId order) hs)\<lparr>hs_details := AList.update orderId d (hs_details hs)\<rparr>
     | Xlm_request req now \<Rightarrow> xlm_to_eth sha rcfg cfg now req hs
     | Manual_request req \<Rightarrow> manual_refund cfg req hs
     | Balance_answers rid answers now \<Rightarrow>
         if rid < length (hs_requests hs) \<and> rq_phase (hs_requests hs ! rid) = Await_balance
         then balance_settled sha rcfg cfg answers now rid hs else hs
     | Lookup_answers rid payments memos now \<Rightarrow>
         if rid < length (hs_requests hs) \<and> rq_phase (hs_requests hs ! rid) = Await_lookup
         then lookup_settled sha rcfg cfg payments memos now rid hs else hs
     | Continue rid now \<Rightarrow>
         if rid < length (hs_requests hs)
         then (case rq_phase (hs_requests hs ! rid) of
             Releasing (Answer reply) \<Rightarrow> release_settled sha rcfg cfg reply now rid hs
           | Refunding kind (Answer reply) \<Rightarrow> refund_settled kind reply now rid hs
           | _ \<Rightarrow> hs)
         else hs)"

definition handler_run :: "(string \<Rightarrow> string) \<Rightarrow> relay_config \<Rightarrow> watchdog_config \<Rightarrow> handler_config \<Rightarrow> handler_event list
    \<Rightarrow> handler_system" where
  "handler_run sha rcfg wcfg cfg evs = fold (handler_step sha rcfg wcfg cfg) evs
    \<lparr>hs_watch = \<lparr>ws_tracker = fresh_tracker sha rcfg, ws_orders = [], ws_waiting = []\<rparr>, hs_details = [], hs_requests = []\<rparr>"

end
