(* ===== verification/Relay_Payouts.thy ===== *)
theory Relay_Payouts
  imports Relay_Handlers
begin

text \<open>
  What the payout handlers guarantee over all interleavings of requests, scans of the watchdog, answers
  and events of the tracker: a reply that reports a payout tells the truth and names the only one, and
  the payment a client claims to have made has no influence on what is paid.
\<close>

section \<open>Requests and the tracker\<close>

definition payout_key :: "(string \<Rightarrow> string) \<Rightarrow> string \<Rightarrow> bool \<Rightarrow> string" where
  "payout_key sha orderId release =
    ''xlm_to_eth:'' @ (if release then ''claim'' else ''refund'') @ '':'' @ humanizeOrderId orderId @ ''#''
      @ shortDigest sha (stableStringify_string orderId)"

lemma payout_key: "computeSubmissionKey sha (payout_action r release amount) = payout_key sha (rq_orderId r) release"
  by (simp add: computeSubmissionKey_def payout_action_def payout_key_def)

definition settled_as :: "string \<Rightarrow> string option \<Rightarrow> tracker \<Rightarrow> bool" where
  "settled_as k h t \<longleftrightarrow> (\<exists>oid. (k, oid) \<in> set (records t) \<and> sr_status (heap t ! oid) = SucceededTx
     \<and> sr_txHash (heap t ! oid) = h)"

definition waits :: "tracker \<Rightarrow> string \<Rightarrow> wait \<Rightarrow> bool" where
  "waits t k w \<longleftrightarrow> (case w of
       On oid \<Rightarrow> oid \<in> running t \<and> sr_key (heap t ! oid) = k
     | Joined oid \<Rightarrow> oid \<in> running t \<and> sr_key (heap t ! oid) = k
     | Answer reply \<Rightarrow> (case reply of Resolved out \<Rightarrow> settled_as k (ro_txHash out) t | _ \<Rightarrow> True))"

text \<open>The payout a reply reports: whether it is a release, and its hash.\<close>

fun payout_of :: "handler_reply \<Rightarrow> (bool \<times> string option) option" where
  "payout_of (Eth_sent h) = Some (True, h)"
| "payout_of (Release_failed e (Refund_completed h)) = Some (False, h)"
| "payout_of (Refund_paid h amount dup) = Some (False, h)"
| "payout_of _ = None"

definition phase_true :: "(string \<Rightarrow> string) \<Rightarrow> tracker \<Rightarrow> string \<Rightarrow> request_phase \<Rightarrow> bool" where
  "phase_true sha t orderId ph \<longleftrightarrow> (case ph of
       Releasing w \<Rightarrow> waits t (payout_key sha orderId True) w
     | Refunding kind w \<Rightarrow> waits t (payout_key sha orderId False) w
     | Replied reply \<Rightarrow> (case payout_of reply of None \<Rightarrow> True | Some (release, h) \<Rightarrow> settled_as (payout_key sha orderId release) h t)
     | _ \<Rightarrow> True)"

abbreviation tracker_of :: "handler_system \<Rightarrow> tracker" where
  "tracker_of hs \<equiv> ws_tracker (hs_watch hs)"

definition handlers_ok :: "(string \<Rightarrow> string) \<Rightarrow> handler_system \<Rightarrow> bool" where
  "handlers_ok sha hs \<longleftrightarrow> relay_inv (tracker_of hs) \<and> backed (tracker_of hs)
     \<and> (\<forall>r \<in> set (hs_requests hs). phase_true sha (tracker_of hs) (rq_orderId r) (rq_phase r))"

lemma handlers_okD:
  assumes "handlers_ok sha hs"
  shows "relay_inv (tracker_of hs)" "backed (tracker_of hs)"
    "r \<in> set (hs_requests hs) \<Longrightarrow> phase_true sha (tracker_of hs) (rq_orderId r) (rq_phase r)"
  using assms unfolding handlers_ok_def by blast+

lemma settled_advances: "advances tgt reply t t' \<Longrightarrow> settled_as k h t \<Longrightarrow> settled_as k h t'"
  by (fastforce simp: settled_as_def advances_def)

lemma waits_advances:
  "advances tgt reply t t' \<Longrightarrow> waits t k w \<Longrightarrow> \<not> (ended reply \<and> (\<exists>oid. tgt = Some oid \<and> (w = On oid \<or> w = Joined oid))) \<Longrightarrow> waits t' k w"
  using settled_advances[of tgt reply t t'] unfolding advances_def waits_def
  by (auto split: wait.splits relay_reply.splits)

lemma phase_true_advances:
  "advances None reply t t' \<Longrightarrow> phase_true sha t orderId ph \<Longrightarrow> phase_true sha t' orderId ph"
  using settled_advances[of None reply t t'] waits_advances[of None reply t t']
  by (auto simp: phase_true_def split: request_phase.splits option.splits)

text \<open>A step of the tracker that settles no waiting request.\<close>

lemma handlers_ok_tracker:
  assumes "handlers_ok sha hs" "advances None reply (tracker_of hs) (tracker_of hs')" "relay_inv (tracker_of hs')"
    and "\<And>r. r \<in> set (hs_requests hs') \<Longrightarrow> \<exists>r0 \<in> set (hs_requests hs). rq_orderId r = rq_orderId r0 \<and> rq_phase r = rq_phase r0"
  shows "handlers_ok sha hs'"
proof -
  have "backed (tracker_of hs')" using assms(2) handlers_okD(2)[OF assms(1)] by (simp add: advances_def)
  moreover have "phase_true sha (tracker_of hs') (rq_orderId r) (rq_phase r)" if "r \<in> set (hs_requests hs')" for r
    using assms(4)[OF that] handlers_okD(3)[OF assms(1)] phase_true_advances[OF assms(2)] by auto
  ultimately show ?thesis using assms(3) by (simp add: handlers_ok_def)
qed

lemma submit_for_ok:
  assumes "handlers_ok sha hs" "submit_for sha rcfg a now hs = (w, hs')"
  shows "handlers_ok sha hs'" "waits (tracker_of hs') (computeSubmissionKey sha a) w"
    "hs_requests hs' = hs_requests hs"
proof -
  note d = handlers_okD[OF assms(1)]
  obtain reply t' where s: "submit sha rcfg a now (tracker_of hs) = (reply, t')" by force
  then have hs': "hs' = hs\<lparr>hs_watch := (hs_watch hs)\<lparr>ws_tracker := t'\<rparr>\<rparr>" and w: "w = wait_of reply"
    using assms(2) by (simp_all add: submit_for_def)
  have adv: "advances None reply (tracker_of hs) t'" using submit_advances[OF d(1), of sha rcfg a now] s by simp
  have inv: "relay_inv t'" using submit_inv[OF d(1), of sha rcfg a now] s by simp
  show "handlers_ok sha hs'" by (rule handlers_ok_tracker[OF assms(1)]) (use hs' adv inv in auto)
  show "waits (tracker_of hs') (computeSubmissionKey sha a) w"
    using submit_reply[OF d(1) s] w hs'
    by (auto simp: waits_def wait_of_def settles_def settled_as_def split: relay_reply.splits)
  show "hs_requests hs' = hs_requests hs" by (simp add: hs')
qed

lemma put_phase_ok:
  assumes "handlers_ok sha hs" "rid < length (hs_requests hs)"
    and "phase_true sha (tracker_of hs) (rq_orderId (hs_requests hs ! rid)) ph"
  shows "handlers_ok sha (put_phase rid ph hs)"
  using assms by (auto simp: handlers_ok_def put_phase_def dest!: subsetD[OF set_update_subset_insert])

lemma add_request_ok:
  "handlers_ok sha hs \<Longrightarrow> phase_true sha (tracker_of hs) (rq_orderId r) (rq_phase r) \<Longrightarrow> handlers_ok sha (add_request r hs)"
  by (auto simp: handlers_ok_def add_request_def)

lemma mark_frame [simp]:
  "tracker_of (mark_order rid f hs) = tracker_of hs" "hs_requests (mark_order rid f hs) = hs_requests hs"
  "tracker_of (mark_sent rid h hs) = tracker_of hs" "hs_requests (mark_sent rid h hs) = hs_requests hs"
  by (auto simp: mark_sent_def mark_order_def put_order_def Let_def split: option.splits)

lemma handlers_ok_cong:
  "tracker_of hs' = tracker_of hs \<Longrightarrow> hs_requests hs' = hs_requests hs \<Longrightarrow> handlers_ok sha hs' = handlers_ok sha hs"
  by (simp add: handlers_ok_def)

lemma phase_true_simps [simp]:
  "phase_true sha t orderId Await_balance" "phase_true sha t orderId Await_lookup"
  "phase_true sha t orderId (Replied (Error_reply st m))" "phase_true sha t orderId (Replied (Eth_pending h))"
  "phase_true sha t orderId (Replied (Release_failed e (Refund_refused e')))"
  "phase_true sha t orderId (Replied (Refund_pending h))" "phase_true sha t orderId (Replied (Refund_busy er))"
  "phase_true sha t orderId (Replied (Handler_failed e))"
  by (simp_all add: phase_true_def)

section \<open>Every step keeps it\<close>

lemma start_refund_ok:
  assumes "handlers_ok sha hs" "rid < length (hs_requests hs)"
  shows "handlers_ok sha (start_refund sha rcfg cfg now e rid hs)"
proof -
  let ?a = "payout_action (hs_requests hs ! rid) False None"
  obtain w hs' where s: "submit_for sha rcfg ?a now hs = (w, hs')" by force
  note ok = submit_for_ok[OF assms(1) s]
  have "handlers_ok sha (put_phase rid (Refunding (Inline e) w) hs')"
    by (rule put_phase_ok[OF ok(1)]) (use ok(2,3) assms(2) in \<open>simp_all add: payout_key phase_true_def\<close>)
  then show ?thesis using s assms by (auto simp: start_refund_def Let_def intro: put_phase_ok)
qed

lemma book_request_frame:
  "tracker_of (book_request req network normalized now hs) = tracker_of hs"
  "\<exists>r. hs_requests (book_request req network normalized now hs) = hs_requests hs @ [r] \<and> rq_phase r = Await_balance"
  by (simp_all add: book_request_def add_request_def put_order_def xlm_entry_def Let_def)

lemma xlm_to_eth_ok:
  assumes "handlers_ok sha hs"
  shows "handlers_ok sha (xlm_to_eth sha rcfg cfg now req hs)"
proof -
  have booked: "handlers_ok sha (book_request req n a now hs)" "length (hs_requests hs) < length (hs_requests (book_request req n a now hs))"
    for n a using assms book_request_frame[of req n a now hs] by (auto simp: handlers_ok_def)
  have "handlers_ok sha (prepare_release sha rcfg cfg n now (length (hs_requests hs)) (book_request req n a now hs))" for n a
    using booked[of n a] start_refund_ok[OF booked]
    by (auto simp: prepare_release_def Let_def split: option.splits sum.splits intro!: put_phase_ok)
  moreover have "handlers_ok sha (add_request (xlm_entry req n [] [] no_details (Replied (Error_reply st m))) hs)" for n st m
    by (rule add_request_ok[OF assms]) (simp add: xlm_entry_def)
  ultimately show ?thesis by (simp add: xlm_to_eth_def Let_def split: sum.split)
qed

lemma balance_settled_ok:
  assumes "handlers_ok sha hs" "rid < length (hs_requests hs)"
  shows "handlers_ok sha (balance_settled sha rcfg cfg answers now rid hs)"
proof -
  have release: "handlers_ok sha (put_phase rid (Releasing w) hs')"
    if s: "submit_for sha rcfg (payout_action (hs_requests hs ! rid) True amount) now hs = (w, hs')" for w hs' amount
    by (rule put_phase_ok[OF submit_for_ok(1)[OF assms(1) s]])
      (use submit_for_ok(2,3)[OF assms(1) s] assms(2) in \<open>simp_all add: payout_key phase_true_def\<close>)
  show ?thesis
    using assms start_refund_ok[OF assms] release
    by (auto simp: balance_settled_def submit_release_def Let_def intro!: put_phase_ok split: sum.splits prod.splits)
qed

lemma manual_refund_ok: "handlers_ok sha hs \<Longrightarrow> handlers_ok sha (manual_refund cfg req hs)"
  unfolding manual_refund_def Let_def by (auto intro!: add_request_ok split: option.splits sum.splits)

lemma lookup_settled_ok:
  assumes "handlers_ok sha hs" "rid < length (hs_requests hs)"
  shows "handlers_ok sha (lookup_settled sha rcfg cfg payments memos now rid hs)"
proof -
  have refund: "handlers_ok sha (put_phase rid (Refunding (Manual a) w) hs')"
    if s: "submit_for sha rcfg (payout_action (hs_requests hs ! rid) False amount) now hs = (w, hs')" for w hs' amount a
    by (rule put_phase_ok[OF submit_for_ok(1)[OF assms(1) s]])
      (use submit_for_ok(2,3)[OF assms(1) s] assms(2) in \<open>simp_all add: payout_key phase_true_def\<close>)
  show ?thesis
    using assms refund by (auto simp: lookup_settled_def Let_def intro!: put_phase_ok split: sum.splits prod.splits option.splits)
qed

lemma continue_ok:
  assumes "handlers_ok sha hs" "rid < length (hs_requests hs)"
  shows "rq_phase (hs_requests hs ! rid) = Releasing (Answer reply) \<Longrightarrow>
      handlers_ok sha (release_settled sha rcfg cfg reply now rid hs)"
    and "rq_phase (hs_requests hs ! rid) = Refunding kind (Answer reply) \<Longrightarrow>
      handlers_ok sha (refund_settled kind reply now rid hs)"
proof -
  have ph: "phase_true sha (tracker_of hs) (rq_orderId (hs_requests hs ! rid)) (rq_phase (hs_requests hs ! rid))"
    using handlers_okD(3)[OF assms(1)] assms(2) by simp
  have put: "handlers_ok sha (put_phase rid ph hs')"
    if "tracker_of hs' = tracker_of hs" "hs_requests hs' = hs_requests hs"
      "phase_true sha (tracker_of hs) (rq_orderId (hs_requests hs ! rid)) ph" for hs' ph
    using that assms handlers_ok_cong[OF that(1,2)] by (intro put_phase_ok) simp_all
  show "rq_phase (hs_requests hs ! rid) = Releasing (Answer reply) \<Longrightarrow>
      handlers_ok sha (release_settled sha rcfg cfg reply now rid hs)"
    using ph assms start_refund_ok[OF assms]
    by (auto simp: release_settled_def phase_true_def waits_def intro!: put split: relay_reply.splits relay_error.splits)
  show "rq_phase (hs_requests hs ! rid) = Refunding kind (Answer reply) \<Longrightarrow>
      handlers_ok sha (refund_settled kind reply now rid hs)"
    using ph assms
    by (cases kind; cases reply)
      (auto simp: refund_settled_def phase_true_def waits_def intro!: put split: relay_error.splits)
qed

text \<open>Events of the watchdog's world: within one life of the process.\<close>

fun live_handler :: "handler_event \<Rightarrow> bool" where
  "live_handler (Watch (Tracker_event ev)) \<longleftrightarrow> live_event ev"
| "live_handler _ \<longleftrightarrow> True"

lemma put_order_tracker [simp]: "ws_tracker (put_order orderId order s) = ws_tracker s"
  by (simp add: put_order_def)

lemma scan_tracker:
  assumes "relay_inv (ws_tracker s)"
  shows "\<exists>reply. advances None reply (ws_tracker s) (ws_tracker (scan_order sha rcfg wcfg now orderId s))
    \<and> relay_inv (ws_tracker (scan_order sha rcfg wcfg now orderId s))"
proof (cases "map_of (ws_orders s) orderId")
  case None
  then show ?thesis using assms by (auto simp: scan_order_def intro!: exI[of _ Idle] advances_same)
next
  case (Some order)
  let ?a = "watchdogRefundAction orderId order (wc_networkMode wcfg)"
  have "advances None Idle (ws_tracker s) (ws_tracker s)" by (rule advances_same) simp_all
  moreover have "ws_tracker (scan_order sha rcfg wcfg now orderId s) \<in> {ws_tracker s, snd (submit sha rcfg ?a now (ws_tracker s))}"
    using Some by (auto simp: scan_order_def Let_def split: relay_reply.splits prod.splits)
  ultimately show ?thesis
    using submit_advances[OF assms, of sha rcfg ?a now] submit_inv[OF assms, of sha rcfg ?a now] assms
    by (metis empty_iff insert_iff)
qed

lemma watch_event_ok:
  assumes ok: "handlers_ok sha hs" and live: "live_handler (Watch ev)"
  shows "handlers_ok sha (watch_event_step sha rcfg wcfg ev hs)"
proof (cases ev)
  case (Tracker_event e)
  note d = handlers_okD[OF ok]
  have l: "live_event e" "e \<noteq> Restart" using live Tracker_event by auto
  obtain reply t' where r: "relay_step sha rcfg e (tracker_of hs) = (reply, t')" by force
  have adv: "advances (target e) reply (tracker_of hs) t'" using step_advances[OF d(1) l(1), of sha rcfg] r by simp
  have inv: "relay_inv t'" using step_inv[OF d(1), of e sha rcfg] l r by (cases e) simp_all
  have tr: "tracker_of (watch_event_step sha rcfg wcfg ev hs) = t'"
    using r l(2) Tracker_event
    by (auto simp: watch_event_step_def watch_step_def tracker_event_def settle_waiting_def Let_def split: option.splits)
  have wired: "backed t'" using adv d(2) by (simp add: advances_def)
  have deliver: "phase_true sha t' orderId (deliver_wait oid reply ph)"
    if m: "phase_true sha (tracker_of hs) orderId ph" "target e = Some oid" "ended reply" for orderId oid ph
  proof -
    have w: "waits t' k (deliver oid reply w)" if wait: "waits (tracker_of hs) k w" for k w
    proof (cases "w = On oid \<or> w = Joined oid")
      case True
      have "settles k out t'" if "reply = Resolved out" for out
        using step_reply[OF d(1) m(2), of sha rcfg out] r that wait True by (auto simp: waits_def)
      then show ?thesis using True m(3) by (cases reply) (auto simp: waits_def settles_def settled_as_def)
    next
      case False
      then have "deliver oid reply w = w" by (cases w) auto
      then show ?thesis using waits_advances[OF adv wait] m(2) False by auto
    qed
    show ?thesis using m(1) w settled_advances[OF adv]
      by (cases ph) (auto simp: phase_true_def split: option.splits)
  qed
  have keep: "phase_true sha t' orderId ph"
    if m: "phase_true sha (tracker_of hs) orderId ph" "target e = None \<or> \<not> ended reply" for orderId ph
    using m settled_advances[OF adv] waits_advances[OF adv]
    by (auto simp: phase_true_def split: request_phase.splits option.splits)
  have "phase_true sha t' (rq_orderId r) (rq_phase r)" if "r \<in> set (requests_after sha rcfg ev hs)" for r
    using that d(3) deliver keep r l(2) Tracker_event
    by (auto simp: requests_after_def Let_def split: option.splits if_splits)
  then show ?thesis using tr wired inv by (simp add: handlers_ok_def watch_event_step_def)
next
  case (Scan orderId now)
  obtain reply where "advances None reply (tracker_of hs) (tracker_of (watch_event_step sha rcfg wcfg ev hs))"
      "relay_inv (tracker_of (watch_event_step sha rcfg wcfg ev hs))"
    using scan_tracker[OF handlers_okD(1)[OF ok], of sha rcfg wcfg now orderId] Scan
    by (auto simp: watch_event_step_def watch_step_def)
  then show ?thesis by (rule handlers_ok_tracker[OF ok]) (auto simp: watch_event_step_def requests_after_def Scan)
qed (use ok in \<open>auto simp: handlers_ok_def watch_event_step_def watch_step_def requests_after_def split: option.splits\<close>)

lemma handler_step_ok:
  assumes "handlers_ok sha hs" "live_handler ev"
  shows "handlers_ok sha (handler_step sha rcfg wcfg cfg ev hs)"
proof (cases ev)
  case (Store_order orderId order d)
  have "handlers_ok sha (watch_event_step sha rcfg wcfg (New_order orderId order) hs)"
    by (rule watch_event_ok[OF assms(1)]) simp
  then show ?thesis using Store_order by (simp add: handler_step_def handlers_ok_def)
next
  case (Continue rid now)
  then show ?thesis using assms continue_ok[OF assms(1)]
    by (auto simp: handler_step_def split: request_phase.splits wait.splits)
qed (use assms watch_event_ok[OF assms(1)] xlm_to_eth_ok[OF assms(1)] manual_refund_ok[OF assms(1)]
    balance_settled_ok[OF assms(1)] lookup_settled_ok[OF assms(1)] in \<open>simp_all add: handler_step_def\<close>)

lemma handler_run_ok: "list_all live_handler evs \<Longrightarrow> handlers_ok sha (handler_run sha rcfg wcfg cfg evs)"
proof (induction evs rule: rev_induct)
  case Nil
  have "records (fresh_tracker sha rcfg) = []" by (simp add: fresh_tracker_def boot_def restore_def)
  then show ?case using fresh_tracker_inv by (simp add: handler_run_def handlers_ok_def backed_def)
next
  case (snoc ev evs)
  then show ?case by (simp add: handler_run_def handler_step_ok)
qed

text \<open>C21: A reply that reports a payout tells the truth. However requests for releases and refunds, scans
  of the watchdog, answers of the chains and events of the tracker interleave within one life of the
  process, the hash in the reply is that of the one transaction broadcast for that payout of the
  order; its record is settled, and every other submission for the order is dead. So an order whose
  ETH was released is not refunded as well, whichever of the three ways the refund is asked for.\<close>

theorem payout_reply_is_the_only_payout:
  assumes "list_all live_handler evs" "r \<in> set (hs_requests (handler_run sha rcfg wcfg cfg evs))"
    and "rq_phase r = Replied reply" "payout_of reply = Some (release, h)"
  defines "t \<equiv> tracker_of (handler_run sha rcfg wcfg cfg evs)" and "k \<equiv> payout_key sha (rq_orderId r) release"
  shows "\<exists>x rec. h = Some x \<and> filter (\<lambda>w. fst w = k) (wire t) = [(k, x)]
    \<and> getRecord k t = Some rec \<and> sr_status rec = SucceededTx
    \<and> (\<forall>k' rec'. getRecord k' t = Some rec' \<and> sr_orderKey rec' = sr_orderKey rec \<and> k' \<noteq> k \<longrightarrow> sr_status rec' = FailedTx)"
proof -
  note d = handlers_okD[OF handler_run_ok[OF assms(1), of sha rcfg wcfg cfg], folded t_def]
  note c = relay_coreD[OF d(1)[unfolded relay_inv_def]]
  obtain oid where oid: "(k, oid) \<in> set (records t)" "sr_status (heap t ! oid) = SucceededTx" "sr_txHash (heap t ! oid) = h"
    using d(3)[OF assms(2)] assms(3,4) by (auto simp: phase_true_def settled_as_def k_def)
  then obtain x where x: "h = Some x" "(k, x) \<in> set (wire t)" using backedD[OF d(2) oid(1)] by auto
  from filter_unique_key[OF c(6) x(2)] have "filter (\<lambda>w. fst w = k) (wire t) = [(k, x)]" .
  moreover have "getRecord k t = Some (heap t ! oid)" by (rule relay_inv_getRecord[OF d(1) oid(1)])
  moreover have "sr_status rec' = FailedTx"
    if "getRecord k' t = Some rec'" "sr_orderKey rec' = sr_orderKey (heap t ! oid)" "k' \<noteq> k" for k' rec'
  proof -
    from getRecordD[OF that(1)] obtain oid' where "(k', oid') \<in> set (records t)" "rec' = heap t ! oid'" by blast
    then show ?thesis using c(5)[of k' oid' k oid] oid \<open>k' \<noteq> k\<close> that(2) by auto
  qed
  ultimately show ?thesis using x(1) oid(2) by blast
qed

section \<open>Samples\<close>

definition sample_handlers :: handler_config where
  "sample_handlers = \<lparr>hc_env = (\<lambda>v. if v = ''RELAYER_PRIVATE_KEY'' \<or> v = ''RELAYER_STELLAR_SECRET'' then Some ''k'' else None),
     hc_timelockGap = 600, hc_getAddress = Inr, hc_wallet = (\<lambda>_. Inr ()), hc_publicKey = Inr,
     hc_formatEther = Inr, hc_parseEther = (\<lambda>_. Inr 1000), hc_wide = (\<lambda>_. [])\<rparr>"

definition sample_request :: "string \<Rightarrow> xlm_request" where
  "sample_request orderId = \<lparr>xr_orderId = Some orderId, xr_stellarTxHash = Some ''x1'', xr_stellarAddress = Some ''G1'',
     xr_ethAddress = Some ''0xab'', xr_networkMode = Some ''testnet'', xr_queryNetwork = None\<rparr>"

definition sample_order :: watch_order where
  "sample_order = \<lparr>wo_orderId = None, wo_direction = Some ''xlm_to_eth'', wo_status = Some ''awaiting_xlm_payment'',
     wo_stellarAddress = None, wo_stellarTxHash = None, wo_xlmReceivedAt = None, wo_created = None, wo_amount = None,
     wo_networkMode = None, wo_refundTxHash = None, wo_refundedAt = None, wo_watchdogFailedAt = None,
     wo_watchdogFailureReason = None\<rparr>"

text \<open>One order from its request to the reply; \<open>rid\<close> and \<open>oid\<close> number the request and the operation.\<close>

definition release_events :: "string \<Rightarrow> string \<Rightarrow> nat \<Rightarrow> handler_event list" where
  "release_events orderId txHash n =
    [Store_order orderId sample_order sample_details, Xlm_request (sample_request orderId) 100,
     Balance_answers n (\<lambda>_. Inr 2000000000000000) 101,
     Watch (Tracker_event (Stager_answers n (Inr \<lparr>st_txHash = txHash, st_network = None\<rparr>) 102)),
     Watch (Tracker_event (Broadcast_answers n (Inr JNull) 103)), Continue n 104]"

abbreviation sample_run :: "handler_event list \<Rightarrow> handler_system" where
  "sample_run \<equiv> handler_run (\<lambda>s. s) sample_cfg sample_watchdog sample_handlers"

theorem payout_reply_is_the_only_payout_witness:
  "map snd (filter (\<lambda>w. fst w = payout_key (\<lambda>s. s) ''o1'' True) (wire (tracker_of (sample_run (release_events ''o1'' ''e1'' 0))))) = [''e1'']"
proof -
  let ?hs = "sample_run (release_events ''o1'' ''e1'' 0)"
  have "list_all live_handler (release_events ''o1'' ''e1'' 0)" by (simp add: release_events_def)
  moreover have "map (\<lambda>r. (rq_orderId r, rq_phase r)) (hs_requests ?hs) = [(''o1'', Replied (Eth_sent (Some ''e1'')))]" by code_simp
  then obtain r where "r \<in> set (hs_requests ?hs)" "rq_orderId r = ''o1''" "rq_phase r = Replied (Eth_sent (Some ''e1''))" by auto
  ultimately show ?thesis
    using payout_reply_is_the_only_payout[of "release_events ''o1'' ''e1'' 0" r "\<lambda>s. s" sample_cfg sample_watchdog sample_handlers
        "Eth_sent (Some ''e1'')" True "Some ''e1''"] by auto
qed

text \<open>Two orders that name one payment are both released, with nobody having looked at the payment.\<close>

lemma one_payment_two_releases:
  "map (\<lambda>r. (rq_stellarTxHash r, rq_phase r)) (hs_requests (sample_run (release_events ''o1'' ''e1'' 0 @ release_events ''o2'' ''e2'' 1)))
    = [(''x1'', Replied (Eth_sent (Some ''e1''))), (''x1'', Replied (Eth_sent (Some ''e2'')))]
   \<and> map snd (wire (tracker_of (sample_run (release_events ''o1'' ''e1'' 0 @ release_events ''o2'' ''e2'' 1)))) = [''e1'', ''e2'']"
  by code_simp

end
