(* ===== verification/Payment_Blindness.thy ===== *)
theory Payment_Blindness
  imports Relay_Payouts
begin

text \<open>
  The handler of \<open>xlm-to-eth\<close> stores the Stellar transaction hash that the client names and never looks it up: with the answers of the
  stagers and the nodes held fixed, two runs that differ only in these hashes do the same, up to the hashes they store.

  The answers of the stagers are events of a run. The stager of a release does not see the hash either; the stager of a refund does: it
  looks the payment up to size the refund (\<open>xlm-refund.ts\<close>, \<open>refund_amount\<close> of \<open>Payout_Amounts\<close>), so that for refunds the
  answers need not be the same for other hashes.
\<close>

section \<open>Renaming the payments of a run\<close>

definition rehash_order :: "(string \<Rightarrow> string) \<Rightarrow> watch_order \<Rightarrow> watch_order" where
  "rehash_order f order = order\<lparr>wo_stellarTxHash := map_option f (wo_stellarTxHash order)\<rparr>"

abbreviation rehash_orders :: "(string \<Rightarrow> string) \<Rightarrow> (string \<times> watch_order) list \<Rightarrow> (string \<times> watch_order) list" where
  "rehash_orders f \<equiv> map (\<lambda>(orderId, order). (orderId, rehash_order f order))"

definition rehash_watch :: "(string \<Rightarrow> string) \<Rightarrow> watchdog_system \<Rightarrow> watchdog_system" where
  "rehash_watch f s = s\<lparr>ws_orders := rehash_orders f (ws_orders s)\<rparr>"

definition rehash_request :: "(string \<Rightarrow> string) \<Rightarrow> relay_request \<Rightarrow> relay_request" where
  "rehash_request f r = r\<lparr>rq_stellarTxHash := f (rq_stellarTxHash r)\<rparr>"

definition rehash :: "(string \<Rightarrow> string) \<Rightarrow> handler_system \<Rightarrow> handler_system" where
  "rehash f hs = hs\<lparr>hs_watch := rehash_watch f (hs_watch hs), hs_requests := map (rehash_request f) (hs_requests hs)\<rparr>"

fun rehash_event :: "(string \<Rightarrow> string) \<Rightarrow> handler_event \<Rightarrow> handler_event" where
  "rehash_event f (Watch (New_order orderId order)) = Watch (New_order orderId (rehash_order f order))"
| "rehash_event f (Store_order orderId order d) = Store_order orderId (rehash_order f order) d"
| "rehash_event f (Xlm_request req now) = Xlm_request (req\<lparr>xr_stellarTxHash := map_option f (xr_stellarTxHash req)\<rparr>) now"
| "rehash_event f ev = ev"

fun is_manual :: "handler_event \<Rightarrow> bool" where
  "is_manual (Manual_request req) \<longleftrightarrow> True"
| "is_manual (Lookup_answers rid payments memos now) \<longleftrightarrow> True"
| "is_manual _ \<longleftrightarrow> False"

definition keeps_empty :: "(string \<Rightarrow> string) \<Rightarrow> bool" where
  "keeps_empty f \<longleftrightarrow> (\<forall>h. f h = [] \<longleftrightarrow> h = [])"

named_theorems rehash_simps

lemma rehash_order_sel [rehash_simps]:
  "wo_orderId (rehash_order f x) = wo_orderId x" "wo_direction (rehash_order f x) = wo_direction x"
  "wo_status (rehash_order f x) = wo_status x" "wo_stellarAddress (rehash_order f x) = wo_stellarAddress x"
  "wo_stellarTxHash (rehash_order f x) = map_option f (wo_stellarTxHash x)"
  "wo_xlmReceivedAt (rehash_order f x) = wo_xlmReceivedAt x" "wo_created (rehash_order f x) = wo_created x"
  "wo_amount (rehash_order f x) = wo_amount x" "wo_networkMode (rehash_order f x) = wo_networkMode x"
  "wo_refundTxHash (rehash_order f x) = wo_refundTxHash x" "wo_refundedAt (rehash_order f x) = wo_refundedAt x"
  "wo_watchdogFailedAt (rehash_order f x) = wo_watchdogFailedAt x"
  by (simp_all add: rehash_order_def)

lemma rehash_sel [rehash_simps]:
  "ws_tracker (rehash_watch f s) = ws_tracker s" "ws_waiting (rehash_watch f s) = ws_waiting s"
  "ws_orders (rehash_watch f s) = rehash_orders f (ws_orders s)"
  "hs_watch (rehash f hs) = rehash_watch f (hs_watch hs)" "hs_details (rehash f hs) = hs_details hs"
  "hs_requests (rehash f hs) = map (rehash_request f) (hs_requests hs)"
  "rq_orderId (rehash_request f r) = rq_orderId r" "rq_phase (rehash_request f r) = rq_phase r"
  "rq_attached (rehash_request f r) = rq_attached r" "rq_network (rehash_request f r) = rq_network r"
  "rq_details (rehash_request f r) = rq_details r" "rq_orderAmount (rehash_request f r) = rq_orderAmount r"
  by (simp_all add: rehash_watch_def rehash_def rehash_request_def)

lemma rehash_lookup [rehash_simps]: "map_of (rehash_orders f xs) k = map_option (rehash_order f) (map_of xs k)"
  by (induction xs) auto

lemma rehash_update: "rehash_orders f (AList.update k x xs) = AList.update k (rehash_order f x) (rehash_orders f xs)"
  by (induction xs) auto

lemma truthy_map [rehash_simps]: "keeps_empty f \<Longrightarrow> truthy (map_option f v) = truthy v"
  by (cases v) (auto simp: truthy_def keeps_empty_def)

lemma rehash_empty: "keeps_empty f \<Longrightarrow> f [] = []"
  by (simp add: keeps_empty_def)

lemma payout_action_rehash [rehash_simps]: "payout_action (rehash_request f r) release amount = payout_action r release amount"
  by (simp add: payout_action_def rehash_request_def)

section \<open>The watchdog\<close>

lemma put_order_rehash: "put_order k (rehash_order f x) (rehash_watch f s) = rehash_watch f (put_order k x s)"
  by (simp add: put_order_def rehash_watch_def rehash_update)

lemma watchdog_settle_rehash: "watchdog_settle reply now (rehash_order f x) = rehash_order f (watchdog_settle reply now x)"
  by (simp add: watchdog_settle_def watchdog_failed_def rehash_order_def Let_def split: relay_reply.splits relay_error.splits)

lemma scan_rehash:
  assumes "keeps_empty f"
  shows "scan_order sha rcfg wcfg now k (rehash_watch f s) = rehash_watch f (scan_order sha rcfg wcfg now k s)"
proof (cases "map_of (ws_orders s) k")
  case (Some order)
  have a: "watchdogRefundAction k (rehash_order f order) m = watchdogRefundAction k order m" for m
    by (simp add: watchdogRefundAction_def rehash_simps)
  have d: "watchdog_due wcfg now (rehash_order f order) = watchdog_due wcfg now order"
    by (simp add: watchdog_due_def isXlmToEthAwaitingEth_def startedAt_def rehash_simps assms split: option.split)
  obtain reply t' where s: "submit sha rcfg (watchdogRefundAction k order (wc_networkMode wcfg)) now (ws_tracker s) = (reply, t')"
    by force
  have upd: "(rehash_watch f s)\<lparr>ws_tracker := t'\<rparr> = rehash_watch f (s\<lparr>ws_tracker := t'\<rparr>)" by (simp add: rehash_watch_def)
  have wait: "(rehash_watch f s')\<lparr>ws_waiting := w\<rparr> = rehash_watch f (s'\<lparr>ws_waiting := w\<rparr>)" for s' w by (simp add: rehash_watch_def)
  show ?thesis
    using Some a d s
    by (simp add: scan_order_def rehash_simps Let_def upd wait watchdog_settle_rehash put_order_rehash split: relay_reply.split)
qed (simp add: scan_order_def rehash_simps)

lemma watch_step_rehash:
  assumes "keeps_empty f" "\<And>k x. ev \<noteq> New_order k x"
  shows "watch_step sha rcfg wcfg ev (rehash_watch f s) = rehash_watch f (watch_step sha rcfg wcfg ev s)"
proof (cases ev)
  case (Order_status k st)
  have "(rehash_order f x)\<lparr>wo_status := Some st\<rparr> = rehash_order f (x\<lparr>wo_status := Some st\<rparr>)" for x by (simp add: rehash_order_def)
  then show ?thesis using Order_status by (simp add: watch_step_def rehash_simps put_order_rehash split: option.split)
next
  case (Expire_abandoned now)
  have "abandoned now m (rehash_order f x) = abandoned now m x" for m x by (simp add: abandoned_def rehash_simps)
  moreover have "(rehash_order f x)\<lparr>wo_status := st\<rparr> = rehash_order f (x\<lparr>wo_status := st\<rparr>)" for x st by (simp add: rehash_order_def)
  ultimately show ?thesis using Expire_abandoned
    by (auto simp: watch_step_def expireAbandonedOrders_def rehash_watch_def comp_def split_beta if_distrib)
next
  case (Tracker_event e)
  then show ?thesis
    by (auto simp: watch_step_def tracker_event_def settle_waiting_def rehash_watch_def Let_def watchdog_settle_rehash
        split: option.split prod.split)
qed (use assms scan_rehash in \<open>simp_all add: watch_step_def\<close>)

lemma requests_after_rehash:
  "(\<And>k x. ev \<noteq> New_order k x) \<Longrightarrow>
    requests_after sha rcfg ev (rehash f hs) = map (rehash_request f) (requests_after sha rcfg ev hs)"
  by (cases ev) (auto simp: requests_after_def rehash_simps Let_def rehash_request_def split: option.split)

lemma watch_event_step_rehash:
  assumes "keeps_empty f"
  shows "watch_event_step sha rcfg wcfg ev (rehash f hs) = rehash f (watch_event_step sha rcfg wcfg ev hs) \<or> (\<exists>k x. ev = New_order k x)"
  using watch_step_rehash[OF assms, of ev] requests_after_rehash[of ev]
  by (auto simp: watch_event_step_def rehash_def rehash_simps)

lemma new_order_rehash:
  "watch_event_step sha rcfg wcfg (New_order k (rehash_order f x)) (rehash f hs)
    = rehash f (watch_event_step sha rcfg wcfg (New_order k x) hs)"
  by (auto simp: watch_event_step_def watch_step_def requests_after_def rehash_def rehash_watch_def rehash_request_def
      put_order_def rehash_update)

section \<open>The handlers\<close>

lemma put_phase_rehash:
  assumes "rid < length (hs_requests hs)"
  shows "put_phase rid ph (rehash f hs) = rehash f (put_phase rid ph hs)"
proof -
  have "(rehash_request f r)\<lparr>rq_phase := ph\<rparr> = rehash_request f (r\<lparr>rq_phase := ph\<rparr>)" for r by (simp add: rehash_request_def)
  then show ?thesis using assms by (simp add: put_phase_def rehash_def map_update)
qed

lemma submit_for_rehash:
  "submit_for sha rcfg a now (rehash f hs) = apsnd (rehash f) (submit_for sha rcfg a now hs)"
  by (simp add: submit_for_def rehash_def rehash_watch_def split_beta)

lemma submit_for_requests: "hs_requests (snd (submit_for sha rcfg a now hs)) = hs_requests hs"
  by (simp add: submit_for_def split_beta)

lemma start_refund_rehash:
  assumes "rid < length (hs_requests hs)"
  shows "start_refund sha rcfg cfg now e rid (rehash f hs) = rehash f (start_refund sha rcfg cfg now e rid hs)"
  using assms submit_for_requests[of sha rcfg "payout_action (hs_requests hs ! rid) False None" now hs]
  by (simp add: start_refund_def Let_def rehash_simps put_phase_rehash submit_for_rehash split_beta)

lemma submit_release_rehash:
  assumes "rid < length (hs_requests hs)"
  shows "submit_release sha rcfg cfg balance (rehash_request f r) now rid (rehash f hs)
    = rehash f (submit_release sha rcfg cfg balance r now rid hs)"
  using assms submit_for_requests[of sha rcfg "payout_action r True a" now hs for a]
  by (simp add: submit_release_def rehash_simps put_phase_rehash start_refund_rehash submit_for_rehash split_beta split: sum.split)

lemma balance_settled_rehash:
  "rid < length (hs_requests hs) \<Longrightarrow>
    balance_settled sha rcfg cfg answers now rid (rehash f hs) = rehash f (balance_settled sha rcfg cfg answers now rid hs)"
  by (simp add: balance_settled_def rehash_simps start_refund_rehash submit_release_rehash split: sum.split)

lemma book_request_rehash:
  assumes "keeps_empty f"
  shows "book_request (req\<lparr>xr_stellarTxHash := map_option f (xr_stellarTxHash req)\<rparr>) n a now (rehash f hs)
    = rehash f (book_request req n a now hs)"
proof -
  let ?req = "req\<lparr>xr_stellarTxHash := map_option f (xr_stellarTxHash req)\<rparr>"
  let ?k = "or_empty (xr_orderId req)"
  have entry: "xlm_entry ?req n u am d ph = rehash_request f (xlm_entry req n u am d ph)" for u am d ph
    using rehash_empty[OF assms] by (simp add: xlm_entry_def rehash_request_def or_empty_def split: option.split)
  have note_p: "note_payment ?req n now (rehash_order f x) = rehash_order f (note_payment req n now x)" for x
    by (simp add: note_payment_def rehash_order_def)
  have minimal: "minimal_order ?k ?req n now = rehash_order f (minimal_order ?k req n now)"
    by (simp add: minimal_order_def rehash_order_def)
  have details: "stored_details ?k (rehash f hs) = stored_details ?k hs"
    by (simp add: stored_details_def rehash_simps)
  have add: "add_request (rehash_request f r) (hs\<lparr>hs_watch := rehash_watch f w, hs_details := dd, hs_requests := map (rehash_request f) rs\<rparr>)
      = rehash f (add_request r (hs\<lparr>hs_watch := w, hs_details := dd, hs_requests := rs\<rparr>))" for r w dd rs
    by (simp add: add_request_def rehash_def)
  show ?thesis
  proof (cases "map_of (ws_orders (hs_watch hs)) ?k")
    case None
    then show ?thesis
      unfolding book_request_def Let_def
      by (simp add: rehash_simps entry minimal note_p put_order_rehash) (simp add: add_request_def rehash_def)
  next
    case (Some x)
    then show ?thesis
      unfolding book_request_def Let_def
      by (simp add: rehash_simps entry note_p put_order_rehash details) (simp add: add_request_def rehash_def)
  qed
qed

lemma xlm_to_eth_rehash:
  assumes "keeps_empty f"
  shows "xlm_to_eth sha rcfg cfg now (req\<lparr>xr_stellarTxHash := map_option f (xr_stellarTxHash req)\<rparr>) (rehash f hs)
    = rehash f (xlm_to_eth sha rcfg cfg now req hs)"
proof -
  let ?req = "req\<lparr>xr_stellarTxHash := map_option f (xr_stellarTxHash req)\<rparr>"
  have net: "request_network cfg ?req = request_network cfg req" by (simp add: request_network_def)
  have details: "stored_details k (rehash f hs) = stored_details k hs" for k by (simp add: stored_details_def rehash_simps)
  have refuse: "add_request (xlm_entry ?req n u am d ph) (rehash f hs) = rehash f (add_request (xlm_entry req n u am d ph) hs)"
    for n u am d ph
    using rehash_empty[OF assms]
    by (simp add: add_request_def rehash_def xlm_entry_def rehash_request_def or_empty_def split: option.split)
  have prep: "prepare_release sha rcfg cfg n now (length (hs_requests hs)) (rehash f (book_request req n a now hs))
      = rehash f (prepare_release sha rcfg cfg n now (length (hs_requests hs)) (book_request req n a now hs))" for n a
  proof -
    have "length (hs_requests hs) < length (hs_requests (book_request req n a now hs))"
      using book_request_frame(2)[of req n a now hs] by auto
    then show ?thesis
      by (simp add: prepare_release_def Let_def put_phase_rehash start_refund_rehash split: option.split sum.split)
  qed
  show ?thesis
    using book_request_rehash[OF assms]
    by (simp add: xlm_to_eth_def Let_def net details refuse prep truthy_map[OF assms] rehash_sel split: sum.split)
qed

lemma mark_order_rehash:
  assumes "\<And>x. g (rehash_order f x) = rehash_order f (g x)" "rid < length (hs_requests hs)"
  shows "mark_order rid g (rehash f hs) = rehash f (mark_order rid g hs)"
  using assms by (simp add: mark_order_def Let_def rehash_simps rehash_def put_order_rehash split: option.split)

lemma continue_rehash:
  assumes "rid < length (hs_requests hs)"
  shows "release_settled sha rcfg cfg reply now rid (rehash f hs) = rehash f (release_settled sha rcfg cfg reply now rid hs)"
    and "refund_settled kind reply now rid (rehash f hs) = rehash f (refund_settled kind reply now rid hs)"
proof -
  have m: "mark_order rid g (rehash f hs) = rehash f (mark_order rid g hs)" if "\<And>x. g (rehash_order f x) = rehash_order f (g x)" for g
    by (rule mark_order_rehash) (use that assms in auto)
  have sent: "mark_sent rid h (rehash f hs) = rehash f (mark_sent rid h hs)" for h
    using assms m[of "\<lambda>x. x\<lparr>wo_status := Some ''eth_tx_sent''\<rparr>"]
    by (simp add: mark_sent_def rehash_simps rehash_order_def rehash_def)
  show "release_settled sha rcfg cfg reply now rid (rehash f hs) = rehash f (release_settled sha rcfg cfg reply now rid hs)"
    using assms by (simp add: release_settled_def sent put_phase_rehash start_refund_rehash split: relay_reply.split relay_error.split)
  have "mark_order rid (\<lambda>x. x\<lparr>wo_status := st, wo_refundTxHash := h\<rparr>) (rehash f hs) = rehash f (mark_order rid (\<lambda>x. x\<lparr>wo_status := st, wo_refundTxHash := h\<rparr>) hs)"
    "mark_order rid (\<lambda>x. x\<lparr>wo_status := st, wo_refundTxHash := h, wo_refundedAt := u\<rparr>) (rehash f hs)
      = rehash f (mark_order rid (\<lambda>x. x\<lparr>wo_status := st, wo_refundTxHash := h, wo_refundedAt := u\<rparr>) hs)" for st h u
    by (rule m; simp add: rehash_order_def)+
  then show "refund_settled kind reply now rid (rehash f hs) = rehash f (refund_settled kind reply now rid hs)"
    using assms by (simp add: refund_settled_def put_phase_rehash split: refund_kind.split relay_reply.split)
qed

lemma handler_step_rehash:
  assumes "keeps_empty f" "\<not> is_manual ev"
  shows "handler_step sha rcfg wcfg cfg (rehash_event f ev) (rehash f hs) = rehash f (handler_step sha rcfg wcfg cfg ev hs)"
proof (cases ev)
  case (Watch e)
  then show ?thesis
    using watch_event_step_rehash[OF assms(1), of sha rcfg wcfg e hs] new_order_rehash
    by (cases e) (auto simp: handler_step_def)
next
  case (Store_order k x d)
  then show ?thesis using new_order_rehash[of sha rcfg wcfg k f x hs]
    by (simp add: handler_step_def) (simp add: rehash_def watch_event_step_def)
next
  case (Xlm_request req now)
  then show ?thesis using xlm_to_eth_rehash[OF assms(1)] by (simp add: handler_step_def)
next
  case (Balance_answers rid answers now)
  then show ?thesis using balance_settled_rehash by (cases "rid < length (hs_requests hs)") (simp_all add: handler_step_def rehash_simps)
next
  case (Continue rid now)
  then show ?thesis using continue_rehash
    by (cases "rid < length (hs_requests hs)") (simp_all add: handler_step_def rehash_simps split: request_phase.split wait.split)
qed (use assms(2) in simp_all)

lemma handler_run_rehash:
  assumes "keeps_empty f" "\<not> list_ex is_manual evs"
  shows "handler_run sha rcfg wcfg cfg (map (rehash_event f) evs) = rehash f (handler_run sha rcfg wcfg cfg evs)"
  using assms(2)
proof (induction evs rule: rev_induct)
  case Nil
  then show ?case by (simp add: handler_run_def rehash_def rehash_watch_def)
next
  case (snoc ev evs)
  then show ?case using handler_step_rehash[OF assms(1), of ev] by (simp add: handler_run_def)
qed

text \<open>In every run in which no manual refund is asked for, with the same answers of stagers and nodes, replacing the Stellar
  transaction hashes that clients name by any other non-empty ones changes neither which transactions are
  broadcast nor any reply, up to the hash that a reply echoes: the handlers decide on a payment they have never looked at.\<close>

theorem payment_never_checked:
  assumes "\<forall>h. f h = [] \<longleftrightarrow> h = []" "\<not> list_ex is_manual evs"
  shows "(let hs = handler_run sha rcfg wcfg cfg evs; hs' = handler_run sha rcfg wcfg cfg (map (rehash_event f) evs)
    in wire (tracker_of hs') = wire (tracker_of hs) \<and> map rq_phase (hs_requests hs') = map rq_phase (hs_requests hs))"
  using handler_run_rehash[of f evs] assms by (simp add: keeps_empty_def rehash_simps comp_def Let_def)

theorem payment_never_checked_witness:
  "map snd (wire (tracker_of (sample_run (map (rehash_event (\<lambda>h. if h = [] then [] else ''other'')) (release_events ''o1'' ''e1'' 0))))) = [''e1'']"
proof -
  have "\<forall>h. (if h = [] then [] else ''other'') = [] \<longleftrightarrow> h = ([] :: string)" by simp
  moreover have "\<not> list_ex is_manual (release_events ''o1'' ''e1'' 0)" by (simp add: release_events_def)
  moreover have "map snd (wire (tracker_of (sample_run (release_events ''o1'' ''e1'' 0)))) = [''e1'']" by code_simp
  ultimately show ?thesis
    using payment_never_checked[of "\<lambda>h. if h = [] then [] else ''other''" "release_events ''o1'' ''e1'' 0" "\<lambda>s. s" sample_cfg
        sample_watchdog sample_handlers] by (simp add: Let_def)
qed

end
