(* ===== verification/Balance_Match.thy ===== *)
theory Balance_Match
  imports Js_Number Json_Text
begin

text \<open>
  Matching of a claimable balance with the escrow of an order
  (\<open>stellar/src/claimable-balance-match.ts\<close>), the gate before every claim and refund on Stellar.

  \<^item> A recorded balance is JSON. An absent member is \<open>None\<close>; reading a member of \<open>null\<close> throws.
  \<^item> The class \<open>Asset\<close> of the Stellar SDK is the argument \<open>sdkAsset\<close>: what its constructor throws, or
    what \<open>isNative\<close> and \<open>toString\<close> return. The loader is a function from ids to an exception, to no
    balance, or to a balance.
  \<^item> Amounts go through \<open>Number\<close> and \<open>toFixed(7)\<close> as in \<open>Js_Number\<close>.
\<close>

section \<open>Values of the runtime\<close>

fun js_truthy :: "json option \<Rightarrow> bool" where
  "js_truthy None \<longleftrightarrow> False"
| "js_truthy (Some JNull) \<longleftrightarrow> False"
| "js_truthy (Some (JBool b)) \<longleftrightarrow> b"
| "js_truthy (Some (JNum n)) \<longleftrightarrow> n \<noteq> 0"
| "js_truthy (Some (JStr s)) \<longleftrightarrow> s \<noteq> []"
| "js_truthy (Some _) \<longleftrightarrow> True"

text \<open>\<open>String(v)\<close>; in an array \<open>null\<close> is the empty text.\<close>

fun js_String :: "json \<Rightarrow> string" where
  "js_String JNull = ''null''"
| "js_String (JBool b) = (if b then ''true'' else ''false'')"
| "js_String (JNum n) = show_int n"
| "js_String (JFrac t) = t"
| "js_String (JStr s) = s"
| "js_String (JArr vs) = intercalate '','' (map (\<lambda>v. if v = JNull then [] else js_String v) vs)"
| "js_String (JObj fs) = ''[object Object]''"

section \<open>Terms, records and errors\<close>

record escrow_terms =
  et_asset :: string
  et_amount :: string
  et_claimant :: string

record balance_record =
  br_id :: string
  br_asset :: json
  br_amount :: string
  br_claimants :: "(string \<times> json option) list"
  br_claimed :: "bool option"

datatype mismatch_reason = Not_found | Already_claimed | Asset_mismatch | Amount_mismatch | Claimant_mismatch

fun reason_text :: "mismatch_reason \<Rightarrow> string" where
  "reason_text Not_found = ''not_found''"
| "reason_text Already_claimed = ''already_claimed''"
| "reason_text Asset_mismatch = ''asset_mismatch''"
| "reason_text Amount_mismatch = ''amount_mismatch''"
| "reason_text Claimant_mismatch = ''claimant_mismatch''"

text \<open>An exception: the class with its code, balance id and message, or any other with its message.\<close>

datatype balance_error =
    BalanceMismatchError mismatch_reason "string option" string
  | Other_error string

definition mismatch :: "mismatch_reason \<Rightarrow> string option \<Rightarrow> string \<Rightarrow> balance_error" where
  "mismatch code balanceId detail =
    BalanceMismatchError code balanceId
      (if detail = [] then reason_text code else reason_text code @ '': '' @ detail)"

fun error_message :: "balance_error \<Rightarrow> string" where
  "error_message (BalanceMismatchError code balanceId m) = m"
| "error_message (Other_error m) = m"

definition null_read :: "string \<Rightarrow> string" where
  "null_read member = ''Cannot read properties of null (reading '' @ [CHR 0x27] @ member @ [CHR 0x27] @ '')''"

definition canonicalAssetString :: "json \<Rightarrow> balance_error + string" where
  "canonicalAssetString asset =
    (case asset of
       JStr s \<Rightarrow> Inr (if s = ''native'' then ''XLM'' else s)
     | JNull \<Rightarrow> Inl (Other_error (null_read ''asset_type''))
     | _ \<Rightarrow>
        if jget asset ''asset_type'' = Some (JStr ''native'') then Inr ''XLM''
        else if \<not> js_truthy (jget asset ''asset_code'') \<or> \<not> js_truthy (jget asset ''asset_issuer'')
        then Inl (mismatch Asset_mismatch None ''balance record has an issued asset without code or issuer'')
        else Inr (js_String (the (jget asset ''asset_code'')) @ '':'' @ js_String (the (jget asset ''asset_issuer''))))"

record escrow_input =
  ei_assetCode :: string
  ei_assetIssuer :: "string option"
  ei_amount :: string
  ei_claimant :: string
  ei_mainnet :: "bool option"

definition escrow_asset :: "(string \<Rightarrow> string \<Rightarrow> balance_error + (bool \<times> string)) \<Rightarrow> escrow_input \<Rightarrow> balance_error + string" where
  "escrow_asset sdkAsset i =
    (if ei_assetCode i = ''XLM'' then Inr ''XLM''
     else if ei_assetIssuer i = None \<or> ei_assetIssuer i = Some []
     then Inl (mismatch Asset_mismatch None (''issued asset '' @ ei_assetCode i @ '' requires an issuer''))
     else case sdkAsset (ei_assetCode i) (the (ei_assetIssuer i)) of
        Inl e \<Rightarrow> Inl e
      | Inr (isNative, toStr) \<Rightarrow>
          Inr (if ei_mainnet i = Some True
               then (if isNative then ''XLM'' else ei_assetCode i @ '':'' @ the (ei_assetIssuer i))
               else toStr))"

definition negative_number :: "js_number \<Rightarrow> bool" where
  "negative_number x \<longleftrightarrow> (case x of Fin q \<Rightarrow> q < 0 | Neg_inf \<Rightarrow> True | _ \<Rightarrow> False)"

definition buildEscrowTerms :: "(rat \<Rightarrow> string) \<Rightarrow> (string \<Rightarrow> string \<Rightarrow> balance_error + (bool \<times> string))
    \<Rightarrow> escrow_input \<Rightarrow> balance_error + escrow_terms" where
  "buildEscrowTerms wide sdkAsset i =
    (case escrow_asset sdkAsset i of Inl e \<Rightarrow> Inl e
     | Inr asset \<Rightarrow>
        (let parsed = to_number (ei_amount i)
         in if \<not> is_finite_number parsed \<or> negative_number parsed
            then Inl (mismatch Amount_mismatch None (''amount is not a positive number: '' @ ei_amount i))
            else if length (ei_claimant i) \<noteq> 56 \<or> take 1 (ei_claimant i) \<noteq> ''G''
            then Inl (mismatch Claimant_mismatch None ''claimant must be a 56-character Stellar account id (G...)'')
            else Inr \<lparr>et_asset = asset, et_amount = toFixed7 wide parsed, et_claimant = ei_claimant i\<rparr>))"

section \<open>Normalising a record\<close>

fun normal_claimants :: "json list \<Rightarrow> balance_error + (string \<times> json option) list" where
  "normal_claimants [] = Inr []"
| "normal_claimants (c # cs) =
    (case jget c ''destination'' of
       Some (JStr destination) \<Rightarrow>
         (case normal_claimants cs of Inl e \<Rightarrow> Inl e
          | Inr rest \<Rightarrow> Inr ((destination, if js_truthy (jget c ''predicate'') then jget c ''predicate'' else None) # rest))
     | _ \<Rightarrow> Inl (mismatch Not_found None ''balance record has a claimant without a destination''))"

definition malformed :: balance_error where
  "malformed = mismatch Not_found None ''balance record is malformed (missing id, asset, amount, or claimants)''"

definition normalizeBalanceRecord :: "json \<Rightarrow> balance_error + balance_record" where
  "normalizeBalanceRecord raw =
    (case (jget raw ''id'', jget raw ''asset'', jget raw ''amount'', jget raw ''claimants'') of
       (Some (JStr i), Some asset, Some (JStr amount), Some (JArr cs)) \<Rightarrow>
         (case normal_claimants cs of Inl e \<Rightarrow> Inl e
          | Inr claimants \<Rightarrow> Inr \<lparr>br_id = i, br_asset = asset, br_amount = amount, br_claimants = claimants,
              br_claimed = (case jget raw ''claimed'' of Some (JBool b) \<Rightarrow> Some b | _ \<Rightarrow> None)\<rparr>)
     | _ \<Rightarrow> Inl malformed)"

section \<open>The gate\<close>

definition verifyBalanceMatchesEscrow :: "(rat \<Rightarrow> string) \<Rightarrow> balance_record \<Rightarrow> escrow_terms \<Rightarrow> balance_error + unit" where
  "verifyBalanceMatchesEscrow wide balance terms =
    (if br_claimed balance = Some True then Inl (mismatch Already_claimed (Some (br_id balance)) [])
     else case canonicalAssetString (br_asset balance) of Inl e \<Rightarrow> Inl e
     | Inr balanceAsset \<Rightarrow>
        if balanceAsset \<noteq> et_asset terms
        then Inl (mismatch Asset_mismatch (Some (br_id balance))
          (''balance asset '' @ balanceAsset @ '' != escrow asset '' @ et_asset terms))
        else let balanceAmount = to_number (br_amount balance)
          in if \<not> is_finite_number balanceAmount \<or> toFixed7 wide balanceAmount \<noteq> et_amount terms
             then Inl (mismatch Amount_mismatch (Some (br_id balance))
               (''balance amount '' @ br_amount balance @ '' != escrow amount '' @ et_amount terms))
             else if et_claimant terms \<notin> set (map fst (br_claimants balance))
             then Inl (mismatch Claimant_mismatch (Some (br_id balance))
               (''claimant '' @ et_claimant terms @ '' is not among balance claimants''))
             else Inr ())"

text \<open>The catch block after the comparison: a mismatch is reported under the id that was asked for.\<close>

definition under_id :: "string \<Rightarrow> balance_error \<Rightarrow> balance_error" where
  "under_id balanceId e =
    (case e of
       BalanceMismatchError code _ m \<Rightarrow> mismatch code (Some balanceId) (drop (length (reason_text code) + 2) m)
     | Other_error _ \<Rightarrow> e)"

type_synonym balance_loader = "string \<Rightarrow> balance_error + balance_record option"

definition loadAndVerifyBalance :: "(rat \<Rightarrow> string) \<Rightarrow> string \<Rightarrow> escrow_terms \<Rightarrow> balance_loader \<Rightarrow> balance_error + balance_record" where
  "loadAndVerifyBalance wide balanceId terms loader =
    (if balanceId = [] then Inl (mismatch Not_found (Some balanceId) ''balance id is empty'')
     else case loader balanceId of
        Inl e \<Rightarrow> Inl (mismatch Not_found (Some balanceId) (''Horizon lookup failed: '' @ error_message e))
      | Inr None \<Rightarrow> Inl (mismatch Not_found (Some balanceId) [])
      | Inr (Some balance) \<Rightarrow>
          (case verifyBalanceMatchesEscrow wide balance terms of
             Inl e \<Rightarrow> Inl (under_id balanceId e)
           | Inr _ \<Rightarrow> Inr balance))"

section \<open>What passes the gate\<close>

text \<open>The conditions in the order they are tested, each with the refusal it gives.\<close>

definition refusal :: "(rat \<Rightarrow> string) \<Rightarrow> balance_record \<Rightarrow> escrow_terms \<Rightarrow> string \<Rightarrow> mismatch_reason option" where
  "refusal wide balance terms asset =
    List.find (\<lambda>r. case r of
        Already_claimed \<Rightarrow> br_claimed balance = Some True
      | Asset_mismatch \<Rightarrow> asset \<noteq> et_asset terms
      | Amount_mismatch \<Rightarrow> \<not> is_finite_number (to_number (br_amount balance))
          \<or> toFixed7 wide (to_number (br_amount balance)) \<noteq> et_amount terms
      | Claimant_mismatch \<Rightarrow> et_claimant terms \<notin> fst ` set (br_claimants balance)
      | Not_found \<Rightarrow> False)
      [Already_claimed, Asset_mismatch, Amount_mismatch, Claimant_mismatch]"

lemma verify_refusal:
  "canonicalAssetString (br_asset b) = Inr asset \<Longrightarrow>
    verifyBalanceMatchesEscrow wide b terms =
      (case refusal wide b terms asset of None \<Rightarrow> Inr ()
       | Some r \<Rightarrow> Inl (mismatch r (Some (br_id b)) (case r of
            Already_claimed \<Rightarrow> []
          | Asset_mismatch \<Rightarrow> ''balance asset '' @ asset @ '' != escrow asset '' @ et_asset terms
          | Amount_mismatch \<Rightarrow> ''balance amount '' @ br_amount b @ '' != escrow amount '' @ et_amount terms
          | Claimant_mismatch \<Rightarrow> ''claimant '' @ et_claimant terms @ '' is not among balance claimants''
          | Not_found \<Rightarrow> [])))"
  by (simp add: verifyBalanceMatchesEscrow_def refusal_def Let_def)

lemma verify_ok:
  "verifyBalanceMatchesEscrow wide b terms = Inr () \<longleftrightarrow>
    br_claimed b \<noteq> Some True \<and> canonicalAssetString (br_asset b) = Inr (et_asset terms)
    \<and> is_finite_number (to_number (br_amount b)) \<and> toFixed7 wide (to_number (br_amount b)) = et_amount terms
    \<and> et_claimant terms \<in> fst ` set (br_claimants b)"
  by (auto simp: verifyBalanceMatchesEscrow_def Let_def split: sum.splits)

lemma load_ok:
  "loadAndVerifyBalance wide balanceId terms loader = Inr b \<longleftrightarrow>
    balanceId \<noteq> [] \<and> loader balanceId = Inr (Some b) \<and> verifyBalanceMatchesEscrow wide b terms = Inr ()"
  by (auto simp: loadAndVerifyBalance_def split: sum.splits option.splits)

lemma fixed7_finite: "n < 2 ^ 52 \<Longrightarrow> is_finite_number (to_number (fixed7 n))"
proof -
  assume n: "n < 2 ^ 52"
  have "toFixed7 (\<lambda>_. []) (to_number (fixed7 n)) = fixed7 n" by (rule number_fixed7[OF n])
  moreover have "CHR ''.'' \<in> set (fixed7 n)" by (simp add: fixed7_def)
  then have "fixed7 n \<noteq> ''Infinity''" "fixed7 n \<noteq> ''-Infinity''" "fixed7 n \<noteq> ''NaN''" by auto
  ultimately show ?thesis by (auto simp: is_finite_number_def toFixed7_def split: js_number.splits)
qed

lemma drop_reason: "drop (length (reason_text r) + 2) (reason_text r @ '': '' @ d) = d"
  by simp

lemma under_id_mismatch [simp]: "under_id balanceId (mismatch r i d) = mismatch r (Some balanceId) d"
  by (simp add: under_id_def mismatch_def)

lemma build_terms_amount:
  assumes "buildEscrowTerms wide sdkAsset i = Inr terms" "ei_amount i = fixed7 n" "n < 2 ^ 52"
  shows "et_amount terms = fixed7 n"
  using assms by (auto simp: buildEscrowTerms_def Let_def number_fixed7 split: sum.splits if_splits)

lemma build_terms_claimant: "buildEscrowTerms wide sdkAsset i = Inr terms \<Longrightarrow> et_claimant terms = ei_claimant i"
  by (auto simp: buildEscrowTerms_def Let_def split: sum.splits if_splits)

text \<open>The gate lets exactly the escrow of the order through. For terms built from an order of \<open>n\<close>
  stroops and a found balance of \<open>m\<close> stroops, both below \<open>2\<^sup>5\<^sup>2\<close>, it returns the balance exactly when that is
  unclaimed, of the asset of the order, of the same amount, and claimable by the account of the order;
  otherwise it refuses under the id that was asked for, with the first of these four reasons.\<close>

theorem gate_accepts_exactly_the_escrow:
  assumes "buildEscrowTerms wide sdkAsset i = Inr terms" "ei_amount i = fixed7 n" "n < 2 ^ 52"
    and "balanceId \<noteq> []" "loader balanceId = Inr (Some b)" "br_amount b = fixed7 m" "m < 2 ^ 52"
    and "canonicalAssetString (br_asset b) = Inr asset"
  shows "loadAndVerifyBalance wide balanceId terms loader =
    (if br_claimed b = Some True then Inl (mismatch Already_claimed (Some balanceId) [])
     else if asset \<noteq> et_asset terms
     then Inl (mismatch Asset_mismatch (Some balanceId) (''balance asset '' @ asset @ '' != escrow asset '' @ et_asset terms))
     else if m \<noteq> n
     then Inl (mismatch Amount_mismatch (Some balanceId) (''balance amount '' @ fixed7 m @ '' != escrow amount '' @ fixed7 n))
     else if ei_claimant i \<notin> fst ` set (br_claimants b)
     then Inl (mismatch Claimant_mismatch (Some balanceId) (''claimant '' @ ei_claimant i @ '' is not among balance claimants''))
     else Inr b)"
  using assms(4-8) build_terms_amount[OF assms(1-3)] build_terms_claimant[OF assms(1)]
    fixed7_inj[of m n] number_fixed7[OF assms(7), of wide]
  by (auto simp: loadAndVerifyBalance_def verifyBalanceMatchesEscrow_def Let_def fixed7_finite)

definition sample_escrow :: escrow_input where
  "sample_escrow = \<lparr>ei_assetCode = ''XLM'', ei_assetIssuer = None, ei_amount = ''10.0000000'',
    ei_claimant = CHR ''G'' # replicate 55 CHR ''A'', ei_mainnet = None\<rparr>"

definition sample_balance :: balance_record where
  "sample_balance = \<lparr>br_id = ''b1'', br_asset = JStr ''native'', br_amount = ''10.0000000'',
    br_claimants = [(CHR ''G'' # replicate 55 CHR ''A'', None)], br_claimed = None\<rparr>"

lemma fixed7_not_negative: "\<not> negative_number (to_number (fixed7 n))"
proof -
  have "fl n (10 ^ 7) \<noteq> Neg_inf" by (simp add: fl_def Let_def)
  moreover have "to_number (fixed7 n) = fl n (10 ^ 7)" by (simp add: to_number_fixed7 decimal_value_def)
  ultimately show ?thesis using fl_nonneg[of n "10 ^ 7"]
    by (cases "fl n (10 ^ 7)") (auto simp: negative_number_def)
qed

lemma fixed7_ten: "fixed7 100000000 = ''10.0000000''"
proof -
  have "show_nat 10 = ''10''" "padStart (show_nat 0) 7 CHR ''0'' = ''0000000''" by code_simp+
  then show ?thesis by (simp add: fixed7_def)
qed

lemma sample_terms:
  "buildEscrowTerms wide sdkAsset sample_escrow =
    Inr \<lparr>et_asset = ''XLM'', et_amount = fixed7 100000000, et_claimant = CHR ''G'' # replicate 55 CHR ''A''\<rparr>"
proof -
  have amount: "ei_amount sample_escrow = fixed7 100000000" by (simp add: sample_escrow_def fixed7_ten)
  have "is_finite_number (to_number (fixed7 100000000))" by (rule fixed7_finite) simp
  then show ?thesis using number_fixed7[of 100000000 wide]
    by (simp add: buildEscrowTerms_def escrow_asset_def Let_def amount fixed7_not_negative) (simp add: sample_escrow_def)
qed

theorem gate_accepts_exactly_the_escrow_witness:
  "loadAndVerifyBalance (\<lambda>_. []) ''b1'' \<lparr>et_asset = ''XLM'', et_amount = fixed7 100000000, et_claimant = CHR ''G'' # replicate 55 CHR ''A''\<rparr>
     (\<lambda>_. Inr (Some sample_balance)) = Inr sample_balance"
proof -
  have "ei_amount sample_escrow = fixed7 100000000" "br_amount sample_balance = fixed7 100000000"
    by (simp_all add: sample_escrow_def sample_balance_def fixed7_ten)
  then show ?thesis
    by (subst gate_accepts_exactly_the_escrow[OF sample_terms, of 100000000 _ _ sample_balance 100000000 "''XLM''"])
      (simp_all add: sample_balance_def sample_escrow_def canonicalAssetString_def)
qed

text \<open>Beyond that bound amounts are conflated: these two differ by one stroop and render alike.\<close>

lemma fl_at:
  assumes "bits n = 54" "bits d = 24" "of_nat n / of_nat d < (2 :: rat) ^ 30" "0 < n"
    and "\<bar>of_nat n / of_nat d * 2 ^ 23 - of_int k\<bar> < (1 / 2 :: rat)" "of_int k < (2 :: rat) ^ 60"
  shows "fl n d = Fin (of_int k * pow2 (- 23))"
proof -
  have e: "last_bit n d = - 23" using assms(1-3) by (simp add: last_bit_def Let_def pow2_def)
  have p: "x / pow2 (- 23) = x * 2 ^ 23" for x by (simp add: pow2_def)
  have "half_even (of_nat n / of_nat d / pow2 (- 23)) = k"
    unfolding p by (rule half_even_unique) (use assms(5) in simp)
  moreover have "of_int k * pow2 (- 23) < 2 ^ 1024"
    using assms(6) by (simp add: pow2_def)
  ultimately show ?thesis using assms(4) by (simp add: fl_def e)
qed

lemma amounts_conflated:
  "toFixed7 wide (to_number (fixed7 9007199254740997)) = toFixed7 wide (to_number (fixed7 9007199254740998))"
proof -
  have "bits 10000000 = 24" "bits 9007199254740997 = 54" "bits 9007199254740998 = 54"
    by (simp_all add: bits.simps)
  then have "fl 9007199254740997 10000000 = Fin (of_int 7555786372591437 * pow2 (- 23))"
    "fl 9007199254740998 10000000 = Fin (of_int 7555786372591437 * pow2 (- 23))"
    by (intro fl_at; simp)+
  then show ?thesis by (simp add: to_number_fixed7 decimal_value_def)
qed

end
