(* ===== verification/Stellar_Htlc.thy ===== *)
theory Stellar_Htlc
  imports Balance_Match Sdk_Secrets
begin

text \<open>
  The manager of claimable balances on Stellar (\<open>stellar/src/claimable-balance.ts\<close>).

  \<^item> What Horizon and the Stellar SDK answer is the argument \<open>env\<close>: keys of secrets, recorded balances
    (or a failure with its HTTP status), accounts, refusals of the builder, and responses to a
    submission. Responses are JSON.
  \<^item> An operation returns its result together with the transactions it submitted.
  \<^item> \<open>keccak\<close> is \<open>keccak256\<close> of \<open>js-sha3\<close>, which hashes the characters of a text; \<open>sha\<close> is the
    hexadecimal SHA-256 digest of \<open>crypto\<close>. Log lines are left out, and the message of a value that
    cannot be iterated is shortened.
\<close>

section \<open>Types\<close>

record stellar_config =
  sc_networkPassphrase :: string
  sc_horizonUrl :: string
  sc_isTestnet :: bool

record htlc_params =
  hp_sourceSecretKey :: string
  hp_recipientPublicKey :: string
  hp_assetCode :: string
  hp_assetIssuer :: "string option"
  hp_amount :: string
  hp_hashLock :: string
  hp_timelock :: int
  hp_memo :: "string option"

record balance_info =
  bi_id :: "json option"
  bi_assetCode :: json
  bi_assetIssuer :: "json option"
  bi_amount :: "json option"
  bi_sponsor :: json
  bi_hashLock :: "string option"
  bi_timelock :: "int option option"

record claim_params =
  cp_claimerSecretKey :: string
  cp_balanceId :: string
  cp_preimage :: string
  cp_expectedHashLock :: "string option"
  cp_expected :: "escrow_terms option"

record refund_params =
  rp_refunderSecretKey :: string
  rp_balanceId :: string
  rp_expected :: "escrow_terms option"

datatype claim_predicate = Unconditional

datatype stellar_asset = Native | Issued string "string option"

datatype stellar_op =
    Create_claimable_balance stellar_asset string "(string \<times> claim_predicate) list"
  | Claim_claimable_balance string

record stellar_tx =
  tx_source :: string
  tx_passphrase :: string
  tx_op :: stellar_op
  tx_memo :: "string option"

record stellar_env =
  se_keypair :: "string \<Rightarrow> balance_error + string"
  se_record :: "string \<Rightarrow> (int option \<times> string) + json"
  se_account :: "string \<Rightarrow> balance_error + unit"
  se_build :: "stellar_tx \<Rightarrow> balance_error + unit"
  se_submit :: "stellar_tx \<Rightarrow> balance_error + json"

section \<open>Loading a balance\<close>

definition loadBalanceRecord :: "stellar_env \<Rightarrow> string \<Rightarrow> balance_error + json option" where
  "loadBalanceRecord env balanceId =
    (case se_record env balanceId of
       Inr response \<Rightarrow> Inr (if response = JNull then None else Some response)
     | Inl (status, message) \<Rightarrow> if status = Some 404 then Inr None else Inl (Other_error message))"

definition loadBalance :: "stellar_env \<Rightarrow> balance_loader" where
  "loadBalance env balanceId =
    (case loadBalanceRecord env balanceId of Inl e \<Rightarrow> Inl e
     | Inr None \<Rightarrow> Inr None
     | Inr (Some raw) \<Rightarrow> (case normalizeBalanceRecord raw of Inl e \<Rightarrow> Inl e | Inr b \<Rightarrow> Inr (Some b)))"

section \<open>Validation\<close>

definition hex64 :: "string \<Rightarrow> bool" where
  "hex64 s \<longleftrightarrow> length s = 64 \<and> list_all is_hex s"

definition validateHashLock :: "string \<Rightarrow> string option" where
  "validateHashLock hashLock = (if hex64 hashLock then None else Some ''Hash lock must be a 64-character hex string'')"

text \<open>Seconds against a clock in milliseconds.\<close>

definition validateTimelock :: "int \<Rightarrow> int \<Rightarrow> string option" where
  "validateTimelock nowMs timelock =
    (if timelock * 1000 < nowMs + 3600 * 1000 then Some ''Timelock must be at least 1 hour in the future''
     else if timelock * 1000 > nowMs + 604800 * 1000 then Some ''Timelock cannot be more than 7 days in the future''
     else None)"

section \<open>Reading a response\<close>

text \<open>\<open>v.member\<close>, of a value that may be undefined; a text has no such members.\<close>

definition js_member :: "json option \<Rightarrow> string \<Rightarrow> balance_error + json option" where
  "js_member v member =
    (case v of None \<Rightarrow> Inl (Other_error (''Cannot read properties of undefined (reading '' @ [CHR 0x27] @ member @ [CHR 0x27] @ '')''))
     | Some JNull \<Rightarrow> Inl (Other_error (null_read member))
     | Some j \<Rightarrow> Inr (jget j member))"

text \<open>\<open>for (const x of v)\<close>\<close>

definition js_elements :: "json option \<Rightarrow> balance_error + json list" where
  "js_elements v =
    (case v of Some (JArr xs) \<Rightarrow> Inr xs | Some (JStr s) \<Rightarrow> Inr (map (\<lambda>c. JStr [c]) s)
     | _ \<Rightarrow> Inl (Other_error ''not iterable''))"

text \<open>A search through a list that an exception ends: the value found, or nothing.\<close>

fun first_found :: "('a \<Rightarrow> balance_error + 'b option) \<Rightarrow> 'a list \<Rightarrow> balance_error + 'b option" where
  "first_found f [] = Inr None"
| "first_found f (x # xs) =
    (case f x of Inl e \<Rightarrow> Inl e | Inr (Some y) \<Rightarrow> Inr (Some y) | Inr None \<Rightarrow> first_found f xs)"

definition created_in_change :: "json \<Rightarrow> balance_error + json option option" where
  "created_in_change change =
    (case js_member (Some change) ''type'' of Inl e \<Rightarrow> Inl e
     | Inr ty \<Rightarrow> if ty = Some (JStr ''claimableBalanceCreated'')
        then Inr (Some (jget change ''claimableBalanceId'')) else Inr None)"

definition created_in_meta :: "json \<Rightarrow> balance_error + json option option" where
  "created_in_meta op =
    (case js_member (Some op) ''changes'' of Inl e \<Rightarrow> Inl e
     | Inr changes \<Rightarrow> if \<not> js_truthy changes then Inr None
        else case js_elements changes of Inl e \<Rightarrow> Inl e | Inr cs \<Rightarrow> first_found created_in_change cs)"

definition created_in_envelope :: "(string \<Rightarrow> string) \<Rightarrow> json \<Rightarrow> balance_error + json option option" where
  "created_in_envelope sha256 op =
    (case js_member (Some op) ''body'' of Inl e \<Rightarrow> Inl e
     | Inr body \<Rightarrow> if js_truthy body \<and> js_truthy (jget (the body) ''createClaimableBalanceOp'')
        then Inr (Some (Some (JStr (''00000000'' @ take 56 (sha256 (JSON_stringify op)))))) else Inr None)"

text \<open>The two searches inside the \<open>try\<close> block.\<close>

definition search_meta :: "json \<Rightarrow> balance_error + json option option" where
  "search_meta response =
    (case js_member (Some response) ''result_meta_xdr'' of Inl e \<Rightarrow> Inl e
     | Inr meta \<Rightarrow> if js_truthy meta \<and> js_truthy (jget (the meta) ''operations'')
        then (case js_elements (jget (the meta) ''operations'') of Inl e \<Rightarrow> Inl e
              | Inr ops \<Rightarrow> first_found created_in_meta ops)
        else Inr None)"

definition envelope_operations :: "json \<Rightarrow> json option" where
  "envelope_operations response =
    (let member = (\<lambda>v k. if js_truthy v then jget (the v) k else None);
         tx = member (member (jget response ''envelope'') ''v1'') ''tx''
     in if \<not> js_truthy tx then None
        else let ops = jget (the tx) ''operations'' in Some (if js_truthy ops then the ops else JArr []))"

definition search_envelope :: "(string \<Rightarrow> string) \<Rightarrow> json \<Rightarrow> balance_error + json option option" where
  "search_envelope sha256 response =
    (case envelope_operations response of None \<Rightarrow> Inr None
     | Some ops \<Rightarrow> (case js_elements (Some ops) of Inl e \<Rightarrow> Inl e
        | Inr xs \<Rightarrow> first_found (created_in_envelope sha256) xs))"

definition extractClaimableBalanceId :: "(string \<Rightarrow> string) \<Rightarrow> json \<Rightarrow> balance_error + json option" where
  "extractClaimableBalanceId sha256 response =
    (let failed = Inl (Other_error (''Failed to extract claimable balance ID from transaction response. '' @
        ''This is a critical error - transaction may have failed or response format is invalid.''))
     in case search_meta response of Inl e \<Rightarrow> failed
        | Inr (Some v) \<Rightarrow> Inr v
        | Inr None \<Rightarrow> (case search_envelope sha256 response of Inl e \<Rightarrow> failed
            | Inr (Some v) \<Rightarrow> Inr v
            | Inr None \<Rightarrow> failed))"

section \<open>Sending a transaction\<close>

text \<open>Key, account, builder and signature, submission.\<close>

definition send :: "stellar_env \<Rightarrow> string \<Rightarrow> (string \<Rightarrow> stellar_tx) \<Rightarrow> (balance_error + json) \<times> stellar_tx list" where
  "send env secret tx =
    (case se_keypair env secret of Inl e \<Rightarrow> (Inl e, [])
     | Inr publicKey \<Rightarrow> (case se_account env publicKey of Inl e \<Rightarrow> (Inl e, [])
        | Inr _ \<Rightarrow> (case se_build env (tx publicKey) of Inl e \<Rightarrow> (Inl e, [])
           | Inr _ \<Rightarrow> (se_submit env (tx publicKey), [tx publicKey]))))"

text \<open>The catch blocks: a mismatch passes, anything else is wrapped.\<close>

definition wrap_error :: "string \<Rightarrow> balance_error + 'a \<Rightarrow> balance_error + 'a" where
  "wrap_error prefix r =
    (case r of Inl (Other_error m) \<Rightarrow> Inl (Other_error (prefix @ m)) | _ \<Rightarrow> r)"

definition response_hash :: "balance_error + json \<Rightarrow> balance_error + json option" where
  "response_hash r = (case r of Inl e \<Rightarrow> Inl e | Inr response \<Rightarrow> js_member (Some response) ''hash'')"

section \<open>The operations\<close>

definition create_tx :: "stellar_config \<Rightarrow> htlc_params \<Rightarrow> string \<Rightarrow> stellar_tx" where
  "create_tx cfg p source =
    \<lparr>tx_source = source, tx_passphrase = sc_networkPassphrase cfg,
     tx_op = Create_claimable_balance
       (if hp_assetCode p = ''XLM'' then Native else Issued (hp_assetCode p) (hp_assetIssuer p)) (hp_amount p)
       [(hp_recipientPublicKey p, Unconditional), (source, Unconditional)],
     tx_memo = (case hp_memo p of Some (c # cs) \<Rightarrow> Some (c # cs) | _ \<Rightarrow> None)\<rparr>"

definition createClaimableBalance :: "stellar_config \<Rightarrow> (string \<Rightarrow> string) \<Rightarrow> stellar_env \<Rightarrow> int \<Rightarrow> htlc_params
    \<Rightarrow> (balance_error + json option \<times> json option) \<times> stellar_tx list" where
  "createClaimableBalance cfg sha256 env nowMs p =
    (let failed = (\<lambda>m. Inl (Other_error (''Claimable balance creation failed: '' @ m)))
     in case validateHashLock (hp_hashLock p) of Some m \<Rightarrow> (failed m, [])
        | None \<Rightarrow> (case validateTimelock nowMs (hp_timelock p) of Some m \<Rightarrow> (failed m, [])
        | None \<Rightarrow>
           (let (r, txs) = send env (hp_sourceSecretKey p) (create_tx cfg p)
            in (case r of Inl e \<Rightarrow> failed (error_message e)
                | Inr response \<Rightarrow> (case js_member (Some response) ''hash'' of Inl e \<Rightarrow> failed (error_message e)
                   | Inr txHash \<Rightarrow> (case extractClaimableBalanceId sha256 response of Inl e \<Rightarrow> failed (error_message e)
                      | Inr balanceId \<Rightarrow> Inr (txHash, balanceId))), txs))))"

definition claim_tx :: "stellar_config \<Rightarrow> string \<Rightarrow> string option \<Rightarrow> string \<Rightarrow> stellar_tx" where
  "claim_tx cfg balanceId memo source =
    \<lparr>tx_source = source, tx_passphrase = sc_networkPassphrase cfg,
     tx_op = Claim_claimable_balance balanceId, tx_memo = memo\<rparr>"

definition claimWithPreimage :: "stellar_config \<Rightarrow> (rat \<Rightarrow> string) \<Rightarrow> (string \<Rightarrow> string) \<Rightarrow> stellar_env \<Rightarrow> claim_params
    \<Rightarrow> (balance_error + json option) \<times> stellar_tx list" where
  "claimWithPreimage cfg wide keccak env p =
    apfst (wrap_error ''Claim failed: '')
      (if \<not> hex64 (cp_preimage p) then (Inl (Other_error ''Invalid preimage format''), [])
       else case cp_expected p of
         None \<Rightarrow> (Inl (Other_error ''expected escrow terms are required to claim a balance''), [])
       | Some expected \<Rightarrow> (case loadAndVerifyBalance wide (cp_balanceId p) expected (loadBalance env) of
            Inl e \<Rightarrow> (Inl e, [])
          | Inr _ \<Rightarrow>
             (let providedHash = keccak (''0x'' @ cp_preimage p)
              in case cp_expectedHashLock p of
                   Some (c # cs) \<Rightarrow>
                     if providedHash \<noteq> c # cs
                     then (Inl (Other_error ([CHR 0xF0, CHR 0x9F, CHR 0x9A, CHR 0xA8] @ '' HTLC VIOLATION: Preimage does not match hashLock!'')), [])
                     else apfst response_hash (send env (cp_claimerSecretKey p) (claim_tx cfg (cp_balanceId p) None))
                 | _ \<Rightarrow> apfst response_hash (send env (cp_claimerSecretKey p) (claim_tx cfg (cp_balanceId p) None)))))"

definition refundExpired :: "stellar_config \<Rightarrow> (rat \<Rightarrow> string) \<Rightarrow> stellar_env \<Rightarrow> refund_params
    \<Rightarrow> (balance_error + json option) \<times> stellar_tx list" where
  "refundExpired cfg wide env p =
    apfst (wrap_error ''Refund failed: '')
      (case rp_expected p of
         None \<Rightarrow> (Inl (Other_error ''expected escrow terms are required to refund a balance''), [])
       | Some expected \<Rightarrow> (case loadAndVerifyBalance wide (rp_balanceId p) expected (loadBalance env) of
            Inl e \<Rightarrow> (Inl e, [])
          | Inr _ \<Rightarrow> apfst response_hash
              (send env (rp_refunderSecretKey p) (claim_tx cfg (rp_balanceId p) (Some ''htlc-refund'')))))"

section \<open>Balance information\<close>

text \<open>\<open>parseInt\<close> of a text; \<open>None\<close> is \<open>NaN\<close>. A prefix \<open>0x\<close> reads hexadecimal digits.\<close>

definition parseInt :: "string \<Rightarrow> int option" where
  "parseInt text =
    (let s = dropWhile Js_Number.is_space text;
         neg = (s \<noteq> [] \<and> hd s = CHR ''-'');
         r = (if s \<noteq> [] \<and> (hd s = CHR ''-'' \<or> hd s = CHR ''+'') then tl s else s);
         hex = (take 2 r = ''0x'' \<or> take 2 r = ''0X'');
         ds = (if hex then takeWhile is_hex (drop 2 r) else takeWhile is_digit r);
         v = (if hex then foldl (\<lambda>n c. 16 * n + nibble_val c) 0 ds else parse_digits ds)
     in if ds = [] then None else Some (if neg then - int v else int v))"

fun predicate_timelock :: "int option option \<Rightarrow> json list \<Rightarrow> balance_error + int option option" where
  "predicate_timelock timelock [] = Inr timelock"
| "predicate_timelock timelock (c # cs) =
    (case js_member (Some c) ''predicate'' of Inl e \<Rightarrow> Inl e
     | Inr predicate \<Rightarrow>
        (let absBefore = (if js_truthy predicate then jget (the predicate) ''abs_before'' else None)
         in predicate_timelock (if js_truthy absBefore then Some (parseInt (js_String (the absBefore))) else timelock) cs))"

text \<open>The conversion of one balance, which the two readers share word for word.\<close>

definition balance_info_of :: "json \<Rightarrow> balance_error + balance_info" where
  "balance_info_of balance =
    (case js_member (Some balance) ''asset'' of Inl e \<Rightarrow> Inl e
     | Inr asset \<Rightarrow>
        (let native = (asset = Some (JStr ''native''));
             code = (if native then Inr (Some (JStr ''XLM'')) else js_member asset ''asset_code'');
             issuer = (if native then Inr None else js_member asset ''asset_issuer'');
             cs = jget balance ''claimants''
         in case code of Inl e \<Rightarrow> Inl e
            | Inr c \<Rightarrow> (case issuer of Inl e \<Rightarrow> Inl e
            | Inr i \<Rightarrow> (case predicate_timelock None (case cs of Some (JArr xs) \<Rightarrow> xs | _ \<Rightarrow> []) of Inl e \<Rightarrow> Inl e
            | Inr timelock \<Rightarrow>
               Inr \<lparr>bi_id = jget balance ''id'', bi_assetCode = (if js_truthy c then the c else JStr ''XLM''),
                 bi_assetIssuer = i, bi_amount = jget balance ''amount'',
                 bi_sponsor = (if js_truthy (jget balance ''sponsor'') then the (jget balance ''sponsor'') else JStr ''unknown''),
                 bi_hashLock = None, bi_timelock = timelock\<rparr>))))"

definition getClaimableBalanceInfo :: "stellar_env \<Rightarrow> string \<Rightarrow> balance_error + balance_info" where
  "getClaimableBalanceInfo env balanceId =
    (case (case se_record env balanceId of Inl (status, m) \<Rightarrow> Inl (Other_error m) | Inr balance \<Rightarrow> balance_info_of balance) of
       Inl e \<Rightarrow> Inl (Other_error (''Failed to get balance info: '' @ error_message e))
     | Inr info \<Rightarrow> Inr info)"

fun balance_infos :: "json list \<Rightarrow> balance_error + balance_info list" where
  "balance_infos [] = Inr []"
| "balance_infos (b # bs) =
    (case balance_info_of b of Inl e \<Rightarrow> Inl e
     | Inr info \<Rightarrow> (case balance_infos bs of Inl e \<Rightarrow> Inl e | Inr rest \<Rightarrow> Inr (info # rest)))"

text \<open>\<open>answer\<close> is what Horizon returns for the balances an account can claim.\<close>

definition getClaimableBalances :: "balance_error + json \<Rightarrow> balance_error + balance_info list" where
  "getClaimableBalances answer =
    (let r = (case answer of Inl e \<Rightarrow> Inl e
        | Inr response \<Rightarrow> (case js_member (Some response) ''records'' of Inl e \<Rightarrow> Inl e
           | Inr records \<Rightarrow> (case js_elements records of Inl e \<Rightarrow> Inl e | Inr bs \<Rightarrow> balance_infos bs)))
     in case r of Inl e \<Rightarrow> Inl (Other_error (''Failed to get balances: '' @ error_message e)) | Inr infos \<Rightarrow> Inr infos)"

section \<open>Preimages\<close>

text \<open>\<open>Buffer.from(s, "hex")\<close> stops at the first pair that is not hexadecimal.\<close>

fun node_hex :: "string \<Rightarrow> bytes" where
  "node_hex (a # b # r) =
    (if is_hex a \<and> is_hex b then of_nat (16 * Sdk_Secrets.hex_val a + Sdk_Secrets.hex_val b) # node_hex r else [])"
| "node_hex _ = []"

definition hashPreimage :: "(bytes \<Rightarrow> string) \<Rightarrow> string \<Rightarrow> string" where
  "hashPreimage sha preimage = sha (node_hex preimage)"

definition hex_text :: "bytes \<Rightarrow> string" where
  "hex_text bs = concat (map byte_hex bs)"

definition generatePreimageAndHash :: "(bytes \<Rightarrow> string) \<Rightarrow> bytes \<Rightarrow> string \<times> string" where
  "generatePreimageAndHash sha random = (hex_text random, sha (node_hex (hex_text random)))"

definition verifyPreimage :: "(bytes \<Rightarrow> string) \<Rightarrow> string \<Rightarrow> string \<Rightarrow> bool" where
  "verifyPreimage sha preimage expectedHash \<longleftrightarrow> sha (node_hex preimage) = expectedHash"

definition createTestnetConfig :: stellar_config where
  "createTestnetConfig = \<lparr>sc_networkPassphrase = ''Test SDF Network ; September 2015'',
    sc_horizonUrl = ''https://horizon-testnet.stellar.org'', sc_isTestnet = True\<rparr>"

definition createMainnetConfig :: stellar_config where
  "createMainnetConfig = \<lparr>sc_networkPassphrase = ''Public Global Stellar Network ; September 2015'',
    sc_horizonUrl = ''https://horizon.stellar.org'', sc_isTestnet = False\<rparr>"

section \<open>What is submitted\<close>

lemma send_submits: "tx \<in> set (snd (send env secret f)) \<Longrightarrow>
    \<exists>key. se_keypair env secret = Inr key \<and> tx = f key \<and> snd (send env secret f) = [f key]"
  by (auto simp: send_def split: sum.splits)

text \<open>The balance is the escrow: what \<open>loadAndVerifyBalance\<close> lets through.\<close>

definition escrow_balance :: "(rat \<Rightarrow> string) \<Rightarrow> stellar_env \<Rightarrow> string \<Rightarrow> escrow_terms \<Rightarrow> bool" where
  "escrow_balance wide env balanceId terms \<longleftrightarrow>
    (case loadBalance env balanceId of
       Inr (Some b) \<Rightarrow> br_claimed b \<noteq> Some True \<and> canonicalAssetString (br_asset b) = Inr (et_asset terms)
         \<and> toFixed7 wide (to_number (br_amount b)) = et_amount terms
         \<and> et_claimant terms \<in> fst ` set (br_claimants b)
     | _ \<Rightarrow> False)"

lemma gate_escrow: "loadAndVerifyBalance wide balanceId terms (loadBalance env) = Inr b \<Longrightarrow> escrow_balance wide env balanceId terms"
  by (simp add: load_ok verify_ok escrow_balance_def)

text \<open>C27: Nothing is claimed or refunded but the escrow of the order. Whatever Horizon and the SDK
  answer, a transaction is submitted only for a balance that Horizon has under the given id,
  unclaimed, with the asset and the amount of the order and its claimant among those listed; it is
  a single operation on that id, signed by the given key. A claim also has a preimage of 32 bytes,
  whose hash is the expected one where that is given.\<close>

theorem claims_only_the_escrow:
  "(tx \<in> set (snd (claimWithPreimage cfg wide keccak env p)) \<longrightarrow>
      (\<exists>terms key. cp_expected p = Some terms \<and> escrow_balance wide env (cp_balanceId p) terms
        \<and> se_keypair env (cp_claimerSecretKey p) = Inr key
        \<and> snd (claimWithPreimage cfg wide keccak env p) = [claim_tx cfg (cp_balanceId p) None key]
        \<and> length (cp_preimage p) = 64 \<and> list_all is_hex (cp_preimage p)
        \<and> cp_expectedHashLock p \<in> {None, Some [], Some (keccak (''0x'' @ cp_preimage p))}))
   \<and> (tx \<in> set (snd (refundExpired cfg wide env q)) \<longrightarrow>
      (\<exists>terms key. rp_expected q = Some terms \<and> escrow_balance wide env (rp_balanceId q) terms
        \<and> se_keypair env (rp_refunderSecretKey q) = Inr key
        \<and> snd (refundExpired cfg wide env q) = [claim_tx cfg (rp_balanceId q) (Some ''htlc-refund'') key]))"
proof (intro conjI impI)
  assume tx: "tx \<in> set (snd (claimWithPreimage cfg wide keccak env p))"
  then obtain terms b where t: "cp_expected p = Some terms" "hex64 (cp_preimage p)"
      "loadAndVerifyBalance wide (cp_balanceId p) terms (loadBalance env) = Inr b"
    by (auto simp: claimWithPreimage_def split: if_splits option.splits sum.splits)
  with tx have h: "cp_expectedHashLock p \<in> {None, Some [], Some (keccak (''0x'' @ cp_preimage p))}"
    and s: "snd (claimWithPreimage cfg wide keccak env p) = snd (send env (cp_claimerSecretKey p) (claim_tx cfg (cp_balanceId p) None))"
    by (auto simp: claimWithPreimage_def Let_def split: if_splits option.splits list.splits)
  with tx obtain key where "se_keypair env (cp_claimerSecretKey p) = Inr key"
      "snd (claimWithPreimage cfg wide keccak env p) = [claim_tx cfg (cp_balanceId p) None key]"
    using send_submits[of tx env "cp_claimerSecretKey p" "claim_tx cfg (cp_balanceId p) None"] by (simp only: s) blast
  with t h gate_escrow[OF t(3)] show "\<exists>terms key. cp_expected p = Some terms \<and> escrow_balance wide env (cp_balanceId p) terms
      \<and> se_keypair env (cp_claimerSecretKey p) = Inr key
      \<and> snd (claimWithPreimage cfg wide keccak env p) = [claim_tx cfg (cp_balanceId p) None key]
      \<and> length (cp_preimage p) = 64 \<and> list_all is_hex (cp_preimage p)
      \<and> cp_expectedHashLock p \<in> {None, Some [], Some (keccak (''0x'' @ cp_preimage p))}"
    by (auto simp: hex64_def)
next
  assume tx: "tx \<in> set (snd (refundExpired cfg wide env q))"
  then obtain terms b where t: "rp_expected q = Some terms"
      "loadAndVerifyBalance wide (rp_balanceId q) terms (loadBalance env) = Inr b"
    by (auto simp: refundExpired_def split: option.splits sum.splits)
  then have s: "snd (refundExpired cfg wide env q) = snd (send env (rp_refunderSecretKey q) (claim_tx cfg (rp_balanceId q) (Some ''htlc-refund'')))"
    by (simp add: refundExpired_def)
  with tx obtain key where "se_keypair env (rp_refunderSecretKey q) = Inr key"
      "snd (refundExpired cfg wide env q) = [claim_tx cfg (rp_balanceId q) (Some ''htlc-refund'') key]"
    using send_submits[of tx env "rp_refunderSecretKey q" "claim_tx cfg (rp_balanceId q) (Some ''htlc-refund'')"]
    by (simp only: s) blast
  with t gate_escrow[OF t(2)] show "\<exists>terms key. rp_expected q = Some terms \<and> escrow_balance wide env (rp_balanceId q) terms
      \<and> se_keypair env (rp_refunderSecretKey q) = Inr key
      \<and> snd (refundExpired cfg wide env q) = [claim_tx cfg (rp_balanceId q) (Some ''htlc-refund'') key]"
    by blast
qed

section \<open>The lock does not reach the chain\<close>

text \<open>The lock of an HTLC balance is not enforced on the chain. Whatever transaction
  \<open>createClaimableBalance\<close> submits lets the recipient and the source claim without any condition, and
  two calls that differ only in their valid hash lock and timelock do exactly the same.\<close>

theorem lock_never_reaches_chain:
  assumes "validateHashLock (hp_hashLock p) = None" "validateTimelock nowMs (hp_timelock p) = None"
    and "validateHashLock h = None" "validateTimelock nowMs t = None"
  shows "createClaimableBalance cfg sha256 env nowMs (p\<lparr>hp_hashLock := h, hp_timelock := t\<rparr>)
      = createClaimableBalance cfg sha256 env nowMs p
    \<and> (\<forall>tx \<in> set (snd (createClaimableBalance cfg sha256 env nowMs p)). \<exists>asset.
        tx_op tx = Create_claimable_balance asset (hp_amount p)
          [(hp_recipientPublicKey p, Unconditional), (tx_source tx, Unconditional)])"
proof
  have "create_tx cfg (p\<lparr>hp_hashLock := h, hp_timelock := t\<rparr>) = create_tx cfg p"
    by (rule ext) (simp add: create_tx_def)
  then show "createClaimableBalance cfg sha256 env nowMs (p\<lparr>hp_hashLock := h, hp_timelock := t\<rparr>)
      = createClaimableBalance cfg sha256 env nowMs p"
    using assms by (simp add: createClaimableBalance_def)
  have "snd (createClaimableBalance cfg sha256 env nowMs p) = snd (send env (hp_sourceSecretKey p) (create_tx cfg p))"
    using assms by (simp add: createClaimableBalance_def split_beta)
  then show "\<forall>tx \<in> set (snd (createClaimableBalance cfg sha256 env nowMs p)). \<exists>asset.
        tx_op tx = Create_claimable_balance asset (hp_amount p)
          [(hp_recipientPublicKey p, Unconditional), (tx_source tx, Unconditional)]"
    by (auto simp: create_tx_def dest!: send_submits)
qed

text \<open>The digests disagree: a lock from \<open>generatePreimageAndHash\<close> is a SHA-256 digest of bytes, and a
  claim compares it with the Keccak digest of a text. An honest claim is refused.\<close>

lemma generated_lock_refuses_claim:
  assumes "generatePreimageAndHash sha random = (preimage, lock)" "keccak (''0x'' @ preimage) \<noteq> lock" "lock \<noteq> []"
    and "cp_preimage p = preimage" "cp_expectedHashLock p = Some lock"
  shows "snd (claimWithPreimage cfg wide keccak env p) = []"
  using assms by (cases lock) (auto simp: claimWithPreimage_def split: option.splits sum.splits)

text \<open>A response whose result meta is a text and that has no envelope, as Horizon sends it, is reported
  as a failure after the balance was created.\<close>

lemma created_but_reported_failed:
  assumes "validateHashLock (hp_hashLock p) = None" "validateTimelock nowMs (hp_timelock p) = None"
    and "send env (hp_sourceSecretKey p) (create_tx cfg p) = (Inr response, [tx])"
    and "jget response ''result_meta_xdr'' = Some (JStr xdr)" "jget response ''envelope'' = None"
  shows "\<exists>m. createClaimableBalance cfg sha256 env nowMs p = (Inl (Other_error m), [tx])"
proof -
  have "response \<noteq> JNull" using assms(4) by (auto simp: jget_def)
  then have "search_meta response = Inr None"
    using assms(4) by (auto simp: search_meta_def js_member_def jget_def split: json.splits)
  moreover have "search_envelope sha256 response = Inr None"
    using assms(5) by (simp add: search_envelope_def envelope_operations_def)
  ultimately show ?thesis using assms(1-3)
    by (auto simp: createClaimableBalance_def extractClaimableBalanceId_def Let_def split: sum.splits)
qed

text \<open>Horizon names an issued asset by a text \<open>CODE:ISSUER\<close>; the reader reports it as \<open>XLM\<close>.\<close>

lemma issued_asset_reported_as_xlm:
  assumes "jget balance ''asset'' = Some (JStr a)" "balance_info_of balance = Inr info"
  shows "bi_assetCode info = JStr ''XLM''"
proof -
  have "balance \<noteq> JNull" using assms(1) by (auto simp: jget_def)
  then have "js_member (Some balance) ''asset'' = Inr (Some (JStr a))"
    using assms(1) by (cases balance) (simp_all add: js_member_def)
  moreover have "js_member (Some (JStr a)) ''asset_code'' = Inr None" by (simp add: js_member_def jget_def)
  ultimately show ?thesis using assms(2)
    by (auto simp: balance_info_of_def Let_def split: sum.splits if_splits)
qed

section \<open>Samples\<close>

definition sample_env :: stellar_env where
  "sample_env = \<lparr>se_keypair = Inr, se_record = (\<lambda>_. Inr (JObj [(''id'', JStr ''b1''), (''asset'', JStr ''native''),
      (''amount'', JStr ''10.0000000''), (''claimants'', JArr [JObj [(''destination'', JStr ''GA'')]])])),
    se_account = (\<lambda>_. Inr ()), se_build = (\<lambda>_. Inr ()), se_submit = (\<lambda>_. Inr (JObj [(''hash'', JStr ''h'')]))\<rparr>"

definition sample_htlc :: htlc_params where
  "sample_htlc = \<lparr>hp_sourceSecretKey = ''S'', hp_recipientPublicKey = ''GA'', hp_assetCode = ''XLM'', hp_assetIssuer = None,
    hp_amount = ''10'', hp_hashLock = replicate 64 CHR ''a'', hp_timelock = 10000, hp_memo = None\<rparr>"

theorem lock_never_reaches_chain_witness:
  "createClaimableBalance createTestnetConfig id sample_env 0
      (sample_htlc\<lparr>hp_hashLock := replicate 64 CHR ''b'', hp_timelock := 600000\<rparr>)
    = createClaimableBalance createTestnetConfig id sample_env 0 sample_htlc
   \<and> snd (createClaimableBalance createTestnetConfig id sample_env 0 sample_htlc) =
     [create_tx createTestnetConfig sample_htlc ''S'']"
proof
  show "createClaimableBalance createTestnetConfig id sample_env 0
      (sample_htlc\<lparr>hp_hashLock := replicate 64 CHR ''b'', hp_timelock := 600000\<rparr>)
    = createClaimableBalance createTestnetConfig id sample_env 0 sample_htlc"
    by (rule conjunct1[OF lock_never_reaches_chain]) code_simp+
  show "snd (createClaimableBalance createTestnetConfig id sample_env 0 sample_htlc) =
     [create_tx createTestnetConfig sample_htlc ''S'']"
    by code_simp
qed

definition sample_terms_ga :: escrow_terms where
  "sample_terms_ga = \<lparr>et_asset = ''XLM'', et_amount = ''10.0000000'', et_claimant = ''GA''\<rparr>"

definition sample_claim :: claim_params where
  "sample_claim = \<lparr>cp_claimerSecretKey = ''S'', cp_balanceId = ''b1'', cp_preimage = replicate 64 CHR ''a'',
    cp_expectedHashLock = None, cp_expected = Some sample_terms_ga\<rparr>"

lemma sample_gate:
  "\<exists>b. loadAndVerifyBalance (\<lambda>_. []) ''b1'' sample_terms_ga (loadBalance sample_env) = Inr b"
proof -
  let ?b = "\<lparr>br_id = ''b1'', br_asset = JStr ''native'', br_amount = ''10.0000000'', br_claimants = [(''GA'', None)],
    br_claimed = None\<rparr>"
  have l: "loadBalance sample_env ''b1'' = Inr (Some ?b)" by code_simp
  have "is_finite_number (to_number ''10.0000000'')" using fixed7_finite[of 100000000] by (simp add: fixed7_ten)
  moreover have "toFixed7 (\<lambda>_. []) (to_number ''10.0000000'') = ''10.0000000''"
    using number_fixed7[of 100000000 "\<lambda>_. []"] by (simp add: fixed7_ten)
  ultimately have "verifyBalanceMatchesEscrow (\<lambda>_. []) ?b sample_terms_ga = Inr ()"
    by (simp add: verify_ok sample_terms_ga_def canonicalAssetString_def)
  then show ?thesis using l by (auto simp: load_ok)
qed

lemma sample_claim_submits:
  "snd (claimWithPreimage createTestnetConfig (\<lambda>_. []) id sample_env sample_claim) =
    [claim_tx createTestnetConfig ''b1'' None ''S'']"
proof -
  have "hex64 (replicate 64 CHR ''a'')" by code_simp
  moreover have "snd (send sample_env ''S'' (claim_tx createTestnetConfig ''b1'' None)) =
    [claim_tx createTestnetConfig ''b1'' None ''S'']" by code_simp
  ultimately show ?thesis using sample_gate by (auto simp: claimWithPreimage_def sample_claim_def)
qed

theorem claims_only_the_escrow_witness:
  "escrow_balance (\<lambda>_. []) sample_env ''b1'' sample_terms_ga"
  using claims_only_the_escrow[of "claim_tx createTestnetConfig ''b1'' None ''S''" createTestnetConfig "\<lambda>_. []" id sample_env
      sample_claim undefined]
  by (simp add: sample_claim_submits) (simp add: sample_claim_def)

end
