(* ===== verification/Order_Book.thy ===== *)
theory Order_Book
  imports Json_Text Sdk_Amounts "HOL-Library.AList" "HOL-Library.Signed_Division" "HOL-Library.Multiset"
begin

text \<open>
  The order book of the relayer and its helpers: \<open>relayer/src/orders.ts\<close> and \<open>relayer/src/utils.ts\<close>.

  \<^item> A \<open>Map\<close> keeps the order of insertion and \<open>set\<close> overwrites in place, which is \<open>AList.update\<close>. The
    time is an argument, in seconds. \<open>sha\<close> is the hexadecimal SHA-256 of a text.
  \<^item> Page, limit and chain ids are whole numbers; \<open>None\<close> is undefined. An order has its fields in the
    order of the interface \<open>OrderInput\<close>.
  \<^item> Where the code draws a random number for display, the number is an argument.
\<close>

section \<open>Integers as text\<close>

text \<open>\<open>BigInt(s)\<close>; \<open>None\<close> where it throws.\<close>

definition is_radix_digit :: "nat \<Rightarrow> char \<Rightarrow> bool" where
  "is_radix_digit b c \<longleftrightarrow> (case hex_val (lower_char c) of None \<Rightarrow> False | Some v \<Rightarrow> v < b)"

definition radix_digits :: "nat \<Rightarrow> string \<Rightarrow> int option" where
  "radix_digits b s =
    (if s \<noteq> [] \<and> list_all (is_radix_digit b) s
     then Some (foldl (\<lambda>n c. int b * n + int (the (hex_val (lower_char c)))) 0 s) else None)"

definition BigInt :: "string \<Rightarrow> int option" where
  "BigInt text =
    (let s = trim_str text; low = toLowerCase s
     in if s = [] then Some 0
        else if take 2 low = ''0x'' then radix_digits 16 (drop 2 s)
        else if take 2 low = ''0o'' then radix_digits 8 (drop 2 s)
        else if take 2 low = ''0b'' then radix_digits 2 (drop 2 s)
        else case match_sign s of (sign, body) \<Rightarrow>
          if is_decimal body
          then Some (if sign = Some CHR ''-'' then - int (parse_digits body) else int (parse_digits body))
          else None)"

section \<open>Validation\<close>

definition token_symbols :: "string list" where
  "token_symbols = [''ETH'', ''USDC'', ''USDT'', ''DAI'', ''WETH'', ''BTC'', ''XLM'', ''MATIC'', ''BNB'']"

definition is_upper :: "char \<Rightarrow> bool" where
  "is_upper c \<longleftrightarrow> (let n = of_char c :: nat in 65 \<le> n \<and> n \<le> 90)"

definition is_base32 :: "char \<Rightarrow> bool" where
  "is_base32 c \<longleftrightarrow> is_upper c \<or> (let n = of_char c :: nat in 50 \<le> n \<and> n \<le> 55)"

definition is_alnum :: "char \<Rightarrow> bool" where
  "is_alnum c \<longleftrightarrow> is_upper c \<or> is_digit c \<or> (let n = of_char c :: nat in 97 \<le> n \<and> n \<le> 122)"

definition isValidTokenAddress :: "string \<Rightarrow> bool" where
  "isValidTokenAddress address =
    (if address = [] then False
     else if toLowerCase address \<in> set (map toLowerCase token_symbols) then True
     else if take 2 address = ''0x'' \<and> length address = 42 then list_all is_hex (drop 2 address)
     else length address \<le> 12 \<and> list_all is_alnum address)"

definition isValidWalletAddress :: "string \<Rightarrow> bool" where
  "isValidWalletAddress address =
    (if address = [] then False
     else if take 2 address = ''0x'' \<and> length address = 42 then list_all is_hex (drop 2 address)
     else if take 1 address = ''G'' \<and> length address = 56 then list_all is_base32 (drop 1 address)
     else length address = 56 \<and> list_all is_base32 address)"

record quote_request =
  qr_srcChain :: "int option"
  qr_dstChain :: "int option"
  qr_srcTokenAddress :: string
  qr_dstTokenAddress :: string
  qr_amount :: string
  qr_walletAddress :: string

text \<open>\<open>None\<close> is a valid request, \<open>Some\<close> carries the error.\<close>

definition first_missing :: "quote_request \<Rightarrow> string option" where
  "first_missing p =
    (let absent = (\<lambda>c. c = None \<or> c = Some (0 :: int))
     in map_option snd (List.find fst
       [(absent (qr_srcChain p), ''srcChain''), (absent (qr_dstChain p), ''dstChain''),
        (qr_srcTokenAddress p = [], ''srcTokenAddress''), (qr_dstTokenAddress p = [], ''dstTokenAddress''),
        (qr_amount p = [], ''amount''), (qr_walletAddress p = [], ''walletAddress'')]))"

definition validateQuoteRequest :: "quote_request \<Rightarrow> string option" where
  "validateQuoteRequest p =
    (case first_missing p of Some field \<Rightarrow> Some (''Missing required field: '' @ field)
     | None \<Rightarrow>
        if qr_srcChain p = qr_dstChain p then Some ''Source and destination chains must be different''
        else case BigInt (qr_amount p) of None \<Rightarrow> Some ''Invalid amount format''
        | Some amount \<Rightarrow>
            if amount \<le> 0 then Some ''Amount must be greater than 0''
            else if \<not> isValidTokenAddress (qr_srcTokenAddress p) \<or> \<not> isValidTokenAddress (qr_dstTokenAddress p)
              \<or> \<not> isValidWalletAddress (qr_walletAddress p)
            then Some ''Invalid address format'' else None)"

section \<open>Amounts\<close>

text \<open>Division of \<open>bigint\<close> truncates; \<open>10 ** decimals\<close> is exact up to 22 decimals.\<close>

definition calculateFee :: "string \<Rightarrow> int \<Rightarrow> string option" where
  "calculateFee amount feeRate = map_option (\<lambda>a. show_int ((a * feeRate) sdiv 10000)) (BigInt amount)"

definition calculateDestinationAmount :: "string \<Rightarrow> int \<Rightarrow> string option" where
  "calculateDestinationAmount amount feeRate =
    (case (BigInt amount, calculateFee amount feeRate) of
       (Some a, Some fee) \<Rightarrow> map_option (\<lambda>f. show_int (a - f)) (BigInt fee)
     | _ \<Rightarrow> None)"

definition strip_zeros :: "string \<Rightarrow> string" where
  "strip_zeros s = rev (dropWhile (\<lambda>c. c = CHR ''0'') (rev s))"

definition formatAmount :: "string \<Rightarrow> nat \<Rightarrow> string option" where
  "formatAmount amount decimals = map_option (\<lambda>a.
    (let integer = a sdiv 10 ^ decimals; remainder = a smod 10 ^ decimals
     in if remainder = 0 then show_int integer
        else show_int integer @ ''.'' @ strip_zeros (padStart (show_int remainder) decimals CHR ''0''))) (BigInt amount)"

text \<open>\<open>split('.')\<close>: the first part, and the second one if there is one.\<close>

definition split_dot :: "string \<Rightarrow> string \<times> string" where
  "split_dot s =
    (let notdot = (\<lambda>c. c \<noteq> CHR ''.'')
     in (takeWhile notdot s, takeWhile notdot (tl (dropWhile notdot s @ ''.''))))"

definition parseAmount :: "string \<Rightarrow> nat \<Rightarrow> string option" where
  "parseAmount amount decimals =
    (let (integer, decimal) = split_dot amount
     in map_option show_int (BigInt (integer @ padEnd decimal decimals CHR ''0'')))"

definition validatePagination :: "int option \<Rightarrow> int option \<Rightarrow> int \<times> int \<times> string option" where
  "validatePagination page limit =
    (let or_default = (\<lambda>v d. case v of None \<Rightarrow> d | Some n \<Rightarrow> if n = 0 then d else n)
     in (max 1 (or_default page 1), min 500 (max 1 (or_default limit 100)),
         if (case limit of None \<Rightarrow> False | Some n \<Rightarrow> n > 500) then Some ''Limit cannot exceed 500'' else None))"

section \<open>Orders\<close>

record order_input =
  oi_salt :: string
  oi_makerAsset :: string
  oi_takerAsset :: string
  oi_maker :: string
  oi_receiver :: string
  oi_makingAmount :: string
  oi_takingAmount :: string
  oi_makerTraits :: string

record signed_order =
  so_order :: order_input
  so_srcChainId :: int
  so_signature :: string
  so_extension :: string
  so_quoteId :: string
  so_secretHashes :: "string list option"

record active_order =
  ao_orderHash :: string
  ao_signature :: string
  ao_deadline :: int
  ao_auctionStartDate :: int
  ao_auctionEndDate :: int
  ao_quoteId :: string
  ao_remainingMakerAmount :: string
  ao_makerBalance :: string
  ao_makerAllowance :: string
  ao_isMakerContract :: bool
  ao_extension :: string
  ao_srcChainId :: int
  ao_dstChainId :: int
  ao_order :: order_input

record order_book =
  ob_activeOrders :: "(string \<times> active_order) list"
  ob_orderSecrets :: "(string \<times> string list) list"
  ob_completedOrders :: "string set"

definition order_members :: "order_input \<Rightarrow> int \<Rightarrow> (string \<times> json) list" where
  "order_members o' srcChainId =
    [(''salt'', JStr (oi_salt o')), (''makerAsset'', JStr (oi_makerAsset o')), (''takerAsset'', JStr (oi_takerAsset o')),
     (''maker'', JStr (oi_maker o')), (''receiver'', JStr (oi_receiver o')), (''makingAmount'', JStr (oi_makingAmount o')),
     (''takingAmount'', JStr (oi_takingAmount o')), (''makerTraits'', JStr (oi_makerTraits o')), (''srcChainId'', JNum srcChainId)]"

definition generateOrderHash :: "(string \<Rightarrow> string) \<Rightarrow> order_input \<Rightarrow> int \<Rightarrow> string" where
  "generateOrderHash sha o' srcChainId = ''0x'' @ sha (JSON_stringify (JObj (order_members o' srcChainId)))"

definition getDstChainId :: "int \<Rightarrow> int" where
  "getDstChainId srcChainId = (if srcChainId = 1 \<or> srcChainId = 11155111 then 999 else 1)"

definition active_order_of :: "string \<Rightarrow> int \<Rightarrow> signed_order \<Rightarrow> active_order" where
  "active_order_of orderHash now s =
    \<lparr>ao_orderHash = orderHash, ao_signature = so_signature s, ao_deadline = now + 24 * 60 * 60,
     ao_auctionStartDate = now, ao_auctionEndDate = now + 300, ao_quoteId = so_quoteId s,
     ao_remainingMakerAmount = oi_makingAmount (so_order s), ao_makerBalance = oi_makingAmount (so_order s),
     ao_makerAllowance = oi_makingAmount (so_order s), ao_isMakerContract = False, ao_extension = so_extension s,
     ao_srcChainId = so_srcChainId s, ao_dstChainId = getDstChainId (so_srcChainId s), ao_order = so_order s\<rparr>"

definition addOrder :: "(string \<Rightarrow> string) \<Rightarrow> int \<Rightarrow> signed_order \<Rightarrow> order_book \<Rightarrow> string \<times> order_book" where
  "addOrder sha now s b =
    (let orderHash = generateOrderHash sha (so_order s) (so_srcChainId s)
     in (orderHash, b\<lparr>ob_activeOrders := AList.update orderHash (active_order_of orderHash now s) (ob_activeOrders b),
           ob_orderSecrets := (case so_secretHashes s of
              Some (h # hs) \<Rightarrow> AList.update orderHash (h # hs) (ob_orderSecrets b) | _ \<Rightarrow> ob_orderSecrets b)\<rparr>))"

definition getOrderByHash :: "string \<Rightarrow> order_book \<Rightarrow> active_order option" where
  "getOrderByHash orderHash b = map_of (ob_activeOrders b) orderHash"

definition completeOrder :: "string \<Rightarrow> order_book \<Rightarrow> order_book" where
  "completeOrder orderHash b = b\<lparr>ob_activeOrders := AList.delete orderHash (ob_activeOrders b),
     ob_completedOrders := insert orderHash (ob_completedOrders b)\<rparr>"

definition secrets_of :: "string \<Rightarrow> order_book \<Rightarrow> string list" where
  "secrets_of orderHash b = (case map_of (ob_orderSecrets b) orderHash of None \<Rightarrow> [] | Some ss \<Rightarrow> ss)"

definition submitSecret :: "string \<Rightarrow> string \<Rightarrow> order_book \<Rightarrow> (string + bool) \<times> order_book" where
  "submitSecret secret orderHash b =
    (if getOrderByHash orderHash b = None then (Inl (''Order not found: '' @ orderHash), b)
     else (Inr True, b\<lparr>ob_orderSecrets := AList.update orderHash (secrets_of orderHash b @ [secret]) (ob_orderSecrets b)\<rparr>))"

definition clearExpiredOrders :: "int \<Rightarrow> order_book \<Rightarrow> nat \<times> order_book" where
  "clearExpiredOrders now b =
    (let expired = filter (\<lambda>(h, order). now > ao_deadline order) (ob_activeOrders b)
     in (length expired, b\<lparr>ob_activeOrders := filter (\<lambda>(h, order). \<not> now > ao_deadline order) (ob_activeOrders b)\<rparr>))"

definition getOrderCount :: "order_book \<Rightarrow> nat" where
  "getOrderCount b = length (ob_activeOrders b)"

section \<open>Pages\<close>

record page =
  pg_totalItems :: nat
  pg_itemsPerPage :: int
  pg_totalPages :: int
  pg_currentPage :: int
  pg_items :: "active_order list"

text \<open>\<open>Math.ceil\<close> of the quotient, and the slice; both are exact on whole numbers.\<close>

definition page_of :: "int option \<Rightarrow> int option \<Rightarrow> active_order list \<Rightarrow> page" where
  "page_of page limit orders =
    (case validatePagination page limit of (p, l, e) \<Rightarrow>
      \<lparr>pg_totalItems = length orders, pg_itemsPerPage = l, pg_totalPages = (int (length orders) + l - 1) div l,
       pg_currentPage = p, pg_items = take (nat l) (drop (nat ((p - 1) * l)) orders)\<rparr>)"

definition newest_first :: "active_order list \<Rightarrow> active_order list" where
  "newest_first orders = sort_key (\<lambda>order. - ao_auctionStartDate order) orders"

definition chain_filter :: "int option \<Rightarrow> int \<Rightarrow> bool" where
  "chain_filter wanted chainId \<longleftrightarrow> wanted = None \<or> wanted = Some 0 \<or> wanted = Some chainId"

definition getActiveOrders :: "int option \<Rightarrow> int option \<Rightarrow> int option \<Rightarrow> int option \<Rightarrow> order_book \<Rightarrow> page" where
  "getActiveOrders page limit srcChain dstChain b =
    page_of page limit (newest_first (filter (\<lambda>order. chain_filter dstChain (ao_dstChainId order))
      (filter (\<lambda>order. chain_filter srcChain (ao_srcChainId order)) (map snd (ob_activeOrders b)))))"

definition getOrdersByMaker :: "string \<Rightarrow> int option \<Rightarrow> int option \<Rightarrow> order_book \<Rightarrow> page" where
  "getOrdersByMaker makerAddress page limit b =
    page_of page limit (newest_first (filter (\<lambda>order. toLowerCase (oi_maker (ao_order order)) = toLowerCase makerAddress)
      (map snd (ob_activeOrders b))))"

section \<open>Status and secrets\<close>

datatype order_status_name = St_not_found | St_pending | St_executed | St_expired

text \<open>\<open>getOrderStatus\<close>, and the order it reports on when there is one.\<close>

definition getOrderStatus :: "int \<Rightarrow> string \<Rightarrow> order_book \<Rightarrow> order_status_name \<times> active_order option" where
  "getOrderStatus now orderHash b =
    (case getOrderByHash orderHash b of None \<Rightarrow> (St_not_found, None)
     | Some order \<Rightarrow>
        (if orderHash \<in> ob_completedOrders b then St_executed
         else if now > ao_deadline order then St_expired else St_pending, Some order))"

definition getMultipleOrderStatuses :: "int \<Rightarrow> string list \<Rightarrow> order_book \<Rightarrow> (string \<times> order_status_name \<times> bool) list" where
  "getMultipleOrderStatuses now orderHashes b = map (\<lambda>orderHash.
    (case getOrderByHash orderHash b of None \<Rightarrow> (orderHash, St_expired, False)
     | Some order \<Rightarrow>
        (orderHash, if now > ao_deadline order then St_expired
           else if orderHash \<in> ob_completedOrders b then St_executed else St_pending, True))) orderHashes"

record immutables =
  im_orderHash :: string
  im_hashlock :: string
  im_maker :: string
  im_taker :: string
  im_token :: string
  im_amount :: string
  im_safetyDeposit :: string
  im_timelocks :: string

record resolver_data =
  rd_multiple :: bool
  rd_secrets :: "(nat \<times> string) list"
  rd_src :: immutables
  rd_dst :: immutables
  rd_secretHashes :: "string list"

definition slice64 :: "string \<Rightarrow> string" where
  "slice64 orderHash = ''0x'' @ take 64 (drop 2 orderHash)"

definition getOrderSecrets :: "string \<Rightarrow> order_book \<Rightarrow> resolver_data option" where
  "getOrderSecrets orderHash b = map_option (\<lambda>order.
    (let o' = ao_order order; ss = secrets_of orderHash b;
         src = \<lparr>im_orderHash = orderHash, im_hashlock = ''0x'' @ replicate 64 CHR ''0'', im_maker = oi_maker o',
           im_taker = oi_receiver o', im_token = oi_makerAsset o', im_amount = oi_makingAmount o',
           im_safetyDeposit = oi_makingAmount o', im_timelocks = ''0x''\<rparr>
     in \<lparr>rd_multiple = False, rd_secrets = enumerate 0 ss, rd_src = src,
         rd_dst = src\<lparr>im_token := oi_takerAsset o', im_amount := oi_takingAmount o'\<rparr>, rd_secretHashes = ss\<rparr>))
    (getOrderByHash orderHash b)"

definition published_immutables :: "string \<Rightarrow> order_input \<Rightarrow> immutables" where
  "published_immutables orderHash o' =
    \<lparr>im_orderHash = orderHash, im_hashlock = slice64 orderHash, im_maker = oi_maker o', im_taker = oi_receiver o',
     im_token = oi_makerAsset o', im_amount = oi_makingAmount o', im_safetyDeposit = ''1000000000000000000'',
     im_timelocks = ''86400''\<rparr>"

definition getPublishedSecrets :: "string \<Rightarrow> order_book \<Rightarrow> string + resolver_data" where
  "getPublishedSecrets orderHash b =
    (case getOrderByHash orderHash b of None \<Rightarrow> Inl ''Order not found''
     | Some order \<Rightarrow>
        (let ss = secrets_of orderHash b; im = published_immutables orderHash (ao_order order)
         in Inr \<lparr>rd_multiple = (length ss > 1), rd_secrets = enumerate 0 ss, rd_src = im, rd_dst = im,
              rd_secretHashes = map (\<lambda>(i, s). slice64 s @ show_nat i) (enumerate 0 ss)\<rparr>))"

record public_action =
  pa_immutables :: immutables
  pa_chainId :: int
  pa_escrow :: string

definition getReadyToExecutePublicActions :: "int \<Rightarrow> order_book \<Rightarrow> public_action list" where
  "getReadyToExecutePublicActions now b =
    map (\<lambda>(orderHash, order). \<lparr>pa_immutables = published_immutables orderHash (ao_order order),
        pa_chainId = ao_srcChainId order, pa_escrow = ''0x'' @ take 40 (drop 2 orderHash)\<rparr>)
      (filter (\<lambda>(h, order). now > ao_deadline order) (ob_activeOrders b))"

text \<open>\<open>replace('a', 'b')\<close> replaces the first occurrence.\<close>

fun replace_first :: "char \<Rightarrow> char \<Rightarrow> string \<Rightarrow> string" where
  "replace_first a b [] = []"
| "replace_first a b (c # cs) = (if c = a then b # cs else c # replace_first a b cs)"

definition getAllReadyToAcceptSecretFills :: "order_book \<Rightarrow> (string \<times> string \<times> string \<times> string) list" where
  "getAllReadyToAcceptSecretFills b = map (\<lambda>(orderHash, order).
    (orderHash, oi_maker (ao_order order), slice64 orderHash,
     ''0x'' @ replace_first CHR ''a'' CHR ''b'' (take 64 (drop 2 orderHash)))) (ob_activeOrders b)"

section \<open>Fills\<close>

definition not_found :: "string \<Rightarrow> order_book \<Rightarrow> (active_order \<Rightarrow> 'a) \<Rightarrow> string + 'a" where
  "not_found orderHash b f =
    (case getOrderByHash orderHash b of None \<Rightarrow> Inl ''Order not found'' | Some order \<Rightarrow> Inr (f order))"

text \<open>The id and the progress of a fill; \<open>nowMs\<close> is the clock in milliseconds.\<close>

definition submitPartialFill :: "int \<Rightarrow> string \<Rightarrow> int \<Rightarrow> order_book \<Rightarrow> string + string \<times> int" where
  "submitPartialFill nowMs orderHash fragmentIndex b = not_found orderHash b (\<lambda>_.
    (''fill_'' @ orderHash @ ''_'' @ show_int fragmentIndex @ ''_'' @ show_int nowMs, min 100 ((fragmentIndex + 1) * 20)))"

definition getOrderFragments :: "string \<Rightarrow> order_book \<Rightarrow> string + (nat \<times> nat \<times> string) list" where
  "getOrderFragments orderHash b = not_found orderHash b (\<lambda>_.
    map (\<lambda>i. (i, 20, slice64 orderHash @ show_nat i)) [0..<5])"

text \<open>\<open>percent\<close> is the random number below 100. \<open>None\<close> where \<open>BigInt\<close> throws.\<close>

definition getOrderProgress :: "nat \<Rightarrow> string \<Rightarrow> order_book \<Rightarrow> string + (string \<times> nat \<times> nat) option" where
  "getOrderProgress percent orderHash b = not_found orderHash b (\<lambda>order.
    map_option (\<lambda>total. (show_int ((total * int percent) sdiv 100), percent, percent div 20))
      (BigInt (oi_makingAmount (ao_order order))))"

definition getFillRecommendations :: "int \<Rightarrow> string \<Rightarrow> order_book \<Rightarrow> string + (nat \<times> string \<times> string \<times> int) list option" where
  "getFillRecommendations now orderHash b = not_found orderHash b (\<lambda>order.
    map_option (\<lambda>total. map (\<lambda>i. (i, show_int (total sdiv 5), show_int ((total sdiv 5) sdiv 100), ao_deadline order - now)) [0..<5])
      (BigInt (oi_makingAmount (ao_order order))))"

section \<open>Pages\<close>

lemma page_bounds: "validatePagination page limit = (p, l, e) \<Longrightarrow> 1 \<le> p \<and> 1 \<le> l \<and> l \<le> 500"
  by (auto simp: validatePagination_def Let_def)

lemma validate_page: "0 < p \<Longrightarrow> fst (validatePagination (Some p) limit) = p"
  by (auto simp: validatePagination_def Let_def)

lemma validate_limit: "snd (validatePagination page limit) = snd (validatePagination page' limit)"
  by (simp add: validatePagination_def Let_def)

lemma concat_slices: "concat (map (\<lambda>i. take l (drop (i * l) xs)) [0..<n]) = take (n * l) xs"
proof (induction n)
  case (Suc n)
  then show ?case using take_add[of "n * l" l xs] by (simp add: add.commute)
qed simp

lemma pages_cover:
  "concat (map (\<lambda>i. pg_items (page_of (Some (1 + int i)) limit xs)) [0..<nat (pg_totalPages (page_of None limit xs))]) = xs"
proof -
  obtain p l e where v: "validatePagination None limit = (p, l, e)" by (cases "validatePagination None limit")
  then have l: "1 \<le> l" using page_bounds by blast
  have items: "pg_items (page_of (Some (1 + int i)) limit xs) = take (nat l) (drop (i * nat l) xs)" for i
  proof -
    have "fst (snd (validatePagination (Some (1 + int i)) limit)) = l"
      using v validate_limit[of "Some (1 + int i)" limit None] by simp
    moreover have "fst (validatePagination (Some (1 + int i)) limit) = 1 + int i" by (rule validate_page) simp
    ultimately show ?thesis using l
      by (cases "validatePagination (Some (1 + int i)) limit") (simp add: page_of_def nat_mult_distrib)
  qed
  let ?n = "nat (pg_totalPages (page_of None limit xs))"
  have "length xs \<le> ?n * nat l"
  proof -
    have "int (length xs) \<le> ((int (length xs) + l - 1) div l) * l"
    proof -
      have "(int (length xs) + l - 1) div l * l + (int (length xs) + l - 1) mod l = int (length xs) + l - 1" by simp
      moreover have "(int (length xs) + l - 1) mod l < l" using l by simp
      ultimately show ?thesis by linarith
    qed
    moreover have "0 \<le> (int (length xs) + l - 1) div l" using l by (simp add: pos_imp_zdiv_nonneg_iff)
    ultimately have "length xs \<le> nat (((int (length xs) + l - 1) div l) * l)" by linarith
    then show ?thesis using v l \<open>0 \<le> _\<close> by (simp add: page_of_def nat_mult_distrib)
  qed
  then show ?thesis by (simp add: items concat_slices)
qed

definition listed :: "int option \<Rightarrow> int option \<Rightarrow> order_book \<Rightarrow> active_order list" where
  "listed srcChain dstChain b = filter (\<lambda>order. chain_filter srcChain (ao_srcChainId order) \<and> chain_filter dstChain (ao_dstChainId order))
    (map snd (ob_activeOrders b))"

text \<open>A client that walks through the pages sees every order once. Whatever limit and filters it asks for,
  no page has more than 500 entries, and the pages from the first to the last one announced are, put together, the active orders
  that pass the filters, with the newest auction first and orders of the same second as they were added.\<close>

theorem order_pages_complete:
  "(let walk = concat (map (\<lambda>i. pg_items (getActiveOrders (Some (1 + int i)) limit srcChain dstChain b))
        [0..<nat (pg_totalPages (getActiveOrders None limit srcChain dstChain b))])
    in mset walk = mset (listed srcChain dstChain b)
      \<and> sorted (map (\<lambda>order. - ao_auctionStartDate order) walk)
      \<and> (\<forall>t. filter (\<lambda>order. ao_auctionStartDate order = t) walk
           = filter (\<lambda>order. ao_auctionStartDate order = t) (listed srcChain dstChain b)))
    \<and> length (pg_items (getActiveOrders page limit srcChain dstChain b)) \<le> 500"
proof -
  let ?xs = "listed srcChain dstChain b"
  have all: "getActiveOrders pg limit srcChain dstChain b = page_of pg limit (newest_first ?xs)" for pg
    by (simp add: getActiveOrders_def listed_def conj_commute)
  have "length (pg_items (getActiveOrders page limit srcChain dstChain b)) \<le> 500"
    using page_bounds by (cases "validatePagination page limit") (fastforce simp: all page_of_def)
  moreover have "filter (\<lambda>order. ao_auctionStartDate order = t) (newest_first ?xs) = filter (\<lambda>order. ao_auctionStartDate order = t) ?xs" for t
    using sort_key_stable[of "\<lambda>order. - ao_auctionStartDate order" "- t" ?xs] by (simp add: newest_first_def)
  ultimately show ?thesis by (simp add: all pages_cover newest_first_def)
qed

section \<open>Amounts as text\<close>

lemma is_digit_not_x: "is_digit c \<Longrightarrow> lower_char c = c \<and> c \<noteq> CHR ''x'' \<and> c \<noteq> CHR ''o'' \<and> c \<noteq> CHR ''b''"
  by (auto simp: is_digit_def lower_char_def)

lemma BigInt_decimal:
  assumes "is_decimal s"
  shows "BigInt s = Some (int (parse_digits s))"
proof -
  obtain c cs where s: "s = c # cs" using assms by (cases s) (auto simp: is_decimal_def)
  have all: "list_all is_digit s" using assms by (simp add: is_decimal_def)
  then have "is_digit (last s)" using s by (auto simp: list_all_iff)
  then have trim: "trim_str s = s"
    using s all by (intro trim_str_fixed) (auto simp: digit_not_space)
  have "toLowerCase s = s" using all by (auto simp: toLowerCase_def list_all_iff is_digit_not_x intro: map_idI)
  moreover have "take 2 s \<noteq> [CHR ''0'', CHR ''x'']" "take 2 s \<noteq> [CHR ''0'', CHR ''o'']" "take 2 s \<noteq> [CHR ''0'', CHR ''b'']"
    using all s by (cases cs; auto dest: is_digit_not_x)+
  moreover have "match_sign s = (None, s)" using all s by (auto simp: match_sign_def dest: digit_not_sign)
  ultimately show ?thesis using trim s assms by (auto simp: BigInt_def Let_def)
qed

lemma strip_pad: "padEnd (strip_zeros s) (length s) CHR ''0'' = s"
proof -
  have "rev s = takeWhile (\<lambda>c. c = CHR ''0'') (rev s) @ dropWhile (\<lambda>c. c = CHR ''0'') (rev s)" by simp
  then have "s = rev (dropWhile (\<lambda>c. c = CHR ''0'') (rev s)) @ rev (takeWhile (\<lambda>c. c = CHR ''0'') (rev s))"
    by (metis rev_append rev_rev_ident)
  moreover have "takeWhile (\<lambda>c. c = CHR ''0'') xs = replicate (length (takeWhile (\<lambda>c. c = CHR ''0'') xs)) CHR ''0''" for xs
    by (induction xs) auto
  then have "rev (takeWhile (\<lambda>c. c = CHR ''0'') (rev s)) = replicate (length (takeWhile (\<lambda>c. c = CHR ''0'') (rev s))) CHR ''0''"
    by (metis rev_replicate)
  moreover have "length s - length (dropWhile (\<lambda>c. c = CHR ''0'') (rev s)) = length (takeWhile (\<lambda>c. c = CHR ''0'') (rev s))"
    by (metis add_diff_cancel_right' length_append length_rev takeWhile_dropWhile_id)
  ultimately show ?thesis unfolding padEnd_def strip_zeros_def by simp
qed

lemma split_digits: "list_all is_digit a \<Longrightarrow> list_all is_digit b \<Longrightarrow> split_dot (a @ ''.'' @ b) = (a, b)"
  and split_whole: "list_all is_digit a \<Longrightarrow> split_dot a = (a, [])"
proof -
  have nd: "is_digit c \<Longrightarrow> c \<noteq> CHR ''.''" for c by (auto simp: is_digit_def)
  have t: "takeWhile (\<lambda>c. c \<noteq> CHR ''.'') x = x" "dropWhile (\<lambda>c. c \<noteq> CHR ''.'') x = []" if "list_all is_digit x" for x
    using that nd by (auto simp: list_all_iff takeWhile_eq_all_conv)
  have t2: "takeWhile (\<lambda>c. c \<noteq> CHR ''.'') (x @ CHR ''.'' # y) = x" "dropWhile (\<lambda>c. c \<noteq> CHR ''.'') (x @ CHR ''.'' # y) = CHR ''.'' # y"
    if "list_all is_digit x" for x y
    using that nd by (induction x) auto
  show "list_all is_digit a \<Longrightarrow> list_all is_digit b \<Longrightarrow> split_dot (a @ ''.'' @ b) = (a, b)"
    by (simp add: split_dot_def t t2)
  show "list_all is_digit a \<Longrightarrow> split_dot a = (a, [])" by (simp add: split_dot_def t)
qed

lemma strip_zeros_digits: "list_all is_digit s \<Longrightarrow> list_all is_digit (strip_zeros s)"
  by (auto simp: strip_zeros_def list_all_iff dest: set_dropWhileD)

text \<open>What is displayed is parsed back. A whole amount that is not negative, formatted with any number of
  decimals and parsed with as many, is the amount again. The formatted text has no zeros at its end.\<close>

theorem parse_format_amount:
  assumes "formatAmount (show_nat n) decimals = Some t"
  shows "parseAmount t decimals = Some (show_nat n) \<and> (CHR ''.'' \<in> set t \<longrightarrow> last t \<noteq> CHR ''0'')"
proof -
  let ?q = "n div 10 ^ decimals" and ?r = "n mod 10 ^ decimals"
  let ?f = "padStart (show_nat ?r) decimals CHR ''0''"
  have b: "BigInt (show_nat n) = Some (int n)" by (simp add: BigInt_decimal)
  have q: "int n sdiv 10 ^ decimals = int ?q" "int n smod 10 ^ decimals = int ?r"
    by (auto simp: signed_divide_int_def signed_modulo_int_def zdiv_int zmod_int sgn_if)
  have t: "t = (if ?r = 0 then show_nat ?q else show_nat ?q @ ''.'' @ strip_zeros ?f)"
    using assms b q by (auto simp: formatAmount_def Let_def)
  have dq: "list_all is_digit (show_nat m)" for m by (rule show_nat_digits)
  have df: "list_all is_digit ?f" using dq by (auto simp: padStart_def list_all_iff is_digit_def)
  have parse: "parseAmount u decimals = Some (show_nat n)"
    if "split_dot u = (show_nat ?q, w)" "padEnd w decimals CHR ''0'' = v" "list_all is_digit v" "length v = decimals" "parse_digits v = ?r" for u v w
  proof -
    have "is_decimal (show_nat ?q @ v)" using that(3) dq show_nat_digits(2) by (simp add: is_decimal_def)
    moreover have "parse_digits (show_nat ?q @ v) = n" using that(4,5) div_mult_mod_eq[of n "10 ^ decimals"]
      by (simp only: parse_digits_append parse_show_nat)
    ultimately show ?thesis using that(1,2) by (simp add: parseAmount_def BigInt_decimal)
  qed
  show ?thesis
  proof (cases "?r = 0")
    case True
    have "parseAmount t decimals = Some (show_nat n)"
      by (rule parse[where w = "[]" and v = "replicate decimals CHR ''0''"])
        (use t True split_whole[OF dq] in \<open>auto simp: padEnd_def list_all_iff is_digit_def\<close>)
    moreover have "CHR ''.'' \<notin> set t" using t True dq[of ?q] by (auto simp: list_all_iff is_digit_def)
    ultimately show ?thesis by simp
  next
    case False
    then have pos: "0 < decimals" by (cases decimals) auto
    have len: "length ?f = decimals" using show_nat_length[of ?r decimals] pos by simp
    have "parseAmount t decimals = Some (show_nat n)"
      by (rule parse[where w = "strip_zeros ?f" and v = ?f])
        (use t False split_digits[OF dq strip_zeros_digits[OF df]] strip_pad[of ?f] len df in simp_all)
    moreover have "last t \<noteq> CHR ''0''"
    proof (cases "strip_zeros ?f = []")
      case True
      then show ?thesis using t False by simp
    next
      case ne: False
      then have "last (strip_zeros ?f) = hd (dropWhile (\<lambda>c. c = CHR ''0'') (rev ?f))" "dropWhile (\<lambda>c. c = CHR ''0'') (rev ?f) \<noteq> []"
        by (auto simp: strip_zeros_def last_rev)
      then show ?thesis using t False ne hd_dropWhile[of "\<lambda>c. c = CHR ''0''" "rev ?f"] by simp
    qed
    ultimately show ?thesis by simp
  qed
qed

theorem parse_format_amount_witness:
  "formatAmount (show_nat 1500) 3 = Some ''1.5'' \<and> parseAmount ''1.5'' 3 = Some (show_nat 1500)"
proof -
  have "formatAmount (show_nat 1500) 3 = Some ''1.5''" by code_simp
  with parse_format_amount[of 1500 3 "''1.5''"] show ?thesis by simp
qed

text \<open>Outside of this the two do not fit: a negative amount gives a text that is no number, and decimals
  beyond the precision shift the point instead of being refused.\<close>

lemma amounts_beyond:
  "formatAmount ''-5'' 1 = Some ''0.-5'' \<and> parseAmount ''0.-5'' 1 = None \<and> parseAmount ''1.234'' 2 = Some ''1234''"
  by code_simp

section \<open>The hash of an order\<close>

lemma order_members_inj: "order_members x c = order_members y d \<Longrightarrow> x = y \<and> c = d"
  by (cases x; cases y) (simp add: order_members_def)

lemma order_hash_binds:
  assumes "generateOrderHash sha x c = generateOrderHash sha y d" "0 \<le> c" "0 \<le> d"
  shows "x = y \<and> c = d \<or> (\<exists>s t. s \<noteq> t \<and> sha s = sha t)"
proof (cases "JSON_stringify (JObj (order_members x c)) = JSON_stringify (JObj (order_members y d))")
  case True
  have "JSON_parse (JSON_stringify (JObj (order_members z e))) = Some (JObj (order_members z e))" if "0 \<le> e" for z e
    by (rule JSON_parse_stringify) (use that in \<open>simp_all add: order_members_def\<close>)
  then show ?thesis using True assms(2,3) order_members_inj by (metis json.inject(6) option.inject)
next
  case False
  then show ?thesis using assms(1) unfolding generateOrderHash_def by blast
qed

section \<open>Histories of the book\<close>

datatype book_op = Add int signed_order | Submit string string | Complete string | Clear int

fun book_step :: "(string \<Rightarrow> string) \<Rightarrow> book_op \<Rightarrow> order_book \<Rightarrow> order_book" where
  "book_step sha (Add now s) b = snd (addOrder sha now s b)"
| "book_step sha (Submit secret h) b = snd (submitSecret secret h b)"
| "book_step sha (Complete h) b = completeOrder h b"
| "book_step sha (Clear now) b = snd (clearExpiredOrders now b)"

definition book_run :: "(string \<Rightarrow> string) \<Rightarrow> book_op list \<Rightarrow> order_book" where
  "book_run sha ops = fold (book_step sha) ops \<lparr>ob_activeOrders = [], ob_orderSecrets = [], ob_completedOrders = {}\<rparr>"

lemma book_run_snoc: "book_run sha (ops @ [p]) = book_step sha p (book_run sha ops)"
  by (simp add: book_run_def)

text \<open>The order book lists every order once, under its hash, and an order lives for a day.\<close>

definition entry_ok :: "(string \<Rightarrow> string) \<Rightarrow> string \<times> active_order \<Rightarrow> bool" where
  "entry_ok sha e = (case e of (h, order) \<Rightarrow> h = ao_orderHash order
     \<and> h = generateOrderHash sha (ao_order order) (ao_srcChainId order)
     \<and> ao_deadline order = ao_auctionStartDate order + 86400
     \<and> ao_dstChainId order = getDstChainId (ao_srcChainId order))"

lemma active_order_ok: "entry_ok sha (generateOrderHash sha (so_order s) (so_srcChainId s),
    active_order_of (generateOrderHash sha (so_order s) (so_srcChainId s)) now s)"
  by (simp add: entry_ok_def active_order_of_def)

lemma update_set: "e \<in> set (AList.update k v xs) \<Longrightarrow> e = (k, v) \<or> e \<in> set xs"
  by (induction xs) (auto split: if_splits)

lemma delete_set: "e \<in> set (AList.delete k xs) \<Longrightarrow> e \<in> set xs"
  by (auto simp: AList.delete_eq)

lemma book_run_ok:
  "distinct (map fst (ob_activeOrders (book_run sha ops))) \<and> list_all (entry_ok sha) (ob_activeOrders (book_run sha ops))"
proof (induction ops rule: rev_induct)
  case Nil
  then show ?case by (simp add: book_run_def)
next
  case (snoc p ops)
  note d = snoc[THEN conjunct1] and w = snoc[THEN conjunct2, unfolded list_all_iff, rule_format]
  show ?case
  proof (cases p)
    case (Add now s)
    show ?thesis using d w active_order_ok[of sha s now]
      by (auto simp: Add book_run_snoc addOrder_def Let_def list_all_iff distinct_update dest!: update_set)
  next
    case (Submit secret h)
    then show ?thesis using snoc by (simp add: book_run_snoc submitSecret_def)
  next
    case (Complete h)
    then show ?thesis using d w
      by (auto simp: book_run_snoc completeOrder_def list_all_iff distinct_delete dest!: delete_set)
  next
    case (Clear now)
    then show ?thesis using d w
      by (auto simp: book_run_snoc clearExpiredOrders_def Let_def list_all_iff distinct_map_filter)
  qed
qed

lemma active_added:
  assumes "getOrderByHash h (book_run sha ops) \<noteq> None"
  shows "\<exists>pre now s post. ops = pre @ Add now s # post \<and> generateOrderHash sha (so_order s) (so_srcChainId s) = h
    \<and> Complete h \<notin> set post"
  using assms
proof (induction ops rule: rev_induct)
  case Nil
  then show ?case by (simp add: book_run_def getOrderByHash_def)
next
  case (snoc p ops)
  show ?case
  proof (cases "\<exists>now s. p = Add now s \<and> generateOrderHash sha (so_order s) (so_srcChainId s) = h")
    case True
    then show ?thesis by force
  next
    case False
    have "getOrderByHash h (book_run sha ops) \<noteq> None \<and> p \<noteq> Complete h"
    proof (cases p)
      case (Clear now)
      then show ?thesis using snoc.prems
        by (auto simp: book_run_snoc clearExpiredOrders_def getOrderByHash_def Let_def map_of_eq_None_iff)
    qed (use False snoc.prems in \<open>auto simp: book_run_snoc addOrder_def submitSecret_def completeOrder_def getOrderByHash_def
          Let_def update_conv' delete_conv' split: if_splits\<close>)
    then obtain pre now s post where "ops = pre @ Add now s # post" "generateOrderHash sha (so_order s) (so_srcChainId s) = h"
      "Complete h \<notin> set (post @ [p])" using snoc.IH by auto
    then show ?thesis by (intro exI[of _ pre] exI[of _ now] exI[of _ s] exI[of _ "post @ [p]"]) simp
  qed
qed

lemma completed_requested: "h \<in> ob_completedOrders (book_run sha ops) \<Longrightarrow> Complete h \<in> set ops"
proof (induction ops rule: rev_induct)
  case (snoc p ops)
  then show ?case
    by (cases p) (auto simp: book_run_snoc addOrder_def submitSecret_def completeOrder_def clearExpiredOrders_def Let_def split: if_splits)
qed (simp add: book_run_def)

text \<open>The status executed is reported for no order that was just completed. Completing an order
  removes it, so it is reported as not found by one routine and as expired by the other. Executed is the answer only
  for an order that somebody added again, under the same hash, after its completion.\<close>

theorem executed_means_added_again:
  "(fst (getOrderStatus now h (book_run sha ops)) = St_executed \<longrightarrow>
      (\<exists>pre mid post t s. ops = pre @ Complete h # mid @ Add t s # post
        \<and> generateOrderHash sha (so_order s) (so_srcChainId s) = h))
    \<and> fst (getOrderStatus now h (book_run sha (ops @ [Complete h]))) = St_not_found
    \<and> getMultipleOrderStatuses now [h] (book_run sha (ops @ [Complete h])) = [(h, St_expired, False)]"
proof (intro conjI impI)
  assume "fst (getOrderStatus now h (book_run sha ops)) = St_executed"
  then have a: "getOrderByHash h (book_run sha ops) \<noteq> None" and c: "Complete h \<in> set ops"
    by (auto simp: getOrderStatus_def split: option.splits if_splits intro: completed_requested)
  from active_added[OF a] obtain pre t s post where ops: "ops = pre @ Add t s # post"
    "generateOrderHash sha (so_order s) (so_srcChainId s) = h" "Complete h \<notin> set post" by blast
  then have "Complete h \<in> set pre" using c by auto
  then show "\<exists>pre mid post t s. ops = pre @ Complete h # mid @ Add t s # post
      \<and> generateOrderHash sha (so_order s) (so_srcChainId s) = h"
    using ops by (metis append.assoc append_Cons split_list)
qed (simp_all add: book_run_snoc completeOrder_def getOrderStatus_def getMultipleOrderStatuses_def getOrderByHash_def delete_conv')

definition sample_signed :: signed_order where
  "sample_signed = \<lparr>so_order = \<lparr>oi_salt = ''1'', oi_makerAsset = ''ETH'', oi_takerAsset = ''XLM'', oi_maker = ''0xA'',
     oi_receiver = ''G1'', oi_makingAmount = ''10'', oi_takingAmount = ''20'', oi_makerTraits = ''0''\<rparr>, so_srcChainId = 1,
     so_signature = [], so_extension = [], so_quoteId = [], so_secretHashes = None\<rparr>"

theorem executed_means_added_again_witness:
  "(let sha = (\<lambda>s. show_nat (length s)); h = generateOrderHash sha (so_order sample_signed) (so_srcChainId sample_signed);
      ops = [Add 5 sample_signed, Complete h, Add 6 sample_signed]
    in fst (getOrderStatus 7 h (book_run sha ops)) = St_executed
      \<and> (\<exists>pre mid post t s. ops = pre @ Complete h # mid @ Add t s # post
          \<and> generateOrderHash sha (so_order s) (so_srcChainId s) = h))"
proof -
  let ?sha = "\<lambda>s :: string. show_nat (length s)"
  let ?h = "generateOrderHash ?sha (so_order sample_signed) (so_srcChainId sample_signed)"
  have "fst (getOrderStatus 7 ?h (book_run ?sha [Add 5 sample_signed, Complete ?h, Add 6 sample_signed])) = St_executed"
    by code_simp
  with executed_means_added_again[of 7 ?h ?sha "[Add 5 sample_signed, Complete ?h, Add 6 sample_signed]"]
  show ?thesis unfolding Let_def by blast
qed

end
