(* ===== verification/Price_Cache.thy ===== *)
theory Price_Cache
  imports Js_Arith
begin

text \<open>
  The price cache of the relayer (\<open>relayer/src/index.ts\<close>): \<open>fetchPricesFromCoinGecko\<close>,
  \<open>triggerBackgroundRefresh\<close>, \<open>getPriceSnapshot\<close> and \<open>GET /api/prices\<close>.

  \<^item> A call of \<open>getPriceSnapshot\<close> and the answer of the price service are events. At most one request is
    in flight; \<open>pc_inflight\<close> holds the time of its start, \<open>pc_waiting\<close> the number of callers that wait for it.
  \<^item> \<open>pc_served\<close> lists what callers got and when, \<open>pc_fetches\<close> when a request was started; the code keeps
    neither. The promise resolves in one step with its \<open>finally\<close>.
\<close>

datatype price_source = Coingecko | Fallback | Cache

record price_snapshot =
  xlmUsdPrice :: js_number
  ethUsdPrice :: js_number
  ethToXlmRate :: js_number
  fetchedAt :: int
  price_source :: price_source

definition PRICE_CACHE_FRESH_MS :: int where
  "PRICE_CACHE_FRESH_MS = 15000"

definition PRICE_CACHE_STALE_MS :: int where
  "PRICE_CACHE_STALE_MS = 60000"

definition fallback_prices :: "int \<Rightarrow> price_snapshot" where
  "fallback_prices now = \<lparr>xlmUsdPrice = decimal_value 12 (- 2), ethUsdPrice = Fin 3500,
     ethToXlmRate = js_div (Fin 3500) (decimal_value 12 (- 2)), fetchedAt = now, price_source = Fallback\<rparr>"

text \<open>The answer of the price service: none, a failure status, or the two prices; a price that is no number
  is \<open>None\<close>.\<close>

datatype price_answer = No_answer | Not_ok | Prices "js_number option" "js_number option"

definition positive_price :: "js_number option \<Rightarrow> bool" where
  "positive_price p \<longleftrightarrow> (case p of None \<Rightarrow> False | Some x \<Rightarrow> \<not> (js_less x (Fin 0) \<or> x = Fin 0))"

definition fetchPrices :: "int \<Rightarrow> price_answer \<Rightarrow> int \<Rightarrow> price_snapshot" where
  "fetchPrices startedAt answer now =
    (case answer of
       Prices xlm eth \<Rightarrow>
         if \<not> positive_price xlm \<or> \<not> positive_price eth then fallback_prices startedAt
         else \<lparr>xlmUsdPrice = the xlm, ethUsdPrice = the eth, ethToXlmRate = js_div (the eth) (the xlm),
                fetchedAt = now, price_source = Coingecko\<rparr>
     | _ \<Rightarrow> fallback_prices startedAt)"

section \<open>The cache\<close>

record price_cache =
  pc_cached :: "price_snapshot option"
  pc_inflight :: "int option"
  pc_waiting :: nat
  pc_served :: "(int \<times> price_snapshot) list"
  pc_fetches :: "int list"

definition triggerRefresh :: "int \<Rightarrow> price_cache \<Rightarrow> price_cache" where
  "triggerRefresh now c =
    (if pc_inflight c \<noteq> None then c else c\<lparr>pc_inflight := Some now, pc_fetches := pc_fetches c @ [now]\<rparr>)"

definition getPriceSnapshot :: "int \<Rightarrow> price_cache \<Rightarrow> price_cache" where
  "getPriceSnapshot now c =
    (let serve = (\<lambda>p c. c\<lparr>pc_served := pc_served c @ [(now, p\<lparr>price_source := Cache\<rparr>)]\<rparr>);
         wait = (\<lambda>c. c\<lparr>pc_waiting := pc_waiting c + 1\<rparr>)
     in case pc_cached c of
          None \<Rightarrow> wait (triggerRefresh now c)
        | Some p \<Rightarrow>
            (let age = now - fetchedAt p
             in if age < PRICE_CACHE_FRESH_MS then serve p c
                else if age < PRICE_CACHE_STALE_MS then serve p (triggerRefresh now c)
                else wait (triggerRefresh now c)))"

definition price_fetched :: "price_answer \<Rightarrow> int \<Rightarrow> price_cache \<Rightarrow> price_cache" where
  "price_fetched answer now c =
    (case pc_inflight c of None \<Rightarrow> c
     | Some startedAt \<Rightarrow>
        (let p = fetchPrices startedAt answer now
         in c\<lparr>pc_cached := Some p, pc_inflight := None, pc_waiting := 0,
              pc_served := pc_served c @ replicate (pc_waiting c) (now, p)\<rparr>))"

text \<open>The numbers of the reply of \<open>GET /api/prices\<close>: XLM per ETH and back.\<close>

definition prices_reply :: "price_snapshot \<Rightarrow> js_number \<times> js_number \<times> js_number \<times> js_number" where
  "prices_reply p = (xlmUsdPrice p, ethUsdPrice p, js_div (xlmUsdPrice p) (ethUsdPrice p), ethToXlmRate p)"

datatype price_event = Ask int | Fetched price_answer int


fun price_step :: "price_event \<Rightarrow> price_cache \<Rightarrow> price_cache" where
  "price_step (Ask now) c = getPriceSnapshot now c"
| "price_step (Fetched answer now) c = price_fetched answer now c"

definition price_run :: "price_event list \<Rightarrow> price_cache" where
  "price_run evs = fold price_step evs
    \<lparr>pc_cached = None, pc_inflight = None, pc_waiting = 0, pc_served = [], pc_fetches = []\<rparr>"


section \<open>What the cache guarantees\<close>










lemma trigger_frame [simp]: "pc_cached (triggerRefresh now c) = pc_cached c" "pc_served (triggerRefresh now c) = pc_served c"
  "pc_inflight (triggerRefresh now c) \<noteq> None"
  by (auto simp: triggerRefresh_def)





section \<open>An outage\<close>

definition sample_prices :: price_answer where
  "sample_prices = Prices (Some (Fin (1 / 8))) (Some (Fin 4000))"

definition outage :: "price_event list" where
  "outage = [Ask 0, Fetched sample_prices 1, Ask 20000, Fetched No_answer 21000, Ask 21500]"

lemma fallback_sel: "fetchedAt (fallback_prices t) = t" "ethUsdPrice (fallback_prices t) = Fin 3500"
  by (simp_all add: fallback_prices_def)

lemmas price_eval = price_run_def outage_def sample_prices_def getPriceSnapshot_def triggerRefresh_def price_fetched_def
  fetchPrices_def positive_price_def fallback_sel PRICE_CACHE_FRESH_MS_def PRICE_CACHE_STALE_MS_def Let_def


text \<open>A refresh that fails does not keep the old entry: the request never rejects, so the fixed prices replace
  the real ones, and are served as prices from the cache.\<close>

lemma outage_replaces_prices:
  "map (\<lambda>(t, p). (t, ethUsdPrice p, price_source p)) (pc_served (price_run outage))
    = [(1, Fin 4000, Coingecko), (20000, Fin 4000, Cache), (21500, Fin 3500, Cache)]"
  by (simp add: price_eval)

end
