(* ===== verification/Chain_Monitor.thy ===== *)
theory Chain_Monitor
  imports Refund_Watchdog
begin

text \<open>
  The lazy chain monitoring of the relayer (\<open>relayer/src/index.ts\<close>): \<open>storeActiveOrder\<close>,
  \<open>ensureChainMonitoring\<close>, \<open>startChainMonitoring\<close>, \<open>stopChainMonitoring\<close> and \<open>reconcileChainMonitoring\<close>, and
  the presence of visitors (\<open>relayer/src/site-presence.ts\<close>).

  \<^item> A start waits for the block number, for the poller of the factory and, away from mainnet, for the
    listener of the bridge. Its stage is an entry of \<open>cm_starts\<close>; the answer is an event.
  \<^item> \<open>cm_pollers\<close> counts the running pollers of incoming payments, which the code keeps in \<open>chainPollers\<close>.
    \<open>cm_factory\<close> is the handle of the factory poller, \<open>cm_lost\<close> counts factory pollers that run without one.
  \<^item> \<open>stopListening\<close> waits for nothing, so a stop is one step.
\<close>

datatype start_stage = At_block | At_factory | At_listener | Start_over

record chain_monitor =
  cm_orders :: "(string \<times> watch_order) list"
  cm_started :: bool
  cm_promise :: bool
  cm_starts :: "start_stage list"
  cm_pollers :: nat
  cm_factory :: bool
  cm_lost :: nat

definition ensureChainMonitoring :: "chain_monitor \<Rightarrow> chain_monitor" where
  "ensureChainMonitoring m =
    (if cm_started m \<or> cm_promise m then m
     else m\<lparr>cm_started := True, cm_promise := True, cm_starts := cm_starts m @ [At_block]\<rparr>)"

definition storeActiveOrder :: "string \<Rightarrow> watch_order \<Rightarrow> chain_monitor \<Rightarrow> chain_monitor" where
  "storeActiveOrder orderId order m =
    (let m' = m\<lparr>cm_orders := AList.update orderId order (cm_orders m)\<rparr>
     in if needsChainMonitoring (cm_orders m') then ensureChainMonitoring m' else m')"

definition stopChainMonitoring :: "chain_monitor \<Rightarrow> chain_monitor" where
  "stopChainMonitoring m =
    (if \<not> cm_started m then m
     else m\<lparr>cm_pollers := 0, cm_factory := False, cm_started := False, cm_promise := False\<rparr>)"

definition reconcileChainMonitoring :: "int \<Rightarrow> chain_monitor \<Rightarrow> chain_monitor" where
  "reconcileChainMonitoring now m =
    (let m' = m\<lparr>cm_orders := snd (expireAbandonedOrders now DEFAULT_ABANDON_MS (cm_orders m))\<rparr>
     in if cm_started m' \<and> \<not> needsChainMonitoring (cm_orders m') then stopChainMonitoring m' else m')"

text \<open>What a start waits for is answered. A failure rejects the promise.\<close>

definition startChainMonitoring :: "bool \<Rightarrow> bool \<Rightarrow> nat \<Rightarrow> chain_monitor \<Rightarrow> chain_monitor" where
  "startChainMonitoring mainnet answered i m =
    (if i \<ge> length (cm_starts m) \<or> cm_starts m ! i = Start_over then m
     else if \<not> answered
     then m\<lparr>cm_starts := (cm_starts m)[i := Start_over], cm_started := False, cm_promise := False\<rparr>
     else case cm_starts m ! i of
       At_block \<Rightarrow> m\<lparr>cm_starts := (cm_starts m)[i := At_factory], cm_pollers := cm_pollers m + 2\<rparr>
     | At_factory \<Rightarrow> m\<lparr>cm_starts := (cm_starts m)[i := (if mainnet then Start_over else At_listener)],
         cm_lost := (if cm_factory m then cm_lost m + 1 else cm_lost m), cm_factory := True\<rparr>
     | _ \<Rightarrow> m\<lparr>cm_starts := (cm_starts m)[i := Start_over]\<rparr>)"

section \<open>Visitors\<close>

definition markVisitorPresent :: "int \<Rightarrow> int" where
  "markVisitorPresent now = now"

definition hasRecentVisitor :: "int \<Rightarrow> int \<Rightarrow> int \<Rightarrow> bool" where
  "hasRecentVisitor visitorTtlMs lastVisitorAt now \<longleftrightarrow> lastVisitorAt > 0 \<and> now - lastVisitorAt < visitorTtlMs"

section \<open>Runs\<close>

datatype monitor_event =
    Store string watch_order
  | Set_status string string
  | Reconcile int
  | Start_answers nat bool

definition set_status :: "string \<Rightarrow> string \<Rightarrow> chain_monitor \<Rightarrow> chain_monitor" where
  "set_status orderId st m = m\<lparr>cm_orders := AList.map_entry orderId (\<lambda>order. order\<lparr>wo_status := Some st\<rparr>) (cm_orders m)\<rparr>"

fun monitor_step :: "bool \<Rightarrow> monitor_event \<Rightarrow> chain_monitor \<Rightarrow> chain_monitor" where
  "monitor_step mainnet (Store orderId order) m = storeActiveOrder orderId order m"
| "monitor_step mainnet (Set_status orderId st) m = set_status orderId st m"
| "monitor_step mainnet (Reconcile now) m = reconcileChainMonitoring now m"
| "monitor_step mainnet (Start_answers i answered) m = startChainMonitoring mainnet answered i m"

definition idle_monitor :: chain_monitor where
  "idle_monitor = \<lparr>cm_orders = [], cm_started = False, cm_promise = False, cm_starts = [], cm_pollers = 0,
     cm_factory = False, cm_lost = 0\<rparr>"

definition monitor_run :: "bool \<Rightarrow> monitor_event list \<Rightarrow> chain_monitor" where
  "monitor_run mainnet evs = fold (monitor_step mainnet) evs idle_monitor"

text \<open>A run is calm when no start fails, no stop comes while a start is under way, and no status written over
  brings an order back that needed no monitoring.\<close>

definition starting :: "chain_monitor \<Rightarrow> bool" where
  "starting m \<longleftrightarrow> (\<exists>st \<in> set (cm_starts m). st \<noteq> Start_over)"

fun calm_step :: "monitor_event \<Rightarrow> chain_monitor \<Rightarrow> bool" where
  "calm_step (Start_answers i answered) m \<longleftrightarrow> answered"
| "calm_step (Reconcile now) m \<longleftrightarrow> \<not> starting m"
| "calm_step (Set_status orderId st) m \<longleftrightarrow>
    (needsChainMonitoring (cm_orders (set_status orderId st m)) \<longrightarrow> needsChainMonitoring (cm_orders m))"
| "calm_step (Store orderId order) m \<longleftrightarrow> True"

fun calm :: "bool \<Rightarrow> monitor_event list \<Rightarrow> chain_monitor \<Rightarrow> bool" where
  "calm mainnet [] m \<longleftrightarrow> True"
| "calm mainnet (ev # evs) m \<longleftrightarrow> calm_step ev m \<and> calm mainnet evs (monitor_step mainnet ev m)"

text \<open>The stage of the last start says what runs.\<close>

definition running_ok :: "chain_monitor \<Rightarrow> bool" where
  "running_ok m \<longleftrightarrow> cm_promise m = cm_started m \<and> cm_lost m = 0
   \<and> (\<forall>i < length (cm_starts m) - 1. cm_starts m ! i = Start_over)
   \<and> (if \<not> cm_started m then cm_pollers m = 0 \<and> \<not> cm_factory m \<and> \<not> starting m
      else cm_starts m \<noteq> []
       \<and> cm_pollers m = (if last (cm_starts m) = At_block then 0 else 2)
       \<and> (cm_factory m \<longleftrightarrow> last (cm_starts m) \<in> {At_listener, Start_over}))
   \<and> (needsChainMonitoring (cm_orders m) \<longrightarrow> cm_started m)"

lemma needs_expired:
  "needsChainMonitoring (snd (expireAbandonedOrders now age xs)) \<Longrightarrow> needsChainMonitoring xs"
  by (induction xs) (auto simp: needsChainMonitoring_def expireAbandonedOrders_def TERMINAL_STATUSES_def truthy_def split: if_splits)

lemma running_ok_idle: "running_ok idle_monitor"
  by (simp add: running_ok_def idle_monitor_def starting_def needsChainMonitoring_def)

lemma running_ok_step:
  assumes "running_ok m" "calm_step ev m"
  shows "running_ok (monitor_step mainnet ev m)"
proof (cases ev)
  case (Store orderId order)
  have "\<not> cm_started m \<Longrightarrow> i < length (cm_starts m) \<Longrightarrow> cm_starts m ! i = Start_over" for i
    using assms(1) by (force simp: running_ok_def starting_def)
  then show ?thesis using assms(1) Store
    by (auto simp: running_ok_def storeActiveOrder_def ensureChainMonitoring_def Let_def starting_def nth_append)
next
  case (Set_status orderId st)
  then show ?thesis using assms by (auto simp: running_ok_def set_status_def starting_def)
next
  case (Reconcile now)
  have needs: "needsChainMonitoring (snd (expireAbandonedOrders now DEFAULT_ABANDON_MS (cm_orders m))) \<Longrightarrow> cm_started m"
    using assms(1) needs_expired by (auto simp: running_ok_def)
  then show ?thesis using assms Reconcile
    by (auto simp: running_ok_def reconcileChainMonitoring_def stopChainMonitoring_def Let_def starting_def)
next
  case (Start_answers i answered)
  show ?thesis
  proof (cases "i \<ge> length (cm_starts m) \<or> cm_starts m ! i = Start_over")
    case True
    then show ?thesis using assms Start_answers by (simp add: startChainMonitoring_def)
  next
    case False
    then have lt: "i < length (cm_starts m)" "cm_starts m ! i \<noteq> Start_over" by auto
    then have "starting m" unfolding starting_def by (meson nth_mem)
    then have started: "cm_started m" using assms(1) by (auto simp: running_ok_def split: if_splits)
    have "\<not> i < length (cm_starts m) - 1" using assms(1) lt by (auto simp: running_ok_def)
    then have i: "i = length (cm_starts m) - 1" using lt by linarith
    have ne: "cm_starts m \<noteq> []" using lt by auto
    then have "last (cm_starts m) = cm_starts m ! i" using i by (simp add: last_conv_nth)
    then show ?thesis using assms Start_answers lt started i ne
      by (cases "cm_starts m ! i")
        (auto simp: running_ok_def startChainMonitoring_def last_list_update)
  qed
qed

text \<open>C35: Orders in flight are watched, once. In every calm run the monitoring is on as soon as an order needs
  it, off otherwise after the next reconciliation, and once started it has exactly the two pollers of incoming payments
  and the one of the factory.\<close>

theorem monitoring_follows_orders:
  assumes "calm mainnet evs idle_monitor"
  shows "(let m = monitor_run mainnet evs in
    (needsChainMonitoring (cm_orders m) \<longrightarrow> cm_started m)
    \<and> (cm_started m \<and> \<not> starting m \<longrightarrow> cm_pollers m = 2 \<and> cm_factory m)
    \<and> (\<not> cm_started m \<longrightarrow> cm_pollers m = 0 \<and> \<not> cm_factory m) \<and> cm_lost m = 0
    \<and> (\<not> needsChainMonitoring (cm_orders m) \<and> \<not> starting m \<longrightarrow> \<not> cm_started (reconcileChainMonitoring now m)))"
proof -
  have "running_ok (fold (monitor_step mainnet) evs m)" if "calm mainnet evs m" "running_ok m" for m
    using that by (induction evs arbitrary: m) (auto intro: running_ok_step)
  then have ok: "running_ok (monitor_run mainnet evs)"
    using assms running_ok_idle by (simp add: monitor_run_def)
  let ?m = "monitor_run mainnet evs"
  have "cm_started ?m \<Longrightarrow> \<not> starting ?m \<Longrightarrow> last (cm_starts ?m) = Start_over"
    using ok by (auto simp: running_ok_def starting_def)
  then show ?thesis using ok needs_expired[of now DEFAULT_ABANDON_MS "cm_orders ?m"]
    by (auto simp: running_ok_def Let_def reconcileChainMonitoring_def stopChainMonitoring_def split: if_splits)
qed

section \<open>Samples\<close>

definition open_order :: watch_order where
  "open_order = \<lparr>wo_orderId = None, wo_direction = Some ''xlm_to_eth'', wo_status = Some ''awaiting_xlm_payment'',
     wo_stellarAddress = None, wo_stellarTxHash = None, wo_xlmReceivedAt = None, wo_created = None, wo_amount = None,
     wo_networkMode = None, wo_refundTxHash = None, wo_refundedAt = None, wo_watchdogFailedAt = None,
     wo_watchdogFailureReason = None\<rparr>"

definition calm_day :: "monitor_event list" where
  "calm_day = [Store ''o1'' open_order, Start_answers 0 True, Start_answers 0 True, Start_answers 0 True]"

theorem monitoring_follows_orders_witness:
  "cm_pollers (monitor_run False calm_day) = 2 \<and> cm_factory (monitor_run False calm_day)"
proof -
  have "calm False calm_day idle_monitor" "cm_started (monitor_run False calm_day)" by code_simp+
  moreover have "\<not> starting (monitor_run False calm_day)" by code_simp
  ultimately show ?thesis using monitoring_follows_orders[of False calm_day] by (simp add: Let_def)
qed

text \<open>A start that fails after its pollers are running leaves them running, and the next order starts
  two more: from then on each incoming payment is seen twice.\<close>

lemma failed_start_doubles_pollers:
  "cm_pollers (monitor_run False [Store ''o1'' open_order, Start_answers 0 True, Start_answers 0 False,
     Store ''o2'' open_order, Start_answers 1 True]) = 4"
  by code_simp

text \<open>A stop while a start is under way does not end the start, whose pollers then run without an order.\<close>

lemma stop_during_start:
  "(let m = monitor_run False [Store ''o1'' open_order, Set_status ''o1'' ''refunded'', Reconcile 0, Start_answers 0 True]
    in \<not> cm_started m \<and> cm_pollers m = 2)"
  by code_simp

end
