(* ===== verification/Payment_Monitor.thy ===== *)
theory Payment_Monitor
  imports Js_Arith Relay_Port Order_Book
begin

text \<open>
  How the relayer learns of deposits: \<open>relayer/src/eth-incoming-monitor.ts\<close>, and the ticks of the two pollers in
  \<open>relayer/src/index.ts\<close>, with \<open>createETHHTLCForOrder\<close>.

  \<^item> The answers of the nodes are arguments: the head, the blocks (\<open>None\<close> where the call fails), the
    payments of an account, the memo of a transaction, the balance, the calls of the contract.
  \<^item> \<open>pm_locked\<close> lists the transactions that fund an HTLC, with order and amount: those that the node confirmed to have taken, and
    those whose call ended in an error after the network had taken them.
  \<^item> A tick of a poller ends before its next one begins (\<open>adaptive-poll.ts\<close>). A tick is one step, which is exact
    while one poller runs. After a failed start two run (\<open>Chain_Monitor\<close>), and \<open>two_pollers_lock_twice\<close> shows what that leads to.
\<close>

section \<open>Incoming ETH\<close>

record block_tx =
  bt_hash :: string
  bt_from :: string
  bt_to :: "string option"
  bt_value :: int

record incoming_payment =
  ip_hash :: string
  ip_from :: string
  ip_value :: int
  ip_block :: int

definition incoming_of :: "string \<Rightarrow> int \<Rightarrow> block_tx list \<Rightarrow> incoming_payment list" where
  "incoming_of relayerAddress blockNum txs =
    map (\<lambda>tx. \<lparr>ip_hash = bt_hash tx, ip_from = bt_from tx, ip_value = bt_value tx, ip_block = blockNum\<rparr>)
      (filter (\<lambda>tx. (case bt_to tx of None \<Rightarrow> False | Some to \<Rightarrow> toLowerCase to = toLowerCase relayerAddress)
        \<and> bt_value tx > 0) txs)"

text \<open>The loop over the blocks; a call that fails ends it with an exception, and a block that the node does not
  have (\<open>Some None\<close>) is passed over.\<close>

fun scan_blocks :: "(int \<Rightarrow> block_tx list option option) \<Rightarrow> string \<Rightarrow> int list \<Rightarrow> incoming_payment list option" where
  "scan_blocks blocks relayerAddress [] = Some []"
| "scan_blocks blocks relayerAddress (n # ns) =
    (case blocks n of None \<Rightarrow> None
     | Some block \<Rightarrow> map_option (\<lambda>rest. incoming_of relayerAddress n (case block of None \<Rightarrow> [] | Some txs \<Rightarrow> txs) @ rest) (scan_blocks blocks relayerAddress ns))"

definition fetchIncomingEthPayments :: "int option \<Rightarrow> (int \<Rightarrow> block_tx list option option) \<Rightarrow> string \<Rightarrow> int \<Rightarrow> int
    \<Rightarrow> (incoming_payment list \<times> int) option" where
  "fetchIncomingEthPayments head blocks relayerAddress lastProcessedBlock maxBlockWindow =
    (case head of None \<Rightarrow> None
     | Some h \<Rightarrow>
        if h \<le> lastProcessedBlock then Some ([], lastProcessedBlock)
        else let fromBlock = lastProcessedBlock + 1; toBlock = min h (fromBlock + maxBlockWindow - 1)
             in map_option (\<lambda>ps. (ps, toBlock)) (scan_blocks blocks relayerAddress [fromBlock..toBlock]))"

text \<open>Ticks from a starting block: the payments handed on, and the cursor. A tick that fails changes neither.\<close>

definition eth_tick :: "string \<Rightarrow> int \<Rightarrow> int option \<times> (int \<Rightarrow> block_tx list option option) \<Rightarrow> incoming_payment list \<times> int
    \<Rightarrow> incoming_payment list \<times> int" where
  "eth_tick relayerAddress window tick s =
    (case fetchIncomingEthPayments (fst tick) (snd tick) relayerAddress (snd s) window of None \<Rightarrow> s
     | Some (ps, cursor) \<Rightarrow> (fst s @ ps, cursor))"

lemma scan_blocks_chain:
  assumes "scan_blocks blocks r ns = Some ps" "\<And>n b. n \<in> set ns \<Longrightarrow> blocks n = Some b \<Longrightarrow> b = Some (chain n)"
  shows "ps = concat (map (\<lambda>n. incoming_of r n (chain n)) ns)"
  using assms by (induction ns arbitrary: ps) (auto split: option.splits)

text \<open>C34: No deposit of ETH is missed or seen twice. If the nodes answer from one chain and have every block they
  are asked for, while each call may fail, and the window is positive, then after any ticks the payments handed on are those to the relayer
  in the blocks after the start up to the cursor, in the order of the chain, each once.\<close>

theorem deposits_seen_once:
  assumes "0 < window" "\<forall>(head, blocks) \<in> set ticks. \<forall>n b. blocks n = Some b \<longrightarrow> b = Some (chain n)"
  shows "(let (seen, cursor) = fold (eth_tick r window) ticks ([], start)
    in start \<le> cursor \<and> seen = concat (map (\<lambda>n. incoming_of r n (chain n)) [start + 1..cursor]))"
  using assms(2)
proof (induction ticks rule: rev_induct)
  case (snoc tick ticks)
  obtain seen cursor where s: "fold (eth_tick r window) ticks ([], start) = (seen, cursor)" by force
  with snoc have ih: "start \<le> cursor" "seen = concat (map (\<lambda>n. incoming_of r n (chain n)) [start + 1..cursor])" by auto
  obtain head blocks where t: "tick = (head, blocks)" by force
  show ?case
  proof (cases "fetchIncomingEthPayments head blocks r cursor window")
    case None
    then have "eth_tick r window tick (seen, cursor) = (seen, cursor)" using t by (simp add: eth_tick_def)
    then show ?thesis using s ih by simp
  next
    case (Some res)
    obtain ps c where res: "res = (ps, c)" by force
    have "cursor \<le> c \<and> ps = concat (map (\<lambda>n. incoming_of r n (chain n)) [cursor + 1..c])"
    proof (cases "the head \<le> cursor")
      case True
      then show ?thesis using Some res by (auto simp: fetchIncomingEthPayments_def split: option.splits)
    next
      case False
      then have c: "c = min (the head) (cursor + 1 + window - 1)" "scan_blocks blocks r [cursor + 1..c] = Some ps"
        using Some res by (auto simp: fetchIncomingEthPayments_def Let_def split: option.splits)
      then have "ps = concat (map (\<lambda>n. incoming_of r n (chain n)) [cursor + 1..c])"
        using scan_blocks_chain[OF c(2)] snoc.prems t by fastforce
      then show ?thesis using c(1) False assms(1) by simp
    qed
    moreover from this ih(1) have "[start + 1..c] = [start + 1..cursor] @ [cursor + 1..c]"
      by (cases "cursor = c") (simp_all add: upto_split1[of "start + 1" "cursor + 1" c, simplified])
    moreover have "eth_tick r window tick (seen, cursor) = (seen @ ps, c)" using t Some res by (simp add: eth_tick_def)
    ultimately show ?thesis using s ih by simp
  qed
qed simp

section \<open>Incoming XLM\<close>

record pending_order =
  po_status :: string
  po_stellar_amount :: string
  po_ethAmount :: string

record stellar_payment =
  sp_type :: string
  sp_asset_type :: string
  sp_to :: string
  sp_amount :: string
  sp_txHash :: string

record payment_monitor =
  pm_orders :: "(string \<times> pending_order) list"
  pm_lastLedger :: int
  pm_locked :: "(string \<times> int) list"

definition put_status :: "string \<Rightarrow> string \<Rightarrow> payment_monitor \<Rightarrow> payment_monitor" where
  "put_status orderId st m = m\<lparr>pm_orders := AList.map_entry orderId (\<lambda>order. order\<lparr>po_status := st\<rparr>) (pm_orders m)\<rparr>"

text \<open>The calls of the contract, with at most 3 retries when the node is busy.\<close>

definition htlc_rate_limited :: "rpc_error \<Rightarrow> bool" where
  "htlc_rate_limited err \<longleftrightarrow> (er_code err = Some ''UNKNOWN_ERROR'' \<and> er_inner_code err = Some ''429'')
     \<or> text_occurs ''compute units per second'' (or_empty (er_message err))
     \<or> text_occurs ''rate limit'' (or_empty (er_message err)) \<or> er_code err = Some ''429''"

text \<open>The answer to one call of \<open>createOrder\<close>: the transaction was sent, and is mined or not; or the call failed, and the network
  has the transaction all the same or not.\<close>

datatype contract_answer = Sent bool | Refused rpc_error | Lost rpc_error

text \<open>\<open>create_loop\<close> gives whether the last transaction is mined, \<open>None\<close> when the loop ends with an exception, and the number of
  transactions that the network has.\<close>

fun create_loop :: "(nat \<Rightarrow> contract_answer) \<Rightarrow> nat \<Rightarrow> nat \<Rightarrow> bool option \<times> nat" where
  "create_loop answers i 0 =
    (case answers i of Sent mined \<Rightarrow> (Some mined, 1) | Refused err \<Rightarrow> (None, 0) | Lost err \<Rightarrow> (None, 1))"
| "create_loop answers i (Suc left) =
    (case answers i of Sent mined \<Rightarrow> (Some mined, 1)
     | Refused err \<Rightarrow> if htlc_rate_limited err then create_loop answers (i + 1) left else (None, 0)
     | Lost err \<Rightarrow> if htlc_rate_limited err then apsnd Suc (create_loop answers (i + 1) left) else (None, 1))"

record htlc_answers =
  ha_balance :: "int option"
  ha_create :: "nat \<Rightarrow> contract_answer"

definition createETHHTLCForOrder :: "htlc_answers \<Rightarrow> string \<Rightarrow> pending_order \<Rightarrow> payment_monitor \<Rightarrow> payment_monitor" where
  "createETHHTLCForOrder ans orderId order m =
    (case (ha_balance ans, BigInt (po_ethAmount order)) of
       (Some balance, Some wei) \<Rightarrow>
         if balance < wei + 2000000000000000 then put_status orderId ''eth_htlc_failed'' m
         else (let (mined, n) = create_loop (ha_create ans) 0 3
           in (put_status orderId (if mined = Some True then ''eth_htlc_created'' else ''eth_htlc_failed'') m)
               \<lparr>pm_locked := pm_locked m @ replicate n (orderId, wei)\<rparr>)
     | _ \<Rightarrow> put_status orderId ''eth_htlc_failed'' m)"

definition matches_order :: "string \<Rightarrow> string \<times> pending_order \<Rightarrow> bool" where
  "matches_order orderPrefix e \<longleftrightarrow> text_occurs orderPrefix (fst e) \<and> po_status (snd e) = ''awaiting_xlm_payment''"

text \<open>\<open>Math.abs(receivedXLM - expectedXLM) < 0.001\<close>\<close>

definition amount_close :: "string \<Rightarrow> string \<Rightarrow> bool" where
  "amount_close received expected \<longleftrightarrow>
    (case js_sub (parseFloat received) (parseFloat expected) of
       Fin d \<Rightarrow> js_less (Fin \<bar>d\<bar>) (decimal_value 1 (- 3)) | _ \<Rightarrow> False)"

definition note_incoming :: "(string \<Rightarrow> htlc_answers) \<Rightarrow> string \<Rightarrow> stellar_payment \<Rightarrow> payment_monitor \<Rightarrow> payment_monitor" where
  "note_incoming answers memo payment m =
    (if take 8 memo \<noteq> ''XLM-ETH-'' then m
     else case List.find (matches_order (drop 8 memo)) (pm_orders m) of None \<Rightarrow> m
     | Some (orderId, order) \<Rightarrow>
         if amount_close (sp_amount payment) (po_stellar_amount order)
         then createETHHTLCForOrder (answers orderId) orderId order m else m)"

text \<open>The loop over the payments; a memo that cannot be read ends the tick with an exception.\<close>

fun note_payments :: "string \<Rightarrow> (string \<Rightarrow> string option option) \<Rightarrow> (string \<Rightarrow> htlc_answers) \<Rightarrow> stellar_payment list
    \<Rightarrow> payment_monitor \<Rightarrow> bool \<times> payment_monitor" where
  "note_payments relayer memos answers [] m = (True, m)"
| "note_payments relayer memos answers (p # ps) m =
    (if sp_type p = ''payment'' \<and> sp_asset_type p = ''native'' \<and> sp_to p = relayer
     then (case memos (sp_txHash p) of None \<Rightarrow> (False, m)
       | Some memo \<Rightarrow> note_payments relayer memos answers ps (note_incoming answers (or_empty memo) p m))
     else note_payments relayer memos answers ps m)"

text \<open>\<open>payments c\<close> is what Horizon lists after ledger \<open>c\<close>, oldest first; it is asked for 50.\<close>

definition stellar_tick :: "string \<Rightarrow> int option \<Rightarrow> (int \<Rightarrow> stellar_payment list option) \<Rightarrow> (string \<Rightarrow> string option option)
    \<Rightarrow> (string \<Rightarrow> htlc_answers) \<Rightarrow> payment_monitor \<Rightarrow> payment_monitor" where
  "stellar_tick relayer ledger payments memos answers m =
    (case ledger of None \<Rightarrow> m
     | Some current \<Rightarrow>
        if pm_lastLedger m = 0 then m\<lparr>pm_lastLedger := current - 10\<rparr>
        else case payments (pm_lastLedger m) of None \<Rightarrow> m
        | Some ps \<Rightarrow>
            (let (finished, m') = note_payments relayer memos answers (take 50 ps) m
             in if finished then m'\<lparr>pm_lastLedger := current\<rparr> else m'))"

definition payment_memo :: "string \<Rightarrow> string" where
  "payment_memo orderId = ''XLM-ETH-'' @ take 8 orderId"

section \<open>One lock per order\<close>

datatype deposit_event =
    New_pending string pending_order
  | Stellar_tick "int option" "int \<Rightarrow> stellar_payment list option" "string \<Rightarrow> string option option" "string \<Rightarrow> htlc_answers"

fun deposit_step :: "string \<Rightarrow> deposit_event \<Rightarrow> payment_monitor \<Rightarrow> payment_monitor" where
  "deposit_step relayer (New_pending orderId order) m =
    (if orderId \<in> set (map fst (pm_orders m)) then m else m\<lparr>pm_orders := pm_orders m @ [(orderId, order)]\<rparr>)"
| "deposit_step relayer (Stellar_tick ledger payments memos answers) m = stellar_tick relayer ledger payments memos answers m"

definition deposit_run :: "string \<Rightarrow> deposit_event list \<Rightarrow> payment_monitor" where
  "deposit_run relayer evs = fold (deposit_step relayer) evs \<lparr>pm_orders = [], pm_lastLedger = 0, pm_locked = []\<rparr>"

definition locks_of :: "string \<Rightarrow> payment_monitor \<Rightarrow> (string \<times> int) list" where
  "locks_of orderId m = filter (\<lambda>l. fst l = orderId) (pm_locked m)"

text \<open>No call of the contract fails after the network has taken its transaction.\<close>

definition lossless :: "deposit_event list \<Rightarrow> bool" where
  "lossless evs \<longleftrightarrow> (\<forall>ev \<in> set evs. case ev of New_pending orderId order \<Rightarrow> True
     | Stellar_tick ledger payments memos answers \<Rightarrow> (\<forall>k i. case ha_create (answers k) i of Lost err \<Rightarrow> False | _ \<Rightarrow> True))"

lemma create_loop_bound: "snd (create_loop answers i left) \<le> Suc left"
  by (induction answers i left rule: create_loop.induct) (auto split: contract_answer.split)

lemma create_loop_lossless:
  "(\<And>i. case answers i of Lost err \<Rightarrow> False | _ \<Rightarrow> True) \<Longrightarrow> snd (create_loop answers i left) \<le> 1"
proof (induction answers i left rule: create_loop.induct)
  case (1 answers i)
  show ?case using "1.prems"[of i] by (cases "answers i") auto
next
  case (2 answers i left)
  then show ?case using "2.prems"[of i] by (cases "answers i") auto
qed

text \<open>What is locked belongs to an order that no longer waits, with at most \<open>b\<close> locks per order.\<close>

definition locks_ok :: "nat \<Rightarrow> payment_monitor \<Rightarrow> bool" where
  "locks_ok b m \<longleftrightarrow> distinct (map fst (pm_orders m)) \<and> (\<forall>orderId. length (locks_of orderId m) \<le> b)
   \<and> (\<forall>(orderId, wei) \<in> set (pm_locked m). \<exists>order. (orderId, order) \<in> set (pm_orders m)
        \<and> po_status order \<noteq> ''awaiting_xlm_payment'' \<and> BigInt (po_ethAmount order) = Some wei)"

lemma map_entry_keys: "map fst (AList.map_entry k f xs) = map fst xs"
  by (induction xs) auto

lemma map_entry_set: "distinct (map fst xs) \<Longrightarrow>
    (k', v) \<in> set (AList.map_entry k f xs) \<longleftrightarrow> (\<exists>v'. (k', v') \<in> set xs \<and> v = (if k' = k then f v' else v'))"
  by (induction xs) (auto simp: image_iff)

lemma put_status_ok:
  assumes "locks_ok b m" "st \<noteq> ''awaiting_xlm_payment''"
  shows "locks_ok b (put_status orderId st m)"
proof -
  have "\<exists>v. (k, v) \<in> set (pm_orders (put_status orderId st m)) \<and> po_status v \<noteq> ''awaiting_xlm_payment''
      \<and> BigInt (po_ethAmount v) = Some wei" if locked: "(k, wei) \<in> set (pm_locked m)" for k wei
  proof -
    obtain order where "(k, order) \<in> set (pm_orders m)" "po_status order \<noteq> ''awaiting_xlm_payment''"
      "BigInt (po_ethAmount order) = Some wei" using assms(1) locked by (force simp: locks_ok_def)
    then show ?thesis using assms
      by (intro exI[of _ "if k = orderId then order\<lparr>po_status := st\<rparr> else order"])
        (auto simp: put_status_def locks_ok_def map_entry_set)
  qed
  then show ?thesis using assms(1) by (auto simp: locks_ok_def put_status_def map_entry_keys locks_of_def)
qed

lemma lock_ok:
  assumes ok: "locks_ok b m" and o': "(orderId, order) \<in> set (pm_orders m)" "po_status order = ''awaiting_xlm_payment''"
    and n: "snd (create_loop (ha_create ans) 0 3) \<le> b"
  shows "locks_ok b (createETHHTLCForOrder ans orderId order m)"
proof -
  have fresh: "orderId \<notin> fst ` set (pm_locked m)"
  proof
    assume "orderId \<in> fst ` set (pm_locked m)"
    then obtain wei order' where "(orderId, wei) \<in> set (pm_locked m)" "(orderId, order') \<in> set (pm_orders m)"
      "po_status order' \<noteq> ''awaiting_xlm_payment''" using ok by (force simp: locks_ok_def)
    then show False using ok o' by (metis eq_key_imp_eq_value locks_ok_def)
  qed
  then have none: "filter (\<lambda>l. fst l = orderId) (pm_locked m) = []" by (force simp: filter_empty_conv)
  have "locks_ok b ((put_status orderId st m)\<lparr>pm_locked := pm_locked m @ replicate k (orderId, wei)\<rparr>)"
    if "BigInt (po_ethAmount order) = Some wei" "st \<noteq> ''awaiting_xlm_payment''" "k \<le> b" for st wei k
  proof -
    have "\<exists>v. (orderId, v) \<in> set (pm_orders (put_status orderId st m)) \<and> po_status v \<noteq> ''awaiting_xlm_payment''
        \<and> BigInt (po_ethAmount v) = Some wei"
      using ok o'(1) that by (intro exI[of _ "order\<lparr>po_status := st\<rparr>"]) (auto simp: put_status_def locks_ok_def map_entry_set)
    moreover have "length (locks_of i ((put_status orderId st m)\<lparr>pm_locked := pm_locked m @ replicate k (orderId, wei)\<rparr>)) \<le> b" for i
      using ok none that(3) by (cases "i = orderId") (simp_all add: locks_ok_def locks_of_def)
    ultimately show ?thesis using put_status_ok[OF ok that(2), of orderId]
      by (auto simp: locks_ok_def put_status_def)
  qed
  then show ?thesis using put_status_ok[OF ok] n
    by (auto simp: createETHHTLCForOrder_def split_beta Let_def split: option.splits)
qed

abbreviation few_transactions :: "nat \<Rightarrow> (string \<Rightarrow> htlc_answers) \<Rightarrow> bool" where
  "few_transactions b answers \<equiv> \<forall>k. snd (create_loop (ha_create (answers k)) 0 3) \<le> b"

lemma note_incoming_ok: "locks_ok b m \<Longrightarrow> few_transactions b answers \<Longrightarrow> locks_ok b (note_incoming answers memo p m)"
  by (auto simp: note_incoming_def matches_order_def intro!: lock_ok dest!: find_SomeD split: option.split)

lemma note_payments_ok:
  "locks_ok b m \<Longrightarrow> few_transactions b answers \<Longrightarrow> locks_ok b (snd (note_payments relayer memos answers ps m))"
  by (induction relayer memos answers ps m rule: note_payments.induct) (auto intro: note_incoming_ok split: option.split)

lemma deposit_run_ok:
  assumes "\<And>ledger payments memos answers. Stellar_tick ledger payments memos answers \<in> set evs \<Longrightarrow> few_transactions b answers"
  shows "locks_ok b (deposit_run relayer evs)"
  using assms
proof (induction evs rule: rev_induct)
  case Nil
  then show ?case by (simp add: deposit_run_def locks_ok_def locks_of_def)
next
  case (snoc ev evs)
  let ?m = "deposit_run relayer evs"
  have ih: "locks_ok b ?m"
  proof (rule snoc.IH)
    fix ledger payments memos answers assume "Stellar_tick ledger payments memos answers \<in> set evs"
    then show "few_transactions b answers" by (intro snoc.prems[of ledger payments memos]) simp
  qed
  have ledger: "locks_ok b (m\<lparr>pm_lastLedger := n\<rparr>)" if "locks_ok b m" for m n using that by (simp add: locks_ok_def locks_of_def)
  have "locks_ok b (deposit_step relayer ev ?m)"
  proof (cases ev)
    case (New_pending orderId order)
    then show ?thesis using ih by (fastforce simp: locks_ok_def locks_of_def)
  next
    case (Stellar_tick l ps memos answers)
    then have "few_transactions b answers" by (intro snoc.prems[of l ps memos]) simp
    then show ?thesis using Stellar_tick ih ledger note_payments_ok[OF ih]
      by (auto simp: stellar_tick_def split_beta Let_def split: option.split)
  qed
  then show ?case by (simp add: deposit_run_def)
qed

text \<open>C32: One deposit, one lock. With one poller, however new orders and its ticks interleave and whatever Horizon answers, at most four
  transactions that fund an HTLC are taken by the network for an order, one per call of the contract, and at most one if no call fails after
  its transaction was taken; each is for the amount of the order, and the order waits for no payment any more.\<close>

theorem one_lock_per_order:
  "(let m = deposit_run relayer evs; locks = locks_of orderId m
    in length locks \<le> 4 \<and> (lossless evs \<longrightarrow> length locks \<le> 1)
      \<and> list_all (\<lambda>(k, wei). case map_of (pm_orders m) orderId of None \<Rightarrow> False
        | Some order \<Rightarrow> po_status order \<noteq> ''awaiting_xlm_payment'' \<and> BigInt (po_ethAmount order) = Some wei) locks)"
proof -
  let ?m = "deposit_run relayer evs"
  have four: "locks_ok 4 ?m"
    by (rule deposit_run_ok) (use create_loop_bound[of _ 0 3] in simp)
  have "locks_ok 1 ?m" if "lossless evs"
  proof (rule deposit_run_ok)
    fix ledger payments memos answers assume "Stellar_tick ledger payments memos answers \<in> set evs"
    then have "case ha_create (answers k) i of Lost err \<Rightarrow> False | _ \<Rightarrow> True" for k i
      using that by (fastforce simp: lossless_def)
    then show "few_transactions 1 answers" by (intro allI create_loop_lossless)
  qed
  then have "lossless evs \<Longrightarrow> length (locks_of orderId ?m) \<le> 1" by (simp add: locks_ok_def)
  moreover have "case map_of (pm_orders ?m) orderId of None \<Rightarrow> False
      | Some order \<Rightarrow> po_status order \<noteq> ''awaiting_xlm_payment'' \<and> BigInt (po_ethAmount order) = Some wei"
    if "(k, wei) \<in> set (locks_of orderId ?m)" for k wei
    using four that by (fastforce simp: locks_ok_def locks_of_def)
  ultimately show ?thesis using four by (auto simp: Let_def list_all_iff locks_ok_def)
qed

text \<open>A call that is answered with a rate limit after its transaction was taken is made again, and funds a second HTLC.\<close>

lemma lost_call_locks_twice:
  assumes "ha_balance ans = Some balance" "BigInt (po_ethAmount order) = Some wei" "wei + 2000000000000000 \<le> balance"
    and "ha_create ans = (\<lambda>i. if i = 0 then Lost err else Sent True)" "htlc_rate_limited err"
  shows "pm_locked (createETHHTLCForOrder ans orderId order m) = pm_locked m @ [(orderId, wei), (orderId, wei)]"
  using assms by (simp add: createETHHTLCForOrder_def numeral_3_eq_3 put_status_def)

text \<open>Two pollers that both find an order waiting, before either has funded it, fund it twice.\<close>

lemma two_pollers_lock_twice:
  assumes "ha_balance ans = Some balance" "BigInt (po_ethAmount order) = Some wei" "wei + 2000000000000000 \<le> balance"
    and "ha_create ans 0 = Sent True"
  shows "pm_locked (createETHHTLCForOrder ans orderId order (createETHHTLCForOrder ans orderId order m))
    = pm_locked m @ [(orderId, wei), (orderId, wei)]"
  using assms by (simp add: createETHHTLCForOrder_def numeral_3_eq_3 put_status_def)

section \<open>The memo names no order\<close>

text \<open>C33: A payment goes to the oldest open order. The memo that a client is told to use keeps 8 characters of
  the order id, and ids begin with \<open>order_\<close> and the time in milliseconds; so orders whose times agree
  in two digits have the same memo, and a payment for the second of two open orders is compared with the amount of the first,
  and credited to it or to none.\<close>

theorem payment_credited_to_oldest:
  fixes ca cb :: char
  assumes "orderIds = map (\<lambda>suffix. ''order_'' @ ca # cb # suffix) [sa, sb]"
    and "pm_orders m = zip orderIds [first, second]" "po_status first = ''awaiting_xlm_payment''"
  shows "payment_memo (orderIds ! 0) = payment_memo (orderIds ! 1)
    \<and> note_incoming answers (payment_memo (orderIds ! 1)) p m =
      (if amount_close (sp_amount p) (po_stellar_amount first)
       then createETHHTLCForOrder (answers (orderIds ! 0)) (orderIds ! 0) first m else m)"
proof -
  have "text_occurs (''order_'' @ [ca, cb]) (''order_'' @ ca # cb # sa)" by simp
  then have "matches_order (drop 8 (payment_memo (orderIds ! 1))) (''order_'' @ ca # cb # sa, first)"
    using assms(1,3) by (simp add: matches_order_def payment_memo_def)
  then show ?thesis using assms(1,2) by (simp add: payment_memo_def note_incoming_def)
qed

section \<open>Samples\<close>

definition sample_pending :: "string \<Rightarrow> pending_order" where
  "sample_pending amount = \<lparr>po_status = ''awaiting_xlm_payment'', po_stellar_amount = amount, po_ethAmount = ''1000''\<rparr>"

theorem payment_credited_to_oldest_witness:
  "(let answers = (\<lambda>_. \<lparr>ha_balance = None, ha_create = \<lambda>_. Sent True\<rparr>); a = ''order_1700000000000_aaaaaa''; b = ''order_1700000050000_bbbbbb'';
      m = \<lparr>pm_orders = [(a, sample_pending ''100''), (b, sample_pending ''25'')], pm_lastLedger = 5, pm_locked = []\<rparr>;
      p = \<lparr>sp_type = ''payment'', sp_asset_type = ''native'', sp_to = ''R'', sp_amount = ''25'', sp_txHash = ''t''\<rparr>
    in note_incoming answers (payment_memo b) p m
      = (if amount_close ''25'' ''100'' then createETHHTLCForOrder (answers a) a (sample_pending ''100'') m else m))"
  using payment_credited_to_oldest[where ca = "CHR ''1''" and cb = "CHR ''7''" and sa = "''00000000000_aaaaaa''"
      and sb = "''00000050000_bbbbbb''" and first = "sample_pending ''100''" and second = "sample_pending ''25''"
      and orderIds = "[''order_1700000000000_aaaaaa'', ''order_1700000050000_bbbbbb'']"
      and m = "\<lparr>pm_orders = [(''order_1700000000000_aaaaaa'', sample_pending ''100''), (''order_1700000050000_bbbbbb'', sample_pending ''25'')],
        pm_lastLedger = 5, pm_locked = []\<rparr>"
      and p = "\<lparr>sp_type = ''payment'', sp_asset_type = ''native'', sp_to = ''R'', sp_amount = ''25'', sp_txHash = ''t''\<rparr>"
      and answers = "\<lambda>_. \<lparr>ha_balance = None, ha_create = \<lambda>_. Sent True\<rparr>"]
  by (simp add: Let_def sample_pending_def)

theorem one_lock_per_order_witness:
  "(let p = \<lparr>sp_type = ''payment'', sp_asset_type = ''native'', sp_to = ''R'', sp_amount = ''25'', sp_txHash = ''t''\<rparr>;
      answers = (\<lambda>_. \<lparr>ha_balance = Some 9000000000000000, ha_create = \<lambda>_. Sent True\<rparr>);
      evs = [New_pending ''order_17'' (sample_pending ''25''), Stellar_tick (Some 15) (\<lambda>_. Some []) (\<lambda>_. None) answers,
        Stellar_tick (Some 20) (\<lambda>_. Some [p, p]) (\<lambda>_. Some (Some ''XLM-ETH-order_17'')) answers]
    in lossless evs \<and> length (locks_of ''order_17'' (deposit_run ''R'' evs)) \<le> 1)"
proof -
  let ?p = "\<lparr>sp_type = ''payment'', sp_asset_type = ''native'', sp_to = ''R'', sp_amount = ''25'', sp_txHash = ''t''\<rparr>"
  let ?answers = "\<lambda>_ :: string. \<lparr>ha_balance = Some 9000000000000000, ha_create = \<lambda>_. Sent True\<rparr>"
  let ?evs = "[New_pending ''order_17'' (sample_pending ''25''), Stellar_tick (Some 15) (\<lambda>_. Some []) (\<lambda>_. None) ?answers,
      Stellar_tick (Some 20) (\<lambda>_. Some [?p, ?p]) (\<lambda>_. Some (Some ''XLM-ETH-order_17'')) ?answers]"
  have l: "lossless ?evs" by (simp add: lossless_def)
  then show ?thesis using one_lock_per_order[of "''R''" ?evs "''order_17''"] by (simp only: Let_def)
qed

theorem deposits_seen_once_witness:
  "fold (eth_tick ''0xR'' 2) [(Some 7, \<lambda>n. if n = 6 then None else Some (Some [])), (Some 7, \<lambda>n. Some (Some [])), (Some 8, \<lambda>n. Some (Some []))] ([], 4) = ([], 8)"
proof -
  let ?ticks = "[(Some 7, \<lambda>n. if n = 6 then None else Some (Some [])), (Some 7, \<lambda>n. Some (Some [])), (Some 8, \<lambda>n. Some (Some []))]
    :: (int option \<times> (int \<Rightarrow> block_tx list option option)) list"
  have "snd (fold (eth_tick ''0xR'' 2) ?ticks ([], 4)) = 8"
    by (simp add: eth_tick_def fetchIncomingEthPayments_def incoming_of_def upto.simps)
  moreover have "concat (map (\<lambda>n. incoming_of r n []) ns) = []" for r ns by (simp add: incoming_of_def)
  moreover have "fst (fold (eth_tick ''0xR'' 2) ?ticks ([], 4))
      = concat (map (\<lambda>n. incoming_of ''0xR'' n []) [4 + 1..snd (fold (eth_tick ''0xR'' 2) ?ticks ([], 4))])"
    using deposits_seen_once[of 2 ?ticks "\<lambda>_. []" "''0xR''" 4] by (simp only: split_beta Let_def) simp
  ultimately show ?thesis by (simp only: prod_eq_iff fst_conv snd_conv)
qed

text \<open>A block that a node reported as its head but cannot return yet is passed over, with its deposits.\<close>

lemma unknown_block_skipped:
  "eth_tick r 500 (Some 6, \<lambda>n. Some None) (seen, 5) = (seen, 6)"
  by (simp add: eth_tick_def fetchIncomingEthPayments_def incoming_of_def)

text \<open>A tick reads 50 payments and moves the cursor to the current ledger, past the 51st.\<close>

lemma fifty_first_payment_lost:
  "(let p = \<lparr>sp_type = ''payment'', sp_asset_type = ''native'', sp_to = ''R'', sp_amount = ''25'', sp_txHash = ''spam''\<rparr>;
      q = p\<lparr>sp_txHash := ''t''\<rparr>;
      m = \<lparr>pm_orders = [(''order_17'', sample_pending ''25'')], pm_lastLedger = 5, pm_locked = []\<rparr>
    in stellar_tick ''R'' (Some 9) (\<lambda>_. Some (replicate 50 p @ [q])) (\<lambda>t. Some (if t = ''t'' then Some ''XLM-ETH-order_17'' else None)) answers m
      = m\<lparr>pm_lastLedger := 9\<rparr>)"
proof -
  have "note_payments relayer memos answers (replicate n p) m = (True, m)"
    if "memos (sp_txHash p) = Some None" for relayer memos answers n p m
    using that by (induction n) (simp_all add: note_incoming_def or_empty_def)
  then show ?thesis by (simp add: stellar_tick_def Let_def)
qed

end
