(* ===== verification/Relay_Quoter.thy ===== *)
theory Relay_Quoter
  imports Js_Arith Order_Book Quotes
begin

text \<open>
  The quotes of the relayer (\<open>relayer/src/quoter-service.ts\<close>) and its gate on the quotes of the coordinator.

  \<^item> The answer of \<open>GET /api/quotes/:id/status\<close> is an argument of the gate; \<open>Quote_Gate\<close> puts the route of the
    coordinator in its place. A field is \<open>None\<close> where it is missing or of another type.
  \<^item> The recommended gas price, the time in seconds and the id are arguments. The prices of the table are numbers;
    the texts that the code reads with \<open>BigInt\<close> are constants.
  \<^item> Fields of a quote that are the same in every quote (route, gas, progress of the auction) are left out.
\<close>

section \<open>Quotes\<close>

record swap_request =
  sw_fromToken :: string
  sw_toToken :: string
  sw_fromChain :: string
  sw_toChain :: string
  sw_amount :: string
  sw_slippage :: js_number
  sw_userAddress :: string

record relayer_quote =
  rl_quoteId :: string
  rl_fromToken :: string
  rl_toToken :: string
  rl_fromChain :: string
  rl_toChain :: string
  rl_fromAmount :: string
  rl_toAmount :: string
  rl_minimumReceived :: string
  rl_priceImpact :: js_number
  rl_gasPrice :: string
  rl_startPrice :: string
  rl_currentPrice :: string
  rl_endPrice :: string
  rl_fee :: int
  rl_timestamp :: int
  rl_validUntil :: js_number

record token_price =
  tp_price :: int
  tp_decimals :: nat

record relayer_quoter =
  qt_prices :: "(string \<times> token_price) list"
  qt_quotes :: "(string \<times> relayer_quote) list"

definition QUOTE_VALIDITY_DURATION :: int where
  "QUOTE_VALIDITY_DURATION = 300"

definition initializeTokenPrices :: relayer_quoter where
  "initializeTokenPrices = \<lparr>qt_prices =
    [(''ETH'', \<lparr>tp_price = 2000000000000000000000, tp_decimals = 18\<rparr>), (''USDC'', \<lparr>tp_price = 1000000, tp_decimals = 6\<rparr>),
     (''XLM'', \<lparr>tp_price = 100000000, tp_decimals = 7\<rparr>)], qt_quotes = []\<rparr>"

definition oracle_price :: token_price where
  "oracle_price = \<lparr>tp_price = 1000000000000000000, tp_decimals = 18\<rparr>"

definition getTokenPrice :: "string \<Rightarrow> relayer_quoter \<Rightarrow> token_price \<times> relayer_quoter" where
  "getTokenPrice token s =
    (case map_of (qt_prices s) token of Some p \<Rightarrow> (p, s)
     | None \<Rightarrow> (oracle_price, s\<lparr>qt_prices := AList.update token oracle_price (qt_prices s)\<rparr>))"

definition validateQuoteRequest :: "swap_request \<Rightarrow> string option" where
  "validateQuoteRequest r =
    (if sw_fromToken r = [] \<or> sw_toToken r = [] then Some ''Both fromToken and toToken are required''
     else if sw_fromChain r = [] \<or> sw_toChain r = [] then Some ''Both fromChain and toChain are required''
     else if sw_amount r = [] then Some ''Amount must be greater than 0''
     else case BigInt (sw_amount r) of None \<Rightarrow> Some ''Cannot convert to a BigInt''
     | Some amount \<Rightarrow>
        if amount \<le> 0 then Some ''Amount must be greater than 0''
        else if js_less (sw_slippage r) (Fin 0) \<or> js_less (Fin 5) (sw_slippage r)
        then Some ''Slippage must be between 0 and 5 percent''
        else if sw_userAddress r = [] then Some ''User address is required'' else None)"

text \<open>Quotients are of non-negative numbers, where \<open>/\<close> of \<open>bigint\<close> is \<open>div\<close>. All prices have at most 18 decimals.\<close>

definition calculateBaseRate :: "token_price \<Rightarrow> token_price \<Rightarrow> int" where
  "calculateBaseRate f t =
    (let fromNormalized = tp_price f * 10 ^ (18 - tp_decimals f); toNormalized = tp_price t * 10 ^ (18 - tp_decimals t)
     in (fromNormalized * 10 ^ max (tp_decimals f) (tp_decimals t)) div toNormalized)"

definition base_to_amount :: "int \<Rightarrow> int \<Rightarrow> nat \<Rightarrow> nat \<Rightarrow> int" where
  "base_to_amount amount rate fromDecimals toDecimals = (amount * rate) div 10 ^ max fromDecimals toDecimals"

text \<open>\<open>Math.floor(slippage * 100)\<close>; \<open>BigInt\<close> refuses what is no integer.\<close>

definition slippageBps :: "js_number \<Rightarrow> int option" where
  "slippageBps slippage = (case js_mult slippage (Fin 100) of Fin q \<Rightarrow> Some \<lfloor>q\<rfloor> | _ \<Rightarrow> None)"

definition calculateAmountWithSlippage :: "int \<Rightarrow> int \<Rightarrow> js_number \<Rightarrow> nat \<Rightarrow> nat \<Rightarrow> (int \<times> int) option" where
  "calculateAmountWithSlippage amount rate slippage fromDecimals toDecimals =
    (let to = base_to_amount amount rate fromDecimals toDecimals
     in map_option (\<lambda>bps. (to, (to * (10000 - bps)) div 10000)) (slippageBps slippage))"

definition swap_fee :: "int \<Rightarrow> string \<Rightarrow> string \<Rightarrow> int" where
  "swap_fee amount fromChain toChain = (amount * (if fromChain = toChain then 10 else 30)) div 10000"

definition calculatePriceImpact :: "int \<Rightarrow> int \<Rightarrow> int \<Rightarrow> nat \<Rightarrow> nat \<Rightarrow> js_number" where
  "calculatePriceImpact input output rate fromDecimals toDecimals =
    (let expected = base_to_amount input rate fromDecimals toDecimals
     in if expected = 0 then Fin 0
        else js_div (Fin (of_int (((expected - output) * 10000) div expected))) (Fin 100))"

definition quote_of :: "swap_request \<Rightarrow> token_price \<Rightarrow> token_price \<Rightarrow> int \<Rightarrow> int \<Rightarrow> int \<Rightarrow> string \<Rightarrow> int \<Rightarrow> string \<Rightarrow> relayer_quote" where
  "quote_of r f t amount to minimum gasPrice now qid =
    \<lparr>rl_quoteId = qid, rl_fromToken = sw_fromToken r, rl_toToken = sw_toToken r, rl_fromChain = sw_fromChain r,
     rl_toChain = sw_toChain r, rl_fromAmount = sw_amount r, rl_toAmount = show_int to, rl_minimumReceived = show_int minimum,
     rl_priceImpact = calculatePriceImpact amount to (calculateBaseRate f t) (tp_decimals f) (tp_decimals t),
     rl_gasPrice = gasPrice, rl_startPrice = show_int to, rl_currentPrice = show_int to, rl_endPrice = show_int to,
     rl_fee = swap_fee amount (sw_fromChain r) (sw_toChain r), rl_timestamp = now,
     rl_validUntil = Fin (of_int (now + QUOTE_VALIDITY_DURATION))\<rparr>"

definition getQuote :: "swap_request \<Rightarrow> string \<Rightarrow> int \<Rightarrow> string \<Rightarrow> relayer_quoter \<Rightarrow> (string + relayer_quote) \<times> relayer_quoter" where
  "getQuote r gasPrice now qid s =
    (case validateQuoteRequest r of Some m \<Rightarrow> (Inl m, s)
     | None \<Rightarrow>
        (let (f, s1) = getTokenPrice (sw_fromToken r) s; (t, s2) = getTokenPrice (sw_toToken r) s1;
             amount = the (BigInt (sw_amount r))
         in case calculateAmountWithSlippage amount (calculateBaseRate f t) (sw_slippage r) (tp_decimals f) (tp_decimals t) of
              None \<Rightarrow> (Inl ''The number NaN cannot be converted to a BigInt'', s2)
            | Some (to, minimum) \<Rightarrow>
                (let q = quote_of r f t amount to minimum gasPrice now qid
                 in (Inr q, s2\<lparr>qt_quotes := AList.update qid q (qt_quotes s2)\<rparr>))))"

definition updateQuotePricing :: "int \<Rightarrow> string \<Rightarrow> relayer_quoter \<Rightarrow> relayer_quote option \<times> relayer_quoter" where
  "updateQuotePricing now qid s =
    (case map_of (qt_quotes s) qid of None \<Rightarrow> (None, s)
     | Some q \<Rightarrow>
        if js_less (rl_validUntil q) (Fin (of_int now)) then (None, s\<lparr>qt_quotes := AList.delete qid (qt_quotes s)\<rparr>)
        else (let q' = q\<lparr>rl_currentPrice := rl_toAmount q, rl_endPrice := rl_toAmount q\<rparr>
              in (Some q', s\<lparr>qt_quotes := AList.update qid q' (qt_quotes s)\<rparr>)))"

definition getQuoteById :: "string \<Rightarrow> relayer_quoter \<Rightarrow> relayer_quote option" where
  "getQuoteById qid s = map_of (qt_quotes s) qid"

definition cleanupExpiredQuotes :: "int \<Rightarrow> relayer_quoter \<Rightarrow> relayer_quoter" where
  "cleanupExpiredQuotes now s = s\<lparr>qt_quotes := filter (\<lambda>(k, q). js_less (Fin (of_int now)) (rl_validUntil q)) (qt_quotes s)\<rparr>"

definition activeQuotes :: "int \<Rightarrow> relayer_quoter \<Rightarrow> relayer_quote list \<times> relayer_quoter" where
  "activeQuotes now s =
    (map snd (filter (\<lambda>(k, q). js_less (Fin (of_int now)) (rl_validUntil q)) (qt_quotes s)), cleanupExpiredQuotes now s)"

text \<open>The three presets do not enter the computation; ids and times of the three calls are arguments.\<close>

definition better_quote :: "relayer_quote \<Rightarrow> relayer_quote \<Rightarrow> relayer_quote" where
  "better_quote best current =
    (if the (BigInt (rl_endPrice current)) > the (BigInt (rl_endPrice best)) then current else best)"

definition getBestQuote :: "swap_request \<Rightarrow> string \<Rightarrow> (int \<times> string) \<Rightarrow> (int \<times> string) \<Rightarrow> (int \<times> string) \<Rightarrow> relayer_quoter
    \<Rightarrow> (string + relayer_quote) \<times> relayer_quoter" where
  "getBestQuote r gasPrice a b c s =
    (let (qa, s1) = getQuote r gasPrice (fst a) (snd a) s; (qb, s2) = getQuote r gasPrice (fst b) (snd b) s1;
         (qc, s3) = getQuote r gasPrice (fst c) (snd c) s2
     in ((case (qa, qb, qc) of (Inr x, Inr y, Inr z) \<Rightarrow> Inr (better_quote (better_quote x y) z)
          | (Inl m, _, _) \<Rightarrow> Inl m | (_, Inl m, _) \<Rightarrow> Inl m | (_, _, Inl m) \<Rightarrow> Inl m), s3))"

section \<open>The gate\<close>

record coordinator_quote =
  cq_fresh :: "bool option"
  cq_fromAsset :: "string option"
  cq_toAsset :: "string option"
  cq_amount :: "string option"
  cq_fromNetwork :: "string option"
  cq_toNetwork :: "string option"
  cq_expiresAt :: "js_number option"

datatype status_answer = Unreachable | Status nat "coordinator_quote option"

definition to_ms :: "js_number \<Rightarrow> js_number" where
  "to_ms x = (if js_less x (Fin 1000000000000) then js_mult x (Fin 1000) else x)"

definition quote_typed :: "coordinator_quote \<Rightarrow> bool" where
  "quote_typed c \<longleftrightarrow> cq_fresh c \<noteq> None \<and> cq_fromAsset c \<noteq> None \<and> cq_toAsset c \<noteq> None \<and> cq_amount c \<noteq> None
     \<and> cq_fromNetwork c \<noteq> None \<and> cq_toNetwork c \<noteq> None \<and> cq_expiresAt c \<noteq> None"

definition quote_matches :: "coordinator_quote \<Rightarrow> relayer_quote \<Rightarrow> bool" where
  "quote_matches c q \<longleftrightarrow>
     toLowerCase (the (cq_fromAsset c)) = toLowerCase (rl_fromToken q) \<and> toLowerCase (the (cq_toAsset c)) = toLowerCase (rl_toToken q)
     \<and> the (cq_amount c) = rl_fromAmount q
     \<and> toLowerCase (the (cq_fromNetwork c)) = toLowerCase (rl_fromChain q) \<and> toLowerCase (the (cq_toNetwork c)) = toLowerCase (rl_toChain q)
     \<and> to_ms (the (cq_expiresAt c)) = to_ms (rl_validUntil q) \<and> to_ms (rl_validUntil q) \<noteq> Not_a_number"

definition is_finite :: "js_number \<Rightarrow> bool" where
  "is_finite x \<longleftrightarrow> (case x of Fin q \<Rightarrow> True | _ \<Rightarrow> False)"

text \<open>The stager of \<open>submitIfCoordinatorQuoteMatches\<close> up to the call of the executor: the code of the refusal, or
  \<open>None\<close>. \<open>now\<close> is in milliseconds.\<close>

definition coordinator_refusal :: "relayer_quote option \<Rightarrow> string option \<Rightarrow> status_answer \<Rightarrow> int \<Rightarrow> string option" where
  "coordinator_refusal quote qid ans now =
    (if quote = None \<or> qid = None \<or> qid = Some [] then Some ''COORDINATOR_QUOTE_REQUIRED''
     else case ans of
       Unreachable \<Rightarrow> Some ''COORDINATOR_QUOTE_UNAVAILABLE''
     | Status code body \<Rightarrow>
        if code = 410 then Some ''COORDINATOR_QUOTE_EXPIRED''
        else if code < 200 \<or> 299 < code then Some ''COORDINATOR_QUOTE_UNAVAILABLE''
        else case body of None \<Rightarrow> Some ''COORDINATOR_QUOTE_INVALID''
        | Some c \<Rightarrow>
           if \<not> quote_typed c then Some ''COORDINATOR_QUOTE_INVALID''
           else (let expiry = to_ms (the (cq_expiresAt c))
             in if cq_fresh c \<noteq> Some True \<or> \<not> is_finite expiry \<or> js_less expiry (Fin (of_int now))
                then Some ''COORDINATOR_QUOTE_EXPIRED''
                else if \<not> quote_matches c (the quote) then Some ''COORDINATOR_QUOTE_MISMATCH'' else None))"

section \<open>What a quote promises\<close>

definition prices_ok :: "relayer_quoter \<Rightarrow> bool" where
  "prices_ok s \<longleftrightarrow> (\<forall>(token, p) \<in> set (qt_prices s). 0 < tp_price p \<and> tp_decimals p \<le> 18)"

lemma prices_ok_init: "prices_ok initializeTokenPrices"
  by (simp add: prices_ok_def initializeTokenPrices_def)

lemma price_update: "prices_ok s \<Longrightarrow> 0 < tp_price p \<Longrightarrow> tp_decimals p \<le> 18 \<Longrightarrow> prices_ok (s\<lparr>qt_prices := AList.update token p (qt_prices s)\<rparr>)"
  unfolding prices_ok_def using set_update_subset[of token p "qt_prices s"] by fastforce

lemma getTokenPrice_ok:
  assumes "prices_ok s" "getTokenPrice token s = (p, s')"
  shows "0 < tp_price p" "prices_ok s'"
  using assms price_update[OF assms(1), of oracle_price token]
  by (auto simp: getTokenPrice_def oracle_price_def prices_ok_def dest!: map_of_SomeD split: option.splits)

lemma slippage_bounds:
  assumes "\<not> js_less x (Fin 0)" "\<not> js_less (Fin 5) x" "slippageBps x = Some bps"
  shows "0 \<le> bps \<and> bps \<le> 500"
proof (cases x)
  case (Fin q)
  with assms have q: "0 \<le> q" "q \<le> 5" by simp_all
  show ?thesis
  proof (cases "q = 0")
    case True
    then show ?thesis using assms(3) Fin by (simp add: slippageBps_def)
  next
    case False
    have "q * 100 \<le> 500" using q by simp
    moreover have "(500 :: rat) \<le> 2 ^ 1000" by simp
    ultimately have "q * 100 \<le> 2 ^ 1000" by (rule order_trans)
    then obtain y where y: "js_of_rat (q * 100) = Fin y" "\<bar>y - q * 100\<bar> \<le> max (q * 100 / 2 ^ 53) (1 / 2 ^ 1075)" "0 \<le> y"
      using js_of_rat_error[of "q * 100"] q False by auto
    have "max (q * 100 / 2 ^ 53) (1 / 2 ^ 1075) < (1 / 2 :: rat)" using \<open>q * 100 \<le> 500\<close> by simp
    with y(2) \<open>q * 100 \<le> 500\<close> have "y < 501" unfolding abs_le_iff by linarith
    then have "\<lfloor>y\<rfloor> < 501" by (simp add: floor_less_iff)
    then show ?thesis using assms(3) Fin y(1,3) by (auto simp: slippageBps_def)
  qed
qed (use assms in \<open>simp_all add: slippageBps_def\<close>)

lemma slippage_share:
  assumes "0 \<le> to" "0 \<le> bps" "bps \<le> (500 :: int)"
  shows "to * 9500 div 10000 \<le> to * (10000 - bps) div 10000 \<and> to * (10000 - bps) div 10000 \<le> to"
proof -
  have "to * 9500 \<le> to * (10000 - bps)" "to * (10000 - bps) \<le> to * 10000" using assms by (simp_all add: mult_left_mono)
  from zdiv_mono1[OF this(1), of 10000] zdiv_mono1[OF this(2), of 10000] show ?thesis by simp
qed

text \<open>A quote keeps to the slippage. Whatever is asked, a quote that is issued promises at least 95 percent and at
  most all of its output amount, has no price impact, is valid for 300 seconds, and is the one that its id gives back.\<close>

theorem quote_within_slippage:
  assumes "prices_ok s" "getQuote r gasPrice now qid s = (Inr q, s')"
  shows "prices_ok s' \<and> getQuoteById qid s' = Some q \<and> rl_validUntil q = Fin (of_int (now + 300)) \<and> rl_priceImpact q = Fin 0
    \<and> (\<exists>to minimum. rl_toAmount q = show_int to \<and> rl_endPrice q = show_int to \<and> rl_minimumReceived q = show_int minimum
        \<and> to * 9500 div 10000 \<le> minimum \<and> minimum \<le> to)"
proof -
  obtain f s1 where f: "getTokenPrice (sw_fromToken r) s = (f, s1)" by force
  obtain t s2 where t: "getTokenPrice (sw_toToken r) s1 = (t, s2)" by force
  obtain amount where v: "validateQuoteRequest r = None" "BigInt (sw_amount r) = Some amount" "0 < amount"
    "\<not> js_less (sw_slippage r) (Fin 0)" "\<not> js_less (Fin 5) (sw_slippage r)"
    using assms(2) by (auto simp: getQuote_def validateQuoteRequest_def split: option.splits if_splits)
  note ok = getTokenPrice_ok[OF assms(1) f] getTokenPrice_ok[OF _ t]
  let ?to = "base_to_amount amount (calculateBaseRate f t) (tp_decimals f) (tp_decimals t)"
  obtain bps where b: "slippageBps (sw_slippage r) = Some bps"
    and q: "q = quote_of r f t amount ?to (?to * (10000 - bps) div 10000) gasPrice now qid"
    and s': "s' = s2\<lparr>qt_quotes := AList.update qid q (qt_quotes s2)\<rparr>"
    using assms(2) v(1,2) f t
    by (auto simp: getQuote_def calculateAmountWithSlippage_def Let_def split: option.splits)
  have "0 \<le> ?to" using ok(1) ok(3)[OF ok(2)] v(3)
    by (simp add: base_to_amount_def calculateBaseRate_def Let_def pos_imp_zdiv_nonneg_iff)
  note slippage_share[OF this conjunct1[OF slippage_bounds[OF v(4,5) b]] conjunct2[OF slippage_bounds[OF v(4,5) b]]]
  moreover have "rl_priceImpact q = Fin 0" by (simp add: q quote_of_def calculatePriceImpact_def Let_def)
  moreover have "prices_ok s'" using ok(4)[OF ok(2)] by (simp add: s' prices_ok_def)
  moreover have "getQuoteById qid s' = Some q" by (simp add: s' getQuoteById_def update_conv)
  ultimately show ?thesis by (auto simp: q quote_of_def QUOTE_VALIDITY_DURATION_def)
qed

section \<open>Whole numbers are exact\<close>

lemma fl_nat:
  assumes "n < 2 ^ 53"
  shows "fl n 1 = Fin (of_nat n)"
proof (cases "n = 0")
  case True
  then show ?thesis by (simp add: fl_def)
next
  case False
  have "(2 :: nat) ^ (bits n - 1) < 2 ^ 53" using bits_bounds[OF False] assms by simp
  then have "bits n - 1 < 53" by (rule power_less_imp_less_exp[rotated]) simp
  moreover have "bits 1 = 1" by (simp add: bits.simps)
  ultimately have "last_bit n 1 \<le> 0" by (auto simp: last_bit_def Let_def)
  then obtain k where k: "last_bit n 1 = - int k" by (metis nonpos_int_cases)
  have p: "x / pow2 (- int k) = x * 2 ^ k" for x by (cases "k = 0") (simp_all add: pow2_def)
  have "half_even (of_nat n / of_nat 1 / pow2 (- int k)) = int n * 2 ^ k"
    by (rule half_even_unique) (simp add: p)
  moreover have "(of_int (int n * 2 ^ k) :: rat) * pow2 (- int k) = of_nat n"
    by (cases "k = 0") (simp_all add: pow2_def)
  moreover have "(of_nat n :: rat) < 2 ^ 1024"
  proof -
    have "(of_nat n :: rat) < of_nat (2 ^ 53)" using assms by (simp only: of_nat_less_iff)
    also have "\<dots> \<le> 2 ^ 1024" by simp
    finally show ?thesis .
  qed
  ultimately show ?thesis using False k by (simp add: fl_def Let_def mult.assoc)
qed

lemma js_of_rat_nat:
  assumes "n < 2 ^ 53"
  shows "js_of_rat (of_nat n) = Fin (of_nat n)"
proof -
  have "quotient_of (of_nat n) = (int n, 1)" using quotient_of_int[of "int n"] by simp
  then show ?thesis using fl_nat[OF assms] by (simp add: js_of_rat_def)
qed

text \<open>The gate compares expiries in milliseconds; a quote of the relayer expires at a whole second.\<close>

lemma quote_expiry_ms:
  assumes "0 \<le> now" "now < 1000000000"
  shows "to_ms (Fin (of_int (now + 300))) = Fin (of_int (1000 * (now + 300)))"
proof -
  have "js_of_rat (of_int (1000 * (now + 300))) = Fin (of_int (1000 * (now + 300)))"
    using js_of_rat_nat[of "nat (1000 * (now + 300))"] assms by simp
  moreover have "(of_int (now + 300) :: rat) < of_int 1000000000000" using assms by (simp only: of_int_less_iff)
  ultimately show ?thesis by (simp add: to_ms_def mult.commute)
qed

text \<open>The output amount is counted in the base units of the input: an amount of wei is quoted as 200 times as many
  stroops, \<open>10\<^sup>1\<^sup>1\<close> times the amount at the prices of the table.\<close>

lemma eth_to_xlm_units:
  "base_to_amount wei (calculateBaseRate \<lparr>tp_price = 2000000000000000000000, tp_decimals = 18\<rparr> \<lparr>tp_price = 100000000, tp_decimals = 7\<rparr>) 18 7
    = 200 * wei"
  by (simp add: base_to_amount_def calculateBaseRate_def Let_def)

section \<open>Samples\<close>

definition sample_swap :: swap_request where
  "sample_swap = \<lparr>sw_fromToken = ''ETH'', sw_toToken = ''XLM'', sw_fromChain = ''ethereum'', sw_toChain = ''stellar'',
     sw_amount = ''1000'', sw_slippage = Fin 0, sw_userAddress = ''u''\<rparr>"

theorem quote_within_slippage_witness:
  "getQuoteById ''q'' (snd (getQuote sample_swap ''20'' 50 ''q'' initializeTokenPrices)) \<noteq> None"
proof -
  have "BigInt (sw_amount sample_swap) = Some 1000" by code_simp
  moreover have "slippageBps (sw_slippage sample_swap) = Some 0" by (simp add: slippageBps_def sample_swap_def)
  moreover have "validateQuoteRequest sample_swap = None"
    using calculation(1) by (simp add: validateQuoteRequest_def sample_swap_def)
  ultimately obtain q s' where "getQuote sample_swap ''20'' 50 ''q'' initializeTokenPrices = (Inr q, s')"
    by (cases "getQuote sample_swap ''20'' 50 ''q'' initializeTokenPrices")
      (auto simp: getQuote_def calculateAmountWithSlippage_def Let_def split_beta)
  from quote_within_slippage[OF prices_ok_init this] this show ?thesis by simp
qed

end
