(* ===== verification/Quote_Gate.thy ===== *)
theory Quote_Gate
  imports Relay_Quoter Http_Routes
begin

text \<open>
  The gate of the relayer (\<open>Relay_Quoter\<close>, from \<open>relayer/src/quoter-service.ts\<close>) over the status route of the coordinator
  (\<open>Http_Routes\<close>, from \<open>coordinator/src/server/routes/quotes.ts\<close>). \<open>read_status\<close> is a reply of the route as the relayer reads it.
\<close>

definition read_status :: "reply \<Rightarrow> status_answer" where
  "read_status r =
    (let nothing = \<lparr>cq_fresh = None, cq_fromAsset = None, cq_toAsset = None, cq_amount = None, cq_fromNetwork = None,
           cq_toNetwork = None, cq_expiresAt = None\<rparr>
     in Status (fst r) (Some (case snd r of
          Fresh_quote_body q freshMs \<Rightarrow>
            (let b = accepted_terms q in nothing\<lparr>cq_fresh := Some True, cq_fromAsset := map_option fromAsset b,
               cq_toAsset := map_option toAsset b, cq_amount := map_option bound_terms.bt_amount b,
               cq_fromNetwork := map_option (chain_str \<circ> fromNetwork) b, cq_toNetwork := map_option (chain_str \<circ> toNetwork) b,
               cq_expiresAt := Some (Fin (of_int (expiresAt q)))\<rparr>)
        | Stale_quote_body qid expiredMs staleMs \<Rightarrow> nothing\<lparr>cq_fresh := Some False\<rparr>
        | _ \<Rightarrow> nothing)))"


lemma to_ms_late [simp]: "1000000000000 \<le> n \<Longrightarrow> to_ms (Fin (of_int n)) = Fin (of_int n)"
proof -
  assume "1000000000000 \<le> n"
  then have "(of_int 1000000000000 :: rat) \<le> of_int n" by (simp only: of_int_le_iff)
  then show ?thesis by (simp add: to_ms_def not_less)
qed

text \<open>C31: What the gate of the relayer passes. Against the coordinator's own status route and for expiries in milliseconds, the
  gate lets a payout through exactly if the coordinator holds the quote unexpired, an announcement has bound terms to it, and the
  bound assets, networks and amount and the expiry are those of the quote of the relayer. A quote that no announcement named never passes. A
  refused announcement binds its quote as well (\<open>refused_hashlock_binds_quote\<close>, \<open>refused_amount_binds_quote\<close>), so that the
  gate does not say that an order exists.\<close>

theorem gate_passes_bound_quotes:
  assumes "fst st = Some s" "qid \<noteq> []" "\<And>q. map_of (quotes s) qid = Some q \<Longrightarrow> 1000000000000 \<le> expiresAt q"
  shows "coordinator_refusal (Some quote) (Some qid) (read_status (fst (get_quote_status qid st))) now = None \<longleftrightarrow>
    (case map_of (quotes s) qid of None \<Rightarrow> False
     | Some q \<Rightarrow> q_now s \<le> expiresAt q \<and> now \<le> expiresAt q \<and> to_ms (rl_validUntil quote) = Fin (of_int (expiresAt q))
        \<and> (case accepted_terms q of None \<Rightarrow> False
           | Some b \<Rightarrow> toLowerCase (fromAsset b) = toLowerCase (rl_fromToken quote) \<and> toLowerCase (toAsset b) = toLowerCase (rl_toToken quote)
             \<and> bound_terms.bt_amount b = rl_fromAmount quote \<and> toLowerCase (chain_str (fromNetwork b)) = toLowerCase (rl_fromChain quote)
             \<and> toLowerCase (chain_str (toNetwork b)) = toLowerCase (rl_toChain quote)))"
proof (cases "map_of (quotes s) qid")
  case None
  then show ?thesis using assms(1,2)
    by (simp add: get_quote_status_def assertFresh_def read_status_def coordinator_refusal_def Let_def quote_typed_def)
next
  case (Some q)
  show ?thesis
  proof (cases "q_now s \<le> expiresAt q")
    case True
    then have reply: "fst (get_quote_status qid st) = (200, Fresh_quote_body q (expiresAt q - q_wall s))"
      using Some assms(1) by (simp add: get_quote_status_def assertFresh_def split: option.split)
    show ?thesis
    proof (cases "accepted_terms q")
      case None
      then show ?thesis using reply Some
        by (simp add: read_status_def coordinator_refusal_def Let_def quote_typed_def)
    next
      case (Some b)
      then show ?thesis using reply \<open>map_of (quotes s) qid = Some q\<close> assms(2) assms(3)[of q] True
        by (auto simp: read_status_def coordinator_refusal_def Let_def quote_typed_def quote_matches_def is_finite_def not_less)
    qed
  next
    case False
    then show ?thesis using Some assms(1)
      by (simp add: get_quote_status_def assertFresh_def read_status_def coordinator_refusal_def Let_def)
  qed
qed

section \<open>Samples\<close>

definition sample_bound_quote :: price_quote where
  "sample_bound_quote = \<lparr>quoteId = ''q'', pair = ''ETH/XLM'', issued_terms = None, srcUsd = None, dstUsd = None, q_source = Quotes.Coingecko,
     issuedAt = 1700000000000, expiresAt = 1700000300000, amountBaseUnits = None,
     accepted_terms = Some \<lparr>fromAsset = ''native'', toAsset = ''native'', bt_amount = ''1000'', fromNetwork = Ethereum, toNetwork = Stellar\<rparr>\<rparr>"

definition sample_relay_quote :: relayer_quote where
  "sample_relay_quote = \<lparr>rl_quoteId = ''r'', rl_fromToken = ''native'', rl_toToken = ''native'', rl_fromChain = ''ethereum'', rl_toChain = ''stellar'',
     rl_fromAmount = ''1000'', rl_toAmount = ''9'', rl_minimumReceived = ''9'', rl_priceImpact = Fin 0, rl_gasPrice = ''1'', rl_startPrice = ''9'',
     rl_currentPrice = ''9'', rl_endPrice = ''9'', rl_fee = 0, rl_timestamp = 1700000000, rl_validUntil = Fin 1700000300000\<rparr>"

definition sample_quote_state :: quote_state where
  "sample_quote_state = \<lparr>quotes = [(''q'', sample_bound_quote)], priceCache = [], q_now = 1700000100000, q_wall = 1700000100000\<rparr>"

theorem gate_passes_bound_quotes_witness:
  "coordinator_refusal (Some sample_relay_quote) (Some ''q'') (read_status (fst (get_quote_status ''q'' (Some sample_quote_state, empty_db 0)))) 1700000200000 = None"
  using gate_passes_bound_quotes[of "(Some sample_quote_state, empty_db 0)" sample_quote_state "''q''" sample_relay_quote 1700000200000]
  by (simp add: sample_quote_state_def sample_bound_quote_def sample_relay_quote_def to_ms_def)

end
