(* ===== verification/Process_Payouts.thy ===== *)
theory Process_Payouts
  imports Relay_Handlers Relay_Quoter
begin

text \<open>
  \<open>POST /api/orders/process\<close> of the relayer with \<open>processEscrowToStellar\<close> (\<open>relayer/src/index.ts\<close>): the release of ETH,
  the payment of XLM against a quote, and the payment that completes an escrow, over the relay tracker.

  \<^item> A request is an entry of \<open>sy_requests\<close> with the phase it waits in; balances, accounts, the answers of the
    coordinator and of Horizon, and the events of the tracker are events of a run.
  \<^item> The executor that the handler gives to \<open>submitIfCoordinatorQuoteMatches\<close> is the call of Horizon itself, made
    within the stager. \<open>sy_payouts\<close> holds the running stagers of that kind by their operation in the tracker, \<open>sy_sent\<close>
    what they submitted: order, destination and amount. The answer of Horizon is an object without \<open>txHash\<close>.
  \<^item> \<open>pf_payment\<close> is \<open>Operation.payment\<close> of the Stellar SDK, which refuses some destinations and amounts.
\<close>

record process_order =
  od_contractType :: "string option"
  od_status :: string
  od_stellarAddress :: "string option"
  od_amount :: "string option"
  od_networkMode :: "string option"
  od_details :: order_details
  od_relayerQuote :: "relayer_quote option"
  od_coordinatorQuoteId :: "string option"
  od_stellarTxHash :: "string option"

record process_request =
  pq_orderId :: "string option"
  pq_txHash :: "string option"
  pq_stellarTxHash :: "string option"
  pq_stellarAddress :: "string option"
  pq_ethAddress :: "string option"

datatype process_reply =
    Process_error nat string
  | Process_paid "string option"
  | Process_pending "string option"
  | Process_failed nat failure
  | Escrow_accepted

datatype payout_kind = Release | Payment | Escrow_payment

datatype process_phase = Get_balance | Load_account bool | Paying payout_kind wait | Answered process_reply | Hangs

record process_entry =
  en_orderId :: string
  en_destination :: "string option"
  en_network :: string
  en_phase :: process_phase

record quoted_payout =
  qp_orderId :: string
  qp_quote :: "relayer_quote option"
  qp_quoteId :: "string option"
  qp_destination :: "string option"
  qp_amount :: string

record process_system =
  sy_orders :: "(string \<times> process_order) list"
  sy_tracker :: tracker
  sy_requests :: "process_entry list"
  sy_payouts :: "(nat \<times> quoted_payout) list"
  sy_sent :: "(string \<times> string option \<times> string) list"

record process_config =
  pf_relay :: relay_config
  pf_handler :: handler_config
  pf_sha :: "string \<Rightarrow> string"
  pf_payment :: "string option \<Rightarrow> string \<Rightarrow> string + unit"

definition enter :: "string \<Rightarrow> string option \<Rightarrow> string \<Rightarrow> process_phase \<Rightarrow> process_system \<Rightarrow> process_system" where
  "enter orderId destination network ph s =
    s\<lparr>sy_requests := sy_requests s @ [\<lparr>en_orderId = orderId, en_destination = destination, en_network = network, en_phase = ph\<rparr>]\<rparr>"

definition to_phase :: "nat \<Rightarrow> process_phase \<Rightarrow> process_system \<Rightarrow> process_system" where
  "to_phase rid ph s = s\<lparr>sy_requests := (sy_requests s)[rid := (sy_requests s ! rid)\<lparr>en_phase := ph\<rparr>]\<rparr>"

definition write_order :: "string \<Rightarrow> (process_order \<Rightarrow> process_order) \<Rightarrow> process_system \<Rightarrow> process_system" where
  "write_order orderId f s = s\<lparr>sy_orders := AList.map_entry orderId f (sy_orders s)\<rparr>"

definition PLACEHOLDER_SECRET :: string where
  "PLACEHOLDER_SECRET = CHR ''S'' # CHR ''A'' # replicate 54 CHR ''X''"

text \<open>The secret of the relayer and the key of it; \<open>None\<close> where the code throws.\<close>

definition relayer_key :: "process_config \<Rightarrow> string \<Rightarrow> string option" where
  "relayer_key cfg network =
    (case or_else (stellar_secret (hc_env (pf_handler cfg)) network) None of
       None \<Rightarrow> None
     | Some secret \<Rightarrow>
        if secret = PLACEHOLDER_SECRET then None
        else (case hc_publicKey (pf_handler cfg) secret of Inl m \<Rightarrow> None | Inr key \<Rightarrow> Some key))"

section \<open>The request\<close>

definition is_escrow :: "process_order \<Rightarrow> bool" where
  "is_escrow order \<longleftrightarrow> od_contractType order = Some ''ONEINCH_ESCROW_FACTORY'' \<and> od_status order = ''pending_escrow_deployment''"

definition payment_network :: "process_order \<Rightarrow> string" where
  "payment_network order = (if text_occurs ''ONEINCH'' (or_empty (od_contractType order)) then ''mainnet'' else ''testnet'')"

definition start_escrow :: "process_config \<Rightarrow> process_request \<Rightarrow> string \<Rightarrow> process_order \<Rightarrow> process_system \<Rightarrow> process_system" where
  "start_escrow cfg req orderId order s =
    (let s' = write_order orderId (\<lambda>order. order\<lparr>od_status := ''escrow_deployed'',
               od_details := (od_details order)\<lparr>od_ethTxHash := pq_txHash req\<rparr>\<rparr>) s
     in if relayer_key cfg ''mainnet'' = None
        then enter orderId (od_stellarAddress order) ''mainnet'' (Answered Escrow_accepted)
          (write_order orderId (\<lambda>order. order\<lparr>od_status := ''stellar_transfer_failed''\<rparr>) s')
        else enter orderId (od_stellarAddress order) ''mainnet'' (Load_account True) s')"

definition start_release :: "process_config \<Rightarrow> process_request \<Rightarrow> string \<Rightarrow> process_order \<Rightarrow> process_system \<Rightarrow> process_system" where
  "start_release cfg req orderId order s =
    (let network = the (or_else (od_networkMode order) (Some ''mainnet''));
         put = (\<lambda>ph. enter orderId (or_else (od_ethAddress (od_details order)) (pq_ethAddress req)) network ph s)
     in case or_else (hc_env (pf_handler cfg) ''RELAYER_PRIVATE_KEY'') None of
          None \<Rightarrow> put (Answered (Process_failed 500 (Plain_failure ''RELAYER_PRIVATE_KEY environment variable is required'')))
        | Some key \<Rightarrow>
           (case hc_wallet (pf_handler cfg) key of Inl m \<Rightarrow> put (Answered (Process_failed 500 (Plain_failure m)))
            | Inr _ \<Rightarrow> put Get_balance))"

definition start_payment :: "process_config \<Rightarrow> process_request \<Rightarrow> string \<Rightarrow> process_order \<Rightarrow> process_system \<Rightarrow> process_system" where
  "start_payment cfg req orderId order s =
    enter orderId (or_else (od_stellarAddress order) (pq_stellarAddress req)) (payment_network order)
      (if relayer_key cfg (payment_network order) = None
       then Answered (Process_failed 502 (Plain_failure ''Relayer Stellar secret key not configured'')) else Load_account False) s"

text \<open>A request that names both transactions, or none, is never answered.\<close>

definition process_route :: "process_config \<Rightarrow> process_request \<Rightarrow> process_system \<Rightarrow> process_system" where
  "process_route cfg req s =
    (let orderId = or_empty (pq_orderId req)
     in if orderId = [] then enter [] None [] (Answered (Process_error 400 ''Order ID is required'')) s
        else case map_of (sy_orders s) orderId of
          None \<Rightarrow> enter orderId None [] (Answered (Process_error 404 ''Order not found'')) s
        | Some order \<Rightarrow>
            if is_escrow order then start_escrow cfg req orderId order s
            else if given (pq_stellarTxHash req) \<and> \<not> given (pq_txHash req) then start_release cfg req orderId order s
            else if given (pq_txHash req) \<and> \<not> given (pq_stellarTxHash req) then start_payment cfg req orderId order s
            else enter orderId None [] Hangs s)"

section \<open>Releasing ETH\<close>

text \<open>As in \<open>release_wei\<close>, but \<open>parseEther\<close> has a fallback in both branches and the default amount is another.\<close>

definition process_wei :: "handler_config \<Rightarrow> order_details \<Rightarrow> string option \<Rightarrow> string + int" where
  "process_wei cfg d amount =
    (let parsed = (\<lambda>x. case hc_parseEther cfg x of Inl e \<Rightarrow> 1000000000000000 | Inr wei \<Rightarrow> wei)
     in if given (od_targetAmount d)
        then (case target_number (hc_formatEther cfg) (exchange_rate d) (the (or_else amount (Some ''100000000000000000''))) (the (od_targetAmount d)) of
            Inl e \<Rightarrow> Inl e | Inr x \<Rightarrow> Inr (parsed x))
        else Inr (parsed (micro_round (js_min (js_div (xlm_amount d (or_empty amount)) (exchange_rate d)) (Fin 10)))))"

definition process_submit :: "process_config \<Rightarrow> relay_action \<Rightarrow> int \<Rightarrow> process_system \<Rightarrow> relay_reply \<times> process_system" where
  "process_submit cfg a now s =
    (let (reply, t') = submit (pf_sha cfg) (pf_relay cfg) a now (sy_tracker s) in (reply, s\<lparr>sy_tracker := t'\<rparr>))"

definition release_action :: "process_entry \<Rightarrow> string option \<Rightarrow> relay_action" where
  "release_action r amount =
    \<lparr>ra_orderId = en_orderId r, ra_side = ''xlm_to_eth'', ra_action = ''claim'', ra_chain = ''ethereum'',
     ra_network = Some (en_network r), ra_destination = en_destination r, ra_amount = amount\<rparr>"

definition balance_known :: "process_config \<Rightarrow> (nat \<Rightarrow> rpc_error + int) \<Rightarrow> int \<Rightarrow> nat \<Rightarrow> process_system \<Rightarrow> process_system" where
  "balance_known cfg answers now rid s =
    (let r = sy_requests s ! rid
     in case map_of (sy_orders s) (en_orderId r) of None \<Rightarrow> s
     | Some order \<Rightarrow>
        (case balance_loop answers 5 0 of
           Inl err \<Rightarrow> to_phase rid (Answered (Process_failed 500 (Plain_failure (messageOf err)))) s
         | Inr balance \<Rightarrow>
            (case process_wei (pf_handler cfg) (od_details order) (od_amount order) of
               Inl m \<Rightarrow> to_phase rid (Answered (Process_failed 500 (Plain_failure m))) s
             | Inr wei \<Rightarrow>
                (let (reply, s') = process_submit cfg (release_action r (release_text (pf_handler cfg) wei)) now s
                 in to_phase rid (Paying Release (wait_of reply)) s'))))"

section \<open>Paying XLM\<close>

definition payment_action :: "process_entry \<Rightarrow> string \<Rightarrow> relay_action" where
  "payment_action r amount =
    \<lparr>ra_orderId = en_orderId r, ra_side = ''eth_to_xlm'', ra_action = ''claim'', ra_chain = ''stellar'',
     ra_network = Some (en_network r), ra_destination = en_destination r, ra_amount = Some amount\<rparr>"

definition payment_amount :: "handler_config \<Rightarrow> process_order \<Rightarrow> string + string" where
  "payment_amount cfg order =
    (case hc_formatEther cfg (the (or_else (od_amount order) (Some ''1000000000000000''))) of
       Inl m \<Rightarrow> Inl m
     | Inr ether \<Rightarrow> Inr (toFixed7 (hc_wide cfg) (js_mult (parseFloat ether) (exchange_rate (od_details order)))))"

text \<open>The escrow multiplies the amount in wei.\<close>

definition escrow_amount :: "handler_config \<Rightarrow> process_order \<Rightarrow> string + string" where
  "escrow_amount cfg order =
    Inr (toFixed7 (hc_wide cfg) (js_mult (parseFloat (or_empty (od_amount order))) (exchange_rate (od_details order))))"

text \<open>The checks between the answer of Horizon about the account and the submission: the amount to pay.\<close>

definition payable :: "process_config \<Rightarrow> string option \<Rightarrow> string + string \<Rightarrow> string + string option \<Rightarrow> string + string" where
  "payable cfg destination amount account =
    (case account of Inl m \<Rightarrow> Inl m
     | Inr balance \<Rightarrow>
        (case amount of Inl m \<Rightarrow> Inl m
         | Inr xlm \<Rightarrow>
            if js_less (parseFloat (the (or_else balance (Some ''0'')))) (parseFloat xlm) then Inl ''INSUFFICIENT FUNDS''
            else case pf_payment cfg destination xlm of Inl m \<Rightarrow> Inl m | Inr _ \<Rightarrow> Inr xlm))"

text \<open>\<open>submit\<close> calls the stager before it returns, so a payout that now waits for its own operation runs the executor
  of this request.\<close>

definition submit_payment :: "process_config \<Rightarrow> nat \<Rightarrow> process_entry \<Rightarrow> process_order \<Rightarrow> string \<Rightarrow> int \<Rightarrow> process_system \<Rightarrow> process_system" where
  "submit_payment cfg rid r order xlm now s =
    (let (reply, s') = process_submit cfg (payment_action r xlm) now s;
         payout = \<lparr>qp_orderId = en_orderId r, qp_quote = od_relayerQuote order, qp_quoteId = od_coordinatorQuoteId order,
           qp_destination = en_destination r, qp_amount = xlm\<rparr>;
         s'' = (case reply of Waiting oid \<Rightarrow>
             if map_of (ops (sy_tracker s')) oid = Some Staging then s'\<lparr>sy_payouts := (oid, payout) # sy_payouts s'\<rparr> else s'
           | _ \<Rightarrow> s')
     in to_phase rid (Paying Payment (wait_of reply)) s'')"

definition fail_escrow :: "nat \<Rightarrow> string \<Rightarrow> process_system \<Rightarrow> process_system" where
  "fail_escrow rid orderId s = to_phase rid (Answered Escrow_accepted)
     (write_order orderId (\<lambda>order. order\<lparr>od_status := ''stellar_transfer_failed''\<rparr>) s)"

definition account_loaded :: "process_config \<Rightarrow> bool \<Rightarrow> string + string option \<Rightarrow> int \<Rightarrow> nat \<Rightarrow> process_system \<Rightarrow> process_system" where
  "account_loaded cfg escrow account now rid s =
    (let r = sy_requests s ! rid
     in case map_of (sy_orders s) (en_orderId r) of None \<Rightarrow> s
     | Some order \<Rightarrow>
        (case payable cfg (en_destination r) ((if escrow then escrow_amount else payment_amount) (pf_handler cfg) order) account of
           Inl m \<Rightarrow> if escrow then fail_escrow rid (en_orderId r) s
             else to_phase rid (Answered (Process_failed 502 (Plain_failure m))) s
         | Inr xlm \<Rightarrow>
            if escrow
            then (let (reply, s') = process_submit cfg (payment_action r xlm) now s in to_phase rid (Paying Escrow_payment (wait_of reply)) s')
            else submit_payment cfg rid r order xlm now s))"

text \<open>The answers to a running stager of a quoted payout: the status of the quote and, once the gate has let it through,
  the answer of Horizon to the transaction.\<close>

definition run_executor :: "status_answer \<Rightarrow> string + js_value \<Rightarrow> int \<Rightarrow> quoted_payout
    \<Rightarrow> (string + staged_submission) \<times> (string \<times> string option \<times> string) list" where
  "run_executor told horizon now p =
    (case coordinator_refusal (qp_quote p) (qp_quoteId p) told now of
       Some code \<Rightarrow> (Inl code, [])
     | None \<Rightarrow> ((case horizon of Inl m \<Rightarrow> Inl m | Inr result \<Rightarrow> Inr \<lparr>st_txHash = [], st_network = None\<rparr>),
         [(qp_orderId p, qp_destination p, qp_amount p)]))"

section \<open>Replies\<close>

definition payment_settled :: "nat \<Rightarrow> payout_kind \<Rightarrow> relay_reply \<Rightarrow> process_system \<Rightarrow> process_system" where
  "payment_settled rid kind reply s =
    (let orderId = en_orderId (sy_requests s ! rid);
         code = (if kind = Release then 500 else 502)
     in case reply of
          Resolved out \<Rightarrow>
            (let s' = write_order orderId (\<lambda>order.
               if kind = Release then order\<lparr>od_status := ''completed'', od_details := (od_details order)\<lparr>od_ethTxHash := ro_txHash out\<rparr>\<rparr>
               else order\<lparr>od_status := ''completed'', od_stellarTxHash := ro_txHash out\<rparr>) s
             in to_phase rid (Answered (if kind = Escrow_payment then Escrow_accepted else Process_paid (ro_txHash out))) s')
        | Thrown e \<Rightarrow>
            if kind = Escrow_payment then fail_escrow rid orderId s
            else to_phase rid (Answered (case e of
                RelayInFlightError key \<Rightarrow> Process_error 409 ''already in progress for this order''
              | RelayOrderBusyError k a st req \<Rightarrow> Process_error 409 ''already in progress for this order''
              | RelayConfirmationTimeoutError k h n a \<Rightarrow> Process_pending h
              | _ \<Rightarrow> Process_failed code (Relay_failure e))) s
        | _ \<Rightarrow> s)"

section \<open>Runs\<close>

text \<open>The id of a new order is fresh, so the order that is found later is the object that a request holds.\<close>

datatype process_event =
    Order_stored string process_order
  | Process_request process_request
  | Balance_known nat "nat \<Rightarrow> rpc_error + int" int
  | Account_loaded nat "string + string option" int
  | Payout_answers nat status_answer "string + js_value" int
  | Payout_timeout nat string int
  | Tracker_step relay_event
  | Proceed nat

fun deliver_reply :: "nat \<Rightarrow> relay_reply \<Rightarrow> process_phase \<Rightarrow> process_phase" where
  "deliver_reply oid reply (Paying k w) = Paying k (deliver oid reply w)"
| "deliver_reply oid reply ph = ph"

text \<open>An event of the tracker; a restart ends the process with its orders and requests. The stager of a quoted payout
  is answered by \<open>Payout_answers\<close>, or the tracker stops waiting for it: after a \<open>Payout_timeout\<close> the staging has failed for the tracker,
  while the executor runs on and may still send.\<close>

definition tracker_moves :: "process_config \<Rightarrow> relay_event \<Rightarrow> process_system \<Rightarrow> process_system" where
  "tracker_moves cfg ev s =
    (let (reply, t') = relay_step (pf_sha cfg) (pf_relay cfg) ev (sy_tracker s); s' = s\<lparr>sy_tracker := t'\<rparr>
     in if ev = Restart then s'\<lparr>sy_orders := [], sy_requests := [], sy_payouts := []\<rparr>
        else case target ev of
          Some oid \<Rightarrow> if ended reply then s'\<lparr>sy_requests := map (\<lambda>r. r\<lparr>en_phase := deliver_reply oid reply (en_phase r)\<rparr>) (sy_requests s')\<rparr>
            else s'
        | None \<Rightarrow> s')"

definition foreign_event :: "relay_event \<Rightarrow> process_system \<Rightarrow> bool" where
  "foreign_event ev s \<longleftrightarrow>
    (case ev of Stager_answers oid ans now \<Rightarrow> map_of (sy_payouts s) oid = None | _ \<Rightarrow> True)"

definition payout_answers :: "process_config \<Rightarrow> nat \<Rightarrow> status_answer \<Rightarrow> string + js_value \<Rightarrow> int \<Rightarrow> process_system \<Rightarrow> process_system" where
  "payout_answers cfg oid told horizon now s =
    (case map_of (sy_payouts s) oid of None \<Rightarrow> s
     | Some p \<Rightarrow>
        (let (ans, sent) = run_executor told horizon now p
         in tracker_moves cfg (Stager_answers oid ans now)
              (s\<lparr>sy_sent := sy_sent s @ sent, sy_payouts := AList.delete oid (sy_payouts s)\<rparr>)))"

definition process_step :: "process_config \<Rightarrow> process_event \<Rightarrow> process_system \<Rightarrow> process_system" where
  "process_step cfg ev s =
    (case ev of
       Order_stored orderId order \<Rightarrow>
         if map_of (sy_orders s) orderId = None then s\<lparr>sy_orders := (orderId, order) # sy_orders s\<rparr> else s
     | Process_request req \<Rightarrow> process_route cfg req s
     | Balance_known rid answers now \<Rightarrow>
         if rid < length (sy_requests s) \<and> en_phase (sy_requests s ! rid) = Get_balance
         then balance_known cfg answers now rid s else s
     | Account_loaded rid account now \<Rightarrow>
         if rid < length (sy_requests s)
         then (case en_phase (sy_requests s ! rid) of Load_account escrow \<Rightarrow> account_loaded cfg escrow account now rid s | _ \<Rightarrow> s)
         else s
     | Payout_answers oid told horizon now \<Rightarrow> payout_answers cfg oid told horizon now s
     | Payout_timeout oid message now \<Rightarrow>
         if map_of (sy_payouts s) oid = None then s else tracker_moves cfg (Stager_answers oid (Inl message) now) s
     | Tracker_step e \<Rightarrow> if foreign_event e s then tracker_moves cfg e s else s
     | Proceed rid \<Rightarrow>
         if rid < length (sy_requests s)
         then (case en_phase (sy_requests s ! rid) of Paying kind (Answer reply) \<Rightarrow> payment_settled rid kind reply s | _ \<Rightarrow> s)
         else s)"

definition process_run :: "process_config \<Rightarrow> process_event list \<Rightarrow> process_system" where
  "process_run cfg evs = fold (process_step cfg) evs
    \<lparr>sy_orders = [], sy_tracker = fresh_tracker (pf_sha cfg) (pf_relay cfg), sy_requests = [], sy_payouts = [], sy_sent = []\<rparr>"

lemma process_run_snoc: "process_run cfg (evs @ [ev]) = process_step cfg ev (process_run cfg evs)"
  by (simp add: process_run_def)


section \<open>An order without a quote is never paid in XLM\<close>

definition unquoted :: "relayer_quote option \<Rightarrow> string option \<Rightarrow> bool" where
  "unquoted quote qid \<longleftrightarrow> quote = None \<or> \<not> given qid"

definition never_paid :: "string \<Rightarrow> process_system \<Rightarrow> bool" where
  "never_paid orderId s \<longleftrightarrow>
     (\<forall>(k, order) \<in> set (sy_orders s). k = orderId \<longrightarrow> unquoted (od_relayerQuote order) (od_coordinatorQuoteId order))
   \<and> (\<forall>(oid, p) \<in> set (sy_payouts s). qp_orderId p = orderId \<longrightarrow> unquoted (qp_quote p) (qp_quoteId p))
   \<and> orderId \<notin> fst ` set (sy_sent s)"

lemma map_entry_memberD: "(k, v) \<in> set (AList.map_entry k' f xs) \<Longrightarrow> \<exists>v'. (k, v') \<in> set xs \<and> (v = v' \<or> v = f v')"
  by (induction xs) (auto split: if_splits)

lemma never_paid_frame [simp]:
  "never_paid orderId (to_phase rid ph s) = never_paid orderId s"
  "never_paid orderId (enter k destination network ph s) = never_paid orderId s"
  "never_paid orderId (s\<lparr>sy_tracker := t\<rparr>) = never_paid orderId s"
  "never_paid orderId (s\<lparr>sy_requests := rs\<rparr>) = never_paid orderId s"
  by (simp_all add: never_paid_def to_phase_def enter_def)

lemma never_paid_write:
  assumes "never_paid orderId s"
    "\<And>order. od_relayerQuote (f order) = od_relayerQuote order" "\<And>order. od_coordinatorQuoteId (f order) = od_coordinatorQuoteId order"
  shows "never_paid orderId (write_order k f s)"
  using assms unfolding never_paid_def write_order_def by (auto dest!: map_entry_memberD)

lemma never_paid_submit: "never_paid orderId (snd (process_submit cfg a now s)) = never_paid orderId s"
  by (simp add: process_submit_def split_beta)

lemma never_paid_tracker: "never_paid orderId s \<Longrightarrow> never_paid orderId (tracker_moves cfg ev s)"
  by (auto simp: tracker_moves_def split_beta Let_def never_paid_def split: option.splits)

lemma never_paid_route: "never_paid orderId s \<Longrightarrow> never_paid orderId (process_route cfg req s)"
  by (auto simp: process_route_def start_escrow_def start_release_def start_payment_def Let_def
      intro!: never_paid_write split: option.split sum.split)

lemma never_paid_submit_payment:
  assumes "never_paid orderId s" "map_of (sy_orders s) (en_orderId r) = Some order"
  shows "never_paid orderId (submit_payment cfg rid r order xlm now s)"
proof -
  obtain reply s' where s': "process_submit cfg (payment_action r xlm) now s = (reply, s')" by force
  then have "never_paid orderId s'" using assms(1) never_paid_submit[of orderId cfg "payment_action r xlm" now s] by simp
  moreover have "en_orderId r = orderId \<Longrightarrow> unquoted (od_relayerQuote order) (od_coordinatorQuoteId order)"
    using assms map_of_SomeD[OF assms(2)] unfolding never_paid_def by blast
  ultimately have "never_paid orderId (case reply of Waiting oid \<Rightarrow>
      if map_of (ops (sy_tracker s')) oid = Some Staging
      then s'\<lparr>sy_payouts := (oid, \<lparr>qp_orderId = en_orderId r, qp_quote = od_relayerQuote order, qp_quoteId = od_coordinatorQuoteId order,
        qp_destination = en_destination r, qp_amount = xlm\<rparr>) # sy_payouts s'\<rparr> else s' | _ \<Rightarrow> s')"
    by (auto simp: never_paid_def split: relay_reply.split)
  then show ?thesis using s' by (simp add: submit_payment_def)
qed

lemma never_paid_account:
  assumes "never_paid orderId s"
  shows "never_paid orderId (account_loaded cfg escrow account now rid s)"
proof (cases "map_of (sy_orders s) (en_orderId (sy_requests s ! rid))")
  case (Some order)
  show ?thesis
  proof (cases "payable cfg (en_destination (sy_requests s ! rid))
      ((if escrow then escrow_amount else payment_amount) (pf_handler cfg) order) account")
    case (Inl m)
    then show ?thesis using assms Some by (auto simp: account_loaded_def fail_escrow_def intro!: never_paid_write)
  next
    case (Inr xlm)
    then show ?thesis using assms Some never_paid_submit_payment[OF assms Some] never_paid_submit
      by (auto simp: account_loaded_def split_beta Let_def)
  qed
qed (use assms in \<open>simp add: account_loaded_def\<close>)

lemma never_paid_answers:
  assumes "never_paid orderId s"
  shows "never_paid orderId (payout_answers cfg oid told horizon now s)"
proof (cases "map_of (sy_payouts s) oid")
  case (Some p)
  then have "qp_orderId p = orderId \<Longrightarrow> unquoted (qp_quote p) (qp_quoteId p)"
    using assms map_of_SomeD[OF Some] unfolding never_paid_def by blast
  then have "orderId \<notin> fst ` set (snd (run_executor told horizon now p))"
    by (auto simp: run_executor_def unquoted_def given_def coordinator_refusal_def split: option.splits)
  then have "never_paid orderId (s\<lparr>sy_sent := sy_sent s @ snd (run_executor told horizon now p), sy_payouts := AList.delete oid (sy_payouts s)\<rparr>)"
    using assms by (auto simp: never_paid_def AList.delete_eq)
  then show ?thesis using Some by (simp add: payout_answers_def split_beta never_paid_tracker)
qed (use assms in \<open>simp add: payout_answers_def\<close>)

lemma never_paid_step:
  assumes "never_paid orderId s"
    "\<And>order. ev = Order_stored orderId order \<Longrightarrow> unquoted (od_relayerQuote order) (od_coordinatorQuoteId order)"
  shows "never_paid orderId (process_step cfg ev s)"
proof (cases ev)
  case (Order_stored k order)
  then show ?thesis using assms by (auto simp: process_step_def never_paid_def)
next
  case (Balance_known rid answers now)
  then show ?thesis using assms(1) never_paid_submit
    by (auto simp: process_step_def balance_known_def split_beta Let_def split: option.split sum.split)
next
  case (Proceed rid)
  then show ?thesis using assms(1)
    by (auto simp: process_step_def payment_settled_def fail_escrow_def Let_def intro!: never_paid_write
        split: process_phase.split wait.split relay_reply.split)
qed (use assms never_paid_route never_paid_account never_paid_answers never_paid_tracker in
    \<open>auto simp: process_step_def split: process_phase.split\<close>)

text \<open>C30: No quote, no payment. However requests and answers interleave, no XLM is sent for an order that was never stored
  with both a quote of the relayer and the id of a quote of the coordinator; the orders of the frontend have neither.\<close>

theorem unquoted_order_never_paid:
  assumes "\<forall>order. Order_stored orderId order \<in> set evs \<longrightarrow> od_relayerQuote order = None \<or> \<not> given (od_coordinatorQuoteId order)"
  shows "orderId \<notin> fst ` set (sy_sent (process_run cfg evs))"
proof -
  have "never_paid orderId (process_run cfg evs)"
    using assms
  proof (induction evs rule: rev_induct)
    case Nil
    then show ?case by (simp add: process_run_def never_paid_def)
  next
    case (snoc ev evs)
    then show ?case unfolding process_run_snoc by (intro never_paid_step) (auto simp: unquoted_def)
  qed
  then show ?thesis by (simp add: never_paid_def)
qed

section \<open>A quoted order is paid for every request\<close>

definition at_rest :: "string \<Rightarrow> nat \<Rightarrow> tracker \<Rightarrow> bool" where
  "at_rest key n t \<longleftrightarrow> length (heap t) = n \<and> ops t = [] \<and> wire t = []
   \<and> (records t = [] \<or> (\<exists>i < n. records t = [(key, i)] \<and> sr_status (heap t ! i) = FailedTx
        \<and> sr_terminalReason (heap t ! i) = Some ReasonStaging))"

definition NO_HASH :: string where
  "NO_HASH = ''stager did not provide a transaction hash before broadcast''"

definition staging_at :: "string \<Rightarrow> nat \<Rightarrow> tracker \<Rightarrow> bool" where
  "staging_at key n t \<longleftrightarrow> length (heap t) = n + 1 \<and> ops t = [(n, Staging)] \<and> wire t = [] \<and> records t = [(key, n)]
   \<and> sr_key (heap t ! n) = key \<and> sr_attempts (heap t ! n) = 1"

lemma submit_at_rest:
  assumes "at_rest (computeSubmissionKey sha a) n t"
  obtains t' where "submit sha cfg a now t = (Waiting n, t')" "staging_at (computeSubmissionKey sha a) n t'"
proof -
  let ?key = "computeSubmissionKey sha a"
  have start: "\<exists>t'. start_submission sha cfg a now t0 = (Waiting n, t') \<and> staging_at ?key n t'"
    if "records t0 = []" "length (heap t0) = n" "ops t0 = []" "wire t0 = []" for t0
    using that by (simp add: start_submission_def assertOrderAvailable_def getBlockingRecord_def Let_def set_record_def
        set_op_def update_rec_def staging_at_def nth_append)
  from assms consider "records t = []"
    | i where "records t = [(?key, i)]" "sr_status (heap t ! i) = FailedTx" "sr_terminalReason (heap t ! i) = Some ReasonStaging"
    by (auto simp: at_rest_def)
  then show thesis
  proof cases
    case 1
    then show thesis using start[of t] assms that by (auto simp: submit_def at_rest_def)
  next
    case 2
    let ?t0 = "persist cfg (t\<lparr>records := []\<rparr>)"
    have "submit sha cfg a now t = start_submission sha cfg a now ?t0"
      using 2 by (simp add: submit_def Let_def assertOrderAvailable_def getBlockingRecord_def)
    then show thesis using start[of ?t0] assms that by (auto simp: at_rest_def)
  qed
qed

lemma hashless_at_rest:
  assumes "staging_at key n t"
  obtains t' where "relay_step sha cfg (Stager_answers n (Inr \<lparr>st_txHash = [], st_network = None\<rparr>) now) t
      = (Thrown (RelayTerminalError key 1 (Some NO_HASH) ReasonStaging), t')" "at_rest key (n + 1) t'"
  using assms that
  by (auto simp: staging_at_def at_rest_def relay_step_def stager_settled_def fail_rec_def update_rec_def end_op_def
      terminal_error_def Let_def NO_HASH_def)

definition paying_round :: "process_request \<Rightarrow> string + string option \<Rightarrow> status_answer \<Rightarrow> js_value \<Rightarrow> int \<Rightarrow> nat \<Rightarrow> process_event list" where
  "paying_round req account told result now i =
    [Process_request req, Account_loaded i account now, Payout_answers i told (Inr result) now, Proceed i]"

text \<open>C29: Every request pays. Take an order with a quote that passes the gate, and let its payment be requested again and
  again, each request being served to its end, with Horizon accepting each transaction: then each request sends another
  payment, the tracker never learns of one, and every reply says that the payment failed.\<close>

theorem every_request_pays_again:
  fixes cfg req orderId order account told now
  defines "dest \<equiv> or_else (od_stellarAddress order) (pq_stellarAddress req)"
  assumes "pq_orderId req = Some orderId" "orderId \<noteq> []" "given (pq_txHash req)" "\<not> given (pq_stellarTxHash req)"
    and "\<not> is_escrow order" "relayer_key cfg (payment_network order) \<noteq> None"
    and "payable cfg dest (payment_amount (pf_handler cfg) order) account = Inr xlm"
    and "coordinator_refusal (od_relayerQuote order) (od_coordinatorQuoteId order) told now = None"
  shows "(let s = process_run cfg (Order_stored orderId order # concat (map (paying_round req account told result now) [0..<n]))
    in sy_sent s = replicate n (orderId, dest, xlm) \<and> wire (sy_tracker s) = []
      \<and> list_all (\<lambda>r. \<exists>e. en_phase r = Answered (Process_failed 502 (Relay_failure e))) (sy_requests s))"
proof -
  let ?run = "\<lambda>n. process_run cfg (Order_stored orderId order # concat (map (paying_round req account told result now) [0..<n]))"
  let ?entry = "\<lambda>ph. \<lparr>en_orderId = orderId, en_destination = dest, en_network = payment_network order, en_phase = ph\<rparr>"
  let ?key = "computeSubmissionKey (pf_sha cfg) (payment_action (?entry Hangs) xlm)"
  let ?failed = "Relay_failure (RelayTerminalError ?key 1 (Some NO_HASH) ReasonStaging)"
  let ?done = "\<lambda>n s. sy_orders s = [(orderId, order)] \<and> sy_payouts s = [] \<and> sy_sent s = replicate n (orderId, dest, xlm)
    \<and> sy_requests s = replicate n (?entry (Answered (Process_failed 502 ?failed))) \<and> at_rest ?key n (sy_tracker s)"
  have round: "?done (Suc n) (fold (process_step cfg) (paying_round req account told result now n) s)" if s: "?done n s" for n s
  proof -
    let ?s1 = "s\<lparr>sy_requests := sy_requests s @ [?entry (Load_account False)]\<rparr>"
    have e1: "process_step cfg (Process_request req) s = ?s1"
      using assms s by (simp add: process_step_def process_route_def or_empty_def given_def start_payment_def enter_def)
    have n: "length (sy_requests s) = n" "map_of (sy_orders s) orderId = Some order" using s by simp_all
    have key: "computeSubmissionKey (pf_sha cfg) (payment_action (?entry (Load_account False)) xlm) = ?key"
      by (simp add: computeSubmissionKey_def payment_action_def)
    from s have "at_rest (computeSubmissionKey (pf_sha cfg) (payment_action (?entry (Load_account False)) xlm)) n (sy_tracker s)"
      unfolding key by simp
    then obtain t1 where t1: "submit (pf_sha cfg) (pf_relay cfg) (payment_action (?entry (Load_account False)) xlm) now (sy_tracker s) = (Waiting n, t1)"
      "staging_at ?key n t1" by (rule submit_at_rest) (simp add: key)
    let ?payout = "\<lparr>qp_orderId = orderId, qp_quote = od_relayerQuote order, qp_quoteId = od_coordinatorQuoteId order,
       qp_destination = dest, qp_amount = xlm\<rparr>"
    let ?s2 = "s\<lparr>sy_requests := sy_requests s @ [?entry (Paying Payment (On n))], sy_tracker := t1, sy_payouts := [(n, ?payout)]\<rparr>"
    have e2: "process_step cfg (Account_loaded n account now) ?s1 = ?s2"
      using assms(8) t1 n s
      by (simp add: process_step_def account_loaded_def nth_append submit_payment_def process_submit_def wait_of_def
          to_phase_def staging_at_def list_update_append)
    obtain t2 where t2: "relay_step (pf_sha cfg) (pf_relay cfg) (Stager_answers n (Inr \<lparr>st_txHash = [], st_network = None\<rparr>) now) t1
        = (Thrown (RelayTerminalError ?key 1 (Some NO_HASH) ReasonStaging), t2)" "at_rest ?key (n + 1) t2"
      using hashless_at_rest[OF t1(2)] by metis
    let ?thrown = "Thrown (RelayTerminalError ?key 1 (Some NO_HASH) ReasonStaging)"
    let ?s3 = "s\<lparr>sy_requests := sy_requests s @ [?entry (Paying Payment (Answer ?thrown))], sy_tracker := t2,
       sy_sent := sy_sent s @ [(orderId, dest, xlm)]\<rparr>"
    have e3: "process_step cfg (Payout_answers n told (Inr result) now) ?s2 = ?s3"
      using assms(9) t2(1) s
      by (simp add: process_step_def payout_answers_def run_executor_def tracker_moves_def)
    have e4: "process_step cfg (Proceed n) ?s3 = ?s3\<lparr>sy_requests := sy_requests s @ [?entry (Answered (Process_failed 502 ?failed))]\<rparr>"
      using n by (simp add: process_step_def payment_settled_def nth_append to_phase_def list_update_append)
    have "fold (process_step cfg) (paying_round req account told result now n) s
      = ?s3\<lparr>sy_requests := sy_requests s @ [?entry (Answered (Process_failed 502 ?failed))]\<rparr>"
      by (simp only: paying_round_def fold_simps e1 e2 e3 e4)
    then show ?thesis using s t2(2) by (simp add: replicate_append_same)
  qed
  have "?done n (?run n)"
  proof (induction n)
    case 0
    have "at_rest ?key 0 (fresh_tracker (pf_sha cfg) (pf_relay cfg))"
      by (simp add: at_rest_def fresh_tracker_def boot_def restore_def)
    then show ?case by (simp add: process_run_def process_step_def)
  next
    case (Suc n)
    have "?run (Suc n) = fold (process_step cfg) (paying_round req account told result now n) (?run n)"
      by (simp add: process_run_def)
    then show ?case using round[OF Suc] by (simp only:)
  qed
  then show ?thesis by (simp add: Let_def at_rest_def list_all_iff)
qed

section \<open>Samples\<close>

definition sample_process_config :: process_config where
  "sample_process_config = \<lparr>pf_relay = make_config None True No_store (\<lambda>m. True),
     pf_handler = \<lparr>hc_env = (\<lambda>name. Some ''SECRET''), hc_timelockGap = 0, hc_getAddress = Inr, hc_wallet = (\<lambda>key. Inr ()),
       hc_publicKey = Inr, hc_formatEther = (\<lambda>wei. Inr ''1''), hc_parseEther = (\<lambda>x. Inr 1), hc_wide = (\<lambda>q. [])\<rparr>,
     pf_sha = (\<lambda>text. text), pf_payment = (\<lambda>destination amount. Inr ())\<rparr>"

definition sample_swap_quote :: relayer_quote where
  "sample_swap_quote = \<lparr>rl_quoteId = ''r'', rl_fromToken = ''native'', rl_toToken = ''native'', rl_fromChain = ''ethereum'', rl_toChain = ''stellar'',
     rl_fromAmount = ''1000000000000000000'', rl_toAmount = ''100000000000'', rl_minimumReceived = ''100000000000'', rl_priceImpact = Fin 0,
     rl_gasPrice = ''1'', rl_startPrice = [], rl_currentPrice = [], rl_endPrice = [], rl_fee = 0, rl_timestamp = 1700000000,
     rl_validUntil = Fin 1700000300000\<rparr>"

definition sample_status :: status_answer where
  "sample_status = Status 200 (Some \<lparr>cq_fresh = Some True, cq_fromAsset = Some ''native'', cq_toAsset = Some ''native'',
     cq_amount = Some ''1000000000000000000'', cq_fromNetwork = Some ''ethereum'', cq_toNetwork = Some ''stellar'',
     cq_expiresAt = Some (Fin 1700000300000)\<rparr>)"

definition sample_process_order :: "relayer_quote option \<Rightarrow> process_order" where
  "sample_process_order quote = \<lparr>od_contractType = None, od_status = ''pending'', od_stellarAddress = Some ''G'', od_amount = Some ''1000000000000000000'',
     od_networkMode = None, od_details = no_details, od_relayerQuote = quote, od_coordinatorQuoteId = Some ''q'', od_stellarTxHash = None\<rparr>"

definition sample_process_request :: process_request where
  "sample_process_request = \<lparr>pq_orderId = Some ''o'', pq_txHash = Some ''0x1'', pq_stellarTxHash = None, pq_stellarAddress = None, pq_ethAddress = None\<rparr>"

lemmas sample_process_defs = sample_process_config_def sample_process_order_def sample_process_request_def given_def

theorem unquoted_order_never_paid_witness:
  "''o'' \<notin> fst ` set (sy_sent (process_run sample_process_config
     (Order_stored ''o'' (sample_process_order None)
      # paying_round sample_process_request (Inr (Some (fixed7 500000000000))) sample_status (js_value.JObj []) 1700000200000 0)))"
  by (rule unquoted_order_never_paid) (auto simp: sample_process_order_def paying_round_def)

lemma parseFloat_one: "parseFloat ''1'' = Fin 1"
proof -
  have "parseFloat ''1'' = decimal_value 1 0"
    by (simp add: parseFloat_def parse_unsigned_def float_exponent_def is_digit_def is_space_def Let_def parse_digits_def digit_val_def)
  then show ?thesis using fl_nat[of 1] by (simp add: decimal_value_def)
qed

lemma ten_thousand_text: "toFixed7 wide (js_mult (Fin 1) (Fin 10000)) = fixed7 100000000000"
proof -
  have "\<lfloor>100000000000 + 1 / 2 :: rat\<rfloor> = 100000000000" by (simp only: floor_eq_iff) simp
  then show ?thesis using js_of_rat_nat[of 10000] by (simp add: toFixed7_def)
qed

lemma balance_suffices: "\<not> js_less (parseFloat (fixed7 500000000000)) (parseFloat (fixed7 100000000000))"
proof -
  obtain x where x: "fl 100000000000 (10 ^ 7) = Fin x" "\<bar>x - 10000\<bar> \<le> max (10000 / 2 ^ 53) (1 / 2 ^ 1075)"
    using fl_error[of 100000000000 "10 ^ 7"] by auto
  obtain y where y: "fl 500000000000 (10 ^ 7) = Fin y" "\<bar>y - 50000\<bar> \<le> max (50000 / 2 ^ 53) (1 / 2 ^ 1075)"
    using fl_error[of 500000000000 "10 ^ 7"] by auto
  have "max (10000 / 2 ^ 53) (1 / 2 ^ 1075) < (1 :: rat)" "max (50000 / 2 ^ 53) (1 / 2 ^ 1075) < (1 :: rat)" by simp_all
  with x(2) y(2) have "x \<le> y" unfolding abs_le_iff by linarith
  then show ?thesis using x(1) y(1) by (simp add: parseFloat_fixed7 decimal_value_def)
qed

theorem every_request_pays_again_witness:
  "sy_sent (process_run sample_process_config (Order_stored ''o'' (sample_process_order (Some sample_swap_quote))
     # concat (map (paying_round sample_process_request (Inr (Some (fixed7 500000000000))) sample_status (js_value.JObj []) 1700000200000) [0..<2])))
   = [(''o'', Some ''G'', fixed7 100000000000), (''o'', Some ''G'', fixed7 100000000000)]"
proof -
  let ?order = "sample_process_order (Some sample_swap_quote)"
  have "\<not> is_escrow ?order" by (simp add: is_escrow_def sample_process_order_def)
  moreover have "relayer_key sample_process_config (payment_network ?order) \<noteq> None"
    by (simp add: relayer_key_def stellar_secret_def or_else_def sample_process_config_def truthy_def PLACEHOLDER_SECRET_def)
  moreover have "fixed7 500000000000 \<noteq> []" by (simp add: fixed7_def)
  then have "payable sample_process_config (Some ''G'') (payment_amount (pf_handler sample_process_config) ?order)
      (Inr (Some (fixed7 500000000000))) = Inr (fixed7 100000000000)"
    using parseFloat_one ten_thousand_text balance_suffices
    by (simp add: payable_def payment_amount_def exchange_rate_def sample_process_order_def sample_process_config_def no_details_def
        or_else_def truthy_def ETH_TO_XLM_RATE_def)
  moreover have "coordinator_refusal (od_relayerQuote ?order) (od_coordinatorQuoteId ?order) sample_status 1700000200000 = None"
    by (simp add: coordinator_refusal_def sample_status_def quote_typed_def quote_matches_def sample_swap_quote_def sample_process_order_def
        is_finite_def to_ms_def)
  ultimately show ?thesis
    using every_request_pays_again[of sample_process_request "''o''" ?order sample_process_config "Inr (Some (fixed7 500000000000))"
        "fixed7 100000000000" sample_status 1700000200000 "js_value.JObj []" 2]
    by (simp add: Let_def sample_process_request_def sample_process_order_def given_def or_else_def truthy_def numeral_2_eq_2)
qed

end
