(* ===== verification/Order_Races.thy ===== *)
theory Order_Races
  imports Order_Invariants
begin

text \<open>
  What the order service of \<open>coordinator/src/services/order-service.ts\<close> does when its calls overlap.

  The other theories take a call of the service as one step. That is what happens on the default SQLite backend, whose
  statements are synchronous: between the reads and the writes of a call no other request is handled. On the PostgreSQL backend every
  statement is awaited, there is no transaction around a call, and no write is conditional on what was read. Here the
  read and the rest of a call are two steps.
\<close>

section \<open>Calls in two steps\<close>

datatype race_event = Load nat | Finish nat

record race =
  rc_db :: coord_db
  rc_loaded :: "(nat \<times> order_row option) list"

fun race_step :: "advance_request list \<Rightarrow> race_event \<Rightarrow> race \<Rightarrow> race" where
  "race_step rqs (Load k) s =
    s\<lparr>rc_loaded := (k, orders_view (rc_db s) (rq_publicId (rqs ! k))) # rc_loaded s\<rparr>"
| "race_step rqs (Finish k) s =
    (case map_of (rc_loaded s) k of None \<Rightarrow> s
     | Some found \<Rightarrow> s\<lparr>rc_db := snd (advance_found (rqs ! k) found (rc_db s))\<rparr>)"

definition race_run :: "advance_request list \<Rightarrow> race_event list \<Rightarrow> coord_db \<Rightarrow> coord_db" where
  "race_run rqs evs d = rc_db (fold (race_step rqs) evs \<lparr>rc_db = d, rc_loaded = []\<rparr>)"

text \<open>A call that is not overlapped is the one step of \<open>advance\<close>.\<close>

lemma advance_two_steps: "advance rq d = advance_found rq (orders_view d (rq_publicId rq)) d"
  by (simp add: advance_def bindE_apply)

lemma race_alone: "race_run rqs [Load k, Finish k] d = snd (advance (rqs ! k) d)"
  by (simp add: race_run_def advance_two_steps)

section \<open>Overlapping calls\<close>

definition status_request :: "order_action \<Rightarrow> string \<Rightarrow> string \<Rightarrow> advance_request" where
  "status_request a pid txHash =
    \<lparr>rq_publicId = pid, rq_action = a, rq_txHash = Some txHash, rq_writer = None, rq_isSameStep = Some (\<lambda>_. True),
     rq_apply = (\<lambda>order to. setStatus (targetOf a) (Some txHash) pid)\<rparr>"

lemma claim_is_request: "recordClaim pid txHash None = advance (status_request Claim pid txHash)"
  by (simp add: recordClaim_def status_request_def)

lemma refund_is_request: "recordRefund pid txHash None = advance (status_request Refund pid txHash)"
  by (simp add: recordRefund_def status_request_def)

lemma status_request_applied:
  assumes "canTransition (status seen) (targetOf a)"
  shows "advance_found (status_request a pid tx) (Some seen) d = setStatus (targetOf a) (Some tx) pid d"
proof -
  have "status seen \<noteq> targetOf a" using assms by auto
  then show ?thesis using assms
    by (simp add: advance_found_def status_request_def evaluateTransition_def Let_def)
qed

text \<open>A refund and a claim of an order with a revealed secret that both read it before either writes are both applied: the
  order, completed by the claim, ends as refunded. Run one after the other the refund is refused.\<close>

lemma stale_refund_overwrites_completed:
  assumes "orders_view d pid = Some r" "status r = Secret_revealed"
    and rqs_def: "rqs = [status_request Claim pid tx, status_request Refund pid tx']"
  shows "map_option status (orders_view (race_run rqs [Load 0, Load 1, Finish 0] d) pid) = Some Completed
    \<and> map_option status (orders_view (race_run rqs [Load 0, Load 1, Finish 0, Finish 1] d) pid) = Some Refunded
    \<and> map_option status (orders_view (race_run rqs [Load 0, Finish 0, Load 1, Finish 1] d) pid) = Some Completed"
proof -
  have can: "canTransition (status r) (targetOf Claim)" "canTransition (status r) (targetOf Refund)"
    using assms(2) by (auto simp: edges_into)
  let ?d1 = "snd (setStatus (targetOf Claim) (Some tx) pid d)"
  have v1: "orders_view ?d1 pid = Some (sql_updateStatus (targetOf Claim) (now_s d) r)"
    using status_writer.op_view [OF assms(1), of "targetOf Claim" "Some tx"] by simp
  have v2: "orders_view (snd (setStatus (targetOf Refund) (Some tx') pid ?d1)) pid
      = Some (sql_updateStatus (targetOf Refund) (now_s ?d1) (sql_updateStatus (targetOf Claim) (now_s d) r))"
    using status_writer.op_view [OF v1, of "targetOf Refund" "Some tx'"] by simp
  have "orders_view (snd (advance (status_request Refund pid tx') ?d1)) pid = orders_view ?d1 pid"
  proof -
    have "\<not> canTransition (status (sql_updateStatus (targetOf Claim) (now_s d) r)) (targetOf Refund)"
      by (auto simp: sql_updateStatus_def edges_into)
    then show ?thesis
      using v1 advance_known [of ?d1 "status_request Refund pid tx'"]
      by (simp add: status_request_def sql_updateStatus_def)
  qed
  moreover have "rq_publicId (status_request a pid t) = pid" for a t by (simp add: status_request_def)
  ultimately show ?thesis using assms(1) can v1 v2
    by (simp add: race_run_def rqs_def status_request_applied advance_two_steps sql_updateStatus_def)
qed

lemma announce_found_new:
  assumes "orders_view s pid = None"
  shows "announce_found pid i None s = (Inr (rowToOrder (announced_row pid i s)), announced_db pid i s)"
  using announce_new [OF assms, of i] by (simp add: announce_found_def Let_def)

text \<open>Two announcements of one hashlock that both find no order are both stored.\<close>

lemma racing_announces_share_hashlock:
  assumes "pid \<noteq> pid'" "orders_view d pid = None" "orders_view d pid' = None"
  shows "\<exists>r d1 r' d2. announce_found pid i None d = (Inr r, d1) \<and> announce_found pid' i None d1 = (Inr r', d2)
    \<and> map_option hashlock (orders_view d2 pid) = Some (toLowerCase (in_hashlock i))
    \<and> map_option hashlock (orders_view d2 pid') = Some (toLowerCase (in_hashlock i))"
proof -
  have view: "orders_view (announced_db pid i d) = (orders_view d)(pid \<mapsto> rowToOrder (announced_row pid i d))"
    by (rule announced_view) (rule assms(2))
  then have free: "orders_view (announced_db pid i d) pid' = None" using assms(1,3) by simp
  show ?thesis
    using announce_found_new [OF assms(2), of i] announce_found_new [OF free, of i] announced_view [OF free, of i] view assms(1)
    by (auto simp: rowToOrder_def)
qed

end
