(* ===== verification/Order_Create.thy ===== *)
theory Order_Create
  imports Price_Cache Payment_Monitor Process_Payouts
begin

text \<open>
  \<open>POST /api/orders/create\<close> of the relayer (\<open>relayer/src/index.ts\<close>), and what the other routes make of its orders.

  \<^item> The time, the random texts, the prices and whether the monitoring starts are arguments of a call. A call is one
    step: what it waits for does not depend on other requests.
  \<^item> \<open>keccak\<close>, \<open>parseEther\<close> and \<open>formatEther\<close> of \<open>ethers\<close> are arguments, and so are \<open>cr_pack\<close>, which packs an address and an amount for the
    hash of an order (\<open>solidityPacked\<close>), and \<open>cr_encode\<close>, which encodes the call of the mainnet or testnet factory with them
    (\<open>encodeFunctionData\<close>); each may refuse, and the two need not refuse the same texts. \<open>cr_text\<close> is the text of a
    number that is no integer below \<open>10\<^sup>2\<^sup>1\<close>.
  \<^item> An order carries the fields that any branch stores, \<open>None\<close> where a branch does not. Texts for display,
    encoded contract calls and the hash of the order are left out.
\<close>

record create_request =
  cq_fromChain :: "string option"
  cq_toChain :: "string option"
  cq_fromToken :: "string option"
  cq_toToken :: "string option"
  cr_amount :: "string option"
  cr_ethAddress :: "string option"
  cr_stellarAddress :: "string option"
  cr_direction :: "string option"
  cr_exchangeRate :: "rate_value option"
  cr_network :: "string option"
  cr_networkMode :: "string option"
  cr_queryNetwork :: "string option"
  cr_coordinatorQuoteId :: "string option"
  cr_relayerQuote :: "relayer_quote option"

record create_config =
  cr_parseEther :: "string \<Rightarrow> string + int"
  cr_formatEther :: "string \<Rightarrow> string + string"
  cr_keccak :: "string \<Rightarrow> string"
  cr_pack :: "string \<Rightarrow> int \<Rightarrow> string + unit"
  cr_encode :: "bool \<Rightarrow> string \<Rightarrow> int \<Rightarrow> string + unit"
  cr_text :: "rat \<Rightarrow> string"
  cr_gap :: int
  cr_mock :: bool
  cr_relayerStellar :: "string option"
  cr_defaultNetwork :: string

record create_moment =
  cm_now :: int
  cm_suffix :: string
  cm_secret :: string
  cm_random :: string
  cm_prices :: price_snapshot
  cm_monitored :: bool

record created_order =
  co_orderId :: string
  co_status :: string
  co_contractType :: "string option"
  co_amount :: "string option"
  co_ethAddress :: string
  co_stellarAddress :: string
  co_exchangeRate :: rate_value
  co_secret :: string
  co_hashLock :: string
  co_networkMode :: "string option"
  co_timelock :: "int option"
  co_stellarTimelock :: "int option"
  co_ethTimelock :: "int option"
  co_stellarAmount :: "string option"
  co_ethAmount :: "string option"
  co_stellar_amount :: "string option"
  co_memo :: "string option"
  co_coordinatorQuoteId :: "string option"
  co_relayerQuote :: "relayer_quote option"

text \<open>The replies: an error with its status; an escrow to deploy with the value to send, and on mainnet the
  cancellation of the source; a simulated order; a pending order.\<close>

datatype create_reply =
    Create_error nat string
  | Escrow_to_deploy created_order int "int option"
  | Mock_created created_order
  | Pending_created created_order

definition number_text :: "create_config \<Rightarrow> js_number \<Rightarrow> string" where
  "number_text cfg x =
    (case x of Not_a_number \<Rightarrow> ''NaN'' | Pos_inf \<Rightarrow> ''Infinity'' | Neg_inf \<Rightarrow> ''-Infinity''
     | Fin q \<Rightarrow> if q = of_int \<lfloor>q\<rfloor> \<and> \<bar>q\<bar> < 10 ^ 21 then show_int \<lfloor>q\<rfloor> else cr_text cfg q)"

definition missing_field :: "create_request \<Rightarrow> bool" where
  "missing_field r \<longleftrightarrow> \<not> (given (cq_fromChain r) \<and> given (cq_toChain r) \<and> given (cq_fromToken r) \<and> given (cq_toToken r)
     \<and> given (cr_amount r) \<and> given (cr_ethAddress r) \<and> given (cr_stellarAddress r))"

definition create_network :: "create_config \<Rightarrow> create_request \<Rightarrow> string" where
  "create_network cfg r =
    the (or_else (cr_networkMode r) (or_else (cr_network r) (or_else (cr_queryNetwork r) (Some (cr_defaultNetwork cfg)))))"

definition create_orderId :: "create_moment \<Rightarrow> string" where
  "create_orderId m = ''order_'' @ show_int (cm_now m) @ ''_'' @ cm_suffix m"

definition requested_rate :: "create_request \<Rightarrow> rate_value" where
  "requested_rate r =
    (case cr_exchangeRate r of None \<Rightarrow> Rate_number ETH_TO_XLM_RATE
     | Some v \<Rightarrow> if rate_truthy v then v else Rate_number ETH_TO_XLM_RATE)"

definition deposit_of :: "create_config \<Rightarrow> string \<Rightarrow> string \<Rightarrow> string + int" where
  "deposit_of cfg amount network =
    calculateDynamicSafetyDeposit (cr_formatEther cfg) (\<lambda>x. cr_parseEther cfg (number_text cfg x)) (cr_defaultNetwork cfg) amount (Some network)"

text \<open>What every branch fills in.\<close>

definition order_base :: "create_request \<Rightarrow> create_moment \<Rightarrow> created_order" where
  "order_base r m =
    \<lparr>co_orderId = create_orderId m, co_status = [], co_contractType = None, co_amount = None,
     co_ethAddress = toLowerCase (or_empty (cr_ethAddress r)), co_stellarAddress = or_empty (cr_stellarAddress r),
     co_exchangeRate = Rate_number ETH_TO_XLM_RATE, co_secret = cm_secret m, co_hashLock = [], co_networkMode = None, co_timelock = None,
     co_stellarTimelock = None, co_ethTimelock = None, co_stellarAmount = None, co_ethAmount = None, co_stellar_amount = None,
     co_memo = None, co_coordinatorQuoteId = cr_coordinatorQuoteId r, co_relayerQuote = cr_relayerQuote r\<rparr>"

text \<open>Storing an order, and failing after that when the monitoring does not start.\<close>

definition store_created :: "create_moment \<Rightarrow> created_order \<Rightarrow> create_reply \<Rightarrow> (string \<times> created_order) list
    \<Rightarrow> create_reply \<times> (string \<times> created_order) list" where
  "store_created m ord reply orders =
    ((if cm_monitored m then reply else Create_error 500 ''Bridge order creation failed''), AList.update (co_orderId ord) ord orders)"

section \<open>The branches\<close>

definition create_mock_eth :: "create_config \<Rightarrow> create_request \<Rightarrow> create_moment \<Rightarrow> (string \<times> created_order) list
    \<Rightarrow> create_reply \<times> (string \<times> created_order) list" where
  "create_mock_eth cfg r m orders =
    (case cr_parseEther cfg (or_empty (cr_amount r)) of Inl e \<Rightarrow> (Create_error 500 e, orders)
     | Inr wei \<Rightarrow>
        (let ord = (order_base r m)\<lparr>co_status := ''mock_escrow_created'', co_contractType := Some ''MOCK_1INCH_ESCROW_FACTORY'',
               co_amount := Some (show_int wei), co_exchangeRate := requested_rate r, co_hashLock := cr_keccak cfg (cm_secret m)\<rparr>
         in store_created m ord (Mock_created ord) orders))"

definition create_mainnet_eth :: "create_config \<Rightarrow> create_request \<Rightarrow> create_moment \<Rightarrow> string \<Rightarrow> (string \<times> created_order) list
    \<Rightarrow> create_reply \<times> (string \<times> created_order) list" where
  "create_mainnet_eth cfg r m network orders =
    (case cr_parseEther cfg (or_empty (cr_amount r)) of Inl e \<Rightarrow> (Create_error 500 e, orders)
     | Inr wei \<Rightarrow>
        (case deposit_of cfg (show_int wei) network of Inl e \<Rightarrow> (Create_error 500 e, orders)
         | Inr deposit \<Rightarrow>
            (case cr_pack cfg (toLowerCase (or_empty (cr_ethAddress r))) wei of Inl e \<Rightarrow> (Create_error 500 e, orders)
             | Inr _ \<Rightarrow>
                (let ord = (order_base r m)\<lparr>co_status := ''pending_dst_escrow_deployment'',
                       co_contractType := Some ''ONEINCH_ESCROW_FACTORY_MAINNET_DST'', co_amount := Some (show_int wei),
                       co_exchangeRate := Rate_number (ethToXlmRate (cm_prices m)), co_hashLock := cr_keccak cfg (cm_secret m),
                       co_networkMode := Some network\<rparr>;
                     dst = cm_now m div 1000 + 7200; src = cm_now m div 1000 + 14400
                 in store_created m ord
                      (if \<not> isValid (validateTimelockOrdering src dst 600) then Create_error 500 ''Invalid timelock ordering''
                       else case cr_encode cfg True (co_ethAddress ord) wei of Inl e \<Rightarrow> Create_error 500 e
                         | Inr _ \<Rightarrow> Escrow_to_deploy ord (wei + deposit) (Some src)) orders))))"

definition create_testnet_eth :: "create_config \<Rightarrow> create_request \<Rightarrow> create_moment \<Rightarrow> string \<Rightarrow> (string \<times> created_order) list
    \<Rightarrow> create_reply \<times> (string \<times> created_order) list" where
  "create_testnet_eth cfg r m network orders =
    (let timelock = cm_now m div 1000 + 7201; stellarTimelock = cm_now m div 1000 + 3600;
         amount = number_text cfg (js_mult (parseFloat (or_empty (cr_amount r))) (Fin (10 ^ 18)));
         ord = (order_base r m)\<lparr>co_status := ''pending_direct_escrow'', co_amount := Some amount, co_exchangeRate := requested_rate r,
           co_hashLock := cm_random m, co_networkMode := Some network, co_timelock := Some timelock, co_stellarTimelock := Some stellarTimelock\<rparr>
     in if \<not> isValid (validateTimelockOrdering timelock stellarTimelock (cr_gap cfg)) then (Create_error 500 ''Invalid timelock ordering'', orders)
        else store_created m ord
          (case BigInt amount of None \<Rightarrow> Create_error 500 ''Cannot convert to a BigInt''
           | Some wei \<Rightarrow> (case deposit_of cfg amount network of Inl e \<Rightarrow> Create_error 500 e
               | Inr deposit \<Rightarrow> (case cr_encode cfg False (co_ethAddress ord) wei of Inl e \<Rightarrow> Create_error 500 e
                   | Inr _ \<Rightarrow> Escrow_to_deploy ord (wei + deposit) None))) orders)"

definition create_xlm :: "create_config \<Rightarrow> create_request \<Rightarrow> create_moment \<Rightarrow> (string \<times> created_order) list
    \<Rightarrow> create_reply \<times> (string \<times> created_order) list" where
  "create_xlm cfg r m orders =
    (let xlm = parseFloat (or_empty (cr_amount r)); p = cm_prices m;
         ether = js_mult xlm (js_div (xlmUsdPrice p) (ethUsdPrice p));
         base = (order_base r m)\<lparr>co_ethAddress := or_empty (cr_ethAddress r), co_exchangeRate := Rate_number (ethToXlmRate p),
           co_hashLock := drop 2 (cr_keccak cfg (cm_secret m)), co_stellarAmount := Some (number_text cfg (js_mult xlm (Fin 10000000)))\<rparr>
     in if cr_mock cfg
        then (let ord = base\<lparr>co_status := ''mock_htlc_created'', co_contractType := Some ''MOCK_DUAL_HTLC'',
                co_ethAmount := Some (number_text cfg (js_mult ether (Fin (10 ^ 18))))\<rparr>
              in store_created m ord (Mock_created ord) orders)
        else
          (let rounded = micro_round (js_min (js_max ether (decimal_value 1 (- 6))) (Fin 10));
               wei = (case cr_parseEther cfg (number_text cfg rounded) of Inl e \<Rightarrow> 1000000000000000 | Inr wei \<Rightarrow> wei);
               stellarTimelock = cm_now m div 1000 + 7200; ethTimelock = stellarTimelock + cr_gap cfg + 7200;
               ord = base\<lparr>co_status := ''awaiting_xlm_payment'', co_contractType := Some ''XLM_TO_ETH_PENDING'', co_ethAmount := Some (show_int wei),
                 co_stellarTimelock := Some stellarTimelock, co_ethTimelock := Some ethTimelock, co_stellar_amount := Some (number_text cfg xlm),
                 co_memo := Some (payment_memo (create_orderId m))\<rparr>
           in if \<not> isValid (validateTimelockOrdering ethTimelock stellarTimelock (cr_gap cfg))
              then (Create_error 500 ''Invalid timelock ordering'', orders)
              else store_created m ord (Pending_created ord) orders))"

definition create_order :: "create_config \<Rightarrow> create_request \<Rightarrow> create_moment \<Rightarrow> (string \<times> created_order) list
    \<Rightarrow> create_reply \<times> (string \<times> created_order) list" where
  "create_order cfg r m orders =
    (let network = create_network cfg r
     in if missing_field r then (Create_error 400 ''Missing required fields'', orders)
        else if cr_direction r = Some ''eth_to_xlm''
        then (if network \<noteq> ''mainnet'' then create_testnet_eth cfg r m network orders
              else if cr_mock cfg then create_mock_eth cfg r m orders else create_mainnet_eth cfg r m network orders)
        else if cr_direction r = Some ''xlm_to_eth'' then create_xlm cfg r m orders
        else (Create_error 500 ''Invalid direction specified'', orders))"

text \<open>The secret that a reply discloses.\<close>

definition reply_secret :: "create_reply \<Rightarrow> string option" where
  "reply_secret reply =
    (case reply of Escrow_to_deploy ord value cancellation \<Rightarrow> Some (co_secret ord) | Mock_created ord \<Rightarrow> Some (co_secret ord) | _ \<Rightarrow> None)"

section \<open>The orders as the other routes read them\<close>

definition as_pending :: "created_order \<Rightarrow> pending_order" where
  "as_pending ord = \<lparr>po_status = co_status ord, po_stellar_amount = or_empty (co_stellar_amount ord), po_ethAmount = or_empty (co_ethAmount ord)\<rparr>"

definition as_process_order :: "created_order \<Rightarrow> process_order" where
  "as_process_order ord =
    \<lparr>od_contractType = co_contractType ord, od_status = co_status ord, od_stellarAddress = Some (co_stellarAddress ord), od_amount = co_amount ord,
     od_networkMode = co_networkMode ord,
     od_details = \<lparr>od_ethAddress = Some (co_ethAddress ord), od_stellarTimelock = co_stellarTimelock ord, od_ethTimelock = co_ethTimelock ord,
       od_exchangeRate = Some (co_exchangeRate ord), od_targetAmount = None, od_stellar_amount = co_stellar_amount ord,
       od_stellarAmount = co_stellarAmount ord, od_ethTxHash = None\<rparr>,
     od_relayerQuote = co_relayerQuote ord, od_coordinatorQuoteId = co_coordinatorQuoteId ord, od_stellarTxHash = None\<rparr>"


definition reply_order :: "create_reply \<Rightarrow> created_order option" where
  "reply_order reply =
    (case reply of Create_error code text \<Rightarrow> None | Escrow_to_deploy ord value cancellation \<Rightarrow> Some ord
     | Mock_created ord \<Rightarrow> Some ord | Pending_created ord \<Rightarrow> Some ord)"

section \<open>Errors\<close>

lemma order_base_id [simp]: "co_orderId (order_base r m) = create_orderId m"
  by (simp add: order_base_def)

lemmas create_branches = create_mock_eth_def create_mainnet_eth_def create_testnet_eth_def create_xlm_def










text \<open>An address that the packer takes and the encoder refuses: the request is refused and its order stored.\<close>

lemma mainnet_refused_but_stored:
  assumes "cr_parseEther cfg (or_empty (cr_amount r)) = Inr wei" "deposit_of cfg (show_int wei) network = Inr deposit"
    and "cr_pack cfg (toLowerCase (or_empty (cr_ethAddress r))) wei = Inr ()"
    and "cr_encode cfg True (toLowerCase (or_empty (cr_ethAddress r))) wei = Inl e"
  shows "\<exists>ord text. create_mainnet_eth cfg r m network orders
    = (Create_error 500 text, AList.update (create_orderId m) ord orders)"
  using assms by (auto simp: create_mainnet_eth_def store_created_def order_base_def Let_def isValid_iff)

text \<open>On testnet the order is stored first, so an amount that is no integral number of wei is refused and yet stored.\<close>

lemma testnet_refused_but_stored:
  assumes "cr_gap cfg \<le> 3601" "BigInt (number_text cfg (js_mult (parseFloat (or_empty (cr_amount r))) (Fin (10 ^ 18)))) = None"
  shows "\<exists>ord text. create_testnet_eth cfg r m network orders
    = (Create_error 500 text, AList.update (create_orderId m) ord orders)"
  using assms by (auto simp: create_testnet_eth_def store_created_def Let_def isValid_iff)

section \<open>Secrets, locks and rates\<close>

text \<open>The reply to an order from XLM to ETH does not disclose the secret that opens the lock on Ethereum.\<close>

lemma xlm_secret_undisclosed:
  "create_order cfg r m orders = (Pending_created ord, orders') \<Longrightarrow> reply_secret (Pending_created ord) = None
    \<and> co_hashLock ord = drop 2 (cr_keccak cfg (co_secret ord))"
  by (auto simp: reply_secret_def create_order_def create_branches store_created_def order_base_def Let_def
      split: if_splits sum.splits option.splits)

text \<open>On testnet the lock of an order from ETH to XLM is a random text, whatever the secret is.\<close>

lemma testnet_lock_ignores_secret:
  "map_of (snd (create_testnet_eth cfg r m network [])) (create_orderId m) = Some ord \<Longrightarrow> co_hashLock ord = cm_random m"
  by (auto simp: create_testnet_eth_def store_created_def Let_def split: if_splits)

text \<open>From XLM to ETH the lock of the relayer, on Ethereum, is meant to outlive the one of the user.\<close>

lemma xlm_timelocks_reversed:
  "create_order cfg r m orders = (Pending_created ord, orders') \<Longrightarrow>
    (\<exists>t. co_stellarTimelock ord = Some t \<and> co_ethTimelock ord = Some (t + cr_gap cfg + 7200))"
  by (auto simp: create_order_def create_branches store_created_def Let_def split: if_splits sum.splits option.splits)

text \<open>On testnet the client sets the rate at which its order is paid.\<close>

lemma paid_at_client_rate:
  assumes "create_order cfg r m orders = (Escrow_to_deploy ord value None, orders')"
    and "hc_formatEther hcfg (the (co_amount ord)) = Inr ether" "co_amount ord \<noteq> Some []"
  shows "payment_amount hcfg (as_process_order ord) = Inr (toFixed7 (hc_wide hcfg) (js_mult (parseFloat ether) (rate_number (requested_rate r))))"
proof -
  have "co_exchangeRate ord = requested_rate r" "co_amount ord \<noteq> None"
    using assms(1) by (auto simp: create_order_def create_branches store_created_def Let_def
        split: if_splits sum.splits option.splits)
  moreover have "rate_truthy (requested_rate r)"
    by (auto simp: requested_rate_def ETH_TO_XLM_RATE_def split: option.split)
  ultimately show ?thesis using assms(2,3)
    by (auto simp: payment_amount_def as_process_order_def or_else_def truthy_def exchange_rate_def)
qed

text \<open>No created order takes the escrow branch of \<open>POST /api/orders/process\<close>.\<close>

lemma created_never_escrow:
  "create_order cfg r m orders = (reply, orders') \<Longrightarrow> reply_order reply = Some ord \<Longrightarrow> \<not> is_escrow (as_process_order ord)"
  by (auto simp: reply_order_def is_escrow_def as_process_order_def create_order_def create_branches store_created_def Let_def
      split: if_splits sum.splits option.splits)

section \<open>From the order to the lock\<close>

lemma small_tolerance: "js_less (Fin 0) (decimal_value 1 (- 3))"
proof -
  obtain x where x: "fl 1 1000 = Fin x" "\<bar>x - 1 / 1000\<bar> \<le> max (1 / 1000 / 2 ^ 53) (1 / 2 ^ 1075)"
    using fl_error[of 1 1000] by auto
  have "max (1 / 1000 / 2 ^ 53) (1 / 2 ^ 1075) < (1 / 1000 :: rat)" by simp
  with x(2) have "0 < x" unfolding abs_le_iff by linarith
  then show ?thesis using x(1) by (simp add: decimal_value_def)
qed

text \<open>A payment that a tick passes over: not XLM to the relayer, or with a memo that is read and is none of the relayer's.\<close>

definition passed_over :: "string \<Rightarrow> (string \<Rightarrow> string option option) \<Rightarrow> stellar_payment \<Rightarrow> bool" where
  "passed_over relayer memos p \<longleftrightarrow> \<not> (sp_type p = ''payment'' \<and> sp_asset_type p = ''native'' \<and> sp_to p = relayer)
     \<or> (case memos (sp_txHash p) of None \<Rightarrow> False | Some memo \<Rightarrow> take 8 (or_empty memo) \<noteq> ''XLM-ETH-'')"

lemma note_passed_over:
  "list_all (passed_over relayer memos) ps \<Longrightarrow> note_payments relayer memos answers (ps @ qs) m = note_payments relayer memos answers qs m"
  by (induction ps) (auto simp: passed_over_def note_incoming_def split: option.splits)

text \<open>C37: A deposit as told funds the lock. Suppose that the reply named an amount and a memo, that no other order waits for a payment, and
  that the tick of the poller finds the user's payment among the first 50 of the list of Horizon, with that memo, an amount that differs from the
  named one by less than 0.001 XLM, and around it only payments that are not for the relayer or whose memo is read and is none of the relayer's.
  If the relayer can pay for it and the contract takes the call, the order has a lock of the announced amount after this tick. If
  the poller has just been started, the tick before it only sets its cursor, ten ledgers back.\<close>

theorem honest_deposit_funds_htlc:
  assumes "create_order cfg r m orders = (Pending_created ord, orders')"
    and "pm_orders mon = others @ [(co_orderId ord, as_pending ord)]" "list_all (\<lambda>(k, v). po_status v \<noteq> ''awaiting_xlm_payment'') others"
    and "distinct (map fst (pm_orders mon))"
    and "mon1 = (if pm_lastLedger mon = 0 then stellar_tick relayer (Some first) payments memos answers mon else mon)" "pm_lastLedger mon1 \<noteq> 0"
    and "p = \<lparr>sp_type = ''payment'', sp_asset_type = ''native'', sp_to = relayer, sp_amount = paid, sp_txHash = tx\<rparr>"
    and "amount_close paid (the (co_stellar_amount ord))" "memos tx = Some (co_memo ord)"
    and "payments (pm_lastLedger mon1) = Some (before @ p # later)" "length before < 50" "list_all (passed_over relayer memos) (before @ later)"
    and "BigInt (the (co_ethAmount ord)) = Some wei" "ha_balance (answers (co_orderId ord)) = Some balance" "wei + 2000000000000000 \<le> balance"
    and "ha_create (answers (co_orderId ord)) 0 = Sent True"
  shows "(let mon' = stellar_tick relayer (Some current) payments memos answers mon1
    in pm_locked mon' = pm_locked mon @ [(co_orderId ord, wei)] \<and> pm_lastLedger mon' = current
      \<and> map_option po_status (map_of (pm_orders mon') (co_orderId ord)) = Some ''eth_htlc_created'')"
proof -
  let ?id = "co_orderId ord"
  have mon1: "pm_orders mon1 = pm_orders mon" "pm_locked mon1 = pm_locked mon"
    using assms(5) by (simp_all add: stellar_tick_def)
  have ord: "?id = create_orderId m" "co_memo ord = Some (payment_memo ?id)" "co_status ord = ''awaiting_xlm_payment''"
    "co_stellar_amount ord \<noteq> None" "co_ethAmount ord \<noteq> None"
    using assms(1) by (auto simp: create_order_def create_branches store_created_def Let_def split: if_splits sum.splits option.splits)
  have "text_occurs (take 8 ?id) ?id" by (cases ?id) (auto simp: min_def)
  then have "matches_order (drop 8 (payment_memo ?id)) (?id, as_pending ord)"
    using ord(3) by (simp add: matches_order_def payment_memo_def as_pending_def)
  moreover have "List.find (matches_order (drop 8 (payment_memo ?id))) others = None"
    using assms(3) by (auto simp: find_None_iff matches_order_def list_all_iff)
  ultimately have "List.find (matches_order (drop 8 (payment_memo ?id))) (pm_orders mon1) = Some (?id, as_pending ord)"
    using assms(2) mon1 by (simp add: find_append)
  moreover have "amount_close (sp_amount p) (po_stellar_amount (as_pending ord))"
    using assms(7,8) ord(4) by (auto simp: as_pending_def or_empty_def)
  ultimately have noted: "note_incoming answers (payment_memo ?id) p mon1 = createETHHTLCForOrder (answers ?id) ?id (as_pending ord) mon1"
    by (simp add: note_incoming_def payment_memo_def)
  have create: "createETHHTLCForOrder (answers ?id) ?id (as_pending ord) mon1
      = (put_status ?id ''eth_htlc_created'' mon1)\<lparr>pm_locked := pm_locked mon @ [(?id, wei)]\<rparr>"
    using assms(13-16) ord(5) mon1 by (auto simp: createETHHTLCForOrder_def as_pending_def or_empty_def numeral_3_eq_3 put_status_def)
  have "map_of (pm_orders mon1) ?id = Some (as_pending ord)" using assms(2,4) mon1 by (simp add: map_add_Some_iff map_of_eq_None_iff)
  then have status: "map_option po_status (map_of (AList.map_entry ?id (\<lambda>order. order\<lparr>po_status := ''eth_htlc_created''\<rparr>) (pm_orders mon1)) ?id)
      = Some ''eth_htlc_created''" by (simp add: map_of_map_entry)
  have "take 50 (before @ p # later) = before @ p # take (49 - length before) later"
    using assms(11) by (simp add: take_Cons' diff_diff_add)
  moreover have "list_all (passed_over relayer memos) (take (49 - length before) later)"
    using assms(12) by (auto simp: list_all_iff dest: in_set_takeD)
  ultimately have "note_payments relayer memos answers (take 50 (before @ p # later)) mon1
      = (True, createETHHTLCForOrder (answers ?id) ?id (as_pending ord) mon1)"
    using assms(7,9,12) ord(2) noted note_passed_over[of relayer memos "take (49 - length before) later" answers "[]"]
    by (simp add: note_passed_over or_empty_def)
  then show ?thesis using assms(6,10) create status
    by (simp add: stellar_tick_def put_status_def)
qed

section \<open>Samples\<close>

lemma fl_self:
  assumes "0 < n"
  shows "fl n n = Fin 1"
proof -
  have "last_bit n n = - 52" using assms by (simp add: last_bit_def pow2_def)
  moreover have "half_even (2 ^ 52) = 2 ^ 52" by (simp add: half_even_def)
  ultimately show ?thesis using assms by (simp add: fl_def pow2_def)
qed

lemma parseFloat_one_seven: "parseFloat ''1.0000000'' = Fin 1"
proof -
  have "parseFloat ''1.0000000'' = fl 10000000 10000000"
    by (simp add: parseFloat_def parse_unsigned_def float_exponent_def is_digit_def is_space_def Let_def parse_digits_def digit_val_def decimal_value_def)
  then show ?thesis by (simp add: fl_self)
qed

definition sample_create_config :: create_config where
  "sample_create_config = \<lparr>cr_parseEther = (\<lambda>text. Inr 1000), cr_formatEther = Inr, cr_keccak = (\<lambda>secret. ''0x'' @ secret), cr_pack = (\<lambda>a n. Inr ()), cr_encode = (\<lambda>mainnet a n. Inr ()),
     cr_text = (\<lambda>q. ''0.5''), cr_gap = 600, cr_mock = False, cr_relayerStellar = Some ''R'', cr_defaultNetwork = ''testnet''\<rparr>"

definition sample_create_request :: create_request where
  "sample_create_request = \<lparr>cq_fromChain = Some ''stellar'', cq_toChain = Some ''ethereum'', cq_fromToken = Some ''XLM'', cq_toToken = Some ''ETH'',
     cr_amount = Some ''1'', cr_ethAddress = Some ''0xa'', cr_stellarAddress = Some ''G'', cr_direction = Some ''xlm_to_eth'', cr_exchangeRate = None,
     cr_network = None, cr_networkMode = None, cr_queryNetwork = None, cr_coordinatorQuoteId = None, cr_relayerQuote = None\<rparr>"

definition sample_create_moment :: create_moment where
  "sample_create_moment = \<lparr>cm_now = 1700000000000, cm_suffix = ''abc'', cm_secret = ''5e'', cm_random = ''7a'',
     cm_prices = fallback_prices 1700000000000, cm_monitored = True\<rparr>"

definition sample_created :: created_order where
  "sample_created = the (reply_order (fst (create_order sample_create_config sample_create_request sample_create_moment [])))"

lemma sample_creation:
  "create_order sample_create_config sample_create_request sample_create_moment [] = (Pending_created sample_created, [(create_orderId sample_create_moment, sample_created)])"
  "co_orderId sample_created = create_orderId sample_create_moment"
  "co_stellar_amount sample_created = Some (number_text sample_create_config (parseFloat ''1''))" "co_ethAmount sample_created = Some (show_int 1000)"
  by (simp_all add: sample_created_def reply_order_def create_order_def missing_field_def given_def create_xlm_def store_created_def order_base_def
      sample_create_config_def sample_create_request_def sample_create_moment_def isValid_iff or_empty_def Let_def)


theorem honest_deposit_funds_htlc_witness:
  "(let orderId = create_orderId sample_create_moment;
      mon = \<lparr>pm_orders = [(orderId, as_pending sample_created)], pm_lastLedger = 0, pm_locked = []\<rparr>;
      p = \<lparr>sp_type = ''payment'', sp_asset_type = ''native'', sp_to = ''R'', sp_amount = ''1.0000000'', sp_txHash = ''t''\<rparr>;
      other = p\<lparr>sp_txHash := ''u''\<rparr>;
      tick = (\<lambda>ledger. stellar_tick ''R'' (Some ledger) (\<lambda>after. Some [other, p])
         (\<lambda>tx. if tx = ''t'' then Some (co_memo sample_created) else Some None)
         (\<lambda>k. \<lparr>ha_balance = Some 9000000000000000, ha_create = \<lambda>i. Sent True\<rparr>))
    in pm_locked (tick 29 (tick 24 mon)) = [(orderId, 1000)])"
proof -
  let ?id = "create_orderId sample_create_moment"
  let ?mon = "\<lparr>pm_orders = [(?id, as_pending sample_created)], pm_lastLedger = 0, pm_locked = []\<rparr>"
  let ?p = "\<lparr>sp_type = ''payment'', sp_asset_type = ''native'', sp_to = ''R'', sp_amount = ''1.0000000'', sp_txHash = ''t''\<rparr>"
  let ?memos = "\<lambda>tx. if tx = ''t'' then Some (co_memo sample_created) else Some None"
  have one: "number_text sample_create_config (Fin 1) = ''1''"
  proof -
    have "show_int 1 = ''1''" by code_simp
    then show ?thesis by (simp add: number_text_def)
  qed
  have "parseFloat ''1.0000000'' = Fin 1" by (rule parseFloat_one_seven)
  then have "amount_close ''1.0000000'' (the (co_stellar_amount sample_created))"
    using small_tolerance by (simp add: amount_close_def sample_creation(3) parseFloat_one one)
  moreover have "BigInt (the (co_ethAmount sample_created)) = Some 1000"
    by (simp add: sample_creation(4) show_int_def BigInt_decimal)
  moreover have "passed_over ''R'' ?memos (?p\<lparr>sp_txHash := ''u''\<rparr>)" by (simp add: passed_over_def or_empty_def)
  ultimately show ?thesis
    using honest_deposit_funds_htlc[OF sample_creation(1), of ?mon "[]" _ "''R''" 24 "\<lambda>ledger. Some [?p\<lparr>sp_txHash := ''u''\<rparr>, ?p]" ?memos
        "\<lambda>k. \<lparr>ha_balance = Some 9000000000000000, ha_create = \<lambda>i. Sent True\<rparr>" ?p "''1.0000000''" "''t''" "[?p\<lparr>sp_txHash := ''u''\<rparr>]" "[]"
        1000 9000000000000000 29]
    by (simp add: Let_def sample_creation(2)) (simp add: stellar_tick_def)
qed

end
