(* ===== verification/Escrow_Monitor.thy ===== *)
theory Escrow_Monitor
  imports Order_Create
begin

text \<open>
  The escrow half of the chain monitoring of the relayer (\<open>startChainMonitoring\<close> in \<open>relayer/src/index.ts\<close>): what a deposit of
  ETH and the events of the escrow factory do to the orders, and \<open>createEscrowForOrder\<close>.

  \<^item> An order carries the fields that these handlers read and write. \<open>eo_of\<close> takes them from an order as it is created.
  \<^item> The handlers of mainnet and testnet are all inputs; which of them are bound depends on the configured network.
  \<^item> The answer of the contract call is an argument: the hash of the transaction and whether it was mined, or a failure.
\<close>

record escrow_order =
  eo_status :: string
  eo_hashLock :: string
  eo_ethAddress :: string
  eo_amount :: "string option"
  eo_networkMode :: "string option"
  eo_orderHash :: "string option"
  eo_escrowId :: "string option"
  eo_escrowAddress :: "string option"
  eo_escrowTxHash :: "string option"

definition eo_of :: "created_order \<Rightarrow> escrow_order" where
  "eo_of ord = \<lparr>eo_status = co_status ord, eo_hashLock = co_hashLock ord, eo_ethAddress = co_ethAddress ord, eo_amount = co_amount ord,
     eo_networkMode = co_networkMode ord, eo_orderHash = None, eo_escrowId = None, eo_escrowAddress = None, eo_escrowTxHash = None\<rparr>"

text \<open>The loops over the orders stop at the first match.\<close>

fun on_first :: "(escrow_order \<Rightarrow> bool) \<Rightarrow> (escrow_order \<Rightarrow> escrow_order) \<Rightarrow> (string \<times> escrow_order) list \<Rightarrow> (string \<times> escrow_order) list" where
  "on_first P f [] = []"
| "on_first P f ((i, order) # orders) = (if P order then (i, f order) # orders else (i, order) # on_first P f orders)"

section \<open>Events of the escrow factory\<close>

definition src_escrow_created :: "string \<Rightarrow> string \<Rightarrow> (string \<times> escrow_order) list \<Rightarrow> (string \<times> escrow_order) list" where
  "src_escrow_created lock orderHash =
    on_first (\<lambda>order. eo_hashLock order = lock) (\<lambda>order. order\<lparr>eo_orderHash := Some orderHash, eo_status := ''src_escrow_created''\<rparr>)"

definition dst_escrow_created :: "string \<Rightarrow> string \<Rightarrow> (string \<times> escrow_order) list \<Rightarrow> (string \<times> escrow_order) list" where
  "dst_escrow_created escrowAddress lock =
    on_first (\<lambda>order. eo_hashLock order = lock)
      (\<lambda>order. order\<lparr>eo_escrowAddress := Some escrowAddress, eo_status := ''dst_escrow_created''\<rparr>)"

definition escrow_created :: "nat \<Rightarrow> string \<Rightarrow> string \<Rightarrow> (string \<times> escrow_order) list \<Rightarrow> (string \<times> escrow_order) list" where
  "escrow_created escrowId escrowAddress lock =
    on_first (\<lambda>order. eo_hashLock order = lock)
      (\<lambda>order. order\<lparr>eo_escrowId := Some (show_nat escrowId), eo_escrowAddress := Some escrowAddress, eo_status := ''escrow_active''\<rparr>)"

definition escrow_funded :: "nat \<Rightarrow> (string \<times> escrow_order) list \<Rightarrow> (string \<times> escrow_order) list" where
  "escrow_funded escrowId =
    on_first (\<lambda>order. eo_escrowId order = Some (show_nat escrowId)) (\<lambda>order. order\<lparr>eo_status := ''escrow_funded''\<rparr>)"

section \<open>Deposits and escrows of the relayer\<close>

datatype escrow_answer = Escrow_refused | Escrow_sent string bool

text \<open>The order afterwards and the value that was sent.\<close>

definition createEscrowForOrder :: "create_config \<Rightarrow> escrow_answer \<Rightarrow> escrow_order \<Rightarrow> escrow_order \<times> int option" where
  "createEscrowForOrder cfg told order =
    (let failed = order\<lparr>eo_status := ''escrow_creation_failed''\<rparr>;
         network = the (or_else (eo_networkMode order) (Some (cr_defaultNetwork cfg)))
     in case Option.bind (eo_amount order) BigInt of None \<Rightarrow> (failed, None)
        | Some wei \<Rightarrow>
            (case deposit_of cfg (the (eo_amount order)) network of Inl e \<Rightarrow> (failed, None)
             | Inr deposit \<Rightarrow>
                (case told of Escrow_refused \<Rightarrow> (failed, None)
                 | Escrow_sent h mined \<Rightarrow>
                     (if mined then order\<lparr>eo_status := ''escrow_created_by_relayer'', eo_escrowTxHash := Some h\<rparr> else failed,
                      Some (wei + deposit)))))"

definition awaits_escrow :: "string \<Rightarrow> escrow_order \<Rightarrow> bool" where
  "awaits_escrow sender order \<longleftrightarrow> eo_ethAddress order = sender \<and> eo_status order = ''pending_relayer_escrow''"

definition note_deposit :: "create_config \<Rightarrow> escrow_answer \<Rightarrow> string \<Rightarrow> (string \<times> escrow_order) list
    \<Rightarrow> (string \<times> escrow_order) list \<times> int option" where
  "note_deposit cfg told sender orders =
    (case find (\<lambda>(i, order). awaits_escrow sender order) orders of None \<Rightarrow> (orders, None)
     | Some (i, order) \<Rightarrow> (on_first (awaits_escrow sender) (fst \<circ> createEscrowForOrder cfg told) orders, snd (createEscrowForOrder cfg told order)))"

section \<open>Runs\<close>

text \<open>\<open>Put_status\<close> is a status that another part of the relayer writes, \<open>Removed\<close> an order that leaves the map.\<close>

datatype escrow_input =
    New_escrow_order string created_order
  | Src_created string string
  | Dst_created string string
  | Created nat string string
  | Funded nat
  | Deposit escrow_answer string
  | Put_status string string
  | Removed string

record escrow_state =
  es_orders :: "(string \<times> escrow_order) list"
  es_sent :: "int list"

fun escrow_step :: "create_config \<Rightarrow> escrow_input \<Rightarrow> escrow_state \<Rightarrow> escrow_state" where
  "escrow_step cfg (New_escrow_order i ord) s = s\<lparr>es_orders := AList.update i (eo_of ord) (es_orders s)\<rparr>"
| "escrow_step cfg (Src_created lock h) s = s\<lparr>es_orders := src_escrow_created lock h (es_orders s)\<rparr>"
| "escrow_step cfg (Dst_created a lock) s = s\<lparr>es_orders := dst_escrow_created a lock (es_orders s)\<rparr>"
| "escrow_step cfg (Created n a lock) s = s\<lparr>es_orders := escrow_created n a lock (es_orders s)\<rparr>"
| "escrow_step cfg (Funded n) s = s\<lparr>es_orders := escrow_funded n (es_orders s)\<rparr>"
| "escrow_step cfg (Deposit told sender) s =
    (case note_deposit cfg told sender (es_orders s) of (orders, sent) \<Rightarrow>
      s\<lparr>es_orders := orders, es_sent := es_sent s @ (case sent of None \<Rightarrow> [] | Some v \<Rightarrow> [v])\<rparr>)"
| "escrow_step cfg (Put_status i text) s =
    s\<lparr>es_orders := AList.map_entry i (\<lambda>order. order\<lparr>eo_status := text\<rparr>) (es_orders s)\<rparr>"
| "escrow_step cfg (Removed i) s = s\<lparr>es_orders := AList.delete i (es_orders s)\<rparr>"

definition escrow_run :: "create_config \<Rightarrow> escrow_input list \<Rightarrow> escrow_state" where
  "escrow_run cfg inputs = fold (escrow_step cfg) inputs \<lparr>es_orders = [], es_sent = []\<rparr>"

lemma escrow_run_snoc: "escrow_run cfg (h @ [i]) = escrow_step cfg i (escrow_run cfg h)"
  by (simp add: escrow_run_def)

lemma on_first_member:
  "(i, order) \<in> set (on_first P f orders) \<Longrightarrow> (i, order) \<in> set orders \<or> (\<exists>old. (i, old) \<in> set orders \<and> P old \<and> order = f old)"
  by (induction P f orders rule: on_first.induct) (auto split: if_splits)

lemma map_entry_member:
  "(i, order) \<in> set (AList.map_entry k f orders) \<Longrightarrow> (i, order) \<in> set orders \<or> (\<exists>old. (i, old) \<in> set orders \<and> i = k \<and> order = f old)"
  by (induction orders) (auto split: if_splits)

lemma deposit_member:
  assumes "(i, order) \<in> set (fst (note_deposit cfg told sender orders))"
  shows "\<exists>old. (i, old) \<in> set orders \<and> eo_hashLock order = eo_hashLock old \<and> eo_escrowId order = eo_escrowId old
    \<and> (eo_status order = eo_status old \<or> eo_status order \<in> {''escrow_creation_failed'', ''escrow_created_by_relayer''})"
proof -
  have c: "eo_hashLock (fst (createEscrowForOrder cfg told old)) = eo_hashLock old"
    "eo_escrowId (fst (createEscrowForOrder cfg told old)) = eo_escrowId old"
    "eo_status (fst (createEscrowForOrder cfg told old)) \<in> {''escrow_creation_failed'', ''escrow_created_by_relayer''}" for old
    by (auto simp: createEscrowForOrder_def Let_def split: option.split sum.split escrow_answer.split)
  consider "(i, order) \<in> set orders" | old where "(i, old) \<in> set orders" "order = fst (createEscrowForOrder cfg told old)"
    using assms by (auto simp: note_deposit_def split: option.splits dest!: on_first_member)
  then show ?thesis
  proof cases
    case 1
    then show ?thesis by (intro exI[of _ order]) simp
  next
    case (2 old)
    then show ?thesis using c[of old] by (intro exI[of _ old]) simp
  qed
qed

text \<open>An escrow id that an order carries was announced for its lock, and funding was seen after that.\<close>

definition announced_for :: "escrow_input list \<Rightarrow> escrow_order \<Rightarrow> nat \<Rightarrow> bool" where
  "announced_for h order n \<longleftrightarrow> (\<exists>a. Created n a (eo_hashLock order) \<in> set h)"

definition funded_after :: "escrow_input list \<Rightarrow> escrow_order \<Rightarrow> bool" where
  "funded_after h order \<longleftrightarrow> (\<exists>n a before after. h = before @ Funded n # after \<and> Created n a (eo_hashLock order) \<in> set before)"

definition escrow_ok :: "escrow_input list \<Rightarrow> escrow_order \<Rightarrow> bool" where
  "escrow_ok h order \<longleftrightarrow> (\<forall>t. eo_escrowId order = Some t \<longrightarrow> (\<exists>n. t = show_nat n \<and> announced_for h order n))
    \<and> (eo_status order = ''escrow_funded'' \<longrightarrow> funded_after h order)"

lemma later:
  "announced_for h order n \<Longrightarrow> announced_for (h @ [i]) order n" "funded_after h order \<Longrightarrow> funded_after (h @ [i]) order"
  by (auto simp: announced_for_def funded_after_def) (metis append_Cons)

lemma escrow_ok_frame:
  assumes "escrow_ok h old" "eo_hashLock order = eo_hashLock old" "eo_escrowId order = eo_escrowId old"
    "eo_status order = eo_status old \<or> eo_status order \<noteq> ''escrow_funded''"
  shows "escrow_ok (h @ [i]) order"
proof -
  have "announced_for h old n = announced_for h order n" "funded_after h old = funded_after h order" for n
    using assms(2) by (simp_all add: announced_for_def funded_after_def)
  then have "\<forall>n. announced_for h old n \<longrightarrow> announced_for (h @ [i]) order n" "funded_after h old \<longrightarrow> funded_after (h @ [i]) order"
    using later[of h order] by blast+
  then show ?thesis using assms unfolding escrow_ok_def by metis
qed

text \<open>Inputs that do not claim that an escrow is funded.\<close>

fun honest_input :: "escrow_input \<Rightarrow> bool" where
  "honest_input (Put_status k text) \<longleftrightarrow> text \<noteq> ''escrow_funded''"
| "honest_input (New_escrow_order k ord) \<longleftrightarrow> co_status ord \<noteq> ''escrow_funded''"
| "honest_input i \<longleftrightarrow> True"

lemma escrow_ok_step:
  assumes "\<forall>(k, order) \<in> set (es_orders s). escrow_ok h order" "honest_input i" "(k, order) \<in> set (es_orders (escrow_step cfg i s))"
  shows "escrow_ok (h @ [i]) order"
proof -
  have old: "escrow_ok h old" if "(k', old) \<in> set (es_orders s)" for k' old using assms(1) that by auto
  show ?thesis
  proof (cases i)
    case (New_escrow_order k' ord)
    have "order = eo_of ord \<or> (k, order) \<in> set (es_orders s)"
      using assms(3) New_escrow_order set_update_subset[of k' "eo_of ord" "es_orders s"] by auto
    moreover have "escrow_ok (h @ [i]) (eo_of ord)" using assms(2) New_escrow_order by (simp add: escrow_ok_def eo_of_def)
    ultimately show ?thesis using escrow_ok_frame[OF old, of k order order] by auto
  next
    case (Created n a lock)
    then consider "(k, order) \<in> set (es_orders s)"
      | "eo_hashLock order = lock" "eo_escrowId order = Some (show_nat n)" "eo_status order = ''escrow_active''"
      using assms(3) by (auto simp: escrow_created_def dest!: on_first_member)
    then show ?thesis
    proof cases
      case 2
      then show ?thesis using Created by (auto simp: escrow_ok_def announced_for_def)
    qed (use escrow_ok_frame[OF old, of k order order] in simp)
  next
    case (Funded n)
    then consider "(k, order) \<in> set (es_orders s)"
      | old' where "(k, old') \<in> set (es_orders s)" "eo_escrowId old' = Some (show_nat n)" "order = old'\<lparr>eo_status := ''escrow_funded''\<rparr>"
      using assms(3) by (auto simp: escrow_funded_def dest!: on_first_member)
    then show ?thesis
    proof cases
      case (2 old')
      then obtain n' where "show_nat n = show_nat n'" "announced_for h old' n'" using old[OF 2(1)] by (auto simp: escrow_ok_def)
      then have "announced_for h old' n" using show_nat_inj by metis
      then have "funded_after (h @ [i]) order" "announced_for (h @ [i]) order n" using Funded 2(3)
        by (auto simp: funded_after_def announced_for_def)
      then show ?thesis using 2 by (auto simp: escrow_ok_def)
    qed (use escrow_ok_frame[OF old, of k order order] in simp)
  next
    case (Deposit told sender)
    then obtain old' where "(k, old') \<in> set (es_orders s)" "eo_hashLock order = eo_hashLock old'" "eo_escrowId order = eo_escrowId old'"
      "eo_status order = eo_status old' \<or> eo_status order \<in> {''escrow_creation_failed'', ''escrow_created_by_relayer''}"
      using assms(3) deposit_member[of k order cfg told sender "es_orders s"] by (auto split: prod.splits)
    then show ?thesis using escrow_ok_frame[OF old] by auto
  next
    case (Put_status k' new_status)
    then show ?thesis using assms(2,3) escrow_ok_frame[OF old] by (auto dest!: map_entry_member)
  next
    case (Removed k')
    then have "(k, order) \<in> set (es_orders s)" using assms(3) by (auto simp: AList.delete_eq)
    then show ?thesis using escrow_ok_frame[OF old, of k order order] by simp
  next
    case (Src_created lock t)
    then show ?thesis using assms(3) escrow_ok_frame[OF old] by (force simp: src_escrow_created_def dest!: on_first_member)
  next
    case (Dst_created a lock)
    then show ?thesis using assms(3) escrow_ok_frame[OF old] by (force simp: dst_escrow_created_def dest!: on_first_member)
  qed
qed

text \<open>Only an order's own escrow can count as funded. However orders, events of the factory, deposits and the rest of the
  relayer interleave, an order is marked as funded only after the factory announced an escrow under its hash lock and then
  reported that very escrow as funded.\<close>

theorem funded_by_own_escrow:
  assumes "list_all honest_input h" "(k, order) \<in> set (es_orders (escrow_run cfg h))" "eo_status order = ''escrow_funded''"
  shows "\<exists>n a before after. h = before @ Funded n # after \<and> Created n a (eo_hashLock order) \<in> set before"
proof -
  have "\<forall>(k, order) \<in> set (es_orders (escrow_run cfg h)). escrow_ok h order"
    using assms(1)
  proof (induction h rule: rev_induct)
    case Nil
    then show ?case by (simp add: escrow_run_def)
  next
    case (snoc i h)
    then show ?case using escrow_ok_step[of "escrow_run cfg h" h i] by (auto simp: escrow_run_snoc)
  qed
  then show ?thesis using assms(2,3) by (auto simp: escrow_ok_def funded_after_def)
qed

theorem funded_by_own_escrow_witness:
  "\<exists>n a before after. [New_escrow_order ''o'' sample_created, Created 7 ''e'' (co_hashLock sample_created), Funded 7]
    = before @ Funded n # after \<and> Created n a (co_hashLock sample_created) \<in> set before"
proof -
  let ?h = "[New_escrow_order ''o'' sample_created, Created 7 ''e'' (co_hashLock sample_created), Funded 7]"
  let ?order = "(eo_of sample_created)\<lparr>eo_escrowId := Some (show_nat 7), eo_escrowAddress := Some ''e'', eo_status := ''escrow_funded''\<rparr>"
  have "co_status sample_created = ''awaiting_xlm_payment''"
    by (simp add: sample_created_def reply_order_def create_order_def missing_field_def given_def create_xlm_def store_created_def order_base_def
        sample_create_config_def sample_create_request_def sample_create_moment_def isValid_iff or_empty_def Let_def)
  then have "list_all honest_input ?h" by simp
  moreover have "(''o'', ?order) \<in> set (es_orders (escrow_run cfg ?h))" for cfg
    by (simp add: escrow_run_def escrow_created_def escrow_funded_def eo_of_def)
  ultimately show ?thesis using funded_by_own_escrow[of ?h "''o''" ?order sample_create_config] by (simp add: eo_of_def)
qed

text \<open>The handlers do not look at the status: an event that arrives late reopens a finished order.\<close>

lemma late_event_reopens:
  assumes "eo_status order = ''completed''" "eo_hashLock order = lock"
  shows "escrow_created n a lock [(i, order)]
    = [(i, order\<lparr>eo_escrowId := Some (show_nat n), eo_escrowAddress := Some a, eo_status := ''escrow_active''\<rparr>)]"
  using assms by (simp add: escrow_created_def)

text \<open>No created order has the status for which a deposit leads to an escrow.\<close>

lemma created_awaits_no_escrow:
  assumes "create_order cfg r m [] = (reply, orders)" "reply_order reply = Some ord"
  shows "\<not> awaits_escrow sender (eo_of ord)"
  using assms by (auto simp: awaits_escrow_def eo_of_def reply_order_def create_order_def create_branches store_created_def Let_def
      split: if_splits sum.splits option.splits)

end
