(* ===== verification/Ws_Server.thy ===== *)
theory Ws_Server
  imports Http_Routes Fusion_Events
begin

text \<open>
  The WebSocket server of the relayer (\<open>relayer/src/websocket-server.ts\<close>): its origin policy, the redaction of
  everything it sends, the messages of a client, broadcasts, the history, and the pings.

  \<^item> What it sends are values with identities, because \<open>redactValue\<close> remembers the objects it has seen: \<open>Some n\<close> is an
    object that the caller of \<open>broadcast\<close> owns, \<open>None\<close> one that the server has just made. Values have no cycles.
  \<^item> The state of a socket is \<open>wc_open\<close>. \<open>close\<close> and \<open>terminate\<close> leave the open state at once, as the library documents.
  \<^item> An output \<open>Uncaught\<close> is an exception that leaves an event listener; nothing in the process catches it.
  \<^item> \<open>is_url\<close> is the check of \<open>new URL\<close>; \<open>odd_slice\<close> gives the bounds that \<open>slice\<close> makes of an offset or a limit in a request
    that is no integer. A run of the server is a list of inputs; new ids and the time come with them.
\<close>

section \<open>Origins\<close>

definition parseAllowedOrigins :: "(string \<Rightarrow> bool) \<Rightarrow> string \<Rightarrow> string + string list" where
  "parseAllowedOrigins is_url raw =
    (if trim_str raw = [] then Inr []
     else let origins = filter (\<lambda>s. s \<noteq> []) (map trim_str (split_on (CHR '','') (trim_str raw)))
       in case find (\<lambda>origin. origin \<noteq> ''*'' \<and> \<not> is_url origin) origins of
            Some origin \<Rightarrow> Inl (''Invalid CORS origin: '' @ origin)
          | None \<Rightarrow> Inr origins)"

definition DEFAULT_ALLOWED_ORIGINS :: string where
  "DEFAULT_ALLOWED_ORIGINS =
    ''http://localhost:3000,http://localhost:5173,http://127.0.0.1:3000,http://127.0.0.1:5173''"

definition allowedOriginsFromEnv :: "(string \<Rightarrow> bool) \<Rightarrow> string option \<Rightarrow> string option \<Rightarrow> string + string list" where
  "allowedOriginsFromEnv is_url coordinatorOrigins corsOrigin =
    parseAllowedOrigins is_url (case coordinatorOrigins of Some t \<Rightarrow> t
      | None \<Rightarrow> (case corsOrigin of Some t \<Rightarrow> t | None \<Rightarrow> DEFAULT_ALLOWED_ORIGINS))"

definition isSocketOriginAllowed :: "string option \<Rightarrow> string list \<Rightarrow> bool" where
  "isSocketOriginAllowed origin allowedOrigins =
    (case origin of None \<Rightarrow> False
     | Some t \<Rightarrow> if t = [] then False else if ''*'' \<in> set allowedOrigins then True else t \<in> set allowedOrigins)"

text \<open>The socket admits the origins that the gated HTTP routes of the coordinator admit.\<close>

lemma socket_policy_strict_cors:
  "parseAllowedOrigins = parseCorsOrigins" "isSocketOriginAllowed origin origins = strict_cors_passes origins origin"
  by (auto simp: parseAllowedOrigins_def parseCorsOrigins_def Let_def isSocketOriginAllowed_def strict_cors_passes_def
      isOriginAllowed_def fun_eq_iff split: option.split)

section \<open>Redaction\<close>

datatype out_value = O_undef | O_null | O_bool bool | O_num int | O_frac string | O_str string
  | O_arr "nat option" "out_value list" | O_obj "nat option" "(string \<times> out_value) list"

definition REDACTED_KEYS :: "string list" where
  "REDACTED_KEYS = [''secret'', ''secrets'', ''preimage'', ''preimages'', ''authorization'', ''proxy-authorization'',
    ''cookie'', ''set-cookie'']"

definition is_letter :: "char \<Rightarrow> bool" where
  "is_letter c \<longleftrightarrow> 97 \<le> (of_char (lower_char c) :: nat) \<and> (of_char (lower_char c) :: nat) \<le> 122"

definition is_word_char :: "char \<Rightarrow> bool" where
  "is_word_char c \<longleftrightarrow> is_letter c \<or> is_digit c \<or> c = CHR ''_''"

definition is_scheme_char :: "char \<Rightarrow> bool" where
  "is_scheme_char c \<longleftrightarrow> is_letter c \<or> is_digit c \<or> c \<in> {CHR ''+'', CHR ''.'', CHR ''-''}"

definition is_user_char :: "char \<Rightarrow> bool" where
  "is_user_char c \<longleftrightarrow> \<not> is_space c \<and> c \<noteq> CHR ''/'' \<and> c \<noteq> CHR ''@''"

text \<open>A match of \<open>URL_USERINFO\<close> at the start of a text, without its word boundary: the kept group and the rest.\<close>

definition userinfo_match :: "string \<Rightarrow> (string \<times> string) option" where
  "userinfo_match s =
    (let scheme = takeWhile is_scheme_char s; s1 = dropWhile is_scheme_char s; s2 = drop 3 s1; rest = dropWhile is_user_char s2
     in if s \<noteq> [] \<and> is_letter (hd s) \<and> take 3 s1 = ''://'' \<and> takeWhile is_user_char s2 \<noteq> [] \<and> take 1 rest = ''@''
        then Some (scheme @ ''://'', tl rest) else None)"

lemma userinfo_match_shorter:
  assumes "userinfo_match s = Some (scheme_part, rest)" shows "length rest < length s"
proof -
  let ?s1 = "dropWhile is_scheme_char s" and ?r = "dropWhile is_user_char (drop 3 (dropWhile is_scheme_char s))"
  have r: "rest = tl ?r" "take 1 ?r = ''@''" using assms by (simp_all add: userinfo_match_def Let_def split: if_splits)
  then have "length rest < length ?r" by (cases ?r) simp_all
  moreover have "length ?r \<le> length (drop 3 ?s1)" "length ?s1 \<le> length s" by (rule length_dropWhile_le)+
  ultimately show ?thesis by simp
qed

function strip_from :: "bool \<Rightarrow> string \<Rightarrow> string" where
  "strip_from after_word [] = []"
| "strip_from after_word (c # s) =
    (case (if after_word then None else userinfo_match (c # s)) of
       Some (scheme_part, rest) \<Rightarrow> scheme_part @ strip_from False rest
     | None \<Rightarrow> c # strip_from (is_word_char c) s)"
  by pat_completeness auto
termination
  by (relation "measure (\<lambda>(w, s). length s)") (auto dest: userinfo_match_shorter split: if_splits)

definition strip_userinfo :: "string \<Rightarrow> string" where
  "strip_userinfo s = strip_from False s"

definition seen_before :: "nat option \<Rightarrow> nat list \<Rightarrow> bool" where
  "seen_before i seen = (case i of None \<Rightarrow> False | Some n \<Rightarrow> n \<in> set seen)"

definition mark_seen :: "nat option \<Rightarrow> nat list \<Rightarrow> nat list" where
  "mark_seen i seen = (case i of None \<Rightarrow> seen | Some n \<Rightarrow> n # seen)"

fun redactValue :: "out_value \<Rightarrow> nat list \<Rightarrow> out_value \<times> nat list"
  and redact_items :: "out_value list \<Rightarrow> nat list \<Rightarrow> out_value list \<times> nat list"
  and redact_members :: "(string \<times> out_value) list \<Rightarrow> nat list \<Rightarrow> (string \<times> out_value) list \<times> nat list" where
  "redactValue (O_str s) seen = (O_str (strip_userinfo s), seen)"
| "redactValue (O_arr i vs) seen =
    (if seen_before i seen then (O_undef, seen) else apfst (O_arr None) (redact_items vs (mark_seen i seen)))"
| "redactValue (O_obj i kvs) seen =
    (if seen_before i seen then (O_undef, seen) else apfst (O_obj None) (redact_members kvs (mark_seen i seen)))"
| "redactValue v seen = (v, seen)"
| "redact_items [] seen = ([], seen)"
| "redact_items (v # vs) seen = (let (w, seen') = redactValue v seen in apfst (Cons w) (redact_items vs seen'))"
| "redact_members [] seen = ([], seen)"
| "redact_members ((k, v) # kvs) seen =
    (if toLowerCase k \<in> set REDACTED_KEYS then redact_members kvs seen
     else let (w, seen') = redactValue v seen in apfst (Cons (k, w)) (redact_members kvs seen'))"

definition redactOutbound :: "out_value \<Rightarrow> out_value" where
  "redactOutbound v = fst (redactValue v [])"

text \<open>What \<open>JSON.stringify\<close> sees of a value.\<close>

fun to_json :: "out_value \<Rightarrow> json" where
  "to_json O_undef = JNull"
| "to_json O_null = JNull"
| "to_json (O_bool b) = JBool b"
| "to_json (O_num i) = JNum i"
| "to_json (O_frac t) = JFrac t"
| "to_json (O_str s) = JStr s"
| "to_json (O_arr i vs) = JArr (map to_json vs)"
| "to_json (O_obj i kvs) = JObj (map (\<lambda>kv. (fst kv, to_json (snd kv))) (filter (\<lambda>kv. snd kv \<noteq> O_undef) kvs))"

fun of_json :: "json \<Rightarrow> out_value" where
  "of_json JNull = O_null"
| "of_json (JBool b) = O_bool b"
| "of_json (JNum i) = O_num i"
| "of_json (JFrac t) = O_frac t"
| "of_json (JStr s) = O_str s"
| "of_json (JArr vs) = O_arr None (map of_json vs)"
| "of_json (JObj kvs) = O_obj None (map (\<lambda>kv. (fst kv, of_json (snd kv))) kvs)"

section \<open>Clients and history\<close>

record ws_client =
  wc_subscriptions :: "event_type list"
  wc_orders :: "json list"
  wc_resolvers :: "json list"
  wc_chains :: "json list"
  wc_lastPing :: int
  wc_alive :: bool
  wc_open :: bool
  wc_connectedAt :: int

record ws_record =
  er_id :: string
  er_timestamp :: int
  er_event :: event_type
  er_data :: "nat option \<times> (string \<times> out_value) list"
  er_orderHash :: "string option"

record ws_meta =
  wm_orderHash :: "string option"
  wm_resolver :: "string option"
  wm_chainId :: "int option"

text \<open>\<open>ws_objects\<close> are all clients that were ever admitted; \<open>ws_clients\<close> is the map of the connected ones.\<close>

record ws_server =
  ws_objects :: "(string \<times> ws_client) list"
  ws_clients :: "string list"
  ws_history :: "ws_record list"
  ws_pinging :: bool

definition new_ws_server :: ws_server where
  "new_ws_server = \<lparr>ws_objects = [], ws_clients = [], ws_history = [], ws_pinging = False\<rparr>"

datatype ws_output =
    Sent string string
  | Refused
  | Pinged string
  | Terminated string
  | Socket_closed string
  | Uncaught

definition on_client :: "string \<Rightarrow> (ws_client \<Rightarrow> ws_client) \<Rightarrow> ws_server \<Rightarrow> ws_server" where
  "on_client sid f s = s\<lparr>ws_objects := AList.map_entry sid f (ws_objects s)\<rparr>"

definition WS_EVENTS :: "event_type list" where
  "WS_EVENTS = [OrderCreated, OrderInvalid, OrderBalanceChange, OrderAllowanceChange, OrderFilled, OrderFilledPartially,
    OrderCancelled, SecretShared]"

definition WS_MAX_HISTORY :: nat where
  "WS_MAX_HISTORY = 1000"

section \<open>Sending\<close>

definition frame_text :: "(string \<times> out_value) list \<Rightarrow> string" where
  "frame_text message = JSON_stringify (to_json (redactOutbound (O_obj None message)))"

definition sendMessage :: "string \<Rightarrow> (string \<times> out_value) list \<Rightarrow> ws_server \<Rightarrow> ws_output list" where
  "sendMessage sid message s =
    (case map_of (ws_objects s) sid of None \<Rightarrow> []
     | Some c \<Rightarrow> if wc_open c then [Sent sid (frame_text message)] else [])"

definition sendResponse :: "string \<Rightarrow> json option \<Rightarrow> out_value \<Rightarrow> ws_server \<Rightarrow> ws_output list" where
  "sendResponse sid mid result =
    sendMessage sid [(''id'', case mid of None \<Rightarrow> O_undef | Some j \<Rightarrow> of_json j), (''result'', result)]"

definition sendError :: "string \<Rightarrow> int \<Rightarrow> string \<Rightarrow> ws_server \<Rightarrow> ws_output list" where
  "sendError sid code message = sendMessage sid [(''error'', O_obj None [(''code'', O_num code), (''message'', O_str message)])]"

section \<open>Messages of a client\<close>

definition falsy :: "json option \<Rightarrow> bool" where
  "falsy v \<longleftrightarrow> v \<in> {None, Some JNull, Some (JBool False), Some (JNum 0), Some (JStr [])}"

fun scalar :: "json \<Rightarrow> bool" where
  "scalar (JArr vs) = False"
| "scalar (JObj kvs) = False"
| "scalar v = True"

text \<open>\<open>Set.add\<close> and \<open>Set.delete\<close> for values of a parsed message: two arrays or objects are never the same.\<close>

definition set_add :: "json \<Rightarrow> json list \<Rightarrow> json list" where
  "set_add v xs = (if scalar v \<and> v \<in> set xs then xs else xs @ [v])"

definition set_del :: "json \<Rightarrow> json list \<Rightarrow> json list" where
  "set_del v xs = (if scalar v then filter (\<lambda>x. x \<noteq> v) xs else xs)"

definition array_items :: "json option \<Rightarrow> json list" where
  "array_items v = (case v of Some (JArr vs) \<Rightarrow> vs | _ \<Rightarrow> [])"

definition ws_event_of :: "json \<Rightarrow> event_type option" where
  "ws_event_of v = (case v of JStr t \<Rightarrow> find (\<lambda>e. event_type_str e = t) WS_EVENTS | _ \<Rightarrow> None)"

definition add_event :: "json \<Rightarrow> event_type list \<Rightarrow> event_type list" where
  "add_event v es = (case ws_event_of v of None \<Rightarrow> es | Some e \<Rightarrow> if e \<in> set es then es else es @ [e])"

definition del_event :: "json \<Rightarrow> event_type list \<Rightarrow> event_type list" where
  "del_event v es = (case ws_event_of v of None \<Rightarrow> es | Some e \<Rightarrow> filter (\<lambda>x. x \<noteq> e) es)"

definition subscribe_client :: "json \<Rightarrow> ws_client \<Rightarrow> ws_client" where
  "subscribe_client params c =
    c\<lparr>wc_subscriptions := fold add_event (array_items (jget params ''events'')) (wc_subscriptions c),
      wc_orders := fold set_add (array_items (jget params ''orderHashes'')) (wc_orders c),
      wc_resolvers := fold set_add (array_items (jget params ''resolvers'')) (wc_resolvers c),
      wc_chains := fold set_add (array_items (jget params ''chainIds'')) (wc_chains c)\<rparr>"

definition unsubscribe_client :: "json \<Rightarrow> ws_client \<Rightarrow> ws_client" where
  "unsubscribe_client params c =
    c\<lparr>wc_subscriptions := fold del_event (array_items (jget params ''events'')) (wc_subscriptions c),
      wc_orders := fold set_del (array_items (jget params ''orderHashes'')) (wc_orders c),
      wc_resolvers := fold set_del (array_items (jget params ''resolvers'')) (wc_resolvers c),
      wc_chains := fold set_del (array_items (jget params ''chainIds'')) (wc_chains c)\<rparr>"

definition subscription_view :: "ws_client \<Rightarrow> out_value" where
  "subscription_view c =
    O_obj None [(''subscribed'', O_bool True),
      (''events'', O_arr None (map (O_str \<circ> event_type_str) (wc_subscriptions c))),
      (''filters'', O_obj None [(''orders'', O_arr None (map of_json (wc_orders c))),
        (''resolvers'', O_arr None (map of_json (wc_resolvers c))), (''chains'', O_arr None (map of_json (wc_chains c)))])]"

text \<open>\<open>slice(from, to)\<close>, where a negative bound counts from the end.\<close>

definition slice_bound :: "int \<Rightarrow> nat \<Rightarrow> nat" where
  "slice_bound i len = (if i < 0 then nat (int len + i) else min (nat i) len)"

definition slice_list :: "int \<Rightarrow> int \<Rightarrow> 'a list \<Rightarrow> 'a list" where
  "slice_list i j xs = (let a = slice_bound i (length xs); b = slice_bound j (length xs) in take (b - a) (drop a xs))"

definition page_bounds_of :: "(json \<Rightarrow> json \<Rightarrow> int \<times> int) \<Rightarrow> json \<Rightarrow> json \<Rightarrow> int \<times> int" where
  "page_bounds_of odd_slice offset limit =
    (case (offset, limit) of (JNum a, JNum n) \<Rightarrow> (a, a + n) | _ \<Rightarrow> odd_slice offset limit)"

definition default_to :: "json \<Rightarrow> json option \<Rightarrow> json" where
  "default_to d v = (case v of None \<Rightarrow> d | Some j \<Rightarrow> j)"

definition record_view :: "ws_record \<Rightarrow> out_value" where
  "record_view r =
    O_obj None [(''id'', O_str (er_id r)), (''timestamp'', O_num (er_timestamp r)),
      (''event'', O_str (event_type_str (er_event r))), (''data'', O_obj (fst (er_data r)) (snd (er_data r)))]"

definition history_view :: "(json \<Rightarrow> json \<Rightarrow> int \<times> int) \<Rightarrow> json \<Rightarrow> ws_record list \<Rightarrow> out_value" where
  "history_view odd_slice params history =
    (let limit = default_to (JNum 100) (jget params ''limit''); offset = default_to (JNum 0) (jget params ''offset'');
         events = jget params ''events''; orderHash = jget params ''orderHash'';
         h1 = (case events of Some (JArr vs) \<Rightarrow> filter (\<lambda>r. JStr (event_type_str (er_event r)) \<in> set vs) history | _ \<Rightarrow> history);
         h2 = (if falsy orderHash then h1 else filter (\<lambda>r. map_option JStr (er_orderHash r) = orderHash) h1);
         (i, j) = page_bounds_of odd_slice offset limit
     in O_obj None [(''events'', O_arr None (map record_view (slice_list i j h2))), (''total'', O_num (int (length h2))),
          (''limit'', of_json limit), (''offset'', of_json offset)])"

definition ALLOWED_METHODS :: "string list" where
  "ALLOWED_METHODS = [''getAllowedMethods'', ''ping'', ''getActiveOrders'', ''getSecrets'', ''subscribe'', ''unsubscribe'',
    ''getEventHistory'']"

definition MIGRATION_NOTICE :: string where
  "MIGRATION_NOTICE = ''WebSocket order index is being migrated to the v2 coordinator. See ARCHITECTURE.md.''"

definition handleClientMessage :: "(json \<Rightarrow> json \<Rightarrow> int \<times> int) \<Rightarrow> string \<Rightarrow> json \<Rightarrow> ws_server \<Rightarrow> ws_output list \<times> ws_server" where
  "handleClientMessage odd_slice sid message s =
    (let mid = jget message ''id''; m = jget message ''method''; params = default_to JNull (jget message ''params'')
     in if message = JNull then ([Uncaught], s)
        else if falsy m then (sendError sid (- 32600) ''Invalid Request'' s, s)
        else if m = Some (JStr ''ping'') then (sendResponse sid mid (O_str ''pong'') s, s)
        else if m = Some (JStr ''getAllowedMethods'') then (sendResponse sid mid (O_arr None (map O_str ALLOWED_METHODS)) s, s)
        else if m = Some (JStr ''getActiveOrders'')
        then (sendResponse sid mid (O_obj None [(''orders'', O_arr None []), (''notice'', O_str MIGRATION_NOTICE)]) s, s)
        else if m = Some (JStr ''subscribe'')
        then (let s' = on_client sid (subscribe_client params) s
              in (case map_of (ws_objects s') sid of None \<Rightarrow> [] | Some c \<Rightarrow> sendResponse sid mid (subscription_view c) s', s'))
        else if m = Some (JStr ''unsubscribe'')
        then (let s' = on_client sid (unsubscribe_client params) s
              in (sendResponse sid mid (O_obj None [(''unsubscribed'', O_bool True)]) s', s'))
        else if m = Some (JStr ''getEventHistory'') then (sendResponse sid mid (history_view odd_slice params (ws_history s)) s, s)
        else (sendError sid (- 32601) ''Method not found'' s, s))"

definition receive_frame :: "(json \<Rightarrow> json \<Rightarrow> int \<times> int) \<Rightarrow> string \<Rightarrow> string \<Rightarrow> ws_server \<Rightarrow> ws_output list \<times> ws_server" where
  "receive_frame odd_slice sid raw s =
    (if map_of (ws_objects s) sid = None then ([], s)
     else case JSON_parse raw of None \<Rightarrow> (sendError sid (- 32700) ''Parse error'' s, s)
       | Some message \<Rightarrow> handleClientMessage odd_slice sid message s)"

section \<open>Connections, broadcasts and pings\<close>

definition handleConnection :: "string list \<Rightarrow> string \<Rightarrow> string option \<Rightarrow> int \<Rightarrow> ws_server \<Rightarrow> ws_output list \<times> ws_server" where
  "handleConnection origins sid origin now s =
    (if \<not> isSocketOriginAllowed origin origins then ([Refused], s)
     else ([], s\<lparr>ws_objects := AList.update sid \<lparr>wc_subscriptions = [], wc_orders = [], wc_resolvers = [], wc_chains = [],
          wc_lastPing = now, wc_alive = True, wc_open = True, wc_connectedAt = now\<rparr> (ws_objects s),
        ws_clients := (if sid \<in> set (ws_clients s) then ws_clients s else ws_clients s @ [sid])\<rparr>))"

definition filtered_out :: "json list \<Rightarrow> json option \<Rightarrow> bool" where
  "filtered_out wanted v \<longleftrightarrow> wanted \<noteq> [] \<and> \<not> falsy v \<and> the v \<notin> set wanted"

definition shouldSendToClient :: "ws_client \<Rightarrow> event_type \<Rightarrow> ws_meta \<Rightarrow> bool" where
  "shouldSendToClient c event m =
    (if event \<notin> set (wc_subscriptions c) then False
     else if filtered_out (wc_orders c) (map_option JStr (wm_orderHash m)) then False
     else if filtered_out (wc_resolvers c) (map_option JStr (wm_resolver m)) then False
     else if filtered_out (wc_chains c) (map_option JNum (wm_chainId m)) then False
     else True)"

definition remember_record :: "ws_record \<Rightarrow> ws_record list \<Rightarrow> ws_record list" where
  "remember_record r h = (let h' = h @ [r] in if length h' > WS_MAX_HISTORY then tl h' else h')"

definition broadcast :: "event_type \<Rightarrow> nat option \<times> (string \<times> out_value) list \<Rightarrow> ws_meta \<Rightarrow> string \<Rightarrow> int \<Rightarrow> ws_server
    \<Rightarrow> ws_output list \<times> ws_server" where
  "broadcast event payload m eid now s =
    (let r = \<lparr>er_id = eid, er_timestamp = now, er_event = event, er_data = payload, er_orderHash = wm_orderHash m\<rparr>;
         s' = s\<lparr>ws_history := remember_record r (ws_history s)\<rparr>;
         message = [(''event'', O_str (event_type_str event)),
           (''data'', O_obj None (AList.update ''eventId'' (O_str eid) (AList.update ''timestamp'' (O_num now) (snd payload))))]
     in (concat (map (\<lambda>sid. case map_of (ws_objects s') sid of None \<Rightarrow> []
           | Some c \<Rightarrow> if shouldSendToClient c event m then sendMessage sid message s' else []) (ws_clients s')), s'))"

definition ping_client :: "string \<Rightarrow> ws_output list \<times> ws_server \<Rightarrow> ws_output list \<times> ws_server" where
  "ping_client sid = (\<lambda>(out, s).
    case map_of (ws_objects s) sid of None \<Rightarrow> (out, s)
    | Some c \<Rightarrow> if \<not> wc_alive c
        then (out @ [Terminated sid], (on_client sid (\<lambda>c. c\<lparr>wc_open := False\<rparr>) s)\<lparr>ws_clients := removeAll sid (ws_clients s)\<rparr>)
        else (out @ [Pinged sid], on_client sid (\<lambda>c. c\<lparr>wc_alive := False\<rparr>) s))"

definition ping_tick :: "ws_server \<Rightarrow> ws_output list \<times> ws_server" where
  "ping_tick s = (if ws_pinging s then fold ping_client (ws_clients s) ([], s) else ([], s))"

definition stop_server :: "ws_server \<Rightarrow> ws_output list \<times> ws_server" where
  "stop_server s =
    (map Socket_closed (ws_clients s),
     (fold (\<lambda>sid. on_client sid (\<lambda>c. c\<lparr>wc_open := False\<rparr>)) (ws_clients s) s)\<lparr>ws_clients := [], ws_pinging := False\<rparr>)"

datatype ws_input =
    Ws_start
  | Connect string "string option" int
  | Frame string string
  | Pong string int
  | Close_event string
  | Ready_state string bool
  | Publish event_type "nat option \<times> (string \<times> out_value) list" ws_meta string int
  | Ping_tick
  | Ws_stop

fun ws_step :: "string list \<Rightarrow> (json \<Rightarrow> json \<Rightarrow> int \<times> int) \<Rightarrow> ws_input \<Rightarrow> ws_server \<Rightarrow> ws_output list \<times> ws_server" where
  "ws_step origins odd_slice Ws_start s = ([], s\<lparr>ws_pinging := True\<rparr>)"
| "ws_step origins odd_slice (Connect sid origin now) s = handleConnection origins sid origin now s"
| "ws_step origins odd_slice (Frame sid raw) s = receive_frame odd_slice sid raw s"
| "ws_step origins odd_slice (Pong sid now) s = ([], on_client sid (\<lambda>c. c\<lparr>wc_alive := True, wc_lastPing := now\<rparr>) s)"
| "ws_step origins odd_slice (Close_event sid) s = ([], s\<lparr>ws_clients := removeAll sid (ws_clients s)\<rparr>)"
| "ws_step origins odd_slice (Ready_state sid b) s = ([], on_client sid (\<lambda>c. c\<lparr>wc_open := b\<rparr>) s)"
| "ws_step origins odd_slice (Publish event payload m eid now) s = broadcast event payload m eid now s"
| "ws_step origins odd_slice Ping_tick s = ping_tick s"
| "ws_step origins odd_slice Ws_stop s = stop_server s"

text \<open>The state after a list of inputs, and the outputs of the last one.\<close>

definition ws_state :: "string list \<Rightarrow> (json \<Rightarrow> json \<Rightarrow> int \<times> int) \<Rightarrow> ws_input list \<Rightarrow> ws_server" where
  "ws_state origins odd_slice inputs = fold (\<lambda>i s. snd (ws_step origins odd_slice i s)) inputs new_ws_server"

definition ws_outputs :: "string list \<Rightarrow> (json \<Rightarrow> json \<Rightarrow> int \<times> int) \<Rightarrow> ws_input list \<Rightarrow> ws_input \<Rightarrow> ws_output list" where
  "ws_outputs origins odd_slice inputs i = fst (ws_step origins odd_slice i (ws_state origins odd_slice inputs))"


section \<open>What reaches a socket\<close>

text \<open>No name that must be redacted occurs at any depth.\<close>

fun no_secret_key :: "json \<Rightarrow> bool" where
  "no_secret_key (JArr vs) = list_all no_secret_key vs"
| "no_secret_key (JObj kvs) =
    list_all (\<lambda>kv. toLowerCase (fst kv) \<notin> set REDACTED_KEYS \<and> no_secret_key (snd kv)) kvs"
| "no_secret_key j = True"

lemma redact_clean:
  "no_secret_key (to_json (fst (redactValue v seen)))"
  "list_all (no_secret_key \<circ> to_json) (fst (redact_items vs seen'))"
  "list_all (\<lambda>kv. toLowerCase (fst kv) \<notin> set REDACTED_KEYS \<and> no_secret_key (to_json (snd kv))) (fst (redact_members kvs seen''))"
proof (induction v seen and vs seen' and kvs seen'' rule: redactValue_redact_items_redact_members.induct)
  case (3 i kvs seen)
  then show ?case by (cases "seen_before i seen") (auto simp: list_all_iff)
qed (auto simp: list_all_iff split: prod.splits)

lemma client_kept [simp]:
  "map_of (ws_objects (on_client x f s)) sid = (if x = sid then map_option f (map_of (ws_objects s) sid) else map_of (ws_objects s) sid)"
  "ws_clients (on_client x f s) = ws_clients s" "ws_history (on_client x f s) = ws_history s" "ws_pinging (on_client x f s) = ws_pinging s"
  by (auto simp: on_client_def map_of_map_entry split: option.split)

lemma sendMessage_Sent:
  assumes "Sent sid t \<in> set (sendMessage x message s)"
  shows "map_of (ws_objects s) sid \<noteq> None \<and> t = frame_text message"
  using assms by (cases "map_of (ws_objects s) x") (auto simp: sendMessage_def split: if_splits)

lemmas sends = sendResponse_def sendError_def

lemma handle_Sent:
  "Sent sid t \<in> set (fst (handleClientMessage odd_slice x message s)) \<Longrightarrow>
    map_of (ws_objects s) sid \<noteq> None \<and> (\<exists>message. t = frame_text message)"
  by (auto simp: handleClientMessage_def sends Let_def split: if_splits option.splits dest!: sendMessage_Sent)

lemma ping_fold_Sent:
  "Sent sid t \<notin> set (fst p) \<Longrightarrow> Sent sid t \<notin> set (fst (fold ping_client ids p))"
proof (induction ids arbitrary: p)
  case (Cons x ids)
  have "Sent sid t \<notin> set (fst (ping_client x p))"
    using Cons.prems by (auto simp: ping_client_def split: prod.splits option.splits)
  then show ?case using Cons.IH by simp
qed simp

lemma step_Sent:
  assumes "Sent sid t \<in> set (fst (ws_step origins odd_slice i s))"
  shows "map_of (ws_objects s) sid \<noteq> None \<and> (\<exists>message. t = frame_text message)"
proof (cases i)
  case (Frame x raw)
  then show ?thesis using assms
    by (auto simp: receive_frame_def sendError_def split: if_splits option.splits dest: handle_Sent dest!: sendMessage_Sent)
next
  case (Publish event payload m eid now)
  then show ?thesis using assms
    by (auto simp: broadcast_def Let_def split: option.splits if_splits dest!: sendMessage_Sent)
next
  case Ping_tick
  then show ?thesis using assms ping_fold_Sent[of sid t "([], s)" "ws_clients s"]
    by (auto simp: ping_tick_def split: if_splits)
qed (use assms in \<open>auto simp: handleConnection_def stop_server_def split: if_splits\<close>)


lemma ws_state_snoc: "ws_state origins odd_slice (h @ [i]) = snd (ws_step origins odd_slice i (ws_state origins odd_slice h))"
  by (simp add: ws_state_def)

text \<open>What a tick does to the connected clients.\<close>

definition silent_in :: "ws_server \<Rightarrow> string \<Rightarrow> bool" where
  "silent_in s sid \<longleftrightarrow> (case map_of (ws_objects s) sid of None \<Rightarrow> False | Some c \<Rightarrow> \<not> wc_alive c)"

definition pinged :: "ws_client \<Rightarrow> ws_client" where
  "pinged c = (if wc_alive c then c\<lparr>wc_alive := False\<rparr> else c\<lparr>wc_open := False\<rparr>)"

lemma ping_fold_effect:
  assumes "distinct ids"
  shows "(\<forall>sid. map_of (ws_objects (snd (fold ping_client ids (out, s)))) sid
      = (if sid \<in> set ids then map_option pinged (map_of (ws_objects s) sid) else map_of (ws_objects s) sid))
    \<and> ws_clients (snd (fold ping_client ids (out, s))) = filter (\<lambda>x. \<not> (x \<in> set ids \<and> silent_in s x)) (ws_clients s)
    \<and> ws_pinging (snd (fold ping_client ids (out, s))) = ws_pinging s
    \<and> (\<forall>sid. Terminated sid \<in> set (fst (fold ping_client ids (out, s))) \<longleftrightarrow> Terminated sid \<in> set out \<or> sid \<in> set ids \<and> silent_in s sid)"
  using assms
proof (induction ids arbitrary: out s)
  case (Cons x ids)
  obtain out' s' where p: "ping_client x (out, s) = (out', s')" by fastforce
  have s': "map_of (ws_objects s') sid = (if sid = x then map_option pinged (map_of (ws_objects s) sid) else map_of (ws_objects s) sid)"
    "ws_clients s' = filter (\<lambda>y. \<not> (y = x \<and> silent_in s y)) (ws_clients s)" "ws_pinging s' = ws_pinging s"
    "Terminated sid \<in> set out' \<longleftrightarrow> Terminated sid \<in> set out \<or> sid = x \<and> silent_in s x" for sid
    using p by (cases "map_of (ws_objects s) x"; auto simp: ping_client_def silent_in_def pinged_def removeAll_filter_not_eq
        split: if_splits intro!: filter_cong filter_True[symmetric])+
  have quiet: "y \<in> set ids \<and> silent_in s' y \<longleftrightarrow> y \<in> set ids \<and> silent_in s y" for y
    using s'(1) Cons.prems by (auto simp: silent_in_def)
  have f: "filter (\<lambda>y. \<not> (y \<in> set ids \<and> silent_in s y)) (filter (\<lambda>y. \<not> (y = x \<and> silent_in s y)) (ws_clients s))
      = filter (\<lambda>y. \<not> (y \<in> set (x # ids) \<and> silent_in s y)) (ws_clients s)"
    unfolding filter_filter by (rule filter_cong) auto
  note IH = Cons.IH[of out' s', unfolded quiet s'(2,3) f]
  then show ?case using Cons.prems s'(1,4) by (auto simp: p)
qed simp


section \<open>Runs\<close>

definition ws_ok :: "ws_server \<Rightarrow> bool" where
  "ws_ok s \<longleftrightarrow> distinct (ws_clients s) \<and> (\<forall>sid\<in>set (ws_clients s). map_of (ws_objects s) sid \<noteq> None)"

lemma silent_iff: "silent_in s sid \<longleftrightarrow> map_option wc_alive (map_of (ws_objects s) sid) = Some False"
  by (auto simp: silent_in_def split: option.split)

lemma handle_frame:
  "ws_clients (snd (handleClientMessage odd_slice x m s)) = ws_clients s"
  "ws_pinging (snd (handleClientMessage odd_slice x m s)) = ws_pinging s"
  "silent_in (snd (handleClientMessage odd_slice x m s)) sid \<longleftrightarrow> silent_in s sid"
  "(\<exists>c. map_of (ws_objects (snd (handleClientMessage odd_slice x m s))) sid = Some c) \<longleftrightarrow> (\<exists>c. map_of (ws_objects s) sid = Some c)"
  by (auto simp: handleClientMessage_def Let_def subscribe_client_def unsubscribe_client_def silent_iff option.map_comp comp_def)

lemma stop_objects:
  "(\<exists>c. map_of (ws_objects (fold (\<lambda>x. on_client x (\<lambda>c. c\<lparr>wc_open := False\<rparr>)) xs s)) sid = Some c)
    \<longleftrightarrow> (\<exists>c. map_of (ws_objects s) sid = Some c)"
  by (induction xs arbitrary: s) auto

text \<open>Inputs that count as a sign of life of a client.\<close>

fun revives :: "string list \<Rightarrow> string \<Rightarrow> ws_input \<Rightarrow> bool" where
  "revives origins sid (Pong x now) \<longleftrightarrow> x = sid"
| "revives origins sid (Connect x origin now) \<longleftrightarrow> x = sid \<and> isSocketOriginAllowed origin origins"
| "revives origins sid i \<longleftrightarrow> False"

lemma quiet_step:
  assumes "i \<noteq> Ping_tick" "\<not> revives origins sid i" "sid \<in> set (ws_clients (snd (ws_step origins odd_slice i s)))"
  shows "sid \<in> set (ws_clients s) \<and> (silent_in (snd (ws_step origins odd_slice i s)) sid \<longleftrightarrow> silent_in s sid)"
proof (cases i)
  case (Frame x raw)
  then show ?thesis using assms by (auto simp: receive_frame_def handle_frame split: option.splits)
qed (use assms in \<open>auto simp: handleConnection_def broadcast_def stop_server_def update_conv' Let_def silent_iff option.map_comp comp_def
    split: if_splits\<close>)

lemma tick_effect:
  assumes "ws_ok s" "ws_pinging s"
  shows "set (ws_clients (snd (ping_tick s))) = {x \<in> set (ws_clients s). \<not> silent_in s x}"
    and "x \<in> set (ws_clients s) \<Longrightarrow> silent_in (snd (ping_tick s)) x"
    and "Terminated x \<in> set (fst (ping_tick s)) \<longleftrightarrow> x \<in> set (ws_clients s) \<and> silent_in s x"
  using assms ping_fold_effect[of "ws_clients s" "[]" s]
  by (auto simp: ws_ok_def ping_tick_def silent_in_def pinged_def split: option.splits)

lemma ws_step_ok: "ws_ok s \<Longrightarrow> ws_ok (snd (ws_step origins odd_slice i s))"
proof (cases i)
  case Ping_tick
  assume "ws_ok s"
  then show ?thesis using Ping_tick ping_fold_effect[of "ws_clients s" "[]" s] by (auto simp: ws_ok_def ping_tick_def)
qed (auto simp: ws_ok_def handleConnection_def receive_frame_def handle_frame broadcast_def stop_server_def stop_objects update_conv'
    Let_def distinct_removeAll split: option.splits)

lemma state_ok: "ws_ok (ws_state origins odd_slice h)"
proof (induction h rule: rev_induct)
  case Nil
  then show ?case by (simp add: ws_state_def ws_ok_def new_ws_server_def)
qed (simp add: ws_state_snoc ws_step_ok)

text \<open>C39: Silence is what ends a connection. A ping tick terminates a client exactly if the server is pinging, the client is connected
  and has given no sign of life since an earlier tick of a pinging server: a client that answers every ping is never dropped, one
  that does not is dropped at the next tick, whatever else happens.\<close>

theorem silent_clients_terminated:
  "Terminated sid \<in> set (ws_outputs origins odd_slice h Ping_tick) \<longleftrightarrow>
    ws_pinging (ws_state origins odd_slice h) \<and> sid \<in> set (ws_clients (ws_state origins odd_slice h))
    \<and> (\<exists>a b. h = a @ Ping_tick # b \<and> ws_pinging (ws_state origins odd_slice a) \<and> list_all (\<lambda>i. \<not> revives origins sid i) b)"
proof -
  let ?since = "\<lambda>h. \<exists>a b. h = a @ Ping_tick # b \<and> ws_pinging (ws_state origins odd_slice a) \<and> list_all (\<lambda>i. \<not> revives origins sid i) b"
  have split_since: "?since (h @ [i]) \<longleftrightarrow> i = Ping_tick \<and> ws_pinging (ws_state origins odd_slice h) \<or> \<not> revives origins sid i \<and> ?since h" for h i
  proof (intro iffI; (elim disjE exE conjE)?)
    fix a b assume "h @ [i] = a @ Ping_tick # b" "ws_pinging (ws_state origins odd_slice a)" "list_all (\<lambda>i. \<not> revives origins sid i) b"
    then show "i = Ping_tick \<and> ws_pinging (ws_state origins odd_slice h) \<or> \<not> revives origins sid i \<and> ?since h"
      by (cases b rule: rev_cases) auto
  next
    fix a b assume "\<not> revives origins sid i" "h = a @ Ping_tick # b" "ws_pinging (ws_state origins odd_slice a)"
      "list_all (\<lambda>i. \<not> revives origins sid i) b"
    then show "?since (h @ [i])" by (intro exI[of _ a] exI[of _ "b @ [i]"]) simp
  qed (intro exI[of _ h] exI[of _ "[]"], simp)
  have "sid \<in> set (ws_clients (ws_state origins odd_slice h)) \<Longrightarrow> silent_in (ws_state origins odd_slice h) sid \<longleftrightarrow> ?since h" for h
  proof (induction h rule: rev_induct)
    case (snoc i h)
    let ?s = "ws_state origins odd_slice h"
    consider "i = Ping_tick" "ws_pinging ?s" | "i = Ping_tick" "\<not> ws_pinging ?s" | "i \<noteq> Ping_tick" "revives origins sid i"
      | "i \<noteq> Ping_tick" "\<not> revives origins sid i" by blast
    then show ?case
    proof cases
      case 1
      then show ?thesis using snoc.prems tick_effect[OF state_ok 1(2)] split_since by (auto simp: ws_state_snoc)
    next
      case 2
      then show ?thesis using snoc split_since by (auto simp: ws_state_snoc ping_tick_def)
    next
      case 3
      then show ?thesis using snoc.prems split_since
        by (cases i) (auto simp: ws_state_snoc silent_in_def handleConnection_def update_conv' split: option.splits)
    next
      case 4
      then show ?thesis using snoc quiet_step[OF 4] split_since by (auto simp: ws_state_snoc)
    qed
  qed (simp add: ws_state_def new_ws_server_def)
  then show ?thesis using tick_effect(3)[OF state_ok] by (auto simp: ws_outputs_def ping_tick_def)
qed


definition admits :: "string list \<Rightarrow> string \<Rightarrow> ws_input \<Rightarrow> bool" where
  "admits origins sid i = (case i of Connect x origin now \<Rightarrow> x = sid \<and> isSocketOriginAllowed origin origins | _ \<Rightarrow> False)"

definition clean_output :: "string list \<Rightarrow> ws_input list \<Rightarrow> ws_output \<Rightarrow> bool" where
  "clean_output origins h out =
    (case out of Sent sid t \<Rightarrow> (\<exists>j. t = JSON_stringify j \<and> no_secret_key j) \<and> list_ex (admits origins sid) h | _ \<Rightarrow> True)"

lemma object_admitted:
  "map_of (ws_objects (ws_state origins odd_slice h)) sid \<noteq> None \<Longrightarrow> list_ex (admits origins sid) h"
proof (induction h rule: rev_induct)
  case (snoc i h)
  let ?s = "ws_state origins odd_slice h"
  have "map_of (ws_objects ?s) sid \<noteq> None \<or> admits origins sid i"
  proof (cases i)
    case Ping_tick
    have "distinct (ws_clients ?s)" using state_ok by (simp add: ws_ok_def)
    then show ?thesis using snoc.prems Ping_tick ping_fold_effect[of "ws_clients ?s" "[]" ?s]
      by (auto simp: ws_state_snoc ping_tick_def split: if_splits)
  qed (use snoc.prems in \<open>auto simp: ws_state_snoc handleConnection_def receive_frame_def handle_frame broadcast_def
      stop_server_def stop_objects update_conv' Let_def admits_def split: if_splits option.splits\<close>)
  then show ?case using snoc.IH by auto
qed (simp add: ws_state_def new_ws_server_def)

text \<open>No member named like a secret leaves on a socket. Whatever clients send and whatever is broadcast, every frame is the text of a value in
  which no name of a secret, a preimage, a cookie or an authorization occurs at any depth, and it goes to a client that was
  admitted with an allowed origin.\<close>

theorem sockets_carry_no_secret: "list_all (clean_output origins h) (ws_outputs origins odd_slice h i)"
proof -
  have "clean_output origins h out" if o: "out \<in> set (ws_outputs origins odd_slice h i)" for out
  proof (cases out)
    case (Sent sid t)
    then obtain message where m: "map_of (ws_objects (ws_state origins odd_slice h)) sid \<noteq> None" "t = frame_text message"
      using o step_Sent by (fastforce simp: ws_outputs_def)
    have "\<exists>j. t = JSON_stringify j \<and> no_secret_key j"
      using m(2) redact_clean(1)[of "O_obj None message" "[]"] unfolding frame_text_def redactOutbound_def by blast
    then show ?thesis using Sent object_admitted[OF m(1)] by (simp add: clean_output_def)
  qed (simp_all add: clean_output_def)
  then show ?thesis by (simp add: list_all_iff)
qed

section \<open>Where the comments promise more\<close>

lemma strip_no_at: "CHR ''@'' \<notin> set s \<Longrightarrow> strip_from after_word s = s"
proof (induction s arbitrary: after_word)
  case (Cons c s)
  have "userinfo_match (c # s) = None"
  proof -
    have "set (dropWhile is_user_char (drop 3 (dropWhile is_scheme_char (c # s)))) \<subseteq> set (c # s)"
      by (meson order_trans set_drop_subset set_dropWhileD subsetI)
    then have "CHR ''@'' \<notin> set (dropWhile is_user_char (drop 3 (dropWhile is_scheme_char (c # s))))" using Cons.prems by auto
    then have "take 1 (dropWhile is_user_char (drop 3 (dropWhile is_scheme_char (c # s)))) \<noteq> ''@''"
      by (metis list.set_intros(1) set_take_subset subsetD)
    then show ?thesis by (simp add: userinfo_match_def Let_def)
  qed
  then show ?case using Cons by simp
qed simp

text \<open>The user information of a URL is removed, if it has no \<open>@\<close> of its own.\<close>

lemma userinfo_removed:
  assumes "scheme \<noteq> []" "is_letter (hd scheme)" "list_all is_scheme_char scheme" "user \<noteq> []" "list_all is_user_char user"
    "CHR ''@'' \<notin> set host"
  shows "strip_userinfo (scheme @ ''://'' @ user @ ''@'' @ host) = scheme @ ''://'' @ host"
proof -
  have c: "\<not> is_scheme_char (CHR '':'')" "\<not> is_user_char (CHR ''@'')"
    by (simp_all add: is_scheme_char_def is_letter_def is_digit_def lower_char_def is_user_char_def)
  have w: "takeWhile is_scheme_char (scheme @ '':'' @ xs) = scheme" "dropWhile is_scheme_char (scheme @ '':'' @ xs) = '':'' @ xs"
    "takeWhile is_user_char (user @ ''@'' @ ys) = user" "dropWhile is_user_char (user @ ''@'' @ ys) = ''@'' @ ys" for xs ys
    using assms(3,5) c by (auto simp: list_all_iff takeWhile_append2 dropWhile_append2)
  have "userinfo_match (scheme @ ''://'' @ user @ ''@'' @ host) = Some (scheme @ ''://'', host)"
    using assms w(1,2)[of "''//'' @ user @ ''@'' @ host"] w(3,4)[of host] by (simp add: userinfo_match_def Let_def)
  then show ?thesis using assms(1,6) strip_no_at[of host False] by (cases scheme) (simp_all add: strip_userinfo_def)
qed

lemma password_with_at_leaks: "strip_userinfo ''https://user:p@ss@rpc.example'' = ''https://ss@rpc.example''"
  by code_simp

text \<open>An object that occurs twice is sent once: two history records with one payload lose the second.\<close>

lemma shared_payload_dropped:
  "redactOutbound (O_arr None [O_obj (Some n) kvs, O_obj (Some n) kvs]) = O_arr None [fst (redactValue (O_obj (Some n) kvs) []), O_undef]"
proof -
  have "n \<in> set seen \<Longrightarrow> n \<in> set (snd (redactValue v seen))" "n \<in> set seen' \<Longrightarrow> n \<in> set (snd (redact_items vs seen'))"
    "n \<in> set seen'' \<Longrightarrow> n \<in> set (snd (redact_members kvs' seen''))" for v vs kvs' seen seen' seen''
    by (induction v seen and vs seen' and kvs' seen'' rule: redactValue_redact_items_redact_members.induct)
      (auto simp: mark_seen_def case_prod_unfold Let_def prod_eq_iff split: option.splits)
  from this(3)[where kvs' = kvs and seen'' = "[n]"] have "n \<in> set (snd (redact_members kvs [n]))" by simp
  then show ?thesis by (simp add: redactOutbound_def seen_before_def mark_seen_def case_prod_unfold Let_def)
qed

text \<open>The frame \<open>null\<close> of any admitted client ends the process; \<open>getSecrets\<close> is announced but unknown.\<close>

lemma null_frame_uncaught:
  "map_of (ws_objects s) sid \<noteq> None \<Longrightarrow> fst (ws_step origins odd_slice (Frame sid ''null'') s) = [Uncaught]"
proof -
  have "JSON_parse ''null'' = Some JNull" by code_simp
  then show "map_of (ws_objects s) sid \<noteq> None \<Longrightarrow> ?thesis" by (simp add: receive_frame_def handleClientMessage_def)
qed

lemma announced_but_unknown:
  "''getSecrets'' \<in> set ALLOWED_METHODS"
  "jget message ''method'' = Some (JStr ''getSecrets'') \<Longrightarrow>
    fst (handleClientMessage odd_slice sid message s) = sendError sid (- 32601) ''Method not found'' s"
  by (auto simp: ALLOWED_METHODS_def handleClientMessage_def falsy_def Let_def jget_def)

end
