(* ===== verification/Event_Api.thy ===== *)
theory Event_Api
  imports Client_Subscriptions Event_History
begin

text \<open>
  The RPC methods of the relayer (\<open>relayer/src/rpc-methods.ts\<close>, class \<open>FusionRpcHandler\<close>) and the event routes of
  \<open>index.ts\<close>: \<open>POST /api/rpc\<close>, \<open>POST /api/trigger-test-events\<close>, \<open>GET /api/events\<close>, \<open>POST /api/subscribe\<close>. They work on the
  event bus with its subscriptions (\<open>sub_system\<close>) and the event history, which hears every event of the bus through \<open>any\<close>.

  \<^item> A method comes with the parameters it reads, of the types it expects, \<open>None\<close> where absent. The callback of an RPC
    subscription only logs: its tag is the empty text, which no subscription has as id.
  \<^item> Generated ids and the time are arguments. The timers of \<open>triggerTestEvents\<close> are a list of due events; of the
    payload of a test event only the order is kept.
  \<^item> Uptime and memory of the process, log lines and display texts are left out.
\<close>

datatype rpc_call =
    Rpc_ping
  | Rpc_allowedMethods
  | Rpc_activeOrders
  | Rpc_secrets "string option"
  | Rpc_eventHistory "string list option" "string option" "nat option" "nat option" "int option"
  | Rpc_statistics
  | Rpc_subscribe "string list option" "string list option" "int list option"
  | Rpc_unsubscribe "string option"
  | Rpc_submitOrder
  | Rpc_cancelOrder "string option"
  | Rpc_orderStatus "string option"
  | Rpc_unknown string

datatype rpc_result =
    Pong_result
  | Methods_result "string list" "event_type list"
  | No_orders_result
  | Secrets_result string
  | Events_result "event_message list" nat nat nat bool
  | Statistics_result nat "(event_type \<times> nat) list" nat nat nat
  | Subscribed_result string "event_type list" "string list" "int list"
  | Unsubscribed_result bool
  | Cancelled_result string
  | Status_unknown_result string

datatype rpc_response = Rpc_result json rpc_result | Rpc_error json int string "string option"

record api_state =
  ap_system :: sub_system
  ap_history :: event_history
  ap_limits :: "(string \<times> nat \<times> int) list"
  ap_timers :: "(int \<times> event_message) list"

definition ALL_EVENT_TYPES :: "event_type list" where
  "ALL_EVENT_TYPES = [OrderCreated, OrderInvalid, OrderBalanceChange, OrderAllowanceChange, OrderFilled, OrderFilledPartially,
    OrderCancelled, SecretShared, ProgressUpdate, RecommendationGenerated, FragmentReady, RecoveryEvent]"

definition RPC_METHODS :: "string list" where
  "RPC_METHODS = [''ping'', ''getAllowedMethods'', ''getActiveOrders'', ''getSecrets'', ''getEventHistory'', ''getStatistics'',
    ''subscribe'', ''unsubscribe'', ''submitOrder'', ''cancelOrder'', ''getOrderStatus'']"

definition known_types :: "string list \<Rightarrow> event_type list" where
  "known_types ts = map (\<lambda>t. the (find (\<lambda>e. event_type_str e = t) ALL_EVENT_TYPES))
    (filter (\<lambda>t. find (\<lambda>e. event_type_str e = t) ALL_EVENT_TYPES \<noteq> None) ts)"

section \<open>RPC methods\<close>

definition RATE_LIMIT_WINDOW :: int where
  "RATE_LIMIT_WINDOW = 60000"

definition RATE_LIMIT_MAX :: nat where
  "RATE_LIMIT_MAX = 100"

definition checkRateLimit :: "int \<Rightarrow> string \<Rightarrow> (string \<times> nat \<times> int) list \<Rightarrow> bool \<times> (string \<times> nat \<times> int) list" where
  "checkRateLimit now clientId limits =
    (let fresh = (True, AList.update clientId (1, now + RATE_LIMIT_WINDOW) limits)
     in case map_of limits clientId of None \<Rightarrow> fresh
        | Some (n, resetTime) \<Rightarrow>
            if now > resetTime then fresh
            else if n \<ge> RATE_LIMIT_MAX then (False, limits)
            else (True, AList.update clientId (n + 1, resetTime) limits))"

definition handleGetEventHistory :: "string list option \<Rightarrow> string option \<Rightarrow> nat option \<Rightarrow> nat option \<Rightarrow> int option
    \<Rightarrow> string event_manager \<Rightarrow> rpc_result" where
  "handleGetEventHistory eventTypes orderHash limit offset since bus =
    (let limit = (case limit of None \<Rightarrow> 100 | Some n \<Rightarrow> n); offset = (case offset of None \<Rightarrow> 0 | Some n \<Rightarrow> n);
         events = getEventHistory (map_option known_types eventTypes) orderHash limit offset bus;
         shown = (if given_id since then filter (\<lambda>e. em_timestamp e \<ge> the since) events else events)
     in Events_result shown (length shown) limit offset (offset + limit < length shown))"

definition handleGetStatistics :: "int \<Rightarrow> string event_manager \<Rightarrow> rpc_result" where
  "handleGetStatistics now bus =
    Statistics_result (length (mg_history bus))
      (map (\<lambda>ty. (ty, length (filter (\<lambda>e. em_type e = ty) (mg_history bus)))) ALL_EVENT_TYPES)
      (length (mg_listeners bus)) (length (filter (\<lambda>e. em_timestamp e > now - 3600000) (mg_history bus))) 0"

definition handleSubscribe :: "string \<Rightarrow> string list option \<Rightarrow> string list option \<Rightarrow> int list option \<Rightarrow> string event_manager
    \<Rightarrow> (string + rpc_result) \<times> string event_manager" where
  "handleSubscribe lid events orderHashes chainIds bus =
    (case events of None \<Rightarrow> (Inl ''events array is required'', bus)
     | Some ts \<Rightarrow>
        if known_types ts = [] then (Inl ''No valid events specified'', bus)
        else (Inr (Subscribed_result lid (known_types ts) (case orderHashes of None \<Rightarrow> [] | Some hs \<Rightarrow> hs)
                (case chainIds of None \<Rightarrow> [] | Some cs \<Rightarrow> cs)),
              addEventListener lid \<lparr>el_types = set (known_types ts),
                el_filters = \<lparr>lf_orderHashes = map_option set orderHashes, lf_resolvers = None, lf_chainIds = map_option set chainIds\<rparr>,
                el_callback = []\<rparr> bus))"

definition handleUnsubscribe :: "string option \<Rightarrow> string event_manager \<Rightarrow> rpc_result \<times> string event_manager" where
  "handleUnsubscribe listenerId bus =
    (if given listenerId then map_prod Unsubscribed_result id (removeEventListener (the listenerId) bus)
     else (Unsubscribed_result True, bus))"

definition required_hash :: "string option \<Rightarrow> (string \<Rightarrow> rpc_result) \<Rightarrow> string + rpc_result" where
  "required_hash orderHash f = (if given orderHash then Inr (f (the orderHash)) else Inl ''orderHash is required'')"

definition handleMethod :: "int \<Rightarrow> string \<Rightarrow> rpc_call \<Rightarrow> string event_manager \<Rightarrow> (string + rpc_result) \<times> string event_manager" where
  "handleMethod now lid call bus =
    (case call of
       Rpc_ping \<Rightarrow> (Inr Pong_result, bus)
     | Rpc_allowedMethods \<Rightarrow> (Inr (Methods_result RPC_METHODS ALL_EVENT_TYPES), bus)
     | Rpc_activeOrders \<Rightarrow> (Inr No_orders_result, bus)
     | Rpc_secrets h \<Rightarrow> (required_hash h Secrets_result, bus)
     | Rpc_eventHistory ts h limit offset since \<Rightarrow> (Inr (handleGetEventHistory ts h limit offset since bus), bus)
     | Rpc_statistics \<Rightarrow> (Inr (handleGetStatistics now bus), bus)
     | Rpc_subscribe ts hs cs \<Rightarrow> handleSubscribe lid ts hs cs bus
     | Rpc_unsubscribe l \<Rightarrow> apfst Inr (handleUnsubscribe l bus)
     | Rpc_submitOrder \<Rightarrow> (Inl ''submitOrder is not available on this coordinator build. Use the v2 REST endpoint /api/orders/create.'', bus)
     | Rpc_cancelOrder h \<Rightarrow> (required_hash h Cancelled_result, bus)
     | Rpc_orderStatus h \<Rightarrow> (required_hash h Status_unknown_result, bus)
     | Rpc_unknown m \<Rightarrow> (Inl (''Unknown method: '' @ m), bus))"

definition validateRequest :: "json \<Rightarrow> rpc_call \<Rightarrow> bool" where
  "validateRequest rid call \<longleftrightarrow>
    rid \<notin> {JNull, JBool False, JNum 0, JStr []} \<and> (case call of Rpc_unknown m \<Rightarrow> False | _ \<Rightarrow> True)"

definition on_bus :: "(string event_manager \<Rightarrow> string event_manager) \<Rightarrow> api_state \<Rightarrow> api_state" where
  "on_bus f s = s\<lparr>ap_system := (ap_system s)\<lparr>sy_bus := f (sy_bus (ap_system s))\<rparr>\<rparr>"

definition handleRpcRequest :: "int \<Rightarrow> string \<Rightarrow> json \<Rightarrow> rpc_call \<Rightarrow> string \<Rightarrow> api_state \<Rightarrow> rpc_response \<times> api_state" where
  "handleRpcRequest now lid rid call clientId s =
    (let (passes, limits) = checkRateLimit now clientId (ap_limits s); s1 = s\<lparr>ap_limits := limits\<rparr>
     in if \<not> passes then (Rpc_error rid (- 32002) ''Rate limited'' None, s1)
        else if \<not> validateRequest rid call then (Rpc_error rid (- 32600) ''Invalid Request'' None, s1)
        else case handleMethod now lid call (sy_bus (ap_system s1)) of
            (Inl e, bus) \<Rightarrow> (Rpc_error rid (- 32603) ''Internal error'' (Some e), s1)
          | (Inr r, bus) \<Rightarrow> (Rpc_result rid r, on_bus (\<lambda>_. bus) s1))"

section \<open>Routes\<close>

datatype api_reply =
    Api_error nat string
  | Rpc_reply rpc_response "json option"
  | Triggered_reply nat
  | Events_reply "event_message list"
  | Subscribed_reply string

definition falsy_id :: "json option \<Rightarrow> bool" where
  "falsy_id v \<longleftrightarrow> v \<in> {None, Some JNull, Some (JBool False), Some (JNum 0), Some (JStr [])}"

definition post_rpc :: "int \<Rightarrow> string \<Rightarrow> json option \<Rightarrow> rpc_call option \<Rightarrow> api_state \<Rightarrow> api_reply \<times> api_state" where
  "post_rpc now lid rid call s =
    (case call of None \<Rightarrow> (Api_error 400 ''Invalid Request'', s)
     | Some c \<Rightarrow>
        (let (r, s') = handleRpcRequest now lid (if falsy_id rid then JStr ''test-req'' else the rid) c ''test-client'' s
         in (Rpc_reply r (if falsy_id rid then None else rid), s')))"

text \<open>\<open>emitEvent\<close> with the listeners of the bus and the history behind \<open>any\<close>.\<close>

definition emit_any :: "int \<Rightarrow> event_message \<Rightarrow> api_state \<Rightarrow> api_state" where
  "emit_any now ev s = s\<lparr>ap_system := sub_step (Emit now ev) (ap_system s), ap_history := addEvent now ev (ap_history s)\<rparr>"

definition test_event :: "string \<Rightarrow> int \<Rightarrow> event_type \<Rightarrow> string \<Rightarrow> event_metadata \<Rightarrow> event_message" where
  "test_event eid now ty orderHash m =
    \<lparr>em_id = eid, em_type = ty, em_timestamp = now, em_data = JObj [(''orderHash'', JStr orderHash)], em_metadata = m\<rparr>"

text \<open>Four events for a test order: one now, two partial fills and the end after one, two and three seconds.\<close>

definition triggerTestEvents :: "int \<Rightarrow> string \<Rightarrow> string \<Rightarrow> api_state \<Rightarrow> api_state" where
  "triggerTestEvents now eid orderHash s =
    (let m = \<lparr>md_orderHash = Some orderHash, md_resolver = None, md_chainId = None, md_urgent = False\<rparr>;
         filler = m\<lparr>md_resolver := Some ''0x742d35Cc6634C0532925a3b8D400e1e4dff7D88e''\<rparr>;
         s' = emit_any now (test_event eid now OrderCreated orderHash (m\<lparr>md_chainId := Some 1\<rparr>)) s
     in s'\<lparr>ap_timers := ap_timers s' @
          [(now + 1000, test_event (eid @ ''1'') (now + 1000) OrderFilledPartially orderHash filler),
           (now + 2000, test_event (eid @ ''2'') (now + 2000) OrderFilledPartially orderHash filler),
           (now + 3000, test_event (eid @ ''3'') (now + 3000) OrderFilled orderHash (m\<lparr>md_urgent := True\<rparr>))]\<rparr>)"

definition post_trigger :: "int \<Rightarrow> string \<Rightarrow> string option \<Rightarrow> nat option \<Rightarrow> api_state \<Rightarrow> api_reply \<times> api_state" where
  "post_trigger now eid eventType n s =
    (if \<not> given eventType then (Api_error 400 ''Event type is required'', s)
     else let rounds = (case n of None \<Rightarrow> 1 | Some k \<Rightarrow> k)
       in (Triggered_reply rounds,
           fold (\<lambda>i. triggerTestEvents now (eid @ show_nat i) (''test-order-'' @ show_int now @ ''-'' @ show_nat i)) [0..<rounds] s))"

definition get_events :: "nat option \<Rightarrow> nat option \<Rightarrow> event_type option \<Rightarrow> string option \<Rightarrow> api_state \<Rightarrow> api_reply \<times> api_state" where
  "get_events limit offset eventType orderId s =
    (let (page, h) = queryEvents \<lparr>eq_types = map_option (\<lambda>t. [t]) eventType,
           eq_orderHashes = (if given orderId then Some [the orderId] else None), eq_resolvers = None, eq_chainIds = None,
           eq_timeRange = None, eq_limit = (case limit of None \<Rightarrow> 50 | Some n \<Rightarrow> n), eq_offset = (case offset of None \<Rightarrow> 0 | Some n \<Rightarrow> n),
           eq_sortBy = By_timestamp, eq_sortOrder = Desc\<rparr> (ap_history s)
     in (Events_reply (qp_events page), s\<lparr>ap_history := h\<rparr>))"

definition post_subscribe :: "int \<Rightarrow> string \<Rightarrow> string \<Rightarrow> string option \<Rightarrow> event_type list option \<Rightarrow> string list option
    \<Rightarrow> string list option \<Rightarrow> int list option \<Rightarrow> api_state \<Rightarrow> api_reply \<times> api_state" where
  "post_subscribe now sid lid clientId events orderIds resolvers chainList s =
    (if \<not> given clientId then (Api_error 400 ''Client ID is required'', s)
     else let items = (\<lambda>xs. case xs of None \<Rightarrow> {} | Some ys \<Rightarrow> set ys);
         rq = \<lparr>rs_clientId = the clientId, rs_eventTypes = Some (case events of None \<Rightarrow> {} | Some ts \<Rightarrow> set ts),
           rs_filters = Some (no_filters\<lparr>sf_orderHashes := Some (items orderIds), sf_resolvers := Some (items resolvers),
             sf_chainIds := Some (case chainList of None \<Rightarrow> {} | Some cs \<Rightarrow> set cs)\<rparr>), rs_priority = None\<rparr>;
         y = ap_system s; (r, m, bus) = createSubscription now sid lid rq (sy_manager y, sy_bus y)
       in ((case r of Inl e \<Rightarrow> Api_error 500 ''Failed to create subscription'' | Inr i \<Rightarrow> Subscribed_reply i),
           s\<lparr>ap_system := y\<lparr>sy_manager := m, sy_bus := bus\<rparr>\<rparr>))"

section \<open>Runs\<close>

text \<open>What happens to the event system of the process: requests, timers, and the events and timers of the subscriptions.\<close>

datatype api_input =
    Post_rpc int string "json option" "rpc_call option"
  | Post_trigger int string "string option" "nat option"
  | Get_events "nat option" "nat option" "event_type option" "string option"
  | Post_subscribe int string string "string option" "event_type list option" "string list option" "string list option" "int list option"
  | Timer_due int nat
  | Other_event int event_message
  | Deliveries "int option"
  | Sub_timer bool int

fun api_step :: "api_input \<Rightarrow> api_state \<Rightarrow> api_reply option \<times> api_state" where
  "api_step (Post_rpc now lid rid call) s = apfst Some (post_rpc now lid rid call s)"
| "api_step (Post_trigger now eid ty n) s = apfst Some (post_trigger now eid ty n s)"
| "api_step (Get_events limit offset ty key) s = apfst Some (get_events limit offset ty key s)"
| "api_step (Post_subscribe now sid lid cid ts hs rs cs) s = apfst Some (post_subscribe now sid lid cid ts hs rs cs s)"
| "api_step (Timer_due now i) s =
    (None, if i < length (ap_timers s) \<and> fst (ap_timers s ! i) \<le> now
       then emit_any now ((snd (ap_timers s ! i))\<lparr>em_timestamp := now\<rparr>)
         (s\<lparr>ap_timers := take i (ap_timers s) @ drop (Suc i) (ap_timers s)\<rparr>)
       else s)"
| "api_step (Other_event now ev) s = (None, emit_any now ev s)"
| "api_step (Deliveries now) s =
    (None, s\<lparr>ap_system := sub_step (case now of None \<Rightarrow> Start_run | Some t \<Rightarrow> Next_delivery t) (ap_system s)\<rparr>)"
| "api_step (Sub_timer cleanup now) s =
    (None, s\<lparr>ap_system := sub_step (if cleanup then Cleanup now else Reset_quotas now) (ap_system s)\<rparr>)"

definition new_api :: "history_config \<Rightarrow> subscription_config \<Rightarrow> api_state" where
  "new_api hcfg scfg = \<lparr>ap_system = new_system scfg, ap_history = new_history hcfg, ap_limits = [], ap_timers = []\<rparr>"

definition api_run :: "api_input list \<Rightarrow> api_state \<Rightarrow> api_state" where
  "api_run inputs s = fold (\<lambda>i s. snd (api_step i s)) inputs s"

section \<open>What the routes can and cannot do\<close>

text \<open>The pages of the RPC history end after the first one. Whatever the history holds, a reply to a request for a positive number
  of events says that there are no more; only a request for zero events, which is answered with up to 100, says otherwise.\<close>

theorem rpc_history_never_continues:
  assumes "handleRpcRequest now lid rid (Rpc_eventHistory ts h limit offset since) clientId s
    = (Rpc_result rid (Events_result shown count n k hasMore), s')"
  shows "(hasMore \<longleftrightarrow> n = 0 \<and> k < count) \<and> count \<le> (if n = 0 then 100 else n)"
proof -
  have r: "Events_result shown count n k hasMore = handleGetEventHistory ts h limit offset since (sy_bus (ap_system s))"
    using assms by (auto simp: handleRpcRequest_def handleMethod_def Let_def split: if_splits prod.splits)
  have len: "length (if given_id since then filter (\<lambda>e. em_timestamp e \<ge> the since) es else es) \<le> m" if "length es \<le> m" for es :: "event_message list" and m
    using that le_trans[OF length_filter_le] by auto
  have page: "length (getEventHistory x y n k bus) \<le> (if n = 0 then 100 else n)" for x y and bus :: "string event_manager"
    by (auto simp: getEventHistory_def Let_def)
  have "count \<le> (if n = 0 then 100 else n)" using r len[OF page] by (auto simp: handleGetEventHistory_def Let_def)
  then show ?thesis using r by (auto simp: handleGetEventHistory_def Let_def split: if_splits)
qed


text \<open>The subscriptions hold no client and no event, so there is nothing to deliver.\<close>

definition nobody :: "sub_system \<Rightarrow> bool" where
  "nobody y \<longleftrightarrow> sm_clients (sy_manager y) = [] \<and> sm_queue (sy_manager y) = [] \<and> sm_run (sy_manager y) = None \<and> sy_delivered y = []"

lemma nobody_emit: "nobody y \<Longrightarrow> nobody (sub_step (Emit now ev) y)"
proof -
  have "sm_clients m = [] \<and> sm_queue m = [] \<and> sm_run m = None \<Longrightarrow>
      sm_clients (fold (\<lambda>c. handleEventForSubscription now c ev) cs m) = []
      \<and> sm_queue (fold (\<lambda>c. handleEventForSubscription now c ev) cs m) = []
      \<and> sm_run (fold (\<lambda>c. handleEventForSubscription now c ev) cs m) = None" for cs m
    by (induction cs arbitrary: m) (auto simp: handleEventForSubscription_def split: option.splits)
  then show "nobody y \<Longrightarrow> ?thesis" by (auto simp: nobody_def emitEvent_def)
qed

lemma nobody_emit_any: "nobody (ap_system s) \<Longrightarrow> nobody (ap_system (emit_any now ev s))"
  using nobody_emit by (simp add: emit_any_def)

lemma nobody_trigger: "nobody (ap_system s) \<Longrightarrow> nobody (ap_system (triggerTestEvents now eid key s))"
  by (simp add: triggerTestEvents_def Let_def nobody_emit_any)

lemma nobody_rpc: "nobody (ap_system s) \<Longrightarrow> nobody (ap_system (snd (handleRpcRequest now lid rid call cid s)))"
  by (auto simp: handleRpcRequest_def nobody_def on_bus_def Let_def split: prod.splits sum.splits)

lemma nobody_subscribe:
  assumes "nobody (ap_system s)"
  shows "post_subscribe now sid lid cid ts hs rs cs s =
    (if given cid then Api_error 500 ''Failed to create subscription'' else Api_error 400 ''Client ID is required'', s)"
  using assms by (auto simp: post_subscribe_def createSubscription_def nobody_def)

lemma nobody_step: "nobody (ap_system s) \<Longrightarrow> nobody (ap_system (snd (api_step i s)))"
proof (cases i)
  case (Post_rpc now lid rid call)
  then show "nobody (ap_system s) \<Longrightarrow> ?thesis" using nobody_rpc
    by (auto simp: post_rpc_def Let_def split: option.splits prod.splits) (metis snd_conv)+
next
  case (Post_trigger now eid ty n)
  have "nobody (ap_system s) \<Longrightarrow> nobody (ap_system (fold (\<lambda>i. triggerTestEvents now (a i) (b i)) xs s))" for a b s and xs :: "nat list"
    by (induction xs arbitrary: s) (auto intro: nobody_trigger)
  then show "nobody (ap_system s) \<Longrightarrow> ?thesis" using Post_trigger by (simp add: post_trigger_def Let_def)
next
  case (Get_events limit offset ty key)
  then show "nobody (ap_system s) \<Longrightarrow> ?thesis" by (auto simp: get_events_def split: prod.splits)
next
  case (Deliveries now)
  then show "nobody (ap_system s) \<Longrightarrow> ?thesis"
    by (cases now) (auto simp: nobody_def on_manager_def start_run_def next_delivery_def)
next
  case (Sub_timer cleanup now)
  then show "nobody (ap_system s) \<Longrightarrow> ?thesis"
    by (cases cleanup) (auto simp: nobody_def on_manager_def cleanupInactiveSubscriptions_def resetQuotas_def)
qed (simp_all add: nobody_subscribe nobody_emit_any)

text \<open>Nobody can subscribe over HTTP. Whatever requests, timers and events came before, a request to subscribe is answered
  with an error, 500 when it names a client, because no route registers a client; so no event is ever queued or delivered.\<close>

theorem subscribe_never_succeeds:
  "(let s = api_run inputs (new_api hcfg scfg)
    in fst (api_step (Post_subscribe now sid lid cid ts hs rs cs) s)
         = Some (if given cid then Api_error 500 ''Failed to create subscription'' else Api_error 400 ''Client ID is required'')
      \<and> sy_delivered (ap_system s) = [] \<and> sm_queue (sy_manager (ap_system s)) = [])"
proof -
  have "nobody (ap_system (api_run inputs (new_api hcfg scfg)))"
    by (induction inputs rule: rev_induct)
      (simp_all add: api_run_def nobody_step, simp add: nobody_def new_api_def new_system_def)
  then show ?thesis by (simp add: nobody_subscribe) (simp add: nobody_def)
qed


section \<open>Samples\<close>

definition two_events :: api_state where
  "two_events =
    (let e = \<lparr>em_id = ''a'', em_type = OrderFilled, em_timestamp = 5, em_data = JNull,
        em_metadata = \<lparr>md_orderHash = None, md_resolver = None, md_chainId = None, md_urgent = False\<rparr>\<rparr>
     in \<lparr>ap_system = \<lparr>sy_manager = sy_manager (new_system \<lparr>sc_maxSubscriptionsPerClient = 5, sc_subscriptionTimeout = 60000\<rparr>),
           sy_bus = \<lparr>mg_listeners = [], mg_history = [e, e\<lparr>em_id := ''b''\<rparr>]\<rparr>, sy_delivered = []\<rparr>,
         ap_history = new_history \<lparr>hcf_maxMemoryEvents = 10, hcf_indexingEnabled = False, hcf_archiveAfterDays = 1\<rparr>,
         ap_limits = [], ap_timers = []\<rparr>)"

theorem rpc_history_never_continues_witness:
  "\<exists>shown s'. handleRpcRequest 0 ''l'' (JStr ''1'') (Rpc_eventHistory None None (Some 1) None None) ''c'' two_events
      = (Rpc_result (JStr ''1'') (Events_result shown 1 1 0 False), s')
    \<and> length (mg_history (sy_bus (ap_system two_events))) = 2"
proof -
  obtain shown count hasMore s' where r: "handleRpcRequest 0 ''l'' (JStr ''1'') (Rpc_eventHistory None None (Some 1) None None) ''c'' two_events
      = (Rpc_result (JStr ''1'') (Events_result shown count 1 0 hasMore), s')" "count = 1"
    by (auto simp: handleRpcRequest_def checkRateLimit_def two_events_def validateRequest_def handleMethod_def handleGetEventHistory_def
        getEventHistory_def given_def given_id_def Let_def)
  moreover have "length (mg_history (sy_bus (ap_system two_events))) = 2" by (simp add: two_events_def Let_def)
  ultimately show ?thesis using rpc_history_never_continues[OF r(1)] by auto
qed

text \<open>All callers of the route are one client of the rate limit, so any of them shuts out the others.\<close>

lemma rpc_limit_is_shared:
  "map_of (ap_limits s) ''test-client'' = Some (100, t) \<Longrightarrow> now \<le> t \<Longrightarrow>
    fst (post_rpc now lid rid (Some call) s)
      = Rpc_reply (Rpc_error (if falsy_id rid then JStr ''test-req'' else the rid) (- 32002) ''Rate limited'' None) (if falsy_id rid then None else rid)"
  by (simp add: post_rpc_def handleRpcRequest_def checkRateLimit_def RATE_LIMIT_MAX_def Let_def)

end
