(* ===== verification/Gas_Tracker.thy ===== *)
theory Gas_Tracker
  imports Js_Arith
begin

text \<open>
  The gas prices of the relayer (\<open>relayer/src/gas-tracker.ts\<close>, class \<open>GasPriceTracker\<close>): the current prices, their history,
  the trend, the recommendation for an auction and the statistics.

  \<^item> Prices are texts of integers, not negative, that every reader turns into a \<open>BigInt\<close>; the model has the integers.
  \<^item> The simulated market comes with an update: the base price and the congestion score after their random terms, and the block number.
  \<^item> The start of the relayer calls \<open>startMonitoring\<close>: an update at once and one every 30 seconds. The timer is left out.
  \<^item> The volatility and log lines are left out.
\<close>

record gas_price =
  gp_slow :: int
  gp_standard :: int
  gp_fast :: int
  gp_instant :: int
  gp_baseFee :: int
  gp_priorityFee :: int
  gp_timestamp :: int

datatype congestion_level = Low_congestion | Medium_congestion | High_congestion | Extreme_congestion

record network_congestion =
  nc_level :: congestion_level
  nc_score :: js_number
  nc_pending :: int
  nc_utilization :: js_number
  nc_wait :: int

record gas_entry =
  ge_timestamp :: int
  ge_price :: int
  ge_baseFee :: int
  ge_priorityFee :: int
  ge_block :: int

record gas_tracker =
  gt_current :: gas_price
  gt_history :: "gas_entry list"
  gt_congestion :: network_congestion
  gt_monitoring :: bool

definition GAS_HISTORY_SIZE :: nat where
  "GAS_HISTORY_SIZE = 100"

definition default_gas_price :: "int \<Rightarrow> gas_price" where
  "default_gas_price now = \<lparr>gp_slow = 15, gp_standard = 20, gp_fast = 25, gp_instant = 30, gp_baseFee = 16, gp_priorityFee = 4,
     gp_timestamp = now\<rparr>"

definition default_congestion :: network_congestion where
  "default_congestion = \<lparr>nc_level = Medium_congestion, nc_score = decimal_value 5 (- 1), nc_pending = 75000,
     nc_utilization = Fin 70, nc_wait = 45\<rparr>"

definition new_gas_tracker :: "int \<Rightarrow> gas_tracker" where
  "new_gas_tracker now = \<lparr>gt_current = default_gas_price now, gt_history = [], gt_congestion = default_congestion, gt_monitoring = False\<rparr>"

section \<open>Updates\<close>

text \<open>\<open>Math.floor\<close> of a finite number.\<close>

fun js_floor :: "js_number \<Rightarrow> int" where
  "js_floor (Fin q) = \<lfloor>q\<rfloor>"
| "js_floor x = 0"

definition js_add :: "js_number \<Rightarrow> js_number \<Rightarrow> js_number" where
  "js_add x y = js_sub x (negated y)"

definition fetchMockGasPrice :: "int \<Rightarrow> js_number \<Rightarrow> gas_price" where
  "fetchMockGasPrice now base =
    (let part = (\<lambda>tenths. js_mult base (decimal_value tenths (- 1)))
     in \<lparr>gp_slow = js_floor (part 8), gp_standard = js_floor base, gp_fast = js_floor (part 12), gp_instant = js_floor (part 15),
         gp_baseFee = js_floor (js_max (Fin 1) (part 8)), gp_priorityFee = js_floor (js_max (Fin 1) (part 2)), gp_timestamp = now\<rparr>)"

definition congestion_of :: "js_number \<Rightarrow> congestion_level" where
  "congestion_of score =
    (if js_less score (decimal_value 3 (- 1)) then Low_congestion
     else if js_less score (decimal_value 6 (- 1)) then Medium_congestion
     else if js_less score (decimal_value 8 (- 1)) then High_congestion
     else Extreme_congestion)"

definition base_score :: "nat \<Rightarrow> js_number" where
  "base_score hour = (if hour \<in> {9..11} \<union> {14..16} \<union> {19..21} then decimal_value 7 (- 1) else decimal_value 3 (- 1))"

definition fetchMockCongestion :: "nat \<Rightarrow> js_number \<Rightarrow> network_congestion" where
  "fetchMockCongestion hour randomFactor =
    (let score = js_max (Fin 0) (js_min (Fin 1) (js_add (base_score hour) randomFactor))
     in \<lparr>nc_level = congestion_of score, nc_score = score,
         nc_pending = js_floor (js_add (Fin 50000) (js_mult score (Fin 100000))),
         nc_utilization = js_min (Fin 100) (js_add (Fin 60) (js_mult score (Fin 35))),
         nc_wait = js_floor (js_add (Fin 15) (js_mult score (Fin 120)))\<rparr>)"

definition updateGasPrices :: "int \<Rightarrow> js_number \<Rightarrow> nat \<Rightarrow> js_number \<Rightarrow> int \<Rightarrow> gas_tracker \<Rightarrow> gas_tracker" where
  "updateGasPrices now base hour randomFactor block g =
    (let p = fetchMockGasPrice now base;
         h = gt_history g @ [\<lparr>ge_timestamp = now, ge_price = gp_standard p, ge_baseFee = gp_baseFee p,
           ge_priorityFee = gp_priorityFee p, ge_block = block\<rparr>]
     in g\<lparr>gt_current := p, gt_congestion := fetchMockCongestion hour randomFactor,
          gt_history := drop (length h - GAS_HISTORY_SIZE) h\<rparr>)"

section \<open>Readers\<close>

definition getGasPriceHistory :: "nat option \<Rightarrow> gas_tracker \<Rightarrow> gas_entry list" where
  "getGasPriceHistory limit g =
    (let h = gt_history g in case limit of None \<Rightarrow> h | Some n \<Rightarrow> if n = 0 then h else drop (length h - n) h)"

text \<open>The multipliers of the code, times a thousand.\<close>

fun congestion_permille :: "congestion_level \<Rightarrow> int" where
  "congestion_permille Low_congestion = 900"
| "congestion_permille Medium_congestion = 1000"
| "congestion_permille High_congestion = 1200"
| "congestion_permille Extreme_congestion = 1500"

datatype price_type = Fast_price | Standard_price | Slow_price

definition price_of_type :: "price_type \<Rightarrow> gas_price \<Rightarrow> int" where
  "price_of_type ty p = (case ty of Fast_price \<Rightarrow> gp_fast p | Standard_price \<Rightarrow> gp_standard p | Slow_price \<Rightarrow> gp_slow p)"

definition getOptimalGasPrice :: "price_type \<Rightarrow> gas_tracker \<Rightarrow> int" where
  "getOptimalGasPrice ty g = price_of_type ty (gt_current g) * congestion_permille (nc_level (gt_congestion g)) div 1000"

datatype gas_trend = Increasing | Decreasing | Stable

definition average_price :: "gas_entry list \<Rightarrow> int" where
  "average_price es = sum_list (map ge_price es) div int (length es)"

definition predictGasPriceTrend :: "gas_tracker \<Rightarrow> gas_trend" where
  "predictGasPriceTrend g =
    (let h = gt_history g; recent = drop (length h - 5) h;
         oldAvg = average_price (take 3 recent); newAvg = average_price (take 3 (drop 2 recent)); threshold = oldAvg div 20
     in if length h < 5 then Stable
        else if newAvg > oldAvg + threshold then Increasing
        else if newAvg < oldAvg - threshold then Decreasing
        else Stable)"

text \<open>Start, end and average price.\<close>

definition getAuctionGasRecommendation :: "gas_tracker \<Rightarrow> int \<times> int \<times> int" where
  "getAuctionGasRecommendation g =
    (let price = gp_standard (gt_current g);
         (a, b) = (case predictGasPriceTrend g of Increasing \<Rightarrow> (1100, 1200) | Decreasing \<Rightarrow> (900, 800) | Stable \<Rightarrow> (1000, 1000));
         startPrice = price * a div 1000; endPrice = price * b div 1000
     in (startPrice, endPrice, (startPrice + endPrice) div 2))"

definition isGasPriceAcceptable :: "int \<Rightarrow> int \<Rightarrow> bool" where
  "isGasPriceAcceptable gasPrice maxAcceptable \<longleftrightarrow> gasPrice \<le> maxAcceptable"

record gas_statistics =
  gs_average :: int
  gs_median :: int
  gs_min :: int
  gs_max :: int

definition getGasPriceStatistics :: "gas_tracker \<Rightarrow> gas_statistics" where
  "getGasPriceStatistics g =
    (if gt_history g = []
     then let c = gp_standard (gt_current g) in \<lparr>gs_average = c, gs_median = c, gs_min = c, gs_max = c\<rparr>
     else let prices = map ge_price (gt_history g); sorted = sort prices
       in \<lparr>gs_average = average_price (gt_history g), gs_median = sorted ! (length sorted div 2), gs_min = hd sorted, gs_max = last sorted\<rparr>)"

section \<open>Bounds\<close>

lemma history_bounded: "length (gt_history (updateGasPrices now base hour r block g)) \<le> 100"
  by (simp add: updateGasPrices_def Let_def GAS_HISTORY_SIZE_def)

lemma sum_list_bounds:
  fixes xs :: "int list"
  assumes "\<forall>x\<in>set xs. lo \<le> x \<and> x \<le> hi"
  shows "lo * int (length xs) \<le> sum_list xs \<and> sum_list xs \<le> hi * int (length xs)"
  using assms by (induction xs) (auto simp: algebra_simps)

text \<open>The statistics are ordered, whatever was recorded.\<close>

lemma gas_statistics_ordered:
  "gs_min (getGasPriceStatistics g) \<le> gs_median (getGasPriceStatistics g) \<and> gs_median (getGasPriceStatistics g) \<le> gs_max (getGasPriceStatistics g)
    \<and> gs_min (getGasPriceStatistics g) \<le> gs_average (getGasPriceStatistics g) \<and> gs_average (getGasPriceStatistics g) \<le> gs_max (getGasPriceStatistics g)"
proof (cases "gt_history g = []")
  case False
  let ?p = "map ge_price (gt_history g)"
  let ?s = "sort ?p"
  have l: "length ?s = length (gt_history g)" by simp
  then have ne: "?s \<noteq> []" "length ?s > 0" using False by (metis length_0_conv, metis length_greater_0_conv)
  have b: "hd ?s \<le> x \<and> x \<le> last ?s" if "x \<in> set ?s" for x
  proof -
    obtain i where i: "i < length ?s" "x = ?s ! i" using \<open>x \<in> set ?s\<close> by (metis in_set_conv_nth)
    have "?s ! 0 \<le> ?s ! i" by (rule sorted_nth_mono) (use i in simp_all)
    moreover have "?s ! i \<le> ?s ! (length ?s - 1)" by (rule sorted_nth_mono) (use i in simp_all)
    ultimately show ?thesis unfolding hd_conv_nth[OF ne(1)] last_conv_nth[OF ne(1)] i(2) by blast
  qed
  have "?s ! (length ?s div 2) \<in> set ?s" using ne by (intro nth_mem) simp
  moreover have "hd ?s \<le> average_price (gt_history g) \<and> average_price (gt_history g) \<le> last ?s"
  proof -
    have "\<forall>x\<in>set ?p. hd ?s \<le> x \<and> x \<le> last ?s" using b by simp
    from sum_list_bounds[OF this] have "hd ?s * int (length ?p) \<le> sum_list ?p" "sum_list ?p \<le> last ?s * int (length ?p)" by blast+
    moreover have "int (length ?p) > 0" using False by simp
    ultimately have "hd ?s * int (length ?p) div int (length ?p) \<le> sum_list ?p div int (length ?p)"
      "sum_list ?p div int (length ?p) \<le> last ?s * int (length ?p) div int (length ?p)"
      using zdiv_mono1 by blast+
    then show ?thesis using False by (simp add: average_price_def)
  qed
  ultimately show ?thesis using False b by (simp add: getGasPriceStatistics_def Let_def)
qed (simp add: getGasPriceStatistics_def Let_def)

text \<open>Below 20 the threshold of five percent is 0, and any change is a trend.\<close>

lemma threshold_vanishes:
  "predictGasPriceTrend (g\<lparr>gt_history := map (\<lambda>p. \<lparr>ge_timestamp = 0, ge_price = p, ge_baseFee = 0, ge_priorityFee = 0, ge_block = 0\<rparr>)
    [19, 19, 19, 19, 22]\<rparr>) = Increasing"
  by (simp add: predictGasPriceTrend_def average_price_def Let_def)

end
