(* ===== verification/Preset_Manager.thy ===== *)
theory Preset_Manager
  imports Gas_Tracker Order_Book
begin

text \<open>
  The auction presets of the relayer (\<open>relayer/src/preset-manager.ts\<close>, class \<open>PresetManager\<close>).

  \<^item> Both maps are association lists under the generated ids. The default presets are created with the ids that come with the
    start of the process; a generated id is \<open>preset_\<close> and a random text.
  \<^item> Durations and rate bumps are integers, rates and averages numbers of JavaScript. An update replaces the fields that it
    names; it does not replace the id or the usage data.
\<close>

record preset =
  pr_name :: string
  pr_description :: string
  pr_duration :: int
  pr_rateBump :: int
  pr_points :: "(int \<times> int) list"
  pr_gasBump :: int
  pr_gasPrice :: string
  pr_minAmount :: "string option"
  pr_maxAmount :: "string option"
  pr_chains :: "string list option"
  pr_created :: int
  pr_lastUsed :: int
  pr_usageCount :: nat
  pr_successRate :: js_number

record preset_stats =
  sq_totalQuotes :: nat
  sq_fills :: nat
  sq_averageTime :: js_number

record preset_manager =
  ps_presets :: "(string \<times> preset) list"
  ps_stats :: "(string \<times> preset_stats) list"

definition preset_id :: "string \<Rightarrow> string" where
  "preset_id suffix = ''preset_'' @ suffix"

definition no_stats :: preset_stats where
  "no_stats = \<lparr>sq_totalQuotes = 0, sq_fills = 0, sq_averageTime = Fin 0\<rparr>"

definition createPreset :: "int \<Rightarrow> string \<Rightarrow> preset \<Rightarrow> preset_manager \<Rightarrow> preset_manager" where
  "createPreset now suffix p m =
    m\<lparr>ps_presets := AList.update (preset_id suffix)
        (p\<lparr>pr_created := now, pr_lastUsed := 0, pr_usageCount := 0, pr_successRate := Fin 0\<rparr>) (ps_presets m),
      ps_stats := AList.update (preset_id suffix) no_stats (ps_stats m)\<rparr>"

definition default_preset :: "string \<Rightarrow> string \<Rightarrow> int \<Rightarrow> int \<Rightarrow> (int \<times> int) list \<Rightarrow> int \<Rightarrow> string \<Rightarrow> string \<Rightarrow> string list \<Rightarrow> preset" where
  "default_preset name descr duration bump points gasBump gasPrice minAmount chainNames =
    \<lparr>pr_name = name, pr_description = descr, pr_duration = duration, pr_rateBump = bump, pr_points = points, pr_gasBump = gasBump,
     pr_gasPrice = gasPrice, pr_minAmount = Some minAmount, pr_maxAmount = None, pr_chains = Some chainNames,
     pr_created = 0, pr_lastUsed = 0, pr_usageCount = 0, pr_successRate = Fin 0\<rparr>"

definition DEFAULT_PRESETS :: "preset list" where
  "DEFAULT_PRESETS =
    [default_preset ''fast'' ''Quick execution with higher rate bump'' 120 1000 [(12, 455), (24, 300), (48, 150)] 80 ''30''
       ''1000000000000000'' [''ethereum'', ''polygon'', ''bsc''],
     default_preset ''medium'' ''Balanced execution time and rate'' 180 750 [(18, 375), (36, 250), (72, 125)] 60 ''20''
       ''1000000000000000'' [''ethereum'', ''polygon'', ''bsc'', ''stellar''],
     default_preset ''slow'' ''Patient execution for best rates'' 300 500 [(30, 250), (60, 150), (120, 75)] 40 ''15''
       ''1000000000000000'' [''ethereum'', ''polygon'', ''bsc'', ''stellar'', ''arbitrum''],
     default_preset ''high-value'' ''Optimized for large transactions'' 240 300 [(24, 200), (48, 150), (96, 100), (144, 50)] 50 ''25''
       ''10000000000000000000'' [''ethereum'', ''polygon''],
     default_preset ''low-gas'' ''Optimized for low gas price conditions'' 360 400 [(36, 200), (72, 150), (144, 100), (216, 50)] 30 ''10''
       ''1000000000000000'' [''ethereum'', ''polygon'', ''bsc'', ''stellar'', ''arbitrum'']]"

definition new_preset_manager :: "int \<Rightarrow> (nat \<Rightarrow> string) \<Rightarrow> preset_manager" where
  "new_preset_manager now suffix =
    fold (\<lambda>(i, p). createPreset now (suffix i) p) (enumerate 0 DEFAULT_PRESETS) \<lparr>ps_presets = [], ps_stats = []\<rparr>"

section \<open>Looking up and changing\<close>

definition getPreset :: "string \<Rightarrow> preset_manager \<Rightarrow> preset option" where
  "getPreset i m = map_of (ps_presets m) i"

definition getPresetByName :: "string \<Rightarrow> preset_manager \<Rightarrow> preset option" where
  "getPresetByName name m = find (\<lambda>p. pr_name p = name) (map snd (ps_presets m))"

record preset_update =
  up_name :: "string option"
  up_description :: "string option"
  up_duration :: "int option"
  up_rateBump :: "int option"
  up_points :: "(int \<times> int) list option"
  up_conditions :: "(string option \<times> string option \<times> string list option) option"

definition orElse :: "'a option \<Rightarrow> 'a \<Rightarrow> 'a" where
  "orElse v d = (case v of None \<Rightarrow> d | Some x \<Rightarrow> x)"

definition apply_update :: "preset_update \<Rightarrow> preset \<Rightarrow> preset" where
  "apply_update u p =
    (let (lo, hi, cs) = orElse (up_conditions u) (pr_minAmount p, pr_maxAmount p, pr_chains p)
     in p\<lparr>pr_name := orElse (up_name u) (pr_name p), pr_description := orElse (up_description u) (pr_description p),
          pr_duration := orElse (up_duration u) (pr_duration p), pr_rateBump := orElse (up_rateBump u) (pr_rateBump p),
          pr_points := orElse (up_points u) (pr_points p), pr_minAmount := lo, pr_maxAmount := hi, pr_chains := cs\<rparr>)"

definition updatePreset :: "string \<Rightarrow> preset_update \<Rightarrow> preset_manager \<Rightarrow> preset option \<times> preset_manager" where
  "updatePreset i u m =
    (case map_of (ps_presets m) i of None \<Rightarrow> (None, m)
     | Some p \<Rightarrow> (Some (apply_update u p), m\<lparr>ps_presets := AList.update i (apply_update u p) (ps_presets m)\<rparr>))"

definition deletePreset :: "string \<Rightarrow> preset_manager \<Rightarrow> bool \<times> preset_manager" where
  "deletePreset i m =
    (if map_of (ps_presets m) i = None then (False, m)
     else (True, m\<lparr>ps_presets := AList.delete i (ps_presets m), ps_stats := AList.delete i (ps_stats m)\<rparr>))"

record auction_config =
  ac_startTime :: int
  ac_duration :: int
  ac_rateBump :: int
  ac_points :: "(int \<times> int) list"
  ac_gasBump :: int
  ac_gasPrice :: int

definition getAuctionConfig :: "gas_tracker \<Rightarrow> int \<Rightarrow> string \<Rightarrow> int option \<Rightarrow> preset_manager \<Rightarrow> auction_config option" where
  "getAuctionConfig gas now i customStart m =
    (case map_of (ps_presets m) i of None \<Rightarrow> None
     | Some p \<Rightarrow> Some \<lparr>ac_startTime = (case customStart of None \<Rightarrow> now + 5 | Some t \<Rightarrow> if t = 0 then now + 5 else t),
         ac_duration = pr_duration p, ac_rateBump = pr_rateBump p, ac_points = pr_points p, ac_gasBump = pr_gasBump p,
         ac_gasPrice = snd (snd (getAuctionGasRecommendation gas))\<rparr>)"

section \<open>Usage\<close>

definition nat_number :: "nat \<Rightarrow> js_number" where
  "nat_number n = Fin (of_nat n)"

definition recordPresetUsage :: "int \<Rightarrow> string \<Rightarrow> js_number \<Rightarrow> bool \<Rightarrow> preset_manager \<Rightarrow> preset_manager" where
  "recordPresetUsage now i executionTime success m =
    (case (map_of (ps_presets m) i, map_of (ps_stats m) i) of
       (Some p, Some st) \<Rightarrow>
         (let n = sq_totalQuotes st + 1; fills = sq_fills st + (if success then 1 else 0);
              average = js_div (js_add (js_mult (sq_averageTime st) (nat_number (n - 1))) executionTime) (nat_number n)
          in m\<lparr>ps_presets := AList.update i (p\<lparr>pr_lastUsed := now, pr_usageCount := pr_usageCount p + 1,
                  pr_successRate := js_div (nat_number fills) (nat_number n)\<rparr>) (ps_presets m),
               ps_stats := AList.update i \<lparr>sq_totalQuotes = n, sq_fills = fills, sq_averageTime = average\<rparr> (ps_stats m)\<rparr>)
     | _ \<Rightarrow> m)"

definition optimized :: "preset_stats \<Rightarrow> preset \<Rightarrow> preset" where
  "optimized st p =
    (let rate = js_div (nat_number (sq_fills st)) (nat_number (sq_totalQuotes st)); d = Fin (of_int (pr_duration p))
     in p\<lparr>pr_rateBump := (if js_less rate (decimal_value 7 (- 1)) then max 200 (pr_rateBump p - 50)
            else if js_less (decimal_value 9 (- 1)) rate then min 1500 (pr_rateBump p + 25) else pr_rateBump p),
          pr_duration := (if js_less (sq_averageTime st) (js_mult d (decimal_value 3 (- 1))) then max 60 (pr_duration p - 30)
            else if js_less (js_mult d (decimal_value 8 (- 1))) (sq_averageTime st) then min 600 (pr_duration p + 30) else pr_duration p)\<rparr>)"

definition optimize_one :: "string \<times> preset_stats \<Rightarrow> (string \<times> preset) list \<Rightarrow> (string \<times> preset) list" where
  "optimize_one = (\<lambda>(i, st) presets.
    case map_of presets i of None \<Rightarrow> presets
    | Some p \<Rightarrow> if sq_totalQuotes st < 10 then presets else AList.update i (optimized st p) presets)"

definition optimizePresets :: "preset_manager \<Rightarrow> preset_manager" where
  "optimizePresets m = m\<lparr>ps_presets := fold optimize_one (ps_stats m) (ps_presets m)\<rparr>"

definition importPresets :: "(string \<times> preset) list \<Rightarrow> (string \<times> preset_stats) list \<Rightarrow> preset_manager \<Rightarrow> preset_manager" where
  "importPresets presets stats m =
    \<lparr>ps_presets = fold (\<lambda>(i, p). AList.update i p) presets [], ps_stats = fold (\<lambda>(i, st). AList.update i st) stats []\<rparr>"

section \<open>Recommendations\<close>

datatype urgency = Low_urgency | Medium_urgency | High_urgency

definition within_amounts :: "int \<Rightarrow> preset \<Rightarrow> string + bool" where
  "within_amounts n p =
    (let bound = (\<lambda>v. if v = None \<or> v = Some [] then Inr None
           else (case BigInt (the v) of None \<Rightarrow> Inl ''Cannot convert to a BigInt'' | Some k \<Rightarrow> Inr (Some k)))
     in case bound (pr_minAmount p) of Inl e \<Rightarrow> Inl e
        | Inr lo \<Rightarrow> if lo \<noteq> None \<and> n < the lo then Inr False
            else (case bound (pr_maxAmount p) of Inl e \<Rightarrow> Inl e | Inr hi \<Rightarrow> Inr (hi = None \<or> n \<le> the hi)))"

definition supports :: "string \<Rightarrow> string \<Rightarrow> preset \<Rightarrow> bool" where
  "supports fromChain toChain p \<longleftrightarrow> (case pr_chains p of None \<Rightarrow> True | Some cs \<Rightarrow> fromChain \<in> set cs \<and> toChain \<in> set cs)"

fun suitable_from :: "int \<Rightarrow> string \<Rightarrow> string \<Rightarrow> preset list \<Rightarrow> string + preset list" where
  "suitable_from n fromChain toChain [] = Inr []"
| "suitable_from n fromChain toChain (p # ps) =
    (case within_amounts n p of Inl e \<Rightarrow> Inl e
     | Inr fits \<Rightarrow> (case suitable_from n fromChain toChain ps of Inl e \<Rightarrow> Inl e
         | Inr qs \<Rightarrow> Inr (if fits \<and> supports fromChain toChain p then p # qs else qs)))"

definition getSuitablePresets :: "string \<Rightarrow> string \<Rightarrow> string \<Rightarrow> preset_manager \<Rightarrow> string + preset list" where
  "getSuitablePresets amount fromChain toChain m =
    (case BigInt amount of None \<Rightarrow> Inl ''Cannot convert to a BigInt''
     | Some n \<Rightarrow> suitable_from n fromChain toChain (map snd (ps_presets m)))"

definition calculatePresetScore :: "int \<Rightarrow> urgency \<Rightarrow> preset \<Rightarrow> js_number" where
  "calculatePresetScore now u p =
    (let s1 = js_mult (pr_successRate p) (Fin 50);
         s2 = js_add s1 (js_mult (js_min (js_div (nat_number (pr_usageCount p)) (Fin 100)) (Fin 1)) (Fin 20));
         s3 = (if u = High_urgency \<and> pr_duration p \<le> 120 then js_add s2 (Fin 20)
               else if u = Medium_urgency \<and> pr_duration p \<le> 180 then js_add s2 (Fin 15)
               else if u = Low_urgency \<and> pr_duration p \<ge> 240 then js_add s2 (Fin 10) else s2);
         days = js_div (Fin (of_int (now - pr_lastUsed p))) (Fin 86400)
     in if js_less days (Fin 7) then js_add s3 (Fin 10) else s3)"

text \<open>The scores are finite; the sort by descending score is stable.\<close>

fun finite_part :: "js_number \<Rightarrow> rat" where
  "finite_part (Fin q) = q"
| "finite_part x = 0"

definition best_preset :: "int \<Rightarrow> urgency \<Rightarrow> preset list \<Rightarrow> preset" where
  "best_preset now u ps = hd (sort_key (\<lambda>p. - finite_part (calculatePresetScore now u p)) ps)"

definition getRecommendedPreset :: "int \<Rightarrow> string \<Rightarrow> string \<Rightarrow> string \<Rightarrow> urgency \<Rightarrow> preset_manager \<Rightarrow> string + preset option" where
  "getRecommendedPreset now amount fromChain toChain u m =
    (case getSuitablePresets amount fromChain toChain m of Inl e \<Rightarrow> Inl e
     | Inr ps \<Rightarrow> Inr (if ps = [] then getPreset ''medium'' m else Some (best_preset now u ps)))"


section \<open>Routes\<close>

text \<open>The preset and gas routes of \<open>index.ts\<close>: a status with a body, and the manager afterwards.\<close>

datatype preset_request =
    Get_presets
  | Get_preset string
  | Post_preset int string preset
  | Put_preset string preset_update
  | Delete_preset_at string
  | Post_recommend int string string string urgency
  | Get_preset_stats string
  | Post_optimize

datatype preset_reply =
    Presets_body "preset list"
  | Preset_body "preset option"
  | Stats_body preset_stats
  | Done_body
  | Failed_body string

definition found_or_404 :: "('a \<Rightarrow> preset_reply) \<Rightarrow> 'a option \<Rightarrow> nat \<times> preset_reply" where
  "found_or_404 body v = (case v of None \<Rightarrow> (404, Failed_body ''Preset not found'') | Some x \<Rightarrow> (200, body x))"

fun preset_route :: "preset_request \<Rightarrow> preset_manager \<Rightarrow> (nat \<times> preset_reply) \<times> preset_manager" where
  "preset_route Get_presets m = ((200, Presets_body (map snd (ps_presets m))), m)"
| "preset_route (Get_preset i) m = (found_or_404 (Preset_body \<circ> Some) (getPreset i m), m)"
| "preset_route (Post_preset now suffix p) m =
    (let m' = createPreset now suffix p m in ((201, Preset_body (getPreset (preset_id suffix) m')), m'))"
| "preset_route (Put_preset i u) m = apfst (found_or_404 (Preset_body \<circ> Some)) (updatePreset i u m)"
| "preset_route (Delete_preset_at i) m =
    (let (deleted, m') = deletePreset i m
     in (if deleted then (200, Done_body) else (404, Failed_body ''Preset not found''), m'))"
| "preset_route (Post_recommend now amount fromChain toChain u) m =
    ((case getRecommendedPreset now amount fromChain toChain u m of
        Inl e \<Rightarrow> (500, Failed_body ''Preset recommendation failed'') | Inr r \<Rightarrow> (200, Preset_body r)), m)"
| "preset_route (Get_preset_stats i) m = (found_or_404 Stats_body (map_of (ps_stats m) i), m)"
| "preset_route Post_optimize m = ((200, Done_body), optimizePresets m)"

datatype gas_request = Get_gas_current | Get_gas_history "nat option" | Get_congestion | Get_gas_recommendation

datatype gas_reply =
    Price_body gas_price
  | History_body "gas_entry list"
  | Congestion_body network_congestion
  | Recommendation_body "int \<times> int \<times> int"

fun gas_route :: "gas_request \<Rightarrow> gas_tracker \<Rightarrow> gas_reply" where
  "gas_route Get_gas_current g = Price_body (gt_current g)"
| "gas_route (Get_gas_history limit) g = History_body (getGasPriceHistory limit g)"
| "gas_route Get_congestion g = Congestion_body (gt_congestion g)"
| "gas_route Get_gas_recommendation g = Recommendation_body (getAuctionGasRecommendation g)"

text \<open>Until the first update, which start-up begins, the routes report the prices the tracker was made with.\<close>

lemma first_recommendation:
  "gas_route Get_gas_recommendation (new_gas_tracker now) = Recommendation_body (20, 20, 20)"
  by (simp add: getAuctionGasRecommendation_def predictGasPriceTrend_def new_gas_tracker_def default_gas_price_def Let_def)

section \<open>Runs\<close>

datatype preset_op =
    Create_preset int string preset
  | Update_preset string preset_update
  | Delete_preset string
  | Record_usage int string js_number bool
  | Optimize_presets

fun preset_step :: "preset_op \<Rightarrow> preset_manager \<Rightarrow> preset_manager" where
  "preset_step (Create_preset now suffix p) m = createPreset now suffix p m"
| "preset_step (Update_preset i u) m = snd (updatePreset i u m)"
| "preset_step (Delete_preset i) m = snd (deletePreset i m)"
| "preset_step (Record_usage now i t success) m = recordPresetUsage now i t success m"
| "preset_step Optimize_presets m = optimizePresets m"

definition preset_run :: "preset_op list \<Rightarrow> preset_manager \<Rightarrow> preset_manager" where
  "preset_run ops m = fold preset_step ops m"

text \<open>Every id in the maps is a generated one.\<close>

definition ids_generated :: "preset_manager \<Rightarrow> bool" where
  "ids_generated m \<longleftrightarrow> (\<forall>i \<in> dom (map_of (ps_presets m)). take 7 i = ''preset_'')"

lemma dom_optimize_one: "dom (map_of (optimize_one st presets)) = dom (map_of presets)"
  by (cases st) (auto simp: optimize_one_def update_conv' split: option.split)

lemma dom_optimize: "dom (map_of (fold optimize_one stats presets)) = dom (map_of presets)"
  by (induction stats arbitrary: presets) (simp_all add: dom_optimize_one)

lemma ids_create: "ids_generated m \<Longrightarrow> ids_generated (createPreset now suffix p m)"
  by (auto simp: ids_generated_def createPreset_def update_conv' preset_id_def)

lemma ids_new: "ids_generated (new_preset_manager now suffix)"
proof -
  have "ids_generated m \<Longrightarrow> ids_generated (fold (\<lambda>(i, p). createPreset now (suffix i) p) xs m)" for xs m
    by (induction xs arbitrary: m) (auto intro: ids_create)
  then show ?thesis by (simp add: new_preset_manager_def ids_generated_def[of "\<lparr>ps_presets = [], ps_stats = []\<rparr>"])
qed

lemma ids_step: "ids_generated m \<Longrightarrow> ids_generated (preset_step i m)"
proof (cases i)
  case (Create_preset now suffix p)
  then show "ids_generated m \<Longrightarrow> ?thesis" by (simp add: ids_create)
next
  case Optimize_presets
  then show "ids_generated m \<Longrightarrow> ?thesis" by (simp add: ids_generated_def optimizePresets_def dom_optimize)
qed (auto simp: ids_generated_def updatePreset_def deletePreset_def recordPresetUsage_def update_conv' delete_conv' Let_def
    split: option.splits)

lemma ids_run: "ids_generated (preset_run ops (new_preset_manager now suffix))"
  by (induction ops rule: rev_induct) (simp_all add: preset_run_def ids_new ids_step)

lemma suitable_from_filter:
  "suitable_from n fromChain toChain ps = Inr qs \<Longrightarrow>
    qs = filter (\<lambda>p. within_amounts n p = Inr True \<and> supports fromChain toChain p) ps"
  by (induction ps arbitrary: qs) (auto split: sum.splits if_splits)

lemma best_preset_max:
  assumes "ps \<noteq> []"
  shows "best_preset now u ps \<in> set ps
    \<and> (\<forall>q\<in>set ps. finite_part (calculatePresetScore now u q) \<le> finite_part (calculatePresetScore now u (best_preset now u ps)))"
proof -
  let ?k = "\<lambda>p. - finite_part (calculatePresetScore now u p)"
  obtain p rest where s: "sort_key ?k ps = p # rest"
    using assms by (metis length_0_conv length_sort list.exhaust)
  have "sorted (map ?k (p # rest))" using sorted_sort_key[of ?k ps] s by simp
  moreover have "set ps = set (p # rest)" by (metis s set_sort)
  ultimately show ?thesis using s by (auto simp: best_preset_def)
qed

text \<open>A recommendation fits the request. After any use of the manager the recommended preset is one of the presets, its
  limits admit the amount, it supports both chains, and no preset that fits has a higher score; none is recommended exactly
  if none fits, because the fallback to the preset called medium looks for that name among the generated ids.\<close>

theorem recommended_preset_fits:
  assumes "getRecommendedPreset now amount fromChain toChain u (preset_run ops (new_preset_manager t suffix)) = Inr r"
  shows "\<exists>n. BigInt amount = Some n \<and>
    (let fit = filter (\<lambda>p. within_amounts n p = Inr True \<and> supports fromChain toChain p)
          (map snd (ps_presets (preset_run ops (new_preset_manager t suffix))))
     in case r of None \<Rightarrow> fit = []
        | Some p \<Rightarrow> p \<in> set fit
            \<and> (\<forall>q\<in>set fit. finite_part (calculatePresetScore now u q) \<le> finite_part (calculatePresetScore now u p)))"
proof -
  let ?m = "preset_run ops (new_preset_manager t suffix)"
  obtain n ps where n: "BigInt amount = Some n" and ps: "suitable_from n fromChain toChain (map snd (ps_presets ?m)) = Inr ps"
    and r: "r = (if ps = [] then getPreset ''medium'' ?m else Some (best_preset now u ps))"
    using assms by (auto simp: getRecommendedPreset_def getSuitablePresets_def split: option.splits sum.splits)
  have "getPreset ''medium'' ?m = None"
    using ids_run[of ops t suffix] unfolding getPreset_def ids_generated_def by (cases "map_of (ps_presets ?m) ''medium''") (force simp: dom_def)+
  then show ?thesis
    using n r suitable_from_filter[OF ps] best_preset_max[of ps now u] by (auto simp: Let_def)
qed

definition sample_preset :: preset where
  "sample_preset = (default_preset ''p'' [] 120 500 [] 10 ''1'' [] [''a''])\<lparr>pr_minAmount := None\<rparr>"

definition sample_preset_ops :: "preset_op list" where
  "sample_preset_ops = map (\<lambda>i. Delete_preset (preset_id (replicate i CHR ''a''))) [0..<5] @ [Create_preset 0 ''x'' sample_preset]"

theorem recommended_preset_fits_witness:
  "(let m = preset_run sample_preset_ops (new_preset_manager 0 (\<lambda>i. replicate i CHR ''a''))
    in sample_preset \<in> set (filter (\<lambda>p. within_amounts 1 p = Inr True \<and> supports ''a'' ''a'' p) (map snd (ps_presets m))))"
proof -
  let ?m = "preset_run sample_preset_ops (new_preset_manager 0 (\<lambda>i. replicate i CHR ''a''))"
  have m: "map snd (ps_presets ?m) = [sample_preset]" by code_simp
  have n: "BigInt ''1'' = Some 1" by code_simp
  have "within_amounts 1 sample_preset = Inr True" "supports ''a'' ''a'' sample_preset"
    by (simp_all add: within_amounts_def supports_def sample_preset_def default_preset_def)
  then have "getRecommendedPreset 0 ''1'' ''a'' ''a'' Low_urgency ?m = Inr (Some sample_preset)"
    by (simp add: getRecommendedPreset_def getSuitablePresets_def n m best_preset_def)
  from recommended_preset_fits[OF this] show ?thesis by (auto simp: n Let_def)
qed

section \<open>Optimizing\<close>

definition in_range :: "preset \<Rightarrow> bool" where
  "in_range p \<longleftrightarrow> 200 \<le> pr_rateBump p \<and> pr_rateBump p \<le> 1500 \<and> 60 \<le> pr_duration p \<and> pr_duration p \<le> 600"

text \<open>Optimizing keeps presets in range, and moves them by at most one step.\<close>

lemma optimized_in_range:
  "in_range p \<Longrightarrow> in_range (optimized st p) \<and> \<bar>pr_rateBump (optimized st p) - pr_rateBump p\<bar> \<le> 50
    \<and> \<bar>pr_duration (optimized st p) - pr_duration p\<bar> \<le> 30"
  by (auto simp: in_range_def optimized_def Let_def)

end
