(* ===== verification/Quote_Routes.thy ===== *)
theory Quote_Routes
  imports Relay_Quoter
begin

text \<open>
  The quote routes of the relayer (\<open>relayer/src/index.ts\<close>): \<open>POST /quote/receive\<close>, which checks a request of the 1inch format
  with \<open>utils.ts\<close> and has it quoted by \<open>quoter-service.ts\<close>, and \<open>POST /quote/build\<close>. The variant with \<open>GET\<close> does the same
  with texts for numbers and is left out. The fee of a request is \<open>None\<close> where it is missing.
\<close>

datatype quote_reply = Quoted relayer_quote | Built relayer_quote string int | Quote_failed nat string

definition fee_slippage :: "js_number option \<Rightarrow> js_number" where
  "fee_slippage fee =
    (case fee of None \<Rightarrow> decimal_value 5 (- 1)
     | Some x \<Rightarrow> if x = Fin 0 \<or> x = Not_a_number then decimal_value 5 (- 1) else x)"

definition chain_text :: "int option \<Rightarrow> string \<Rightarrow> string" where
  "chain_text c default_name = (case c of None \<Rightarrow> default_name | Some n \<Rightarrow> show_int n)"

definition mapped_params :: "quote_request \<Rightarrow> js_number option \<Rightarrow> swap_request" where
  "mapped_params p fee =
    \<lparr>sw_fromToken = qr_srcTokenAddress p, sw_toToken = qr_dstTokenAddress p, sw_fromChain = chain_text (qr_srcChain p) ''ethereum'',
     sw_toChain = chain_text (qr_dstChain p) ''stellar'', sw_amount = qr_amount p, sw_slippage = fee_slippage fee,
     sw_userAddress = qr_walletAddress p\<rparr>"

definition quote_receive :: "quote_request \<Rightarrow> js_number option \<Rightarrow> string \<Rightarrow> int \<Rightarrow> string \<Rightarrow> relayer_quoter \<Rightarrow> quote_reply \<times> relayer_quoter" where
  "quote_receive p fee gasPrice now qid s =
    (case Order_Book.validateQuoteRequest p of Some e \<Rightarrow> (Quote_failed 400 e, s)
     | None \<Rightarrow> (case getQuote (mapped_params p fee) gasPrice now qid s of
         (Inl e, s') \<Rightarrow> (Quote_failed 500 e, s')
       | (Inr q, s') \<Rightarrow> (Quoted q, s')))"

definition quote_build :: "string option \<Rightarrow> string option \<Rightarrow> int \<Rightarrow> relayer_quoter \<Rightarrow> quote_reply" where
  "quote_build wanted presetName now s =
    (if wanted = None \<or> wanted = Some [] then Quote_failed 400 ''Quote ID is required''
     else case getQuoteById (the wanted) s of None \<Rightarrow> Quote_failed 404 ''Quote not found''
       | Some q \<Rightarrow> Built q (case presetName of None \<Rightarrow> ''fast'' | Some t \<Rightarrow> t) now)"

text \<open>A quote that was served can be built, also after it has expired.\<close>

lemma served_quote_builds:
  assumes "quote_receive p fee gasPrice now qid s = (Quoted q, s')" "qid \<noteq> []"
  shows "quote_build (Some qid) presetName later s' = Built q (case presetName of None \<Rightarrow> ''fast'' | Some t \<Rightarrow> t) later"
proof -
  have "getQuoteById qid s' = Some q"
    using assms(1) by (auto simp: quote_receive_def getQuote_def getQuoteById_def update_conv Let_def
        split: option.splits prod.splits sum.splits)
  then show ?thesis using assms(2) by (simp add: quote_build_def)
qed

text \<open>The check accepts a symbol in any case, the table of prices only in capitals: \<open>eth\<close> is priced like any unknown token.\<close>

lemma lower_case_symbol_at_oracle:
  "isValidTokenAddress ''eth'' \<and> fst (getTokenPrice ''eth'' initializeTokenPrices) = oracle_price
    \<and> fst (getTokenPrice ''ETH'' initializeTokenPrices) \<noteq> oracle_price"
proof
  show "isValidTokenAddress ''eth''" by code_simp
qed (simp add: getTokenPrice_def initializeTokenPrices_def oracle_price_def)

end
