(* ===== verification/Public_Views.thy ===== *)
theory Public_Views
  imports History_Pages
begin

text \<open>
  What leaves the coordinator and what the frontend makes of it: the redaction of responses
  (\<open>coordinator/src/server/public-response-redaction.ts\<close>), the evidence export and the receipts of the frontend
  (\<open>frontend/src/lib/evidence.ts\<close>, \<open>parseHtlcReceipt.ts\<close>), and its amount field (\<open>sanitizeAmountInput.ts\<close>).

  \<^item> \<open>url_of\<close> is \<open>new URL\<close>: \<open>None\<close> for a text that is no URL, otherwise whether it has user information, and its origin.
  \<^item> The environment is a list of names and values. Bodies are JSON values; the bodies of the coordinator have no key twice.
  \<^item> \<open>decode2\<close> and \<open>decode1\<close> are \<open>decodeEventLog\<close> of \<open>viem\<close> for the two contracts.
\<close>

section \<open>Redaction of text\<close>

text \<open>Rewrites every match from left to right; a matcher sees whether a word character stands before.\<close>

function rewrite_from :: "(bool \<Rightarrow> string \<Rightarrow> (string \<times> string) option) \<Rightarrow> bool \<Rightarrow> string \<Rightarrow> string" where
  "rewrite_from M after_word [] = []"
| "rewrite_from M after_word (c # s) =
    (case M after_word (c # s) of
       Some (new, left) \<Rightarrow> if length left \<le> length s then new @ rewrite_from M False left else []
     | None \<Rightarrow> c # rewrite_from M (is_digit c \<or> lower_char c \<in> set ''abcdefghijklmnopqrstuvwxyz_'') s)"
  by pat_completeness auto
termination by (relation "measure (\<lambda>(M, w, s). length s)") auto

definition redacted_mark :: string where
  "redacted_mark = ''[REDACTED]''"

text \<open>\<open>split(secret).join("[REDACTED]")\<close>.\<close>

fun replace_all :: "string \<Rightarrow> string \<Rightarrow> string" where
  "replace_all secret [] = []"
| "replace_all secret (c # s) =
    (if secret \<noteq> [] \<and> take (length secret) (c # s) = secret
     then redacted_mark @ replace_all secret (drop (length secret - 1) s)
     else c # replace_all secret s)"

definition is_token_char :: "char \<Rightarrow> bool" where
  "is_token_char c \<longleftrightarrow> \<not> is_space c \<and> c \<notin> {CHR '','', CHR '';'', CHR 0x22, CHR 0x27}"

definition bearer_match :: "bool \<Rightarrow> string \<Rightarrow> (string \<times> string) option" where
  "bearer_match after_word s =
    (let s1 = drop 6 s; s2 = dropWhile is_space s1
     in if \<not> after_word \<and> toLowerCase (take 6 s) = ''bearer'' \<and> takeWhile is_space s1 \<noteq> [] \<and> takeWhile is_token_char s2 \<noteq> []
        then Some (''Bearer '' @ redacted_mark, dropWhile is_token_char s2) else None)"

definition authorization_match :: "bool \<Rightarrow> string \<Rightarrow> (string \<times> string) option" where
  "authorization_match after_word s =
    (let s1 = dropWhile is_space (drop 13 s); s2 = dropWhile is_space (drop 1 s1)
     in if \<not> after_word \<and> toLowerCase (take 13 s) = ''authorization'' \<and> take 1 s1 \<in> {'':'', ''=''} \<and> takeWhile is_token_char s2 \<noteq> []
        then Some (''Authorization: '' @ redacted_mark, dropWhile is_token_char s2) else None)"

definition is_url_char :: "char \<Rightarrow> bool" where
  "is_url_char c \<longleftrightarrow> \<not> is_space c \<and> c \<notin> {CHR 0x22, CHR 0x27, CHR ''<'', CHR ''>''}"

definition url_schemes :: "string list" where
  "url_schemes = [''https://'', ''http://'', ''wss://'', ''ws://'']"

definition trim_end_punctuation :: "string \<Rightarrow> string" where
  "trim_end_punctuation s = rev (dropWhile (\<lambda>c. c \<in> {CHR '')'', CHR '','', CHR ''.'', CHR '';''}) (rev s))"

definition url_match :: "(string \<Rightarrow> (bool \<times> string) option) \<Rightarrow> bool \<Rightarrow> string \<Rightarrow> (string \<times> string) option" where
  "url_match url_of after_word s =
    (case find (\<lambda>p. toLowerCase (take (length p) s) = p) url_schemes of None \<Rightarrow> None
     | Some p \<Rightarrow>
        (let body = takeWhile is_url_char (drop (length p) s); raw = take (length p) s @ body
         in if body = [] then None
            else Some (case url_of (trim_end_punctuation raw) of Some (True, origin) \<Rightarrow> origin | _ \<Rightarrow> raw,
                       dropWhile is_url_char (drop (length p) s))))"

definition redactText :: "(string \<Rightarrow> (bool \<times> string) option) \<Rightarrow> string list \<Rightarrow> string \<Rightarrow> string" where
  "redactText url_of sensitive s =
    rewrite_from (url_match url_of) False (rewrite_from authorization_match False (rewrite_from bearer_match False
      (fold replace_all sensitive s)))"

section \<open>Redaction of bodies\<close>

definition SENSITIVE_FIELDS :: "string list" where
  "SENSITIVE_FIELDS = [''preimage'', ''authorization'', ''privatekey'', ''private_key'', ''private-key'', ''walletsecret'',
    ''wallet_secret'', ''wallet-secret'', ''bearertoken'', ''bearer_token'', ''bearer-token'']"

definition SENSITIVE_ENV :: "string list" where
  "SENSITIVE_ENV = [''private_key'', ''wallet_secret'', ''bearer_token'', ''service_token'', ''password'', ''api_key'', ''preimage'',
    ''database_url'', ''rpc_url'']"

definition ends_in :: "string \<Rightarrow> string \<Rightarrow> bool" where
  "ends_in suffix s \<longleftrightarrow> length suffix \<le> length s \<and> drop (length s - length suffix) s = suffix"

text \<open>The values to hide: longest first, each once.\<close>

definition collectSensitiveValues :: "(string \<times> string) list \<Rightarrow> string option \<Rightarrow> string list" where
  "collectSensitiveValues env preimage_field =
    (let found = map snd (filter (\<lambda>(name, v). list_ex (\<lambda>e. ends_in e (toLowerCase name)) SENSITIVE_ENV \<and> 4 \<le> length v) env);
         all_values = found @ (case preimage_field of None \<Rightarrow> [] | Some p \<Rightarrow> if 4 \<le> length p then [p] else [])
     in sort_key (\<lambda>v. - int (length v)) (rev (remdups (rev all_values))))"

definition shown_field :: "bool \<Rightarrow> string \<Rightarrow> bool" where
  "shown_field allowPreimage key \<longleftrightarrow>
    (allowPreimage \<and> toLowerCase key = ''preimage'') \<or> toLowerCase key \<notin> set SENSITIVE_FIELDS"

fun redact_body :: "(string \<Rightarrow> string) \<Rightarrow> bool \<Rightarrow> json \<Rightarrow> json" where
  "redact_body hide allowPreimage (JArr vs) = JArr (map (redact_body hide allowPreimage) vs)"
| "redact_body hide allowPreimage (JObj kvs) =
    JObj (map (\<lambda>kv. (fst kv, if allowPreimage \<and> toLowerCase (fst kv) = ''preimage'' then snd kv
                              else redact_body hide allowPreimage (snd kv)))
      (filter (\<lambda>kv. shown_field allowPreimage (fst kv)) kvs))"
| "redact_body hide allowPreimage (JStr s) = JStr (hide s)"
| "redact_body hide allowPreimage v = v"

definition secret_lookup_path :: "string \<Rightarrow> bool" where
  "secret_lookup_path url \<longleftrightarrow>
    (let s = drop 13 url; name = takeWhile (\<lambda>c. c \<noteq> CHR ''/'' \<and> c \<noteq> CHR ''?'') s
     in take 13 url = ''/api/secrets/'' \<and> name \<noteq> [] \<and> (drop (length name) s = [] \<or> hd (drop (length name) s) = CHR ''?''))"

text \<open>What \<open>res.json\<close> sends: \<open>res.send\<close> and \<open>res.end\<close> redact the text once more.\<close>

definition public_json :: "(string \<Rightarrow> (bool \<times> string) option) \<Rightarrow> (string \<times> string) list \<Rightarrow> string option \<Rightarrow> string \<Rightarrow> string \<Rightarrow> nat \<Rightarrow> json \<Rightarrow> string" where
  "public_json url_of env preimage_field reqMethod url code body =
    (let hide = redactText url_of (collectSensitiveValues env preimage_field);
         lookup = (reqMethod = ''GET'' \<and> secret_lookup_path url \<and> code < 400);
         sent = JSON_stringify (redact_body hide lookup body)
     in hide (if lookup
              then (case JSON_parse sent of Some v \<Rightarrow> JSON_stringify (redact_body hide True v) | None \<Rightarrow> hide sent)
              else hide sent))"

section \<open>Orders as bodies\<close>

definition opt_json :: "('a \<Rightarrow> json) \<Rightarrow> 'a option \<Rightarrow> json" where
  "opt_json f v = (case v of None \<Rightarrow> JNull | Some x \<Rightarrow> f x)"

definition leg_json :: "(chain \<Rightarrow> string) \<Rightarrow> string option \<Rightarrow> leg_view \<Rightarrow> json" where
  "leg_json chain_text deposit l =
    JObj ([(''chain'', JStr (chain_text (lv_chain l))), (''address'', JStr (lv_address l)), (''asset'', JStr (lv_asset l)),
       (''amount'', JStr (lv_amount l))]
     @ (case deposit of None \<Rightarrow> [] | Some d \<Rightarrow> [(''safetyDeposit'', JStr d)])
     @ [(''orderId'', opt_json JStr (lv_orderId l)), (''lockTx'', opt_json JStr (lv_lockTx l)),
        (''lockBlock'', opt_json JNum (lv_lockBlock l)), (''timelock'', opt_json JNum (lv_timelock l))])"

text \<open>The object that \<open>serialiseOrder\<close> returns, and the snapshot, with the names of chains, directions and states.\<close>

record order_names =
  on_chain :: "chain \<Rightarrow> string"
  on_direction :: "direction \<Rightarrow> string"
  on_status :: "order_status \<Rightarrow> string"

definition order_body :: "order_names \<Rightarrow> order_view \<Rightarrow> json" where
  "order_body names v =
    JObj [(''id'', JStr (vw_id v)), (''direction'', JStr (on_direction names (vw_direction v))), (''status'', JStr (on_status names (vw_status v))),
      (''hashlock'', JStr (vw_hashlock v)), (''src'', leg_json (on_chain names) (Some (vw_safetyDeposit v)) (vw_src v)),
      (''dst'', leg_json (on_chain names) None (vw_dst v)),
      (''secret'', JObj [(''revealed'', JBool (vw_revealed v)), (''preimage'', opt_json JStr (vw_preimage v)),
        (''revealedTx'', opt_json JStr (vw_revealedTx v))]),
      (''resolver'', opt_json JStr (vw_resolver v)), (''createdAt'', JNum (vw_createdAt v)), (''updatedAt'', JNum (vw_updatedAt v))]"

definition snapshot_body :: "order_names \<Rightarrow> order_snapshot \<Rightarrow> json" where
  "snapshot_body names s =
    JObj [(''orderId'', JStr (sn_orderId s)), (''currentState'', JStr (on_status names (sn_currentState s))),
      (''transitions'', JArr (map JStr (sn_transitions s))), (''publicTxHashes'', JArr (map JStr (sn_publicTxHashes s))),
      (''timestamps'', JObj [(''createdAt'', JNum (sn_createdAt s)), (''updatedAt'', JNum (sn_updatedAt s))]),
      (''direction'', JStr (on_direction names (sn_direction s))), (''outcomeSummary'', JStr (sn_outcomeSummary s))]"

section \<open>Evidence\<close>

record public_evidence =
  pe_orderId :: string
  pe_status :: string
  pe_txHashes :: "string list"
  pe_direction :: "string option"
  pe_transitions :: "json list"
  pe_createdAt :: "json option"
  pe_updatedAt :: "json option"
  pe_outcomeSummary :: "string option"

definition FORBIDDEN_ORDER_FIELDS :: "string list" where
  "FORBIDDEN_ORDER_FIELDS = [''preimage'', ''hashlock'', ''resolver'', ''resolverAddress'']"

definition present :: "json option \<Rightarrow> bool" where
  "present v \<longleftrightarrow> v \<noteq> None \<and> v \<noteq> Some JNull"

fun first_present :: "json option list \<Rightarrow> json option" where
  "first_present [] = None"
| "first_present (v # vs) = (if present v then v else first_present vs)"

definition text_field :: "json option \<Rightarrow> string option" where
  "text_field v = (case v of Some (JStr s) \<Rightarrow> Some s | _ \<Rightarrow> None)"

definition number_field :: "json option \<Rightarrow> json option" where
  "number_field v = (case v of Some (JNum i) \<Rightarrow> v | Some (JFrac t) \<Rightarrow> v | _ \<Rightarrow> None)"

definition is_object :: "json option \<Rightarrow> bool" where
  "is_object v = (case v of Some (JObj kvs) \<Rightarrow> True | Some (JArr vs) \<Rightarrow> True | _ \<Rightarrow> False)"

definition inner :: "json \<Rightarrow> string \<Rightarrow> string \<Rightarrow> json option" where
  "inner raw outer key = Option.bind (jget raw outer) (\<lambda>v. jget v key)"

definition collectPublicTxHashes :: "json \<Rightarrow> string list" where
  "collectPublicTxHashes raw =
    (case jget raw ''publicTxHashes'' of
       Some (JArr vs) \<Rightarrow> List.map_filter (\<lambda>v. text_field (Some v)) vs
     | _ \<Rightarrow> filter (\<lambda>s. s \<noteq> []) (List.map_filter text_field
           [inner raw ''src'' ''lockTx'', inner raw ''dst'' ''lockTx'', inner raw ''secret'' ''revealedTx'']))"

definition buildPublicOrderEvidence :: "json \<Rightarrow> string + public_evidence" where
  "buildPublicOrderEvidence raw =
    (if \<not> is_object (Some raw) then Inl ''evidence export: order must be an object''
     else case find (\<lambda>f. present (jget raw f)) FORBIDDEN_ORDER_FIELDS of
         Some f \<Rightarrow> Inl (''evidence export: refusing to export order with non-public field '' @ f)
       | None \<Rightarrow>
          (case find (\<lambda>f. is_object (jget raw ''secret'') \<and> present (inner raw ''secret'' f)) FORBIDDEN_ORDER_FIELDS of
             Some f \<Rightarrow> Inl (''evidence export: refusing to export order with non-public field secret.'' @ f)
           | None \<Rightarrow>
              (let i = text_field (first_present [jget raw ''orderId'', jget raw ''id'', jget raw ''publicId'']);
                   status_text = text_field (first_present [jget raw ''currentState'', jget raw ''status''])
               in if i = None \<or> i = Some [] then Inl ''evidence export: order is missing a public id''
                  else if status_text = None \<or> status_text = Some [] then Inl ''evidence export: order is missing a status''
                  else Inr \<lparr>pe_orderId = the i, pe_status = the status_text, pe_txHashes = collectPublicTxHashes raw,
                    pe_direction = text_field (jget raw ''direction''),
                    pe_transitions = (case jget raw ''transitions'' of Some (JArr vs) \<Rightarrow> vs | _ \<Rightarrow> []),
                    pe_createdAt = number_field (inner raw ''timestamps'' ''createdAt''),
                    pe_updatedAt = number_field (inner raw ''timestamps'' ''updatedAt''),
                    pe_outcomeSummary = text_field (jget raw ''outcomeSummary'')\<rparr>)))"

text \<open>\<open>orders.map(buildPublicOrderEvidence)\<close>: the first refusal ends the export.\<close>

fun export_orders :: "json list \<Rightarrow> string + public_evidence list" where
  "export_orders [] = Inr []"
| "export_orders (raw # rest) =
    (case buildPublicOrderEvidence raw of Inl e \<Rightarrow> Inl e
     | Inr v \<Rightarrow> (case export_orders rest of Inl e \<Rightarrow> Inl e | Inr vs \<Rightarrow> Inr (v # vs)))"

section \<open>Receipts\<close>

datatype receipt_chain = Receipt_ethereum | Receipt_stellar
datatype receipt_status = Receipt_pending | Receipt_completed | Receipt_cancelled | Receipt_failed
datatype final_state = Final_completed | Final_refunded | Final_failed

record receipt_params =
  rp_ethToXlm :: bool
  rp_status :: receipt_status
  rp_ethTxHash :: "string option"
  rp_stellarTxHash :: "string option"
  rp_refundTxHash :: "string option"
  rp_refundNetwork :: "receipt_chain option"

record htlc_receipt =
  hr_sourceChain :: receipt_chain
  hr_lockTx :: "string \<times> receipt_chain"
  hr_claimTx :: "(string \<times> receipt_chain) option"
  hr_refundTx :: "(string \<times> receipt_chain) option"
  hr_finalState :: final_state

definition receipt_url :: "string \<times> receipt_chain \<Rightarrow> string" where
  "receipt_url link =
    (case link of (h, Receipt_ethereum) \<Rightarrow> ''https://sepolia.etherscan.io/tx/'' @ h
     | (h, Receipt_stellar) \<Rightarrow> ''https://stellar.expert/explorer/testnet/tx/'' @ h)"

definition buildHtlcReceipt :: "receipt_params \<Rightarrow> htlc_receipt" where
  "buildHtlcReceipt p =
    (let text_or = (\<lambda>a b. case a of Some t \<Rightarrow> t | None \<Rightarrow> (case b of Some t \<Rightarrow> t | None \<Rightarrow> []));
         lockHash = (if rp_ethToXlm p then text_or (rp_ethTxHash p) (rp_stellarTxHash p) else text_or (rp_stellarTxHash p) (rp_ethTxHash p));
         claimHash = (if rp_ethToXlm p then text_or (rp_stellarTxHash p) None else text_or (rp_ethTxHash p) None);
         refund = (if rp_refundTxHash p = None \<or> rp_refundTxHash p = Some [] then None else rp_refundTxHash p)
     in \<lparr>hr_sourceChain = (if rp_ethToXlm p then Receipt_ethereum else Receipt_stellar),
         hr_lockTx = (lockHash, if rp_ethToXlm p then Receipt_ethereum else Receipt_stellar),
         hr_claimTx = (if claimHash = [] then None else Some (claimHash, if rp_ethToXlm p then Receipt_stellar else Receipt_ethereum)),
         hr_refundTx = map_option (\<lambda>h. (h, case rp_refundNetwork p of Some c \<Rightarrow> c
             | None \<Rightarrow> if take 2 h = ''0x'' then Receipt_ethereum else Receipt_stellar)) refund,
         hr_finalState = (if rp_status p = Receipt_completed then Final_completed
           else if rp_status p = Receipt_pending then Final_failed
           else if refund \<noteq> None then Final_refunded else Final_failed)\<rparr>)"

record raw_log =
  lg_address :: string
  lg_topics :: "string list"
  lg_data :: string

datatype decoded_event = Order_created_event string nat nat | Other_decoded

record parsed_htlc_order =
  pho_v2 :: bool
  pho_address :: string
  pho_orderId :: string
  pho_amountWei :: string
  pho_timelock :: nat

fun parseHtlcReceipt :: "(raw_log \<Rightarrow> decoded_event option) \<Rightarrow> (raw_log \<Rightarrow> decoded_event option) \<Rightarrow> raw_log list \<Rightarrow> parsed_htlc_order option" where
  "parseHtlcReceipt decode2 decode1 [] = None"
| "parseHtlcReceipt decode2 decode1 (l # logs) =
    (if lg_topics l = [] \<or> lg_data l = [] then parseHtlcReceipt decode2 decode1 logs
     else case decode2 l of
         Some (Order_created_event i amount t) \<Rightarrow> Some \<lparr>pho_v2 = True, pho_address = lg_address l, pho_orderId = i,
             pho_amountWei = show_nat amount, pho_timelock = t\<rparr>
       | _ \<Rightarrow> (case decode1 l of
           Some (Order_created_event i amount t) \<Rightarrow> Some \<lparr>pho_v2 = False, pho_address = lg_address l, pho_orderId = i,
               pho_amountWei = show_nat amount, pho_timelock = t\<rparr>
         | _ \<Rightarrow> parseHtlcReceipt decode2 decode1 logs))"

section \<open>The amount field\<close>

definition sanitizeAmountInput :: "nat \<Rightarrow> string \<Rightarrow> string" where
  "sanitizeAmountInput maxDecimals raw =
    (let cleaned = filter (\<lambda>c. is_digit c \<or> c = CHR ''.'') (map (\<lambda>c. if c = CHR '','' then CHR ''.'' else c) raw);
         whole = takeWhile is_digit cleaned; rest = dropWhile is_digit cleaned
     in case rest of [] \<Rightarrow> whole | c # frac \<Rightarrow> whole @ ''.'' @ take maxDecimals (takeWhile is_digit frac))"

text \<open>The parser of the form; \<open>parseAmountToBaseUnits\<close> of \<open>Sdk_Amounts\<close> is the one of the coordinator.\<close>

definition form_base_units :: "int \<Rightarrow> string \<Rightarrow> int option" where
  "form_base_units decimals raw =
    (if decimals < 0 then None
     else case match_amount (trim_str raw) of None \<Rightarrow> None
       | Some (whole, frac) \<Rightarrow>
          if int (length frac) > decimals then None
          else let padded = padEnd frac (nat decimals) CHR ''0''
            in Some (int (parse_digits whole) * 10 ^ nat decimals + int (parse_digits (if padded = [] then ''0'' else padded))))"

definition amountMatchesQuote :: "int option \<Rightarrow> string option \<Rightarrow> bool" where
  "amountMatchesQuote formBaseUnits quoteBaseUnits =
    (case (formBaseUnits, quoteBaseUnits) of
       (Some n, Some t) \<Rightarrow> if \<not> is_base_unit_integer t then False else n = int (parse_digits t)
     | _ \<Rightarrow> False)"


section \<open>What is published\<close>

text \<open>A member of a body whose name satisfies \<open>P\<close>, at any depth.\<close>

fun carries :: "(string \<Rightarrow> bool) \<Rightarrow> json \<Rightarrow> bool" where
  "carries P (JArr vs) = list_ex (carries P) vs"
| "carries P (JObj kvs) = list_ex (\<lambda>kv. P (fst kv) \<or> carries P (snd kv)) kvs"
| "carries P v = False"

lemma redacted_carries_nothing: "\<not> carries (\<lambda>k. toLowerCase k \<in> set SENSITIVE_FIELDS) (redact_body hide False v)"
  by (induction v) (auto simp: list_ex_iff shown_field_def)

lemma shown_names_all:
  "list_all (shown_field False) [''id'', ''direction'', ''status'', ''hashlock'', ''src'', ''dst'', ''secret'', ''revealed'',
     ''revealedTx'', ''resolver'', ''createdAt'', ''updatedAt'', ''lockTx'', ''orderId'', ''currentState'', ''transitions'',
     ''publicTxHashes'', ''timestamps'', ''outcomeSummary''] \<and> \<not> shown_field False ''preimage''"
  by code_simp

lemma shown_names [simp]:
  "shown_field False ''id''" "shown_field False ''direction''" "shown_field False ''status''" "shown_field False ''hashlock''"
  "shown_field False ''src''" "shown_field False ''dst''" "shown_field False ''secret''" "shown_field False ''revealed''"
  "\<not> shown_field False ''preimage''" "shown_field False ''revealedTx''" "shown_field False ''resolver''"
  "shown_field False ''createdAt''" "shown_field False ''updatedAt''" "shown_field False ''lockTx''"
  "shown_field False ''orderId''" "shown_field False ''currentState''" "shown_field False ''transitions''"
  "shown_field False ''publicTxHashes''" "shown_field False ''timestamps''" "shown_field False ''outcomeSummary''"
  using shown_names_all by simp_all

lemma redact_opt [simp]: "redact_body hide False (opt_json JStr x) = opt_json (JStr \<circ> hide) x"
  by (simp add: opt_json_def split: option.split)

definition redacted_secret :: "(string \<Rightarrow> string) \<Rightarrow> order_view \<Rightarrow> json" where
  "redacted_secret hide vw =
    JObj [(''revealed'', JBool (vw_revealed vw)), (''revealedTx'', opt_json (JStr \<circ> hide) (vw_revealedTx vw))]"

lemma redacted_order:
  "redact_body hide False (order_body names vw) =
    JObj [(''id'', JStr (hide (vw_id vw))), (''direction'', JStr (hide (on_direction names (vw_direction vw)))),
      (''status'', JStr (hide (on_status names (vw_status vw)))), (''hashlock'', JStr (hide (vw_hashlock vw))),
      (''src'', redact_body hide False (leg_json (on_chain names) (Some (vw_safetyDeposit vw)) (vw_src vw))),
      (''dst'', redact_body hide False (leg_json (on_chain names) None (vw_dst vw))),
      (''secret'', redacted_secret hide vw), (''resolver'', opt_json (JStr \<circ> hide) (vw_resolver vw)),
      (''createdAt'', JNum (vw_createdAt vw)), (''updatedAt'', JNum (vw_updatedAt vw))]"
  by (simp add: order_body_def redacted_secret_def)

text \<open>Outside a successful look-up of a secret, the redacted body that is handed to Express has no member at any depth, whose name is that of a preimage, an authorization, a private key, a wallet secret or a bearer token in any spelling, whatever the
  route put there. In particular an order whose preimage is known is published without it, and with every other member of its secret.\<close>

theorem published_bodies_carry_no_secret:
  "\<not> carries (\<lambda>k. toLowerCase k \<in> set SENSITIVE_FIELDS) (redact_body hide False v)
   \<and> jget (redact_body hide False (order_body names vw)) ''secret'' =
       Some (redacted_secret hide vw)"
  by (simp add: redacted_carries_nothing redacted_order jget_def)

section \<open>The exporter and the coordinator\<close>

lemma order_refused: "buildPublicOrderEvidence (redact_body hide False (order_body names vw)) =
    Inl (''evidence export: refusing to export order with non-public field '' @ ''hashlock'')"
  by (simp add: redacted_order buildPublicOrderEvidence_def FORBIDDEN_ORDER_FIELDS_def jget_def is_object_def present_def)

lemma redact_texts: "map (redact_body hide False \<circ> (JStr \<circ> f)) xs = map (JStr \<circ> (hide \<circ> f)) xs"
  by simp

lemma redacted_snapshot:
  "redact_body hide False (snapshot_body names s) =
    JObj [(''orderId'', JStr (hide (sn_orderId s))), (''currentState'', JStr (hide (on_status names (sn_currentState s)))),
      (''transitions'', JArr (map (JStr \<circ> hide) (sn_transitions s))), (''publicTxHashes'', JArr (map (JStr \<circ> hide) (sn_publicTxHashes s))),
      (''timestamps'', JObj [(''createdAt'', JNum (sn_createdAt s)), (''updatedAt'', JNum (sn_updatedAt s))]),
      (''direction'', JStr (hide (on_direction names (sn_direction s)))), (''outcomeSummary'', JStr (hide (sn_outcomeSummary s)))]"
  by (simp add: snapshot_body_def comp_def)

lemma texts_read_back: "List.map_filter (\<lambda>v. text_field (Some v)) (map (JStr \<circ> f) xs) = map f xs"
  by (induction xs) (simp_all add: List.map_filter_simps text_field_def)

lemma texts_read_back_case:
  "List.map_filter (case_json None (\<lambda>b. None) (\<lambda>i. None) (\<lambda>t. None) Some (\<lambda>vs. None) (\<lambda>kvs. None)) (map (JStr \<circ> f) xs) = map f xs"
  by (induction xs) (simp_all add: List.map_filter_simps)

text \<open>The frontend exports evidence from what \<open>GET /api/orders/snapshot\<close> serves and from nothing else the coordinator serves: every
  served snapshot with an id and a state becomes the evidence with exactly its id, state, hashes, transitions, times, direction and outcome,
  while every order of the other routes is refused, because the hash lock is always among its members.\<close>

theorem evidence_only_from_snapshots:
  assumes "hide (sn_orderId s) \<noteq> []" and "hide (on_status names (sn_currentState s)) \<noteq> []"
  shows "export_orders [redact_body hide False (snapshot_body names s)] =
      Inr [\<lparr>pe_orderId = hide (sn_orderId s), pe_status = hide (on_status names (sn_currentState s)),
        pe_txHashes = map hide (sn_publicTxHashes s), pe_direction = Some (hide (on_direction names (sn_direction s))),
        pe_transitions = map (JStr \<circ> hide) (sn_transitions s), pe_createdAt = Some (JNum (sn_createdAt s)),
        pe_updatedAt = Some (JNum (sn_updatedAt s)), pe_outcomeSummary = Some (hide (sn_outcomeSummary s))\<rparr>]
    \<and> (\<forall>vw. export_orders (map (redact_body hide False) [snapshot_body names s, order_body names vw]) =
      Inl (''evidence export: refusing to export order with non-public field '' @ ''hashlock''))"
proof -
  have "buildPublicOrderEvidence (redact_body hide False (snapshot_body names s)) =
      Inr \<lparr>pe_orderId = hide (sn_orderId s), pe_status = hide (on_status names (sn_currentState s)),
        pe_txHashes = map hide (sn_publicTxHashes s), pe_direction = Some (hide (on_direction names (sn_direction s))),
        pe_transitions = map (JStr \<circ> hide) (sn_transitions s), pe_createdAt = Some (JNum (sn_createdAt s)),
        pe_updatedAt = Some (JNum (sn_updatedAt s)), pe_outcomeSummary = Some (hide (sn_outcomeSummary s))\<rparr>"
    using assms unfolding redacted_snapshot
    by (simp add: buildPublicOrderEvidence_def FORBIDDEN_ORDER_FIELDS_def jget_def is_object_def present_def text_field_def number_field_def
        inner_def collectPublicTxHashes_def texts_read_back_case)
  then show ?thesis by (simp add: order_refused)
qed

definition sample_snapshot :: order_snapshot where
  "sample_snapshot = \<lparr>sn_orderId = ''ord_1'', sn_currentState = Announced, sn_transitions = [''announced''], sn_publicTxHashes = [],
    sn_createdAt = 1, sn_updatedAt = 2, sn_direction = Eth_to_xlm, sn_outcomeSummary = ''Order announced''\<rparr>"

definition sample_names :: order_names where
  "sample_names = \<lparr>on_chain = (\<lambda>_. ''ethereum''), on_direction = (\<lambda>_. ''eth_to_xlm''), on_status = (\<lambda>_. ''announced'')\<rparr>"

theorem evidence_only_from_snapshots_witness:
  "sn_orderId sample_snapshot \<noteq> [] \<and> on_status sample_names Announced \<noteq> [] \<and>
   (\<exists>e. export_orders [redact_body (\<lambda>t. t) False (snapshot_body sample_names sample_snapshot)] = Inr [e] \<and> pe_orderId e = ''ord_1'')"
  using evidence_only_from_snapshots [of "\<lambda>t. t" sample_snapshot sample_names]
  by (simp add: sample_snapshot_def sample_names_def)

section \<open>Receipts and amounts\<close>

text \<open>A swap still running is reported as failed on the receipt, with or without a refund.\<close>

lemma pending_receipt_failed: "rp_status p = Receipt_pending \<Longrightarrow> hr_finalState (buildHtlcReceipt p) = Final_failed"
  by (simp add: buildHtlcReceipt_def Let_def)

lemma receipt_link_chain:
  "snd (hr_lockTx (buildHtlcReceipt p)) = hr_sourceChain (buildHtlcReceipt p)"
  "hr_claimTx (buildHtlcReceipt p) = Some (h, c) \<Longrightarrow> c \<noteq> hr_sourceChain (buildHtlcReceipt p)"
  by (auto simp: buildHtlcReceipt_def Let_def split: if_splits)

lemma form_is_coordinator:
  "form_base_units d raw = (case parseAmountToBaseUnits raw d of Inl e \<Rightarrow> None | Inr n \<Rightarrow> Some n)"
  by (auto simp: form_base_units_def parseAmountToBaseUnits_def Let_def split: option.split)

lemma sanitized_shape:
  "\<exists>w f. list_all is_digit w \<and> list_all is_digit f \<and> length f \<le> d
     \<and> (sanitizeAmountInput d raw = w \<or> sanitizeAmountInput d raw = w @ CHR ''.'' # f)"
proof -
  define s where "s = filter (\<lambda>c. is_digit c \<or> c = CHR ''.'') (map (\<lambda>c. if c = CHR '','' then CHR ''.'' else c) raw)"
  have digits: "list_all is_digit (takeWhile is_digit x)" for x by (auto simp: list_all_iff dest: set_takeWhileD)
  have "list_all is_digit (take d (takeWhile is_digit x))" for x by (auto simp: list_all_iff dest!: in_set_takeD set_takeWhileD)
  then have "sanitizeAmountInput d raw = takeWhile is_digit s \<or>
      (\<exists>f. list_all is_digit f \<and> length f \<le> d \<and> sanitizeAmountInput d raw = takeWhile is_digit s @ CHR ''.'' # f)"
    by (auto simp: sanitizeAmountInput_def s_def Let_def split: list.split)
  then show ?thesis
  proof (elim disjE exE conjE)
    show ?thesis if "sanitizeAmountInput d raw = takeWhile is_digit s"
      using digits [of s] that by (intro exI [of _ "takeWhile is_digit s"] exI [of _ "[]"]) simp
  qed (use digits [of s] in blast)
qed

lemma match_amount_sanitized:
  assumes "list_all is_digit w" and "list_all is_digit f"
  shows "match_amount w = (if w = [] then None else Some (w, []))"
    and "match_amount (w @ CHR ''.'' # f) =
      (if w \<noteq> [] then Some (w, f) else if f \<noteq> [] then Some (''0'', f) else None)"
  using takeWhile_digits_all [OF assms(1), THEN conjunct1] takeWhile_digits_all [OF assms(1), THEN conjunct2] assms
  by (simp_all only: match_amount_def Let_def) (simp_all add: takeWhile_append2 dropWhile_append2 list_all_iff)

lemma trim_sanitized: "list_all (\<lambda>c. is_digit c \<or> c = CHR ''.'') t \<Longrightarrow> trim_str t = t"
proof -
  have no: "\<not> is_space c" if "is_digit c \<or> c = CHR ''.''" for c using that by (auto simp: is_digit_def is_space_def)
  assume "list_all (\<lambda>c. is_digit c \<or> c = CHR ''.'') t"
  then have nosp: "\<forall>c\<in>set t. \<not> is_space c" using no by (auto simp: list_all_iff)
  have drop: "dropWhile is_space u = u" if "\<forall>c\<in>set u. \<not> is_space c" for u using that by (cases u) auto
  have "dropWhile is_space t = t" by (rule drop) (rule nosp)
  moreover have "dropWhile is_space (rev t) = rev t" by (rule drop) (simp add: nosp)
  ultimately show "trim_str t = t" unfolding trim_str_def by (simp only: rev_rev_ident)
qed

lemma quote_text: "is_base_unit_integer q \<and> m = parse_digits q \<longleftrightarrow> q = show_nat m"
proof (cases "m = 0")
  case True
  have "show_nat 0 = ''0''" by code_simp
  then show ?thesis using True parse_digits_pos [of q] by (auto simp: is_base_unit_integer_def parse_digits_def digit_val_def)
next
  case False
  have "parse_digits ''0'' = 0" by (simp add: parse_digits_def digit_val_def)
  then show ?thesis using False show_parse_digits [of q] hd_show_nat [of m] parse_show_nat [of m]
    by (auto simp: is_base_unit_integer_def simp del: parse_show_nat)
qed

lemma form_value:
  assumes "trim_str t = t" and "match_amount t = Some (w, f)" and "length f \<le> d"
  shows "\<exists>n. form_base_units (int d) t = Some (int n)"
proof -
  have "form_base_units (int d) t = Some (int (parse_digits w * 10 ^ d
      + parse_digits (if padEnd f d CHR ''0'' = [] then ''0'' else padEnd f d CHR ''0'')))"
    using assms by (simp add: form_base_units_def Let_def)
  then show ?thesis by blast
qed

text \<open>C40: Whatever is typed, the amount field keeps a text that the form and the coordinator read alike: it is empty, a lone point, or both
  parsers give the same natural number of base units, without an error; and the quote gate's comparison accepts exactly one quote text for
  it, the canonical decimal text of that number.\<close>

theorem typed_amounts_agree:
  "sanitizeAmountInput d raw \<in> {[], ''.''} \<and> form_base_units (int d) (sanitizeAmountInput d raw) = None
   \<or> (\<exists>n. parseAmountToBaseUnits (sanitizeAmountInput d raw) (int d) = Inr (int n)
        \<and> form_base_units (int d) (sanitizeAmountInput d raw) = Some (int n)
        \<and> {q. amountMatchesQuote (form_base_units (int d) (sanitizeAmountInput d raw)) (Some q)} = {show_nat n})"
proof -
  obtain w f where wf: "list_all is_digit w" "list_all is_digit f" "length f \<le> d"
    and t: "sanitizeAmountInput d raw = w \<or> sanitizeAmountInput d raw = w @ CHR ''.'' # f"
    using sanitized_shape by blast
  have trim: "trim_str w = w" "trim_str (w @ CHR ''.'' # f) = w @ CHR ''.'' # f"
    using wf by (auto intro!: trim_sanitized simp: list_all_iff)
  let ?t = "sanitizeAmountInput d raw"
  have same: "trim_str ?t = ?t" using t trim by auto
  show ?thesis
  proof (cases "match_amount ?t")
    case None
    then have "?t \<in> {[], ''.''}" using t match_amount_sanitized [OF wf(1,2)] by (auto split: if_splits)
    then show ?thesis using None same by (simp add: form_base_units_def)
  next
    case (Some p)
    then have "length (snd p) \<le> d" using t wf(3) match_amount_sanitized [OF wf(1,2)] by (auto split: if_splits)
    then obtain n where n: "form_base_units (int d) ?t = Some (int n)" using form_value [OF same, of "fst p" "snd p" d] Some by auto
    then have "parseAmountToBaseUnits ?t (int d) = Inr (int n)" using form_is_coordinator [of "int d" ?t] by (simp split: sum.splits)
    moreover have "{q. amountMatchesQuote (Some (int n)) (Some q)} = {show_nat n}"
      using quote_text [of _ n] by (auto simp: amountMatchesQuote_def)
    ultimately show ?thesis using n by auto
  qed
qed

end
