(* ===== verification/Spec2Isabelle.thy ===== *)
theory Spec2Isabelle
  imports Http_Routes Relay_Recovery Partial_Fills Event_History Client_Subscriptions Resolver_Planner
    Sdk_Lifecycle Contract_Poller Payment_Blindness Stellar_Htlc Order_Book
    Price_Cache Chain_Monitor Payment_Monitor Quote_Gate Process_Payouts
    Order_Races Escrow_Monitor Ws_Server Event_Api Preset_Manager Quote_Routes Public_Views
begin

text \<open>
  Verification of OverSync, a bridge that swaps ETH on Ethereum against XLM on Stellar with hash
  time-locked contracts.

  \<^bold>\<open>The program.\<close> A user announces an order to the coordinator (\<open>coordinator/\<close>), locks the source
  funds, a resolver (\<open>resolver/\<close>) or the relayer (\<open>relayer/\<close>) locks the destination funds under the
  same hashlock, and the preimage that claims one leg opens the other. The coordinator keeps the
  orders in a database, learns of locks, claims and refunds from chain listeners and from its HTTP
  routes, and moves every order along one state machine. The relayer signs and broadcasts
  transactions through a tracker that has to keep an order from being paid twice. The SDK
  (\<open>packages/sdk\<close>) holds what they share: amounts, secrets and digests.

  \<^bold>\<open>Order of the theories.\<close> \<open>OS_Prelude\<close> has text, digits, association updates and the computations
  \<open>('s, 'e, 'a) comp\<close> (state passing with exceptions) that asynchronous methods become. The other
  theories model one file, or a few files, of the program each.

  \<^bold>\<open>Coordinator.\<close>
  \<^item> \<open>Order_Machine\<close>: \<open>state-machine/order-machine.ts\<close>. The edge table and the indexes that loops
    derive from it; \<open>lifecycle_step\<close> is the abstract specification.
  \<^item> \<open>Timelocks\<close>: \<open>utils/timelock-validator.ts\<close>.
  \<^item> \<open>Coord_Types\<close>, \<open>Orders_Repo\<close>: the rows of the five tables and \<open>persistence/orders-repo.ts\<close>. A
    table is a list of rows, a prepared statement a list operation. The locale \<open>row_writer\<close> is what the
    services rely on, and is interpreted for each writer of the repository.
  \<^item> \<open>Quotes\<close>: \<open>services/quote-service.ts\<close>, issued quotes and the price cache.
  \<^item> \<open>Order_Service\<close>, \<open>Order_Invariants\<close>: \<open>services/order-service.ts\<close>. \<open>advance\<close> is the only way an
    order changes status; the locale \<open>edge_writer\<close> extends \<open>row_writer\<close> by the edge of the machine. The
    locale \<open>service_invariant\<close> is the interface towards the callers: a predicate that every method
    keeps. It is interpreted for the schema, for the order of lifecycles, for the well-formedness of
    rows, for the uniqueness of hashlocks and for the frame of the tables. \<open>Order_Races\<close>: a call taken apart into its read and its
    write, and what overlapping calls do.
  \<^item> \<open>Sdk_Secrets\<close>, \<open>Secret_Service\<close>: \<open>packages/sdk/src/secrets\<close>, \<open>services/secret-service.ts\<close>. The
    digests \<open>sha\<close> and \<open>keccak\<close> of the library are parameters; what depends on them is stated up to a
    collision, so no property assumes that there is none.
  \<^item> \<open>Order_Events\<close>, \<open>Chain_Events\<close>: \<open>listeners/order-events.ts\<close>, \<open>soroban-events.ts\<close>, the
    conversions of \<open>ethereum-listener.ts\<close>, and \<open>services/chain-events.ts\<close> (batches, cursors, dedupe).
  \<^item> \<open>Coordinator\<close>: \<open>serve\<close> is one entry point that changes state, \<open>reachable\<close> what sequences of them
    produce from the empty database. Here the invariants become statements about every reachable state.
  \<^item> \<open>Json_Text\<close>, \<open>History_Cursor\<close>, \<open>History_Pages\<close>, \<open>Http_Routes\<close>: JSON and base64url as the runtime
    has them, \<open>server/routes/cursor-utils.ts\<close>, the history route with the client that follows its
    cursors (\<open>frontend/src/lib/orderHistoryCursor.ts\<close>), and every other route with its body checks,
    statuses and error bodies, CORS and the rate limiter. \<open>app_handle\<close> composes them as \<open>createApp\<close> does.
  \<^item> \<open>Public_Views\<close>: \<open>server/public-response-redaction.ts\<close>, with what the frontend makes of the bodies and of typed amounts
    (\<open>frontend/src/lib/evidence.ts\<close>, \<open>parseHtlcReceipt.ts\<close>, \<open>sanitizeAmountInput.ts\<close>).

  \<^bold>\<open>Whole calls.\<close> A call of the coordinator is one step of its model. With the default SQLite backend, whose statements are synchronous,
  a request is not interrupted between its reads and its writes, so runs of the coordinator are sequences of calls. The PostgreSQL
  backend awaits every statement, and there is no transaction around a call; the properties over sequences of calls do not speak
  of overlapping calls there, and \<open>Order_Races\<close> has two that break them.

  \<^bold>\<open>SDK.\<close> \<open>Sdk_Amounts\<close>: \<open>packages/sdk/src/amounts\<close>, exact conversion between wei and stroops and the text
  of amounts. \<open>Sdk_Lifecycle\<close>: the copy of the machine in \<open>packages/sdk/src/state-machine\<close>, the refund
  timeline and the freshness banner of the frontend, compared with the coordinator.

  \<^bold>\<open>Numbers.\<close> \<open>Js_Number\<close>, \<open>Js_Arith\<close>: the numbers of JavaScript as rationals rounded to binary64, with
  their texts. They are used where the code computes with them: prices, payouts and the Stellar gate.

  \<^bold>\<open>Relayer.\<close>
  \<^item> \<open>Relay_Store\<close>, \<open>Relay_Tracker\<close>: \<open>relay-submission-store.ts\<close>, \<open>relay-submission-tracker.ts\<close>. Records
    are objects in a heap, shared between the map and the running operations; each continuation between
    two waits is one definition, and the answers of stager, broadcast and confirmer are its arguments.
  \<^item> \<open>Relay_Safety\<close>, \<open>Relay_Durability\<close>, \<open>Relay_Guarantees\<close>: the invariant of the tracker, restarts over
    a store (the locale \<open>submission_store\<close>, interpreted for both stores), and the guarantees over runs.
  \<^item> \<open>Relay_Recovery\<close>: \<open>recovery-service.ts\<close> on top of the tracker. \<open>Relay_Port\<close>: staging, broadcast and
    confirmation in \<open>relay-submission-port.ts\<close>, which give the tracker its answers.
  \<^item> \<open>Refund_Watchdog\<close>: \<open>refund-watchdog.ts\<close> and \<open>order-poll-utils.ts\<close> over the tracker; \<open>Relay_Progress\<close>
    has what an event of the tracker keeps of settled records.
  \<^item> \<open>Payout_Amounts\<close>, \<open>Relay_Handlers\<close>, \<open>Relay_Payouts\<close>, \<open>Payment_Blindness\<close>: the handlers of \<open>index.ts\<close>
    that release ETH and refund XLM, with \<open>xlm-refund.ts\<close> and \<open>ethereum-rpc-url.ts\<close>. A request is an
    entry with the phase it waits in; \<open>handler_run\<close> interleaves requests, scans and tracker events.
  \<^item> \<open>Contract_Poller\<close>: \<open>adaptive-poll.ts\<close> and \<open>contract-event-poller.ts\<close>, timers, runs and the cursor.
  \<^item> \<open>Chain_Monitor\<close>, \<open>Payment_Monitor\<close>, \<open>Price_Cache\<close>: further parts of \<open>index.ts\<close>, with \<open>site-presence.ts\<close>
    and \<open>eth-incoming-monitor.ts\<close>: when the chain is watched, which deposits are seen and what they set off, and the
    prices. \<open>Relay_Quoter\<close>, \<open>Quote_Gate\<close>: \<open>quoter-service.ts\<close>, and its gate over the coordinator's route.
    \<open>Order_Create\<close>: \<open>POST /api/orders/create\<close>,
    and what the other routes make of its orders; \<open>Escrow_Monitor\<close>: deposits of ETH, the escrow the relayer creates for them, and the
    events of the factory. \<open>Process_Payouts\<close>: \<open>POST /api/orders/process\<close>. \<open>Order_Book\<close>: \<open>orders.ts\<close> and \<open>utils.ts\<close>, the active orders in the format of 1inch Fusion+.
  \<^item> \<open>Merkle_Tree\<close>, \<open>Partial_Fills\<close>: \<open>merkle-tree.ts\<close>, \<open>partial-fills.ts\<close>.
  \<^item> \<open>Fusion_Events\<close>, \<open>Event_History\<close>, \<open>Client_Subscriptions\<close>: \<open>event-handlers.ts\<close>, \<open>event-history.ts\<close>,
    \<open>client-subscriptions.ts\<close>, the event bus and its two consumers; \<open>Event_Api\<close>: \<open>rpc-methods.ts\<close> and the event routes;
    \<open>Ws_Server\<close>: \<open>websocket-server.ts\<close>, its sockets, messages, redaction and pings.
  \<^item> \<open>Gas_Tracker\<close>, \<open>Preset_Manager\<close>, \<open>Quote_Routes\<close>: \<open>gas-tracker.ts\<close>, \<open>preset-manager.ts\<close> and the routes of \<open>index.ts\<close> for gas
    prices, presets and quotes.

  \<^bold>\<open>Stellar.\<close> \<open>Balance_Match\<close>, \<open>Stellar_Htlc\<close>: \<open>claimable-balance-match.ts\<close> and \<open>claimable-balance.ts\<close>; the
  SDK of Stellar and Horizon are the arguments collected in \<open>stellar_env\<close>.

  \<^bold>\<open>Resolver.\<close> \<open>Resolver_Planner\<close>: \<open>planner/\<close> and \<open>network-agreement.ts\<close>.

  \<^bold>\<open>What is shown.\<close> For the coordinator: well-formedness, uniqueness of hashlocks and typing of terms in
  every reachable state; refinement of the machine by every sequence of service calls; what one
  call changes on each branch; that only authentic preimages are stored, and that a new one that arrives in time is;
  exactly-once batches; that an honest swap completes; that replies tell the truth about the store; that
  a walk through the history ends and misses nothing. For the relayer: at most one broadcast per key
  and one live action per order over all interleavings and restarts, with the hash on record; what the
  tree root binds; what the event history answers; that no queued event is delivered twice; that a
  payout or refund that is reported is recorded and the only live one of its order, how much is paid, and that the handlers
  do not look at the payment; that the poller skips no log, that monitoring
  follows the orders, which quotes a payment needs and how often it is made, how many locks a deposit funds and when one is funded, and how old a price can be; that no body or socket message carries a secret by name. For Stellar: that only the escrow of an
  order is claimed, and what reaches the chain of its lock. For the resolver: which plans are submitted and how their timelocks relate. Some properties state how the
  code falls short of its own comments; they say so in their text.

  \<^bold>\<open>Bounds and fuel.\<close> The JSON parser has the length of the text plus one as fuel, enough because every
  value it enters has consumed a character (\<open>JSON_parse_stringify\<close>). \<open>history_walk\<close> has the number of
  requests as fuel; \<open>history_walk_is_complete\<close> shows that the number of orders plus one is enough. All
  other functions are total by structural recursion or a measure. Integers of the code are \<open>int\<close>: they
  are \<open>bigint\<close>, database integers, or numbers the code checks to be integers. Bytes are \<open>8 word\<close>.

  \<^bold>\<open>Not modelled.\<close> The Solidity and Rust contracts (other languages), the React components, and of the frontend's library what is neither
  the history client, the banner, the exports nor the amount field; database drivers, process wiring, logging and metrics. Of the relayer, the
  wiring of Express and of the sockets, the routes of \<open>index.ts\<close> that only report, the start of its services, and calls of chain libraries.
  The private method \<open>track\<close> of the relay tracker is missing from the file at this commit, where a
  fragment of an older method stands in its place; see \<open>Relay_Tracker\<close> for how it is treated.
  Prices and latencies that only inform a user are left out.
\<close>

end
